(* ===== verification/Rd_Prelude.thy ===== *)
theory Rd_Prelude
  imports Main "HOL-Library.Multiset"
begin

text \<open>
  Shared vocabulary of the development.

  \<^item> \<open>fault\<close> and \<open>'a res\<close>: the memory faults of the C++ code as values. Every
    \<open>operator[]\<close> of a vector whose index the code does not check, and every
    dereference of a pointer that may be NULL, is a branch that yields \<open>Inl\<close>, and so are
    a remainder whose divisor may be 0 and a pointer used after its object was deleted.
  \<^item> \<open>vec_at\<close>, \<open>vec_mod\<close>, \<open>vec_ins\<close>, \<open>vec_del\<close>: a \<open>std::vector\<close> indexed by a signed
    \<open>int\<close>, as the code indexes it.
  \<^item> \<open>qtime\<close>: Qt 3's \<open>QTime\<close>, milliseconds since midnight. \<open>QTime()\<close> is midnight, and
    \<open>isNull()\<close> is the test for midnight (Qt 3 documents both); \<open>addMSecs\<close> wraps at
    midnight. \<open>qdatetime\<close> is \<open>QDateTime\<close> as a number of milliseconds, null being 0.
  \<^item> the list lemmas the components share, collected in \<open>vec_simps\<close>.
\<close>

section \<open>Faults and results\<close>

datatype fault = NullDeref | OutOfRange | DivByZero | Dangling

type_synonym 'a res = "fault + 'a"

definition res_bind :: "'a res \<Rightarrow> ('a \<Rightarrow> 'b res) \<Rightarrow> 'b res" where
  "res_bind r f = (case r of Inl e \<Rightarrow> Inl e | Inr x \<Rightarrow> f x)"

definition res_ok :: "'a res \<Rightarrow> bool" where
  "res_ok r = (case r of Inl _ \<Rightarrow> False | Inr _ \<Rightarrow> True)"

definition of_ptr :: "'a option \<Rightarrow> 'a res" where
  "of_ptr p = (case p of None \<Rightarrow> Inl NullDeref | Some x \<Rightarrow> Inr x)"

lemma res_bind_simps [simp]:
  "res_bind (Inr x) f = f x"
  "res_bind (Inl e) f = Inl e"
  by (simp_all add: res_bind_def)

lemma res_bind_eq_Inr [simp]:
  "res_bind r f = Inr y \<longleftrightarrow> (\<exists>x. r = Inr x \<and> f x = Inr y)"
  by (cases r) auto

lemma res_ok_simps [simp]: "res_ok (Inr x)" "\<not> res_ok (Inl e)"
  by (simp_all add: res_ok_def)

lemma res_okE: "res_ok r \<Longrightarrow> (\<And>x. r = Inr x \<Longrightarrow> P) \<Longrightarrow> P"
  by (cases r) auto

lemma of_ptr_simps [simp]: "of_ptr None = Inl NullDeref" "of_ptr (Some x) = Inr x"
  by (simp_all add: of_ptr_def)

section \<open>Vectors indexed by int\<close>

definition vec_in :: "'a list \<Rightarrow> int \<Rightarrow> bool" where
  "vec_in xs i \<longleftrightarrow> 0 \<le> i \<and> i < int (length xs)"

definition vec_at :: "'a list \<Rightarrow> int \<Rightarrow> 'a option" where
  "vec_at xs i = (if vec_in xs i then Some (xs ! nat i) else None)"

text \<open>\<open>v[i]\<close> without a check: a fault when the index is out of range.\<close>

definition vec_get :: "'a list \<Rightarrow> int \<Rightarrow> 'a res" where
  "vec_get xs i = (if vec_in xs i then Inr (xs ! nat i) else Inl OutOfRange)"

definition vec_mod :: "('a \<Rightarrow> 'a) \<Rightarrow> int \<Rightarrow> 'a list \<Rightarrow> 'a list res" where
  "vec_mod f i xs = (if vec_in xs i then Inr (xs[nat i := f (xs ! nat i)]) else Inl OutOfRange)"

definition list_ins :: "nat \<Rightarrow> 'a \<Rightarrow> 'a list \<Rightarrow> 'a list" where
  "list_ins k x xs = take k xs @ x # drop k xs"

definition list_del :: "nat \<Rightarrow> nat \<Rightarrow> 'a list \<Rightarrow> 'a list" where
  "list_del k n xs = take k xs @ drop (k + n) xs"

text \<open>
  \<open>v.insert(v.begin()+i,1,x)\<close>: the iterator must lie in \<open>[begin,end]\<close>.
  \<open>v.erase(it,it+n)\<close>: the range must lie in \<open>[begin,end]\<close>.
\<close>

definition vec_ins :: "int \<Rightarrow> 'a \<Rightarrow> 'a list \<Rightarrow> 'a list res" where
  "vec_ins i x xs =
     (if 0 \<le> i \<and> i \<le> int (length xs) then Inr (list_ins (nat i) x xs) else Inl OutOfRange)"

definition vec_del :: "int \<Rightarrow> int \<Rightarrow> 'a list \<Rightarrow> 'a list res" where
  "vec_del i n xs =
     (if 0 \<le> i \<and> 0 \<le> n \<and> i + n \<le> int (length xs)
      then Inr (list_del (nat i) (nat n) xs) else Inl OutOfRange)"

text \<open>Moving one element: the abstract operation behind every \<open>move(from,to)\<close>.\<close>

definition list_move :: "nat \<Rightarrow> nat \<Rightarrow> 'a list \<Rightarrow> 'a list" where
  "list_move i j xs = list_ins j (xs ! i) (list_del i 1 xs)"

named_theorems vec_simps

lemma vec_in_nat [simp]: "vec_in xs (int k) \<longleftrightarrow> k < length xs"
  by (simp add: vec_in_def)

lemma vec_at_nat [simp]: "vec_at xs (int k) = (if k < length xs then Some (xs ! k) else None)"
  by (simp add: vec_at_def)

lemma vec_at_Some: "vec_at xs i = Some x \<longleftrightarrow> 0 \<le> i \<and> i < int (length xs) \<and> x = xs ! nat i"
  by (auto simp: vec_at_def vec_in_def)

lemma vec_at_None: "vec_at xs i = None \<longleftrightarrow> i < 0 \<or> int (length xs) \<le> i"
  by (auto simp: vec_at_def vec_in_def)

lemma vec_mod_nat [simp]:
  "vec_mod f (int k) xs = (if k < length xs then Inr (xs[k := f (xs ! k)]) else Inl OutOfRange)"
  by (simp add: vec_mod_def)

lemma length_list_ins [vec_simps, simp]: "length (list_ins k x xs) = Suc (length xs)"
  by (simp add: list_ins_def)

lemma length_list_del [vec_simps]:
  "k + n \<le> length xs \<Longrightarrow> length (list_del k n xs) = length xs - n"
  by (simp add: list_del_def)

lemma set_list_ins [vec_simps]: "set (list_ins k x xs) = insert x (set xs)"
  unfolding list_ins_def by (metis Un_insert_right append_take_drop_id list.simps(15) set_append)

lemma mset_list_ins [vec_simps]: "mset (list_ins k x xs) = add_mset x (mset xs)"
  unfolding list_ins_def by (metis append_take_drop_id mset.simps(2) mset_append union_mset_add_mset_right)

lemma map_list_ins [vec_simps]: "map f (list_ins k x xs) = list_ins k (f x) (map f xs)"
  by (simp add: list_ins_def take_map drop_map)

lemma map_list_del [vec_simps]: "map f (list_del k n xs) = list_del k n (map f xs)"
  by (simp add: list_del_def take_map drop_map)

lemma nth_list_ins [vec_simps]:
  "k \<le> length xs \<Longrightarrow> i \<le> length xs \<Longrightarrow>
   list_ins k x xs ! i = (if i < k then xs ! i else if i = k then x else xs ! (i - 1))"
proof -
  assume k: "k \<le> length xs" and i: "i \<le> length xs"
  show ?thesis
  proof (cases "i \<le> k")
    case True
    with k show ?thesis by (auto simp: list_ins_def nth_append)
  next
    case False
    then obtain d where "i = k + Suc d" by (metis less_iff_Suc_add not_le add_Suc_right)
    with k i show ?thesis by (simp add: list_ins_def nth_append)
  qed
qed

lemma nth_list_del [vec_simps]:
  "k + n \<le> length xs \<Longrightarrow> i < length xs - n \<Longrightarrow>
   list_del k n xs ! i = (if i < k then xs ! i else xs ! (i + n))"
  by (auto simp: list_del_def nth_append min_def add.commute)

lemma set_list_del_subset: "set (list_del k n xs) \<subseteq> set xs"
  unfolding list_del_def by (auto dest: in_set_takeD in_set_dropD)

lemma list_del_ins [vec_simps]: "k \<le> length xs \<Longrightarrow> list_del k 1 (list_ins k x xs) = xs"
  by (simp add: list_del_def list_ins_def)

lemma distinct_list_ins [vec_simps]:
  "distinct (list_ins k x xs) \<longleftrightarrow> x \<notin> set xs \<and> distinct xs"
proof -
  have "mset (list_ins k x xs) = mset (x # xs)"
    by (simp add: mset_list_ins)
  then have "distinct (list_ins k x xs) \<longleftrightarrow> distinct (x # xs)"
    by (rule mset_eq_imp_distinct_iff)
  then show ?thesis by simp
qed

lemma distinct_list_del: "distinct xs \<Longrightarrow> distinct (list_del k n xs)"
  unfolding list_del_def
  by (auto simp: set_take_disj_set_drop_if_distinct)

lemma mset_list_move: "i < length xs \<Longrightarrow> mset (list_move i j xs) = mset xs"
proof -
  assume i: "i < length xs"
  have "mset xs = mset (take i xs @ xs ! i # drop (Suc i) xs)"
    using i by (simp flip: id_take_nth_drop)
  then show ?thesis
    by (simp add: list_move_def mset_list_ins list_del_def)
qed

text \<open>Copying an element to its new place first and removing the old one after it: the
  order in which the code does it, forwards and backwards.\<close>

lemma list_move_up:
  assumes "i < length xs" "j < length xs" "i \<le> j"
  shows "list_del i 1 (list_ins (j + 1) (xs ! i) xs) = list_move i j xs"
proof (rule nth_equalityI)
  show "length (list_del i 1 (list_ins (j + 1) (xs ! i) xs)) = length (list_move i j xs)"
    using assms by (simp add: list_move_def length_list_del)
next
  fix k assume "k < length (list_del i 1 (list_ins (j + 1) (xs ! i) xs))"
  then have "k < length xs" using assms by (simp add: length_list_del)
  then show "list_del i 1 (list_ins (j + 1) (xs ! i) xs) ! k = list_move i j xs ! k"
    using assms
    by (auto simp: list_move_def nth_list_del nth_list_ins length_list_del)
qed

lemma list_move_down:
  assumes "i < length xs" "j < i"
  shows "list_del (i + 1) 1 (list_ins j (xs ! i) xs) = list_move i j xs"
proof (rule nth_equalityI)
  show "length (list_del (i + 1) 1 (list_ins j (xs ! i) xs)) = length (list_move i j xs)"
    using assms by (simp add: list_move_def length_list_del)
next
  fix k assume "k < length (list_del (i + 1) 1 (list_ins j (xs ! i) xs))"
  then have "k < length xs" using assms by (simp add: length_list_del)
  then show "list_del (i + 1) 1 (list_ins j (xs ! i) xs) ! k = list_move i j xs ! k"
    using assms
    by (auto simp: list_move_def nth_list_del nth_list_ins length_list_del)
qed

section \<open>Times of day and instants\<close>

type_synonym qtime = int
type_synonym qdatetime = int

definition msecs_per_day :: int where
  "msecs_per_day = 86400000"

definition qtime_ok :: "qtime \<Rightarrow> bool" where
  "qtime_ok t \<longleftrightarrow> 0 \<le> t \<and> t < msecs_per_day"

definition qtime_isNull :: "qtime \<Rightarrow> bool" where
  "qtime_isNull t \<longleftrightarrow> t = 0"

definition qtime_addMSecs :: "qtime \<Rightarrow> int \<Rightarrow> qtime" where
  "qtime_addMSecs t ms = (t + ms) mod msecs_per_day"

definition qtime_msecsTo :: "qtime \<Rightarrow> qtime \<Rightarrow> int" where
  "qtime_msecsTo t u = u - t"

definition qtime_hour :: "qtime \<Rightarrow> int" where
  "qtime_hour t = t div 3600000"

definition qtime_minute :: "qtime \<Rightarrow> int" where
  "qtime_minute t = (t mod 3600000) div 60000"

definition qtime_second :: "qtime \<Rightarrow> int" where
  "qtime_second t = (t mod 60000) div 1000"

definition qtime_msec :: "qtime \<Rightarrow> int" where
  "qtime_msec t = t mod 1000"

lemma qtime_addMSecs_ok [simp, intro]: "qtime_ok (qtime_addMSecs t ms)"
  by (simp add: qtime_ok_def qtime_addMSecs_def msecs_per_day_def)

lemma qtime_zero_ok [simp]: "qtime_ok 0"
  by (simp add: qtime_ok_def msecs_per_day_def)

lemma qtime_addMSecs_small:
  "0 \<le> t + ms \<Longrightarrow> t + ms < msecs_per_day \<Longrightarrow> qtime_addMSecs t ms = t + ms"
  by (simp add: qtime_addMSecs_def)

lemma qtime_addMSecs_add:
  "qtime_addMSecs (qtime_addMSecs t a) b = qtime_addMSecs t (a + b)"
  by (simp add: qtime_addMSecs_def mod_add_left_eq add.assoc)

end
