(* ===== verification/Log_Line.thy ===== *)
theory Log_Line
  imports Rd_Prelude
begin

text \<open>
  The log line, \<open>RDLogLine\<close> of \<open>lib/rdlog_line.h\<close> and \<open>lib/rdlog_line.cpp\<close>: one event of a
  log. The class's private members are the fields of \<open>log_line\<close>, under their own names; the
  cart metadata strings, the traffic import fields and the import link fields are grouped in
  the records \<open>cart_meta\<close>, \<open>ext_data\<close> and \<open>link_data\<close>. The two-element pointer arrays
  (one entry for the value from the cart, one for the value from the log) are functions of
  \<open>pointer_source\<close>; no caller stores at \<open>AutoPointer\<close>.
\<close>

section \<open>Enumerations\<close>

datatype start_time_type = Imported | Logged | Predicted | Actual | Initial
datatype time_type = Relative | Hard
datatype trans_type = Play | Segue | Stop | NoTrans
datatype trans_edge = AllTrans | LeadingTrans | TrailingTrans
datatype source = Manual | Traffic | Music | Template | Tracker
datatype status = Scheduled | Playing | Auditioning | Finished | Finishing | Paused
datatype state = Ok | NoCart | NoCut
datatype line_type = Cart | Marker | Macro | OpenBracket | CloseBracket | Chain | Track
  | MusicLink | TrafficLink | UnknownType
datatype start_source = StartUnknown | StartManual | StartPlay | StartSegue | StartTime
  | StartPanel | StartMacro | StartChannel
datatype play_source = UnknownSource | MainLog | AuxLog1 | AuxLog2 | SoundPanel | CartSlot
datatype pointer_source = CartPointer | LogPointer | AutoPointer

text \<open>\<open>RDCart\<close>'s enumerations (\<open>lib/rdcart.h\<close>), prefixed where they clash.\<close>

datatype cart_type = CartAll | CartAudio | CartMacro
datatype play_order = PlaySequence | PlayRandom
datatype usage_code = UsageFeature | UsageOpen | UsageClose | UsageTheme | UsageBackground | UsagePromo
datatype validity = NeverValid | ConditionallyValid | AlwaysValid | EvergreenValid | FutureValid

definition RD_FADE_DEPTH :: int where
  "RD_FADE_DEPTH = -3000"

section \<open>State\<close>

record cart_meta =
  log_group_name :: string
  log_group_color :: string
  log_title :: string
  log_artist :: string
  log_publisher :: string
  log_composer :: string
  log_isrc :: string
  log_isci :: string
  log_album :: string
  log_year :: int
  log_label :: string
  log_conductor :: string
  log_song_id :: string
  log_client :: string
  log_agency :: string
  log_outcue :: string
  log_description :: string
  log_user_defined :: string

record ext_data =
  log_ext_start_time :: qtime
  log_ext_length :: int
  log_ext_cart_name :: string
  log_ext_data :: string
  log_ext_event_id :: string
  log_ext_annc_type :: string

record link_data =
  log_link_event_name :: string
  log_link_start_time :: qtime
  log_link_length :: int
  log_link_start_slop :: int
  log_link_end_slop :: int
  log_link_id :: int
  log_link_embedded :: bool

record log_line =
  log_id :: int
  log_status :: status
  log_state :: state
  log_source :: source
  log_validity :: validity
  log_pass :: nat
  log_cart_number :: nat
  log_start_time :: "start_time_type \<Rightarrow> qtime"
  log_time_type :: time_type
  log_origin_user :: string
  log_origin_datetime :: qdatetime
  log_trans_type :: trans_type
  log_start_point :: "pointer_source \<Rightarrow> int"
  log_end_point :: "pointer_source \<Rightarrow> int"
  log_segue_start_point :: "pointer_source \<Rightarrow> int"
  log_segue_end_point :: "pointer_source \<Rightarrow> int"
  log_segue_gain :: int
  log_segue_gain_cut :: int
  log_fadeup_point :: "pointer_source \<Rightarrow> int"
  log_fadeup_gain :: int
  log_fadedown_point :: "pointer_source \<Rightarrow> int"
  log_fadedown_gain :: int
  log_duck_up_gain :: int
  log_duck_down_gain :: int
  log_hook_mode :: bool
  log_hook_start :: int
  log_hook_end :: int
  log_cart_type :: cart_type
  log_meta :: cart_meta
  log_cart_notes :: string
  log_usage_code :: usage_code
  log_forced_length :: int
  log_cut_quantity :: nat
  log_last_cut_played :: nat
  log_play_order :: play_order
  log_enforce_length :: bool
  log_preserve_pitch :: bool
  log_start_datetime :: qdatetime
  log_end_datetime :: qdatetime
  log_deck :: int
  log_play_time :: qtime
  log_cut_number :: int
  log_effective_length :: int
  log_talk_start :: int
  log_talk_end :: int
  log_talk_length :: int
  log_play_position :: int
  log_type :: line_type
  log_marker_comment :: string
  log_marker_label :: string
  log_marker_post_time :: qtime
  log_listview :: "nat option"
  log_port_name :: string
  log_grace_time :: int
  log_forced_stop :: bool
  log_play_deck :: "nat option"
  log_play_position_changed :: bool
  log_evergreen :: bool
  log_ext :: ext_data
  log_average_segue_length :: int
  log_pause_card :: int
  log_pause_port :: int
  log_now_next_enabled :: bool
  log_play_source :: play_source
  log_start_source :: start_source
  log_zombified :: bool
  log_timescaling_active :: bool
  log_asyncronous :: bool
  log_cut_name :: string
  log_has_custom_transition :: bool
  log_use_event_length :: bool
  log_event_length :: int
  log_link :: link_data

section \<open>Operations\<close>

text \<open>
  \<open>clear()\<close> assigns every member but \<open>log_cart_notes\<close> and \<open>log_play_source\<close>, so both
  survive it: \<open>cleared_line\<close> takes them as arguments. \<open>RDLogLine()\<close> is \<open>clear()\<close> on an
  object whose strings are empty; \<open>log_play_source\<close> is indeterminate there, and nothing
  reads it before \<open>loadCart()\<close> assigns it.
\<close>

definition cleared_meta :: cart_meta where
  "cleared_meta = \<lparr>log_group_name = '''', log_group_color = '''', log_title = '''',
     log_artist = '''', log_publisher = '''', log_composer = '''', log_isrc = '''',
     log_isci = '''', log_album = '''', log_year = 0, log_label = '''', log_conductor = '''',
     log_song_id = '''', log_client = '''', log_agency = '''', log_outcue = '''',
     log_description = '''', log_user_defined = ''''\<rparr>"

definition cleared_ext :: ext_data where
  "cleared_ext = \<lparr>log_ext_start_time = 0, log_ext_length = -1, log_ext_cart_name = '''',
     log_ext_data = '''', log_ext_event_id = '''', log_ext_annc_type = ''''\<rparr>"

definition cleared_link :: link_data where
  "cleared_link = \<lparr>log_link_event_name = '''', log_link_start_time = 0, log_link_length = 0,
     log_link_start_slop = 0, log_link_end_slop = 0, log_link_id = -1,
     log_link_embedded = False\<rparr>"

definition cleared_line :: "string \<Rightarrow> play_source \<Rightarrow> log_line" where
  "cleared_line notes psrc = \<lparr>log_id = -1, log_status = Scheduled, log_state = Ok,
     log_source = Manual, log_validity = AlwaysValid, log_pass = 0, log_cart_number = 0,
     log_start_time = (\<lambda>_. 0), log_time_type = Relative, log_origin_user = '''',
     log_origin_datetime = 0, log_trans_type = Play,
     log_start_point = (\<lambda>_. -1), log_end_point = (\<lambda>_. -1),
     log_segue_start_point = (\<lambda>_. -1), log_segue_end_point = (\<lambda>_. -1),
     log_segue_gain = RD_FADE_DEPTH, log_segue_gain_cut = RD_FADE_DEPTH,
     log_fadeup_point = (\<lambda>_. -1), log_fadeup_gain = 0,
     log_fadedown_point = (\<lambda>_. -1), log_fadedown_gain = 0,
     log_duck_up_gain = 0, log_duck_down_gain = 0,
     log_hook_mode = False, log_hook_start = -1, log_hook_end = -1,
     log_cart_type = CartAudio, log_meta = cleared_meta, log_cart_notes = notes,
     log_usage_code = UsageFeature, log_forced_length = 0, log_cut_quantity = 0,
     log_last_cut_played = 0, log_play_order = PlaySequence, log_enforce_length = False,
     log_preserve_pitch = False, log_start_datetime = 0, log_end_datetime = 0,
     log_deck = -1, log_play_time = 0, log_cut_number = -1, log_effective_length = -1,
     log_talk_start = -1, log_talk_end = -1, log_talk_length = -1, log_play_position = 0,
     log_type = Cart, log_marker_comment = '''', log_marker_label = '''',
     log_marker_post_time = 0, log_listview = None, log_port_name = '''', log_grace_time = 0,
     log_forced_stop = False, log_play_deck = None, log_play_position_changed = False,
     log_evergreen = False, log_ext = cleared_ext, log_average_segue_length = 0,
     log_pause_card = -1, log_pause_port = -1, log_now_next_enabled = False,
     log_play_source = psrc, log_start_source = StartUnknown,
     log_zombified = False, log_timescaling_active = False, log_asyncronous = False,
     log_cut_name = '''', log_has_custom_transition = False, log_use_event_length = False,
     log_event_length = -1, log_link = cleared_link\<rparr>"

definition RDLogLine_clear :: "log_line \<Rightarrow> log_line" where
  "RDLogLine_clear l = cleared_line (log_cart_notes l) (log_play_source l)"

definition new_log_line :: log_line where
  "new_log_line = cleared_line '''' UnknownSource"

definition RDLogLine_clearExternalData :: "log_line \<Rightarrow> log_line" where
  "RDLogLine_clearExternalData l = l\<lparr>log_ext := (log_ext l)\<lparr>log_ext_start_time := 0,
     log_ext_length := -1, log_ext_data := '''', log_ext_event_id := '''',
     log_ext_annc_type := ''''\<rparr>\<rparr>"

definition RDLogLine_clearTrackData :: "trans_edge \<Rightarrow> log_line \<Rightarrow> log_line" where
  "RDLogLine_clearTrackData edge l =
     (let l1 = (if edge = LeadingTrans \<or> edge = AllTrans
                then l\<lparr>log_start_point := (log_start_point l)(LogPointer := -1),
                       log_fadeup_point := (log_fadeup_point l)(LogPointer := -1),
                       log_fadeup_gain := RD_FADE_DEPTH,
                       log_has_custom_transition := False\<rparr>
                else l)
      in if edge = TrailingTrans \<or> edge = AllTrans
         then l1\<lparr>log_end_point := (log_end_point l1)(LogPointer := -1),
                 log_fadedown_point := (log_fadedown_point l1)(LogPointer := -1),
                 log_fadedown_gain := RD_FADE_DEPTH,
                 log_segue_start_point := (log_segue_start_point l1)(LogPointer := -1),
                 log_segue_end_point := (log_segue_end_point l1)(LogPointer := -1),
                 log_segue_gain := RD_FADE_DEPTH\<rparr>
         else l1)"

text \<open>\<open>validity(datetime)\<close>: a null \<open>QDateTime\<close> is 0.\<close>

definition RDLogLine_validity :: "log_line \<Rightarrow> qdatetime \<Rightarrow> validity" where
  "RDLogLine_validity l datetime =
     (if datetime = 0 \<or> log_end_datetime l = 0 then log_validity l
      else if datetime > log_end_datetime l then NeverValid
      else if datetime < log_start_datetime l then FutureValid
      else log_validity l)"

definition RDLogLine_setStartTime :: "start_time_type \<Rightarrow> qtime \<Rightarrow> log_line \<Rightarrow> log_line" where
  "RDLogLine_setStartTime type time l =
     (let l1 = (if type = Initial
                then l\<lparr>log_start_time := (log_start_time l)(Actual := time)\<rparr> else l)
      in l1\<lparr>log_start_time := (log_start_time l1)(type := time)\<rparr>)"

section \<open>Pointers\<close>

definition RDLogLine_startPoint :: "log_line \<Rightarrow> pointer_source \<Rightarrow> int" where
  "RDLogLine_startPoint l ptr =
     (if ptr = AutoPointer then
        if log_start_point l LogPointer \<ge> 0 then log_start_point l LogPointer
        else log_start_point l CartPointer
      else log_start_point l ptr)"

definition RDLogLine_endPoint :: "log_line \<Rightarrow> pointer_source \<Rightarrow> int" where
  "RDLogLine_endPoint l ptr =
     (if ptr = AutoPointer then
        if log_end_point l LogPointer \<ge> 0 then log_end_point l LogPointer
        else log_end_point l CartPointer
      else log_end_point l ptr)"

definition RDLogLine_segueStartPoint :: "log_line \<Rightarrow> pointer_source \<Rightarrow> int" where
  "RDLogLine_segueStartPoint l ptr =
     (if ptr = AutoPointer then
        if log_segue_start_point l LogPointer \<ge> 0 then log_segue_start_point l LogPointer
        else if log_segue_start_point l CartPointer \<ge> 0 then log_segue_start_point l CartPointer
        else if log_end_point l LogPointer \<ge> 0 then log_end_point l LogPointer
        else log_end_point l CartPointer
      else log_segue_start_point l ptr)"

definition RDLogLine_segueEndPoint :: "log_line \<Rightarrow> pointer_source \<Rightarrow> int" where
  "RDLogLine_segueEndPoint l ptr =
     (if ptr = AutoPointer then
        if log_segue_end_point l LogPointer \<ge> 0 then log_segue_end_point l LogPointer
        else if log_segue_end_point l CartPointer \<ge> 0 then log_segue_end_point l CartPointer
        else if log_end_point l LogPointer \<ge> 0 then log_end_point l LogPointer
        else log_end_point l CartPointer
      else log_segue_end_point l ptr)"

definition RDLogLine_segueGain :: "log_line \<Rightarrow> int" where
  "RDLogLine_segueGain l =
     (if log_segue_gain l > log_segue_gain_cut l then log_segue_gain l
      else log_segue_gain_cut l)"

definition RDLogLine_fadeupPoint :: "log_line \<Rightarrow> pointer_source \<Rightarrow> int" where
  "RDLogLine_fadeupPoint l ptr =
     (if ptr = AutoPointer then
        if log_fadeup_point l LogPointer \<ge> 0 then log_fadeup_point l LogPointer
        else if log_fadeup_point l CartPointer \<ge> 0 then log_fadeup_point l CartPointer
        else if log_start_point l LogPointer \<ge> 0 then log_start_point l LogPointer
        else log_start_point l CartPointer
      else log_fadeup_point l ptr)"

text \<open>The third test of \<open>fadedownPoint()\<close> reads the start pointer, as the code does.\<close>

definition RDLogLine_fadedownPoint :: "log_line \<Rightarrow> pointer_source \<Rightarrow> int" where
  "RDLogLine_fadedownPoint l ptr =
     (if ptr = AutoPointer then
        if log_fadedown_point l LogPointer \<ge> 0 then log_fadedown_point l LogPointer
        else if log_fadedown_point l CartPointer \<ge> 0 then log_fadedown_point l CartPointer
        else if log_start_point l LogPointer \<ge> 0 then log_end_point l LogPointer
        else log_end_point l CartPointer
      else log_fadedown_point l ptr)"

section \<open>Lengths\<close>

definition RDLogLine_effectiveLength :: "log_line \<Rightarrow> int" where
  "RDLogLine_effectiveLength l =
     (if log_cut_number l < 0 then log_forced_length l else log_effective_length l)"

definition RDLogLine_segueLength :: "log_line \<Rightarrow> trans_type \<Rightarrow> int" where
  "RDLogLine_segueLength l next_trans =
     (case log_type l of
        Cart \<Rightarrow>
          (case next_trans of
             Stop \<Rightarrow> log_effective_length l
           | Play \<Rightarrow> log_effective_length l
           | Segue \<Rightarrow>
               (if RDLogLine_segueStartPoint l AutoPointer < 0 then log_effective_length l
                else RDLogLine_segueStartPoint l AutoPointer - RDLogLine_startPoint l AutoPointer)
           | NoTrans \<Rightarrow> 0)
      | Macro \<Rightarrow> log_effective_length l
      | Marker \<Rightarrow> 0
      | _ \<Rightarrow> 0)"

definition RDLogLine_segueTail :: "log_line \<Rightarrow> trans_type \<Rightarrow> int" where
  "RDLogLine_segueTail l next_trans =
     (case log_type l of
        Cart \<Rightarrow>
          (case next_trans of
             Stop \<Rightarrow> 0
           | Play \<Rightarrow> 0
           | Segue \<Rightarrow> RDLogLine_segueEndPoint l AutoPointer
                       - RDLogLine_segueStartPoint l AutoPointer
           | NoTrans \<Rightarrow> 0)
      | _ \<Rightarrow> 0)"

text \<open>
  \<open>refreshPointers()\<close>: the row of table CUTS for \<open>log_cut_name\<close>, in the order of the
  query's columns, or \<open>None\<close> when the query returns no row.
\<close>

record cut_pointers =
  START_POINT :: int
  END_POINT :: int
  SEGUE_START_POINT :: int
  SEGUE_END_POINT :: int
  TALK_START_POINT :: int
  TALK_END_POINT :: int
  FADEUP_POINT :: int
  FADEDOWN_POINT :: int
  HOOK_START_POINT :: int
  HOOK_END_POINT :: int

definition RDLogLine_refreshPointers ::
  "(string \<Rightarrow> cut_pointers option) \<Rightarrow> log_line \<Rightarrow> log_line" where
  "RDLogLine_refreshPointers cuts l =
     (if log_cut_name l = '''' then l
      else case cuts (log_cut_name l) of
        None \<Rightarrow> l
      | Some q \<Rightarrow>
          l\<lparr>log_start_point := (log_start_point l)(CartPointer := START_POINT q),
            log_end_point := (log_end_point l)(CartPointer := END_POINT q),
            log_segue_start_point := (log_segue_start_point l)(CartPointer := SEGUE_START_POINT q),
            log_segue_end_point := (log_segue_end_point l)(CartPointer := SEGUE_END_POINT q),
            log_talk_start := TALK_START_POINT q,
            log_talk_end := TALK_END_POINT q,
            log_talk_length := TALK_END_POINT q - TALK_START_POINT q,
            log_fadeup_point := (log_fadeup_point l)(CartPointer := FADEUP_POINT q),
            log_fadedown_point := (log_fadedown_point l)(CartPointer := FADEDOWN_POINT q),
            log_hook_start := HOOK_START_POINT q,
            log_hook_end := HOOK_END_POINT q\<rparr>)"

section \<open>Texts\<close>

fun RDLogLine_startSourceText :: "start_source \<Rightarrow> string" where
  "RDLogLine_startSourceText StartUnknown = ''Unknown''"
| "RDLogLine_startSourceText StartManual = ''Manual''"
| "RDLogLine_startSourceText StartPlay = ''Play''"
| "RDLogLine_startSourceText StartSegue = ''Segue''"
| "RDLogLine_startSourceText StartTime = ''Time''"
| "RDLogLine_startSourceText StartPanel = ''Panel''"
| "RDLogLine_startSourceText StartMacro = ''Macro''"
| "RDLogLine_startSourceText StartChannel = ''Channel''"

fun RDLogLine_transText :: "trans_type \<Rightarrow> string" where
  "RDLogLine_transText Play = ''PLAY''"
| "RDLogLine_transText Segue = ''SEGUE''"
| "RDLogLine_transText Stop = ''STOP''"
| "RDLogLine_transText NoTrans = ''UNKNOWN''"

fun RDLogLine_typeText :: "line_type \<Rightarrow> string" where
  "RDLogLine_typeText Cart = ''Audio''"
| "RDLogLine_typeText Marker = ''Marker''"
| "RDLogLine_typeText Macro = ''Macro''"
| "RDLogLine_typeText OpenBracket = ''Open Bracket''"
| "RDLogLine_typeText CloseBracket = ''Close Bracket''"
| "RDLogLine_typeText Chain = ''ChainTo''"
| "RDLogLine_typeText Track = ''Track''"
| "RDLogLine_typeText MusicLink = ''Link''"
| "RDLogLine_typeText TrafficLink = ''Link''"
| "RDLogLine_typeText UnknownType = ''Unknown''"

fun RDLogLine_timeTypeText :: "time_type \<Rightarrow> string" where
  "RDLogLine_timeTypeText Relative = ''Relative''"
| "RDLogLine_timeTypeText Hard = ''Hard''"

fun RDLogLine_sourceText :: "source \<Rightarrow> string" where
  "RDLogLine_sourceText Manual = ''Manual''"
| "RDLogLine_sourceText Traffic = ''Traffic''"
| "RDLogLine_sourceText Music = ''Music''"
| "RDLogLine_sourceText Template = ''RDLogManager''"
| "RDLogLine_sourceText Tracker = ''Tracker''"

section \<open>Lemmas\<close>

named_theorems line_simps

lemma new_log_line_sel [line_simps, simp]:
  "log_id new_log_line = -1" "log_status new_log_line = Scheduled"
  "log_type new_log_line = Cart" "log_time_type new_log_line = Relative"
  "log_trans_type new_log_line = Play" "log_cart_number new_log_line = 0"
  "log_link new_log_line = cleared_link" "log_play_deck new_log_line = None"
  by (simp_all add: new_log_line_def cleared_line_def)

lemma clearTrackData_sel [line_simps, simp]:
  "log_id (RDLogLine_clearTrackData e l) = log_id l"
  "log_cart_number (RDLogLine_clearTrackData e l) = log_cart_number l"
  "log_type (RDLogLine_clearTrackData e l) = log_type l"
  "log_status (RDLogLine_clearTrackData e l) = log_status l"
  "log_time_type (RDLogLine_clearTrackData e l) = log_time_type l"
  "log_trans_type (RDLogLine_clearTrackData e l) = log_trans_type l"
  "log_start_time (RDLogLine_clearTrackData e l) = log_start_time l"
  "log_play_deck (RDLogLine_clearTrackData e l) = log_play_deck l"
  "log_link (RDLogLine_clearTrackData e l) = log_link l"
  by (simp_all add: RDLogLine_clearTrackData_def Let_def)

lemma clearExternalData_sel [line_simps, simp]:
  "log_id (RDLogLine_clearExternalData l) = log_id l"
  "log_cart_number (RDLogLine_clearExternalData l) = log_cart_number l"
  "log_type (RDLogLine_clearExternalData l) = log_type l"
  by (simp_all add: RDLogLine_clearExternalData_def)

text \<open>The pointers a log carries for a voice-tracked transition.\<close>

definition has_track_data :: "log_line \<Rightarrow> bool" where
  "has_track_data l \<longleftrightarrow>
     0 \<le> log_start_point l LogPointer \<or> 0 \<le> log_end_point l LogPointer
   \<or> 0 \<le> log_segue_start_point l LogPointer \<or> 0 \<le> log_segue_end_point l LogPointer
   \<or> 0 \<le> log_fadeup_point l LogPointer \<or> 0 \<le> log_fadedown_point l LogPointer"

lemma clearTrackData_all: "\<not> has_track_data (RDLogLine_clearTrackData AllTrans l)"
  by (simp add: has_track_data_def RDLogLine_clearTrackData_def Let_def)

lemma clearTrackData_cart [simp]:
  "log_start_point (RDLogLine_clearTrackData e l) CartPointer = log_start_point l CartPointer"
  "log_end_point (RDLogLine_clearTrackData e l) CartPointer = log_end_point l CartPointer"
  "log_segue_start_point (RDLogLine_clearTrackData e l) CartPointer = log_segue_start_point l CartPointer"
  "log_segue_end_point (RDLogLine_clearTrackData e l) CartPointer = log_segue_end_point l CartPointer"
  "log_fadeup_point (RDLogLine_clearTrackData e l) CartPointer = log_fadeup_point l CartPointer"
  "log_fadedown_point (RDLogLine_clearTrackData e l) CartPointer = log_fadedown_point l CartPointer"
  by (simp_all add: RDLogLine_clearTrackData_def Let_def)

lemmas pointer_defs = RDLogLine_startPoint_def RDLogLine_endPoint_def
  RDLogLine_segueStartPoint_def RDLogLine_segueEndPoint_def
  RDLogLine_fadeupPoint_def RDLogLine_fadedownPoint_def

lemma auto_pointers_untracked:
  assumes "\<not> has_track_data l"
  shows "RDLogLine_startPoint l AutoPointer = log_start_point l CartPointer"
    and "RDLogLine_endPoint l AutoPointer = log_end_point l CartPointer"
    and "RDLogLine_fadeupPoint l AutoPointer =
           (if 0 \<le> log_fadeup_point l CartPointer then log_fadeup_point l CartPointer
            else log_start_point l CartPointer)"
    and "RDLogLine_fadedownPoint l AutoPointer =
           (if 0 \<le> log_fadedown_point l CartPointer then log_fadedown_point l CartPointer
            else log_end_point l CartPointer)"
    and "RDLogLine_segueStartPoint l AutoPointer =
           (if 0 \<le> log_segue_start_point l CartPointer then log_segue_start_point l CartPointer
            else log_end_point l CartPointer)"
    and "RDLogLine_segueEndPoint l AutoPointer =
           (if 0 \<le> log_segue_end_point l CartPointer then log_segue_end_point l CartPointer
            else log_end_point l CartPointer)"
  using assms by (auto simp: has_track_data_def pointer_defs)

end
