(* ===== verification/Seq_Editor.thy ===== *)
theory Seq_Editor
  imports Rd_Prelude
begin

text \<open>
  The interface of the editable event lists. \<open>RDLogEvent\<close> and \<open>RDClock\<close> move a line the
  same way: insert a blank line at the destination, assign the source line to it, remove the
  source, with an offset of one on whichever side the insertion shifts. An insertion may have a
  condition, \<open>can\<close>. The locale states what
  the three primitive edits promise about the sequence of \<open>keys\<close> of the lines and proves
  once that the composition moves one element and nothing else.
\<close>

locale seq_editor =
  fixes can :: "'s \<Rightarrow> bool"
    and keys :: "'s \<Rightarrow> 'k list"
    and ins :: "'s \<Rightarrow> int \<Rightarrow> 's res"
    and put :: "'s \<Rightarrow> nat \<Rightarrow> nat \<Rightarrow> 's"
    and del :: "'s \<Rightarrow> int \<Rightarrow> 's res"
  assumes ins_keys: "can s \<Longrightarrow> i \<le> length (keys s) \<Longrightarrow>
      \<exists>s' b. ins s (int i) = Inr s' \<and> keys s' = list_ins i b (keys s)"
    and put_keys: "i < length (keys s) \<Longrightarrow> j < length (keys s) \<Longrightarrow>
      keys (put s i j) = (keys s)[i := keys s ! j]"
    and del_keys: "i < length (keys s) \<Longrightarrow>
      \<exists>s'. del s (int i) = Inr s' \<and> keys s' = list_del i 1 (keys s)"
begin

lemma list_ins_put:
  "k \<le> length xs \<Longrightarrow> (list_ins k b xs)[k := x] = list_ins k x xs"
  by (simp add: list_ins_def list_update_append)

lemma move_forward:
  assumes "can s" "i \<le> j" "j < length (keys s)"
  shows "\<exists>s1 s2. ins s (int j + 1) = Inr s1
           \<and> del (put s1 (j + 1) i) (int i) = Inr s2
           \<and> length (keys s1) = Suc (length (keys s))
           \<and> keys s2 = list_move i j (keys s)"
proof -
  obtain s1 b where s1: "ins s (int (j + 1)) = Inr s1" "keys s1 = list_ins (j + 1) b (keys s)"
    using ins_keys [of s "j + 1"] assms by auto
  have src: "keys s1 ! i = keys s ! i"
    using assms s1 by (simp add: nth_list_ins)
  have "keys (put s1 (j + 1) i) = list_ins (j + 1) (keys s ! i) (keys s)"
    using assms s1 src by (simp add: put_keys list_ins_put)
  moreover obtain s2 where "del (put s1 (j + 1) i) (int i) = Inr s2"
      "keys s2 = list_del i 1 (keys (put s1 (j + 1) i))"
    using del_keys [of i "put s1 (j + 1) i"] assms s1 by (auto simp: put_keys)
  ultimately show ?thesis
    using s1 assms list_move_up [of i "keys s" j] by (auto simp: add.commute)
qed

lemma move_backward:
  assumes "can s" "j < i" "i < length (keys s)"
  shows "\<exists>s1 s2. ins s (int j) = Inr s1
           \<and> del (put s1 j (i + 1)) (int i + 1) = Inr s2
           \<and> length (keys s1) = Suc (length (keys s))
           \<and> keys s2 = list_move i j (keys s)"
proof -
  obtain s1 b where s1: "ins s (int j) = Inr s1" "keys s1 = list_ins j b (keys s)"
    using ins_keys [of s j] assms by auto
  have src: "keys s1 ! (i + 1) = keys s ! i"
    using assms s1 by (simp add: nth_list_ins)
  have "keys (put s1 j (i + 1)) = list_ins j (keys s ! i) (keys s)"
    using assms s1 src by (simp add: put_keys list_ins_put)
  moreover obtain s2 where "del (put s1 j (i + 1)) (int (i + 1)) = Inr s2"
      "keys s2 = list_del (i + 1) 1 (keys (put s1 j (i + 1)))"
    using del_keys [of "i + 1" "put s1 j (i + 1)"] assms s1 by (auto simp: put_keys)
  ultimately show ?thesis
    using s1 assms list_move_down [of i "keys s" j] by (auto simp: add.commute)
qed

end

end
