(* ===== verification/Log_Event.thy ===== *)
theory Log_Event
  imports Log_Line Seq_Editor
begin

text \<open>
  The log, \<open>RDLogEvent\<close> of \<open>lib/rdlog_event.h\<close> and \<open>lib/rdlog_event.cpp\<close>: a vector of
  log lines with the greatest line ID handed out so far. The operations take and return the
  \<open>log_event\<close> record; the field \<open>log_lines\<close> is the member \<open>log_line\<close>. An operation that the
  code performs with an unchecked index or an unchecked pointer returns a \<open>res\<close>.
\<close>

record log_event =
  log_name :: string
  log_service_name :: string
  log_max_id :: int
  log_lines :: "log_line list"

definition RDLogEvent_size :: "log_event \<Rightarrow> int" where
  "RDLogEvent_size e = int (length (log_lines e))"

definition RDLogEvent_logLine :: "log_event \<Rightarrow> int \<Rightarrow> log_line option" where
  "RDLogEvent_logLine e line =
     (if line < 0 \<or> line \<ge> int (length (log_lines e)) then None
      else Some (log_lines e ! nat line))"

definition RDLogEvent_exists :: "log_event \<Rightarrow> int \<Rightarrow> bool" where
  "RDLogEvent_exists e line \<longleftrightarrow> int (length (log_lines e)) > line"

definition RDLogEvent_existsHard :: "log_event \<Rightarrow> qtime \<Rightarrow> int \<Rightarrow> bool" where
  "RDLogEvent_existsHard e hard_time except_line \<longleftrightarrow>
     list_ex (\<lambda>i. log_time_type (log_lines e ! i) = Hard
                \<and> log_start_time (log_lines e ! i) Logged = hard_time
                \<and> int i \<noteq> except_line) [0..<length (log_lines e)]"

definition RDLogEvent_clear :: "log_event \<Rightarrow> log_event" where
  "RDLogEvent_clear e = e\<lparr>log_name := '''', log_lines := [], log_max_id := 0\<rparr>"

section \<open>Editing\<close>

text \<open>
  The neighbours of an edit lose the pointers of their custom transition: the line before
  it the trailing ones, the line after it the leading one.
\<close>

definition reset_trailing :: "log_line \<Rightarrow> log_line" where
  "reset_trailing l = l\<lparr>log_end_point := (log_end_point l)(LogPointer := -1),
     log_segue_start_point := (log_segue_start_point l)(LogPointer := -1),
     log_segue_end_point := (log_segue_end_point l)(LogPointer := -1)\<rparr>"

definition reset_leading :: "log_line \<Rightarrow> log_line" where
  "reset_leading l = l\<lparr>log_start_point := (log_start_point l)(LogPointer := -1),
     log_has_custom_transition := False\<rparr>"

text \<open>The two loops of \<open>insert()\<close>: in the middle, and at the end of the vector.\<close>

fun insert_loop :: "int \<Rightarrow> nat \<Rightarrow> log_line list \<times> int \<Rightarrow> (log_line list \<times> int) res" where
  "insert_loop pos 0 s = Inr s"
| "insert_loop pos (Suc n) (ls, maxid) =
     res_bind (vec_ins pos (new_log_line\<lparr>log_id := maxid + 1\<rparr>) ls)
       (\<lambda>ls'. insert_loop (pos + 1) n (ls', maxid + 1))"

fun append_loop :: "nat \<Rightarrow> log_line list \<times> int \<Rightarrow> log_line list \<times> int" where
  "append_loop 0 s = s"
| "append_loop (Suc n) (ls, maxid) =
     append_loop n (ls @ [new_log_line\<lparr>log_id := maxid + 1\<rparr>], maxid + 1)"

definition RDLogEvent_insert ::
  "log_event \<Rightarrow> int \<Rightarrow> int \<Rightarrow> bool \<Rightarrow> log_event res" where
  "RDLogEvent_insert e line num_lines preserve_trans =
     res_bind
       (if preserve_trans then Inr (log_lines e)
        else res_bind (if line > 0 then vec_mod reset_trailing (line - 1) (log_lines e)
                       else Inr (log_lines e))
          (\<lambda>ls. if line < int (length ls) - 1 then vec_mod reset_leading line ls else Inr ls))
       (\<lambda>ls. if line < int (length ls)
             then res_bind (insert_loop line (nat num_lines) (ls, log_max_id e))
                    (\<lambda>(ls', m). Inr (e\<lparr>log_lines := ls', log_max_id := m\<rparr>))
             else (case append_loop (nat num_lines) (ls, log_max_id e) of
                     (ls', m) \<Rightarrow> Inr (e\<lparr>log_lines := ls', log_max_id := m\<rparr>)))"

definition RDLogEvent_remove ::
  "log_event \<Rightarrow> int \<Rightarrow> int \<Rightarrow> bool \<Rightarrow> log_event res" where
  "RDLogEvent_remove e line num_lines preserve_trans =
     res_bind
       (if preserve_trans then Inr (log_lines e)
        else res_bind (if line > 0 then vec_mod reset_trailing (line - 1) (log_lines e)
                       else Inr (log_lines e))
          (\<lambda>ls. if line < int (length ls) - num_lines
                then vec_mod reset_leading (line + num_lines) ls else Inr ls))
       (\<lambda>ls. res_bind (vec_del line num_lines ls)
               (\<lambda>ls'. Inr (e\<lparr>log_lines := ls'\<rparr>)))"

text \<open>
  \<open>move()\<close> and \<open>copy()\<close> insert a blank line, assign the source line to it (every member,
  its ID included) and, for \<open>move()\<close>, remove the source.
\<close>

definition RDLogEvent_move :: "log_event \<Rightarrow> int \<Rightarrow> int \<Rightarrow> log_event res" where
  "RDLogEvent_move e from_line to_line =
     (let src_offset = (if to_line < from_line then 1 else 0);
          dest_offset = (if to_line < from_line then 0 else 1)
      in res_bind (RDLogEvent_insert e (to_line + dest_offset) 1 False)
           (\<lambda>e1. let clamp = (to_line + 1 \<ge> RDLogEvent_size e1);
                     to' = (if clamp then RDLogEvent_size e1 - 1 else to_line);
                     dest' = (if clamp then 0 else dest_offset)
                 in case (RDLogEvent_logLine e1 (to' + dest'),
                          RDLogEvent_logLine e1 (from_line + src_offset)) of
                      (Some destline, Some srcline) \<Rightarrow>
                        RDLogEvent_remove
                          (e1\<lparr>log_lines := (log_lines e1)
                                [nat (to' + dest') := RDLogLine_clearTrackData AllTrans srcline]\<rparr>)
                          (from_line + src_offset) 1 False
                    | _ \<Rightarrow> RDLogEvent_remove e1 (to' + dest') 1 False))"

definition RDLogEvent_copy :: "log_event \<Rightarrow> int \<Rightarrow> int \<Rightarrow> log_event res" where
  "RDLogEvent_copy e from_line to_line =
     res_bind (RDLogEvent_insert e to_line 1 False)
       (\<lambda>e1. case (RDLogEvent_logLine e1 to_line, RDLogEvent_logLine e1 from_line) of
                (Some destline, Some srcline) \<Rightarrow>
                  Inr (e1\<lparr>log_lines := (log_lines e1)
                        [nat to_line := (RDLogLine_clearTrackData AllTrans
                           (RDLogLine_clearExternalData srcline))\<lparr>log_source := Manual\<rparr>]\<rparr>)
              | _ \<Rightarrow> RDLogEvent_remove e1 to_line 1 False)"

definition RDLogEvent_setLogLine :: "log_event \<Rightarrow> int \<Rightarrow> log_line \<Rightarrow> log_event res" where
  "RDLogEvent_setLogLine e line ll =
     res_bind (vec_mod (\<lambda>old. ll\<lparr>log_id := log_id old\<rparr>) line (log_lines e))
       (\<lambda>ls. Inr (e\<lparr>log_lines := ls\<rparr>))"

definition reset_custom_leading :: "log_line \<Rightarrow> log_line" where
  "reset_custom_leading l = l\<lparr>log_start_point := (log_start_point l)(LogPointer := -1),
     log_fadeup_point := (log_fadeup_point l)(LogPointer := -1),
     log_fadeup_gain := 0, log_duck_up_gain := 0, log_has_custom_transition := False\<rparr>"

definition reset_custom_trailing :: "log_line \<Rightarrow> log_line" where
  "reset_custom_trailing l = (reset_trailing l)\<lparr>log_segue_gain := RD_FADE_DEPTH,
     log_fadedown_point := (log_fadedown_point l)(LogPointer := -1),
     log_fadedown_gain := 0, log_duck_down_gain := 0\<rparr>"

definition RDLogEvent_removeCustomTransition :: "log_event \<Rightarrow> int \<Rightarrow> log_event res" where
  "RDLogEvent_removeCustomTransition e line =
     (if line < 0 \<or> line > RDLogEvent_size e - 1 then Inr e
      else res_bind (vec_mod reset_custom_leading line (log_lines e))
        (\<lambda>ls. if line < 1 then Inr (e\<lparr>log_lines := ls\<rparr>)
              else res_bind (vec_get ls (line - 1))
                (\<lambda>prev. if log_type prev \<noteq> Track
                        then res_bind (vec_mod reset_custom_trailing (line - 1) ls)
                               (\<lambda>ls'. Inr (e\<lparr>log_lines := ls'\<rparr>))
                        else if line < 2 then Inr (e\<lparr>log_lines := ls\<rparr>)
                        else res_bind (vec_mod reset_custom_trailing (line - 2) ls)
                               (\<lambda>ls'. Inr (e\<lparr>log_lines := ls'\<rparr>)))))"

section \<open>Searching\<close>

text \<open>The first line that satisfies a test, or -1: the shape of every search loop.\<close>

definition first_line :: "(log_line \<Rightarrow> bool) \<Rightarrow> log_event \<Rightarrow> int" where
  "first_line p e =
     (case find (\<lambda>i. p (log_lines e ! i)) [0..<length (log_lines e)] of
        None \<Rightarrow> -1 | Some i \<Rightarrow> int i)"

definition RDLogEvent_loglineById :: "log_event \<Rightarrow> int \<Rightarrow> log_line option" where
  "RDLogEvent_loglineById e i = find (\<lambda>l. log_id l = i) (log_lines e)"

definition RDLogEvent_lineById :: "log_event \<Rightarrow> int \<Rightarrow> int" where
  "RDLogEvent_lineById e i = first_line (\<lambda>l. log_id l = i) e"

definition RDLogEvent_lineByStartHourType :: "log_event \<Rightarrow> int \<Rightarrow> start_time_type \<Rightarrow> int" where
  "RDLogEvent_lineByStartHourType e hour type =
     first_line (\<lambda>l. \<not> qtime_isNull (log_start_time l type)
                   \<and> qtime_hour (log_start_time l type) = hour) e"

definition RDLogEvent_lineByStartHour :: "log_event \<Rightarrow> int \<Rightarrow> int" where
  "RDLogEvent_lineByStartHour e hour =
     (let a = RDLogEvent_lineByStartHourType e hour Initial
      in if a < 0 then
           (let b = RDLogEvent_lineByStartHourType e hour Predicted
            in if b < 0 then RDLogEvent_lineByStartHourType e hour Imported else b)
         else a)"

definition RDLogEvent_nextTimeStart :: "log_event \<Rightarrow> qtime \<Rightarrow> int" where
  "RDLogEvent_nextTimeStart e after =
     first_line (\<lambda>l. log_time_type l = Hard \<and> log_start_time l Logged > after) e"

definition RDLogEvent_nextTransType :: "log_event \<Rightarrow> int \<Rightarrow> trans_type res" where
  "RDLogEvent_nextTransType e line =
     (if line < RDLogEvent_size e - 1
      then res_bind (of_ptr (RDLogEvent_logLine e (line + 1))) (\<lambda>l. Inr (log_trans_type l))
      else Inr Stop)"

text \<open>The loops that keep the greatest ID: they start from -1.\<close>

definition max_loop :: "(log_line \<Rightarrow> int) \<Rightarrow> log_line list \<Rightarrow> int" where
  "max_loop f ls = foldl (\<lambda>m l. if f l > m then f l else m) (-1) ls"

definition RDLogEvent_nextId :: "log_event \<Rightarrow> int" where
  "RDLogEvent_nextId e = max_loop log_id (log_lines e) + 1"

definition RDLogEvent_nextLinkId :: "log_event \<Rightarrow> int" where
  "RDLogEvent_nextLinkId e = max_loop (\<lambda>l. log_link_id (log_link l)) (log_lines e) + 1"

section \<open>Lemmas on editing\<close>

text \<open>The blank lines an insertion creates: consecutive fresh IDs.\<close>

definition fresh_lines :: "int \<Rightarrow> nat \<Rightarrow> log_line list" where
  "fresh_lines m n = map (\<lambda>k. new_log_line\<lparr>log_id := m + 1 + int k\<rparr>) [0..<n]"

lemma fresh_lines_Suc:
  "fresh_lines m (Suc n) = new_log_line\<lparr>log_id := m + 1\<rparr> # fresh_lines (m + 1) n"
proof -
  have "[0..<Suc n] = 0 # map Suc [0..<n]"
    by (simp add: upt_conv_Cons map_Suc_upt del: upt_Suc)
  then show ?thesis by (simp add: fresh_lines_def comp_def algebra_simps del: upt_Suc)
qed

lemma fresh_lines_0 [simp]: "fresh_lines m 0 = []"
  by (simp add: fresh_lines_def)

lemma fresh_ids: "map log_id (fresh_lines m n) = map (\<lambda>k. m + 1 + int k) [0..<n]"
  by (simp add: fresh_lines_def)

lemma length_fresh_lines [simp]: "length (fresh_lines m n) = n"
  by (simp add: fresh_lines_def)

lemma insert_loop_eq:
  "k \<le> length ls \<Longrightarrow>
   insert_loop (int k) n (ls, m) = Inr (take k ls @ fresh_lines m n @ drop k ls, m + int n)"
proof (induction n arbitrary: k ls m)
  case 0
  then show ?case by simp
next
  case (Suc n)
  let ?l = "new_log_line\<lparr>log_id := m + 1\<rparr>"
  have "insert_loop (int k + 1) n (list_ins k ?l ls, m + 1)
        = Inr (take (Suc k) (list_ins k ?l ls) @ fresh_lines (m + 1) n
               @ drop (Suc k) (list_ins k ?l ls), m + 1 + int n)"
    using Suc.IH [of "Suc k" "list_ins k ?l ls" "m + 1"] Suc.prems by (simp add: add.commute)
  moreover have "take (Suc k) (list_ins k ?l ls) = take k ls @ [?l]"
      and "drop (Suc k) (list_ins k ?l ls) = drop k ls"
    using Suc.prems by (simp_all add: list_ins_def)
  ultimately show ?case
    using Suc.prems by (simp add: vec_ins_def fresh_lines_Suc)
qed

lemma append_loop_eq: "append_loop n (ls, m) = (ls @ fresh_lines m n, m + int n)"
  by (induction n arbitrary: ls m) (simp_all add: fresh_lines_Suc)

text \<open>
  Projections that the resets of the neighbours do not touch: the identity of a line, its
  cart, its type and its times.
\<close>

definition edit_stable :: "(log_line \<Rightarrow> 'a) \<Rightarrow> bool" where
  "edit_stable f \<longleftrightarrow> (\<forall>l. f (reset_trailing l) = f l \<and> f (reset_leading l) = f l
     \<and> f (RDLogLine_clearTrackData AllTrans l) = f l)"

lemma edit_stableI:
  "(\<And>l. f (reset_trailing l) = f l) \<Longrightarrow> (\<And>l. f (reset_leading l) = f l)
   \<Longrightarrow> (\<And>l. f (RDLogLine_clearTrackData AllTrans l) = f l) \<Longrightarrow> edit_stable f"
  by (simp add: edit_stable_def)

lemma edit_stable_basic [simp]:
  "edit_stable log_id" "edit_stable log_cart_number" "edit_stable log_type"
  "edit_stable log_status" "edit_stable log_time_type" "edit_stable log_trans_type"
  "edit_stable log_start_time" "edit_stable log_play_deck" "edit_stable log_link"
  by (auto intro!: edit_stableI simp: reset_trailing_def reset_leading_def)

lemma edit_stable_Pair [simp]:
  "edit_stable f \<Longrightarrow> edit_stable g \<Longrightarrow> edit_stable (\<lambda>l. (f l, g l))"
  by (simp add: edit_stable_def)

lemma map_vec_mod:
  assumes "vec_mod g i ls = Inr ls'" "\<And>l. f (g l) = f l"
  shows "map f ls' = map f ls" "length ls' = length ls"
proof -
  have ls': "ls' = ls[nat i := g (ls ! nat i)]" "nat i < length ls"
    using assms(1) by (auto simp: vec_mod_def vec_in_def split: if_splits)
  then show "length ls' = length ls" by simp
  have "map f ls' = (map f ls)[nat i := map f ls ! nat i]"
    using ls' assms(2) by (simp add: map_update)
  then show "map f ls' = map f ls" using list_update_id by metis
qed

lemma vec_mod_ok: "0 \<le> i \<Longrightarrow> i < int (length xs) \<Longrightarrow> \<exists>ys. vec_mod f i xs = Inr ys"
  by (simp add: vec_mod_def vec_in_def)

lemma neighbour_step:
  assumes "b \<Longrightarrow> 0 \<le> i \<and> i < int (length ls)" "\<And>l. f (g l) = f l"
  shows "\<exists>ls'. (if b then vec_mod g i ls else Inr ls) = Inr ls'
           \<and> length ls' = length ls \<and> map f ls' = map f ls"
proof (cases b)
  case True
  then obtain ls' where "vec_mod g i ls = Inr ls'"
    using assms(1) vec_mod_ok by blast
  with True show ?thesis using map_vec_mod [of g i ls ls' f] assms(2) by auto
next
  case False
  then show ?thesis by simp
qed

lemma insert_ok:
  assumes "k \<le> length (log_lines e)" "edit_stable f"
  shows "\<exists>e'. RDLogEvent_insert e (int k) (int n) p = Inr e'
            \<and> log_max_id e' = log_max_id e + int n \<and> log_name e' = log_name e
            \<and> map f (log_lines e') = take k (map f (log_lines e))
                @ map f (fresh_lines (log_max_id e) n) @ drop k (map f (log_lines e))"
proof -
  let ?ls = "log_lines e"
  have f: "\<And>l. f (reset_trailing l) = f l" "\<And>l. f (reset_leading l) = f l"
    using assms(2) by (simp_all add: edit_stable_def)
  obtain ls1 where 1: "(if int k > 0 then vec_mod reset_trailing (int k - 1) ?ls else Inr ?ls) = Inr ls1"
      "length ls1 = length ?ls" "map f ls1 = map f ?ls"
    using neighbour_step [of "int k > 0" "int k - 1" ?ls f reset_trailing] assms(1) f by auto
  obtain ls2 where 2: "(if int k < int (length ls1) - 1 then vec_mod reset_leading (int k) ls1
        else Inr ls1) = Inr ls2" "length ls2 = length ls1" "map f ls2 = map f ls1"
    using neighbour_step [of "int k < int (length ls1) - 1" "int k" ls1 f reset_leading] f by auto
  obtain ls3 where 3: "(if p then Inr ?ls else res_bind
        (if int k > 0 then vec_mod reset_trailing (int k - 1) ?ls else Inr ?ls)
        (\<lambda>ls. if int k < int (length ls) - 1 then vec_mod reset_leading (int k) ls else Inr ls))
      = Inr ls3" "length ls3 = length ?ls" "map f ls3 = map f ?ls"
    using 1 2 by (cases p) auto
  show ?thesis
  proof (cases "k < length ?ls")
    case True
    then show ?thesis
      unfolding RDLogEvent_insert_def 3(1)
      using 3(2,3) insert_loop_eq [of k ls3 n "log_max_id e"] by (simp flip: take_map drop_map)
  next
    case False
    with assms(1) have "k = length ?ls" by simp
    then show ?thesis
      unfolding RDLogEvent_insert_def 3(1)
      using 3(2,3) by (simp add: append_loop_eq)
  qed
qed

lemma remove_ok:
  assumes "k + n \<le> length (log_lines e)" "edit_stable f"
  shows "\<exists>e'. RDLogEvent_remove e (int k) (int n) p = Inr e'
            \<and> log_max_id e' = log_max_id e \<and> log_name e' = log_name e
            \<and> map f (log_lines e') = list_del k n (map f (log_lines e))"
proof -
  let ?ls = "log_lines e"
  have f: "\<And>l. f (reset_trailing l) = f l" "\<And>l. f (reset_leading l) = f l"
    using assms(2) by (simp_all add: edit_stable_def)
  obtain ls1 where 1: "(if int k > 0 then vec_mod reset_trailing (int k - 1) ?ls else Inr ?ls) = Inr ls1"
      "length ls1 = length ?ls" "map f ls1 = map f ?ls"
    using neighbour_step [of "int k > 0" "int k - 1" ?ls f reset_trailing] assms(1) f by auto
  obtain ls2 where 2: "(if int k < int (length ls1) - int n then vec_mod reset_leading (int k + int n) ls1
        else Inr ls1) = Inr ls2" "length ls2 = length ls1" "map f ls2 = map f ls1"
    using neighbour_step [of "int k < int (length ls1) - int n" "int k + int n" ls1 f reset_leading] f
    by auto
  obtain ls3 where 3: "(if p then Inr ?ls else res_bind
        (if int k > 0 then vec_mod reset_trailing (int k - 1) ?ls else Inr ?ls)
        (\<lambda>ls. if int k < int (length ls) - int n then vec_mod reset_leading (int k + int n) ls
              else Inr ls))
      = Inr ls3" "length ls3 = length ?ls" "map f ls3 = map f ?ls"
    using 1 2 by (cases p) auto
  show ?thesis
    unfolding RDLogEvent_remove_def 3(1)
    using assms(1) 3(2,3) by (simp add: vec_del_def map_list_del flip: of_nat_add)
qed

section \<open>The event list as a sequence editor\<close>

definition line_key :: "log_line \<Rightarrow> int \<times> nat \<times> line_type \<times> time_type \<times> trans_type" where
  "line_key l = (log_id l, log_cart_number l, log_type l, log_time_type l, log_trans_type l)"

definition event_keys :: "log_event \<Rightarrow> (int \<times> nat \<times> line_type \<times> time_type \<times> trans_type) list" where
  "event_keys e = map line_key (log_lines e)"

definition copy_line :: "log_event \<Rightarrow> nat \<Rightarrow> nat \<Rightarrow> log_event" where
  "copy_line e i j = e\<lparr>log_lines := (log_lines e)
     [i := RDLogLine_clearTrackData AllTrans (log_lines e ! j)]\<rparr>"

lemma edit_stable_key: "edit_stable line_key"
  by (auto intro!: edit_stableI simp: line_key_def reset_trailing_def reset_leading_def)

lemma length_event_keys [simp]: "length (event_keys e) = length (log_lines e)"
  by (simp add: event_keys_def)

interpretation log_editor: seq_editor "\<lambda>_. True" event_keys
  "\<lambda>e i. RDLogEvent_insert e i 1 False" copy_line "\<lambda>e i. RDLogEvent_remove e i 1 False"
proof (unfold_locales, goal_cases)
  case (1 s i)
  then obtain s' where "RDLogEvent_insert s (int i) (int 1) False = Inr s'"
      "map line_key (log_lines s') = take i (map line_key (log_lines s))
         @ map line_key (fresh_lines (log_max_id s) 1) @ drop i (map line_key (log_lines s))"
    using insert_ok [OF _ edit_stable_key, of i s 1 False] by (auto simp: event_keys_def)
  then have "RDLogEvent_insert s (int i) 1 False = Inr s'
      \<and> event_keys s' = list_ins i (line_key (hd (fresh_lines (log_max_id s) 1))) (event_keys s)"
    by (simp add: event_keys_def list_ins_def fresh_lines_def)
  then show ?case by blast
next
  case (2 i s j)
  then show ?case
    by (simp add: copy_line_def event_keys_def line_key_def map_update)
next
  case (3 i s)
  then show ?case
    using remove_ok [OF _ edit_stable_key, of i 1 s False] by (auto simp: event_keys_def)
qed

lemma move_ok:
  assumes "from < length (log_lines e)" "to < length (log_lines e)"
  shows "\<exists>e'. RDLogEvent_move e (int from) (int to) = Inr e'
           \<and> event_keys e' = list_move from to (event_keys e)"
proof (cases "to < from")
  case True
  then obtain s1 s2 where
      "RDLogEvent_insert e (int to) 1 False = Inr s1"
      "RDLogEvent_remove (copy_line s1 to (from + 1)) (int from + 1) 1 False = Inr s2"
      "length (log_lines s1) = Suc (length (log_lines e))"
      "event_keys s2 = list_move from to (event_keys e)"
    using log_editor.move_backward [where s = e and j = to and i = "from"] assms by auto
  with True assms show ?thesis
    by (simp add: RDLogEvent_move_def Let_def RDLogEvent_size_def RDLogEvent_logLine_def
        copy_line_def nat_add_distrib)
next
  case False
  then obtain s1 s2 where
      "RDLogEvent_insert e (int to + 1) 1 False = Inr s1"
      "RDLogEvent_remove (copy_line s1 (to + 1) from) (int from) 1 False = Inr s2"
      "length (log_lines s1) = Suc (length (log_lines e))"
      "event_keys s2 = list_move from to (event_keys e)"
    using log_editor.move_forward [where s = e and j = to and i = "from"] assms by auto
  with False assms show ?thesis
    by (simp add: RDLogEvent_move_def Let_def RDLogEvent_size_def RDLogEvent_logLine_def
        copy_line_def nat_add_distrib)
qed

section \<open>Line IDs\<close>

definition ids :: "log_event \<Rightarrow> int list" where
  "ids e = map log_id (log_lines e)"

text \<open>The invariant of the ID counter: the IDs differ and the counter bounds them.\<close>

definition ids_ok :: "log_event \<Rightarrow> bool" where
  "ids_ok e \<longleftrightarrow> distinct (ids e) \<and> (\<forall>i \<in> set (ids e). i \<le> log_max_id e)"

lemma ids_keys: "ids e = map fst (event_keys e)"
  by (simp add: ids_def event_keys_def line_key_def comp_def)

lemma insert_loop_max: "insert_loop j k (ls, m) = Inr (ls', m') \<Longrightarrow> m' = m + int k"
proof (induction k arbitrary: j ls m)
  case (Suc k)
  then obtain ls1 where "insert_loop (j + 1) k (ls1, m + 1) = Inr (ls', m')" by auto
  from Suc.IH [OF this] show ?case by simp
qed simp

lemma insert_max_id:
  "RDLogEvent_insert e i n p = Inr e' \<Longrightarrow> log_max_id e' = log_max_id e + int (nat n)"
  unfolding RDLogEvent_insert_def
  by (auto simp: append_loop_eq split: if_splits dest!: insert_loop_max)

lemma remove_max_id: "RDLogEvent_remove e i n p = Inr e' \<Longrightarrow> log_max_id e' = log_max_id e"
  unfolding RDLogEvent_remove_def by (auto split: if_splits)

lemma move_max_id:
  "RDLogEvent_move e i j = Inr e' \<Longrightarrow> log_max_id e' = log_max_id e + 1"
  unfolding RDLogEvent_move_def Let_def
  by (auto split: option.splits prod.splits if_splits dest!: remove_max_id insert_max_id)

lemma first_line_cases:
  "(first_line p e = -1 \<and> (\<forall>l \<in> set (log_lines e). \<not> p l)) \<or>
   (\<exists>k < length (log_lines e). first_line p e = int k \<and> p (log_lines e ! k)
      \<and> (\<forall>j < k. \<not> p (log_lines e ! j)))"
proof (cases "find (\<lambda>i. p (log_lines e ! i)) [0..<length (log_lines e)]")
  case None
  then have "first_line p e = -1" by (simp add: first_line_def)
  moreover have "\<forall>l \<in> set (log_lines e). \<not> p l"
    using None by (auto simp: find_None_iff in_set_conv_nth)
  ultimately show ?thesis by blast
next
  case (Some i)
  then obtain n where "n < length (log_lines e)" "p (log_lines e ! n)" "i = n"
      "\<forall>j < n. \<not> p (log_lines e ! j)"
    by (auto simp: find_Some_iff)
  then show ?thesis using Some by (auto simp: first_line_def)
qed

lemma ids_ok_insert_loop:
  assumes "insert_loop j n (ls, m) = Inr (ls', m')"
    "distinct (map log_id ls)" "\<forall>l \<in> set ls. log_id l \<le> m"
  shows "distinct (map log_id ls') \<and> (\<forall>l \<in> set ls'. log_id l \<le> m')"
  using assms
proof (induction n arbitrary: j ls m)
  case (Suc n)
  then obtain ls1 where ls1: "vec_ins j (new_log_line\<lparr>log_id := m + 1\<rparr>) ls = Inr ls1"
      and rec: "insert_loop (j + 1) n (ls1, m + 1) = Inr (ls', m')" by auto
  have eq: "ls1 = list_ins (nat j) (new_log_line\<lparr>log_id := m + 1\<rparr>) ls"
    using ls1 by (auto simp: vec_ins_def split: if_splits)
  have "distinct (map log_id ls1)" "\<forall>l \<in> set ls1. log_id l \<le> m + 1"
    using Suc.prems(2,3) by (fastforce simp: eq map_list_ins distinct_list_ins set_list_ins)+
  then show ?case using Suc.IH [OF rec] by blast
qed simp

lemma ids_ok_lines:
  "ids_ok e \<longleftrightarrow> distinct (map log_id (log_lines e)) \<and> (\<forall>l \<in> set (log_lines e). log_id l \<le> log_max_id e)"
  by (auto simp: ids_ok_def ids_def)

lemma insert_ids_ok:
  assumes "RDLogEvent_insert e (int k) (int n) p = Inr e'" "k \<le> length (log_lines e)" "ids_ok e"
  shows "ids_ok e'"
proof -
  have ids': "ids e' = take k (ids e) @ map (\<lambda>j. log_max_id e + 1 + int j) [0..<n] @ drop k (ids e)"
      "log_max_id e' = log_max_id e + int n"
    using insert_ok [OF assms(2), of log_id n p] assms(1) fresh_ids by (simp_all add: ids_def)
  have bound: "\<forall>i \<in> set (take k (ids e)) \<union> set (drop k (ids e)). i \<le> log_max_id e"
    using assms(3) by (auto simp: ids_ok_def dest: in_set_takeD in_set_dropD)
  have "set (take k (ids e)) \<inter> set (drop k (ids e)) = {}"
    using assms(3) by (auto simp: ids_ok_def dest: set_take_disj_set_drop_if_distinct [of _ k k])
  moreover have "distinct (map (\<lambda>j. log_max_id e + 1 + int j) [0..<n])"
    by (simp add: distinct_map inj_on_def)
  moreover have "(set (take k (ids e)) \<union> set (drop k (ids e)))
      \<inter> set (map (\<lambda>j. log_max_id e + 1 + int j) [0..<n]) = {}"
    using bound by (force simp: disjoint_iff)
  moreover have "distinct (ids e)" using assms(3) by (simp add: ids_ok_def)
  ultimately have "distinct (ids e')"
    unfolding ids'(1) by (simp add: Int_Un_distrib Int_Un_distrib2 Int_commute)
  moreover have "\<forall>i \<in> set (ids e'). i \<le> log_max_id e'"
    unfolding ids' set_append using bound by force
  ultimately show ?thesis by (simp add: ids_ok_def)
qed

lemma remove_ids_ok:
  assumes "RDLogEvent_remove e (int k) (int n) p = Inr e'" "k + n \<le> length (log_lines e)" "ids_ok e"
  shows "ids_ok e'"
proof -
  have "ids e' = list_del k n (ids e)" "log_max_id e' = log_max_id e"
    using remove_ok [OF assms(2), of log_id p] assms(1) by (simp_all add: ids_def)
  then show ?thesis
    using assms(3) distinct_list_del set_list_del_subset by (fastforce simp: ids_ok_def)
qed

lemma move_ids_ok:
  assumes "RDLogEvent_move e (int i) (int j) = Inr e'" "i < length (log_lines e)"
    "j < length (log_lines e)" "ids_ok e"
  shows "ids_ok e'"
proof -
  have "event_keys e' = list_move i j (event_keys e)"
    using move_ok [OF assms(2,3)] assms(1) by simp
  then have "mset (event_keys e') = mset (event_keys e)"
    using assms(2) by (simp add: mset_list_move)
  then have "mset (ids e') = mset (ids e)" by (simp add: ids_keys)
  then have "distinct (ids e') \<longleftrightarrow> distinct (ids e)" "set (ids e') = set (ids e)"
    by (metis mset_eq_imp_distinct_iff, metis mset_eq_setD)
  then show ?thesis using assms(4) move_max_id [OF assms(1)] by (fastforce simp: ids_ok_def)
qed

lemma setLogLine_ids:
  "RDLogEvent_setLogLine e i l = Inr e' \<Longrightarrow> ids e' = ids e \<and> log_max_id e' = log_max_id e"
  by (auto simp: RDLogEvent_setLogLine_def ids_def vec_mod_def vec_in_def map_update
      list_update_same_conv split: if_splits)

lemma removeCustom_ids:
  assumes "RDLogEvent_removeCustomTransition e i = Inr e'"
  shows "ids e' = ids e \<and> log_max_id e' = log_max_id e"
proof -
  have stable: "log_id (reset_custom_leading l) = log_id l" "log_id (reset_custom_trailing l) = log_id l" for l
    by (simp_all add: reset_custom_leading_def reset_custom_trailing_def reset_trailing_def)
  note keep = map_vec_mod(1) [of reset_custom_leading _ _ _ log_id, OF _ stable(1)]
    map_vec_mod(1) [of reset_custom_trailing _ _ _ log_id, OF _ stable(2)]
  show ?thesis
    using assms unfolding RDLogEvent_removeCustomTransition_def ids_def
    by (auto split: if_splits dest!: keep)
qed

lemma removeCustom_ok: "\<exists>e'. RDLogEvent_removeCustomTransition e i = Inr e'"
proof (cases "i < 0 \<or> i > RDLogEvent_size e - 1")
  case False
  then show ?thesis
    by (auto simp: RDLogEvent_removeCustomTransition_def RDLogEvent_size_def vec_mod_def vec_get_def
        vec_in_def)
qed (simp add: RDLogEvent_removeCustomTransition_def)

text \<open>The exact result of an insertion.\<close>

definition upd_at :: "nat \<Rightarrow> ('a \<Rightarrow> 'a) \<Rightarrow> 'a list \<Rightarrow> 'a list" where
  "upd_at i f xs = (if i < length xs then xs[i := f (xs ! i)] else xs)"

definition unlink_at :: "nat \<Rightarrow> log_line list \<Rightarrow> log_line list" where
  "unlink_at k ls = (let ls1 = (if 0 < k then upd_at (k - 1) reset_trailing ls else ls)
                     in if k + 1 < length ls then upd_at k reset_leading ls1 else ls1)"

lemma length_unlink_at [simp]: "length (unlink_at k ls) = length ls"
  by (simp add: unlink_at_def upd_at_def Let_def)

lemma insert_exact:
  assumes "k \<le> length (log_lines e)"
  shows "RDLogEvent_insert e (int k) (int n) False =
    Inr (e\<lparr>log_lines := take k (unlink_at k (log_lines e)) @ fresh_lines (log_max_id e) n
             @ drop k (unlink_at k (log_lines e)), log_max_id := log_max_id e + int n\<rparr>)"
proof -
  let ?ls = "log_lines e"
  have step: "res_bind (if int k > 0 then vec_mod reset_trailing (int k - 1) ?ls else Inr ?ls)
        (\<lambda>ls. if int k < int (length ls) - 1 then vec_mod reset_leading (int k) ls else Inr ls)
      = Inr (unlink_at k ?ls)"
    using assms
    by (cases k) (auto simp: unlink_at_def upd_at_def Let_def vec_mod_def vec_in_def nat_add_distrib)
  show ?thesis
    unfolding RDLogEvent_insert_def if_False step res_bind_simps
    using assms insert_loop_eq [of k "unlink_at k ?ls" n "log_max_id e"]
    by (cases "k < length ?ls") (simp_all add: append_loop_eq)
qed

section \<open>Editing sessions\<close>

text \<open>
  The edits of a log by its owner, and a session of them. An edit fits a log when its line
  numbers lie in it; a new line may also go behind the last one.
\<close>

datatype log_edit = EditInsert nat nat bool | EditRemove nat nat bool | EditMove nat nat
  | EditCopy nat nat | EditSet nat log_line | EditCustom int | EditClear

fun run_edit :: "log_edit \<Rightarrow> log_event \<Rightarrow> log_event res" where
  "run_edit (EditInsert k n p) e = RDLogEvent_insert e (int k) (int n) p"
| "run_edit (EditRemove k n p) e = RDLogEvent_remove e (int k) (int n) p"
| "run_edit (EditMove i j) e = RDLogEvent_move e (int i) (int j)"
| "run_edit (EditCopy i j) e = RDLogEvent_copy e (int i) (int j)"
| "run_edit (EditSet k l) e = RDLogEvent_setLogLine e (int k) l"
| "run_edit (EditCustom i) e = RDLogEvent_removeCustomTransition e i"
| "run_edit EditClear e = Inr (RDLogEvent_clear e)"

fun edit_fits :: "log_edit \<Rightarrow> log_event \<Rightarrow> bool" where
  "edit_fits (EditInsert k n p) e \<longleftrightarrow> k \<le> length (log_lines e)"
| "edit_fits (EditRemove k n p) e \<longleftrightarrow> k + n \<le> length (log_lines e)"
| "edit_fits (EditMove i j) e \<longleftrightarrow> i < length (log_lines e) \<and> j < length (log_lines e)"
| "edit_fits (EditCopy i j) e \<longleftrightarrow> i < length (log_lines e) \<and> j \<le> length (log_lines e)"
| "edit_fits (EditSet k l) e \<longleftrightarrow> k < length (log_lines e)"
| "edit_fits (EditCustom i) e \<longleftrightarrow> True"
| "edit_fits EditClear e \<longleftrightarrow> True"

fun is_copy :: "log_edit \<Rightarrow> bool" where
  "is_copy (EditCopy i j) \<longleftrightarrow> True"
| "is_copy _ \<longleftrightarrow> False"

fun run_edits :: "log_edit list \<Rightarrow> log_event \<Rightarrow> log_event res" where
  "run_edits [] e = Inr e"
| "run_edits (x # xs) e = res_bind (run_edit x e) (run_edits xs)"

fun edits_fit :: "log_edit list \<Rightarrow> log_event \<Rightarrow> bool" where
  "edits_fit [] e \<longleftrightarrow> True"
| "edits_fit (x # xs) e \<longleftrightarrow> edit_fits x e
     \<and> (case run_edit x e of Inl _ \<Rightarrow> True | Inr e' \<Rightarrow> edits_fit xs e')"

text \<open>The part of the ID invariant that \<open>copy()\<close> keeps as well.\<close>

definition ids_below :: "log_event \<Rightarrow> bool" where
  "ids_below e \<longleftrightarrow> (\<forall>i \<in> set (ids e). i \<le> log_max_id e)"

lemma insert_ids_below:
  assumes "RDLogEvent_insert e (int k) (int n) p = Inr e'" "k \<le> length (log_lines e)" "ids_below e"
  shows "ids_below e'"
proof -
  have "ids e' = take k (ids e) @ map (\<lambda>j. log_max_id e + 1 + int j) [0..<n] @ drop k (ids e)"
      "log_max_id e' = log_max_id e + int n"
    using insert_ok [OF assms(2), of log_id n p] assms(1) fresh_ids by (simp_all add: ids_def)
  then show ?thesis
    using assms(3) by (force simp: ids_below_def dest: in_set_takeD in_set_dropD)
qed

lemma copy_ids:
  assumes "i < length (log_lines e)" "j \<le> length (log_lines e)" "ids_below e"
  shows "\<exists>e'. RDLogEvent_copy e (int i) (int j) = Inr e' \<and> ids_below e'"
proof -
  obtain e1 where ins: "RDLogEvent_insert e (int j) (int 1) False = Inr e1"
      and new: "map log_id (log_lines e1) = take j (map log_id (log_lines e))
        @ map log_id (fresh_lines (log_max_id e) 1) @ drop j (map log_id (log_lines e))"
    using insert_ok [OF assms(2), of log_id 1 False] by auto
  note e1 = ins arg_cong [OF new, of length]
  have below: "ids_below e1" using insert_ids_below [OF e1(1) assms(2,3)] .
  define e2 where "e2 = e1\<lparr>log_lines := (log_lines e1)[j := (RDLogLine_clearTrackData AllTrans
      (RDLogLine_clearExternalData (log_lines e1 ! i)))\<lparr>log_source := Manual\<rparr>]\<rparr>"
  have "RDLogEvent_copy e (int i) (int j) = Inr e2"
    using e1 assms by (simp add: RDLogEvent_copy_def RDLogEvent_logLine_def e2_def)
  moreover have "ids e2 = (ids e1)[j := ids e1 ! i]"
    using e1(2) assms by (simp add: e2_def ids_def map_update)
  then have "set (ids e2) \<subseteq> set (ids e1)"
    using e1(2) assms set_update_subset_insert [of "ids e1" j "ids e1 ! i"]
    by (auto simp: ids_def)
  then have "ids_below e2" using below by (auto simp: ids_below_def e2_def)
  ultimately show ?thesis by blast
qed

lemma run_edit_below:
  assumes "edit_fits x e" "ids_below e"
  shows "\<exists>e'. run_edit x e = Inr e' \<and> ids_below e'"
proof (cases x)
  case (EditInsert k n p)
  then show ?thesis
    using assms insert_ok [OF _ edit_stable_key, of k e n p] insert_ids_below by fastforce
next
  case (EditRemove k n p)
  then obtain e' where "RDLogEvent_remove e (int k) (int n) p = Inr e'"
      "log_max_id e' = log_max_id e" "ids e' = list_del k n (ids e)"
    using assms remove_ok [of k n e log_id p] by (auto simp: ids_def)
  then show ?thesis
    using EditRemove assms(2) set_list_del_subset by (fastforce simp: ids_below_def)
next
  case (EditMove i j)
  then obtain e' where "RDLogEvent_move e (int i) (int j) = Inr e'"
      "event_keys e' = list_move i j (event_keys e)"
    using assms move_ok [of i e j] by auto
  moreover from this have "set (ids e') = set (ids e)"
    using EditMove assms mset_list_move [of i "event_keys e" j]
    by (simp add: ids_keys) (metis mset_eq_setD image_mset_cong mset_map set_map)
  ultimately show ?thesis
    using EditMove assms(2) move_max_id [of e "int i" "int j" e'] by (fastforce simp: ids_below_def)
next
  case (EditCopy i j)
  then show ?thesis using assms copy_ids by simp
next
  case (EditSet k l)
  then obtain e' where "RDLogEvent_setLogLine e (int k) l = Inr e'"
    using assms by (auto simp: RDLogEvent_setLogLine_def vec_mod_def vec_in_def)
  then show ?thesis
    using EditSet assms(2) setLogLine_ids by (fastforce simp: ids_below_def)
next
  case (EditCustom i)
  then show ?thesis
    using assms removeCustom_ids [of e i] removeCustom_ok [of e i] by (auto simp: ids_below_def)
next
  case EditClear
  then show ?thesis by (simp add: ids_below_def ids_def RDLogEvent_clear_def)
qed

lemma run_edit_ids_ok:
  assumes "run_edit x e = Inr e'" "edit_fits x e" "\<not> is_copy x" "ids_ok e"
  shows "ids_ok e'"
  using assms
proof (cases x)
  case (EditInsert k n p)
  then show ?thesis using assms insert_ids_ok [of e k n p e'] by simp
next
  case (EditRemove k n p)
  then show ?thesis using assms remove_ids_ok [of e k n p e'] by simp
next
  case (EditMove i j)
  then show ?thesis using assms move_ids_ok [of e i j e'] by simp
next
  case (EditSet k l)
  then show ?thesis using assms setLogLine_ids [of e "int k" l e'] by (simp add: ids_ok_def)
next
  case (EditCustom i)
  then show ?thesis using assms removeCustom_ids [of e i e'] by (simp add: ids_ok_def)
qed (auto simp: ids_ok_def ids_def RDLogEvent_clear_def)

lemma run_edits_below:
  "edits_fit xs e \<Longrightarrow> ids_below e \<Longrightarrow> \<exists>e'. run_edits xs e = Inr e' \<and> ids_below e'"
proof (induction xs arbitrary: e)
  case (Cons x xs)
  then obtain e1 where "run_edit x e = Inr e1" "ids_below e1"
    using run_edit_below [of x e] by auto
  with Cons show ?case by auto
qed simp

lemma run_edits_ids_ok:
  "run_edits xs e = Inr e' \<Longrightarrow> edits_fit xs e \<Longrightarrow> \<not> list_ex is_copy xs \<Longrightarrow> ids_ok e \<Longrightarrow> ids_ok e'"
proof (induction xs arbitrary: e)
  case (Cons x xs)
  then obtain e1 where "run_edit x e = Inr e1" "run_edits xs e1 = Inr e'" by auto
  with Cons show ?case using run_edit_ids_ok [of x e e1] by auto
qed simp

lemma ids_ok_find:
  assumes "ids_ok e" "k < length (log_lines e)"
  shows "RDLogEvent_lineById e (log_id (log_lines e ! k)) = int k
    \<and> RDLogEvent_loglineById e (log_id (log_lines e ! k)) = Some (log_lines e ! k)"
proof -
  have inj: "log_id (log_lines e ! j) = log_id (log_lines e ! k) \<Longrightarrow> j = k"
    if "j < length (log_lines e)" for j
    using that assms by (simp add: ids_ok_lines distinct_conv_nth) blast
  let ?p = "\<lambda>l. log_id l = log_id (log_lines e ! k)"
  have "RDLogEvent_lineById e (log_id (log_lines e ! k)) = int k"
    unfolding RDLogEvent_lineById_def
    using first_line_cases [of ?p e] nth_mem [OF assms(2)] inj by auto
  moreover have "find ?p (log_lines e) = Some (log_lines e ! k)"
    using assms(2) inj by (auto simp: find_Some_iff intro!: exI [of _ k] dest: inj [OF less_trans])
  ultimately show ?thesis by (simp add: RDLogEvent_loglineById_def)
qed

section \<open>Properties\<close>

definition event_ids :: "int list \<Rightarrow> log_event" where
  "event_ids is = \<lparr>log_name = ''L_LOG'', log_service_name = '''', log_max_id = 9,
     log_lines = map (\<lambda>i. new_log_line\<lparr>log_id := i, log_cart_number := nat (100 + i)\<rparr>) is\<rparr>"

lemma event_ids_sel [simp]:
  "log_lines (event_ids is) = map (\<lambda>i. new_log_line\<lparr>log_id := i, log_cart_number := nat (100 + i)\<rparr>) is"
  "log_max_id (event_ids is) = 9" "ids (event_ids is) = is"
  by (simp_all add: event_ids_def ids_def comp_def)

text \<open>C1: No session of edits whose line numbers lie in the log (insertions, removals, moves,
  copies, assignments of a line, removals of a custom transition, clears) faults, and every
  line ID stays within the counter, so a new line never gets an ID in use. In a session
  without \<open>copy()\<close>, which repeats an ID, the IDs stay distinct and every line is found again
  by its ID: \<open>lineById\<close> returns its position and \<open>loglineById\<close> the line itself.\<close>

theorem edits_keep_ids:
  assumes "ids_ok e" "edits_fit xs e"
  shows "\<exists>e'. run_edits xs e = Inr e' \<and> (\<forall>l \<in> set (log_lines e'). log_id l \<le> log_max_id e')
     \<and> (\<not> list_ex is_copy xs \<longrightarrow> distinct (ids e') \<and>
         (\<forall>k < length (log_lines e'). let l = log_lines e' ! k in
            RDLogEvent_lineById e' (log_id l) = int k \<and> RDLogEvent_loglineById e' (log_id l) = Some l))"
proof -
  obtain e' where e': "run_edits xs e = Inr e'" "ids_below e'"
    using run_edits_below [OF assms(2)] assms(1) by (auto simp: ids_ok_def ids_below_def)
  have "ids_ok e'" if "\<not> list_ex is_copy xs"
    using run_edits_ids_ok [OF e'(1) assms(2) that assms(1)] .
  with e' ids_ok_find [of e'] show ?thesis
    by (auto simp: ids_below_def ids_def Let_def ids_ok_def)
qed

definition demo_edits :: "log_edit list" where
  "demo_edits = [EditInsert 1 2 False, EditMove 0 3, EditRemove 1 1 False, EditSet 0 new_log_line,
     EditInsert 3 1 True, EditCustom 2]"

lemma demo_edits_run:
  "(case run_edits demo_edits (event_ids [4, 7]) of Inl _ \<Rightarrow> False
    | Inr e' \<Rightarrow> map log_id (log_lines e') = [10, 7, 4, 13])"
  by code_simp

lemma demo_edits_fit: "edits_fit demo_edits (event_ids [4, 7]) \<and> \<not> list_ex is_copy demo_edits"
  by code_simp

theorem edits_keep_ids_witness:
  "\<exists>e'. run_edits demo_edits (event_ids [4, 7]) = Inr e' \<and> RDLogEvent_lineById e' 4 = 2"
proof -
  obtain e' where e': "run_edits demo_edits (event_ids [4, 7]) = Inr e'"
      "map log_id (log_lines e') = [10, 7, 4, 13]"
    using demo_edits_run by (auto split: sum.splits)
  have "length (map log_id (log_lines e')) = 4" "map log_id (log_lines e') ! 2 = 4"
    unfolding e'(2) by simp_all
  then have "2 < length (log_lines e')" "log_id (log_lines e' ! 2) = 4" by simp_all
  then show ?thesis
    using edits_keep_ids [of "event_ids [4, 7]" demo_edits] demo_edits_fit e'(1)
    by (auto simp: ids_ok_def Let_def)
qed

text \<open>Inserting \<open>n\<close> blank lines at a line number of the log (its end included) does not
  fault; the new lines get the next \<open>n\<close> IDs of the counter, the identity, cart, type and
  transition of every other line are kept in order, and the ID invariant is kept.\<close>

theorem insert_splices:
  assumes "k \<le> length (log_lines e)" "ids_ok e"
  shows "\<exists>e'. RDLogEvent_insert e (int k) (int n) p = Inr e' \<and> ids_ok e'
           \<and> event_keys e' = take k (event_keys e)
               @ map (\<lambda>j. line_key (new_log_line\<lparr>log_id := log_max_id e + 1 + int j\<rparr>)) [0..<n]
               @ drop k (event_keys e)"
  using insert_ok [OF assms(1) edit_stable_key, of n p] insert_ids_ok [OF _ assms]
  by (auto simp: event_keys_def fresh_lines_def comp_def)

theorem insert_splices_witness:
  "\<exists>e'. RDLogEvent_insert (event_ids [4, 7]) 1 2 False = Inr e' \<and> ids_ok e'"
  using insert_splices [of 1 "event_ids [4, 7]" 2 False] by (auto simp: ids_ok_def)

text \<open>C2: \<open>move(from,to)\<close> inside the log does not fault and is the abstract move: the line
  at \<open>from\<close> is taken out and put back at \<open>to\<close>, forwards and backwards, every other line keeps
  its order, and no ID is lost, duplicated or renumbered.\<close>

theorem move_is_list_move:
  assumes "i < length (log_lines e)" "j < length (log_lines e)"
  shows "\<exists>e'. RDLogEvent_move e (int i) (int j) = Inr e'
           \<and> event_keys e' = list_move i j (event_keys e)
           \<and> mset (ids e') = mset (ids e) \<and> (ids_ok e \<longrightarrow> ids_ok e')"
proof -
  obtain e' where e': "RDLogEvent_move e (int i) (int j) = Inr e'"
      "event_keys e' = list_move i j (event_keys e)"
    using move_ok [OF assms] by blast
  then have "mset (event_keys e') = mset (event_keys e)"
    using assms by (simp add: mset_list_move)
  then have "mset (ids e') = mset (ids e)" by (simp add: ids_keys)
  with e' move_ids_ok [OF e'(1) assms] show ?thesis by blast
qed

theorem move_is_list_move_witness:
  "\<exists>e'. RDLogEvent_move (event_ids [4, 7, 8]) 0 2 = Inr e'
      \<and> event_keys e' = list_move 0 2 (event_keys (event_ids [4, 7, 8]))"
  using move_is_list_move [of 0 "event_ids [4, 7, 8]" 2] by auto

text \<open>\<open>copy(from,to)\<close> to a later line assigns the whole source line, its ID included, to
  the inserted line: the log then holds two lines with the same ID, the invariant of the ID
  counter is lost, and a lookup by that ID never reaches the copy.\<close>

theorem copy_duplicates_id:
  assumes "i < j" "j \<le> length (log_lines e)"
  shows "\<exists>e'. RDLogEvent_copy e (int i) (int j) = Inr e'
           \<and> ids e' = list_ins j (ids e ! i) (ids e) \<and> \<not> ids_ok e'
           \<and> RDLogEvent_lineById e' (ids e ! i) \<noteq> int j"
proof -
  obtain e1 where e1: "RDLogEvent_insert e (int j) 1 False = Inr e1"
      "ids e1 = list_ins j (log_max_id e + 1) (ids e)"
    using insert_ok [OF assms(2), of log_id 1 False] by (auto simp: ids_def fresh_ids list_ins_def)
  have len: "length (log_lines e1) = Suc (length (log_lines e))" "length (ids e) = length (log_lines e)"
    using arg_cong [OF e1(2), of length] by (simp_all add: ids_def)
  have "ids e1 ! i = ids e ! i"
    using e1(2) assms len by (simp add: nth_list_ins)
  then have src: "log_id (log_lines e1 ! i) = ids e ! i"
    using assms len by (simp add: ids_def)
  define e2 where "e2 = e1\<lparr>log_lines := (log_lines e1)[j := (RDLogLine_clearTrackData AllTrans
      (RDLogLine_clearExternalData (log_lines e1 ! i)))\<lparr>log_source := Manual\<rparr>]\<rparr>"
  have copy: "RDLogEvent_copy e (int i) (int j) = Inr e2"
    using e1(1) assms len by (simp add: RDLogEvent_copy_def RDLogEvent_logLine_def e2_def)
  have "ids e2 = (ids e1)[j := ids e ! i]"
    using src by (simp add: e2_def ids_def map_update)
  then have ids2: "ids e2 = list_ins j (ids e ! i) (ids e)"
    using e1(2) assms len by (simp add: log_editor.list_ins_put)
  have "\<not> ids_ok e2"
    using ids2 assms len by (simp add: ids_ok_def distinct_list_ins)
  moreover have "log_id (log_lines e2 ! i) = ids e ! i"
    using src assms by (simp add: e2_def)
  then have "RDLogEvent_lineById e2 (ids e ! i) \<noteq> int j"
    unfolding RDLogEvent_lineById_def
    using first_line_cases [of "\<lambda>l. log_id l = ids e ! i" e2] assms by auto
  ultimately show ?thesis using copy ids2 by blast
qed

theorem copy_duplicates_id_witness:
  "\<exists>e'. RDLogEvent_copy (event_ids [4, 7]) 0 2 = Inr e' \<and> \<not> ids_ok e'"
  using copy_duplicates_id [of 0 2 "event_ids [4, 7]"] by auto

end
