(* ===== verification/Log_Timing.thy ===== *)
theory Log_Timing
  imports Log_Event
begin

text \<open>
  The lengths and block times of a log: \<open>length()\<close>, \<open>lengthToStop()\<close>, \<open>blockLength()\<close> and
  \<open>blockStartTime()\<close> of \<open>lib/rdlog_event.cpp\<close>. A block is the run of lines from one line with
  a hard start time to the next. Every \<open>logLine(i)->\<close> of the code is a dereference that
  faults when \<open>logLine(i)\<close> is NULL.
\<close>

section \<open>Loops\<close>

text \<open>\<open>search_lines\<close>: a loop over line numbers that stops at the first line with a property.
  \<open>sum_lines\<close>: a loop that adds up a contribution per line.\<close>

fun search_lines :: "(log_line \<Rightarrow> bool) \<Rightarrow> log_event \<Rightarrow> int list \<Rightarrow> int option res" where
  "search_lines p e [] = Inr None"
| "search_lines p e (i # is) = res_bind (of_ptr (RDLogEvent_logLine e i))
     (\<lambda>l. if p l then Inr (Some i) else search_lines p e is)"

fun sum_lines :: "(int \<Rightarrow> int res) \<Rightarrow> int \<Rightarrow> int list \<Rightarrow> int res" where
  "sum_lines f acc [] = Inr acc"
| "sum_lines f acc (i # is) = res_bind (f i) (\<lambda>n. sum_lines f (acc + n) is)"

section \<open>Lengths\<close>

definition segue_step :: "log_event \<Rightarrow> int \<Rightarrow> int res" where
  "segue_step e i =
     (let forced = res_bind (of_ptr (RDLogEvent_logLine e i)) (\<lambda>l. Inr (log_forced_length l))
      in if i + 1 \<ge> RDLogEvent_size e then forced
         else res_bind (of_ptr (RDLogEvent_logLine e (i + 1)))
           (\<lambda>next. if log_trans_type next \<noteq> Segue then forced
                   else res_bind (of_ptr (RDLogEvent_logLine e i))
                     (\<lambda>l. if RDLogLine_segueStartPoint l AutoPointer < 0 then forced
                          else Inr (RDLogLine_segueStartPoint l AutoPointer
                                    - RDLogLine_startPoint l AutoPointer))))"

text \<open>
  \<open>length()\<close>: \<open>want\<close> says whether the caller passes a \<open>sched_time\<close>; the result carries what
  is stored there. On a hard line the loop sets \<open>i=size()\<close> before it reads
  \<open>logLine(i)\<close> for the scheduled time.
\<close>

definition RDLogEvent_length ::
  "log_event \<Rightarrow> int \<Rightarrow> int \<Rightarrow> bool \<Rightarrow> (int \<times> qtime option) res" where
  "RDLogEvent_length e from_line to_line want =
     res_bind
       (if to_line < 0 then
          res_bind (search_lines (\<lambda>l. log_time_type l = Hard) e [from_line..RDLogEvent_size e - 1])
            (\<lambda>hard. case hard of
                None \<Rightarrow> Inr (RDLogEvent_size e, if want then Some 0 else None)
              | Some i \<Rightarrow>
                  if want then res_bind (of_ptr (RDLogEvent_logLine e (RDLogEvent_size e)))
                                 (\<lambda>l. Inr (i, Some (log_start_time l Logged)))
                  else Inr (i, None))
        else Inr (to_line, if want then Some 0 else None))
       (\<lambda>(to', sched). res_bind (sum_lines (segue_step e) 0 [from_line..to' - 1])
                         (\<lambda>len. Inr (len, sched)))"

fun last_stop :: "log_event \<Rightarrow> int \<Rightarrow> int list \<Rightarrow> int res" where
  "last_stop e to_line [] = Inr to_line"
| "last_stop e to_line (i # is) = res_bind (of_ptr (RDLogEvent_logLine e i))
     (\<lambda>l. last_stop e (if log_trans_type l = Stop then i else to_line) is)"

definition RDLogEvent_lengthToStop ::
  "log_event \<Rightarrow> int \<Rightarrow> bool \<Rightarrow> (int \<times> qtime option) res" where
  "RDLogEvent_lengthToStop e from_line want =
     res_bind (last_stop e (-1) [from_line..RDLogEvent_size e - 1])
       (\<lambda>to_line. if to_line < 0 then Inr (-1, None)
                  else RDLogEvent_length e from_line to_line want)"

section \<open>Blocks\<close>

definition block_step :: "log_event \<Rightarrow> int \<Rightarrow> int res" where
  "block_step e i =
     (let forced = res_bind (of_ptr (RDLogEvent_logLine e i)) (\<lambda>l. Inr (log_forced_length l))
      in if i < RDLogEvent_size e + 1
         then res_bind (of_ptr (RDLogEvent_logLine e (i + 1)))
           (\<lambda>next. if log_trans_type next = Segue
                   then res_bind (of_ptr (RDLogEvent_logLine e i))
                          (\<lambda>l. Inr (log_average_segue_length l))
                   else forced)
         else forced)"

text \<open>The result of \<open>blockLength()\<close>: its return value, \<open>*nominal_length\<close> and
  \<open>*actual_length\<close>.\<close>

definition RDLogEvent_blockLength :: "log_event \<Rightarrow> int \<Rightarrow> (bool \<times> int \<times> int) res" where
  "RDLogEvent_blockLength e line =
     (if line < 0 \<or> line > RDLogEvent_size e - 1 then Inr (False, 0, 0)
      else res_bind (search_lines (\<lambda>l. log_time_type l = Hard) e (rev [0..line]))
        (\<lambda>start. case start of
            None \<Rightarrow> Inr (False, 0, 0)
          | Some start_line \<Rightarrow>
              res_bind (search_lines (\<lambda>l. log_time_type l = Hard) e
                          [line + 1..RDLogEvent_size e - 1])
                (\<lambda>stop. case stop of
                    None \<Rightarrow> Inr (False, 0, 0)
                  | Some end_line \<Rightarrow>
                      res_bind (of_ptr (RDLogEvent_logLine e start_line))
                        (\<lambda>l1. res_bind (of_ptr (RDLogEvent_logLine e end_line))
                          (\<lambda>l2. res_bind (sum_lines (block_step e) 0 [start_line..end_line - 1])
                            (\<lambda>actual. Inr (True,
                               qtime_msecsTo (log_start_time l1 Logged) (log_start_time l2 Logged),
                               actual)))))))"

definition RDLogEvent_blockStartTime :: "log_event \<Rightarrow> int \<Rightarrow> qtime res" where
  "RDLogEvent_blockStartTime e line =
     (if line < 0 \<or> line > RDLogEvent_size e - 1 then Inr 0
      else res_bind (search_lines (\<lambda>l. log_time_type l = Hard) e (rev [0..line]))
        (\<lambda>start. res_bind
           (case start of
              None \<Rightarrow> Inr (0, 0)
            | Some i \<Rightarrow> res_bind (of_ptr (RDLogEvent_logLine e i))
                          (\<lambda>l. Inr (log_start_time l Logged, i)))
           (\<lambda>(start_time, start_line).
              if start_line = line then Inr start_time
              else res_bind (sum_lines (block_step e) 0 [start_line..line - 1])
                     (\<lambda>actual. Inr (qtime_addMSecs start_time actual)))))"

section \<open>Lemmas on the loops\<close>

lemma logLine_nat [simp]:
  "k < length (log_lines e) \<Longrightarrow> RDLogEvent_logLine e (int k) = Some (log_lines e ! k)"
  by (simp add: RDLogEvent_logLine_def)

lemma logLine_in:
  "0 \<le> i \<Longrightarrow> i < int (length (log_lines e)) \<Longrightarrow>
   RDLogEvent_logLine e i = Some (log_lines e ! nat i)"
  by (simp add: RDLogEvent_logLine_def)

lemma search_lines_eq:
  assumes "\<forall>i \<in> set is. 0 \<le> i \<and> i < int (length (log_lines e))"
  shows "search_lines p e is = Inr (find (\<lambda>i. p (log_lines e ! nat i)) is)"
  using assms by (induction "is") (auto simp: logLine_in)

lemma sum_lines_eq:
  assumes "\<forall>i \<in> set is. f i = Inr (g i)"
  shows "sum_lines f acc is = Inr (acc + sum_list (map g is))"
  using assms by (induction "is" arbitrary: acc) auto

text \<open>What line \<open>k\<close> adds to its block: its average segue length when the next line segues
  into it, its forced length otherwise.\<close>

definition block_len :: "log_line list \<Rightarrow> nat \<Rightarrow> int" where
  "block_len ls k = (if log_trans_type (ls ! Suc k) = Segue then log_average_segue_length (ls ! k)
                     else log_forced_length (ls ! k))"

lemma block_step_eq:
  "0 \<le> i \<Longrightarrow> i + 1 < int (length (log_lines e)) \<Longrightarrow>
   block_step e i = Inr (block_len (log_lines e) (nat i))"
  by (simp add: block_step_def Let_def RDLogEvent_size_def logLine_in block_len_def nat_add_distrib)

lemma upto_nat: "[int a..int b - 1] = map int [a..<b]"
proof (induction b)
  case (Suc b)
  show ?case
  proof (cases "a \<le> b")
    case True
    then have "[int a..int b] = [int a..int b - 1] @ [int b]" by (simp add: upto_rec2)
    with True Suc show ?thesis by simp
  qed simp
qed simp

lemma block_sum:
  assumes "b < length (log_lines e)"
  shows "sum_lines (block_step e) acc [int a..int b - 1]
         = Inr (acc + (\<Sum>k\<leftarrow>[a..<b]. block_len (log_lines e) k))"
  unfolding upto_nat
  using assms sum_lines_eq [of "map int [a..<b]" "block_step e" "\<lambda>i. block_len (log_lines e) (nat i)" acc]
  by (auto simp: block_step_eq comp_def)

text \<open>The backward search: the last hard line up to \<open>k\<close>.\<close>

fun last_hard :: "log_line list \<Rightarrow> nat \<Rightarrow> nat option" where
  "last_hard ls 0 = (if log_time_type (ls ! 0) = Hard then Some 0 else None)"
| "last_hard ls (Suc k) = (if log_time_type (ls ! Suc k) = Hard then Some (Suc k) else last_hard ls k)"

lemma last_hard_le: "last_hard ls k = Some s \<Longrightarrow> s \<le> k \<and> log_time_type (ls ! s) = Hard
    \<and> (\<forall>j. s < j \<longrightarrow> j \<le> k \<longrightarrow> log_time_type (ls ! j) \<noteq> Hard)"
  by (induction k) (auto split: if_splits simp: le_Suc_eq)

lemma last_hard_eqI:
  "s \<le> k \<Longrightarrow> log_time_type (ls ! s) = Hard \<Longrightarrow>
   (\<And>j. s < j \<Longrightarrow> j \<le> k \<Longrightarrow> log_time_type (ls ! j) \<noteq> Hard) \<Longrightarrow> last_hard ls k = Some s"
  by (induction k) (auto simp: le_Suc_eq)

lemma search_back:
  assumes "k < length (log_lines e)"
  shows "search_lines (\<lambda>l. log_time_type l = Hard) e (rev [0..int k])
         = Inr (map_option int (last_hard (log_lines e) k))"
proof -
  have "find (\<lambda>i. log_time_type (log_lines e ! nat i) = Hard) (rev [0..int k])
        = map_option int (last_hard (log_lines e) k)"
  proof (induction k)
    case (Suc k)
    have "[0..int (Suc k)] = [0..int k] @ [int (Suc k)]"
      using upto_rec2 [of 0 "int (Suc k)"] by simp
    moreover have "nat (int (Suc k)) = Suc k" by (rule nat_int)
    ultimately show ?case using Suc by (simp del: of_nat_Suc)
  qed simp
  with assms show ?thesis by (subst search_lines_eq) auto
qed

section \<open>Properties\<close>

text \<open>The block times by recursion on the line: a hard line starts at its logged time, any
  other line when the one before it is over.\<close>

fun block_start :: "log_line list \<Rightarrow> nat \<Rightarrow> qtime" where
  "block_start ls 0 = (if log_time_type (ls ! 0) = Hard then log_start_time (ls ! 0) Logged else 0)"
| "block_start ls (Suc k) =
     (if log_time_type (ls ! Suc k) = Hard then log_start_time (ls ! Suc k) Logged
      else qtime_addMSecs (block_start ls k) (block_len ls k))"

lemma block_start_unfold:
  "block_start ls k = (case last_hard ls k of
     None \<Rightarrow> if k = 0 then 0 else qtime_addMSecs 0 (\<Sum>j\<leftarrow>[0..<k]. block_len ls j)
   | Some s \<Rightarrow> if s = k then log_start_time (ls ! s) Logged
               else qtime_addMSecs (log_start_time (ls ! s) Logged) (\<Sum>j\<leftarrow>[s..<k]. block_len ls j))"
proof (induction k)
  case (Suc k)
  show ?case
  proof (cases "log_time_type (ls ! Suc k) = Hard")
    case soft: False
    show ?thesis
    proof (cases "last_hard ls k")
      case None
      with soft Suc show ?thesis by (cases "k = 0") (simp_all add: qtime_addMSecs_add)
    next
      case (Some s)
      then have "s \<le> k" using last_hard_le by blast
      with Some soft Suc show ?thesis by (cases "s = k") (simp_all add: qtime_addMSecs_add)
    qed
  qed simp
qed simp

text \<open>C4: For every line of a log, \<open>blockStartTime()\<close> does not fault and agrees with the
  recursive schedule: a hard line starts at its logged time, every other line starts when the
  previous one ends (after its average segue length when the line segues in, else after its
  forced length), wrapping at midnight, from midnight when no hard line comes before.\<close>

theorem blockStartTime_schedule:
  assumes "k < length (log_lines e)"
  shows "RDLogEvent_blockStartTime e (int k) = Inr (block_start (log_lines e) k)"
proof (cases "last_hard (log_lines e) k")
  case None
  then show ?thesis
    using assms block_sum [of k e 0 0]
    by (simp add: RDLogEvent_blockStartTime_def RDLogEvent_size_def search_back block_start_unfold)
next
  case (Some s)
  then have "s < length (log_lines e)" using last_hard_le assms by fastforce
  with Some show ?thesis
    using assms block_sum [of k e 0 s]
    by (auto simp: RDLogEvent_blockStartTime_def RDLogEvent_size_def search_back block_start_unfold)
qed

theorem blockStartTime_schedule_witness:
  "RDLogEvent_blockStartTime (event_ids [4, 7]) 1 = Inr 0"
  using blockStartTime_schedule [of 1 "event_ids [4, 7]"]
  by (simp add: block_len_def qtime_addMSecs_def new_log_line_def cleared_line_def)

lemma find_map_int: "find P (map int xs) = map_option int (find (\<lambda>i. P (int i)) xs)"
  by (induction xs) auto

lemma search_fwd:
  "search_lines p e [int a..RDLogEvent_size e - 1]
   = Inr (map_option int (find (\<lambda>j. p (log_lines e ! j)) [a..<length (log_lines e)]))"
  unfolding RDLogEvent_size_def upto_nat
  by (subst search_lines_eq) (auto simp: find_map_int)

lemma find_upt_first:
  "a \<le> t \<Longrightarrow> t < n \<Longrightarrow> P t \<Longrightarrow> (\<And>j. a \<le> j \<Longrightarrow> j < t \<Longrightarrow> \<not> P j) \<Longrightarrow> find P [a..<n] = Some t"
  by (auto simp: find_Some_iff intro!: exI [of _ "t - a"])

lemma find_upt_Some:
  "find P [a..<n] = Some t \<Longrightarrow> a \<le> t \<and> t < n \<and> P t"
  by (auto simp: find_Some_iff)

text \<open>Inside a block, between a hard line \<open>s\<close> and the next hard line \<open>t\<close>, \<open>blockLength()\<close>
  returns true for every line; the nominal length is the time between the two logged hard
  times and the actual length is the sum of what the lines of the block play.\<close>

theorem blockLength_block:
  assumes "s \<le> k" "k < t" "t < length (log_lines e)"
    and "log_time_type (log_lines e ! s) = Hard" "log_time_type (log_lines e ! t) = Hard"
    and "\<And>j. s < j \<Longrightarrow> j < t \<Longrightarrow> log_time_type (log_lines e ! j) \<noteq> Hard"
  shows "RDLogEvent_blockLength e (int k) =
    Inr (True, log_start_time (log_lines e ! t) Logged - log_start_time (log_lines e ! s) Logged,
         \<Sum>j\<leftarrow>[s..<t]. block_len (log_lines e) j)"
proof -
  have "last_hard (log_lines e) k = Some s"
    using assms by (intro last_hard_eqI) auto
  moreover have "find (\<lambda>j. log_time_type (log_lines e ! j) = Hard) [Suc k..<length (log_lines e)]
      = Some t"
    using assms by (intro find_upt_first) auto
  ultimately show ?thesis
    using assms block_sum [of t e 0 s] search_back [of k e]
      search_fwd [of "\<lambda>l. log_time_type l = Hard" e "Suc k"]
    by (simp add: RDLogEvent_blockLength_def RDLogEvent_size_def qtime_msecsTo_def add.commute)
qed

definition hard_at :: "int \<Rightarrow> log_line \<Rightarrow> log_line" where
  "hard_at t l = l\<lparr>log_time_type := Hard, log_start_time := (\<lambda>_. t), log_forced_length := 500\<rparr>"

definition sample_block :: log_event where
  "sample_block = (event_ids [])\<lparr>log_lines := [hard_at 3600000 new_log_line,
     new_log_line\<lparr>log_forced_length := 700\<rparr>, hard_at 7200000 new_log_line]\<rparr>"

theorem blockLength_block_witness:
  "RDLogEvent_blockLength sample_block 1 = Inr (True, 3600000, 1200)"
  using blockLength_block [of 0 1 2 sample_block]
  by (simp add: sample_block_def hard_at_def block_len_def numeral_2_eq_2 less_Suc_eq)


lemma blockLength_total:
  assumes k: "k < length (log_lines e)"
  shows "res_ok (RDLogEvent_blockLength e (int k))"
proof (cases "last_hard (log_lines e) k")
  case None
  then show ?thesis using k by (simp add: RDLogEvent_blockLength_def search_back)
next
  case (Some s)
  then have s: "s < length (log_lines e)" using last_hard_le k by fastforce
  show ?thesis
  proof (cases "find (\<lambda>j. log_time_type (log_lines e ! j) = Hard) [Suc k..<length (log_lines e)]")
    case None
    with Some k show ?thesis
      using search_back [of k e] search_fwd [of "\<lambda>l. log_time_type l = Hard" e "Suc k"]
      by (simp add: RDLogEvent_blockLength_def add.commute)
  next
    case (Some t)
    from find_upt_Some [OF this] have "t < length (log_lines e)" by simp
    with Some s \<open>last_hard (log_lines e) k = Some s\<close> k show ?thesis
      using search_back [of k e] search_fwd [of "\<lambda>l. log_time_type l = Hard" e "Suc k"]
        block_sum [of t e 0 s]
      by (simp add: RDLogEvent_blockLength_def add.commute)
  qed
qed

lemma blockStartTime_total:
  assumes k: "k < length (log_lines e)"
  shows "res_ok (RDLogEvent_blockStartTime e (int k))"
proof (cases "last_hard (log_lines e) k")
  case None
  then show ?thesis
    using k block_sum [of k e 0 0]
    by (simp add: RDLogEvent_blockStartTime_def search_back)
next
  case (Some s)
  then have "s < length (log_lines e)" using last_hard_le k by fastforce
  then show ?thesis
    using Some k block_sum [of k e 0 s]
    by (simp add: RDLogEvent_blockStartTime_def search_back)
qed

text \<open>The two block queries are total: whatever the log and whatever the line number,
  neither dereferences a line that does not exist.\<close>

theorem block_queries_total:
  "res_ok (RDLogEvent_blockLength e line) \<and> res_ok (RDLogEvent_blockStartTime e line)"
proof (cases "line < 0 \<or> line > RDLogEvent_size e - 1")
  case True
  then show ?thesis by (simp add: RDLogEvent_blockLength_def RDLogEvent_blockStartTime_def)
next
  case False
  then obtain k where k: "line = int k" "k < length (log_lines e)"
    by (metis RDLogEvent_size_def linorder_not_le nonneg_int_cases of_nat_less_iff zle_diff1_eq)
  show ?thesis using k blockLength_total [OF k(2)] blockStartTime_total [OF k(2)] by simp
qed

text \<open>\<open>length()\<close> up to the next hard line, asked for the scheduled time of that line,
  dereferences NULL whenever there is such a line: the loop has set its counter to
  \<open>size()\<close> before it reads the line's start time. Without a \<open>sched_time\<close> argument the
  same call returns the length up to that line.\<close>

theorem length_sched_time_faults:
  assumes "to < 0" "k \<le> t" "t < length (log_lines e)" "log_time_type (log_lines e ! t) = Hard"
    and "\<And>j. k \<le> j \<Longrightarrow> j < t \<Longrightarrow> log_time_type (log_lines e ! j) \<noteq> Hard"
  shows "RDLogEvent_length e (int k) to True = Inl NullDeref
    \<and> RDLogEvent_length e (int k) to False = RDLogEvent_length e (int k) (int t) False"
proof -
  have "find (\<lambda>j. log_time_type (log_lines e ! j) = Hard) [k..<length (log_lines e)] = Some t"
    using assms by (intro find_upt_first) auto
  then show ?thesis
    using assms(1)
    by (simp add: RDLogEvent_length_def search_fwd RDLogEvent_logLine_def RDLogEvent_size_def
        flip: RDLogEvent_size_def)
qed

theorem length_sched_time_faults_witness:
  "RDLogEvent_length sample_block 1 (-1) True = Inl NullDeref"
  using length_sched_time_faults [of "-1" 1 2 sample_block]
  by (simp add: sample_block_def hard_at_def numeral_2_eq_2 less_Suc_eq)

end
