(* ===== verification/Qt_String.thy ===== *)
theory Qt_String
  imports Rd_Prelude
begin

text \<open>
  What the code uses of Qt 3's \<open>QString\<close>: \<open>left\<close>, \<open>right\<close>, \<open>mid\<close>, \<open>upper\<close>, decimal
  conversions (\<open>toInt\<close>, \<open>toUInt\<close>, and the \<open>%d\<close> and \<open>%02d\<close> of \<open>sprintf\<close>), on lists of
  characters. A failed conversion gives 0 and a false \<open>ok\<close>, here \<open>None\<close>.
\<close>

section \<open>Slices\<close>

definition qs_left :: "nat \<Rightarrow> string \<Rightarrow> string" where
  "qs_left n s = take n s"

definition qs_right :: "nat \<Rightarrow> string \<Rightarrow> string" where
  "qs_right n s = drop (length s - n) s"

definition qs_mid :: "nat \<Rightarrow> nat \<Rightarrow> string \<Rightarrow> string" where
  "qs_mid i n s = take n (drop i s)"

section \<open>Digits\<close>

definition digit_char :: "nat \<Rightarrow> char" where
  "digit_char n = ''0123456789'' ! n"

definition digit_val :: "char \<Rightarrow> nat option" where
  "digit_val c = map_of (zip ''0123456789'' [0..<10]) c"

definition is_digit :: "char \<Rightarrow> bool" where
  "is_digit c \<longleftrightarrow> digit_val c \<noteq> None"

fun digits_val :: "nat \<Rightarrow> string \<Rightarrow> nat option" where
  "digits_val acc [] = Some acc"
| "digits_val acc (c # cs) =
     (case digit_val c of None \<Rightarrow> None | Some d \<Rightarrow> digits_val (10 * acc + d) cs)"

definition parse_nat :: "string \<Rightarrow> nat option" where
  "parse_nat s = (if s = [] then None else digits_val 0 s)"

fun string_of_nat :: "nat \<Rightarrow> string" where
  "string_of_nat n = (if n < 10 then [digit_char n]
     else string_of_nat (n div 10) @ [digit_char (n mod 10)])"

declare string_of_nat.simps [simp del]

definition string_of_int :: "int \<Rightarrow> string" where
  "string_of_int i = (if i < 0 then CHR ''-'' # string_of_nat (nat (- i)) else string_of_nat (nat i))"

text \<open>\<open>%02d\<close> and \<open>%03d\<close> for the non-negative values the code prints with them.\<close>

definition pad_nat :: "nat \<Rightarrow> nat \<Rightarrow> string" where
  "pad_nat w n = replicate (w - length (string_of_nat n)) (CHR ''0'') @ string_of_nat n"

text \<open>\<open>toInt\<close> and \<open>toUInt\<close> skip white space at both ends.\<close>

definition is_space :: "char \<Rightarrow> bool" where
  "is_space c \<longleftrightarrow> c \<in> {CHR '' '', CHR 0x09, CHR 0x0A, CHR 0x0B, CHR 0x0C, CHR 0x0D}"

definition strip_space :: "string \<Rightarrow> string" where
  "strip_space s = rev (dropWhile is_space (rev (dropWhile is_space s)))"

definition qs_toInt :: "string \<Rightarrow> int option" where
  "qs_toInt s =
     (let v = (case strip_space s of
                 [] \<Rightarrow> None
               | c # cs \<Rightarrow>
                   if c = CHR ''-'' then map_option (\<lambda>n. - int n) (parse_nat cs)
                   else if c = CHR ''+'' then map_option int (parse_nat cs)
                   else map_option int (parse_nat (c # cs)))
      in case v of None \<Rightarrow> None
         | Some i \<Rightarrow> if - 2147483648 \<le> i \<and> i \<le> 2147483647 then Some i else None)"

definition qs_toUInt :: "string \<Rightarrow> nat option" where
  "qs_toUInt s =
     (let t = strip_space s;
          v = parse_nat (if t \<noteq> [] \<and> hd t = CHR ''+'' then tl t else t)
      in case v of None \<Rightarrow> None | Some n \<Rightarrow> if n \<le> 4294967295 then Some n else None)"

definition toInt0 :: "string \<Rightarrow> int" where
  "toInt0 s = (case qs_toInt s of None \<Rightarrow> 0 | Some i \<Rightarrow> i)"

definition toUInt0 :: "string \<Rightarrow> nat" where
  "toUInt0 s = (case qs_toUInt s of None \<Rightarrow> 0 | Some n \<Rightarrow> n)"

section \<open>Lemmas\<close>

named_theorems qs_simps

lemma digit_cases: "n < (10::nat) \<Longrightarrow>
    n = 0 \<or> n = 1 \<or> n = 2 \<or> n = 3 \<or> n = 4 \<or> n = 5 \<or> n = 6 \<or> n = 7 \<or> n = 8 \<or> n = 9"
  by arith

lemma digit_val_char [simp]: "n < 10 \<Longrightarrow> digit_val (digit_char n) = Some n"
  by (drule digit_cases, elim disjE) (simp_all add: digit_val_def digit_char_def upt_rec)

lemma digit_val_Some: "digit_val c = Some d \<Longrightarrow> d < 10 \<and> c = digit_char d"
  by (auto simp: digit_val_def digit_char_def upt_rec split: if_splits)

lemma is_digit_char [simp]: "n < 10 \<Longrightarrow> is_digit (digit_char n)"
  by (simp add: is_digit_def)

lemma digits_val_append [simp]:
  "digits_val a (xs @ ys) = (case digits_val a xs of None \<Rightarrow> None | Some b \<Rightarrow> digits_val b ys)"
  by (induction xs arbitrary: a) (auto split: option.split)

lemma digits_val_string [simp]: "digits_val 0 (string_of_nat n) = Some n"
proof (induction n rule: string_of_nat.induct)
  case (1 n)
  then show ?case
    by (subst string_of_nat.simps) auto
qed

lemma string_of_nat_ne [simp]: "string_of_nat n \<noteq> []"
  by (subst string_of_nat.simps) simp

lemma parse_string_of_nat [simp]: "parse_nat (string_of_nat n) = Some n"
  by (simp add: parse_nat_def)

lemma string_of_nat_digits: "c \<in> set (string_of_nat n) \<Longrightarrow> is_digit c"
proof (induction n rule: string_of_nat.induct)
  case (1 n)
  then show ?case by (subst (asm) string_of_nat.simps) (auto split: if_splits)
qed

lemma digits_val_zeros [simp]: "digits_val 0 (replicate k (CHR ''0'')) = Some 0"
proof (induction k)
  case (Suc k)
  have "digit_val (CHR ''0'') = Some 0" by (simp add: digit_val_def upt_rec)
  with Suc show ?case by simp
qed simp

lemma parse_pad_nat [simp]: "parse_nat (pad_nat w n) = Some n"
  by (simp add: parse_nat_def pad_nat_def)

lemma pad_nat_digits: "c \<in> set (pad_nat w n) \<Longrightarrow> is_digit c"
  using is_digit_char [of 0]
  by (auto simp: pad_nat_def digit_char_def dest: string_of_nat_digits split: if_splits)

lemma digit_not_space: "is_digit c \<Longrightarrow> \<not> is_space c"
  by (auto simp: is_digit_def is_space_def digit_val_def upt_rec)

lemma dropWhile_id: "(\<And>c. c \<in> set s \<Longrightarrow> \<not> P c) \<Longrightarrow> dropWhile P s = s"
  by (cases s) auto

lemma strip_space_id [simp]: "(\<And>c. c \<in> set s \<Longrightarrow> \<not> is_space c) \<Longrightarrow> strip_space s = s"
proof -
  assume *: "\<And>c. c \<in> set s \<Longrightarrow> \<not> is_space c"
  then have "dropWhile is_space s = s" "dropWhile is_space (rev s) = rev s"
    by (auto intro: dropWhile_id)
  then show ?thesis by (simp add: strip_space_def)
qed

lemma toUInt_digits:
  assumes "\<And>c. c \<in> set s \<Longrightarrow> is_digit c" "parse_nat s = Some n" "n \<le> 4294967295"
  shows "qs_toUInt s = Some n"
proof -
  have "strip_space s = s" using assms(1) digit_not_space by (intro strip_space_id) blast
  moreover have "s \<noteq> [] \<Longrightarrow> hd s \<noteq> CHR ''+''"
    using assms(1) [of "hd s"] by (auto simp: is_digit_def digit_val_def upt_rec)
  ultimately show ?thesis using assms(2,3) by (auto simp: qs_toUInt_def)
qed

lemma toInt_digits:
  assumes "\<And>c. c \<in> set s \<Longrightarrow> is_digit c" "parse_nat s = Some n" "n \<le> 2147483647"
  shows "qs_toInt s = Some (int n)"
proof -
  have strip: "strip_space s = s" using assms(1) digit_not_space by (intro strip_space_id) blast
  obtain c cs where s: "s = c # cs" using assms(2) by (cases s) (auto simp: parse_nat_def)
  have "c \<noteq> CHR ''-''" "c \<noteq> CHR ''+''"
    using assms(1) [of c] s by (auto simp: is_digit_def digit_val_def upt_rec)
  then show ?thesis using assms(2,3) strip s by (simp add: qs_toInt_def)
qed

end
