(* ===== verification/Log_Store.thy ===== *)
theory Log_Store
  imports Log_Timing Qt_String
begin

text \<open>
  Loading and saving a log: \<open>load()\<close>, \<open>save()\<close>, \<open>append()\<close>, \<open>LoadLines()\<close>, \<open>SaveLine()\<close>,
  \<open>LoadNowNext()\<close>, \<open>refresh()\<close> and \<open>validate()\<close> of \<open>lib/rdlog_event.cpp\<close>. The database is
  a parameter, the record \<open>database\<close> of what the queries return; a row is a record whose
  fields are the columns the code reads or writes. A column that may be NULL is an option; a
  column that stores an enumeration has its type. The table of a log is the one that
  \<open>RDCreateLogTableSql()\<close> of \<open>lib/rdcreate_log.cpp\<close> creates: its line IDs are a primary key and
  its texts have a width. A \<open>time\<close> or \<open>datetime\<close> column holds whole seconds, since the code
  formats them with \<open>hh:mm:ss\<close>.
\<close>

section \<open>Rows\<close>

record log_row =
  L_ID :: int
  L_COUNT :: int
  L_CART_NUMBER :: nat
  L_START_TIME :: int
  L_TIME_TYPE :: time_type
  L_TRANS_TYPE :: trans_type
  L_START_POINT :: int
  L_END_POINT :: int
  L_SEGUE_START_POINT :: int
  L_SEGUE_END_POINT :: int
  L_TYPE :: line_type
  L_COMMENT :: string
  L_LABEL :: string
  L_GRACE_TIME :: int
  L_SOURCE :: source
  L_EXT_START_TIME :: "qtime option"
  L_EXT_LENGTH :: "int option"
  L_EXT_DATA :: "string option"
  L_EXT_EVENT_ID :: "string option"
  L_EXT_ANNC_TYPE :: "string option"
  L_EXT_CART_NAME :: "string option"
  L_FADEUP_POINT :: "int option"
  L_FADEUP_GAIN :: "int option"
  L_FADEDOWN_POINT :: "int option"
  L_FADEDOWN_GAIN :: "int option"
  L_SEGUE_GAIN :: "int option"
  L_LINK_EVENT_NAME :: string
  L_LINK_START_TIME :: int
  L_LINK_LENGTH :: int
  L_LINK_ID :: int
  L_LINK_EMBEDDED :: string
  L_ORIGIN_USER :: string
  L_ORIGIN_DATETIME :: qdatetime
  L_LINK_START_SLOP :: int
  L_LINK_END_SLOP :: int
  L_DUCK_UP_GAIN :: "int option"
  L_DUCK_DOWN_GAIN :: "int option"
  L_EVENT_LENGTH :: int
  L_POST_POINT :: string

record cart_row =
  C_TYPE :: cart_type
  C_GROUP_NAME :: string
  C_TITLE :: string
  C_ARTIST :: string
  C_ALBUM :: string
  C_YEAR :: int
  C_LABEL :: string
  C_CLIENT :: string
  C_AGENCY :: string
  C_USER_DEFINED :: string
  C_CONDUCTOR :: string
  C_SONG_ID :: string
  C_FORCED_LENGTH :: nat
  C_CUT_QUANTITY :: nat
  C_LAST_CUT_PLAYED :: nat
  C_PLAY_ORDER :: play_order
  C_ENFORCE_LENGTH :: string
  C_PRESERVE_PITCH :: string
  C_ASYNCRONOUS :: "string option"
  C_PUBLISHER :: string
  C_COMPOSER :: string
  C_USAGE_CODE :: usage_code
  C_AVERAGE_SEGUE_LENGTH :: int
  C_VALIDITY :: validity
  C_START_DATETIME :: "qdatetime option"
  C_END_DATETIME :: "qdatetime option"
  C_USE_EVENT_LENGTH :: string
  C_NOTES :: string

text \<open>The cart columns of a line whose cart does not exist: the left join yields NULLs, which
  the accessors turn into 0 and the empty string.\<close>

definition null_cart :: cart_row where
  "null_cart = \<lparr>C_TYPE = CartAll, C_GROUP_NAME = '''', C_TITLE = '''', C_ARTIST = '''',
     C_ALBUM = '''', C_YEAR = 0, C_LABEL = '''', C_CLIENT = '''', C_AGENCY = '''',
     C_USER_DEFINED = '''', C_CONDUCTOR = '''', C_SONG_ID = '''', C_FORCED_LENGTH = 0,
     C_CUT_QUANTITY = 0, C_LAST_CUT_PLAYED = 0, C_PLAY_ORDER = PlaySequence,
     C_ENFORCE_LENGTH = '''', C_PRESERVE_PITCH = '''', C_ASYNCRONOUS = None,
     C_PUBLISHER = '''', C_COMPOSER = '''', C_USAGE_CODE = UsageFeature,
     C_AVERAGE_SEGUE_LENGTH = 0, C_VALIDITY = NeverValid, C_START_DATETIME = None,
     C_END_DATETIME = None, C_USE_EVENT_LENGTH = '''', C_NOTES = ''''\<rparr>"

text \<open>The first row of \<open>CUTS\<close> for a cart, in the order of \<open>CUT_NAME\<close>.\<close>

record first_cut =
  cut_points :: cut_pointers
  CUT_NAME :: string
  ORIGIN_NAME :: string
  ORIGIN_DATETIME :: qdatetime

record database =
  db_carts :: "nat \<Rightarrow> cart_row option"
  db_group_colors :: "string \<Rightarrow> string"
  db_now_next :: "(string \<times> string) list"
  db_log_descs :: "string \<Rightarrow> string option"
  db_first_cuts :: "nat \<Rightarrow> first_cut option"
  db_services :: "string \<Rightarrow> string option"
  db_next_ids :: "string \<Rightarrow> int"
  db_tables :: "string \<Rightarrow> log_row list"

definition RDBool :: "string \<Rightarrow> bool" where
  "RDBool s \<longleftrightarrow> CHR ''Y'' \<in> set s \<or> CHR ''y'' \<in> set s"

definition RDYesNo :: "bool \<Rightarrow> string" where
  "RDYesNo state = (if state then ''Y'' else ''N'')"

section \<open>Loading\<close>

definition opt_or :: "'a \<Rightarrow> 'a option \<Rightarrow> 'a" where
  "opt_or old v = (case v of None \<Rightarrow> old | Some x \<Rightarrow> x)"

text \<open>What every line type loads.\<close>

definition load_common :: "log_row \<Rightarrow> cart_row \<Rightarrow> int \<Rightarrow> log_line \<Rightarrow> log_line" where
  "load_common q c id_offset line =
     (let t = qtime_addMSecs 0 (L_START_TIME q);
          l1 = RDLogLine_setStartTime Logged t (RDLogLine_setStartTime Imported t
                 (line\<lparr>log_type := L_TYPE q, log_id := L_ID q + id_offset\<rparr>))
      in l1\<lparr>log_time_type := L_TIME_TYPE q, log_trans_type := L_TRANS_TYPE q,
            log_marker_comment := L_COMMENT q, log_marker_label := L_LABEL q,
            log_grace_time := L_GRACE_TIME q,
            log_use_event_length := RDBool (C_USE_EVENT_LENGTH c),
            log_event_length := L_EVENT_LENGTH q, log_source := L_SOURCE q,
            log_link := \<lparr>log_link_event_name = L_LINK_EVENT_NAME q,
               log_link_start_time = qtime_addMSecs 0 (L_LINK_START_TIME q),
               log_link_length = L_LINK_LENGTH q, log_link_start_slop = L_LINK_START_SLOP q,
               log_link_end_slop = L_LINK_END_SLOP q, log_link_id = L_LINK_ID q,
               log_link_embedded = RDBool (L_LINK_EMBEDDED q)\<rparr>,
            log_origin_user := L_ORIGIN_USER q,
            log_origin_datetime := L_ORIGIN_DATETIME q\<rparr>)"

definition load_ext :: "log_row \<Rightarrow> ext_data \<Rightarrow> ext_data" where
  "load_ext q x = x\<lparr>log_ext_start_time := opt_or (log_ext_start_time x) (L_EXT_START_TIME q),
     log_ext_length := opt_or (log_ext_length x) (L_EXT_LENGTH q),
     log_ext_data := opt_or (log_ext_data x) (L_EXT_DATA q),
     log_ext_event_id := opt_or (log_ext_event_id x) (L_EXT_EVENT_ID q),
     log_ext_annc_type := opt_or (log_ext_annc_type x) (L_EXT_ANNC_TYPE q),
     log_ext_cart_name := opt_or (log_ext_cart_name x) (L_EXT_CART_NAME q)\<rparr>"

definition load_meta :: "database \<Rightarrow> cart_row \<Rightarrow> cart_meta \<Rightarrow> cart_meta" where
  "load_meta db c m = m\<lparr>log_group_name := C_GROUP_NAME c,
     log_group_color := db_group_colors db (C_GROUP_NAME c), log_title := C_TITLE c,
     log_artist := C_ARTIST c, log_publisher := C_PUBLISHER c, log_composer := C_COMPOSER c,
     log_album := C_ALBUM c, log_year := C_YEAR c, log_label := C_LABEL c,
     log_client := C_CLIENT c, log_agency := C_AGENCY c, log_user_defined := C_USER_DEFINED c\<rparr>"

definition load_cart_line :: "database \<Rightarrow> log_row \<Rightarrow> cart_row \<Rightarrow> log_line \<Rightarrow> log_line" where
  "load_cart_line db q c l =
     l\<lparr>log_cart_number := L_CART_NUMBER q,
       log_start_point := (log_start_point l)(LogPointer := L_START_POINT q),
       log_end_point := (log_end_point l)(LogPointer := L_END_POINT q),
       log_segue_start_point := (log_segue_start_point l)(LogPointer := L_SEGUE_START_POINT q),
       log_segue_end_point := (log_segue_end_point l)(LogPointer := L_SEGUE_END_POINT q),
       log_cart_type := C_TYPE c,
       log_meta := (load_meta db c (log_meta l))
                     \<lparr>log_conductor := C_CONDUCTOR c, log_song_id := C_SONG_ID c\<rparr>,
       log_cart_notes := C_NOTES c, log_usage_code := C_USAGE_CODE c,
       log_forced_length := int (C_FORCED_LENGTH c),
       log_average_segue_length :=
         (if L_SEGUE_START_POINT q < 0 \<or> L_SEGUE_END_POINT q < 0 then C_AVERAGE_SEGUE_LENGTH c
          else L_SEGUE_START_POINT q - L_START_POINT q),
       log_cut_quantity := C_CUT_QUANTITY c, log_last_cut_played := C_LAST_CUT_PLAYED c,
       log_play_order := C_PLAY_ORDER c, log_enforce_length := RDBool (C_ENFORCE_LENGTH c),
       log_preserve_pitch := RDBool (C_PRESERVE_PITCH c),
       log_ext := load_ext q (log_ext l),
       log_fadeup_point := (log_fadeup_point l)
         (LogPointer := opt_or (log_fadeup_point l LogPointer) (L_FADEUP_POINT q)),
       log_fadeup_gain := opt_or (log_fadeup_gain l) (L_FADEUP_GAIN q),
       log_fadedown_point := (log_fadedown_point l)
         (LogPointer := opt_or (log_fadedown_point l LogPointer) (L_FADEDOWN_POINT q)),
       log_fadedown_gain := opt_or (log_fadedown_gain l) (L_FADEDOWN_GAIN q),
       log_segue_gain := opt_or (log_segue_gain l) (L_SEGUE_GAIN q),
       log_duck_up_gain := opt_or (log_duck_up_gain l) (L_DUCK_UP_GAIN q),
       log_duck_down_gain := opt_or (log_duck_down_gain l) (L_DUCK_DOWN_GAIN q),
       log_start_datetime := opt_or (log_start_datetime l) (C_START_DATETIME c),
       log_end_datetime := opt_or (log_end_datetime l) (C_END_DATETIME c),
       log_validity := C_VALIDITY c\<rparr>"

definition load_macro_line :: "database \<Rightarrow> log_row \<Rightarrow> cart_row \<Rightarrow> log_line \<Rightarrow> log_line" where
  "load_macro_line db q c l =
     l\<lparr>log_cart_number := L_CART_NUMBER q, log_cart_type := C_TYPE c,
       log_meta := load_meta db c (log_meta l), log_cart_notes := C_NOTES c,
       log_forced_length := int (C_FORCED_LENGTH c),
       log_average_segue_length := int (C_FORCED_LENGTH c),
       log_ext := load_ext q (log_ext l),
       log_asyncronous := (case C_ASYNCRONOUS c of None \<Rightarrow> log_asyncronous l | Some s \<Rightarrow> RDBool s)\<rparr>"

definition load_chain_line :: "database \<Rightarrow> log_line \<Rightarrow> log_line" where
  "load_chain_line db l =
     l\<lparr>log_marker_comment := opt_or (log_marker_comment l) (db_log_descs db (log_marker_label l))\<rparr>"

definition col_int :: "int option \<Rightarrow> int" where
  "col_int v = opt_or 0 v"

text \<open>The body of the row loop: the line, and whether the next line begins a custom
  transition. \<open>line\<close> is the object that every row reuses, cleared first.\<close>

definition load_row ::
  "database \<Rightarrow> int \<Rightarrow> bool \<Rightarrow> log_line \<Rightarrow> log_row \<Rightarrow> log_line \<times> bool" where
  "load_row db id_offset prev_custom line q =
     (let c = opt_or null_cart (db_carts db (L_CART_NUMBER q));
          l0 = load_common q c id_offset (RDLogLine_clear line);
          l1 = (case log_type l0 of
                  Cart \<Rightarrow> load_cart_line db q c l0
                | Macro \<Rightarrow> load_macro_line db q c l0
                | Chain \<Rightarrow> load_chain_line db l0
                | _ \<Rightarrow> l0)
      in (l1\<lparr>log_has_custom_transition := prev_custom \<or> L_START_POINT q \<ge> 0
                 \<or> col_int (L_FADEUP_POINT q) \<ge> 0\<rparr>,
          log_type l1 = Cart \<and> (L_END_POINT q \<ge> 0 \<or> L_SEGUE_START_POINT q \<ge> 0
            \<or> L_SEGUE_END_POINT q \<ge> 0 \<or> col_int (L_FADEDOWN_POINT q) \<ge> 0)))"

fun load_rows ::
  "database \<Rightarrow> int \<Rightarrow> log_row list \<Rightarrow> bool \<Rightarrow> log_line \<Rightarrow> log_event \<Rightarrow> log_event" where
  "load_rows db id_offset [] prev_custom line e = e"
| "load_rows db id_offset (q # qs) prev_custom line e =
     (let (l, custom) = load_row db id_offset prev_custom line q
      in load_rows db id_offset qs custom l
           (e\<lparr>log_max_id := (if L_ID q + id_offset > log_max_id e then L_ID q + id_offset
                             else log_max_id e),
              log_lines := log_lines e @ [l]\<rparr>))"

fun now_next_loop :: "(string \<times> string) list \<Rightarrow> log_line \<Rightarrow> log_line" where
  "now_next_loop [] l = l"
| "now_next_loop ((name, enabled) # gs) l =
     now_next_loop gs (if log_group_name (log_meta l) = name
                       then l\<lparr>log_now_next_enabled := RDBool enabled\<rparr> else l)"

definition RDLogEvent_LoadNowNext :: "database \<Rightarrow> nat \<Rightarrow> log_event \<Rightarrow> log_event" where
  "RDLogEvent_LoadNowNext db from_line e =
     e\<lparr>log_lines := take from_line (log_lines e)
         @ map (now_next_loop (db_now_next db)) (drop from_line (log_lines e))\<rparr>"

definition load_track_ptrs :: "database \<Rightarrow> log_line \<Rightarrow> log_line" where
  "load_track_ptrs db l =
     (if log_cart_type l = CartAudio then
        (case db_first_cuts db (log_cart_number l) of
           None \<Rightarrow> l
         | Some k \<Rightarrow> let q = cut_points k in
             l\<lparr>log_start_point := (log_start_point l)(CartPointer := START_POINT q),
               log_end_point := (log_end_point l)(CartPointer := END_POINT q),
               log_segue_start_point := (log_segue_start_point l)(CartPointer := SEGUE_START_POINT q),
               log_segue_end_point := (log_segue_end_point l)(CartPointer := SEGUE_END_POINT q),
               log_talk_start := TALK_START_POINT q, log_talk_end := TALK_END_POINT q,
               log_hook_start := HOOK_START_POINT q, log_hook_end := HOOK_END_POINT q,
               log_fadeup_point := (log_fadeup_point l)(CartPointer := FADEUP_POINT q),
               log_fadedown_point := (log_fadedown_point l)(CartPointer := FADEDOWN_POINT q),
               log_cut_number := int (toUInt0 (qs_right 3 (CUT_NAME k))),
               log_origin_user := ORIGIN_NAME k, log_origin_datetime := ORIGIN_DATETIME k\<rparr>)
      else l)"

text \<open>\<open>LoadLines()\<close> returns the number of lines read.\<close>

definition RDLogEvent_LoadLines ::
  "database \<Rightarrow> string \<Rightarrow> int \<Rightarrow> bool \<Rightarrow> log_event \<Rightarrow> log_event \<times> nat" where
  "RDLogEvent_LoadLines db log_table id_offset track_ptrs e =
     (let rows = db_tables db log_table; start_line = length (log_lines e)
      in if rows = [] then (e, 0)
         else let e1 = RDLogEvent_LoadNowNext db start_line
                         (load_rows db id_offset rows False new_log_line e);
                  e2 = (if track_ptrs
                        then e1\<lparr>log_lines := take start_line (log_lines e1)
                               @ map (load_track_ptrs db) (drop start_line (log_lines e1))\<rparr>
                        else e1)
              in (e2, length rows))"

text \<open>\<open>log_name.left(log_name.length()-4)\<close>, the name of the log of a table \<open>X_LOG\<close>; the
  argument of \<open>left()\<close> is unsigned, so a shorter string is returned whole.\<close>

definition base_name :: "string \<Rightarrow> string" where
  "base_name s = (if length s < 4 then s else qs_left (length s - 4) s)"

definition RDLogEvent_load :: "database \<Rightarrow> bool \<Rightarrow> log_event \<Rightarrow> log_event \<times> nat" where
  "RDLogEvent_load db track_ptrs e =
     (let name = base_name (log_name e);
          e1 = e\<lparr>log_service_name := opt_or (log_service_name e) (db_services db name),
                 log_max_id := db_next_ids db name\<rparr>;
          e2 = fst (RDLogEvent_LoadLines db (log_name e) 0 track_ptrs e1)
      in (e2, length (log_lines e2)))"

definition RDLogEvent_append :: "database \<Rightarrow> string \<Rightarrow> bool \<Rightarrow> log_event \<Rightarrow> log_event \<times> nat" where
  "RDLogEvent_append db table track_ptrs e =
     RDLogEvent_LoadLines db table (log_max_id e) track_ptrs e"

section \<open>Saving\<close>

definition whole_secs :: "int \<Rightarrow> int" where
  "whole_secs t = t - t mod 1000"

text \<open>
  A column \<open>CHAR(w)\<close> keeps the first \<open>w\<close> characters of a text (outside of the strict mode of
  the server, which refuses a longer one) and gives it back without its trailing blanks.
\<close>

definition char_col :: "nat \<Rightarrow> string \<Rightarrow> string" where
  "char_col w s = rev (dropWhile (\<lambda>c. c = CHR '' '') (rev (take w s)))"

definition line_row :: "int \<Rightarrow> log_line \<Rightarrow> log_row" where
  "line_row line l = \<lparr>L_ID = log_id l, L_COUNT = line, L_CART_NUMBER = log_cart_number l,
        L_START_TIME = qtime_msecsTo 0 (log_start_time l Logged),
        L_TIME_TYPE = log_time_type l, L_TRANS_TYPE = log_trans_type l,
        L_START_POINT = RDLogLine_startPoint l LogPointer,
        L_END_POINT = RDLogLine_endPoint l LogPointer,
        L_SEGUE_START_POINT = RDLogLine_segueStartPoint l LogPointer,
        L_SEGUE_END_POINT = RDLogLine_segueEndPoint l LogPointer,
        L_TYPE = log_type l, L_COMMENT = char_col 255 (log_marker_comment l),
        L_LABEL = char_col 64 (log_marker_label l),
        L_GRACE_TIME = log_grace_time l, L_SOURCE = log_source l,
        L_EXT_START_TIME = Some (whole_secs (log_ext_start_time (log_ext l))),
        L_EXT_LENGTH = Some (log_ext_length (log_ext l)),
        L_EXT_DATA = Some (char_col 32 (log_ext_data (log_ext l))),
        L_EXT_EVENT_ID = Some (char_col 32 (log_ext_event_id (log_ext l))),
        L_EXT_ANNC_TYPE = Some (char_col 8 (log_ext_annc_type (log_ext l))),
        L_EXT_CART_NAME = Some (char_col 32 (log_ext_cart_name (log_ext l))),
        L_FADEUP_POINT = Some (RDLogLine_fadeupPoint l LogPointer),
        L_FADEUP_GAIN = Some (log_fadeup_gain l),
        L_FADEDOWN_POINT = Some (RDLogLine_fadedownPoint l LogPointer),
        L_FADEDOWN_GAIN = Some (log_fadedown_gain l),
        L_SEGUE_GAIN = Some (RDLogLine_segueGain l),
        L_LINK_EVENT_NAME = char_col 64 (log_link_event_name (log_link l)),
        L_LINK_START_TIME = qtime_msecsTo 0 (log_link_start_time (log_link l)),
        L_LINK_LENGTH = log_link_length (log_link l),
        L_LINK_ID = log_link_id (log_link l),
        L_LINK_EMBEDDED = RDYesNo (log_link_embedded (log_link l)),
        L_ORIGIN_USER = char_col 255 (log_origin_user l),
        L_ORIGIN_DATETIME = whole_secs (log_origin_datetime l),
        L_LINK_START_SLOP = log_link_start_slop (log_link l),
        L_LINK_END_SLOP = log_link_end_slop (log_link l),
        L_DUCK_UP_GAIN = Some (log_duck_up_gain l),
        L_DUCK_DOWN_GAIN = Some (log_duck_down_gain l),
        L_EVENT_LENGTH = log_event_length l, L_POST_POINT = ''N''\<rparr>"

definition RDLogEvent_SaveLine :: "log_event \<Rightarrow> int \<Rightarrow> log_row res" where
  "RDLogEvent_SaveLine e line =
     res_bind (vec_get (log_lines e) line) (\<lambda>l. Inr (line_row line l))"

text \<open>An \<open>insert\<close> whose line ID is in the table already fails on the primary key and leaves
  the table as it is; the code does not look at the result. \<open>db_tables\<close> holds the rows in the
  order of \<open>COUNT\<close>.\<close>

definition insert_row :: "log_row \<Rightarrow> log_row list \<Rightarrow> log_row list" where
  "insert_row r rows =
     (if list_ex (\<lambda>q. L_ID q = L_ID r) rows then rows else insort_key L_COUNT r rows)"

fun save_lines :: "log_event \<Rightarrow> int list \<Rightarrow> log_row list \<Rightarrow> log_row list res" where
  "save_lines e [] rows = Inr rows"
| "save_lines e (i # is) rows = res_bind (RDLogEvent_SaveLine e i)
     (\<lambda>r. save_lines e is (insert_row r rows))"

text \<open>
  \<open>save()\<close>: the table is rewritten when \<open>line\<close> is negative, otherwise one row is replaced.
  The next ID of the log never goes
  down. \<open>updateTracks()\<close> recounts the voice tracks in table \<open>LOGS\<close>, which nothing here
  reads.
\<close>

definition RDLogEvent_save :: "database \<Rightarrow> int \<Rightarrow> log_event \<Rightarrow> database res" where
  "RDLogEvent_save db line e =
     (if log_name e = '''' then Inr db
      else res_bind
        (if line < 0 then save_lines e [0..RDLogEvent_size e - 1] []
         else res_bind (RDLogEvent_SaveLine e line)
           (\<lambda>r. Inr (insert_row r
                       (filter (\<lambda>q. L_COUNT q \<noteq> line) (db_tables db (log_name e))))))
        (\<lambda>rows. let name = base_name (log_name e) in
           Inr (db\<lparr>db_tables := (db_tables db)(log_name e := rows),
                   db_next_ids := (if db_next_ids db name < RDLogEvent_nextId e
                                   then (db_next_ids db)(name := RDLogEvent_nextId e)
                                   else db_next_ids db)\<rparr>)))"

section \<open>Refreshing a line\<close>

text \<open>
  \<open>refresh()\<close>: the usage code is read from column 16 of the query, which is the publisher.
  \<open>usage_cast\<close> is the conversion of an \<open>int\<close> to the enumeration.
\<close>

definition refresh_line ::
  "(int \<Rightarrow> usage_code) \<Rightarrow> (string \<Rightarrow> string) \<Rightarrow> cart_row \<Rightarrow> log_line \<Rightarrow> log_line" where
  "refresh_line usage_cast group_color c l =
     l\<lparr>log_type := (case C_TYPE c of CartAudio \<Rightarrow> Cart | CartMacro \<Rightarrow> Macro | CartAll \<Rightarrow> log_type l),
       log_cart_type := C_TYPE c,
       log_meta := (log_meta l)\<lparr>log_group_name := C_GROUP_NAME c, log_title := C_TITLE c,
         log_artist := C_ARTIST c, log_publisher := C_PUBLISHER c,
         log_composer := C_COMPOSER c, log_album := C_ALBUM c, log_year := C_YEAR c,
         log_label := C_LABEL c, log_client := C_CLIENT c, log_agency := C_AGENCY c,
         log_user_defined := C_USER_DEFINED c,
         log_group_color := group_color (C_GROUP_NAME c)\<rparr>,
       log_usage_code := usage_cast (toInt0 (C_PUBLISHER c)),
       log_forced_length := int (C_FORCED_LENGTH c),
       log_average_segue_length := C_AVERAGE_SEGUE_LENGTH c,
       log_cut_quantity := C_CUT_QUANTITY c, log_last_cut_played := C_LAST_CUT_PLAYED c,
       log_play_order := C_PLAY_ORDER c, log_enforce_length := RDBool (C_ENFORCE_LENGTH c),
       log_preserve_pitch := RDBool (C_PRESERVE_PITCH c), log_validity := C_VALIDITY c,
       log_cart_notes := C_NOTES c\<rparr>"

definition RDLogEvent_refresh ::
  "(int \<Rightarrow> usage_code) \<Rightarrow> database \<Rightarrow> int \<Rightarrow> log_event \<Rightarrow> log_event res" where
  "RDLogEvent_refresh usage_cast db line e =
     (if log_name e = '''' then Inr e
      else res_bind (vec_get (log_lines e) line)
        (\<lambda>l. if log_cart_number l = 0 then Inr e
             else res_bind (vec_mod
                 (case db_carts db (log_cart_number l) of
                    Some c \<Rightarrow> refresh_line usage_cast (db_group_colors db) c
                  | None \<Rightarrow> (\<lambda>l. l\<lparr>log_validity := NeverValid\<rparr>)) line (log_lines e))
               (\<lambda>ls. Inr (e\<lparr>log_lines := ls\<rparr>))))"

section \<open>Validation\<close>

fun RDDowCode :: "int \<Rightarrow> string" where
  "RDDowCode dow = (if dow = 1 then ''MON'' else if dow = 2 then ''TUE'' else if dow = 3 then ''WED''
     else if dow = 4 then ''THU'' else if dow = 5 then ''FRI'' else if dow = 6 then ''SAT''
     else if dow = 7 then ''SUN'' else '''')"

record cut_row =
  K_CART_NUMBER :: nat
  K_START_DATETIME :: "qdatetime option"
  K_END_DATETIME :: "qdatetime option"
  K_START_DAYPART :: "qtime option"
  K_END_DAYPART :: "qtime option"
  K_DOW :: "string \<Rightarrow> string"
  K_LENGTH :: int

text \<open>The two queries for a playable cut; a date is its midnight as a \<open>qdatetime\<close>.\<close>

definition opt_all :: "('a \<Rightarrow> bool) \<Rightarrow> 'a option \<Rightarrow> bool" where
  "opt_all p v = (case v of None \<Rightarrow> True | Some x \<Rightarrow> p x)"

definition cut_playable :: "qdatetime \<Rightarrow> int \<Rightarrow> log_line \<Rightarrow> cut_row \<Rightarrow> bool" where
  "cut_playable date dow l k \<longleftrightarrow>
     (if qtime_isNull (log_start_time l Logged) then
        K_CART_NUMBER k = log_cart_number l
        \<and> opt_all (\<lambda>s. s \<le> date + 86399000) (K_START_DATETIME k)
        \<and> opt_all (\<lambda>x. x \<ge> date) (K_END_DATETIME k)
        \<and> K_DOW k (RDDowCode dow) = ''Y'' \<and> K_LENGTH k > 0
      else let t = whole_secs (log_start_time l Logged) in
        K_CART_NUMBER k = log_cart_number l
        \<and> opt_all (\<lambda>s. s \<le> date + t) (K_START_DATETIME k)
        \<and> opt_all (\<lambda>x. x \<ge> date + t) (K_END_DATETIME k)
        \<and> opt_all (\<lambda>s. s \<le> t) (K_START_DAYPART k)
        \<and> opt_all (\<lambda>x. x \<ge> t) (K_END_DAYPART k)
        \<and> K_DOW k (RDDowCode dow) = ''Y'' \<and> K_LENGTH k > 0)"

text \<open>The entries of the report, in its order: the logged time, the cart and, for a cart that
  is not playable, its title.\<close>

datatype log_exception = MissingCart qtime nat | NotPlayable qtime nat string

fun validate_line ::
  "database \<Rightarrow> cut_row list \<Rightarrow> qdatetime \<Rightarrow> int \<Rightarrow> log_line
   \<Rightarrow> log_exception list \<times> int \<Rightarrow> log_exception list \<times> int" where
  "validate_line db cuts date dow l (report, errs) =
     (if log_cart_number l > 0 then
        (case db_carts db (log_cart_number l) of
           None \<Rightarrow> (report @ [MissingCart (log_start_time l Logged) (log_cart_number l)], errs + 1)
         | Some c \<Rightarrow>
             if C_TYPE c = CartAudio \<and> \<not> list_ex (cut_playable date dow l) cuts
             then (report @ [NotPlayable (log_start_time l Logged) (log_cart_number l) (C_TITLE c)],
                   errs + 1)
             else (report, errs))
      else (report, errs))"

definition validate_loop ::
  "database \<Rightarrow> cut_row list \<Rightarrow> qdatetime \<Rightarrow> int \<Rightarrow> log_line list
   \<Rightarrow> log_exception list \<times> int \<Rightarrow> log_exception list \<times> int" where
  "validate_loop db cuts date dow ls acc = foldl (\<lambda>a l. validate_line db cuts date dow l a) acc ls"

definition RDLogEvent_validate ::
  "database \<Rightarrow> cut_row list \<Rightarrow> qdatetime \<Rightarrow> int \<Rightarrow> log_event \<Rightarrow> log_exception list \<times> int" where
  "RDLogEvent_validate db cuts date dow e = validate_loop db cuts date dow (log_lines e) ([], 0)"

section \<open>Lemmas\<close>

lemma RDBool_YesNo [simp]: "RDBool (RDYesNo b) = b"
  by (simp add: RDBool_def RDYesNo_def)

lemma opt_or_simps [simp]: "opt_or x None = x" "opt_or x (Some y) = y"
  by (simp_all add: opt_or_def)

lemma load_rows_Cons:
  "load_rows db off (q # qs) pc line e = load_rows db off qs (snd (load_row db off pc line q))
     (fst (load_row db off pc line q))
     (e\<lparr>log_max_id := max (log_max_id e) (L_ID q + off),
        log_lines := log_lines e @ [fst (load_row db off pc line q)]\<rparr>)"
  by (simp add: case_prod_unfold Let_def max_def)

declare load_rows.simps(2) [simp del]

text \<open>A view that depends on the row alone is read back row by row.\<close>

lemma load_rows_view:
  assumes "\<And>q pc line. q \<in> set qs \<Longrightarrow> f (fst (load_row db off pc line q)) = g q"
  shows "map f (log_lines (load_rows db off qs pc line e)) = map f (log_lines e) @ map g qs"
  using assms by (induction qs arbitrary: pc line e) (simp_all add: load_rows_Cons)

lemma load_rows_max:
  "log_max_id (load_rows db off qs pc line e)
   = foldl (\<lambda>m q. max m (L_ID q + off)) (log_max_id e) qs"
  by (induction qs arbitrary: pc line e) (simp_all add: load_rows_Cons)

lemma foldl_max_ge: "(m::int) \<le> foldl (\<lambda>m q. max m (f q)) m qs"
  by (induction qs arbitrary: m) (auto intro: order_trans [OF max.cobounded1])

lemma foldl_max_mem: "q \<in> set qs \<Longrightarrow> f q \<le> foldl (\<lambda>m q. max m (f q :: int)) m qs"
proof (induction qs arbitrary: m)
  case (Cons a qs)
  then show ?case
    using foldl_max_ge [of "max m (f a)" f qs] by auto
qed simp

lemma load_rows_other [simp]:
  "log_name (load_rows db off qs pc line e) = log_name e"
  "length (log_lines (load_rows db off qs pc line e)) = length (log_lines e) + length qs"
  by (induction qs arbitrary: pc line e) (simp_all add: load_rows_Cons)

lemma SaveLine_nat [simp]:
  "k < length (log_lines e) \<Longrightarrow> RDLogEvent_SaveLine e (int k) = Inr (line_row (int k) (log_lines e ! k))"
  by (simp add: RDLogEvent_SaveLine_def vec_get_def)

definition log_rows :: "log_event \<Rightarrow> log_row list" where
  "log_rows e = map (\<lambda>k. line_row (int k) (log_lines e ! k)) [0..<length (log_lines e)]"

lemma insort_key_last: "\<forall>q \<in> set qs. f q < f r \<Longrightarrow> insort_key f r qs = qs @ [r]"
  by (induction qs) auto

lemma line_row_sel [simp]: "L_ID (line_row k l) = log_id l" "L_COUNT (line_row k l) = k"
  by (simp_all add: line_row_def)

text \<open>The rows saved are those of the lines whose ID no line before them has.\<close>

definition keep_row :: "log_event \<Rightarrow> log_row list \<Rightarrow> nat \<Rightarrow> log_row list" where
  "keep_row e rows k = (if log_id (log_lines e ! k) \<in> L_ID ` set rows then rows
     else rows @ [line_row (int k) (log_lines e ! k)])"

lemma save_lines_fold:
  "k \<le> n \<Longrightarrow> n \<le> length (log_lines e) \<Longrightarrow> \<forall>q \<in> set rows. L_COUNT q < int k \<Longrightarrow>
   save_lines e (map int [k..<n]) rows = Inr (foldl (keep_row e) rows [k..<n])"
proof (induction "n - k" arbitrary: k rows)
  case (Suc m)
  have up: "[k..<n] = k # [Suc k..<n]" using Suc.hyps(2) by (simp add: upt_conv_Cons)
  have ins: "insert_row (line_row (int k) (log_lines e ! k)) rows = keep_row e rows k"
    using insort_key_last [of rows L_COUNT "line_row (int k) (log_lines e ! k)"] Suc.prems(3)
    by (auto simp: insert_row_def keep_row_def list_ex_iff image_iff eq_commute [of "log_id (log_lines e ! k)"])
  have "L_COUNT q < int (Suc k)" if "q \<in> set (keep_row e rows k)" for q
    using that Suc.prems(3) [rule_format, of q] by (auto simp: keep_row_def split: if_splits)
  with Suc ins show ?case by (simp add: up)
qed simp

lemma save_all_rows:
  "save_lines e [0..RDLogEvent_size e - 1] [] = Inr (foldl (keep_row e) [] [0..<length (log_lines e)])"
  using save_lines_fold [of 0 "length (log_lines e)" e "[]"] upto_nat [of 0 "length (log_lines e)"]
  by (simp add: RDLogEvent_size_def)

lemma keep_rows_distinct:
  assumes "distinct (ids e)" "n \<le> length (log_lines e)"
  shows "foldl (keep_row e) [] [0..<n] = map (\<lambda>k. line_row (int k) (log_lines e ! k)) [0..<n]"
  using assms(2)
proof (induction n)
  case (Suc n)
  then have "log_id (log_lines e ! n) \<noteq> log_id (log_lines e ! k)" if "k < n" for k
    using assms(1) that nth_eq_iff_index_eq [OF assms(1), of n k] by (simp add: ids_def)
  with Suc show ?case by (force simp: keep_row_def)
qed simp

lemma save_lines_all:
  "distinct (ids e) \<Longrightarrow> save_lines e [0..RDLogEvent_size e - 1] [] = Inr (log_rows e)"
  by (simp add: save_all_rows keep_rows_distinct log_rows_def)

section \<open>Properties\<close>

text \<open>What a log table stores of a line: for every line its identity, times, transition,
  texts, link and origin; for an audio line also the cart, the log's own pointers and gains;
  for an audio or macro line the traffic data. The comment of a chain line is read from the
  log it names.\<close>

definition stored_audio :: "log_line \<Rightarrow> int list" where
  "stored_audio l = [log_start_point l LogPointer, log_end_point l LogPointer,
     log_segue_start_point l LogPointer, log_segue_end_point l LogPointer,
     log_fadeup_point l LogPointer, log_fadedown_point l LogPointer,
     log_fadeup_gain l, log_fadedown_gain l, RDLogLine_segueGain l,
     log_duck_up_gain l, log_duck_down_gain l]"

definition stored_texts :: "log_line \<Rightarrow> string list" where
  "stored_texts l = [log_marker_label l, log_origin_user l,
     if log_type l = Chain then '''' else log_marker_comment l]"

definition stored_view :: "log_line \<Rightarrow> (int list \<times> string list \<times> link_data)
    \<times> (line_type \<times> time_type \<times> trans_type \<times> source) \<times> (nat \<times> ext_data) option \<times> int list option" where
  "stored_view l =
     (([log_id l, log_start_time l Logged, log_grace_time l, log_event_length l,
        log_origin_datetime l], stored_texts l, log_link l),
      (log_type l, log_time_type l, log_trans_type l, log_source l),
      if log_type l = Cart \<or> log_type l = Macro then Some (log_cart_number l, log_ext l) else None,
      if log_type l = Cart then Some (stored_audio l) else None)"

text \<open>What the columns can hold: times of day, whole seconds where the column is formatted
  so, a segue gain no lower than the fade depth, and texts no longer than their columns that
  do not end in a blank.\<close>

definition text_fits :: "nat \<Rightarrow> string \<Rightarrow> bool" where
  "text_fits w s \<longleftrightarrow> length s \<le> w \<and> (s = [] \<or> last s \<noteq> CHR '' '')"

lemma char_col_fits: "text_fits w s \<Longrightarrow> char_col w s = s"
  by (cases s rule: rev_cases) (auto simp: text_fits_def char_col_def take_Cons')

definition texts_fit :: "log_line \<Rightarrow> bool" where
  "texts_fit l \<longleftrightarrow> text_fits 255 (log_marker_comment l) \<and> text_fits 64 (log_marker_label l)
     \<and> text_fits 255 (log_origin_user l) \<and> text_fits 64 (log_link_event_name (log_link l))
     \<and> text_fits 32 (log_ext_data (log_ext l)) \<and> text_fits 32 (log_ext_event_id (log_ext l))
     \<and> text_fits 8 (log_ext_annc_type (log_ext l)) \<and> text_fits 32 (log_ext_cart_name (log_ext l))"

definition storable :: "log_line \<Rightarrow> bool" where
  "storable l \<longleftrightarrow> qtime_ok (log_start_time l Logged) \<and> qtime_ok (log_link_start_time (log_link l))
     \<and> log_ext_start_time (log_ext l) mod 1000 = 0 \<and> log_origin_datetime l mod 1000 = 0
     \<and> RD_FADE_DEPTH \<le> RDLogLine_segueGain l \<and> texts_fit l"

lemma qtime_addMSecs_0: "qtime_ok t \<Longrightarrow> qtime_addMSecs 0 t = t"
  by (simp add: qtime_ok_def qtime_addMSecs_def)

lemma stored_view_enabled [simp]: "stored_view (l\<lparr>log_now_next_enabled := b\<rparr>) = stored_view l"
  by (simp add: stored_view_def stored_texts_def stored_audio_def RDLogLine_segueGain_def)

lemma stored_view_now_next [simp]: "stored_view (now_next_loop gs l) = stored_view l"
  by (induction gs l rule: now_next_loop.induct) simp_all

lemma stored_view_load:
  assumes "storable l"
  shows "stored_view (fst (load_row db 0 pc line (line_row k l))) = stored_view l"
proof -
  have gain: "max (RDLogLine_segueGain l) RD_FADE_DEPTH = RDLogLine_segueGain l"
    using assms by (simp add: storable_def)
  have seg: "RDLogLine_segueGain l' = max (log_segue_gain l') (log_segue_gain_cut l')" for l'
    by (simp add: RDLogLine_segueGain_def max_def)
  show ?thesis
    using assms gain
    by (cases "log_type l")
      (simp_all add: stored_view_def stored_texts_def stored_audio_def load_row_def Let_def
        load_common_def storable_def RDLogLine_setStartTime_def qtime_addMSecs_0
        qtime_msecsTo_def whole_secs_def load_cart_line_def load_macro_line_def load_chain_line_def
        seg load_ext_def pointer_defs line_row_def RDLogLine_clear_def cleared_line_def
        texts_fit_def char_col_fits)
qed

lemma now_next_map:
  "map f (log_lines (RDLogEvent_LoadNowNext db k e)) = map f (log_lines e)"
  if "\<And>l. f (now_next_loop (db_now_next db) l) = f l"
proof -
  have "map f (log_lines (RDLogEvent_LoadNowNext db k e))
      = map f (take k (log_lines e)) @ map f (drop k (log_lines e))"
    using that by (simp add: RDLogEvent_LoadNowNext_def)
  also have "\<dots> = map f (log_lines e)" by (metis append_take_drop_id map_append)
  finally show ?thesis .
qed

lemma now_next_max [simp]: "log_max_id (RDLogEvent_LoadNowNext db k e) = log_max_id e"
  by (simp add: RDLogEvent_LoadNowNext_def)

lemma ids_view: "ids e = map (\<lambda>v. hd (fst (fst v))) (map stored_view (log_lines e))"
  by (simp add: ids_def stored_view_def)

lemma log_rows_views:
  "map (\<lambda>q. stored_view (fst (load_row db 0 pc line q))) (log_rows e) = map stored_view (log_lines e)"
  if "\<forall>l \<in> set (log_lines e). storable l"
  by (rule nth_equalityI) (use that in \<open>simp_all add: log_rows_def stored_view_load\<close>)

lemma stored_view_row_indep:
  "q \<in> set (log_rows e) \<Longrightarrow> \<forall>l \<in> set (log_lines e). storable l \<Longrightarrow>
   stored_view (fst (load_row db 0 pc line q)) = stored_view (fst (load_row db 0 False new_log_line q))"
  by (auto simp: log_rows_def stored_view_load)

lemma reload_views:
  assumes "\<forall>l \<in> set (log_lines e). storable l" "log_lines e1 = []"
  shows "map stored_view (log_lines (load_rows db 0 (log_rows e) False new_log_line e1))
    = map stored_view (log_lines e)"
proof -
  have "map stored_view (log_lines (load_rows db 0 (log_rows e) False new_log_line e1))
      = map stored_view (log_lines e1)
        @ map (\<lambda>q. stored_view (fst (load_row db 0 False new_log_line q))) (log_rows e)"
    by (rule load_rows_view) (rule stored_view_row_indep [OF _ assms(1)])
  then show ?thesis
    unfolding log_rows_views [OF assms(1)] using assms(2) by simp
qed

lemma reload_max:
  assumes "i \<in> set (ids e)"
  shows "i \<le> log_max_id (load_rows db 0 (log_rows e) prev l e1) \<and> log_rows e \<noteq> []"
proof -
  obtain k where "k < length (log_lines e)" "i = log_id (log_lines e ! k)"
    using assms by (auto simp: ids_def in_set_conv_nth)
  then have "line_row (int k) (log_lines e ! k) \<in> set (log_rows e)" "log_rows e \<noteq> []"
      "L_ID (line_row (int k) (log_lines e ! k)) = i"
    by (auto simp: log_rows_def line_row_def)
  then show ?thesis
    using foldl_max_mem [of _ "log_rows e" "\<lambda>q. L_ID q + 0"] by (fastforce simp: load_rows_max)
qed


definition empty_db :: database where
  "empty_db = \<lparr>db_carts = (\<lambda>_. None), db_group_colors = (\<lambda>_. ''''), db_now_next = [],
     db_log_descs = (\<lambda>_. None), db_first_cuts = (\<lambda>_. None), db_services = (\<lambda>_. None),
     db_next_ids = (\<lambda>_. 0), db_tables = (\<lambda>_. [])\<rparr>"

lemma storable_new [simp]: "storable (new_log_line\<lparr>log_id := i, log_cart_number := c\<rparr>)"
  by (simp add: storable_def new_log_line_def cleared_line_def cleared_link_def cleared_ext_def
      RDLogLine_segueGain_def texts_fit_def text_fits_def)


text \<open>A line whose ID an earlier line has is not saved: its \<open>insert\<close> fails on the primary key
  and nothing tells the caller. The line that \<open>copy()\<close> puts behind its source is such a line.\<close>

theorem save_loses_repeated_id:
  assumes "log_name e \<noteq> ''''" "i < k" "k < length (log_lines e)" "ids e ! i = ids e ! k"
  shows "\<exists>db'. RDLogEvent_save db (-1) e = Inr db'
           \<and> int k \<notin> L_COUNT ` set (db_tables db' (log_name e))"
proof -
  define rows where "rows n = foldl (keep_row e) [] [0..<n]" for n
  have step: "rows (Suc n) = keep_row e (rows n) n" for n by (simp add: rows_def)
  have has: "log_id (log_lines e ! i) \<in> L_ID ` set (rows n)" if "i < n" for n
    using that
  proof (induction n)
    case (Suc n)
    then show ?case
      by (cases "i = n") (auto simp: step keep_row_def)
  qed simp
  have "int k \<notin> L_COUNT ` set (rows n)" for n
  proof (induction n)
    case (Suc n)
    show ?case
      using Suc has [of k] assms(2-4) by (auto simp: step keep_row_def ids_def)
  qed (simp add: rows_def)
  then show ?thesis
    using assms(1) by (simp add: RDLogEvent_save_def save_all_rows Let_def flip: rows_def)
qed

theorem save_loses_repeated_id_witness:
  "\<exists>db'. RDLogEvent_save empty_db (-1) (event_ids [4, 4]) = Inr db'
     \<and> 1 \<notin> L_COUNT ` set (db_tables db' ''L_LOG'')"
  using save_loses_repeated_id [of "event_ids [4, 4]" 0 1 empty_db]
  by (simp add: event_ids_def ids_def)

text \<open>\<open>clear()\<close> does not reset the cart notes and \<open>LoadLines()\<close> reuses one line object:
  a line that is neither an audio nor a macro line keeps the notes of the row before it, so
  a marker right after a cart shows that cart's notes.\<close>

theorem loaded_marker_inherits_notes:
  assumes "L_TYPE q1 = Cart" "L_TYPE q2 = Marker" "db_carts db (L_CART_NUMBER q1) = Some c"
  shows "map log_cart_notes (log_lines (load_rows db off [q1, q2] pc line e))
         = map log_cart_notes (log_lines e) @ [C_NOTES c, C_NOTES c]"
  using assms
  by (simp add: load_rows_Cons load_row_def Let_def load_common_def RDLogLine_setStartTime_def
      load_cart_line_def RDLogLine_clear_def cleared_line_def)

definition notes_db :: database where
  "notes_db = empty_db\<lparr>db_carts := (\<lambda>_. Some (null_cart\<lparr>C_NOTES := ''Read live''\<rparr>))\<rparr>"

theorem loaded_marker_inherits_notes_witness:
  "map log_cart_notes (log_lines (load_rows notes_db 0
     [line_row 0 new_log_line, line_row 1 (new_log_line\<lparr>log_type := Marker\<rparr>)]
     False new_log_line (event_ids []))) = [''Read live'', ''Read live'']"
  using loaded_marker_inherits_notes [of "line_row 0 new_log_line"
      "line_row 1 (new_log_line\<lparr>log_type := Marker\<rparr>)" notes_db
      "null_cart\<lparr>C_NOTES := ''Read live''\<rparr>" 0 False new_log_line "event_ids []"]
  by (simp add: line_row_def notes_db_def null_cart_def)

definition line_ok :: "database \<Rightarrow> cut_row list \<Rightarrow> qdatetime \<Rightarrow> int \<Rightarrow> log_line \<Rightarrow> bool" where
  "line_ok db cuts date dow l \<longleftrightarrow> log_cart_number l = 0 \<or>
     (\<exists>c. db_carts db (log_cart_number l) = Some c
        \<and> (C_TYPE c = CartAudio \<longrightarrow> (\<exists>k \<in> set cuts. cut_playable date dow l k)))"

lemma validate_line_count:
  "validate_line db cuts date dow l (rep, n) = (rep1, n1) \<Longrightarrow>
   n1 = n + (if line_ok db cuts date dow l then 0 else 1)
   \<and> int (length rep1) - int (length rep) = n1 - n"
  by (cases "db_carts db (log_cart_number l)")
    (auto simp: line_ok_def list_ex_iff split: if_splits)

lemma validate_loop_count:
  assumes "validate_loop db cuts date dow ls (rep, n) = (rep', n')"
  shows "n' = n + int (length (filter (\<lambda>l. \<not> line_ok db cuts date dow l) ls))
    \<and> n' - n = int (length rep') - int (length rep)"
  using assms
proof (induction ls arbitrary: rep n)
  case (Cons l ls)
  obtain rep1 n1 where step: "validate_line db cuts date dow l (rep, n) = (rep1, n1)" by fastforce
  then have "validate_loop db cuts date dow ls (rep1, n1) = (rep', n')"
    using Cons.prems by (simp add: validate_loop_def)
  from Cons.IH [OF this] validate_line_count [OF step] show ?case by auto
qed (simp add: validate_loop_def)

text \<open>\<open>validate()\<close> reports exactly the lines at fault: its count is the length of its
  report, one entry per line whose cart is missing or, for an audio cart, has no cut that may
  play at the line's time; it is zero iff every line with a cart is playable.\<close>

theorem validate_counts_bad_lines:
  "case RDLogEvent_validate db cuts date dow e of (report, errs) \<Rightarrow>
     errs = int (length report)
     \<and> errs = int (length (filter (\<lambda>l. \<not> line_ok db cuts date dow l) (log_lines e)))
     \<and> (errs = 0 \<longleftrightarrow> list_all (line_ok db cuts date dow) (log_lines e))"
proof (cases "RDLogEvent_validate db cuts date dow e")
  case (Pair report errs)
  with validate_loop_count [of db cuts date dow "log_lines e" "[]" 0 report errs]
  show ?thesis by (auto simp: RDLogEvent_validate_def filter_empty_conv list_all_iff)
qed

end
