(* ===== verification/Sched_List.thy ===== *)
theory Sched_List
  imports Qt_String
begin

text \<open>
  The candidate list of the music scheduler, \<open>SchedCartList\<close> of \<open>lib/schedcartlist.h\<close> and
  \<open>lib/schedcartlist.cpp\<close>: five parallel arrays allocated once, of which the first
  \<open>itemcounter\<close> entries are the candidates. The arrays are one list of items here; the entries
  behind the counter are kept, as the code keeps them. \<open>save()\<close> copies the candidates and
  \<open>restore()\<close> puts them back when a scheduling rule has removed all of them.

  The locale \<open>candidate_pool\<close> is what the scheduler relies on.
\<close>

section \<open>State and operations\<close>

record sched_item =
  si_cartnum :: nat
  si_cartlen :: int
  si_stackid :: int
  si_artist :: string
  si_sched_codes :: string

record sched_list =
  sl_items :: "sched_item list"
  sl_itemcounter :: int
  sl_saved :: "sched_item list option"

definition blank_item :: sched_item where
  "blank_item = \<lparr>si_cartnum = 0, si_cartlen = 0, si_stackid = 0, si_artist = '''',
     si_sched_codes = ''''\<rparr>"

definition SchedCartList_new :: "nat \<Rightarrow> sched_list" where
  "SchedCartList_new listsize =
     \<lparr>sl_items = replicate listsize blank_item, sl_itemcounter = 0, sl_saved = None\<rparr>"

definition lower_char :: "char \<Rightarrow> char" where
  "lower_char c = (case map_of (zip ''ABCDEFGHIJKLMNOPQRSTUVWXYZ'' ''abcdefghijklmnopqrstuvwxyz'') c of
     None \<Rightarrow> c | Some d \<Rightarrow> d)"

definition artist_key :: "string \<Rightarrow> string" where
  "artist_key s = filter (\<lambda>c. c \<noteq> CHR '' '') (map lower_char s)"

definition SchedCartList_insertItem ::
  "nat \<Rightarrow> int \<Rightarrow> int \<Rightarrow> string \<Rightarrow> string \<Rightarrow> sched_list \<Rightarrow> sched_list res" where
  "SchedCartList_insertItem cartnumber cartlength stack_id stack_artist stack_schedcodes s =
     res_bind (vec_mod (\<lambda>_. \<lparr>si_cartnum = cartnumber, si_cartlen = cartlength,
          si_stackid = stack_id, si_artist = artist_key stack_artist,
          si_sched_codes = stack_schedcodes\<rparr>) (sl_itemcounter s) (sl_items s))
       (\<lambda>xs. Inr (s\<lparr>sl_items := xs, sl_itemcounter := sl_itemcounter s + 1\<rparr>))"

text \<open>The shift loop: \<open>a[i]=a[i+1]\<close> for \<open>i\<close> from \<open>itemnumber\<close> to \<open>itemcounter-2\<close>.\<close>

fun shift_loop :: "int list \<Rightarrow> 'a list \<Rightarrow> 'a list res" where
  "shift_loop [] xs = Inr xs"
| "shift_loop (i # is) xs = res_bind (vec_get xs (i + 1))
     (\<lambda>x. res_bind (vec_mod (\<lambda>_. x) i xs) (shift_loop is))"

definition SchedCartList_removeItem :: "int \<Rightarrow> sched_list \<Rightarrow> sched_list res" where
  "SchedCartList_removeItem itemnumber s =
     res_bind (shift_loop [itemnumber..sl_itemcounter s - 2] (sl_items s))
       (\<lambda>xs. Inr (s\<lparr>sl_items := xs, sl_itemcounter := sl_itemcounter s - 1\<rparr>))"

text \<open>A code is looked for padded with blanks to eleven characters.\<close>

definition pad_code :: "string \<Rightarrow> string" where
  "pad_code c = qs_left 11 (c @ ''          '')"

fun qs_contains :: "string \<Rightarrow> string \<Rightarrow> bool" where
  "qs_contains sub [] \<longleftrightarrow> sub = []"
| "qs_contains sub (c # cs) \<longleftrightarrow> take (length sub) (c # cs) = sub \<or> qs_contains sub cs"

definition item_has_code :: "string \<Rightarrow> sched_item \<Rightarrow> bool" where
  "item_has_code test_code x \<longleftrightarrow> qs_contains (pad_code test_code) (si_sched_codes x)"

definition SchedCartList_itemHasCode :: "int \<Rightarrow> string \<Rightarrow> sched_list \<Rightarrow> bool res" where
  "SchedCartList_itemHasCode itemnumber test_code s =
     res_bind (vec_get (sl_items s) itemnumber) (\<lambda>x. Inr (item_has_code test_code x))"

definition SchedCartList_removeIfCode :: "int \<Rightarrow> string \<Rightarrow> sched_list \<Rightarrow> (bool \<times> sched_list) res" where
  "SchedCartList_removeIfCode itemnumber test_code s =
     res_bind (vec_get (sl_items s) itemnumber)
       (\<lambda>x. if item_has_code test_code x
            then res_bind (shift_loop [itemnumber..sl_itemcounter s - 2] (sl_items s))
                   (\<lambda>xs. Inr (True, s\<lparr>sl_items := xs, sl_itemcounter := sl_itemcounter s - 1\<rparr>))
            else Inr (False, s))"

text \<open>\<open>save()\<close> copies the candidates; \<open>restore()\<close> copies them back only when none is left,
  then frees the copy.\<close>

definition SchedCartList_save :: "sched_list \<Rightarrow> sched_list res" where
  "SchedCartList_save s =
     (if 0 \<le> sl_itemcounter s \<and> sl_itemcounter s \<le> int (length (sl_items s))
      then Inr (s\<lparr>sl_saved := Some (take (nat (sl_itemcounter s)) (sl_items s))\<rparr>)
      else Inl OutOfRange)"

definition SchedCartList_restore :: "sched_list \<Rightarrow> sched_list res" where
  "SchedCartList_restore s =
     res_bind (of_ptr (sl_saved s))
       (\<lambda>saved. if sl_itemcounter s = 0 then
                  (if length saved \<le> length (sl_items s)
                   then Inr (s\<lparr>sl_items := saved @ drop (length saved) (sl_items s),
                               sl_itemcounter := int (length saved), sl_saved := None\<rparr>)
                   else Inl OutOfRange)
                else Inr (s\<lparr>sl_saved := None\<rparr>))"

definition SchedCartList_getItemCartnumber :: "int \<Rightarrow> sched_list \<Rightarrow> nat res" where
  "SchedCartList_getItemCartnumber itemnumber s =
     res_bind (vec_get (sl_items s) itemnumber) (\<lambda>x. Inr (si_cartnum x))"

definition SchedCartList_getItemArtist :: "int \<Rightarrow> sched_list \<Rightarrow> string res" where
  "SchedCartList_getItemArtist itemnumber s =
     res_bind (vec_get (sl_items s) itemnumber) (\<lambda>x. Inr (si_artist x))"

definition SchedCartList_getItemSchedCodes :: "int \<Rightarrow> sched_list \<Rightarrow> string res" where
  "SchedCartList_getItemSchedCodes itemnumber s =
     res_bind (vec_get (sl_items s) itemnumber) (\<lambda>x. Inr (si_sched_codes x))"

definition SchedCartList_getNumberOfItems :: "sched_list \<Rightarrow> int" where
  "SchedCartList_getNumberOfItems s = sl_itemcounter s"

section \<open>The abstract list\<close>

definition pool_ok :: "sched_list \<Rightarrow> bool" where
  "pool_ok s \<longleftrightarrow> 0 \<le> sl_itemcounter s \<and> sl_itemcounter s \<le> int (length (sl_items s))"

definition pool :: "sched_list \<Rightarrow> sched_item list" where
  "pool s = take (nat (sl_itemcounter s)) (sl_items s)"

lemma length_pool: "pool_ok s \<Longrightarrow> int (length (pool s)) = sl_itemcounter s"
  by (auto simp: pool_ok_def pool_def)

lemma pool_get: "pool_ok s \<Longrightarrow> k < length (pool s) \<Longrightarrow> vec_get (sl_items s) (int k) = Inr (pool s ! k)"
  by (simp add: pool_ok_def pool_def vec_get_def)

lemma shift_loop_eq:
  assumes "k \<le> n" "n < length xs"
  shows "shift_loop [int k..int n - 1] xs
         = Inr (take k xs @ take (n - k) (drop (Suc k) xs) @ drop n xs)"
  using assms
proof (induction "n - k" arbitrary: k xs)
  case 0
  then show ?case by simp
next
  case (Suc d)
  let ?ys = "xs[k := xs ! Suc k]"
  have k: "k < n" "Suc k < length xs" using Suc by auto
  have step: "[int k..int n - 1] = int k # [int (Suc k)..int n - 1]"
    using k by (simp add: upto_rec1 add.commute)
  have get: "vec_get xs (int k + 1) = Inr (xs ! Suc k)"
    using k by (simp add: vec_get_def vec_in_def nat_add_distrib)
  have IH: "shift_loop [int (Suc k)..int n - 1] ?ys
      = Inr (take (Suc k) ?ys @ take (n - Suc k) (drop (Suc (Suc k)) ?ys) @ drop n ?ys)"
    using Suc.hyps(2) Suc.prems k by (intro Suc.hyps(1)) auto
  have "take (Suc k) ?ys = take k xs @ [xs ! Suc k]"
    using k by (simp add: take_Suc_conv_app_nth)
  moreover have "take (n - k) (drop (Suc k) xs)
      = xs ! Suc k # take (n - Suc k) (drop (Suc (Suc k)) xs)"
    using k by (simp add: Cons_nth_drop_Suc [symmetric] Suc_diff_Suc take_Suc_Cons flip: Suc_diff_Suc)
  ultimately show ?case
    using IH k by (simp only: step shift_loop.simps get res_bind_simps vec_mod_nat)
      (simp add: get)
qed

lemma removeItem_ok:
  assumes "pool_ok s" "k < length (pool s)"
  shows "\<exists>s'. SchedCartList_removeItem (int k) s = Inr s' \<and> pool_ok s'
    \<and> pool s' = list_del k 1 (pool s) \<and> sl_saved s' = sl_saved s
    \<and> length (sl_items s') = length (sl_items s)"
proof -
  obtain m where m: "sl_itemcounter s = int (Suc m)" "k \<le> m" "m < length (sl_items s)"
  proof (rule that [of "nat (sl_itemcounter s) - 1"])
    show "sl_itemcounter s = int (Suc (nat (sl_itemcounter s) - 1))"
      using assms length_pool [of s] by simp
    show "k \<le> nat (sl_itemcounter s) - 1" "nat (sl_itemcounter s) - 1 < length (sl_items s)"
      using assms length_pool [of s] by (auto simp: pool_ok_def)
  qed
  have "shift_loop [int k..sl_itemcounter s - 2] (sl_items s)
      = Inr (take k (sl_items s) @ take (m - k) (drop (Suc k) (sl_items s)) @ drop m (sl_items s))"
    using shift_loop_eq [of k m "sl_items s"] m by simp
  then have run: "SchedCartList_removeItem (int k) s = Inr (s\<lparr>sl_items :=
      take k (sl_items s) @ take (m - k) (drop (Suc k) (sl_items s)) @ drop m (sl_items s),
      sl_itemcounter := int m\<rparr>)" (is "_ = Inr ?s'")
    using m by (simp add: SchedCartList_removeItem_def)
  have len: "length (take k (sl_items s) @ take (m - k) (drop (Suc k) (sl_items s))) = m"
    using m by simp
  have take_app: "take m (A @ B) = A" if "length A = m" for A B :: "sched_item list"
    using that by simp
  have pool_upd: "pool (s\<lparr>sl_items := xs, sl_itemcounter := int j\<rparr>) = take j xs" for xs j
    by (simp add: pool_def)
  have nat: "nat (sl_itemcounter s) = Suc m" using m(1) by simp
  have "pool ?s' = take k (sl_items s) @ take (m - k) (drop (Suc k) (sl_items s))"
    using take_app [OF len, of "drop m (sl_items s)"] by (simp only: pool_upd append_assoc)
  also have "\<dots> = list_del k 1 (pool s)"
    using m(2) by (simp add: pool_def list_del_def nat drop_take min_def)
  finally have "pool ?s' = list_del k 1 (pool s)" .
  moreover have "length (sl_items ?s') = length (sl_items s)" using len m(3) by simp
  moreover have "pool_ok ?s'" using m by (simp add: pool_ok_def)
  ultimately show ?thesis using run by auto
qed

section \<open>Sweeps\<close>

text \<open>
  The scheduler's removal loops:
  \<open>for(counter=0;counter<getNumberOfItems();counter++) if(test) { removeItem(counter); counter--; }\<close>.
\<close>

lemma removeItem_counter:
  "SchedCartList_removeItem k s = Inr s' \<Longrightarrow> sl_itemcounter s' = sl_itemcounter s - 1"
  by (auto simp: SchedCartList_removeItem_def)

function sweep :: "(sched_item \<Rightarrow> bool) \<Rightarrow> int \<Rightarrow> sched_list \<Rightarrow> sched_list res" where
  "sweep test counter s =
     (if counter < SchedCartList_getNumberOfItems s then
        (case vec_get (sl_items s) counter of
           Inl f \<Rightarrow> Inl f
         | Inr x \<Rightarrow>
             if test x then
               (case SchedCartList_removeItem counter s of
                  Inl f \<Rightarrow> Inl f
                | Inr s' \<Rightarrow> sweep test counter s')
             else sweep test (counter + 1) s)
      else Inr s)"
  by pat_completeness auto
termination
  by (relation "measure (\<lambda>(test, counter, s). nat (sl_itemcounter s - counter))")
    (auto simp: SchedCartList_getNumberOfItems_def dest: removeItem_counter)

declare sweep.simps [simp del]

lemma sweep_filter:
  assumes "pool_ok s" "k \<le> length (pool s)"
  shows "\<exists>s'. sweep test (int k) s = Inr s' \<and> pool_ok s' \<and> sl_saved s' = sl_saved s
    \<and> length (sl_items s') = length (sl_items s)
    \<and> pool s' = take k (pool s) @ filter (\<lambda>x. \<not> test x) (drop k (pool s))"
  using assms
proof (induction "length (pool s) - k" arbitrary: k s)
  case 0
  then have "sl_itemcounter s \<le> int k" using length_pool [of s] by simp
  then show ?case
    using 0 by (intro exI [of _ s]) (simp add: sweep.simps [of test "int k" s]
        SchedCartList_getNumberOfItems_def)
next
  case (Suc d)
  then have k: "k < length (pool s)" by simp
  have lt: "int k < SchedCartList_getNumberOfItems s"
    using k length_pool [OF Suc.prems(1)] by (simp add: SchedCartList_getNumberOfItems_def)
  have drop: "drop k (pool s) = pool s ! k # drop (Suc k) (pool s)"
    using k by (simp add: Cons_nth_drop_Suc)
  note get = pool_get [OF Suc.prems(1) k]
  show ?case
  proof (cases "test (pool s ! k)")
    case True
    obtain s1 where s1: "SchedCartList_removeItem (int k) s = Inr s1" "pool_ok s1"
        "pool s1 = list_del k 1 (pool s)" "sl_saved s1 = sl_saved s"
        "length (sl_items s1) = length (sl_items s)"
      using removeItem_ok [OF Suc.prems(1) k] by blast
    have "length (pool s1) - k = d" "k \<le> length (pool s1)"
      using Suc.hyps(2) k s1(3) by (simp_all add: length_list_del)
    then obtain s' where "sweep test (int k) s1 = Inr s'" "pool_ok s'" "sl_saved s' = sl_saved s1"
        "length (sl_items s') = length (sl_items s1)"
        "pool s' = take k (pool s1) @ filter (\<lambda>x. \<not> test x) (drop k (pool s1))"
      using Suc.hyps(1) [of s1 k] s1(2) by auto
    moreover have "take k (pool s1) = take k (pool s)" "drop k (pool s1) = drop (Suc k) (pool s)"
      using k s1(3) by (simp_all add: list_del_def)
    ultimately show ?thesis
      using True lt get s1 drop by (simp add: sweep.simps [of test "int k" s])
  next
    case False
    obtain s' where "sweep test (int (Suc k)) s = Inr s'" "pool_ok s'" "sl_saved s' = sl_saved s"
        "length (sl_items s') = length (sl_items s)"
        "pool s' = take (Suc k) (pool s) @ filter (\<lambda>x. \<not> test x) (drop (Suc k) (pool s))"
      using Suc.hyps Suc.prems k by (metis Suc_leI Suc_diff_Suc diff_Suc_Suc diff_Suc_1)
    then show ?thesis
      using False lt get drop k
      by (simp add: sweep.simps [of test "int k" s] take_Suc_conv_app_nth add.commute)
  qed
qed

section \<open>The interface the scheduler uses\<close>

text \<open>A pool of candidates with a filtering sweep, a save and a restore that undoes the
  sweeps since the save when they have emptied the pool.\<close>

locale candidate_pool =
  fixes ok :: "'s \<Rightarrow> bool"
    and items :: "'s \<Rightarrow> 'a list"
    and saved :: "'s \<Rightarrow> 'a list option"
    and clean :: "('a \<Rightarrow> bool) \<Rightarrow> 's \<Rightarrow> 's res"
    and save :: "'s \<Rightarrow> 's res"
    and restore :: "'s \<Rightarrow> 's res"
  assumes clean_law: "ok s \<Longrightarrow> \<exists>s'. clean t s = Inr s' \<and> ok s' \<and> saved s' = saved s
      \<and> items s' = filter (\<lambda>x. \<not> t x) (items s)"
    and save_law: "ok s \<Longrightarrow> \<exists>s'. save s = Inr s' \<and> ok s' \<and> items s' = items s
      \<and> saved s' = Some (items s)"
    and restore_law: "ok s \<Longrightarrow> saved s = Some xs \<Longrightarrow> \<exists>s'. restore s = Inr s' \<and> ok s'
      \<and> items s' = (if items s = [] then xs else items s)"
begin

fun cleans :: "('a \<Rightarrow> bool) list \<Rightarrow> 's \<Rightarrow> 's res" where
  "cleans [] s = Inr s"
| "cleans (t # ts) s = res_bind (clean t s) (cleans ts)"

lemma cleans_law:
  "ok s \<Longrightarrow> \<exists>s'. cleans ts s = Inr s' \<and> ok s' \<and> saved s' = saved s
     \<and> items s' = filter (\<lambda>x. \<forall>t \<in> set ts. \<not> t x) (items s)"
proof (induction ts arbitrary: s)
  case (Cons t ts)
  obtain s1 where s1: "clean t s = Inr s1" "ok s1" "saved s1 = saved s"
      "items s1 = filter (\<lambda>x. \<not> t x) (items s)"
    using clean_law [OF Cons.prems] by blast
  from Cons.IH [OF s1(2)] s1 show ?case by (auto simp: conj_commute)
qed simp

text \<open>One rule: save, sweep, report an empty pool, restore. The pool is filtered, unless no
  candidate survives: then it is unchanged and the rule is reported broken.\<close>

lemma rule_law:
  assumes "ok s"
  shows "\<exists>s1 s2 s3. save s = Inr s1 \<and> cleans ts s1 = Inr s2 \<and> restore s2 = Inr s3 \<and> ok s3
    \<and> (items s2 = [] \<longleftrightarrow> filter (\<lambda>x. \<forall>t \<in> set ts. \<not> t x) (items s) = [])
    \<and> items s3 = (if filter (\<lambda>x. \<forall>t \<in> set ts. \<not> t x) (items s) = [] then items s
                  else filter (\<lambda>x. \<forall>t \<in> set ts. \<not> t x) (items s))"
proof -
  obtain s1 where s1: "save s = Inr s1" "ok s1" "items s1 = items s" "saved s1 = Some (items s)"
    using save_law [OF assms] by blast
  obtain s2 where s2: "cleans ts s1 = Inr s2" "ok s2" "saved s2 = Some (items s)"
      "items s2 = filter (\<lambda>x. \<forall>t \<in> set ts. \<not> t x) (items s)"
    using cleans_law [OF s1(2), of ts] s1 by auto
  obtain s3 where "restore s2 = Inr s3" "ok s3"
      "items s3 = (if items s2 = [] then items s else items s2)"
    using restore_law [OF s2(2,3)] by blast
  with s1 s2 show ?thesis by auto
qed

end

definition pool_saved_ok :: "sched_list \<Rightarrow> bool" where
  "pool_saved_ok s \<longleftrightarrow> pool_ok s \<and> (case sl_saved s of None \<Rightarrow> True
     | Some xs \<Rightarrow> length xs \<le> length (sl_items s))"

interpretation sched_pool: candidate_pool pool_saved_ok pool sl_saved "\<lambda>t. sweep t 0"
  SchedCartList_save SchedCartList_restore
proof (unfold_locales, goal_cases)
  case (1 s t)
  then show ?case
    using sweep_filter [of s 0 t] by (auto simp: pool_saved_ok_def split: option.splits)
next
  case (2 s)
  then show ?case
    by (auto simp: pool_saved_ok_def SchedCartList_save_def pool_ok_def pool_def)
next
  case (3 s xs)
  then show ?case
    using length_pool [of s]
    by (auto simp: pool_saved_ok_def SchedCartList_restore_def pool_ok_def pool_def split: if_splits)
qed

end
