(* ===== verification/Sched_Event.thy ===== *)
theory Sched_Event
  imports Log_Store Sched_List
begin

text \<open>
  Log generation for one event of a clock, \<open>RDEventLine\<close> of \<open>lib/rdevent_line.h\<close> and
  \<open>lib/rdevent_line.cpp\<close>: \<open>generateLog()\<close> writes the event's pre-import carts, its import link
  or its scheduled cart, and its post-import carts to the log table; \<open>linkLog()\<close> replaces a link
  by the imported traffic or music lines and fills the remaining time. A row of the log table
  is a \<open>log_row\<close>; error messages are the constructors of \<open>sched_error\<close>. The database and the
  random number are parameters, the record \<open>sched_env\<close>.
\<close>

section \<open>State\<close>

datatype import_source = ImportNone | ImportTraffic | ImportMusic | ImportScheduler
datatype insert_first = InsertNone | InsertBreak | InsertTrack

record event_line =
  event_name :: string
  event_properties :: string
  event_preposition :: int
  event_time_type :: time_type
  event_grace_time :: int
  event_post_point :: bool
  event_use_autofill :: bool
  event_use_timescale :: bool
  event_import_source :: import_source
  event_start_slop :: int
  event_end_slop :: int
  event_first_transtype :: trans_type
  event_default_transtype :: trans_type
  event_color :: string
  event_preimport_log :: log_event
  event_postimport_log :: log_event
  event_start_time :: qtime
  event_length :: int
  event_autofill_slop :: int
  event_nested_event :: string
  event_sched_group :: string
  event_have_code :: string
  event_title_sep :: nat

definition RDEventLine_clear :: "event_line \<Rightarrow> event_line" where
  "RDEventLine_clear v = \<lparr>event_name = '''', event_properties = '''', event_preposition = 0,
     event_time_type = Relative, event_grace_time = 0, event_post_point = False,
     event_use_autofill = False, event_use_timescale = False, event_import_source = ImportNone,
     event_start_slop = 0, event_end_slop = 0, event_first_transtype = Segue,
     event_default_transtype = Segue, event_color = '''',
     event_preimport_log = RDLogEvent_clear (event_preimport_log v),
     event_postimport_log = RDLogEvent_clear (event_postimport_log v),
     event_start_time = 0, event_length = 0, event_autofill_slop = -1,
     event_nested_event = '''', event_sched_group = '''', event_have_code = '''',
     event_title_sep = 100\<rparr>"

definition new_log :: log_event where
  "new_log = \<lparr>log_name = '''', log_service_name = '''', log_max_id = 0, log_lines = []\<rparr>"

definition new_event_line :: event_line where
  "new_event_line = \<lparr>event_name = '''', event_properties = '''', event_preposition = 0,
     event_time_type = Relative, event_grace_time = 0, event_post_point = False,
     event_use_autofill = False, event_use_timescale = False, event_import_source = ImportNone,
     event_start_slop = 0, event_end_slop = 0, event_first_transtype = Segue,
     event_default_transtype = Segue, event_color = '''', event_preimport_log = new_log,
     event_postimport_log = new_log, event_start_time = 0, event_length = 0,
     event_autofill_slop = -1, event_nested_event = '''', event_sched_group = '''',
     event_have_code = '''', event_title_sep = 100\<rparr>"

definition table_base :: "string \<Rightarrow> string" where
  "table_base s = map (\<lambda>c. if c = CHR '' '' then CHR ''_'' else c) s"

definition RDEventLine_setName :: "string \<Rightarrow> event_line \<Rightarrow> event_line" where
  "RDEventLine_setName name v = v\<lparr>event_name := name,
     event_preimport_log := (event_preimport_log v)\<lparr>log_name := table_base name @ ''_PRE''\<rparr>,
     event_postimport_log := (event_postimport_log v)\<lparr>log_name := table_base name @ ''_POST''\<rparr>\<rparr>"

text \<open>\<open>load()\<close>: the columns of table \<open>EVENTS\<close> in the order of the query.\<close>

record event_row =
  E_PROPERTIES :: string
  E_PREPOSITION :: int
  E_TIME_TYPE :: time_type
  E_GRACE_TIME :: int
  E_POST_POINT :: string
  E_USE_AUTOFILL :: string
  E_USE_TIMESCALE :: string
  E_IMPORT_SOURCE :: import_source
  E_START_SLOP :: int
  E_END_SLOP :: int
  E_FIRST_TRANS_TYPE :: trans_type
  E_DEFAULT_TRANS_TYPE :: trans_type
  E_COLOR :: "string option"
  E_AUTOFILL_SLOP :: int
  E_NESTED_EVENT :: string
  E_SCHED_GROUP :: string
  E_TITLE_SEP :: nat
  E_HAVE_CODE :: string

definition RDEventLine_load ::
  "database \<Rightarrow> (string \<Rightarrow> event_row option) \<Rightarrow> event_line \<Rightarrow> event_line \<times> bool" where
  "RDEventLine_load db events v =
     (case events (event_name v) of
        None \<Rightarrow> (v, False)
      | Some q \<Rightarrow>
          (v\<lparr>event_properties := E_PROPERTIES q, event_preposition := E_PREPOSITION q,
             event_time_type := E_TIME_TYPE q, event_grace_time := E_GRACE_TIME q,
             event_post_point := RDBool (E_POST_POINT q),
             event_use_autofill := RDBool (E_USE_AUTOFILL q),
             event_use_timescale := RDBool (E_USE_TIMESCALE q),
             event_import_source := E_IMPORT_SOURCE q, event_start_slop := E_START_SLOP q,
             event_end_slop := E_END_SLOP q, event_first_transtype := E_FIRST_TRANS_TYPE q,
             event_default_transtype := E_DEFAULT_TRANS_TYPE q,
             event_color := opt_or '''' (E_COLOR q), event_autofill_slop := E_AUTOFILL_SLOP q,
             event_nested_event := E_NESTED_EVENT q, event_sched_group := E_SCHED_GROUP q,
             event_title_sep := E_TITLE_SEP q, event_have_code := E_HAVE_CODE q,
             event_preimport_log := fst (RDLogEvent_load db False (event_preimport_log v)),
             event_postimport_log := fst (RDLogEvent_load db False (event_postimport_log v))\<rparr>, True))"

section \<open>Environment of the generator\<close>

record stack_row =
  st_id :: int
  st_cart :: nat
  st_artist :: string
  st_codes :: string

record rule_row =
  R_CODE :: string
  R_MAX_ROW :: int
  R_MIN_WAIT :: int
  R_NOT_AFTER :: string
  R_OR_AFTER :: string
  R_OR_AFTER_II :: string

datatype sched_error =
    TitleSeparation qtime
  | ArtistSeparation qtime
  | MustHaveCode qtime string
  | MaxInRow qtime string
  | NotAfter qtime string string
  | Underscheduled qtime string qtime
  | Overscheduled qtime string qtime

text \<open>
  \<open>env_cart_lengths\<close>: the forced length of a cart, if it exists. \<open>env_group_carts\<close>: number,
  artist and scheduler codes of the carts of a group. \<open>env_rules\<close>: the rules of a clock.
  \<open>env_like pat s\<close>: the database's \<open>s like "%pat%"\<close>. \<open>env_autofills\<close>: cart and forced length of
  the autofill carts of a service, longest first. \<open>env_rand\<close>: the value of \<open>rand()\<close>.
\<close>

record sched_env =
  env_cart_lengths :: "nat \<Rightarrow> int option"
  env_group_carts :: "string \<Rightarrow> (nat \<times> string \<times> string) list"
  env_rules :: "string \<Rightarrow> rule_row list"
  env_like :: "string \<Rightarrow> string \<Rightarrow> bool"
  env_autofills :: "string \<Rightarrow> (nat \<times> int) list"
  env_rand :: nat

definition RDEventLine_GetLength :: "sched_env \<Rightarrow> nat \<Rightarrow> int \<Rightarrow> int" where
  "RDEventLine_GetLength env cartnum def_length = opt_or def_length (env_cart_lengths env cartnum)"

section \<open>The music scheduler\<close>

definition last_stack_id :: "stack_row list \<Rightarrow> int" where
  "last_stack_id stack = foldl (\<lambda>m r. max m (st_id r)) 0 stack"

definition title_sep :: "event_line \<Rightarrow> int" where
  "title_sep v = (if event_title_sep v \<le> 50000 then int (event_title_sep v) else 100)"

text \<open>
  The deconflicting rules in the order of the code: for each the tests whose sweeps remove
  candidates, and the error it reports. \<open>stackid\<close> is the position of the cart to schedule.
\<close>

definition title_rule :: "event_line \<Rightarrow> qtime \<Rightarrow> int \<Rightarrow> stack_row list
    \<Rightarrow> (sched_item \<Rightarrow> bool) list \<times> sched_error" where
  "title_rule v time stackid stack =
     (map (\<lambda>r x. st_cart r = si_cartnum x)
        (filter (\<lambda>r. st_id r \<ge> stackid - title_sep v) stack), TitleSeparation time)"

definition artist_rule :: "nat \<Rightarrow> qtime \<Rightarrow> int \<Rightarrow> stack_row list
    \<Rightarrow> (sched_item \<Rightarrow> bool) list \<times> sched_error" where
  "artist_rule artistsep time stackid stack =
     (map (\<lambda>r x. st_artist r = si_artist x)
        (filter (\<lambda>r. st_id r \<ge> stackid - int artistsep) stack), ArtistSeparation time)"

definition have_code_rules :: "event_line \<Rightarrow> qtime \<Rightarrow> ((sched_item \<Rightarrow> bool) list \<times> sched_error) list" where
  "have_code_rules v time =
     (if event_have_code v = '''' then []
      else [([\<lambda>x. \<not> item_has_code (event_have_code v) x], MustHaveCode time (event_have_code v))])"

definition max_row_rule :: "sched_env \<Rightarrow> qtime \<Rightarrow> int \<Rightarrow> stack_row list \<Rightarrow> rule_row
    \<Rightarrow> (sched_item \<Rightarrow> bool) list \<times> sched_error" where
  "max_row_rule env time stackid stack q =
     (let range = R_MAX_ROW q + R_MIN_WAIT q; allowed = R_MAX_ROW q;
          hits = filter (\<lambda>r. st_id r > stackid - range
                           \<and> env_like env (pad_code (R_CODE q)) (st_codes r)) stack
      in (if int (length hits) \<ge> allowed \<or> allowed = 0 then [item_has_code (R_CODE q)] else [],
          MaxInRow time (R_CODE q)))"

definition after_rules :: "sched_env \<Rightarrow> qtime \<Rightarrow> int \<Rightarrow> stack_row list \<Rightarrow> string \<Rightarrow> string
    \<Rightarrow> ((sched_item \<Rightarrow> bool) list \<times> sched_error) list" where
  "after_rules env time stackid stack code after =
     (if after = '''' then []
      else [(if list_ex (\<lambda>r. st_id r = stackid - 1
                            \<and> env_like env (pad_code after) (st_codes r)) stack
             then [item_has_code code] else [], NotAfter time code after)])"

definition code_rules :: "sched_env \<Rightarrow> qtime \<Rightarrow> int \<Rightarrow> stack_row list \<Rightarrow> rule_row
    \<Rightarrow> ((sched_item \<Rightarrow> bool) list \<times> sched_error) list" where
  "code_rules env time stackid stack q =
     max_row_rule env time stackid stack q
     # after_rules env time stackid stack (R_CODE q) (R_NOT_AFTER q)
     @ after_rules env time stackid stack (R_CODE q) (R_OR_AFTER q)
     @ after_rules env time stackid stack (R_CODE q) (R_OR_AFTER_II q)"

definition sched_rules :: "sched_env \<Rightarrow> event_line \<Rightarrow> nat \<Rightarrow> string \<Rightarrow> qtime \<Rightarrow> int \<Rightarrow> stack_row list
    \<Rightarrow> ((sched_item \<Rightarrow> bool) list \<times> sched_error) list" where
  "sched_rules env v artistsep clockname time stackid stack =
     title_rule v time stackid stack # artist_rule artistsep time stackid stack
     # have_code_rules v time
     @ concat (map (code_rules env time stackid stack) (env_rules env clockname))"

fun sweeps :: "(sched_item \<Rightarrow> bool) list \<Rightarrow> sched_list \<Rightarrow> sched_list res" where
  "sweeps [] s = Inr s"
| "sweeps (t # ts) s = res_bind (sweep t 0 s) (sweeps ts)"

definition apply_rule :: "(sched_item \<Rightarrow> bool) list \<times> sched_error
    \<Rightarrow> sched_list \<times> sched_error list \<Rightarrow> (sched_list \<times> sched_error list) res" where
  "apply_rule rule st = (case rule of (tests, err) \<Rightarrow> case st of (s, errors) \<Rightarrow>
     res_bind (SchedCartList_save s)
       (\<lambda>s1. res_bind (sweeps tests s1)
         (\<lambda>s2. let errors' = (if SchedCartList_getNumberOfItems s2 = 0 then errors @ [err] else errors)
               in res_bind (SchedCartList_restore s2) (\<lambda>s3. Inr (s3, errors')))))"

fun apply_rules :: "((sched_item \<Rightarrow> bool) list \<times> sched_error) list
    \<Rightarrow> sched_list \<times> sched_error list \<Rightarrow> (sched_list \<times> sched_error list) res" where
  "apply_rules [] st = Inr st"
| "apply_rules (r # rs) st = res_bind (apply_rule r st) (apply_rules rs)"

fun insert_candidates :: "(nat \<times> string \<times> string) list \<Rightarrow> sched_list \<Rightarrow> sched_list res" where
  "insert_candidates [] s = Inr s"
| "insert_candidates ((number, artist, codes) # cs) s =
     res_bind (SchedCartList_insertItem number 0 0 artist codes s) (insert_candidates cs)"

text \<open>The scheduler up to the pick: the item chosen and the error report.\<close>

definition sched_pick :: "sched_env \<Rightarrow> event_line \<Rightarrow> nat \<Rightarrow> string \<Rightarrow> qtime \<Rightarrow> stack_row list
    \<Rightarrow> sched_error list \<Rightarrow> ((nat \<times> string \<times> string) \<times> sched_error list) res" where
  "sched_pick env v artistsep clockname time stack errors =
     (let carts = env_group_carts env (event_sched_group v);
          stackid = last_stack_id stack + 1
      in res_bind (insert_candidates carts (SchedCartList_new (length carts)))
        (\<lambda>s0. res_bind (apply_rules (sched_rules env v artistsep clockname time stackid stack)
                          (s0, errors))
          (\<lambda>(s, errors'). if SchedCartList_getNumberOfItems s = 0 then Inl DivByZero
             else let schedpos = int (env_rand env) mod SchedCartList_getNumberOfItems s
                  in res_bind (SchedCartList_getItemCartnumber schedpos s)
                    (\<lambda>cart. res_bind (SchedCartList_getItemArtist schedpos s)
                      (\<lambda>artist. res_bind (SchedCartList_getItemSchedCodes schedpos s)
                        (\<lambda>codes. Inr ((cart, artist, codes), errors')))))))"

section \<open>Generating the rows of an event\<close>

text \<open>The row an insert statement creates from the defaults of the table
  (\<open>RDCreateLogTableSql()\<close>).\<close>

definition default_row :: log_row where
  "default_row = \<lparr>L_ID = 0, L_COUNT = 0, L_CART_NUMBER = 0, L_START_TIME = 0,
     L_TIME_TYPE = Relative, L_TRANS_TYPE = Play, L_START_POINT = -1, L_END_POINT = -1,
     L_SEGUE_START_POINT = -1, L_SEGUE_END_POINT = -1, L_TYPE = Cart, L_COMMENT = '''',
     L_LABEL = '''', L_GRACE_TIME = 0, L_SOURCE = Manual, L_EXT_START_TIME = None,
     L_EXT_LENGTH = None, L_EXT_DATA = None, L_EXT_EVENT_ID = None, L_EXT_ANNC_TYPE = None,
     L_EXT_CART_NAME = None, L_FADEUP_POINT = Some (-1), L_FADEUP_GAIN = Some RD_FADE_DEPTH,
     L_FADEDOWN_POINT = Some (-1), L_FADEDOWN_GAIN = Some RD_FADE_DEPTH,
     L_SEGUE_GAIN = Some RD_FADE_DEPTH, L_LINK_EVENT_NAME = '''', L_LINK_START_TIME = 0,
     L_LINK_LENGTH = 0, L_LINK_ID = -1, L_LINK_EMBEDDED = ''N'', L_ORIGIN_USER = '''',
     L_ORIGIN_DATETIME = 0, L_LINK_START_SLOP = 0, L_LINK_END_SLOP = 0,
     L_DUCK_UP_GAIN = Some 0, L_DUCK_DOWN_GAIN = Some 0, L_EVENT_LENGTH = -1,
     L_POST_POINT = ''N''\<rparr>"

text \<open>The local variables of \<open>generateLog()\<close> that every inserted row advances.\<close>

record gen_cursor =
  cu_time :: qtime
  cu_time_type :: time_type
  cu_trans_type :: trans_type
  cu_post_point :: bool
  cu_grace_time :: int
  cu_count :: int

definition advance :: "event_line \<Rightarrow> int \<Rightarrow> gen_cursor \<Rightarrow> gen_cursor" where
  "advance v len c = \<lparr>cu_time = qtime_addMSecs (cu_time c) len, cu_time_type = Relative,
     cu_trans_type = event_default_transtype v, cu_post_point = False, cu_grace_time = -1,
     cu_count = cu_count c + 1\<rparr>"

definition base_row :: "event_line \<Rightarrow> gen_cursor \<Rightarrow> log_row" where
  "base_row v c = default_row\<lparr>L_ID := cu_count c, L_COUNT := cu_count c,
     L_START_TIME := qtime_msecsTo 0 (cu_time c), L_GRACE_TIME := cu_grace_time c,
     L_TIME_TYPE := cu_time_type c, L_POST_POINT := RDYesNo (cu_post_point c),
     L_EVENT_LENGTH := event_length v\<rparr>"

definition template_row :: "event_line \<Rightarrow> gen_cursor \<Rightarrow> log_line \<Rightarrow> log_row" where
  "template_row v c l = (base_row v c)\<lparr>L_TYPE := log_type l, L_SOURCE := Template,
     L_CART_NUMBER := log_cart_number l, L_TRANS_TYPE := log_trans_type l,
     L_COMMENT := char_col 255 (log_marker_comment l)\<rparr>"

text \<open>The loops over the pre-import and the post-import carts.\<close>

fun template_rows :: "sched_env \<Rightarrow> event_line \<Rightarrow> log_line list \<Rightarrow> gen_cursor \<times> log_row list
    \<Rightarrow> gen_cursor \<times> log_row list" where
  "template_rows env v [] (c, rows) = (c, rows)"
| "template_rows env v (l # ls) (c, rows) =
     template_rows env v ls
       (advance v (RDEventLine_GetLength env (log_cart_number l) 0) c, rows @ [template_row v c l])"

definition link_row :: "event_line \<Rightarrow> int \<Rightarrow> line_type \<Rightarrow> gen_cursor \<Rightarrow> log_row" where
  "link_row v link_id link_type c =
     (let end_start_time = qtime_addMSecs (event_start_time v) (event_length v)
      in (base_row v c)\<lparr>L_TYPE := link_type, L_SOURCE := Template,
           L_TRANS_TYPE := cu_trans_type c, L_LINK_EVENT_NAME := char_col 64 (event_name v),
           L_LINK_START_TIME := qtime_msecsTo 0 (event_start_time v),
           L_LINK_LENGTH := qtime_msecsTo (event_start_time v) end_start_time,
           L_LINK_ID := link_id, L_LINK_START_SLOP := event_start_slop v,
           L_LINK_END_SLOP := event_end_slop v\<rparr>)"

definition scheduled_row :: "event_line \<Rightarrow> nat \<Rightarrow> gen_cursor \<Rightarrow> log_row" where
  "scheduled_row v cart c = (base_row v c)\<lparr>L_TYPE := Cart, L_SOURCE := Music,
     L_CART_NUMBER := cart, L_TRANS_TYPE := cu_trans_type c,
     L_EXT_START_TIME := Some (whole_secs (cu_time c))\<rparr>"

text \<open>The tables the generator reads and writes: the rows of the log, the stack of the
  service, and the error report.\<close>

record gen_state =
  gs_rows :: "log_row list"
  gs_stack :: "stack_row list"
  gs_errors :: "sched_error list"

definition next_count :: "log_row list \<Rightarrow> int" where
  "next_count rows = (if rows = [] then 0 else foldl (\<lambda>m q. max m (L_COUNT q)) (L_COUNT (hd rows)) rows + 1)"

definition next_link_id :: "log_row list \<Rightarrow> int" where
  "next_link_id rows = foldl (\<lambda>m q. max m (L_LINK_ID q)) (-1) rows + 1"

definition start_cursor :: "event_line \<Rightarrow> log_row list \<Rightarrow> gen_cursor" where
  "start_cursor v rows =
     (let c = \<lparr>cu_time = event_start_time v, cu_time_type = event_time_type v,
               cu_trans_type = event_first_transtype v, cu_post_point = event_post_point v,
               cu_grace_time = event_grace_time v, cu_count = next_count rows\<rparr>
      in if event_preposition v \<ge> 0
         then c\<lparr>cu_time_type := Hard, cu_grace_time := -1,
                cu_time := (if qtime_msecsTo 0 (cu_time c) > event_preposition v
                            then qtime_addMSecs (cu_time c) (- event_preposition v) else 0)\<rparr>
         else c)"

definition import_rows :: "event_line \<Rightarrow> int \<Rightarrow> gen_cursor \<times> log_row list
    \<Rightarrow> gen_cursor \<times> log_row list" where
  "import_rows v link_id st = (case st of (c, rows) \<Rightarrow>
     (case event_import_source v of
        ImportTraffic \<Rightarrow> (advance v (event_length v) c, rows @ [link_row v link_id TrafficLink c])
      | ImportMusic \<Rightarrow> (advance v (event_length v) c, rows @ [link_row v link_id MusicLink c])
      | _ \<Rightarrow> (c, rows)))"

text \<open>The scheduled cart: only the count advances, not the time nor the leading values.\<close>

definition schedule_rows :: "sched_env \<Rightarrow> event_line \<Rightarrow> nat \<Rightarrow> string \<Rightarrow> stack_row list
    \<Rightarrow> sched_error list \<Rightarrow> gen_cursor \<times> log_row list
    \<Rightarrow> ((gen_cursor \<times> log_row list) \<times> stack_row list \<times> sched_error list) res" where
  "schedule_rows env v artistsep clockname stack errors st = (case st of (c, rows) \<Rightarrow>
     (if event_import_source v = ImportScheduler \<and> env_group_carts env (event_sched_group v) \<noteq> []
      then res_bind (sched_pick env v artistsep clockname (cu_time c) stack errors)
        (\<lambda>((cart, artist, codes), errors').
           Inr ((c\<lparr>cu_count := cu_count c + 1\<rparr>, rows @ [scheduled_row v cart c]),
                stack @ [\<lparr>st_id = last_stack_id stack + 1, st_cart = cart, st_artist = artist,
                          st_codes = codes\<rparr>], errors'))
      else Inr ((c, rows), stack, errors)))"

definition RDEventLine_generateLog ::
  "sched_env \<Rightarrow> nat \<Rightarrow> string \<Rightarrow> event_line \<Rightarrow> gen_state \<Rightarrow> gen_state res" where
  "RDEventLine_generateLog env artistsep clockname v g =
     (let st1 = template_rows env v (log_lines (event_preimport_log v))
                  (start_cursor v (gs_rows g), gs_rows g);
          st2 = import_rows v (next_link_id (gs_rows g)) st1
      in res_bind (schedule_rows env v artistsep clockname (gs_stack g) (gs_errors g) st2)
        (\<lambda>(st3, stack, errors).
           let (c, rows) = template_rows env v (log_lines (event_postimport_log v)) st3
           in Inr \<lparr>gs_rows = rows, gs_stack = stack, gs_errors = errors\<rparr>))"

section \<open>Lemmas on the rules\<close>

lemma sweeps_cleans: "sweeps ts = sched_pool.cleans ts"
  by (induction ts) (auto intro!: ext)

definition passes :: "(sched_item \<Rightarrow> bool) list \<Rightarrow> sched_item \<Rightarrow> bool" where
  "passes tests x \<longleftrightarrow> (\<forall>t \<in> set tests. \<not> t x)"

lemma apply_rule_ok:
  assumes "pool_saved_ok s" "pool s \<noteq> []"
  shows "\<exists>s'. apply_rule (tests, err) (s, errors)
      = Inr (s', if filter (passes tests) (pool s) = [] then errors @ [err] else errors)
    \<and> pool_saved_ok s'
    \<and> pool s' = (if filter (passes tests) (pool s) = [] then pool s
                 else filter (passes tests) (pool s))"
proof -
  have f: "filter (passes tests) xs = filter (\<lambda>x. \<forall>t \<in> set tests. \<not> t x) xs" for xs
    by (rule filter_cong) (simp_all add: passes_def)
  obtain s1 s2 s3 where *: "SchedCartList_save s = Inr s1" "sched_pool.cleans tests s1 = Inr s2"
      "SchedCartList_restore s2 = Inr s3" "pool_saved_ok s3"
      "pool s2 = [] \<longleftrightarrow> filter (passes tests) (pool s) = []"
      "pool s3 = (if filter (passes tests) (pool s) = [] then pool s
                  else filter (passes tests) (pool s))"
    using sched_pool.rule_law [OF assms(1), of tests] unfolding f [symmetric] by blast
  obtain t where "SchedCartList_save s = Inr t" "pool_saved_ok t"
    using sched_pool.save_law [OF assms(1)] by blast
  with *(1) have "pool_saved_ok s1" by simp
  with *(2) have "pool_saved_ok s2" using sched_pool.cleans_law [of s1 tests] by auto
  then have "sl_itemcounter s2 = 0 \<longleftrightarrow> pool s2 = []"
    using length_pool [of s2] by (auto simp: pool_saved_ok_def)
  with * show ?thesis
    by (auto simp: apply_rule_def sweeps_cleans SchedCartList_getNumberOfItems_def Let_def)
qed

lemma apply_rules_ok:
  assumes "pool_saved_ok s" "pool s \<noteq> []"
  shows "\<exists>s' es. apply_rules rules (s, errors) = Inr (s', errors @ es) \<and> pool_saved_ok s'
    \<and> pool s' \<noteq> [] \<and> set (pool s') \<subseteq> set (pool s) \<and> set es \<subseteq> snd ` set rules
    \<and> (\<forall>(tests, err) \<in> set rules. err \<in> set es \<or> (\<forall>x \<in> set (pool s'). passes tests x))"
  using assms
proof (induction rules arbitrary: s errors)
  case (Cons r rules)
  obtain tests err where r: "r = (tests, err)" by fastforce
  let ?kept = "filter (passes tests) (pool s)"
  let ?es = "if ?kept = [] then [err] else []"
  have es: "errors @ ?es = (if ?kept = [] then errors @ [err] else errors)" by simp
  obtain s1 where s1: "apply_rule r (s, errors) = Inr (s1, errors @ ?es)" "pool_saved_ok s1"
      "pool s1 = (if ?kept = [] then pool s else ?kept)"
    using apply_rule_ok [OF Cons.prems, of tests err errors] unfolding r es by blast
  have ne: "pool s1 \<noteq> []" using s1(3) Cons.prems(2) by simp
  obtain s' es where s': "apply_rules rules (s1, errors @ ?es) = Inr (s', (errors @ ?es) @ es)"
      "pool_saved_ok s'" "pool s' \<noteq> []" "set (pool s') \<subseteq> set (pool s1)" "set es \<subseteq> snd ` set rules"
      "\<forall>(tests, err) \<in> set rules. err \<in> set es \<or> (\<forall>x \<in> set (pool s'). passes tests x)"
    using Cons.IH [OF s1(2) ne, of "errors @ ?es"] by blast
  have "set (pool s') \<subseteq> set (pool s)" using s'(4) s1(3) by (auto split: if_splits)
  moreover have "err \<in> set (?es @ es) \<or> (\<forall>x \<in> set (pool s'). passes tests x)"
    using s'(4) s1(3) by (auto split: if_splits)
  moreover have "\<forall>(tests, err) \<in> set rules. err \<in> set (?es @ es) \<or> (\<forall>x \<in> set (pool s'). passes tests x)"
    using s'(6) by auto
  moreover have "set (?es @ es) \<subseteq> snd ` set (r # rules)"
    using s'(5) r by auto
  moreover have "apply_rules (r # rules) (s, errors) = Inr (s', errors @ (?es @ es))"
    using s1(1) s'(1) by simp
  ultimately show ?case
    using s'(2,3) r by (intro exI [of _ s'] exI [of _ "?es @ es"]) auto
qed auto

definition candidate :: "nat \<times> string \<times> string \<Rightarrow> sched_item" where
  "candidate c = (case c of (number, artist, codes) \<Rightarrow>
     \<lparr>si_cartnum = number, si_cartlen = 0, si_stackid = 0, si_artist = artist_key artist,
      si_sched_codes = codes\<rparr>)"

lemma insert_candidates_ok:
  assumes "pool_ok s" "sl_saved s = None" "length (pool s) + length cs = length (sl_items s)"
  shows "\<exists>s'. insert_candidates cs s = Inr s' \<and> pool_ok s' \<and> sl_saved s' = None
    \<and> pool s' = pool s @ map candidate cs"
  using assms
proof (induction cs arbitrary: s)
  case (Cons c cs)
  obtain number artist codes where c: "c = (number, artist, codes)" by (metis prod_cases3)
  obtain n where n: "sl_itemcounter s = int n" "n < length (sl_items s)"
    using Cons.prems length_pool [of s] by (intro that [of "length (pool s)"]) auto
  let ?s1 = "s\<lparr>sl_items := (sl_items s)[n := candidate c], sl_itemcounter := int n + 1\<rparr>"
  have run: "SchedCartList_insertItem number 0 0 artist codes s = Inr ?s1"
    using n by (simp add: SchedCartList_insertItem_def candidate_def c)
  have p1: "pool ?s1 = pool s @ [candidate c]"
    using n by (simp add: pool_def nat_add_distrib take_Suc_conv_app_nth)
  have "pool_ok ?s1" "length (pool ?s1) + length cs = length (sl_items ?s1)"
    using n p1 Cons.prems(3) by (simp_all add: pool_ok_def)
  from Cons.IH [OF this(1) _ this(2)] Cons.prems(2) p1 run c show ?case by auto
qed simp

lemma insert_candidates_new:
  "\<exists>s. insert_candidates cs (SchedCartList_new (length cs)) = Inr s \<and> pool_saved_ok s
     \<and> pool s = map candidate cs"
  using insert_candidates_ok [of "SchedCartList_new (length cs)" cs]
  by (auto simp: SchedCartList_new_def pool_ok_def pool_def pool_saved_ok_def)

section \<open>Properties of the scheduler\<close>

lemma sched_pick_rules:
  assumes "env_group_carts env (event_sched_group v) \<noteq> []"
  shows "\<exists>pick es. sched_pick env v artistsep clockname time stack errors = Inr (pick, errors @ es)
    \<and> (\<exists>c \<in> set (env_group_carts env (event_sched_group v)).
         pick = (fst c, artist_key (fst (snd c)), snd (snd c))
         \<and> (\<forall>(tests, err) \<in> set (sched_rules env v artistsep clockname time (last_stack_id stack + 1) stack).
              err \<in> set es \<or> passes tests (candidate c)))
    \<and> set es \<subseteq> snd ` set (sched_rules env v artistsep clockname time (last_stack_id stack + 1) stack)"
proof -
  let ?carts = "env_group_carts env (event_sched_group v)"
  let ?rules = "sched_rules env v artistsep clockname time (last_stack_id stack + 1) stack"
  obtain s0 where s0: "insert_candidates ?carts (SchedCartList_new (length ?carts)) = Inr s0"
      "pool_saved_ok s0" "pool s0 = map candidate ?carts"
    using insert_candidates_new by blast
  obtain s es where s: "apply_rules ?rules (s0, errors) = Inr (s, errors @ es)" "pool_saved_ok s"
      "pool s \<noteq> []" "set (pool s) \<subseteq> set (pool s0)" "set es \<subseteq> snd ` set ?rules"
      "\<forall>(tests, err) \<in> set ?rules. err \<in> set es \<or> (\<forall>x \<in> set (pool s). passes tests x)"
    using apply_rules_ok [OF s0(2), of ?rules errors] s0(3) assms by auto
  have ok: "pool_ok s" using s(2) by (simp add: pool_saved_ok_def)
  have n: "sl_itemcounter s = int (length (pool s))" using length_pool [OF ok] by simp
  have n0: "sl_itemcounter s \<noteq> 0" using n s(3) by simp
  define k where "k = env_rand env mod length (pool s)"
  have k: "k < length (pool s)" using s(3) by (simp add: k_def)
  have pos: "int (env_rand env) mod sl_itemcounter s = int k"
    by (simp add: n k_def zmod_int)
  have "pool s ! k \<in> set (map candidate ?carts)" using k s(4) s0(3) by auto
  then obtain c where c: "c \<in> set ?carts" "pool s ! k = candidate c" by auto
  have "sched_pick env v artistsep clockname time stack errors
      = Inr ((fst c, artist_key (fst (snd c)), snd (snd c)), errors @ es)"
    using s0(1) s(1) n0 pool_get [OF ok k] c(2)
    by (simp add: sched_pick_def Let_def SchedCartList_getNumberOfItems_def pos
        SchedCartList_getItemCartnumber_def SchedCartList_getItemArtist_def
        SchedCartList_getItemSchedCodes_def candidate_def case_prod_unfold)
  moreover have "passes tests (candidate c)" if "(tests, err) \<in> set ?rules" "err \<notin> set es" for tests err
    using bspec [OF s(6) that(1)] that(2) nth_mem [OF k] c(2) by auto
  ultimately show ?thesis using c(1) s(5) by fastforce
qed

definition sample_env :: sched_env where
  "sample_env = \<lparr>env_cart_lengths = (\<lambda>_. None), env_group_carts = (\<lambda>_. [(10, ''A'', ''''), (11, ''B'', '''')]),
     env_rules = (\<lambda>_. []), env_like = (\<lambda>p s. qs_contains p s), env_autofills = (\<lambda>_. []), env_rand = 3\<rparr>"

lemma sched_rules_members:
  "title_rule v time n stack \<in> set (sched_rules env v artistsep clockname time n stack)"
  "artist_rule artistsep time n stack \<in> set (sched_rules env v artistsep clockname time n stack)"
  "set (have_code_rules v time) \<subseteq> set (sched_rules env v artistsep clockname time n stack)"
  "q \<in> set (env_rules env clockname) \<Longrightarrow>
     set (code_rules env time n stack q) \<subseteq> set (sched_rules env v artistsep clockname time n stack)"
  by (auto simp: sched_rules_def)

text \<open>C6: For a group with at least one cart, the scheduler picks a cart and does not fault
  (no candidate array is overrun, and the remainder by the number of candidates never divides
  by zero). The pick is one of the group's carts, and unless the rule is reported as broken:
  the cart is not among the last \<open>title_sep\<close> positions of the stack, its artist not among the
  last \<open>artistsep\<close>, it carries the required code, and it passes every rule of the clock.\<close>

theorem sched_pick_obeys_rules:
  assumes "env_group_carts env (event_sched_group v) \<noteq> []"
  shows "\<exists>c es. c \<in> set (env_group_carts env (event_sched_group v))
    \<and> sched_pick env v artistsep clockname time stack errors
      = Inr ((fst c, artist_key (fst (snd c)), snd (snd c)), errors @ es)
    \<and> (TitleSeparation time \<in> set es
       \<or> (\<forall>r \<in> set stack. last_stack_id stack + 1 - title_sep v \<le> st_id r \<longrightarrow> st_cart r \<noteq> fst c))
    \<and> (ArtistSeparation time \<in> set es
       \<or> (\<forall>r \<in> set stack. last_stack_id stack + 1 - int artistsep \<le> st_id r
            \<longrightarrow> st_artist r \<noteq> artist_key (fst (snd c))))
    \<and> (MustHaveCode time (event_have_code v) \<in> set es \<or> event_have_code v = ''''
       \<or> item_has_code (event_have_code v) (candidate c))
    \<and> (\<forall>q \<in> set (env_rules env clockname).
         \<forall>(tests, err) \<in> set (code_rules env time (last_stack_id stack + 1) stack q).
           err \<in> set es \<or> passes tests (candidate c))"
proof -
  let ?rules = "sched_rules env v artistsep clockname time (last_stack_id stack + 1) stack"
  obtain c es where c: "c \<in> set (env_group_carts env (event_sched_group v))"
      "sched_pick env v artistsep clockname time stack errors
       = Inr ((fst c, artist_key (fst (snd c)), snd (snd c)), errors @ es)"
      "\<forall>(tests, err) \<in> set ?rules. err \<in> set es \<or> passes tests (candidate c)"
    using sched_pick_rules [OF assms] by blast
  have rule: "err \<in> set es \<or> passes tests (candidate c)" if "(tests, err) \<in> set ?rules" for tests err
    using c(3) that by auto
  note fixed = sched_rules_members(1-3) [where v = v and time = time and stack = stack and env = env
      and n = "last_stack_id stack + 1" and artistsep = artistsep and clockname = clockname]
  note code = sched_rules_members(4) [where v = v and time = time and stack = stack and env = env
      and n = "last_stack_id stack + 1" and artistsep = artistsep and clockname = clockname]
  have "TitleSeparation time \<in> set es
       \<or> (\<forall>r \<in> set stack. last_stack_id stack + 1 - title_sep v \<le> st_id r \<longrightarrow> st_cart r \<noteq> fst c)"
    using rule [OF fixed(1) [unfolded title_rule_def]]
    by (auto simp: passes_def candidate_def case_prod_unfold)
  moreover have "ArtistSeparation time \<in> set es
       \<or> (\<forall>r \<in> set stack. last_stack_id stack + 1 - int artistsep \<le> st_id r
            \<longrightarrow> st_artist r \<noteq> artist_key (fst (snd c)))"
    using rule [OF fixed(2) [unfolded artist_rule_def]]
    by (auto simp: passes_def candidate_def case_prod_unfold)
  moreover have "MustHaveCode time (event_have_code v) \<in> set es \<or> event_have_code v = ''''
       \<or> item_has_code (event_have_code v) (candidate c)"
  proof (cases "event_have_code v = ''''")
    case False
    then have "([\<lambda>x. \<not> item_has_code (event_have_code v) x], MustHaveCode time (event_have_code v))
        \<in> set ?rules"
      using fixed(3) by (simp add: have_code_rules_def)
    from rule [OF this] show ?thesis by (auto simp: passes_def)
  qed simp
  moreover have "\<forall>q \<in> set (env_rules env clockname).
         \<forall>(tests, err) \<in> set (code_rules env time (last_stack_id stack + 1) stack q).
           err \<in> set es \<or> passes tests (candidate c)"
    using rule code by blast
  ultimately show ?thesis using c(1,2) by blast
qed

theorem sched_pick_obeys_rules_witness:
  "res_ok (sched_pick sample_env new_event_line 5 ''C'' 0 [] [])"
  using sched_pick_obeys_rules [of sample_env new_event_line 5 "''C''" 0 "[]" "[]"]
  by (auto simp: sample_env_def)

section \<open>Properties of the generated rows\<close>

text \<open>\<open>extends st st'\<close>: rows appended with consecutive counts as IDs.\<close>

definition extends :: "gen_cursor \<times> log_row list \<Rightarrow> gen_cursor \<times> log_row list \<Rightarrow> bool" where
  "extends st st' \<longleftrightarrow> (\<exists>new. snd st' = snd st @ new
     \<and> cu_count (fst st) \<le> cu_count (fst st')
     \<and> map L_COUNT new = [cu_count (fst st)..cu_count (fst st') - 1]
     \<and> map L_ID new = map L_COUNT new)"

lemma extends_refl [simp]: "extends st st"
  by (simp add: extends_def)

lemma upto_join: "a \<le> b \<Longrightarrow> b \<le> c \<Longrightarrow> [a..b - 1] @ [b..c - 1] = [a..c - (1::int)]"
  by (cases "b = c") (simp_all add: upto_split1 [of a b "c - 1"])

lemma extends_trans:
  assumes "extends st st'" "extends st' st''"
  shows "extends st st''"
proof -
  obtain a b where a: "snd st' = snd st @ a" "cu_count (fst st) \<le> cu_count (fst st')"
      "map L_COUNT a = [cu_count (fst st)..cu_count (fst st') - 1]" "map L_ID a = map L_COUNT a"
    and b: "snd st'' = snd st' @ b" "cu_count (fst st') \<le> cu_count (fst st'')"
      "map L_COUNT b = [cu_count (fst st')..cu_count (fst st'') - 1]" "map L_ID b = map L_COUNT b"
    using assms unfolding extends_def by blast
  show ?thesis
    unfolding extends_def
    by (intro exI [of _ "a @ b"] conjI)
      (use a b in \<open>simp_all only: append_assoc map_append upto_join order_trans [OF a(2) b(2)]\<close>)
qed

lemma extends_one:
  "cu_count c' = cu_count c + 1 \<Longrightarrow> L_COUNT q = cu_count c \<Longrightarrow> L_ID q = cu_count c \<Longrightarrow>
   extends (c, rows) (c', rows @ [q])"
  by (auto simp: extends_def intro!: exI [of _ "[q]"])

lemma row_counts [simp]:
  "L_COUNT (template_row v c l) = cu_count c" "L_ID (template_row v c l) = cu_count c"
  "L_COUNT (link_row v i ty c) = cu_count c" "L_ID (link_row v i ty c) = cu_count c"
  "L_COUNT (scheduled_row v cart c) = cu_count c" "L_ID (scheduled_row v cart c) = cu_count c"
  "cu_count (advance v n c) = cu_count c + 1"
  by (simp_all add: template_row_def base_row_def link_row_def scheduled_row_def advance_def Let_def)

lemma template_rows_extends: "extends st (template_rows env v ls st)"
proof (induction ls arbitrary: st)
  case (Cons l ls)
  obtain c rows where st: "st = (c, rows)" by fastforce
  let ?st = "(advance v (RDEventLine_GetLength env (log_cart_number l) 0) c, rows @ [template_row v c l])"
  have "extends st ?st" unfolding st by (rule extends_one) simp_all
  from extends_trans [OF this Cons.IH [of ?st]] show ?case by (simp add: st)
next
  case Nil
  then show ?case by (cases st) simp
qed

lemma import_rows_extends: "extends st (import_rows v i st)"
  by (auto simp: import_rows_def split: prod.split import_source.split intro: extends_one)

lemma schedule_rows_ok:
  "\<exists>st' stack' errors'. schedule_rows env v sep clk stack errors st = Inr (st', stack', errors')
     \<and> extends st st'"
proof (cases "event_import_source v = ImportScheduler \<and> env_group_carts env (event_sched_group v) \<noteq> []")
  case True
  obtain c rows where st: "st = (c, rows)" by fastforce
  obtain x es where x: "sched_pick env v sep clk (cu_time c) stack errors = Inr (x, errors @ es)"
    using sched_pick_rules [of env v sep clk "cu_time c" stack errors] True by blast
  obtain cart artist codes where "x = (cart, artist, codes)" by (metis prod_cases3)
  with True st x show ?thesis
    by (auto simp: schedule_rows_def intro!: extends_one)
next
  case False
  then show ?thesis by (auto simp: schedule_rows_def split: prod.split)
qed

lemma next_count_above: "q \<in> set rows \<Longrightarrow> L_COUNT q < next_count rows"
  using foldl_max_mem [of q rows L_COUNT "L_COUNT (hd rows)"] by (auto simp: next_count_def)

text \<open>Generating an event never faults, only appends to the log, and gives the new rows
  consecutive counts above every count of the log, each row's ID being its count: the counts
  and IDs of a log built by generating its events stay distinct.\<close>

lemma event_counts:
  "\<exists>g' new. RDEventLine_generateLog env sep clk v g = Inr g' \<and> gs_rows g' = gs_rows g @ new
     \<and> map L_COUNT new = [next_count (gs_rows g)..next_count (gs_rows g) + int (length new) - 1]
     \<and> map L_ID new = map L_COUNT new
     \<and> (distinct (map L_COUNT (gs_rows g)) \<longrightarrow> distinct (map L_COUNT (gs_rows g')))"
proof -
  let ?st0 = "(start_cursor v (gs_rows g), gs_rows g)"
  let ?st2 = "import_rows v (next_link_id (gs_rows g))
                (template_rows env v (log_lines (event_preimport_log v)) ?st0)"
  obtain st3 stack errors where st3: "schedule_rows env v sep clk (gs_stack g) (gs_errors g) ?st2
      = Inr (st3, stack, errors)" "extends ?st2 st3"
    using schedule_rows_ok by blast
  let ?st4 = "template_rows env v (log_lines (event_postimport_log v)) st3"
  have "extends ?st0 ?st4"
    by (rule extends_trans [OF extends_trans [OF extends_trans
          [OF template_rows_extends import_rows_extends] st3(2)] template_rows_extends])
  moreover have count0: "cu_count (start_cursor v (gs_rows g)) = next_count (gs_rows g)"
    by (simp add: start_cursor_def Let_def)
  ultimately obtain new where new: "snd ?st4 = gs_rows g @ new"
      "next_count (gs_rows g) \<le> cu_count (fst ?st4)"
      "map L_COUNT new = [next_count (gs_rows g)..cu_count (fst ?st4) - 1]"
      "map L_ID new = map L_COUNT new"
    unfolding extends_def fst_conv snd_conv by metis
  have "length new = length [next_count (gs_rows g)..cu_count (fst ?st4) - 1]"
    using arg_cong [OF new(3), of length] by simp
  then have counts: "map L_COUNT new = [next_count (gs_rows g)..next_count (gs_rows g) + int (length new) - 1]"
    using new(2,3) by simp
  have "set (map L_COUNT (gs_rows g)) \<inter> set (map L_COUNT new) = {}"
    unfolding new(3) using next_count_above by (fastforce simp: disjoint_iff)
  moreover have "distinct (map L_COUNT new)"
    unfolding new(3) by simp
  ultimately have dist: "distinct (map L_COUNT (gs_rows g)) \<longrightarrow> distinct (map L_COUNT (gs_rows g @ new))"
    by simp
  have run: "RDEventLine_generateLog env sep clk v g
      = Inr \<lparr>gs_rows = snd ?st4, gs_stack = stack, gs_errors = errors\<rparr>"
    using st3(1) by (simp add: RDEventLine_generateLog_def Let_def case_prod_unfold)
  show ?thesis
    by (intro exI [of _ "\<lparr>gs_rows = snd ?st4, gs_stack = stack, gs_errors = errors\<rparr>"] exI [of _ new])
      (use run new(1,4) counts dist in simp)
qed

text \<open>The link numbers of a log: an event takes at most one, the next free one.\<close>

definition link_ids :: "log_row list \<Rightarrow> int list" where
  "link_ids rows = filter (\<lambda>i. i \<ge> 0) (map L_LINK_ID rows)"

lemma row_link_ids [simp]:
  "L_LINK_ID (template_row v c l) = -1" "L_LINK_ID (link_row v i ty c) = i"
  "L_LINK_ID (scheduled_row v cart c) = -1"
  by (simp_all add: template_row_def base_row_def link_row_def scheduled_row_def default_row_def Let_def)

lemma template_rows_links [simp]: "link_ids (snd (template_rows env v ls st)) = link_ids (snd st)"
  by (induction env v ls st rule: template_rows.induct) (simp_all add: link_ids_def)

lemma schedule_rows_links:
  "schedule_rows env v sep clk stack errors st = Inr (st', x) \<Longrightarrow> link_ids (snd st') = link_ids (snd st)"
  by (auto simp: schedule_rows_def link_ids_def split: prod.splits if_splits)

lemma next_link_id_nonneg: "0 \<le> next_link_id rows"
proof -
  have "m \<le> foldl (\<lambda>m q. max m (L_LINK_ID q)) m rows" for m
  proof (induction rows arbitrary: m)
    case (Cons q rows)
    from Cons [of "max m (L_LINK_ID q)"] show ?case by simp
  qed simp
  from this [of "-1"] show ?thesis by (simp add: next_link_id_def)
qed

lemma import_rows_links:
  "link_ids (snd (import_rows v (next_link_id rows) st))
     = link_ids (snd st) @ (if event_import_source v \<in> {ImportTraffic, ImportMusic} then [next_link_id rows] else [])"
  using next_link_id_nonneg [of rows]
  by (auto simp: import_rows_def link_ids_def split: prod.split import_source.split)

lemma event_links:
  assumes "RDEventLine_generateLog env sep clk v g = Inr g'"
  shows "link_ids (gs_rows g') = link_ids (gs_rows g)
    @ (if event_import_source v \<in> {ImportTraffic, ImportMusic} then [next_link_id (gs_rows g)] else [])"
proof -
  let ?st2 = "import_rows v (next_link_id (gs_rows g))
     (template_rows env v (log_lines (event_preimport_log v)) (start_cursor v (gs_rows g), gs_rows g))"
  obtain st3 x where "schedule_rows env v sep clk (gs_stack g) (gs_errors g) ?st2 = Inr (st3, x)"
      "gs_rows g' = snd (template_rows env v (log_lines (event_postimport_log v)) st3)"
    using assms by (auto simp: RDEventLine_generateLog_def Let_def case_prod_unfold)
  then show ?thesis
    using schedule_rows_links by (simp add: import_rows_links)
qed

text \<open>The scheduled cart does not advance the time nor the leading values of the event: in
  an event without pre-import carts, the first post-import cart is written with the same start
  time, time type, grace time and post point as the scheduled cart before it.\<close>

theorem scheduled_cart_not_counted:
  assumes "event_import_source v = ImportScheduler" "env_group_carts env (event_sched_group v) \<noteq> []"
    and "log_lines (event_preimport_log v) = []" "log_lines (event_postimport_log v) = l # ls"
  shows "\<exists>g' q1 q2 more. RDEventLine_generateLog env sep clk v g = Inr g'
    \<and> gs_rows g' = gs_rows g @ q1 # q2 # more
    \<and> L_SOURCE q1 = Music \<and> L_SOURCE q2 = Template \<and> L_START_TIME q2 = L_START_TIME q1
    \<and> L_TIME_TYPE q2 = L_TIME_TYPE q1 \<and> L_GRACE_TIME q2 = L_GRACE_TIME q1
    \<and> L_POST_POINT q2 = L_POST_POINT q1"
proof -
  let ?c = "start_cursor v (gs_rows g)"
  let ?c1 = "?c\<lparr>cu_count := cu_count ?c + 1\<rparr>"
  obtain x es where x: "sched_pick env v sep clk (cu_time ?c) (gs_stack g) (gs_errors g)
      = Inr (x, gs_errors g @ es)"
    using sched_pick_rules [of env v sep clk "cu_time ?c" "gs_stack g" "gs_errors g"] assms(2) by blast
  obtain cart artist codes where x3: "x = (cart, artist, codes)" by (metis prod_cases3)
  let ?q1 = "scheduled_row v cart ?c"
  let ?q2 = "template_row v ?c1 l"
  let ?st = "template_rows env v ls (advance v (RDEventLine_GetLength env (log_cart_number l) 0) ?c1,
       gs_rows g @ [?q1, ?q2])"
  obtain more where more: "snd ?st = (gs_rows g @ [?q1, ?q2]) @ more"
    using template_rows_extends [of "(advance v (RDEventLine_GetLength env (log_cart_number l) 0) ?c1,
       gs_rows g @ [?q1, ?q2])" env v ls] by (auto simp: extends_def)
  let ?stack = "gs_stack g @ [\<lparr>st_id = last_stack_id (gs_stack g) + 1, st_cart = cart,
      st_artist = artist, st_codes = codes\<rparr>]"
  have run: "RDEventLine_generateLog env sep clk v g
      = Inr \<lparr>gs_rows = snd ?st, gs_stack = ?stack, gs_errors = gs_errors g @ es\<rparr>"
    using assms x x3
    by (simp add: RDEventLine_generateLog_def import_rows_def schedule_rows_def Let_def case_prod_unfold)
  show ?thesis
    by (intro exI [of _ "\<lparr>gs_rows = snd ?st, gs_stack = ?stack, gs_errors = gs_errors g @ es\<rparr>"]
        exI [of _ ?q1] exI [of _ ?q2] exI [of _ more])
      (use run more in \<open>simp add: scheduled_row_def template_row_def base_row_def\<close>)
qed

definition sample_event :: event_line where
  "sample_event = new_event_line\<lparr>event_import_source := ImportScheduler,
     event_postimport_log := event_ids [4]\<rparr>"

theorem scheduled_cart_not_counted_witness:
  "res_ok (RDEventLine_generateLog sample_env 5 ''C'' sample_event
     \<lparr>gs_rows = [], gs_stack = [], gs_errors = []\<rparr>)"
  using scheduled_cart_not_counted [of sample_event sample_env "new_log_line\<lparr>log_id := 4, log_cart_number := 104\<rparr>"
      "[]" 5 "''C''" "\<lparr>gs_rows = [], gs_stack = [], gs_errors = []\<rparr>"]
  by (auto simp: sample_event_def sample_env_def new_event_line_def new_log_def)

end
