(* ===== verification/Sched_Link.thy ===== *)
theory Sched_Link
  imports Sched_Event
begin

text \<open>
  Replacing an import link by the imported lines: \<open>linkLog()\<close> of \<open>lib/rdevent_line.cpp\<close>. The
  import table is a list of \<open>import_row\<close>. \<open>link_cursor\<close> holds the local variables that each line
  advances. The autofill loop restarts its query after every cart it places, so it takes the
  first cart of the list that fits until none fits; it terminates because the time left shrinks.
\<close>

record import_row =
  IR_CART_NUMBER :: nat
  IR_START_HOUR :: int
  IR_START_SECS :: int
  IR_LENGTH :: int
  IR_EXT_DATA :: string
  IR_EXT_EVENT_ID :: string
  IR_EXT_ANNC_TYPE :: string
  IR_EXT_CART_NAME :: string
  IR_INSERT_BREAK :: string
  IR_INSERT_TRACK :: string
  IR_INSERT_FIRST :: insert_first
  IR_TITLE :: string
  IR_TRACK_STRING :: string
  IR_EVENT_USED :: string

record link_cursor =
  lk_time :: qtime
  lk_time_type :: time_type
  lk_trans_type :: trans_type
  lk_grace_time :: int
  lk_next_id :: int

text \<open>C++ integer division, which rounds towards zero.\<close>

definition trunc_div :: "int \<Rightarrow> int \<Rightarrow> int" where
  "trunc_div a b = (if a < 0 then - ((- a) div b) else a div b)"

definition event_source :: "event_line \<Rightarrow> source" where
  "event_source v = (case event_import_source v of ImportMusic \<Rightarrow> Music | ImportTraffic \<Rightarrow> Traffic
     | _ \<Rightarrow> Manual)"

text \<open>The window of the link: its hour, and the bounds in milliseconds within the hour.\<close>

definition link_window :: "log_line \<Rightarrow> int \<times> int \<times> int" where
  "link_window link =
     (let k = log_link link; t = log_link_start_time k;
          hour = qtime_hour t;
          start0 = 60000 * qtime_minute t + 1000 * qtime_second t;
          end0 = start0 + log_link_length k;
          start = (if hour = qtime_hour (qtime_addMSecs t (- log_link_start_slop k))
                   then start0 - log_link_start_slop k else 0)
      in (hour, start, end0 + log_link_end_slop k))"

definition in_window :: "log_line \<Rightarrow> import_row \<Rightarrow> bool" where
  "in_window link q = (case link_window link of (hour, start, stop) \<Rightarrow>
     IR_START_HOUR q = hour \<and> IR_START_SECS q \<ge> trunc_div start 1000
     \<and> IR_START_SECS q \<le> trunc_div stop 1000 \<and> IR_EVENT_USED q = ''N'')"

definition append_with :: "(log_line \<Rightarrow> log_line) \<Rightarrow> log_event \<Rightarrow> log_event res" where
  "append_with f e =
     res_bind (RDLogEvent_insert e (RDLogEvent_size e) 1 False)
       (\<lambda>e1. res_bind (vec_mod f (RDLogEvent_size e1 - 1) (log_lines e1))
         (\<lambda>ls. Inr (e1\<lparr>log_lines := ls\<rparr>)))"

definition copied_link :: "log_line \<Rightarrow> string \<Rightarrow> bool \<Rightarrow> link_data" where
  "copied_link link name embedded = (log_link link)\<lparr>log_link_event_name := name,
     log_link_embedded := embedded\<rparr>"

definition break_line :: "event_line \<Rightarrow> log_line \<Rightarrow> link_cursor \<Rightarrow> log_line \<Rightarrow> log_line" where
  "break_line v link c l = (RDLogLine_setStartTime Logged (lk_time c) (l\<lparr>log_id := lk_next_id c\<rparr>))
     \<lparr>log_type := TrafficLink, log_source := event_source v, log_trans_type := lk_trans_type c,
      log_event_length := event_length v,
      log_link := copied_link link (event_nested_event v) True\<rparr>"

definition track_line :: "event_line \<Rightarrow> log_line \<Rightarrow> import_row \<Rightarrow> link_cursor \<Rightarrow> log_line \<Rightarrow> log_line" where
  "track_line v link q c l = (RDLogLine_setStartTime Logged (lk_time c) (l\<lparr>log_id := lk_next_id c\<rparr>))
     \<lparr>log_type := Track, log_source := event_source v, log_trans_type := Segue,
      log_marker_comment := IR_TRACK_STRING q, log_event_length := event_length v,
      log_link := copied_link link (event_name v) True\<rparr>"

definition import_line :: "event_line \<Rightarrow> log_line \<Rightarrow> string \<Rightarrow> string \<Rightarrow> import_row \<Rightarrow> link_cursor
    \<Rightarrow> log_line \<Rightarrow> log_line" where
  "import_line v link label_cart track_cart q c l =
     (let l1 = (RDLogLine_setStartTime Logged (lk_time c)
                  (l\<lparr>log_id := lk_next_id c, log_source := event_source v\<rparr>))
            \<lparr>log_grace_time := lk_grace_time c, log_time_type := lk_time_type c,
             log_trans_type := lk_trans_type c,
             log_ext := \<lparr>log_ext_start_time =
                 qtime_addMSecs 0 (1000 * (3600 * fst (link_window link) + IR_START_SECS q)),
               log_ext_length = IR_LENGTH q, log_ext_cart_name = IR_EXT_CART_NAME q,
               log_ext_data = IR_EXT_DATA q, log_ext_event_id = IR_EXT_EVENT_ID q,
               log_ext_annc_type = IR_EXT_ANNC_TYPE q\<rparr>,
             log_event_length := event_length v,
             log_link := copied_link link (event_name v) (log_link_embedded (log_link link))\<rparr>
      in if IR_EXT_CART_NAME q = label_cart \<and> label_cart \<noteq> ''''
         then l1\<lparr>log_type := Marker, log_marker_comment := IR_TITLE q, log_cart_number := 0\<rparr>
         else if IR_EXT_CART_NAME q = track_cart \<and> track_cart \<noteq> ''''
         then l1\<lparr>log_type := Track, log_marker_comment := IR_TITLE q, log_cart_number := 0\<rparr>
         else l1\<lparr>log_type := Cart, log_cart_number := IR_CART_NUMBER q\<rparr>)"

definition fill_line :: "event_line \<Rightarrow> log_line \<Rightarrow> nat \<Rightarrow> link_cursor \<Rightarrow> log_line \<Rightarrow> log_line" where
  "fill_line v link cart c l = (RDLogLine_setStartTime Logged (lk_time c) (l\<lparr>log_id := lk_next_id c\<rparr>))
     \<lparr>log_type := Cart, log_source := event_source v, log_trans_type := lk_trans_type c,
      log_grace_time := lk_grace_time c, log_cart_number := cart,
      log_time_type := lk_time_type c, log_event_length := event_length v,
      log_link := copied_link link (event_name v) False\<rparr>"

text \<open>One appended line: the line takes the next ID.\<close>

definition put_line :: "(link_cursor \<Rightarrow> log_line \<Rightarrow> log_line) \<Rightarrow> log_event \<times> link_cursor
    \<Rightarrow> (log_event \<times> link_cursor) res" where
  "put_line f st = (case st of (e, c) \<Rightarrow>
     res_bind (append_with (f c) e) (\<lambda>e'. Inr (e', c\<lparr>lk_next_id := lk_next_id c + 1\<rparr>)))"

definition put_break :: "event_line \<Rightarrow> log_line \<Rightarrow> import_row \<Rightarrow> log_event \<times> link_cursor
    \<Rightarrow> (log_event \<times> link_cursor) res" where
  "put_break v link q st =
     (if IR_INSERT_BREAK q = ''Y'' \<and> event_nested_event v \<noteq> '''' \<and> event_nested_event v \<noteq> event_name v
      then put_line (break_line v link) st else Inr st)"

definition put_track :: "event_line \<Rightarrow> log_line \<Rightarrow> import_row \<Rightarrow> log_event \<times> link_cursor
    \<Rightarrow> (log_event \<times> link_cursor) res" where
  "put_track v link q st =
     (if IR_INSERT_TRACK q = ''Y'' then put_line (track_line v link q) st else Inr st)"

definition advance_link :: "event_line \<Rightarrow> int \<Rightarrow> link_cursor \<Rightarrow> link_cursor" where
  "advance_link v len c = c\<lparr>lk_time_type := Relative, lk_trans_type := event_default_transtype v,
     lk_time := qtime_addMSecs (lk_time c) len, lk_grace_time := -1\<rparr>"

definition link_row_step :: "sched_env \<Rightarrow> event_line \<Rightarrow> log_line \<Rightarrow> string \<Rightarrow> string \<Rightarrow> import_row
    \<Rightarrow> log_event \<times> link_cursor \<Rightarrow> (log_event \<times> link_cursor) res" where
  "link_row_step env v link label_cart track_cart q st = (case st of (e, c0) \<Rightarrow>
     (let c = (if RDLogEvent_nextId e > lk_next_id c0 then c0\<lparr>lk_next_id := RDLogEvent_nextId e\<rparr> else c0);
          len = RDEventLine_GetLength env (IR_CART_NUMBER q) (IR_LENGTH q)
      in res_bind
           (if IR_INSERT_FIRST q = InsertBreak
            then res_bind (put_break v link q (e, c)) (put_track v link q)
            else res_bind (put_track v link q (e, c)) (put_break v link q))
           (\<lambda>st1. res_bind (put_line (import_line v link label_cart track_cart q) st1)
             (\<lambda>(e2, c2). Inr (e2, advance_link v len c2)))))"

fun link_rows :: "sched_env \<Rightarrow> event_line \<Rightarrow> log_line \<Rightarrow> string \<Rightarrow> string \<Rightarrow> import_row list
    \<Rightarrow> log_event \<times> link_cursor \<Rightarrow> (log_event \<times> link_cursor) res" where
  "link_rows env v link label_cart track_cart [] st = Inr st"
| "link_rows env v link label_cart track_cart (q # qs) st =
     res_bind (link_row_step env v link label_cart track_cart q st)
       (link_rows env v link label_cart track_cart qs)"

section \<open>Autofill\<close>

definition fits :: "qtime \<Rightarrow> qtime \<Rightarrow> nat \<times> int \<Rightarrow> bool" where
  "fits end_time time r \<longleftrightarrow> qtime_addMSecs time (snd r) \<le> end_time \<and> qtime_addMSecs time (snd r) > time"

function autofill_loop :: "event_line \<Rightarrow> log_line \<Rightarrow> (nat \<times> int) list \<Rightarrow> qtime \<Rightarrow> qtime
    \<Rightarrow> log_event \<times> link_cursor \<Rightarrow> (log_event \<times> link_cursor) res" where
  "autofill_loop v link fills end_time fill_start (e, c) =
     (if fill_start \<le> lk_time c then
        (case find (fits end_time (lk_time c)) fills of
           None \<Rightarrow> Inr (e, c)
         | Some r \<Rightarrow>
             (case put_line (fill_line v link (fst r)) (e, c) of
                Inl f \<Rightarrow> Inl f
              | Inr st \<Rightarrow> autofill_loop v link fills end_time fill_start
                           (fst st, c\<lparr>lk_next_id := lk_next_id c + 1, lk_time_type := Relative,
                              lk_trans_type := event_default_transtype v, lk_grace_time := -1,
                              lk_time := qtime_addMSecs (lk_time c) (snd r)\<rparr>)))
      else Inr (e, c))"
  by pat_completeness auto
termination
  by (relation "measure (\<lambda>(v, link, fills, end_time, fill_start, e, c). nat (end_time - lk_time c))")
    (auto simp: fits_def find_Some_iff)

declare autofill_loop.simps [simp del]

definition autofill_rows :: "sched_env \<Rightarrow> string \<Rightarrow> qtime \<Rightarrow> qtime \<Rightarrow> (nat \<times> int) list" where
  "autofill_rows env svcname time end_time =
     filter (\<lambda>r. snd r \<le> qtime_msecsTo time end_time \<and> snd r > 0) (env_autofills env svcname)"

definition fill_check :: "event_line \<Rightarrow> qtime \<Rightarrow> qtime \<Rightarrow> sched_error list \<Rightarrow> sched_error list" where
  "fill_check v end_time time errors =
     (if event_autofill_slop v \<ge> 0 then
        (let slop = qtime_msecsTo 0 end_time - qtime_msecsTo 0 time
         in if abs slop \<ge> event_autofill_slop v then
              (if slop > 0 then errors @ [Underscheduled time (event_name v) (qtime_addMSecs 0 slop)]
               else errors @ [Overscheduled time (event_name v) (qtime_addMSecs 0 (- slop))])
            else errors)
      else errors)"

text \<open>\<open>linkLog()\<close>: the log, the import table with the events of the window marked as used, and
  the error report.\<close>

definition RDEventLine_linkLog ::
  "sched_env \<Rightarrow> event_line \<Rightarrow> log_event \<Rightarrow> int \<Rightarrow> string \<Rightarrow> log_line \<Rightarrow> string \<Rightarrow> string
   \<Rightarrow> import_row list \<Rightarrow> sched_error list \<Rightarrow> (log_event \<times> import_row list \<times> sched_error list) res" where
  "RDEventLine_linkLog env v e next_id svcname link label_cart track_cart imports errors =
     (let c0 = \<lparr>lk_time = log_start_time link Logged, lk_time_type = log_time_type link,
                lk_trans_type = log_trans_type link, lk_grace_time = log_grace_time link,
                lk_next_id = next_id\<rparr>;
          end_time = qtime_addMSecs (log_start_time link Logged) (log_link_length (log_link link))
      in res_bind (link_rows env v link label_cart track_cart (filter (in_window link) imports) (e, c0))
        (\<lambda>(e1, c1). res_bind
           (if event_use_autofill v \<and> event_start_time v \<le> lk_time c1
            then autofill_loop v link (autofill_rows env svcname (lk_time c1) end_time) end_time
                   (lk_time c1) (e1, c1)
            else Inr (e1, c1))
           (\<lambda>(e2, c2). Inr (e2,
              map (\<lambda>q. if in_window link q then q\<lparr>IR_EVENT_USED := ''Y''\<rparr> else q) imports,
              fill_check v end_time (lk_time c2) errors))))"

section \<open>Lemmas\<close>

lemma append_with_ok:
  assumes "edit_stable g"
  shows "\<exists>e'. append_with f e = Inr e'
    \<and> map g (log_lines e') = map g (log_lines e) @ [g (f (new_log_line\<lparr>log_id := log_max_id e + 1\<rparr>))]"
proof -
  let ?n = "length (log_lines e)"
  let ?l = "new_log_line\<lparr>log_id := log_max_id e + 1\<rparr>"
  let ?us = "unlink_at ?n (log_lines e)"
  have ins: "RDLogEvent_insert e (RDLogEvent_size e) 1 False
      = Inr (e\<lparr>log_lines := ?us @ [?l], log_max_id := log_max_id e + 1\<rparr>)"
    using insert_exact [of ?n e 1] by (simp add: RDLogEvent_size_def fresh_lines_Suc)
  have "map g ?us = map g (log_lines e)"
    using assms
    by (auto simp: unlink_at_def upd_at_def Let_def edit_stable_def map_update list_update_same_conv)
  moreover have "append_with f e = Inr (e\<lparr>log_lines := ?us @ [f ?l], log_max_id := log_max_id e + 1\<rparr>)"
    using ins nth_append_length [of ?us ?l]
    by (simp add: append_with_def RDLogEvent_size_def list_update_append)
  ultimately show ?thesis by simp
qed

lemma put_line_ok:
  assumes "edit_stable g" "\<And>l. g (f c l) = y"
  shows "\<exists>e'. put_line f (e, c) = Inr (e', c\<lparr>lk_next_id := lk_next_id c + 1\<rparr>)
    \<and> map g (log_lines e') = map g (log_lines e) @ [y]"
  using append_with_ok [OF assms(1), of "f c" e] assms(2) by (auto simp: put_line_def)

lemma line_ids [simp]:
  "log_id (break_line v link c l) = lk_next_id c" "log_id (track_line v link q c l) = lk_next_id c"
  "log_id (import_line v link lc tc q c l) = lk_next_id c" "log_id (fill_line v link cart c l) = lk_next_id c"
  by (simp_all add: break_line_def track_line_def import_line_def fill_line_def
      RDLogLine_setStartTime_def Let_def)

text \<open>The invariant of the ID assignment: the next ID is above every ID of the log.\<close>

definition next_id_ok :: "log_event \<times> link_cursor \<Rightarrow> bool" where
  "next_id_ok st \<longleftrightarrow> distinct (ids (fst st)) \<and> (\<forall>i \<in> set (ids (fst st)). i < lk_next_id (snd st))"

definition grows :: "log_event \<times> link_cursor \<Rightarrow> log_event \<times> link_cursor \<Rightarrow> bool" where
  "grows st st' \<longleftrightarrow> next_id_ok st' \<and> (\<exists>new. ids (fst st') = ids (fst st) @ new)"

lemma grows_trans: "grows a b \<Longrightarrow> grows b c \<Longrightarrow> grows a c"
  by (auto simp: grows_def)

lemma grows_refl: "next_id_ok st \<Longrightarrow> grows st st"
  by (simp add: grows_def)

lemma put_line_grows:
  assumes "next_id_ok st" "\<And>c l. log_id (f c l) = lk_next_id c"
  shows "\<exists>st'. put_line f st = Inr st' \<and> grows st st'"
proof -
  obtain e c where st: "st = (e, c)" by fastforce
  obtain e' where e': "put_line f (e, c) = Inr (e', c\<lparr>lk_next_id := lk_next_id c + 1\<rparr>)"
      "ids e' = ids e @ [lk_next_id c]"
    using put_line_ok [of log_id f c "lk_next_id c" e] assms(2) by (auto simp: ids_def)
  then have "grows st (e', c\<lparr>lk_next_id := lk_next_id c + 1\<rparr>)"
    using assms(1) by (fastforce simp: st next_id_ok_def grows_def)
  with e'(1) st show ?thesis by blast
qed

lemma put_break_grows: "next_id_ok st \<Longrightarrow> \<exists>st'. put_break v link q st = Inr st' \<and> grows st st'"
  using put_line_grows [of st "break_line v link"] grows_refl [of st]
  by (cases st) (auto simp: put_break_def)

lemma put_track_grows: "next_id_ok st \<Longrightarrow> \<exists>st'. put_track v link q st = Inr st' \<and> grows st st'"
  using put_line_grows [of st "track_line v link q"] grows_refl [of st]
  by (cases st) (auto simp: put_track_def)

lemma grows_ok: "grows st st' \<Longrightarrow> next_id_ok st'"
  by (simp add: grows_def)

lemma both_grow:
  assumes "next_id_ok st" "\<And>st. next_id_ok st \<Longrightarrow> \<exists>st'. f st = Inr st' \<and> grows st st'"
    and "\<And>st. next_id_ok st \<Longrightarrow> \<exists>st'. g st = Inr st' \<and> grows st st'"
  shows "\<exists>st'. res_bind (f st) g = Inr st' \<and> grows st st'"
proof -
  obtain st1 where st1: "f st = Inr st1" "grows st st1" using assms(1,2) by blast
  obtain st2 where "g st1 = Inr st2" "grows st1 st2" using assms(3) grows_ok [OF st1(2)] by blast
  with st1 grows_trans show ?thesis by fastforce
qed

lemma link_row_step_grows:
  assumes "next_id_ok st"
  shows "\<exists>st'. link_row_step env v link lc tc q st = Inr st' \<and> grows st st'"
proof -
  obtain e c0 where st: "st = (e, c0)" by fastforce
  define c where "c = (if RDLogEvent_nextId e > lk_next_id c0 then c0\<lparr>lk_next_id := RDLogEvent_nextId e\<rparr> else c0)"
  have ok: "next_id_ok (e, c)" using assms st by (fastforce simp: next_id_ok_def c_def)
  have "\<exists>st1. (if IR_INSERT_FIRST q = InsertBreak
            then res_bind (put_break v link q (e, c)) (put_track v link q)
            else res_bind (put_track v link q (e, c)) (put_break v link q)) = Inr st1 \<and> grows (e, c) st1"
    using both_grow [OF ok, of "put_break v link q" "put_track v link q"]
      both_grow [OF ok, of "put_track v link q" "put_break v link q"]
      put_break_grows put_track_grows by simp
  then obtain st1 where st1: "(if IR_INSERT_FIRST q = InsertBreak
            then res_bind (put_break v link q (e, c)) (put_track v link q)
            else res_bind (put_track v link q (e, c)) (put_break v link q)) = Inr st1"
      "grows (e, c) st1" by blast
  obtain st2 where st2: "put_line (import_line v link lc tc q) st1 = Inr st2" "grows st1 st2"
    using put_line_grows [OF grows_ok [OF st1(2)], of "import_line v link lc tc q"] by auto
  obtain e2 c2 where st2': "st2 = (e2, c2)" by fastforce
  have "grows st (e2, advance_link v (RDEventLine_GetLength env (IR_CART_NUMBER q) (IR_LENGTH q)) c2)"
    using grows_trans [OF st1(2) st2(2)] st st2' by (auto simp: grows_def next_id_ok_def advance_link_def)
  moreover have "link_row_step env v link lc tc q st
      = Inr (e2, advance_link v (RDEventLine_GetLength env (IR_CART_NUMBER q) (IR_LENGTH q)) c2)"
    unfolding link_row_step_def st prod.case Let_def c_def [symmetric] st1(1) res_bind_simps
      st2(1) st2' ..
  ultimately show ?thesis by blast
qed

lemma link_rows_grows:
  "next_id_ok st \<Longrightarrow> \<exists>st'. link_rows env v link lc tc qs st = Inr st' \<and> grows st st'"
proof (induction qs arbitrary: st)
  case (Cons q qs)
  then show ?case
    using both_grow [OF Cons.prems, of "link_row_step env v link lc tc q" "link_rows env v link lc tc qs"]
      link_row_step_grows by simp
qed (simp add: grows_refl)

lemma autofill_stop:
  "\<not> (fill_start \<le> lk_time c \<and> find (fits end_time (lk_time c)) fills \<noteq> None) \<Longrightarrow>
   autofill_loop v link fills end_time fill_start (e, c) = Inr (e, c)"
  by (subst autofill_loop.simps) (auto split: option.split)

definition filled :: "event_line \<Rightarrow> int \<Rightarrow> link_cursor \<Rightarrow> link_cursor" where
  "filled v len c = c\<lparr>lk_next_id := lk_next_id c + 1, lk_time_type := Relative,
     lk_trans_type := event_default_transtype v, lk_grace_time := -1, lk_time := qtime_addMSecs (lk_time c) len\<rparr>"

text \<open>A property that every placed cart keeps holds at the end of the loop.\<close>

lemma autofill_keeps:
  assumes "Q st"
    and "\<And>e c r. Q (e, c) \<Longrightarrow> \<exists>e1. put_line (fill_line v link (fst r)) (e, c) = Inr (e1, c\<lparr>lk_next_id := lk_next_id c + 1\<rparr>)
           \<and> Q (e1, filled v (snd r) c)"
  shows "\<exists>st'. autofill_loop v link fills end_time fill_start st = Inr st' \<and> Q st'"
proof -
  have "Q (e, c) \<Longrightarrow> \<exists>st'. autofill_loop v link fills end_time fill_start (e, c) = Inr st' \<and> Q st'" for e c
    using assms(2)
  proof (induction v link fills end_time fill_start "(e, c)" arbitrary: e c rule: autofill_loop.induct)
    case (1 v link fills end_time fill_start e c)
    show ?case
    proof (cases "fill_start \<le> lk_time c \<and> find (fits end_time (lk_time c)) fills \<noteq> None")
      case False
      then show ?thesis
        using 1(2) autofill_stop by blast
    next
      case True
      then obtain r where r: "fill_start \<le> lk_time c" "find (fits end_time (lk_time c)) fills = Some r"
        by auto
      obtain e1 where e1: "put_line (fill_line v link (fst r)) (e, c)
            = Inr (e1, c\<lparr>lk_next_id := lk_next_id c + 1\<rparr>)"
          "Q (e1, filled v (snd r) c)"
        using 1(3) [OF 1(2)] by blast
      obtain st' where "autofill_loop v link fills end_time fill_start (e1, filled v (snd r) c) = Inr st'" "Q st'"
        using 1(1) [OF r e1(1)] e1(2) 1(3) by (auto simp: filled_def)
      then show ?thesis
        using r e1(1) by (auto simp: autofill_loop.simps [of v link fills end_time fill_start e c] filled_def)
    qed
  qed
  then show ?thesis using assms(1) by (cases st) simp
qed

lemma autofill_next_ids:
  assumes "next_id_ok st"
  shows "\<exists>st'. autofill_loop v link fills end_time fill_start st = Inr st' \<and> grows st st'"
proof (rule autofill_keeps [of "grows st"])
  show "grows st st" using assms by (rule grows_refl)
next
  fix e c and r :: "nat \<times> int"
  assume g: "grows st (e, c)"
  obtain e1 where e1: "put_line (fill_line v link (fst r)) (e, c) = Inr (e1, c\<lparr>lk_next_id := lk_next_id c + 1\<rparr>)"
      "ids e1 = ids e @ [lk_next_id c]"
    using put_line_ok [of log_id "fill_line v link (fst r)" c "lk_next_id c" e] by (auto simp: ids_def)
  have "grows (e, c) (e1, filled v (snd r) c)"
    using grows_ok [OF g] e1(2) by (fastforce simp: grows_def next_id_ok_def filled_def)
  then show "\<exists>e1. put_line (fill_line v link (fst r)) (e, c) = Inr (e1, c\<lparr>lk_next_id := lk_next_id c + 1\<rparr>)
      \<and> grows st (e1, filled v (snd r) c)"
    using e1(1) grows_trans [OF g] by blast
qed

section \<open>What linking adds\<close>

text \<open>
  The lines that linking adds, told from the import table alone: the lines of one event, in
  order, then the next event where the previous one ends; afterwards the autofill carts back to
  back. Only the first event carries the transition and the time type of the link.
\<close>

record link_view =
  vw_type :: line_type
  vw_source :: source
  vw_cart :: nat
  vw_comment :: string
  vw_link :: link_data
  vw_ext :: ext_data
  vw_time :: qtime
  vw_trans :: trans_type
  vw_time_type :: time_type

definition line_view :: "log_line \<Rightarrow> link_view" where
  "line_view l = \<lparr>vw_type = log_type l, vw_source = log_source l, vw_cart = log_cart_number l,
     vw_comment = log_marker_comment l, vw_link = log_link l, vw_ext = log_ext l,
     vw_time = log_start_time l Logged, vw_trans = log_trans_type l, vw_time_type = log_time_type l\<rparr>"

definition added_view :: "event_line \<Rightarrow> qtime \<Rightarrow> line_type \<Rightarrow> nat \<Rightarrow> string \<Rightarrow> link_data \<Rightarrow> ext_data
    \<Rightarrow> trans_type \<Rightarrow> time_type \<Rightarrow> link_view" where
  "added_view v t ty n s k x tr tt = \<lparr>vw_type = ty, vw_source = event_source v, vw_cart = n,
     vw_comment = s, vw_link = k, vw_ext = x, vw_time = t, vw_trans = tr, vw_time_type = tt\<rparr>"

definition break_views :: "event_line \<Rightarrow> log_line \<Rightarrow> import_row \<Rightarrow> qtime \<Rightarrow> trans_type \<Rightarrow> link_view list" where
  "break_views v link q t tr =
     (if IR_INSERT_BREAK q = ''Y'' \<and> event_nested_event v \<notin> {'''', event_name v}
      then [added_view v t TrafficLink 0 '''' (copied_link link (event_nested_event v) True)
              cleared_ext tr Relative] else [])"

definition track_views :: "event_line \<Rightarrow> log_line \<Rightarrow> import_row \<Rightarrow> qtime \<Rightarrow> link_view list" where
  "track_views v link q t =
     (if IR_INSERT_TRACK q = ''Y''
      then [added_view v t Track 0 (IR_TRACK_STRING q) (copied_link link (event_name v) True)
              cleared_ext Segue Relative] else [])"

definition row_extras :: "event_line \<Rightarrow> log_line \<Rightarrow> import_row \<Rightarrow> qtime \<Rightarrow> trans_type \<Rightarrow> link_view list" where
  "row_extras v link q t tr =
     (if IR_INSERT_FIRST q = InsertBreak then break_views v link q t tr @ track_views v link q t
      else track_views v link q t @ break_views v link q t tr)"

definition row_main :: "event_line \<Rightarrow> log_line \<Rightarrow> string \<Rightarrow> string \<Rightarrow> import_row \<Rightarrow> qtime \<Rightarrow> trans_type
    \<Rightarrow> time_type \<Rightarrow> link_view" where
  "row_main v link lc tc q t tr tt =
     (let label = IR_EXT_CART_NAME q = lc \<and> lc \<noteq> '''';
          track = IR_EXT_CART_NAME q = tc \<and> tc \<noteq> ''''
      in added_view v t (if label then Marker else if track then Track else Cart)
           (if label \<or> track then 0 else IR_CART_NUMBER q) (if label \<or> track then IR_TITLE q else '''')
           (copied_link link (event_name v) (log_link_embedded (log_link link)))
           \<lparr>log_ext_start_time = qtime_addMSecs 0 (1000 * (3600 * fst (link_window link) + IR_START_SECS q)),
            log_ext_length = IR_LENGTH q, log_ext_cart_name = IR_EXT_CART_NAME q,
            log_ext_data = IR_EXT_DATA q, log_ext_event_id = IR_EXT_EVENT_ID q,
            log_ext_annc_type = IR_EXT_ANNC_TYPE q\<rparr> tr tt)"

fun row_views :: "sched_env \<Rightarrow> event_line \<Rightarrow> log_line \<Rightarrow> string \<Rightarrow> string \<Rightarrow> import_row list
    \<Rightarrow> qtime \<times> trans_type \<times> time_type \<Rightarrow> link_view list" where
  "row_views env v link lc tc [] _ = []"
| "row_views env v link lc tc (q # qs) (t, tr, tt) =
     row_extras v link q t tr @ [row_main v link lc tc q t tr tt]
     @ row_views env v link lc tc qs
         (qtime_addMSecs t (RDEventLine_GetLength env (IR_CART_NUMBER q) (IR_LENGTH q)),
          event_default_transtype v, Relative)"

fun fill_views :: "event_line \<Rightarrow> log_line \<Rightarrow> (nat \<times> int) list \<Rightarrow> qtime \<times> trans_type \<times> time_type
    \<Rightarrow> link_view list" where
  "fill_views v link [] _ = []"
| "fill_views v link ((n, len) # rs) (t, tr, tt) =
     added_view v t Cart n '''' (copied_link link (event_name v) False) cleared_ext tr tt
     # fill_views v link rs (qtime_addMSecs t len, event_default_transtype v, Relative)"

text \<open>Where the rows end: the time, and the transition and time type of the next line.\<close>

definition rows_end :: "sched_env \<Rightarrow> event_line \<Rightarrow> import_row list \<Rightarrow> qtime \<times> trans_type \<times> time_type
    \<Rightarrow> qtime \<times> trans_type \<times> time_type" where
  "rows_end env v qs k = (if qs = [] then k else
     (foldl (\<lambda>t q. qtime_addMSecs t (RDEventLine_GetLength env (IR_CART_NUMBER q) (IR_LENGTH q))) (fst k) qs,
      event_default_transtype v, Relative))"

text \<open>The lines of the log once others follow: only the custom end of the last one is taken away.\<close>

definition closed_end :: "log_line list \<Rightarrow> log_line list" where
  "closed_end ls = (if ls = [] then [] else butlast ls @ [reset_trailing (last ls)])"

definition adds :: "log_event \<Rightarrow> log_event \<Rightarrow> link_view list \<Rightarrow> bool" where
  "adds e e' vs \<longleftrightarrow> (\<exists>new. log_lines e' = (if new = [] then log_lines e else closed_end (log_lines e)) @ new
     \<and> map line_view new = vs)"

lemma unlink_at_end: "unlink_at (length ls) ls = closed_end ls"
  by (cases ls rule: rev_cases)
    (auto simp: unlink_at_def upd_at_def closed_end_def Let_def nth_append)

lemma closed_end_append: "b \<noteq> [] \<Longrightarrow> closed_end (a @ b) = a @ closed_end b"
  by (simp add: closed_end_def butlast_append)

lemma line_view_stable [simp]: "line_view (reset_trailing l) = line_view l"
  by (simp add: line_view_def reset_trailing_def)

lemma closed_end_views [simp]: "map line_view (closed_end ls) = map line_view ls"
  by (cases ls rule: rev_cases) (simp_all add: closed_end_def)

lemma closed_end_Nil [simp]: "closed_end ls = [] \<longleftrightarrow> ls = []"
  by (simp add: closed_end_def)

lemma closed_end_idem: "closed_end (closed_end ls) = closed_end ls"
  by (cases ls rule: rev_cases) (simp_all add: closed_end_def reset_trailing_def)

lemma adds_refl [simp]: "adds e e []"
  by (auto simp: adds_def)

lemma adds_trans:
  assumes "adds a b vs" "adds b c ws"
  shows "adds a c (vs @ ws)"
proof -
  obtain n1 where 1: "log_lines b = (if n1 = [] then log_lines a else closed_end (log_lines a)) @ n1"
      "map line_view n1 = vs" using assms(1) by (auto simp: adds_def)
  obtain n2 where 2: "log_lines c = (if n2 = [] then log_lines b else closed_end (log_lines b)) @ n2"
      "map line_view n2 = ws" using assms(2) by (auto simp: adds_def)
  have "log_lines c = (if (if n2 = [] then n1 else closed_end n1) @ n2 = [] then log_lines a
      else closed_end (log_lines a)) @ (if n2 = [] then n1 else closed_end n1) @ n2"
    using 1 2 by (simp add: closed_end_append)
  moreover have "map line_view ((if n2 = [] then n1 else closed_end n1) @ n2) = vs @ ws"
    using 1 2 by simp
  ultimately show ?thesis unfolding adds_def by blast
qed

text \<open>One appended line, and the lines of one event.\<close>

lemma append_with_adds: "append_with f e = Inr e' \<Longrightarrow>
   \<exists>l. log_lines e' = closed_end (log_lines e) @ [f (new_log_line\<lparr>log_id := l\<rparr>)]"
  using insert_exact [of "length (log_lines e)" e 1]
  by (auto simp: append_with_def RDLogEvent_size_def fresh_lines_Suc unlink_at_end vec_mod_def vec_in_def
      nth_append list_update_append closed_end_def split: if_splits)

lemma put_line_adds:
  assumes "put_line f (e, c) = Inr (e', c')" "\<And>i. line_view (f c (new_log_line\<lparr>log_id := i\<rparr>)) = w"
  shows "c' = c\<lparr>lk_next_id := lk_next_id c + 1\<rparr> \<and> adds e e' [w]"
proof -
  obtain e1 where e1: "append_with (f c) e = Inr e1" "(e', c') = (e1, c\<lparr>lk_next_id := lk_next_id c + 1\<rparr>)"
    using assms(1) by (auto simp: put_line_def)
  then obtain i where "log_lines e1 = closed_end (log_lines e) @ [f c (new_log_line\<lparr>log_id := i\<rparr>)]"
    using append_with_adds by blast
  then show ?thesis using assms(2) e1(2) by (auto simp: adds_def)
qed

definition lead :: "link_cursor \<Rightarrow> qtime \<times> trans_type \<times> time_type" where
  "lead c = (lk_time c, lk_trans_type c, lk_time_type c)"

lemma new_line_fields [simp]: "log_marker_comment new_log_line = ''''" "log_ext new_log_line = cleared_ext"
  by (simp_all add: new_log_line_def cleared_line_def)

lemma link_line_views:
  "line_view (break_line v k c (new_log_line\<lparr>log_id := i\<rparr>)) = added_view v (lk_time c) TrafficLink 0 ''''
     (copied_link k (event_nested_event v) True) cleared_ext (lk_trans_type c) Relative"
  "line_view (track_line v k q c (new_log_line\<lparr>log_id := i\<rparr>)) = added_view v (lk_time c) Track 0
     (IR_TRACK_STRING q) (copied_link k (event_name v) True) cleared_ext Segue Relative"
  "line_view (import_line v k lc tc q c (new_log_line\<lparr>log_id := i\<rparr>))
     = row_main v k lc tc q (lk_time c) (lk_trans_type c) (lk_time_type c)"
  "line_view (fill_line v k n c (new_log_line\<lparr>log_id := i\<rparr>)) = added_view v (lk_time c) Cart n ''''
     (copied_link k (event_name v) False) cleared_ext (lk_trans_type c) (lk_time_type c)"
  by (auto simp: line_view_def added_view_def break_line_def track_line_def import_line_def fill_line_def
      row_main_def RDLogLine_setStartTime_def Let_def)

lemma put_break_adds:
  assumes "put_break v k q (e, c) = Inr (e', c')"
  shows "lead c' = lead c \<and> adds e e' (break_views v k q (lk_time c) (lk_trans_type c))"
  using assms put_line_adds [where f = "break_line v k", OF _ link_line_views(1), of e c e' c']
  by (auto simp: put_break_def lead_def break_views_def split: if_splits)

lemma put_track_adds:
  assumes "put_track v k q (e, c) = Inr (e', c')"
  shows "lead c' = lead c \<and> adds e e' (track_views v k q (lk_time c))"
  using assms put_line_adds [where f = "track_line v k q", OF _ link_line_views(2), of e c e' c']
  by (auto simp: put_track_def lead_def track_views_def split: if_splits)

lemma extras_add:
  assumes "(if IR_INSERT_FIRST q = InsertBreak
            then res_bind (put_break v k q (e, c)) (put_track v k q)
            else res_bind (put_track v k q (e, c)) (put_break v k q)) = Inr (e', c')"
  shows "lead c' = lead c \<and> adds e e' (row_extras v k q (lk_time c) (lk_trans_type c))"
proof -
  obtain e1 c1 where s: "if IR_INSERT_FIRST q = InsertBreak
      then put_break v k q (e, c) = Inr (e1, c1) \<and> put_track v k q (e1, c1) = Inr (e', c')
      else put_track v k q (e, c) = Inr (e1, c1) \<and> put_break v k q (e1, c1) = Inr (e', c')"
    using assms by (auto split: if_splits)
  then show ?thesis
    using put_break_adds [of v k q e c e1 c1] put_track_adds [of v k q e1 c1 e' c']
      put_track_adds [of v k q e c e1 c1] put_break_adds [of v k q e1 c1 e' c'] adds_trans [of e e1 _ e']
    by (cases "IR_INSERT_FIRST q = InsertBreak") (auto simp: row_extras_def lead_def)
qed

lemma link_row_adds:
  assumes "link_row_step env v k lc tc q (e, c) = Inr (e', c')"
  shows "adds e e' (row_extras v k q (lk_time c) (lk_trans_type c)
       @ [row_main v k lc tc q (lk_time c) (lk_trans_type c) (lk_time_type c)])
    \<and> lead c' = (qtime_addMSecs (lk_time c) (RDEventLine_GetLength env (IR_CART_NUMBER q) (IR_LENGTH q)),
        event_default_transtype v, Relative)"
proof -
  define c0 where "c0 = (if RDLogEvent_nextId e > lk_next_id c then c\<lparr>lk_next_id := RDLogEvent_nextId e\<rparr> else c)"
  have lead0: "lead c0 = lead c" by (simp add: c0_def lead_def)
  obtain e1 c1 e2 c2 where s: "(if IR_INSERT_FIRST q = InsertBreak
            then res_bind (put_break v k q (e, c0)) (put_track v k q)
            else res_bind (put_track v k q (e, c0)) (put_break v k q)) = Inr (e1, c1)"
      "put_line (import_line v k lc tc q) (e1, c1) = Inr (e2, c2)"
      "(e', c') = (e2, advance_link v (RDEventLine_GetLength env (IR_CART_NUMBER q) (IR_LENGTH q)) c2)"
    using assms unfolding link_row_step_def prod.case Let_def c0_def [symmetric] by auto
  note 1 = extras_add [OF s(1)] and 2 = put_line_adds [where f = "import_line v k lc tc q", OF s(2) link_line_views(3)]
  have "lk_time c1 = lk_time c" "lk_trans_type c1 = lk_trans_type c" "lk_time_type c1 = lk_time_type c"
      "lk_time c0 = lk_time c" "lk_trans_type c0 = lk_trans_type c"
    using 1 lead0 by (auto simp: lead_def)
  with 1 2 s(3) adds_trans show ?thesis by (auto simp: lead_def advance_link_def)
qed

lemma link_rows_adds:
  "link_rows env v k lc tc qs (e, c) = Inr (e', c') \<Longrightarrow>
   adds e e' (row_views env v k lc tc qs (lead c)) \<and> lead c' = rows_end env v qs (lead c)"
proof (induction qs arbitrary: e c)
  case (Cons q qs)
  obtain e1 c1 where s: "link_row_step env v k lc tc q (e, c) = Inr (e1, c1)"
      "link_rows env v k lc tc qs (e1, c1) = Inr (e', c')"
    using Cons.prems by auto
  have "adds e e' ((row_extras v k q (lk_time c) (lk_trans_type c)
       @ [row_main v k lc tc q (lk_time c) (lk_trans_type c) (lk_time_type c)])
       @ row_views env v k lc tc qs (lead c1))"
    using adds_trans link_row_adds [OF s(1)] Cons.IH [OF s(2)] by blast
  then show ?case
    using link_row_adds [OF s(1)] Cons.IH [OF s(2)] by (simp add: lead_def rows_end_def)
qed (simp add: rows_end_def)

lemma autofill_adds:
  "autofill_loop v k fills end_time fill_start (e, c) = Inr (e', c') \<Longrightarrow>
   \<exists>placed. set placed \<subseteq> set fills \<and> adds e e' (fill_views v k placed (lead c))"
proof (induction v k fills end_time fill_start "(e, c)" arbitrary: e c rule: autofill_loop.induct)
  case (1 v k fills end_time fill_start e c)
  show ?case
  proof (cases "fill_start \<le> lk_time c \<and> find (fits end_time (lk_time c)) fills \<noteq> None")
    case False
    then have "e' = e" using 1(2) autofill_stop [of fill_start c end_time fills v k e] by simp
    then show ?thesis by (intro exI [of _ "[]"]) simp
  next
    case True
    then obtain r where r: "fill_start \<le> lk_time c" "find (fits end_time (lk_time c)) fills = Some r" by auto
    then have in_fills: "r \<in> set fills" by (auto simp: find_Some_iff)
    obtain e1 c1 where put: "put_line (fill_line v k (fst r)) (e, c) = Inr (e1, c1)"
      using 1(2) r by (auto simp: autofill_loop.simps [of v k fills end_time fill_start e c] split: sum.splits)
    note p = put_line_adds [where f = "fill_line v k (fst r)", OF put link_line_views(4)]
    let ?c2 = "c\<lparr>lk_next_id := lk_next_id c + 1, lk_time_type := Relative,
        lk_trans_type := event_default_transtype v, lk_grace_time := -1,
        lk_time := qtime_addMSecs (lk_time c) (snd r)\<rparr>"
    have "autofill_loop v k fills end_time fill_start (e1, ?c2) = Inr (e', c')"
      using 1(2) r put by (simp add: autofill_loop.simps [of v k fills end_time fill_start e c])
    then obtain placed where pl: "set placed \<subseteq> set fills" "adds e1 e' (fill_views v k placed (lead ?c2))"
      using 1(1) [OF r put] by auto
    then have "adds e e' (fill_views v k (r # placed) (lead c))"
      using adds_trans [OF conjunct2 [OF p] pl(2)] by (cases r) (simp add: lead_def)
    with pl(1) in_fills show ?thesis by (intro exI [of _ "r # placed"]) simp
  qed
qed

text \<open>No line has been added when nothing is in view.\<close>

lemma adds_new:
  assumes "adds e e' vs"
  obtains new where "log_lines e' = (if new = [] then log_lines e else closed_end (log_lines e)) @ new"
    "map line_view new = vs" "ids e' = ids e @ map log_id new"
proof -
  obtain new where n: "log_lines e' = (if new = [] then log_lines e else closed_end (log_lines e)) @ new"
      "map line_view new = vs" using assms by (auto simp: adds_def)
  have "map log_id (closed_end ls) = map log_id ls" for ls
    by (cases ls rule: rev_cases) (simp_all add: closed_end_def reset_trailing_def)
  with n that show ?thesis by (simp add: ids_def)
qed

text \<open>The autofill after the rows.\<close>

definition fill_up :: "sched_env \<Rightarrow> event_line \<Rightarrow> log_line \<Rightarrow> string \<Rightarrow> qtime \<Rightarrow> log_event \<times> link_cursor
    \<Rightarrow> (log_event \<times> link_cursor) res" where
  "fill_up env v link svc stop st = (case st of (e, c) \<Rightarrow>
     if event_use_autofill v \<and> event_start_time v \<le> lk_time c
     then autofill_loop v link (autofill_rows env svc (lk_time c) stop) stop (lk_time c) (e, c)
     else Inr (e, c))"

lemma fill_up_adds:
  assumes "next_id_ok (e, c)"
  shows "\<exists>e' c' placed. fill_up env v link svc stop (e, c) = Inr (e', c') \<and> grows (e, c) (e', c')
    \<and> set placed \<subseteq> set (env_autofills env svc) \<and> adds e e' (fill_views v link placed (lead c))
    \<and> (placed \<noteq> [] \<longrightarrow> event_use_autofill v \<and> event_start_time v \<le> fst (lead c))"
proof (cases "event_use_autofill v \<and> event_start_time v \<le> lk_time c")
  case True
  let ?fills = "autofill_rows env svc (lk_time c) stop"
  obtain e' c' where l: "autofill_loop v link ?fills stop (lk_time c) (e, c) = Inr (e', c')" "grows (e, c) (e', c')"
    using autofill_next_ids [OF assms, of v link ?fills stop "lk_time c"] by auto
  obtain placed where "set placed \<subseteq> set ?fills" "adds e e' (fill_views v link placed (lead c))"
    using autofill_adds [OF l(1)] by blast
  moreover have "set ?fills \<subseteq> set (env_autofills env svc)" by (auto simp: autofill_rows_def)
  ultimately show ?thesis
    using True l by (intro exI [of _ e'] exI [of _ c'] exI [of _ placed]) (auto simp: fill_up_def lead_def)
next
  case False
  then show ?thesis
    using grows_refl [OF assms]
    by (intro exI [of _ e] exI [of _ c] exI [of _ "[]"]) (auto simp: fill_up_def)
qed

section \<open>Properties\<close>

text \<open>C27: Linking imported events into a log, with a next ID above every ID of the log, never
  faults. Every line of the log is left as it is, except that the last one loses its custom end
  when lines follow it. Behind them come, in the order of the import table, the lines of the
  unused events of the link's window: for each its break and its voice track in the order the
  event asks for, when it asks for them, and then the cart, label or track of the event itself,
  all with the source of the event and the data of the link, each event starting where the
  previous one ends and only the first with the transition and time type of the link. They are
  followed by carts of the autofill list of the service, back to back, if the event uses
  autofill and its start time has been reached, and by nothing else. All IDs of the log are
  distinct and its old lines keep theirs. The events of the window, and no others, are marked as
  used in the import table.\<close>

theorem linkLog_appends:
  assumes "distinct (ids e)" "\<forall>i \<in> set (ids e). i < next_id"
  shows "\<exists>e' imports' errors' new placed. RDEventLine_linkLog env v e next_id svc link lc tc imports errors
      = Inr (e', imports', errors')
    \<and> (let rows = filter (in_window link) imports;
           start = (log_start_time link Logged, log_trans_type link, log_time_type link);
           stop = rows_end env v rows start
       in log_lines e' = (if new = [] then log_lines e else closed_end (log_lines e)) @ new
         \<and> map line_view new = row_views env v link lc tc rows start @ fill_views v link placed stop
         \<and> set placed \<subseteq> set (env_autofills env svc)
         \<and> (placed \<noteq> [] \<longrightarrow> event_use_autofill v \<and> event_start_time v \<le> fst stop))
    \<and> ids e' = ids e @ map log_id new \<and> distinct (ids e')
    \<and> imports' = map (\<lambda>q. if in_window link q then q\<lparr>IR_EVENT_USED := ''Y''\<rparr> else q) imports"
proof -
  define c0 where "c0 = \<lparr>lk_time = log_start_time link Logged, lk_time_type = log_time_type link,
                lk_trans_type = log_trans_type link, lk_grace_time = log_grace_time link,
                lk_next_id = next_id\<rparr>"
  define stop where "stop = qtime_addMSecs (log_start_time link Logged) (log_link_length (log_link link))"
  define rows where "rows = filter (in_window link) imports"
  have ok: "next_id_ok (e, c0)" using assms by (simp add: next_id_ok_def c0_def)
  obtain e1 c1 where 1: "link_rows env v link lc tc rows (e, c0) = Inr (e1, c1)" "grows (e, c0) (e1, c1)"
    using link_rows_grows [OF ok, of env v link lc tc rows] by auto
  obtain e2 c2 placed where 2: "fill_up env v link svc stop (e1, c1) = Inr (e2, c2)" "grows (e1, c1) (e2, c2)"
      "set placed \<subseteq> set (env_autofills env svc)" "adds e1 e2 (fill_views v link placed (lead c1))"
      "placed \<noteq> [] \<longrightarrow> event_use_autofill v \<and> event_start_time v \<le> fst (lead c1)"
    using fill_up_adds [OF grows_ok [OF 1(2)]] by blast
  have lead0: "lead c0 = (log_start_time link Logged, log_trans_type link, log_time_type link)"
    by (simp add: lead_def c0_def)
  note rows = link_rows_adds [OF 1(1)]
  obtain new where new: "log_lines e2 = (if new = [] then log_lines e else closed_end (log_lines e)) @ new"
      "map line_view new = row_views env v link lc tc rows (lead c0) @ fill_views v link placed (lead c1)"
      "ids e2 = ids e @ map log_id new"
    using adds_new [OF adds_trans [OF conjunct1 [OF rows] 2(4)]] by blast
  have "distinct (ids e2)" using grows_trans [OF 1(2) 2(2)] by (simp add: grows_def next_id_ok_def)
  moreover have "RDEventLine_linkLog env v e next_id svc link lc tc imports errors = Inr (e2,
      map (\<lambda>q. if in_window link q then q\<lparr>IR_EVENT_USED := ''Y''\<rparr> else q) imports,
      fill_check v stop (lk_time c2) errors)"
    unfolding RDEventLine_linkLog_def Let_def c0_def [symmetric] stop_def [symmetric] rows_def [symmetric]
      1(1) res_bind_simps prod.case
    using 2(1) unfolding fill_up_def prod.case by simp
  moreover have R: "lead c1 = rows_end env v rows (lead c0)" using rows by simp
  ultimately show ?thesis
    using new 2(3,5) unfolding Let_def rows_def [symmetric] lead0 [symmetric] R [symmetric]
    by (intro exI [of _ e2] exI [of _ new] exI [of _ placed] exI conjI) (assumption | rule refl)+
qed

definition sample_import :: import_row where
  "sample_import = \<lparr>IR_CART_NUMBER = 55, IR_START_HOUR = 0, IR_START_SECS = 0, IR_LENGTH = 30000,
     IR_EXT_DATA = ''D'', IR_EXT_EVENT_ID = '''', IR_EXT_ANNC_TYPE = '''', IR_EXT_CART_NAME = ''055'',
     IR_INSERT_BREAK = ''N'', IR_INSERT_TRACK = ''Y'', IR_INSERT_FIRST = InsertBreak,
     IR_TITLE = ''T'', IR_TRACK_STRING = ''VT'', IR_EVENT_USED = ''N''\<rparr>"

theorem linkLog_appends_witness:
  "\<exists>e' im er new. RDEventLine_linkLog sample_env new_event_line (event_ids [4, 7]) 8 ''S'' new_log_line
     '''' '''' [sample_import, sample_import\<lparr>IR_START_HOUR := 7\<rparr>] [] = Inr (e', im, er)
   \<and> map (\<lambda>l. (log_type l, log_cart_number l)) new = [(Track, 0), (Cart, 55)]
   \<and> log_lines e' = closed_end (log_lines (event_ids [4, 7])) @ new \<and> map IR_EVENT_USED im = [''Y'', ''N'']"
proof -
  let ?ims = "[sample_import, sample_import\<lparr>IR_START_HOUR := 7\<rparr>]"
  have win: "in_window new_log_line sample_import" "\<not> in_window new_log_line (sample_import\<lparr>IR_START_HOUR := 7\<rparr>)"
    by (simp_all add: in_window_def sample_import_def link_window_def trunc_div_def Let_def cleared_link_def
        qtime_hour_def qtime_minute_def qtime_second_def qtime_addMSecs_def)
  have auto_off: "\<not> event_use_autofill new_event_line" by (simp add: new_event_line_def)
  obtain e' im er new placed where w:
      "RDEventLine_linkLog sample_env new_event_line (event_ids [4, 7]) 8 ''S'' new_log_line '''' '''' ?ims []
        = Inr (e', im, er)"
      "log_lines e' = (if new = [] then log_lines (event_ids [4, 7]) else closed_end (log_lines (event_ids [4, 7]))) @ new"
      "map line_view new = row_views sample_env new_event_line new_log_line '''' '''' [sample_import]
         (log_start_time new_log_line Logged, log_trans_type new_log_line, log_time_type new_log_line)"
      "im = map (\<lambda>q. if in_window new_log_line q then q\<lparr>IR_EVENT_USED := ''Y''\<rparr> else q) ?ims"
    using linkLog_appends [of "event_ids [4, 7]" 8 sample_env new_event_line "''S''" new_log_line
        "''''" "''''" ?ims "[]"] win auto_off
    by (auto simp: Let_def)
  have "map (\<lambda>l. (log_type l, log_cart_number l)) new = map (\<lambda>x. (vw_type x, vw_cart x)) (map line_view new)"
    by (simp add: line_view_def)
  also have "\<dots> = [(Track, 0), (Cart, 55)]"
    unfolding w(3) by (simp add: row_extras_def break_views_def track_views_def row_main_def added_view_def
        sample_import_def)
  finally have v: "map (\<lambda>l. (log_type l, log_cart_number l)) new = [(Track, 0), (Cart, 55)]" .
  then have "log_lines e' = closed_end (log_lines (event_ids [4, 7])) @ new" using w(2) by auto
  moreover have "map IR_EVENT_USED im = [''Y'', ''N'']" using w(4) win by (simp add: sample_import_def)
  ultimately show ?thesis using w(1) v by (intro exI conjI)
qed

text \<open>The carts placed by the autofill, one line each, in the order of the log.\<close>

text \<open>C26: The autofill loop terminates without a fault. It places a sequence of autofill carts
  back to back from the current time, never past the end of the link, adds one line per cart
  with its number, and stops only when no autofill cart fits in the time that is left.\<close>

theorem autofill_greedy:
  assumes "qtime_ok (lk_time c)" "lk_time c \<le> end_time" "fill_start \<le> lk_time c"
  shows "\<exists>e' c' placed. autofill_loop v link fills end_time fill_start (e, c) = Inr (e', c')
    \<and> set placed \<subseteq> set fills
    \<and> map log_cart_number (log_lines e') = map log_cart_number (log_lines e) @ map fst placed
    \<and> lk_time c' \<le> end_time \<and> lk_time c' = qtime_addMSecs (lk_time c) (sum_list (map snd placed))
    \<and> (\<forall>r \<in> set fills. \<not> fits end_time (lk_time c') r)"
  using assms
proof (induction v link fills end_time fill_start "(e, c)" arbitrary: e c rule: autofill_loop.induct)
  case (1 v link fills end_time fill_start e c)
  show ?case
  proof (cases "find (fits end_time (lk_time c)) fills")
    case None
    then show ?thesis
      using 1(2-4) by (intro exI [of _ e] exI [of _ c] exI [of _ "[]"])
        (auto simp: autofill_stop find_None_iff qtime_addMSecs_def qtime_ok_def)
  next
    case (Some r)
    then have r: "fits end_time (lk_time c) r" "r \<in> set fills"
      by (auto simp: find_Some_iff)
    let ?c1 = "c\<lparr>lk_next_id := lk_next_id c + 1, lk_time_type := Relative,
        lk_trans_type := event_default_transtype v, lk_grace_time := -1,
        lk_time := qtime_addMSecs (lk_time c) (snd r)\<rparr>"
    obtain e1 where e1: "put_line (fill_line v link (fst r)) (e, c)
          = Inr (e1, c\<lparr>lk_next_id := lk_next_id c + 1\<rparr>)"
        "map log_cart_number (log_lines e1) = map log_cart_number (log_lines e) @ [fst r]"
      using put_line_ok [of log_cart_number "fill_line v link (fst r)" c "fst r" e]
      by (auto simp: fill_line_def)
    obtain e' c' placed where IH:
        "autofill_loop v link fills end_time fill_start (e1, ?c1) = Inr (e', c')"
        "set placed \<subseteq> set fills"
        "map log_cart_number (log_lines e') = map log_cart_number (log_lines e1) @ map fst placed"
        "lk_time c' \<le> end_time" "lk_time c' = qtime_addMSecs (lk_time ?c1) (sum_list (map snd placed))"
        "\<forall>r \<in> set fills. \<not> fits end_time (lk_time c') r"
      using 1(1) [OF 1(4) Some e1(1)] 1(2-4) r(1) by (auto simp: fits_def)
    show ?thesis
      by (intro exI [of _ e'] exI [of _ c'] exI [of _ "r # placed"])
        (use IH Some e1 r 1(4) in \<open>auto simp: autofill_loop.simps [of v link fills end_time fill_start e c]
          qtime_addMSecs_add\<close>)
  qed
qed

definition sample_cursor :: link_cursor where
  "sample_cursor = \<lparr>lk_time = 3600000, lk_time_type = Relative, lk_trans_type = Segue,
     lk_grace_time = -1, lk_next_id = 8\<rparr>"

theorem autofill_greedy_witness:
  "res_ok (autofill_loop new_event_line new_log_line [(20, 30000), (21, 10000)] 3650000 3600000
     (event_ids [4, 7], sample_cursor))"
  using autofill_greedy [of sample_cursor 3650000 3600000 new_event_line new_log_line
      "[(20, 30000), (21, 10000)]" "event_ids [4, 7]"]
  by (auto simp: sample_cursor_def qtime_ok_def msecs_per_day_def)

end
