(* ===== verification/Rml_Macro.thy ===== *)
theory Rml_Macro
  imports Qt_String
begin

text \<open>
  A Rivendell Macro Language command, \<open>RDMacro\<close> of \<open>lib/rdmacro.h\<close> and \<open>lib/rdmacro.cpp\<close>: the
  message every Rivendell process exchanges with \<open>ripcd\<close>. The text form is a two-letter
  mnemonic, blank-separated arguments and a final \<open>!\<close>; quotes and a backslash protect blanks and
  \<open>!\<close> in an argument. The argument array has \<open>RD_RML_MAX_ARGS\<close> entries and the buffer an
  argument is collected in has \<open>RD_RML_MAX_LENGTH\<close> bytes; a store outside either is a fault.
\<close>

definition RD_RML_MAX_ARGS :: nat where "RD_RML_MAX_ARGS = 100"
definition RD_RML_MAX_LENGTH :: nat where "RD_RML_MAX_LENGTH = 2048"
definition RD_RML_NOECHO_PORT :: int where "RD_RML_NOECHO_PORT = 5859"

text \<open>The variants an argument holds: \<open>toString\<close> and \<open>toUInt\<close> of \<open>QVariant\<close>.\<close>

datatype qvariant = QInvalid | QText string | QNumber int

fun qv_toString :: "qvariant \<Rightarrow> string" where
  "qv_toString QInvalid = []"
| "qv_toString (QText s) = s"
| "qv_toString (QNumber i) = string_of_int i"

fun qv_toUInt :: "qvariant \<Rightarrow> nat" where
  "qv_toUInt QInvalid = 0"
| "qv_toUInt (QText s) = toUInt0 s"
| "qv_toUInt (QNumber i) = nat (i mod 2 ^ 32)"

fun qv_toInt :: "qvariant \<Rightarrow> int" where
  "qv_toInt QInvalid = 0"
| "qv_toInt (QText s) = toInt0 s"
| "qv_toInt (QNumber i) = i"

text \<open>\<open>Command\<close> values are integers, because \<open>parseString\<close> casts any two characters to one.\<close>

type_synonym command = int

definition NN :: command where "NN = 0x4E4E"
definition SP :: command where "SP = 0x5350"
definition CC :: command where "CC = 0x4343"

datatype role = RoleInvalid | RoleCmd | RoleReply

record rdmacro =
  rml_role :: role
  rml_cmd :: command
  rml_addr :: string
  rml_port :: int
  rml_echo_requested :: bool
  rml_arg :: "qvariant list"
  rml_arg_quantity :: int

definition RDMacro_clear :: "rdmacro \<Rightarrow> rdmacro" where
  "RDMacro_clear m = m\<lparr>rml_role := RoleInvalid, rml_cmd := NN, rml_addr := [],
     rml_port := RD_RML_NOECHO_PORT, rml_echo_requested := False,
     rml_arg := replicate RD_RML_MAX_ARGS QInvalid, rml_arg_quantity := 0\<rparr>"

definition new_rdmacro :: rdmacro where
  "new_rdmacro = \<lparr>rml_role = RoleInvalid, rml_cmd = NN, rml_addr = [], rml_port = RD_RML_NOECHO_PORT,
     rml_echo_requested = False, rml_arg = replicate RD_RML_MAX_ARGS QInvalid, rml_arg_quantity = 0\<rparr>"

definition RDMacro_arg :: "int \<Rightarrow> rdmacro \<Rightarrow> qvariant res" where
  "RDMacro_arg n m = (if n \<ge> int RD_RML_MAX_ARGS then Inr QInvalid else vec_get (rml_arg m) n)"

definition RDMacro_setArg :: "int \<Rightarrow> qvariant \<Rightarrow> rdmacro \<Rightarrow> rdmacro res" where
  "RDMacro_setArg n v m = (if n \<ge> int RD_RML_MAX_ARGS then Inr m
     else res_bind (vec_mod (\<lambda>_. v) n (rml_arg m)) (\<lambda>as. Inr (m\<lparr>rml_arg := as\<rparr>)))"

definition RDMacro_setArgQuantity :: "int \<Rightarrow> rdmacro \<Rightarrow> rdmacro" where
  "RDMacro_setArgQuantity n m = m\<lparr>rml_arg_quantity := n\<rparr>"

definition RDMacro_acknowledge :: "bool \<Rightarrow> rdmacro \<Rightarrow> rdmacro res" where
  "RDMacro_acknowledge st m =
     (let m1 = m\<lparr>rml_role := RoleReply\<rparr>; q = rml_arg_quantity m1
      in if q < int RD_RML_MAX_ARGS
         then res_bind (vec_mod (\<lambda>_. QText (if st then ''+'' else ''-'')) q (rml_arg m1))
                (\<lambda>as. Inr (m1\<lparr>rml_arg := as, rml_arg_quantity := q + 1\<rparr>))
         else Inr m1)"

text \<open>The loop \<open>for(int i=n;i<rml_arg_quantity;i++)\<close>, by the number of arguments left. The
  conversion of \<open>length()-1\<close> to unsigned makes \<open>right\<close> return an empty string whole.\<close>

fun rollup_loop :: "nat \<Rightarrow> int \<Rightarrow> rdmacro \<Rightarrow> string \<Rightarrow> string res" where
  "rollup_loop 0 i m str = Inr str"
| "rollup_loop (Suc k) i m str =
     res_bind (vec_get (rml_arg m) i) (\<lambda>a. rollup_loop k (i + 1) m (str @ '' '' @ qv_toString a))"

definition RDMacro_rollupArgs :: "int \<Rightarrow> rdmacro \<Rightarrow> string res" where
  "RDMacro_rollupArgs n m =
     res_bind (rollup_loop (nat (rml_arg_quantity m - n)) n m [])
       (\<lambda>str. Inr (if str = [] then str else qs_right (length str - 1) str))"

section \<open>Parsing\<close>

definition schar :: "char \<Rightarrow> int" where
  "schar c = (if (of_char c :: int) < 128 then of_char c else of_char c - 256)"

definition command_of :: "char \<Rightarrow> char \<Rightarrow> command" where
  "command_of a b = schar a * 256 + schar b"

definition parsed_commands :: "command list" where
  "parsed_commands =
     [0x414C, 0x424F, 0x4343, 0x434C, 0x4442, 0x444C, 0x4450, 0x4453, 0x4458, 0x4558, 0x4653, 0x4745,
      0x4749, 0x474F, 0x4A43, 0x4A44, 0x4C42, 0x4C43, 0x4C4C, 0x4C4F, 0x4D42, 0x4D44, 0x4D4E, 0x4D54,
      0x4E4E, 0x5042, 0x5043, 0x5045, 0x504C, 0x504D, 0x504E, 0x5050, 0x5053, 0x5054, 0x5055, 0x5057,
      0x5058, 0x524C, 0x5253, 0x5252, 0x524E, 0x534E, 0x5354, 0x5341, 0x5343, 0x5344, 0x5347, 0x5349,
      0x534F, 0x5350, 0x5352, 0x534C, 0x5358, 0x5359, 0x535A, 0x5441, 0x554F, 0x5044]"

definition is_blank :: "char \<Rightarrow> bool" where
  "is_blank c \<longleftrightarrow> c = CHR '' '' \<or> c = CHR 0x09"

definition is_quote :: "char \<Rightarrow> bool" where
  "is_quote c \<longleftrightarrow> c = CHR 0x22 \<or> c = CHR 0x27"

text \<open>A C string ends at its first NUL.\<close>

definition cstr :: "string \<Rightarrow> string" where
  "cstr s = takeWhile (\<lambda>c. c \<noteq> CHR 0x00) s"

definition fail_parse :: "rdmacro \<Rightarrow> rdmacro" where
  "fail_parse m = m\<lparr>rml_arg_quantity := 0, rml_cmd := NN, rml_arg := replicate RD_RML_MAX_ARGS QInvalid\<rparr>"

text \<open>\<open>arg[argptr]=c\<close>, where \<open>argptr\<close> is the number of bytes collected, and
  \<open>arg[argptr]=0; rml_arg[argnum]=QVariant(QString(arg))\<close>.\<close>

definition put_byte :: "char \<Rightarrow> string \<Rightarrow> string res" where
  "put_byte c arg = (if length arg < RD_RML_MAX_LENGTH then Inr (arg @ [c]) else Inl OutOfRange)"

definition put_arg :: "nat \<Rightarrow> string \<Rightarrow> rdmacro \<Rightarrow> rdmacro res" where
  "put_arg argnum arg m =
     (if length arg < RD_RML_MAX_LENGTH
      then res_bind (vec_mod (\<lambda>_. QText (cstr arg)) (int argnum) (rml_arg m))
             (\<lambda>as. Inr (m\<lparr>rml_arg := as\<rparr>))
      else Inl OutOfRange)"

text \<open>The argument loop on the \<open>k\<close> characters left: \<open>q\<close> and \<open>e\<close> are \<open>quoted\<close> and \<open>escaped\<close>.\<close>

fun parse_loop :: "nat \<Rightarrow> string \<Rightarrow> bool \<Rightarrow> bool \<Rightarrow> nat \<Rightarrow> string \<Rightarrow> rdmacro \<Rightarrow> (bool \<times> rdmacro) res" where
  "parse_loop 0 cs q e argnum arg m = Inr (False, fail_parse m)"
| "parse_loop (Suc k) [] q e argnum arg m = Inl OutOfRange"
| "parse_loop (Suc k) (c # cs) q e argnum arg m =
     (let next = (\<lambda>q e argnum arg m.
            if argnum \<ge> RD_RML_MAX_ARGS \<or> length arg \<ge> RD_RML_MAX_LENGTH then Inr (False, fail_parse m)
            else parse_loop k cs q e argnum arg m)
      in if q \<or> e
         then res_bind (put_byte c arg) (\<lambda>arg. next (q \<and> \<not> is_quote c) False argnum arg m)
         else if c = CHR '' '' then res_bind (put_arg argnum arg m) (\<lambda>m. next q e (argnum + 1) [] m)
         else if c = CHR ''!'' then res_bind (put_arg argnum arg m)
           (\<lambda>m. Inr (True, m\<lparr>rml_arg_quantity := int (argnum + 1)\<rparr>))
         else if c = CHR 0x5C then next q True argnum arg m
         else res_bind (put_byte c arg) (\<lambda>arg. next (is_quote c) e argnum arg m))"

definition RDMacro_parseString :: "string \<Rightarrow> int \<Rightarrow> rdmacro \<Rightarrow> (bool \<times> rdmacro) res" where
  "RDMacro_parseString str n m =
     (if n < 3 then Inr (False, m)
      else res_bind (vec_get str 0) (\<lambda>c0. res_bind (vec_get str 1) (\<lambda>c1.
        let m1 = m\<lparr>rml_cmd := command_of c0 c1\<rparr>
        in if rml_cmd m1 \<notin> set parsed_commands then Inr (False, m1)
           else res_bind (vec_get str 2) (\<lambda>c2.
             if c2 = CHR ''!'' then Inr (True, m1\<lparr>rml_arg_quantity := 0\<rparr>)
             else if \<not> is_blank c2 then Inr (False, m1\<lparr>rml_arg_quantity := 0, rml_cmd := NN\<rparr>)
             else parse_loop (nat n - 3) (drop 3 str) False False 0 [] m1))))"

section \<open>Printing\<close>

text \<open>The arguments the loops of \<open>generateString\<close> read; the buffer holds a C string.\<close>

definition args_of :: "rdmacro \<Rightarrow> string list res" where
  "args_of m = (if rml_arg_quantity m \<le> int (length (rml_arg m))
     then Inr (map qv_toString (take (nat (rml_arg_quantity m)) (rml_arg m))) else Inl OutOfRange)"

definition RDMacro_generateString :: "string \<Rightarrow> int \<Rightarrow> rdmacro \<Rightarrow> (int \<times> string) res" where
  "RDMacro_generateString buf n m =
     res_bind (args_of m) (\<lambda>as.
       let len = 3 + (\<Sum>a\<leftarrow>as. int (length a) + 1)
       in if len \<ge> n then Inr (-1, buf)
          else Inr (len, cstr [char_of (rml_cmd m div 256), char_of (rml_cmd m mod 256)]
                 @ concat (map (\<lambda>a. '' '' @ cstr a) as) @ ''!''))"

definition RDMacro_length :: "rdmacro \<Rightarrow> nat res" where
  "RDMacro_length m =
     (if rml_cmd m = SP \<and> rml_arg_quantity m = 1
      then res_bind (vec_get (rml_arg m) 0) (\<lambda>a. Inr (qv_toUInt a)) else Inr 0)"

section \<open>The array invariant\<close>

definition macro_ok :: "rdmacro \<Rightarrow> bool" where
  "macro_ok m \<longleftrightarrow> length (rml_arg m) = RD_RML_MAX_ARGS"

lemma macro_ok_simps [simp]:
  "macro_ok new_rdmacro" "macro_ok (RDMacro_clear m)" "macro_ok (fail_parse m)"
  "macro_ok (m\<lparr>rml_cmd := c\<rparr>) = macro_ok m" "macro_ok (m\<lparr>rml_arg_quantity := q\<rparr>) = macro_ok m"
  "macro_ok (m\<lparr>rml_role := r\<rparr>) = macro_ok m" "macro_ok (m\<lparr>rml_addr := ad\<rparr>) = macro_ok m"
  "macro_ok (m\<lparr>rml_echo_requested := b\<rparr>) = macro_ok m" "macro_ok (m\<lparr>rml_port := p\<rparr>) = macro_ok m"
  by (simp_all add: macro_ok_def new_rdmacro_def RDMacro_clear_def fail_parse_def)

lemma put_byte_ok: "length arg < RD_RML_MAX_LENGTH \<Longrightarrow> put_byte c arg = Inr (arg @ [c])"
  by (simp add: put_byte_def)

lemma put_arg_ok:
  assumes "macro_ok m" "argnum < RD_RML_MAX_ARGS" "length arg < RD_RML_MAX_LENGTH"
  shows "put_arg argnum arg m = Inr (m\<lparr>rml_arg := (rml_arg m)[argnum := QText (cstr arg)]\<rparr>)"
    "macro_ok (m\<lparr>rml_arg := (rml_arg m)[argnum := QText (cstr arg)]\<rparr>)"
  using assms by (simp_all add: put_arg_def macro_ok_def)

definition parse_post :: "command \<Rightarrow> bool \<Rightarrow> rdmacro \<Rightarrow> bool" where
  "parse_post cmd b m \<longleftrightarrow> macro_ok m \<and> 0 \<le> rml_arg_quantity m \<and> rml_arg_quantity m \<le> int RD_RML_MAX_ARGS
     \<and> (if b then rml_cmd m = cmd
        else rml_cmd m = NN \<and> rml_arg_quantity m = 0 \<and> set (rml_arg m) \<subseteq> {QInvalid})"

lemma parse_post_fail [simp]: "parse_post cmd False (fail_parse m)"
  by (simp add: parse_post_def) (simp add: fail_parse_def set_replicate_conv_if)

lemma ex_not: "(\<exists>b. \<not> b \<and> P b) \<longleftrightarrow> P False" "(\<exists>b. b \<and> P b) \<longleftrightarrow> P True"
  by (metis (full_types))+

lemma parse_loop_safe:
  assumes "argnum < RD_RML_MAX_ARGS" "length arg < RD_RML_MAX_LENGTH" "macro_ok m" "k \<le> length cs"
  shows "\<exists>b m'. parse_loop k cs q e argnum arg m = Inr (b, m') \<and> parse_post (rml_cmd m) b m'"
  using assms
proof (induction k cs q e argnum arg m rule: parse_loop.induct)
  case (1 cs q e argnum arg m)
  show ?case using parse_post_fail by (auto intro!: exI [of _ False])
next
  case (2 k q e argnum arg m)
  then show ?case by simp
next
  case (3 k c cs q e argnum arg m)
  let ?m = "m\<lparr>rml_arg := (rml_arg m)[argnum := QText (cstr arg)]\<rparr>"
  note put = put_byte_ok [OF 3(3)] put_arg_ok [OF 3(4,2,3)]
  have IH: "\<exists>b m''. (if argnum' \<ge> RD_RML_MAX_ARGS \<or> length arg' \<ge> RD_RML_MAX_LENGTH
        then Inr (False, fail_parse m') else parse_loop k cs q' e' argnum' arg' m') = Inr (b, m'')
      \<and> parse_post (rml_cmd m') b m''" if "macro_ok m'" for argnum' arg' m' q' e'
    using 3(1) [of argnum' arg' m' q' e'] that 3(5) by (auto simp: not_le intro!: exI [of _ False])
  let ?m = "m\<lparr>rml_arg := (rml_arg m)[argnum := QText (cstr arg)]\<rparr>"
  consider "q \<or> e" | "\<not> (q \<or> e)" "c = CHR '' ''" | "\<not> (q \<or> e)" "c = CHR ''!''"
    | "\<not> (q \<or> e)" "c = CHR 0x5C" | "\<not> (q \<or> e)" "c \<noteq> CHR '' ''" "c \<noteq> CHR ''!''" "c \<noteq> CHR 0x5C"
    by blast
  then show ?case
  proof cases
    case 1
    then show ?thesis using IH [OF 3(4), of argnum "arg @ [c]"] by (simp add: put(1) Let_def)
  next
    case 2
    then show ?thesis using IH [OF put(3), of "Suc argnum" "[]" False False]
      by (simp add: put(2) Let_def ex_not split: if_split_asm)
  next
    case 3
    then show ?thesis using put(3) \<open>argnum < RD_RML_MAX_ARGS\<close> by (auto simp: put(2) Let_def parse_post_def)
  next
    case 4
    then show ?thesis using IH [OF \<open>macro_ok m\<close>, of argnum arg] by (simp add: Let_def)
  next
    case 5
    then show ?thesis using IH [OF \<open>macro_ok m\<close>, of argnum "arg @ [c]"] by (simp add: put(1) Let_def)
  qed
qed

section \<open>Parsing what was printed\<close>
section \<open>Parsing what was printed\<close>
section \<open>Parsing what was printed\<close>

text \<open>An argument text the scanner takes whole: outside quotes no blank, \<open>!\<close> or backslash, every
  quote closed, no NUL.\<close>

fun scanned :: "bool \<Rightarrow> string \<Rightarrow> bool" where
  "scanned q [] = (\<not> q)"
| "scanned q (c # cs) = (c \<noteq> CHR 0x00 \<and>
     (if q then scanned (\<not> is_quote c) cs
      else c \<noteq> CHR '' '' \<and> c \<noteq> CHR ''!'' \<and> c \<noteq> CHR 0x5C \<and> scanned (is_quote c) cs))"

lemma scanned_cstr: "scanned q s \<Longrightarrow> cstr s = s"
  unfolding cstr_def by (induction q s rule: scanned.induct) (auto split: if_splits)

lemma parse_scanned:
  assumes "scanned q a" "argnum < RD_RML_MAX_ARGS" "length arg + length a < RD_RML_MAX_LENGTH"
  shows "parse_loop (length a + k) (a @ cs) q False argnum arg m
    = parse_loop k cs False False argnum (arg @ a) m"
  using assms
proof (induction q a arbitrary: arg rule: scanned.induct)
  case (1 q)
  then show ?case by simp
next
  case (2 q c as)
  have put: "put_byte c arg = Inr (arg @ [c])" using 2 by (intro put_byte_ok) simp
  show ?case
  proof (cases q)
    case True
    then show ?thesis using 2(1) [of "arg @ [c]"] 2(3-5) put by (simp add: Let_def)
  next
    case False
    then show ?thesis using 2(2) [of "arg @ [c]"] 2(3-5) put by (simp add: Let_def)
  qed
qed

fun join_args :: "string list \<Rightarrow> string" where
  "join_args [] = ''!''"
| "join_args [a] = a @ ''!''"
| "join_args (a # as) = a @ '' '' @ join_args as"

lemma join_args_concat: "as \<noteq> [] \<Longrightarrow> concat (map (\<lambda>a. '' '' @ a) as) @ ''!'' = '' '' @ join_args as"
  by (induction as rule: join_args.induct) auto

definition store_args :: "nat \<Rightarrow> string list \<Rightarrow> rdmacro \<Rightarrow> rdmacro" where
  "store_args n as m = m\<lparr>rml_arg := take n (rml_arg m) @ map QText as @ drop (n + length as) (rml_arg m)\<rparr>"

lemma store_args_Cons:
  assumes "n + length (a # as) \<le> length (rml_arg m)"
  shows "store_args (n + 1) as (m\<lparr>rml_arg := (rml_arg m)[n := QText a]\<rparr>) = store_args n (a # as) m"
  using assms by (simp add: store_args_def take_Suc_conv_app_nth upd_conv_take_nth_drop add.commute)

lemma parse_join:
  assumes "as \<noteq> []" "list_all (\<lambda>a. scanned False a \<and> length a < RD_RML_MAX_LENGTH) as"
    "argnum + length as \<le> RD_RML_MAX_ARGS" "macro_ok m"
  shows "parse_loop (length (join_args as)) (join_args as) False False argnum [] m
    = Inr (True, (store_args argnum as m)\<lparr>rml_arg_quantity := int (argnum + length as)\<rparr>)"
  using assms
proof (induction as arbitrary: argnum m rule: join_args.induct)
  case 1
  then show ?case by simp
next
  case (2 a)
  then have lt: "argnum < RD_RML_MAX_ARGS" and a: "scanned False a" "length a < RD_RML_MAX_LENGTH" by auto
  note put = put_arg_ok [OF 2(4) lt a(2)]
  have "parse_loop (length (join_args [a])) (join_args [a]) False False argnum [] m
      = parse_loop 1 ''!'' False False argnum a m"
    using parse_scanned [OF a(1) lt, of "[]" 1 "''!''" m] a(2) by simp
  moreover have "store_args argnum [a] m = m\<lparr>rml_arg := (rml_arg m)[argnum := QText a]\<rparr>"
    using 2(3,4) by (simp add: store_args_def macro_ok_def upd_conv_take_nth_drop)
  ultimately show ?case using put(1) scanned_cstr [OF a(1)] by (simp add: Let_def)
next
  case (3 a b as)
  then have lt: "argnum + 1 < RD_RML_MAX_ARGS" and a: "scanned False a" "length a < RD_RML_MAX_LENGTH" by auto
  have lt': "argnum < RD_RML_MAX_ARGS" using lt by simp
  let ?m = "m\<lparr>rml_arg := (rml_arg m)[argnum := QText a]\<rparr>"
  note put = put_arg_ok [OF 3(5) lt' a(2)]
  have "parse_loop (length (join_args (a # b # as))) (join_args (a # b # as)) False False argnum [] m
      = parse_loop (Suc (length (join_args (b # as)))) (CHR '' '' # join_args (b # as)) False False argnum a m"
    using parse_scanned [OF a(1) lt', of "[]" "Suc (length (join_args (b # as)))"
        "CHR '' '' # join_args (b # as)" m] a(2) by simp
  also have "\<dots> = parse_loop (length (join_args (b # as))) (join_args (b # as)) False False (argnum + 1) [] ?m"
    using put(1) scanned_cstr [OF a(1)] lt by (simp add: Let_def RD_RML_MAX_LENGTH_def)
  also have "\<dots> = Inr (True, (store_args (argnum + 1) (b # as) ?m)
      \<lparr>rml_arg_quantity := int (argnum + 1 + length (b # as))\<rparr>)"
    by (rule "3.IH") (use 3(2-5) put(2) scanned_cstr [OF a(1)] in auto)
  also have "store_args (argnum + 1) (b # as) ?m = store_args argnum (a # b # as) m"
    using 3(4,5) by (intro store_args_Cons) (simp add: macro_ok_def)
  finally show ?case by (simp add: add.assoc)
qed

text \<open>A message whose text form is complete: a known command and arguments the scanner takes
  whole, each shorter than the buffer.\<close>

definition plain_macro :: "rdmacro \<Rightarrow> bool" where
  "plain_macro m \<longleftrightarrow> macro_ok m \<and> rml_cmd m \<in> set parsed_commands
     \<and> 0 \<le> rml_arg_quantity m \<and> rml_arg_quantity m \<le> int RD_RML_MAX_ARGS
     \<and> list_all (\<lambda>a. scanned False (qv_toString a) \<and> length (qv_toString a) < RD_RML_MAX_LENGTH)
         (take (nat (rml_arg_quantity m)) (rml_arg m))"

definition macro_texts :: "rdmacro \<Rightarrow> string list" where
  "macro_texts m = map qv_toString (take (nat (rml_arg_quantity m)) (rml_arg m))"

definition macro_text :: "rdmacro \<Rightarrow> string" where
  "macro_text m = [char_of (rml_cmd m div 256), char_of (rml_cmd m mod 256)]
     @ concat (map (\<lambda>a. '' '' @ a) (macro_texts m)) @ ''!''"

definition mnemonic_ok :: "command \<Rightarrow> bool" where
  "mnemonic_ok c \<longleftrightarrow> command_of (char_of (c div 256)) (char_of (c mod 256)) = c
     \<and> cstr [char_of (c div 256), char_of (c mod 256)] = [char_of (c div 256), char_of (c mod 256)]"

lemma mnemonics: "list_all mnemonic_ok parsed_commands"
  by code_simp

lemma mnemonic:
  assumes "c \<in> set parsed_commands"
  shows "command_of (char_of (c div 256)) (char_of (c mod 256)) = c"
    "cstr [char_of (c div 256), char_of (c mod 256)] = [char_of (c div 256), char_of (c mod 256)]"
  using mnemonics assms by (auto simp: list_all_iff mnemonic_ok_def)

lemma map_id_on: "list_all (\<lambda>a. f a = a) as \<Longrightarrow> map f as = as"
  by (induction as) auto

lemma joined_length:
  "(\<Sum>a\<leftarrow>as. int (length a) + 1) = int (length (concat (map (\<lambda>a. '' '' @ a) as)))"
  by (induction as) simp_all

lemma generate_plain:
  assumes "plain_macro m"
  shows "RDMacro_generateString buf n m =
    Inr (if int (length (macro_text m)) \<ge> n then (-1, buf) else (int (length (macro_text m)), macro_text m))"
proof -
  let ?as = "macro_texts m"
  have known: "rml_cmd m \<in> set parsed_commands" using assms by (simp add: plain_macro_def)
  have args: "args_of m = Inr ?as"
    using assms by (simp add: args_of_def macro_texts_def plain_macro_def macro_ok_def)
  have len: "3 + (\<Sum>a\<leftarrow>?as. int (length a) + 1) = int (length (macro_text m))"
    unfolding macro_text_def by (simp add: joined_length [symmetric])
  have "list_all (\<lambda>a. cstr a = a) ?as"
    using assms by (auto simp: plain_macro_def macro_texts_def list_all_iff scanned_cstr)
  then have "map (\<lambda>a. '' '' @ cstr a) ?as = map (\<lambda>a. '' '' @ a) ?as"
    by (auto simp: list_all_iff)
  then have shape: "cstr [char_of (rml_cmd m div 256), char_of (rml_cmd m mod 256)]
      @ concat (map (\<lambda>a. '' '' @ cstr a) ?as) @ ''!'' = macro_text m"
    using mnemonic(2) [OF known] by (simp only: macro_text_def)
  show ?thesis
    unfolding RDMacro_generateString_def args res_bind_simps Let_def len shape by simp
qed

lemma parse_plain:
  assumes "plain_macro m" "macro_ok m0"
  shows "RDMacro_parseString (macro_text m) (int (length (macro_text m))) m0
    = Inr (True, (store_args 0 (macro_texts m) (m0\<lparr>rml_cmd := rml_cmd m\<rparr>))
        \<lparr>rml_arg_quantity := rml_arg_quantity m\<rparr>)"
proof -
  let ?a = "char_of (rml_cmd m div 256) :: char" and ?b = "char_of (rml_cmd m mod 256) :: char"
  let ?m1 = "m0\<lparr>rml_cmd := rml_cmd m\<rparr>" and ?as = "macro_texts m"
  have known: "rml_cmd m \<in> set parsed_commands" and q: "int (length ?as) = rml_arg_quantity m"
    using assms(1) by (auto simp: plain_macro_def macro_texts_def macro_ok_def)
  have code: "command_of ?a ?b = rml_cmd m" by (rule mnemonic [OF known])
  have get: "vec_get (x # y # z # zs) 0 = Inr x" "vec_get (x # y # z # zs) 1 = Inr y"
    "vec_get (x # y # z # zs) 2 = Inr z" for x y z :: char and zs
    by (simp_all add: vec_get_def vec_in_def)
  show ?thesis
  proof (cases "?as = []")
    case True
    then have "macro_text m = [?a, ?b, CHR ''!'']" by (simp add: macro_text_def)
    then show ?thesis
      using True q known code by (simp add: RDMacro_parseString_def get Let_def store_args_def)
  next
    case False
    have shape: "macro_text m = ?a # ?b # CHR '' '' # join_args ?as"
      using join_args_concat [OF False] by (simp add: macro_text_def)
    have "parse_loop (length (join_args ?as)) (join_args ?as) False False 0 [] ?m1
        = Inr (True, (store_args 0 ?as ?m1)\<lparr>rml_arg_quantity := int (0 + length ?as)\<rparr>)"
      by (rule parse_join [OF False])
        (use assms in \<open>auto simp: plain_macro_def macro_texts_def list_all_iff macro_ok_def\<close>)
    moreover have "nat (3 + int k) - 3 = k" for k by simp
    ultimately show ?thesis
      unfolding shape using known code q
      by (simp add: RDMacro_parseString_def get Let_def is_blank_def store_args_def)
  qed
qed

lemma store_args_texts:
  assumes "length as \<le> length (rml_arg m)"
  shows "map qv_toString (take (length as) (rml_arg (store_args 0 as m))) = as"
    "length (rml_arg (store_args 0 as m)) = length (rml_arg m)"
  using assms by (simp_all add: store_args_def comp_def)

lemma acknowledge_plain:
  assumes "plain_macro m" "rml_arg_quantity m < int RD_RML_MAX_ARGS"
  shows "\<exists>m1. RDMacro_acknowledge st m = Inr m1 \<and> plain_macro m1 \<and> rml_role m1 = RoleReply
    \<and> rml_cmd m1 = rml_cmd m \<and> macro_texts m1 = macro_texts m @ [if st then ''+'' else ''-'']"
proof -
  let ?q = "nat (rml_arg_quantity m)" and ?v = "QText (if st then ''+'' else ''-'')"
  let ?m1 = "m\<lparr>rml_role := RoleReply, rml_arg := (rml_arg m)[?q := ?v],
    rml_arg_quantity := rml_arg_quantity m + 1\<rparr>"
  have q: "0 \<le> rml_arg_quantity m" "?q < length (rml_arg m)" "nat (rml_arg_quantity m + 1) = Suc ?q"
    using assms by (auto simp: plain_macro_def macro_ok_def)
  have ack: "RDMacro_acknowledge st m = Inr ?m1"
    using q assms(2) by (simp add: RDMacro_acknowledge_def Let_def vec_mod_def vec_in_def)
  have tk: "take (Suc ?q) ((rml_arg m)[?q := ?v]) = take ?q (rml_arg m) @ [?v]"
    using q(2) by (simp add: take_Suc_conv_app_nth)
  have "plain_macro ?m1"
    using assms tk q(1,3)
    by (auto simp: plain_macro_def macro_ok_def is_quote_def RD_RML_MAX_LENGTH_def)
  moreover have "macro_texts ?m1 = macro_texts m @ [if st then ''+'' else ''-'']"
    using tk q(3) by (simp add: macro_texts_def)
  ultimately show ?thesis using ack by auto
qed

section \<open>Properties\<close>

text \<open>C29: Parsing any input never stores outside the argument array or the collecting buffer and
  never reads past the given length. A message accepted has a known command and between 0 and
  \<open>RD_RML_MAX_ARGS\<close> arguments; one rejected after its command was recognised is left as \<open>NN\<close> with
  no arguments; one with an unknown command keeps its arguments and takes the unknown code.\<close>

theorem parse_total:
  assumes "macro_ok m" "n \<le> int (length str)"
  shows "\<exists>b m'. RDMacro_parseString str n m = Inr (b, m') \<and> macro_ok m'
    \<and> (b \<longrightarrow> rml_cmd m' \<in> set parsed_commands \<and> 0 \<le> rml_arg_quantity m'
         \<and> rml_arg_quantity m' \<le> int RD_RML_MAX_ARGS)
    \<and> (\<not> b \<longrightarrow> m' = m \<or> (rml_cmd m' = NN \<and> rml_arg_quantity m' = 0)
         \<or> (rml_cmd m' \<notin> set parsed_commands \<and> m' = m\<lparr>rml_cmd := rml_cmd m'\<rparr>))"
proof (cases "n < 3")
  case True
  then show ?thesis using assms(1) by (auto simp: RDMacro_parseString_def)
next
  case False
  let ?c = "command_of (str ! 0) (str ! 1)" and ?m1 = "m\<lparr>rml_cmd := command_of (str ! 0) (str ! 1)\<rparr>"
  have get: "vec_get str 0 = Inr (str ! 0)" "vec_get str 1 = Inr (str ! 1)" "vec_get str 2 = Inr (str ! 2)"
    using False assms(2) by (auto simp: vec_get_def vec_in_def)
  have "nat n \<le> length str" using assms(2) by (simp add: nat_le_iff)
  then have len: "nat n - 3 \<le> length (drop 3 str)" by simp
  obtain b m' where p: "parse_loop (nat n - 3) (drop 3 str) False False 0 [] ?m1 = Inr (b, m')"
      "parse_post ?c b m'"
    using parse_loop_safe [of 0 "[]" ?m1 "nat n - 3" "drop 3 str" False False] assms(1) len
    by (auto simp: RD_RML_MAX_ARGS_def RD_RML_MAX_LENGTH_def)
  note unfolded = RDMacro_parseString_def get Let_def
  consider "?c \<notin> set parsed_commands" | "?c \<in> set parsed_commands" "str ! 2 = CHR ''!''"
    | "?c \<in> set parsed_commands" "str ! 2 \<noteq> CHR ''!''" "\<not> is_blank (str ! 2)"
    | "?c \<in> set parsed_commands" "str ! 2 \<noteq> CHR ''!''" "is_blank (str ! 2)" by blast
  then show ?thesis
  proof cases
    case 4
    then have "RDMacro_parseString str n m = Inr (b, m')" using False p(1) by (simp add: unfolded)
    then show ?thesis
      using p(2) 4(1) by (intro exI [of _ b] exI [of _ m']) (auto simp: parse_post_def)
  qed (use False assms(1) in \<open>auto simp: unfolded ex_not\<close>)
qed

theorem parse_total_witness:
  "\<exists>b m'. RDMacro_parseString ''LL 1 5!'' 7 new_rdmacro = Inr (b, m') \<and> macro_ok m'"
  using parse_total [of new_rdmacro 7 "''LL 1 5!''"] by auto

text \<open>C23: A message of a known command whose argument texts the scanner takes whole (outside of double quotes
  no blank, \<open>!\<close> or backslash, every quote closed, no NUL, each shorter than the buffer, no more of them than the
  array holds), printed into a buffer that holds it, parses back, from any prior state of the receiver, to the same
  command, number of arguments and argument texts, quoted arguments with blanks and \<open>!\<close> included; and printing
  reports the length it wrote.\<close>

theorem macro_roundtrip:
  assumes "plain_macro m" "macro_ok m0" "RDMacro_generateString buf n m = Inr (len, str)" "0 \<le> len"
  shows "\<exists>m'. RDMacro_parseString str len m0 = Inr (True, m') \<and> len = int (length str) \<and> len < n
    \<and> rml_cmd m' = rml_cmd m \<and> rml_arg_quantity m' = rml_arg_quantity m
    \<and> macro_texts m' = macro_texts m"
proof -
  have g: "len = int (length (macro_text m))" "str = macro_text m" "len < n"
    using generate_plain [OF assms(1), of buf n] assms(3,4) by (auto split: if_splits)
  let ?m1 = "m0\<lparr>rml_cmd := rml_cmd m\<rparr>"
  have "nat (rml_arg_quantity m) = length (macro_texts m)" "length (macro_texts m) \<le> length (rml_arg ?m1)"
    using assms(1,2) by (auto simp: plain_macro_def macro_texts_def macro_ok_def)
  then have "macro_texts ((store_args 0 (macro_texts m) ?m1)\<lparr>rml_arg_quantity := rml_arg_quantity m\<rparr>)
      = macro_texts m"
    using store_args_texts(1) [of "macro_texts m" ?m1] by (simp add: macro_texts_def [of "_\<lparr>rml_arg_quantity := _\<rparr>"])
  then show ?thesis
    using parse_plain [OF assms(1,2)] g by (simp add: store_args_def)
qed

definition label_macro :: rdmacro where
  "label_macro = new_rdmacro\<lparr>rml_cmd := 0x4C42,
     rml_arg := [QText (CHR 0x22 # ''Hi all!'' @ [CHR 0x22]), QNumber 7] @ replicate 98 QInvalid,
     rml_arg_quantity := 2\<rparr>"

lemma label_macro_plain: "plain_macro label_macro"
  by code_simp

theorem macro_roundtrip_witness:
  "\<exists>m'. RDMacro_parseString (macro_text label_macro) 15 new_rdmacro = Inr (True, m')
    \<and> 15 = int (length (macro_text label_macro)) \<and> 15 < (2048::int)
    \<and> rml_cmd m' = rml_cmd label_macro \<and> rml_arg_quantity m' = rml_arg_quantity label_macro
    \<and> macro_texts m' = macro_texts label_macro"
proof (rule macro_roundtrip [OF label_macro_plain])
  show "macro_ok new_rdmacro" by simp
  have "length (macro_text label_macro) = 15" by code_simp
  then show "RDMacro_generateString [] 2048 label_macro = Inr (15, macro_text label_macro)"
    by (simp add: generate_plain [OF label_macro_plain])
qed simp

text \<open>Acknowledging a request that has room for one more argument gives a reply that a client
  parses to the same command and arguments followed by the verdict.\<close>

theorem acknowledge_reply:
  assumes "plain_macro m" "rml_arg_quantity m < int RD_RML_MAX_ARGS" "macro_ok m0"
    "int (length (macro_text m)) + 2 < n"
  shows "\<exists>m1 len str m'. RDMacro_acknowledge st m = Inr m1 \<and> rml_role m1 = RoleReply
    \<and> RDMacro_generateString buf n m1 = Inr (len, str) \<and> RDMacro_parseString str len m0 = Inr (True, m')
    \<and> rml_cmd m' = rml_cmd m \<and> macro_texts m' = macro_texts m @ [if st then ''+'' else ''-'']"
proof -
  obtain m1 where m1: "RDMacro_acknowledge st m = Inr m1" "plain_macro m1" "rml_role m1 = RoleReply"
      "rml_cmd m1 = rml_cmd m" "macro_texts m1 = macro_texts m @ [if st then ''+'' else ''-'']"
    using acknowledge_plain [OF assms(1,2)] by blast
  have "length (macro_text m1) = length (macro_text m) + 2"
    using m1(4,5) by (simp add: macro_text_def)
  then have g: "RDMacro_generateString buf n m1 = Inr (int (length (macro_text m1)), macro_text m1)"
    using generate_plain [OF m1(2), of buf n] assms(4) by simp
  let ?m2 = "m0\<lparr>rml_cmd := rml_cmd m1\<rparr>"
  have "nat (rml_arg_quantity m1) = length (macro_texts m1)" "length (macro_texts m1) \<le> length (rml_arg ?m2)"
    using m1(2) assms(3) by (auto simp: plain_macro_def macro_texts_def macro_ok_def)
  then have "macro_texts ((store_args 0 (macro_texts m1) ?m2)\<lparr>rml_arg_quantity := rml_arg_quantity m1\<rparr>)
      = macro_texts m1"
    using store_args_texts(1) [of "macro_texts m1" ?m2] by (simp add: macro_texts_def [of "_\<lparr>rml_arg_quantity := _\<rparr>"])
  then show ?thesis
    using m1 g parse_plain [OF m1(2) assms(3)] by (simp add: store_args_def)
qed

theorem acknowledge_reply_witness:
  "\<exists>m1 len str m'. RDMacro_acknowledge True label_macro = Inr m1 \<and> rml_role m1 = RoleReply
    \<and> RDMacro_generateString [] 2048 m1 = Inr (len, str) \<and> RDMacro_parseString str len new_rdmacro = Inr (True, m')
    \<and> rml_cmd m' = rml_cmd label_macro
    \<and> macro_texts m' = macro_texts label_macro @ [if True then ''+'' else ''-'']"
proof (rule acknowledge_reply [OF label_macro_plain])
  have "length (macro_text label_macro) = 15" by code_simp
  then show "int (length (macro_text label_macro)) + 2 < 2048" by simp
qed (simp_all add: label_macro_def RD_RML_MAX_ARGS_def)

end
