(* ===== verification/Svc_Import.thy ===== *)
theory Svc_Import
  imports Sched_Link Rml_Macro
begin

text \<open>
  Reading a traffic or music schedule: \<open>RDSvc::import\<close> of \<open>lib/rdsvc.cpp\<close>. The text of the import file is an
  argument, cut into lines by \<open>fgets\<close>; the layout of its columns comes from the service or an import template. The
  table that \<open>linkLog\<close> reads is the list of \<open>import_row\<close> in the order of their IDs. What the database server makes of
  a statement is a parameter, the record \<open>import_server\<close>, since the statements carry texts of the file that are not
  escaped.
\<close>

section \<open>Lines\<close>

definition RD_MAX_IMPORT_LINE_LENGTH :: nat where "RD_MAX_IMPORT_LINE_LENGTH = 1024"

fun fgets_line :: "nat \<Rightarrow> string \<Rightarrow> string \<times> string" where
  "fgets_line 0 s = ([], s)"
| "fgets_line (Suc n) [] = ([], [])"
| "fgets_line (Suc n) (c # cs) =
     (if c = CHR 0x0A then ([c], cs) else (case fgets_line n cs of (a, b) \<Rightarrow> (c # a, b)))"

lemma fgets_line_split: "fgets_line n s = (a, b) \<Longrightarrow> s = a @ b \<and> length a \<le> n"
  by (induction n s arbitrary: a b rule: fgets_line.induct) (auto split: if_splits prod.splits)

lemma fgets_line_shrinks: "s \<noteq> [] \<Longrightarrow> length (snd (fgets_line (Suc n) s)) < length s"
  using fgets_line_split [of n "tl s"] by (cases s) (auto split: prod.split)

lemma fgets_line_rest:
  assumes "s \<noteq> []" "(a, b) = fgets_line (RD_MAX_IMPORT_LINE_LENGTH - Suc 0) s" shows "length b < length s"
proof -
  have n: "RD_MAX_IMPORT_LINE_LENGTH - Suc 0 = Suc 1022" by (simp add: RD_MAX_IMPORT_LINE_LENGTH_def)
  have "length (snd (a, b)) < length s" unfolding assms(2) n by (rule fgets_line_shrinks [OF assms(1)])
  then show ?thesis unfolding snd_conv .
qed

text \<open>Each line up to its first NUL, as \<open>strlen\<close> and \<open>QString\<close> see the buffer.\<close>

function fgets_all :: "string \<Rightarrow> string list" where
  "fgets_all s = (if s = [] then []
     else (case fgets_line (RD_MAX_IMPORT_LINE_LENGTH - 1) s of (a, b) \<Rightarrow> cstr a # fgets_all b))"
  by pat_completeness auto
termination
  by (relation "measure length") (simp_all add: fgets_line_rest)

declare fgets_all.simps [simp del]

section \<open>Columns\<close>

record import_field =
  f_offset :: int
  f_length :: int

record import_parser =
  ip_cart :: import_field
  ip_data :: import_field
  ip_eventid :: import_field
  ip_annctype :: import_field
  ip_title :: import_field
  ip_hours :: import_field
  ip_minutes :: import_field
  ip_seconds :: import_field
  ip_len_hours :: import_field
  ip_len_minutes :: import_field
  ip_len_seconds :: import_field

text \<open>\<open>strlen(buf)>=size\<close>, with an \<open>unsigned\<close> size.\<close>

definition covers :: "import_field \<Rightarrow> string \<Rightarrow> bool" where
  "covers f buf \<longleftrightarrow> (f_offset f + f_length f) mod 2 ^ 32 \<le> int (length buf)"

text \<open>The copying loops write \<open>var_buf[length]=0\<close> behind the characters.\<close>

definition copy_field :: "import_field \<Rightarrow> string \<Rightarrow> string res" where
  "copy_field f buf =
     (if f_length f < 0 \<or> 0 < f_length f \<and> f_offset f < 0 then Inl OutOfRange
      else Inr (take (nat (f_length f)) (drop (nat (f_offset f)) buf)))"

definition mid_field :: "import_field \<Rightarrow> string \<Rightarrow> string" where
  "mid_field f buf = qs_mid (nat (f_offset f mod 2 ^ 32)) (nat (f_length f mod 2 ^ 32)) buf"

text \<open>The values of the statement that inserts an event, as the line gives them; \<open>RDEscapeString\<close> is applied to the
  title alone.\<close>

definition import_row_of :: "string \<Rightarrow> string \<Rightarrow> import_parser \<Rightarrow> string \<Rightarrow> string \<Rightarrow> int \<Rightarrow> int \<Rightarrow> int
    \<Rightarrow> string \<Rightarrow> string \<Rightarrow> string \<Rightarrow> import_row option" where
  "import_row_of label_cart track_cart p buf cartname h m s data eventid annctype =
     (let cartnum = qs_toUInt cartname
      in if cartnum \<noteq> None \<or> label_cart \<noteq> '''' \<and> cartname = label_cart \<or> track_cart \<noteq> '''' \<and> cartname = track_cart
         then Some \<lparr>IR_CART_NUMBER = toUInt0 cartname, IR_START_HOUR = h, IR_START_SECS = 60 * m + s,
           IR_LENGTH = 3600000 * toInt0 (mid_field (ip_len_hours p) buf) + 60000 * toInt0 (mid_field (ip_len_minutes p) buf)
             + 1000 * toInt0 (mid_field (ip_len_seconds p) buf),
           IR_EXT_DATA = data, IR_EXT_EVENT_ID = eventid, IR_EXT_ANNC_TYPE = annctype,
           IR_EXT_CART_NAME = cartname, IR_INSERT_BREAK = ''N'', IR_INSERT_TRACK = ''N'', IR_INSERT_FIRST = InsertNone,
           IR_TITLE = mid_field (ip_title p) buf, IR_TRACK_STRING = '''', IR_EVENT_USED = ''N''\<rparr>
         else None)"

text \<open>A number of the start time: the line must reach it and it must parse.\<close>

definition number_field :: "import_field \<Rightarrow> string \<Rightarrow> int option" where
  "number_field f buf = (if covers f buf then qs_toInt (mid_field f buf) else None)"

definition import_fields :: "string \<Rightarrow> string \<Rightarrow> import_parser \<Rightarrow> string \<Rightarrow> string \<Rightarrow> int \<Rightarrow> int \<Rightarrow> int
    \<Rightarrow> import_row option res" where
  "import_fields label_cart track_cart p buf cartname h m s =
     (if covers (ip_len_hours p) buf \<and> covers (ip_len_minutes p) buf \<and> covers (ip_len_seconds p) buf
         \<and> covers (ip_data p) buf
      then res_bind (copy_field (ip_data p) buf) (\<lambda>data.
           if covers (ip_eventid p) buf
           then res_bind (copy_field (ip_eventid p) buf) (\<lambda>eventid.
                if covers (ip_annctype p) buf
                then res_bind (copy_field (ip_annctype p) buf) (\<lambda>annctype.
                     if covers (ip_title p) buf
                     then Inr (import_row_of label_cart track_cart p buf cartname h m s data eventid annctype)
                     else Inr None)
                else Inr None)
           else Inr None)
      else Inr None)"

definition import_values :: "string \<Rightarrow> string \<Rightarrow> import_parser \<Rightarrow> string \<Rightarrow> import_row option res" where
  "import_values label_cart track_cart p buf =
     (if covers (ip_cart p) buf
      then res_bind (copy_field (ip_cart p) buf) (\<lambda>name.
           case (number_field (ip_hours p) buf, number_field (ip_minutes p) buf, number_field (ip_seconds p) buf) of
             (Some h, Some m, Some s) \<Rightarrow> import_fields label_cart track_cart p buf (strip_space name) h m s
           | _ \<Rightarrow> Inr None)
      else Inr None)"

section \<open>Statements\<close>

text \<open>\<open>RDEscapeString\<close> of \<open>lib/rdescape_string.cpp\<close>: a backslash before each of fifteen characters.\<close>

definition escaped_chars :: "char list" where
  "escaped_chars = [CHR ''('', CHR '')'', CHR ''{'', CHR 0x22, CHR 0x60, CHR ''['', CHR 0x27, CHR 0x5C, CHR ''?'', CHR '' '',
     CHR ''&'', CHR '';'', CHR ''<'', CHR ''>'', CHR ''|'']"

fun RDEscapeString :: "string \<Rightarrow> string" where
  "RDEscapeString [] = []"
| "RDEscapeString (c # cs) = (if c \<in> set escaped_chars then [CHR 0x5C, c] else [c]) @ RDEscapeString cs"

text \<open>The server: the row that the \<open>insert\<close> of an event leaves in the table, given the texts as they stand between
  the double quotes of the statement, or None when it fails; and what the \<open>update\<close> with a track label makes of a row,
  given the row with the other assignments of the statement done.\<close>

record import_server =
  srv_insert :: "import_row \<Rightarrow> import_row option"
  srv_track :: "string \<Rightarrow> import_row \<Rightarrow> import_row \<Rightarrow> import_row"

definition import_insert :: "import_server \<Rightarrow> import_row \<Rightarrow> import_row option" where
  "import_insert srv q = srv_insert srv (q\<lparr>IR_TITLE := RDEscapeString (IR_TITLE q)\<rparr>)"

section \<open>Breaks and tracks\<close>

record import_marks =
  im_insert_found :: bool
  im_insert_break :: bool
  im_insert_track :: bool
  im_break_first :: bool
  im_track_first :: bool
  im_track_label :: string

definition no_marks :: "string \<Rightarrow> import_marks" where
  "no_marks label = \<lparr>im_insert_found = False, im_insert_break = False, im_insert_track = False,
     im_break_first = False, im_track_first = False, im_track_label = label\<rparr>"

text \<open>The updates of the row of an event by the marks found before it; they name it by its ID, so they change
  nothing when its \<open>insert\<close> has failed.\<close>

definition marked_row :: "import_server \<Rightarrow> import_marks \<Rightarrow> import_row \<Rightarrow> import_row" where
  "marked_row srv k q =
     (let q = (if im_insert_break k
               then (if im_break_first k then q\<lparr>IR_INSERT_BREAK := ''Y'', IR_INSERT_FIRST := InsertBreak\<rparr>
                     else q\<lparr>IR_INSERT_BREAK := ''Y''\<rparr>)
               else q)
      in if im_insert_track k
         then srv_track srv (im_track_label k) q
                (if im_track_first k then q\<lparr>IR_INSERT_TRACK := ''Y'', IR_INSERT_FIRST := InsertTrack\<rparr>
                 else q\<lparr>IR_INSERT_TRACK := ''Y''\<rparr>)
         else q)"

text \<open>The same label is kept after a row; it is read only with a new track mark.\<close>

definition find_marks :: "string \<Rightarrow> string \<Rightarrow> string \<Rightarrow> import_marks \<Rightarrow> import_marks" where
  "find_marks break_str track_str buf k =
     (let s = strip_space buf;
          k = (if break_str \<noteq> '''' \<and> qs_contains break_str s
               then k\<lparr>im_insert_break := True, im_break_first := im_break_first k \<or> \<not> im_insert_found k,
                      im_insert_found := True\<rparr>
               else k)
      in if track_str \<noteq> '''' \<and> qs_contains track_str s
         then k\<lparr>im_insert_track := True, im_track_label := s,
                im_track_first := im_track_first k \<or> \<not> im_insert_found k, im_insert_found := True\<rparr>
         else k)"

fun import_lines :: "import_server \<Rightarrow> string \<Rightarrow> string \<Rightarrow> string \<Rightarrow> string \<Rightarrow> import_parser \<Rightarrow> string list \<Rightarrow> import_marks
    \<Rightarrow> import_row list res" where
  "import_lines srv break_str track_str label_cart track_cart p [] k = Inr []"
| "import_lines srv break_str track_str label_cart track_cart p (buf # bufs) k =
     res_bind (import_values label_cart track_cart p buf) (\<lambda>r. case r of
         Some q \<Rightarrow> res_bind (import_lines srv break_str track_str label_cart track_cart p bufs (no_marks (im_track_label k)))
                    (\<lambda>qs. Inr (case import_insert srv q of None \<Rightarrow> qs | Some q \<Rightarrow> marked_row srv k q # qs))
       | None \<Rightarrow> import_lines srv break_str track_str label_cart track_cart p bufs (find_marks break_str track_str buf k))"

text \<open>What \<open>import\<close> reads of the service: the carts that stand for labels and tracks, and the layout; None when
  a row is missing or the file does not open.\<close>

record import_setup =
  is_label_cart :: string
  is_track_cart :: string
  is_parser :: "import_parser option"
  is_file :: "string option"

definition RDSvc_import :: "import_server \<Rightarrow> import_setup option \<Rightarrow> string \<Rightarrow> string \<Rightarrow> import_row list option res" where
  "RDSvc_import srv setup break_str track_str =
     (case setup of
        None \<Rightarrow> Inr None
      | Some i \<Rightarrow> (case (is_file i, is_parser i) of
          (Some text, Some p) \<Rightarrow>
            res_bind (import_lines srv break_str track_str (strip_space (is_label_cart i)) (strip_space (is_track_cart i)) p
                (fgets_all text) (no_marks '''')) (\<lambda>rows. Inr (Some rows))
        | _ \<Rightarrow> Inr None))"

section \<open>What an import reads\<close>

text \<open>The events of the file, each with the lines before it that are no events.\<close>

fun sections :: "(string \<Rightarrow> import_row option) \<Rightarrow> string list \<Rightarrow> string list \<Rightarrow> (string list \<times> import_row) list" where
  "sections f gap [] = []"
| "sections f gap (b # bs) = (case f b of Some q \<Rightarrow> (gap, q) # sections f [] bs | None \<Rightarrow> sections f (gap @ [b]) bs)"

definition event_of_line :: "string \<Rightarrow> string \<Rightarrow> import_parser \<Rightarrow> string \<Rightarrow> import_row option" where
  "event_of_line label_cart track_cart p buf =
     (case import_values label_cart track_cart p buf of Inl _ \<Rightarrow> None | Inr r \<Rightarrow> r)"

definition mark_line :: "string \<Rightarrow> string \<Rightarrow> bool" where
  "mark_line str buf \<longleftrightarrow> str \<noteq> '''' \<and> qs_contains str (strip_space buf)"

definition cut_texts :: "import_row \<Rightarrow> import_row" where
  "cut_texts q = q\<lparr>IR_EXT_DATA := char_col 32 (IR_EXT_DATA q), IR_EXT_EVENT_ID := char_col 32 (IR_EXT_EVENT_ID q),
     IR_EXT_ANNC_TYPE := char_col 8 (IR_EXT_ANNC_TYPE q), IR_EXT_CART_NAME := char_col 32 (IR_EXT_CART_NAME q),
     IR_TITLE := char_col 255 (IR_TITLE q)\<rparr>"

definition event_row :: "string \<Rightarrow> string \<Rightarrow> string list \<Rightarrow> import_row \<Rightarrow> import_row" where
  "event_row break_str track_str gap q =
     (let brk = mark_line break_str; trk = mark_line track_str
      in (cut_texts q)\<lparr>IR_INSERT_BREAK := (if list_ex brk gap then ''Y'' else ''N''),
           IR_INSERT_TRACK := (if list_ex trk gap then ''Y'' else ''N''),
           IR_TRACK_STRING := (if list_ex trk gap then char_col 255 (strip_space (last (filter trk gap))) else ''''),
           IR_INSERT_FIRST := (case find (\<lambda>b. brk b \<or> trk b) gap of
              None \<Rightarrow> InsertNone | Some b \<Rightarrow> if brk b then InsertBreak else InsertTrack)\<rparr>)"

text \<open>What the server does with texts it can read: a text without a double quote or a backslash stands for itself, an
  escaped text for the text before escaping; a column keeps no more than its width.\<close>

definition plain_text :: "string \<Rightarrow> bool" where
  "plain_text t \<longleftrightarrow> CHR 0x22 \<notin> set t \<and> CHR 0x5C \<notin> set t"

definition plain_event :: "import_row \<Rightarrow> bool" where
  "plain_event q \<longleftrightarrow> plain_text (IR_EXT_DATA q) \<and> plain_text (IR_EXT_EVENT_ID q) \<and> plain_text (IR_EXT_ANNC_TYPE q)
     \<and> plain_text (IR_EXT_CART_NAME q)"

definition server_ok :: "import_server \<Rightarrow> bool" where
  "server_ok srv \<longleftrightarrow>
     (\<forall>q title. plain_event q \<longrightarrow> srv_insert srv (q\<lparr>IR_TITLE := RDEscapeString title\<rparr>) = Some (cut_texts (q\<lparr>IR_TITLE := title\<rparr>)))
     \<and> (\<forall>label q q'. plain_text label \<longrightarrow> srv_track srv label q q' = q'\<lparr>IR_TRACK_STRING := char_col 255 label\<rparr>)"

lemma insert_plain: "server_ok srv \<Longrightarrow> plain_event q \<Longrightarrow> import_insert srv q = Some (cut_texts q)"
  unfolding server_ok_def import_insert_def by (metis import_row.update_convs(12) import_row.surjective import_row.select_convs(12))

definition field_ok :: "import_field \<Rightarrow> bool" where
  "field_ok f \<longleftrightarrow> 0 \<le> f_offset f \<and> 0 \<le> f_length f"

definition parser_ok :: "import_parser \<Rightarrow> bool" where
  "parser_ok p \<longleftrightarrow> field_ok (ip_cart p) \<and> field_ok (ip_data p) \<and> field_ok (ip_eventid p) \<and> field_ok (ip_annctype p)"

lemma find_snoc: "find P (xs @ [x]) = (case find P xs of None \<Rightarrow> if P x then Some x else None | Some y \<Rightarrow> Some y)"
  by (induction xs) simp_all

lemma find_marks_simps:
  "im_insert_break (find_marks b t s k) \<longleftrightarrow> im_insert_break k \<or> mark_line b s"
  "im_insert_track (find_marks b t s k) \<longleftrightarrow> im_insert_track k \<or> mark_line t s"
  "im_insert_found (find_marks b t s k) \<longleftrightarrow> im_insert_found k \<or> mark_line b s \<or> mark_line t s"
  "im_break_first (find_marks b t s k) \<longleftrightarrow> im_break_first k \<or> mark_line b s \<and> \<not> im_insert_found k"
  "im_track_first (find_marks b t s k) \<longleftrightarrow> im_track_first k \<or> mark_line t s \<and> \<not> mark_line b s \<and> \<not> im_insert_found k"
  "im_track_label (find_marks b t s k) = (if mark_line t s then strip_space s else im_track_label k)"
  by (auto simp: find_marks_def mark_line_def Let_def)

definition marks_of :: "string \<Rightarrow> string \<Rightarrow> string \<Rightarrow> string list \<Rightarrow> import_marks" where
  "marks_of b t label gap = fold (find_marks b t) gap (no_marks label)"

lemma marks_of:
  shows "im_insert_break (marks_of b t label gap) \<longleftrightarrow> list_ex (mark_line b) gap" "im_insert_track (marks_of b t label gap) \<longleftrightarrow> list_ex (mark_line t) gap"
    "im_insert_found (marks_of b t label gap) \<longleftrightarrow> find (\<lambda>s. mark_line b s \<or> mark_line t s) gap \<noteq> None"
    "im_break_first (marks_of b t label gap) \<longleftrightarrow> (case find (\<lambda>s. mark_line b s \<or> mark_line t s) gap of None \<Rightarrow> False | Some s \<Rightarrow> mark_line b s)"
    "im_track_first (marks_of b t label gap) \<longleftrightarrow> (case find (\<lambda>s. mark_line b s \<or> mark_line t s) gap of None \<Rightarrow> False | Some s \<Rightarrow> \<not> mark_line b s)"
    "list_ex (mark_line t) gap \<Longrightarrow> im_track_label (marks_of b t label gap) = strip_space (last (filter (mark_line t) gap))"
  unfolding marks_of_def
  by (induction gap rule: rev_induct)
    (auto simp: no_marks_def find_marks_simps find_snoc list_ex_iff filter_empty_conv split: option.splits)

lemma marked_row_spec:
  assumes "IR_INSERT_BREAK q = ''N''" "IR_INSERT_TRACK q = ''N''" "IR_INSERT_FIRST q = InsertNone" "IR_TRACK_STRING q = ''''"
    and "server_ok srv" "list_ex (mark_line t) gap \<Longrightarrow> plain_text (im_track_label (marks_of b t label gap))"
  shows "marked_row srv (marks_of b t label gap) (cut_texts q) = event_row b t gap q"
proof -
  let ?P = "\<lambda>s. mark_line b s \<or> mark_line t s"
  have none: "\<not> list_ex (mark_line b) gap \<and> \<not> list_ex (mark_line t) gap" if "find ?P gap = None"
    using that by (auto simp: find_None_iff list_ex_iff)
  have first: "(if mark_line b s then list_ex (mark_line b) gap else list_ex (mark_line t) gap)" if "find ?P gap = Some s" for s
    using that by (auto simp: find_Some_iff list_ex_iff)
  have track: "srv_track srv (im_track_label (marks_of b t label gap)) r r'
      = r'\<lparr>IR_TRACK_STRING := char_col 255 (strip_space (last (filter (mark_line t) gap)))\<rparr>"
    if "list_ex (mark_line t) gap" for r r'
    using assms(5,6) that marks_of(6) [OF that] by (simp add: server_ok_def)
  show ?thesis
    using assms(1-4) none first track
    by (auto simp: marked_row_def event_row_def cut_texts_def Let_def marks_of split: option.splits if_splits)
qed

text \<open>The texts of an event are parts of its line.\<close>

lemma set_strip_space: "set (strip_space s) \<subseteq> set s"
  by (auto simp: strip_space_def dest!: set_dropWhileD)

lemma plain_subset: "set t \<subseteq> set s \<Longrightarrow> plain_text s \<Longrightarrow> plain_text t"
  by (auto simp: plain_text_def)

lemma copy_field_set: "copy_field f buf = Inr s \<Longrightarrow> set s \<subseteq> set buf"
  by (auto simp: copy_field_def split: if_splits dest!: in_set_takeD in_set_dropD)

lemma event_texts:
  assumes "event_of_line lc tc p buf = Some q"
  shows "set (IR_EXT_DATA q) \<subseteq> set buf" "set (IR_EXT_EVENT_ID q) \<subseteq> set buf" "set (IR_EXT_ANNC_TYPE q) \<subseteq> set buf"
    "set (IR_EXT_CART_NAME q) \<subseteq> set buf"
proof -
  obtain name h m s data eventid annctype where f: "copy_field (ip_cart p) buf = Inr name"
      "copy_field (ip_data p) buf = Inr data" "copy_field (ip_eventid p) buf = Inr eventid"
      "copy_field (ip_annctype p) buf = Inr annctype"
      and q: "import_row_of lc tc p buf (strip_space name) h m s data eventid annctype = Some q"
    using assms
    by (auto simp: event_of_line_def import_values_def import_fields_def res_bind_def split: sum.splits if_splits option.splits)
  have "IR_EXT_DATA q = data" "IR_EXT_EVENT_ID q = eventid" "IR_EXT_ANNC_TYPE q = annctype"
      "IR_EXT_CART_NAME q = strip_space name"
    using q by (auto simp: import_row_of_def Let_def split: if_splits)
  then show "set (IR_EXT_DATA q) \<subseteq> set buf" "set (IR_EXT_EVENT_ID q) \<subseteq> set buf" "set (IR_EXT_ANNC_TYPE q) \<subseteq> set buf"
      "set (IR_EXT_CART_NAME q) \<subseteq> set buf"
    using f copy_field_set set_strip_space by fastforce+
qed

lemma event_plain: "event_of_line lc tc p buf = Some q \<Longrightarrow> plain_text buf \<Longrightarrow> plain_event q"
  using event_texts [of lc tc p buf q] by (auto simp: plain_event_def intro: plain_subset)

lemma fgets_all_set: "buf \<in> set (fgets_all s) \<Longrightarrow> set buf \<subseteq> set s"
proof (induction s rule: fgets_all.induct)
  case (1 s)
  obtain a b where ab: "fgets_line (RD_MAX_IMPORT_LINE_LENGTH - 1) s = (a, b)" by fastforce
  have "set (cstr a) \<subseteq> set a" by (auto simp: cstr_def dest: set_takeWhileD)
  moreover have "set a \<subseteq> set s" "set b \<subseteq> set s" using fgets_line_split [OF ab] by auto
  ultimately show ?case
    using 1 ab by (subst (asm) (2) fgets_all.simps) (auto split: if_splits)
qed

lemma copy_field_ok: "field_ok f \<Longrightarrow> \<exists>s. copy_field f buf = Inr s"
  by (simp add: copy_field_def field_ok_def)

lemma import_fields_ok:
  assumes "parser_ok p" shows "\<exists>r. import_fields lc tc p buf name h m s = Inr r"
proof -
  obtain x y z where "copy_field (ip_data p) buf = Inr x" "copy_field (ip_eventid p) buf = Inr y"
    "copy_field (ip_annctype p) buf = Inr z"
    using assms copy_field_ok [of "ip_data p" buf] copy_field_ok [of "ip_eventid p" buf]
      copy_field_ok [of "ip_annctype p" buf] by (auto simp: parser_ok_def)
  then show ?thesis by (simp add: import_fields_def)
qed

lemma import_values_ok: "parser_ok p \<Longrightarrow> import_values lc tc p buf = Inr (event_of_line lc tc p buf)"
proof -
  assume p: "parser_ok p"
  then obtain x where x: "copy_field (ip_cart p) buf = Inr x"
    using copy_field_ok [of "ip_cart p" buf] by (auto simp: parser_ok_def)
  have "\<exists>r. import_values lc tc p buf = Inr r"
    using import_fields_ok [OF p] unfolding import_values_def x res_bind_simps
    by (simp split: option.split)
  then show ?thesis by (auto simp: event_of_line_def)
qed

lemma event_unmarked:
  assumes "event_of_line lc tc p buf = Some q"
  shows "IR_INSERT_BREAK q = ''N''" "IR_INSERT_TRACK q = ''N''" "IR_INSERT_FIRST q = InsertNone" "IR_TRACK_STRING q = ''''"
proof -
  obtain name h m s data eventid annctype where "import_row_of lc tc p buf name h m s data eventid annctype = Some q"
    using assms
    by (auto simp: event_of_line_def import_values_def import_fields_def res_bind_def split: sum.splits if_splits option.splits)
  then show "IR_INSERT_BREAK q = ''N''" "IR_INSERT_TRACK q = ''N''" "IR_INSERT_FIRST q = InsertNone" "IR_TRACK_STRING q = ''''"
    by (auto simp: import_row_of_def Let_def split: if_splits)
qed

lemma import_lines_sections:
  assumes "parser_ok p" "server_ok srv" "\<forall>buf \<in> set (gap @ bufs). plain_text buf"
  shows "import_lines srv b t lc tc p bufs (marks_of b t label gap)
    = Inr (map (\<lambda>(gap, q). event_row b t gap q) (sections (event_of_line lc tc p) gap bufs))"
  using assms(3)
proof (induction bufs arbitrary: label gap)
  case (Cons buf bufs)
  show ?case
  proof (cases "event_of_line lc tc p buf")
    case None
    have "find_marks b t buf (marks_of b t label gap) = marks_of b t label (gap @ [buf])" by (simp add: marks_of_def)
    then show ?thesis using None Cons by (simp add: import_values_ok [OF assms(1)])
  next
    case (Some q)
    have "no_marks l = marks_of b t l []" for l by (simp add: marks_of_def)
    moreover have "import_insert srv q = Some (cut_texts q)"
      using insert_plain [OF assms(2)] event_plain [OF Some] Cons.prems by simp
    moreover have "plain_text (im_track_label (marks_of b t label gap))" if "list_ex (mark_line t) gap"
    proof -
      have "filter (mark_line t) gap \<noteq> []" using that by (auto simp: list_ex_iff filter_empty_conv)
      then have "last (filter (mark_line t) gap) \<in> set gap" using last_in_set by fastforce
      then have "plain_text (last (filter (mark_line t) gap))" using Cons.prems by simp
      then show ?thesis unfolding marks_of(6) [OF that] by (rule plain_subset [OF set_strip_space])
    qed
    ultimately show ?thesis
      using Some Cons marked_row_spec [OF event_unmarked [OF Some] assms(2), of t gap b label]
      by (simp add: import_values_ok [OF assms(1)])
  qed
qed simp

text \<open>C22: While the offsets and lengths of the layout are not negative, no import file makes \<open>import\<close> leave its
  buffers, and for a file without a double quote or a backslash (its texts go into the statements unescaped, see
  \<open>refused_event_is_lost\<close>) the table it writes is read off the file: one row for every line that parses, in order,
  its texts cut to the width of their columns, a break or a track marked when a line between it and the event
  before says so, with the label of the last such line and the kind of the first. Marks behind the last event are
  lost. The database server reads plain and escaped texts as they are meant.\<close>

theorem import_reads_sections:
  assumes "parser_ok p" "server_ok srv" "plain_text text"
  shows "RDSvc_import srv (Some \<lparr>is_label_cart = label_cart, is_track_cart = track_cart, is_parser = Some p, is_file = Some text\<rparr>)
      break_str track_str
    = Inr (Some (map (\<lambda>(gap, q). event_row break_str track_str gap q)
        (sections (event_of_line (strip_space label_cart) (strip_space track_cart) p) [] (fgets_all text))))"
proof -
  have "no_marks '''' = marks_of break_str track_str '''' []" by (simp add: marks_of_def)
  moreover have "\<forall>buf \<in> set ([] @ fgets_all text). plain_text buf"
    using plain_subset [OF fgets_all_set assms(3)] by simp
  ultimately show ?thesis
    using import_lines_sections [OF assms(1,2), of "[]"] by (simp add: RDSvc_import_def)
qed

text \<open>An event whose statement the server refuses, as it does when a text of the line closes the quotes, is lost, and
  the marks before it with it; the events before and behind it stay.\<close>

theorem refused_event_is_lost:
  assumes "parser_ok p" "event_of_line lc tc p buf = Some q" "import_insert srv q = None"
  shows "import_lines srv b t lc tc p (buf # bufs) k = import_lines srv b t lc tc p bufs (no_marks (im_track_label k))"
  using assms(2,3) by (simp add: import_values_ok [OF assms(1)])
    (cases "import_lines srv b t lc tc p bufs (no_marks (im_track_label k))", simp_all)

text \<open>How the server reads a text between double quotes, as documented: a quote ends it unless it is doubled, a
  backslash takes the next character, and a few letters stand for control characters.\<close>

fun unescaped :: "char \<Rightarrow> char" where
  "unescaped c = (if c = CHR ''n'' then CHR 0x0A else if c = CHR ''t'' then CHR 0x09 else if c = CHR ''r'' then CHR 0x0D
     else if c = CHR ''b'' then CHR 0x08 else if c = CHR ''0'' then CHR 0x00 else if c = CHR ''Z'' then CHR 0x1A else c)"

fun quoted_text :: "string \<Rightarrow> string option" where
  "quoted_text [] = Some []"
| "quoted_text [c] = (if c = CHR 0x22 \<or> c = CHR 0x5C then None else Some [c])"
| "quoted_text (c # d # cs) =
     (if c = CHR 0x22 then (if d = CHR 0x22 then map_option (Cons c) (quoted_text cs) else None)
      else if c = CHR 0x5C then map_option (Cons (unescaped d)) (quoted_text cs)
      else map_option (Cons c) (quoted_text (d # cs)))"

text \<open>Escaping is undone by the reading.\<close>

lemma quoted_plain_Cons: "c \<noteq> CHR 0x22 \<Longrightarrow> c \<noteq> CHR 0x5C \<Longrightarrow> quoted_text (c # s) = map_option (Cons c) (quoted_text s)"
  by (cases s) simp_all

lemma quoted_escape: "quoted_text (RDEscapeString s) = Some s"
proof (induction s)
  case (Cons c s)
  show ?case
  proof (cases "c \<in> set escaped_chars")
    case True
    then have "unescaped c = c" by (auto simp: escaped_chars_def)
    with True Cons show ?thesis by simp
  next
    case False
    then have "c \<noteq> CHR 0x22" "c \<noteq> CHR 0x5C" by (auto simp: escaped_chars_def)
    then show ?thesis using False Cons by (simp add: quoted_plain_Cons)
  qed
qed simp

lemma quoted_plain: "plain_text s \<Longrightarrow> quoted_text s = Some s"
  by (induction s) (auto simp: plain_text_def quoted_plain_Cons)

definition quoting_server :: import_server where
  "quoting_server = \<lparr>
     srv_insert = (\<lambda>q. case (quoted_text (IR_EXT_DATA q), quoted_text (IR_EXT_EVENT_ID q), quoted_text (IR_EXT_ANNC_TYPE q),
         quoted_text (IR_EXT_CART_NAME q), quoted_text (IR_TITLE q)) of
         (Some a, Some b, Some c, Some d, Some e) \<Rightarrow> Some (cut_texts (q\<lparr>IR_EXT_DATA := a, IR_EXT_EVENT_ID := b,
           IR_EXT_ANNC_TYPE := c, IR_EXT_CART_NAME := d, IR_TITLE := e\<rparr>))
       | _ \<Rightarrow> None),
     srv_track = (\<lambda>label q q'. case quoted_text label of None \<Rightarrow> q | Some t \<Rightarrow> q'\<lparr>IR_TRACK_STRING := char_col 255 t\<rparr>)\<rparr>"

lemma quoting_server_ok: "server_ok quoting_server"
  by (simp add: server_ok_def quoting_server_def plain_event_def quoted_plain quoted_escape)

definition demo_field :: "int \<Rightarrow> int \<Rightarrow> import_field" where
  "demo_field i n = \<lparr>f_offset = i, f_length = n\<rparr>"

text \<open>A layout \<open>CCCCCC HH:MM:SS TTTT\<close>, with the length in the columns of the seconds.\<close>

definition demo_parser :: import_parser where
  "demo_parser = \<lparr>ip_cart = demo_field 0 6, ip_data = demo_field 0 0, ip_eventid = demo_field 0 0,
     ip_annctype = demo_field 0 0, ip_title = demo_field 16 4, ip_hours = demo_field 7 2, ip_minutes = demo_field 10 2,
     ip_seconds = demo_field 13 2, ip_len_hours = demo_field 0 0, ip_len_minutes = demo_field 0 0,
     ip_len_seconds = demo_field 13 2\<rparr>"

definition demo_file :: string where
  "demo_file = ''BREAK'' @ [CHR 0x0A] @ ''000100 09:05:30 Spot'' @ [CHR 0x0A]"

lemma demo_numbers: "qs_toInt ''09'' = Some 9" "qs_toInt ''05'' = Some 5" "qs_toInt ''30'' = Some 30" "qs_toInt '''' = None"
  "parse_nat ''000100'' = Some 100"
  by code_simp+

lemma demo_cart: "qs_toUInt ''000100'' = Some 100"
  by (rule toUInt_digits) (auto simp: demo_numbers is_digit_def digit_val_def upt_rec)

lemma demo_strip: "strip_space ''000100'' = ''000100''" "strip_space '''' = ''''"
  by (simp_all add: strip_space_def is_space_def)

lemma demo_rows: "event_of_line '''' '''' demo_parser (''000100 09:05:30 Spot'' @ [CHR 0x0A]) =
  Some \<lparr>IR_CART_NUMBER = 100, IR_START_HOUR = 9, IR_START_SECS = 330, IR_LENGTH = 30000,
        IR_EXT_DATA = '''', IR_EXT_EVENT_ID = '''', IR_EXT_ANNC_TYPE = '''', IR_EXT_CART_NAME = ''000100'',
        IR_INSERT_BREAK = ''N'', IR_INSERT_TRACK = ''N'', IR_INSERT_FIRST = InsertNone, IR_TITLE = ''Spot'',
        IR_TRACK_STRING = '''', IR_EVENT_USED = ''N''\<rparr>"
  "event_of_line '''' '''' demo_parser (''BREAK'' @ [CHR 0x0A]) = None"
  by (simp_all add: event_of_line_def import_values_def demo_parser_def demo_field_def covers_def copy_field_def mid_field_def
     qs_mid_def number_field_def import_fields_def import_row_of_def demo_numbers demo_cart demo_strip toUInt0_def toInt0_def)

lemma demo_lines: "fgets_all demo_file = [''BREAK'' @ [CHR 0x0A], ''000100 09:05:30 Spot'' @ [CHR 0x0A]]"
proof -
  have "fgets_line 1023 demo_file = (''BREAK'' @ [CHR 0x0A], ''000100 09:05:30 Spot'' @ [CHR 0x0A])"
    "fgets_line 1023 (''000100 09:05:30 Spot'' @ [CHR 0x0A]) = (''000100 09:05:30 Spot'' @ [CHR 0x0A], '''')"
    by (simp_all add: demo_file_def eval_nat_numeral)
  moreover have "demo_file \<noteq> ''''" by (simp add: demo_file_def)
  ultimately show ?thesis
    by (subst fgets_all.simps, subst fgets_all.simps, subst fgets_all.simps)
      (simp add: RD_MAX_IMPORT_LINE_LENGTH_def cstr_def)
qed

theorem import_reads_sections_witness:
  "RDSvc_import quoting_server (Some \<lparr>is_label_cart = '''', is_track_cart = '''', is_parser = Some demo_parser, is_file = Some demo_file\<rparr>)
      ''BREAK'' '''' = Inr (Some [\<lparr>IR_CART_NUMBER = 100, IR_START_HOUR = 9, IR_START_SECS = 330, IR_LENGTH = 30000,
        IR_EXT_DATA = '''', IR_EXT_EVENT_ID = '''', IR_EXT_ANNC_TYPE = '''', IR_EXT_CART_NAME = ''000100'',
        IR_INSERT_BREAK = ''Y'', IR_INSERT_TRACK = ''N'', IR_INSERT_FIRST = InsertBreak, IR_TITLE = ''Spot'',
        IR_TRACK_STRING = '''', IR_EVENT_USED = ''N''\<rparr>])"
proof -
  have "parser_ok demo_parser" by (simp add: parser_ok_def demo_parser_def demo_field_def field_ok_def)
  have "plain_text demo_file" by (simp add: plain_text_def demo_file_def)
  from import_reads_sections [OF \<open>parser_ok demo_parser\<close> quoting_server_ok this, of "''''" "''''" "''BREAK''" "''''"] show ?thesis
    by (simp add: demo_lines demo_rows [simplified append.simps] demo_strip event_row_def mark_line_def strip_space_def
        is_space_def Let_def cut_texts_def char_col_def)
qed

end
