(* ===== verification/Clock.thy ===== *)
theory Clock
  imports Sched_Event
begin

text \<open>
  The clock, \<open>RDClock\<close> of \<open>lib/rdclock.h\<close> and \<open>lib/rdclock.cpp\<close>: the events of an hour, edited
  like a log, checked for overlaps, and turned into log rows by generating each of its events.
  An event line is a value here; the pointers to its two cart lists, which the code copies with
  it, are never changed through two event lines.
\<close>

section \<open>State and editing\<close>

record clock =
  clock_name :: string
  clock_name_esc :: string
  clock_short_name :: string
  clock_color :: string
  clock_remarks :: string
  clock_events :: "event_line list"
  artistsep :: nat
  rules_modified :: bool

definition RDClock_clear :: "clock \<Rightarrow> clock" where
  "RDClock_clear k = k\<lparr>clock_name := '''', clock_short_name := '''', clock_color := '''',
     clock_remarks := '''', clock_events := [], artistsep := 15, rules_modified := False\<rparr>"

definition RDClock_setName :: "string \<Rightarrow> clock \<Rightarrow> clock" where
  "RDClock_setName name k = k\<lparr>clock_name := name, clock_name_esc := table_base name\<rparr>"

definition RDClock_size :: "clock \<Rightarrow> int" where
  "RDClock_size k = int (length (clock_events k))"

definition RDClock_eventLine :: "clock \<Rightarrow> int \<Rightarrow> event_line option" where
  "RDClock_eventLine k line = vec_at (clock_events k) line"

text \<open>The database of the clock: the log tables, the events, the clocks' own rows.\<close>

record clock_row =
  K_SHORT_NAME :: string
  K_COLOR :: "string option"
  K_ARTISTSEP :: nat
  K_REMARKS :: string

record clk_row =
  CLK_EVENT_NAME :: string
  CLK_START_TIME :: int
  CLK_LENGTH :: int

record clock_db =
  cdb_logs :: database
  cdb_events :: "string \<Rightarrow> event_row option"
  cdb_clocks :: "string \<Rightarrow> clock_row option"
  cdb_tables :: "string \<Rightarrow> clk_row list"

definition loaded_event :: "clock_db \<Rightarrow> clk_row \<Rightarrow> event_line" where
  "loaded_event db q = fst (RDEventLine_load (cdb_logs db) (cdb_events db)
     ((RDEventLine_setName (CLK_EVENT_NAME q) new_event_line)
        \<lparr>event_start_time := qtime_addMSecs 0 (CLK_START_TIME q), event_length := CLK_LENGTH q\<rparr>))"

definition RDClock_load :: "clock_db \<Rightarrow> clock \<Rightarrow> clock \<times> bool" where
  "RDClock_load db k =
     (case cdb_clocks db (clock_name k) of
        None \<Rightarrow> (k, False)
      | Some q \<Rightarrow>
          (k\<lparr>clock_short_name := K_SHORT_NAME q, clock_color := opt_or '''' (K_COLOR q),
             artistsep := K_ARTISTSEP q, clock_remarks := K_REMARKS q,
             clock_events := clock_events k
               @ map (loaded_event db) (cdb_tables db (clock_name_esc k))\<rparr>, True))"

definition clk_row_of :: "event_line \<Rightarrow> clk_row" where
  "clk_row_of v = \<lparr>CLK_EVENT_NAME = event_name v,
     CLK_START_TIME = qtime_msecsTo 0 (event_start_time v), CLK_LENGTH = event_length v\<rparr>"

definition RDClock_save :: "clock_db \<Rightarrow> clock \<Rightarrow> clock_db \<times> clock \<times> bool" where
  "RDClock_save db k =
     (let k1 = (if clock_short_name k = '''' then k\<lparr>clock_short_name := qs_left 3 (clock_name k)\<rparr> else k)
      in (db\<lparr>cdb_clocks := (cdb_clocks db)(clock_name k1 \<mapsto> \<lparr>K_SHORT_NAME = clock_short_name k1,
                K_COLOR = Some (clock_color k1), K_ARTISTSEP = artistsep k1, K_REMARKS = clock_remarks k1\<rparr>),
             cdb_tables := (cdb_tables db)(clock_name_esc k1 := map clk_row_of (clock_events k1))\<rparr>,
          k1, True))"

text \<open>\<open>insert()\<close> writes to \<open>clock_events[line]\<close> also after it has appended at the end.\<close>

definition RDClock_insert :: "clock_db \<Rightarrow> string \<Rightarrow> int \<Rightarrow> clock \<Rightarrow> (clock \<times> bool) res" where
  "RDClock_insert db name line k =
     (if cdb_events db name = None then Inr (k, False)
      else res_bind
        (if line \<ge> RDClock_size k then Inr (clock_events k @ [new_event_line])
         else vec_ins line new_event_line (clock_events k))
        (\<lambda>vs. res_bind (vec_mod (\<lambda>v. fst (RDEventLine_load (cdb_logs db) (cdb_events db)
                                        (RDEventLine_setName name v))) line vs)
          (\<lambda>vs'. Inr (k\<lparr>clock_events := vs'\<rparr>, True))))"

definition RDClock_remove :: "int \<Rightarrow> clock \<Rightarrow> clock res" where
  "RDClock_remove line k =
     res_bind (vec_del line 1 (clock_events k)) (\<lambda>vs. Inr (k\<lparr>clock_events := vs\<rparr>))"

definition RDClock_move :: "clock_db \<Rightarrow> int \<Rightarrow> int \<Rightarrow> clock \<Rightarrow> clock res" where
  "RDClock_move db from_line to_line k =
     (let src_offset = (if to_line < from_line then 1 else 0);
          dest_offset = (if to_line < from_line then 0 else 1)
      in res_bind (vec_get (clock_events k) from_line)
        (\<lambda>v. res_bind (RDClock_insert db (event_name v) (to_line + dest_offset) k)
          (\<lambda>(k1, _). let clamp = (to_line + 1 \<ge> RDClock_size k1);
                         to' = (if clamp then RDClock_size k1 - 1 else to_line);
                         dest' = (if clamp then 0 else dest_offset)
             in case (RDClock_eventLine k1 (to' + dest'), RDClock_eventLine k1 (from_line + src_offset)) of
                  (Some destline, Some srcline) \<Rightarrow>
                    RDClock_remove (from_line + src_offset)
                      (k1\<lparr>clock_events := (clock_events k1)[nat (to' + dest') := srcline]\<rparr>)
                | _ \<Rightarrow> RDClock_remove (to' + dest') k1)))"

section \<open>Overlaps\<close>

definition overlap_test :: "qtime \<Rightarrow> qtime \<Rightarrow> event_line \<Rightarrow> bool" where
  "overlap_test start_time end_time v =
     (let st = event_start_time v; end_ev = qtime_addMSecs st (event_length v)
      in (start_time \<ge> st \<and> start_time < end_ev)
         \<or> (end_time > st \<and> end_time < end_ev) \<or> (start_time < end_ev \<and> end_time > end_ev))"

definition RDClock_validate :: "qtime \<Rightarrow> int \<Rightarrow> int \<Rightarrow> clock \<Rightarrow> bool" where
  "RDClock_validate start_time len except_line k =
     (let end_time = qtime_addMSecs start_time len
      in \<not> list_ex (\<lambda>i. int i \<noteq> except_line \<and> overlap_test start_time end_time (clock_events k ! i))
           [0..<length (clock_events k)])"

section \<open>Generating an hour\<close>

text \<open>\<open>generateLog()\<close> reads the clock's table in the order of the start times; one event line
  object is reused, cleared after each event.\<close>

definition RDEventLine_placed :: "clock_db \<Rightarrow> int \<Rightarrow> clk_row \<Rightarrow> event_line \<Rightarrow> event_line" where
  "RDEventLine_placed db hour q v =
     (fst (RDEventLine_load (cdb_logs db) (cdb_events db) (RDEventLine_setName (CLK_EVENT_NAME q) v)))
       \<lparr>event_start_time := qtime_addMSecs (qtime_addMSecs 0 (CLK_START_TIME q)) (1000 * 3600 * hour),
        event_length := CLK_LENGTH q\<rparr>"

fun generate_events :: "sched_env \<Rightarrow> clock_db \<Rightarrow> int \<Rightarrow> nat \<Rightarrow> string \<Rightarrow> clk_row list \<Rightarrow> event_line
    \<Rightarrow> gen_state \<Rightarrow> gen_state res" where
  "generate_events env db hour sep name [] v g = Inr g"
| "generate_events env db hour sep name (q # qs) v g =
     (let v1 = RDEventLine_placed db hour q v
      in res_bind (RDEventLine_generateLog env sep name v1 g)
           (generate_events env db hour sep name qs (RDEventLine_clear v1)))"

definition RDClock_generateLog :: "sched_env \<Rightarrow> clock_db \<Rightarrow> int \<Rightarrow> clock \<Rightarrow> gen_state \<Rightarrow> gen_state res" where
  "RDClock_generateLog env db hour k g =
     generate_events env db hour (artistsep k) (clock_name_esc k)
       (sort_key CLK_START_TIME (cdb_tables db (clock_name_esc k))) new_event_line g"

section \<open>The clock as a sequence editor\<close>

definition clock_keys :: "clock \<Rightarrow> (string \<times> qtime \<times> int) list" where
  "clock_keys k = map (\<lambda>v. (event_name v, event_start_time v, event_length v)) (clock_events k)"

definition put_event :: "clock \<Rightarrow> nat \<Rightarrow> nat \<Rightarrow> clock" where
  "put_event k i j = k\<lparr>clock_events := (clock_events k)[i := clock_events k ! j]\<rparr>"

definition ins_event :: "clock_db \<Rightarrow> string \<Rightarrow> clock \<Rightarrow> int \<Rightarrow> clock res" where
  "ins_event db name k line = res_bind (RDClock_insert db name line k) (\<lambda>(k', _). Inr k')"

definition del_event :: "clock \<Rightarrow> int \<Rightarrow> clock res" where
  "del_event k line = RDClock_remove line k"

lemma length_clock_keys [simp]: "length (clock_keys k) = length (clock_events k)"
  by (simp add: clock_keys_def)

lemma clock_insert_ok:
  assumes "cdb_events db name \<noteq> None" "i \<le> length (clock_events k)"
  shows "\<exists>v. RDClock_insert db name (int i) k = Inr (k\<lparr>clock_events := list_ins i v (clock_events k)\<rparr>, True)
           \<and> event_name v = name \<and> event_start_time v = 0 \<and> event_length v = 0"
proof -
  let ?ld = "\<lambda>v. fst (RDEventLine_load (cdb_logs db) (cdb_events db) (RDEventLine_setName name v))"
  have ins: "(if int i \<ge> RDClock_size k then Inr (clock_events k @ [new_event_line])
         else vec_ins (int i) new_event_line (clock_events k))
      = Inr (list_ins i new_event_line (clock_events k))"
    using assms(2) by (auto simp: RDClock_size_def vec_ins_def list_ins_def)
  have "(list_ins i new_event_line (clock_events k))[i := ?ld (list_ins i new_event_line (clock_events k) ! i)]
      = list_ins i (?ld new_event_line) (clock_events k)"
    using assms(2) by (simp add: list_ins_def list_update_append nth_append)
  moreover obtain q where "cdb_events db name = Some q" using assms(1) by blast
  ultimately show ?thesis
    using assms(2) unfolding RDClock_insert_def ins
    by (auto intro!: exI [of _ "?ld new_event_line"]
        simp: RDEventLine_load_def RDEventLine_setName_def new_event_line_def)
qed

lemma del_event_ok:
  "i < length (clock_events k) \<Longrightarrow>
   del_event k (int i) = Inr (k\<lparr>clock_events := list_del i 1 (clock_events k)\<rparr>)"
  by (simp add: del_event_def RDClock_remove_def vec_del_def)

interpretation clock_editor: seq_editor "\<lambda>_. cdb_events db name \<noteq> None" clock_keys
  "ins_event db name" put_event del_event for db name
proof (unfold_locales, goal_cases)
  case (1 s i)
  then obtain v where "RDClock_insert db name (int i) s
      = Inr (s\<lparr>clock_events := list_ins i v (clock_events s)\<rparr>, True)"
    using clock_insert_ok [of db name i s] by auto
  then have "ins_event db name s (int i) = Inr (s\<lparr>clock_events := list_ins i v (clock_events s)\<rparr>)
      \<and> clock_keys (s\<lparr>clock_events := list_ins i v (clock_events s)\<rparr>)
        = list_ins i (event_name v, event_start_time v, event_length v) (clock_keys s)"
    by (simp add: ins_event_def clock_keys_def map_list_ins)
  then show ?case by blast
next
  case (2 i s j)
  then show ?case by (simp add: put_event_def clock_keys_def map_update)
next
  case (3 i s)
  then show ?case by (simp add: del_event_ok clock_keys_def map_list_del)
qed

section \<open>Properties\<close>

lemma eventLine_in:
  "0 \<le> i \<Longrightarrow> i < int (length (clock_events k)) \<Longrightarrow> RDClock_eventLine k i = Some (clock_events k ! nat i)"
  by (simp add: RDClock_eventLine_def vec_at_def vec_in_def)

text \<open>Moving an event of a clock, when every event of the clock exists in the database, does
  not fault and is the abstract move of one element, forwards and backwards: the names, start
  times and lengths of the clock's events are kept, the moved one in its new place.\<close>

theorem clock_move_is_list_move:
  assumes "i < length (clock_events k)" "j < length (clock_events k)"
    and "cdb_events db (event_name (clock_events k ! i)) \<noteq> None"
  shows "\<exists>k'. RDClock_move db (int i) (int j) k = Inr k'
           \<and> clock_keys k' = list_move i j (clock_keys k)"
proof -
  let ?name = "event_name (clock_events k ! i)"
  have get: "vec_get (clock_events k) (int i) = Inr (clock_events k ! i)"
    using assms(1) by (simp add: vec_get_def)
  have run: "\<exists>b. RDClock_insert db ?name line k = Inr (k1, b)" if "ins_event db ?name k line = Inr k1" for line k1
    using that by (auto simp: ins_event_def)
  show ?thesis
  proof (cases "j < i")
    case True
    then obtain k1 k2 where *: "ins_event db ?name k (int j) = Inr k1"
        "del_event (put_event k1 j (i + 1)) (int i + 1) = Inr k2"
        "length (clock_events k1) = Suc (length (clock_events k))"
        "clock_keys k2 = list_move i j (clock_keys k)"
      using clock_editor.move_backward [where db = db and name = ?name and s = k and j = j and i = i] assms by auto
    from run [OF *(1)] obtain b where "RDClock_insert db ?name (int j) k = Inr (k1, b)" by blast
    with True * assms get show ?thesis
      by (simp add: RDClock_move_def Let_def RDClock_size_def eventLine_in put_event_def
          del_event_def nat_add_distrib)
  next
    case False
    then obtain k1 k2 where *: "ins_event db ?name k (int j + 1) = Inr k1"
        "del_event (put_event k1 (j + 1) i) (int i) = Inr k2"
        "length (clock_events k1) = Suc (length (clock_events k))"
        "clock_keys k2 = list_move i j (clock_keys k)"
      using clock_editor.move_forward [where db = db and name = ?name and s = k and j = j and i = i] assms by auto
    from run [OF *(1)] obtain b where "RDClock_insert db ?name (int j + 1) k = Inr (k1, b)" by blast
    with False * assms get show ?thesis
      by (simp add: RDClock_move_def Let_def RDClock_size_def eventLine_in put_event_def
          del_event_def nat_add_distrib)
  qed
qed

definition sample_clock :: clock where
  "sample_clock = \<lparr>clock_name = ''C'', clock_name_esc = ''C'', clock_short_name = '''',
     clock_color = '''', clock_remarks = '''', clock_events =
       [new_event_line\<lparr>event_name := ''A'', event_length := 1000000\<rparr>,
        new_event_line\<lparr>event_name := ''B'', event_start_time := 1000000, event_length := 500000\<rparr>],
     artistsep = 15, rules_modified = False\<rparr>"

definition sample_row :: event_row where
  "sample_row = \<lparr>E_PROPERTIES = '''', E_PREPOSITION = -1, E_TIME_TYPE = Relative,
     E_GRACE_TIME = -1, E_POST_POINT = ''N'', E_USE_AUTOFILL = ''N'', E_USE_TIMESCALE = ''N'',
     E_IMPORT_SOURCE = ImportNone, E_START_SLOP = 0, E_END_SLOP = 0, E_FIRST_TRANS_TYPE = Segue,
     E_DEFAULT_TRANS_TYPE = Segue, E_COLOR = None, E_AUTOFILL_SLOP = -1, E_NESTED_EVENT = '''',
     E_SCHED_GROUP = '''', E_TITLE_SEP = 100, E_HAVE_CODE = ''''\<rparr>"

definition sample_cdb :: clock_db where
  "sample_cdb = \<lparr>cdb_logs = empty_db, cdb_events = (\<lambda>_. Some sample_row), cdb_clocks = (\<lambda>_. None),
     cdb_tables = (\<lambda>_. [])\<rparr>"

theorem clock_move_is_list_move_witness:
  "res_ok (RDClock_move sample_cdb 0 1 sample_clock)"
  using clock_move_is_list_move [of 0 sample_clock 1 sample_cdb]
  by (auto simp: sample_clock_def sample_cdb_def)

text \<open>C25: The overlap check accepts a place only when the event is disjoint from each other
  event of the clock or ends exactly with it: for events of positive length that do not cross
  midnight, acceptance means that for every other event either the two intervals do not
  intersect, or the new event starts before it and both end at the same time. The second case is
  a true overlap that the check lets through.\<close>

definition within_day :: "qtime \<Rightarrow> int \<Rightarrow> bool" where
  "within_day t len \<longleftrightarrow> 0 \<le> t \<and> 0 < len \<and> t + len < msecs_per_day"

theorem validate_exact:
  assumes "within_day start len"
    and "\<forall>v \<in> set (clock_events k). within_day (event_start_time v) (event_length v)"
  shows "RDClock_validate start len except_line k \<longleftrightarrow>
    (\<forall>i < length (clock_events k). int i \<noteq> except_line \<longrightarrow>
       (let st = event_start_time (clock_events k ! i); en = st + event_length (clock_events k ! i)
        in start + len \<le> st \<or> en \<le> start \<or> (start < st \<and> start + len = en)))"
proof -
  have test: "overlap_test start (start + len) v \<longleftrightarrow>
      \<not> (start + len \<le> event_start_time v \<or> event_start_time v + event_length v \<le> start
         \<or> (start < event_start_time v \<and> start + len = event_start_time v + event_length v))"
    if "within_day (event_start_time v) (event_length v)" for v
    using that assms(1) qtime_addMSecs_small [of "event_start_time v" "event_length v"]
    by (auto simp: overlap_test_def Let_def within_day_def)
  have "qtime_addMSecs start len = start + len"
    using assms(1) by (simp add: within_day_def qtime_addMSecs_small)
  then show ?thesis
    using assms(2) test unfolding RDClock_validate_def Let_def list_ex_iff
    by (auto simp: Ball_def in_set_conv_nth)
qed

theorem validate_exact_witness:
  "RDClock_validate 900000 600000 (-1) (sample_clock\<lparr>clock_events := tl (clock_events sample_clock)\<rparr>)"
  using validate_exact [of 900000 600000 "sample_clock\<lparr>clock_events := tl (clock_events sample_clock)\<rparr>" "-1"]
  by (simp add: sample_clock_def within_day_def msecs_per_day_def new_event_line_def)

end
