(* ===== verification/Svc_Log.thy ===== *)
theory Svc_Log
  imports Svc_Import Clock
begin

text \<open>
  The log of a service for a day: \<open>generateLog\<close>, \<open>linkLog\<close> and \<open>clearLogLinks\<close> of \<open>RDSvc\<close>, \<open>lib/rdsvc.cpp\<close>. A day
  is generated from 24 clocks; linking replaces each link of the log by the events of an import file; clearing
  the links puts one link back for each link number. \<open>svc_store\<close> holds the log tables and the columns of the
  \<open>LOGS\<close> row they use; the rows of the service are in \<open>svc_env\<close>.
\<close>

section \<open>State\<close>

datatype svc_source = SvcTraffic | SvcMusic

record svc_store =
  sv_db :: database
  sv_links :: "svc_source \<Rightarrow> int"
  sv_linked :: "svc_source \<Rightarrow> bool"
  sv_link_datetime :: qdatetime
  sv_modified_datetime :: qdatetime

record svc_env =
  se_sched :: sched_env
  se_cdb :: clock_db
  se_clocks :: "int \<Rightarrow> string option"
  se_chainto :: bool
  se_server :: import_server
  se_setup :: "svc_source \<Rightarrow> import_setup option"
  se_parser_strings :: "svc_source \<Rightarrow> (string \<times> string) option"
  se_break_string :: string
  se_track_string :: "svc_source \<Rightarrow> string"
  se_cuts :: "cut_row list"
  se_now :: qdatetime

definition link_line_type :: "svc_source \<Rightarrow> line_type" where
  "link_line_type src = (case src of SvcMusic \<Rightarrow> MusicLink | SvcTraffic \<Rightarrow> TrafficLink)"

definition link_line_source :: "svc_source \<Rightarrow> source" where
  "link_line_source src = (case src of SvcMusic \<Rightarrow> Music | SvcTraffic \<Rightarrow> Traffic)"

definition RDLog_tableName :: "string \<Rightarrow> string" where
  "RDLog_tableName name = table_base name @ ''_LOG''"

definition RDLog_updateLinkQuantity :: "string \<Rightarrow> svc_source \<Rightarrow> svc_store \<Rightarrow> svc_store" where
  "RDLog_updateLinkQuantity logname src s =
     s\<lparr>sv_links := (sv_links s)(src := int (length (filter (\<lambda>q. L_TYPE q = link_line_type src)
         (db_tables (sv_db s) (RDLog_tableName logname)))))\<rparr>"

definition RDLog_setLinkState :: "svc_source \<Rightarrow> bool \<Rightarrow> svc_store \<Rightarrow> svc_store" where
  "RDLog_setLinkState src b s = s\<lparr>sv_linked := (sv_linked s)(src := b)\<rparr>"

definition RDSvc_timeString :: "int \<Rightarrow> int \<Rightarrow> string" where
  "RDSvc_timeString hour secs =
     pad_nat 2 (nat hour) @ '':'' @ pad_nat 2 (nat (secs div 60)) @ '':'' @ pad_nat 2 (nat (secs mod 60))"

section \<open>Generating a day\<close>

text \<open>The clocks of the hours from \<open>i\<close>; \<open>dow\<close> is 1 for Monday. One clock object is reused.\<close>

fun generate_hours :: "svc_env \<Rightarrow> int \<Rightarrow> int list \<Rightarrow> clock \<Rightarrow> gen_state \<Rightarrow> gen_state res" where
  "generate_hours env dow [] k g = Inr g"
| "generate_hours env dow (i # is) k g =
     (case se_clocks env (24 * (dow - 1) + i) of
        None \<Rightarrow> generate_hours env dow is k g
      | Some name \<Rightarrow>
          if name = '''' then generate_hours env dow is k g
          else (let k1 = fst (RDClock_load (se_cdb env) (RDClock_setName name k))
                in res_bind (RDClock_generateLog (se_sched env) (se_cdb env) i k1 g)
                     (generate_hours env dow is (RDClock_clear k1))))"

definition new_clock :: clock where
  "new_clock = \<lparr>clock_name = '''', clock_name_esc = '''', clock_short_name = '''', clock_color = '''',
     clock_remarks = '''', clock_events = [], artistsep = 15, rules_modified = False\<rparr>"

definition chain_row :: "int \<Rightarrow> string \<Rightarrow> log_row" where
  "chain_row n nextname = default_row\<lparr>L_ID := n, L_COUNT := n, L_TYPE := Chain, L_SOURCE := Template,
     L_TRANS_TYPE := Segue, L_LABEL := char_col 64 nextname\<rparr>"

text \<open>The result has the stack of the service and the report; the table of the log is new. An invalid date is None.\<close>

definition RDSvc_generateLog :: "svc_env \<Rightarrow> int option \<Rightarrow> string \<Rightarrow> string \<Rightarrow> stack_row list \<Rightarrow> sched_error list
    \<Rightarrow> svc_store \<Rightarrow> (bool \<times> svc_store \<times> stack_row list \<times> sched_error list) res" where
  "RDSvc_generateLog env date logname nextname stack errors s =
     (case date of
        None \<Rightarrow> Inr (False, s, stack, errors)
      | Some dow \<Rightarrow>
          if logname = '''' then Inr (False, s, stack, errors)
          else res_bind (generate_hours env dow [0..23] new_clock \<lparr>gs_rows = [], gs_stack = stack, gs_errors = errors\<rparr>)
            (\<lambda>g. let n = next_count (gs_rows g);
                 rows = (if se_chainto env then gs_rows g @ [chain_row n nextname] else gs_rows g);
                 n = (if se_chainto env then n + 1 else n);
                 s = s\<lparr>sv_db := (sv_db s)\<lparr>db_tables := (db_tables (sv_db s))(RDLog_tableName logname := rows),
                         db_next_ids := (db_next_ids (sv_db s))(logname := n)\<rparr>,
                       sv_link_datetime := se_now env, sv_modified_datetime := se_now env\<rparr>;
                 s = RDLog_setLinkState SvcMusic False (RDLog_updateLinkQuantity logname SvcMusic s);
                 s = RDLog_setLinkState SvcTraffic False (RDLog_updateLinkQuantity logname SvcTraffic s)
              in Inr (True, s, gs_stack g, gs_errors g)))"

section \<open>Linking\<close>

text \<open>A line appended by \<open>insert\<close>, assigned through \<open>f\<close>; then it takes the next ID.\<close>

definition put_last :: "bool \<Rightarrow> (log_line \<Rightarrow> log_line) \<Rightarrow> log_event \<Rightarrow> log_event res" where
  "put_last keep f e =
     res_bind (RDLogEvent_insert e (RDLogEvent_size e) 1 keep) (\<lambda>e.
     res_bind (vec_mod f (RDLogEvent_size e - 1) (log_lines e)) (\<lambda>ls.
       let e = e\<lparr>log_lines := ls\<rparr>
       in res_bind (vec_mod (\<lambda>l. l\<lparr>log_id := RDLogEvent_nextId e\<rparr>) (RDLogEvent_size e - 1) ls) (\<lambda>ls.
            Inr (e\<lparr>log_lines := ls\<rparr>))))"

definition svc_event :: "clock_db \<Rightarrow> string \<Rightarrow> event_line" where
  "svc_event cdb name = fst (RDEventLine_load (cdb_logs cdb) (cdb_events cdb) (RDEventLine_setName name new_event_line))"

text \<open>The progress is computed by a division by the number of links in \<open>LOGS\<close>.\<close>

fun link_lines :: "sched_env \<Rightarrow> clock_db \<Rightarrow> string \<Rightarrow> svc_source \<Rightarrow> string \<Rightarrow> string \<Rightarrow> int \<Rightarrow> log_line list
    \<Rightarrow> log_event \<times> import_row list \<times> sched_error list \<Rightarrow> (log_event \<times> import_row list \<times> sched_error list) res" where
  "link_lines env cdb svc src label_cart track_cart links [] st = Inr st"
| "link_lines env cdb svc src label_cart track_cart links (l # ls) (dest, imports, errors) =
     (if log_type l = link_line_type src
      then res_bind (RDEventLine_linkLog env (svc_event cdb (log_link_event_name (log_link l))) dest
                       (RDLogEvent_nextId dest) svc l label_cart track_cart imports errors)
             (\<lambda>st. if links = 0 then Inl DivByZero
                   else link_lines env cdb svc src label_cart track_cart links ls st)
      else res_bind (put_last True (\<lambda>_. l) dest)
             (\<lambda>dest. link_lines env cdb svc src label_cart track_cart links ls (dest, imports, errors)))"

record link_report =
  lr_fill :: "sched_error list"
  lr_missing :: "log_exception list"
  lr_unplaced :: "(string \<times> nat \<times> string) list"

text \<open>The events that found no place, with the title of their cart.\<close>

definition unplaced_events :: "database \<Rightarrow> import_row list \<Rightarrow> (string \<times> nat \<times> string) list" where
  "unplaced_events db imports =
     map (\<lambda>q. (RDSvc_timeString (IR_START_HOUR q) (IR_START_SECS q), IR_CART_NUMBER q,
            case db_carts db (IR_CART_NUMBER q) of
              None \<Rightarrow> ''[unknown cart]''
            | Some c \<Rightarrow> if C_TITLE c = '''' then ''[unknown cart]'' else C_TITLE c))
       (filter (\<lambda>q. IR_EVENT_USED q = ''N'') imports)"

definition svc_log :: "string \<Rightarrow> log_event" where
  "svc_log logname = \<lparr>log_name = RDLog_tableName logname, log_service_name = '''', log_max_id = 0, log_lines = []\<rparr>"

definition RDSvc_linkLog :: "svc_env \<Rightarrow> string \<Rightarrow> svc_source \<Rightarrow> qdatetime \<Rightarrow> int \<Rightarrow> string \<Rightarrow> svc_store
    \<Rightarrow> (link_report option \<times> svc_store) res" where
  "RDSvc_linkLog env svc src date dow logname s =
     (let (label_cart, track_cart) = (case se_parser_strings env src of None \<Rightarrow> ('''', '''') | Some x \<Rightarrow> x)
      in res_bind (RDSvc_import (se_server env) (se_setup env src) (se_break_string env) (se_track_string env src)) (\<lambda>imports.
         case imports of
           None \<Rightarrow> Inr (None, s)
         | Some imports \<Rightarrow>
             let lines = log_lines (fst (RDLogEvent_load (sv_db s) False (svc_log logname)))
             in res_bind (link_lines (se_sched env) (se_cdb env) svc src label_cart track_cart (sv_links s src)
                            lines (svc_log logname, imports, [])) (\<lambda>(dest, imports, errors).
                res_bind (RDLogEvent_save (sv_db s) (-1) dest) (\<lambda>db.
                  let s = RDLog_setLinkState src True (s\<lparr>sv_db := db\<rparr>);
                      s = (if src = SvcMusic then RDLog_updateLinkQuantity logname SvcTraffic s else s);
                      s = s\<lparr>sv_link_datetime := se_now env, sv_modified_datetime := se_now env\<rparr>
                  in Inr (Some \<lparr>lr_fill = errors, lr_missing = fst (RDLogEvent_validate db (se_cuts env) date dow dest),
                       lr_unplaced = unplaced_events db imports\<rparr>, s)))))"

section \<open>Clearing the links\<close>

definition RDSvc_CheckId :: "int list \<Rightarrow> int \<Rightarrow> bool \<times> int list" where
  "RDSvc_CheckId v value = (if value \<in> set v then (False, v) else (True, v @ [value]))"

text \<open>The link that stands for the lines of one number; what it does not set keeps the values of a new line.\<close>

definition relinked_line :: "svc_source \<Rightarrow> log_line \<Rightarrow> log_line \<Rightarrow> log_line" where
  "relinked_line src l x =
     (RDLogLine_setStartTime Logged (log_link_start_time (log_link l)) x)
       \<lparr>log_type := link_line_type src,
        log_source := (if log_link_embedded (log_link l) then Music else Template),
        log_trans_type := log_trans_type l, log_link := log_link l\<rparr>"

fun clear_lines :: "svc_source \<Rightarrow> log_line list \<Rightarrow> log_event \<times> int list \<Rightarrow> (log_event \<times> int list) res" where
  "clear_lines src [] st = Inr st"
| "clear_lines src (l # ls) (dest, cleared) =
     (if log_link_id (log_link l) \<ge> 0 \<and> log_source l = link_line_source src
      then (case RDSvc_CheckId cleared (log_link_id (log_link l)) of (first, cleared) \<Rightarrow>
              if first then res_bind (put_last False (relinked_line src l) dest) (\<lambda>dest. clear_lines src ls (dest, cleared))
              else clear_lines src ls (dest, cleared))
      else res_bind (put_last False (\<lambda>_. l) dest) (\<lambda>dest. clear_lines src ls (dest, cleared)))"

definition RDSvc_clearLogLinks :: "svc_source \<Rightarrow> string \<Rightarrow> svc_store \<Rightarrow> svc_store res" where
  "RDSvc_clearLogLinks src logname s =
     res_bind (clear_lines src (log_lines (fst (RDLogEvent_load (sv_db s) False (svc_log logname)))) (svc_log logname, []))
       (\<lambda>(dest, _). res_bind (RDLogEvent_save (sv_db s) (-1) dest) (\<lambda>db. Inr (s\<lparr>sv_db := db\<rparr>)))"

section \<open>Lemmas on the generated day\<close>

text \<open>Numbers given out one after the other, from 0.\<close>

definition consecutive :: "int list \<Rightarrow> bool" where
  "consecutive xs \<longleftrightarrow> xs = [0..int (length xs) - 1]"

lemma consecutive_Nil [simp]: "consecutive []"
  by (simp add: consecutive_def)

lemma consecutive_append:
  assumes "consecutive xs" "ys = [int (length xs)..int (length xs) + int (length ys) - 1]"
  shows "consecutive (xs @ ys)"
proof -
  have "xs @ ys = [0..int (length xs) - 1] @ [int (length xs)..int (length xs) + int (length ys) - 1]"
    using assms unfolding consecutive_def by metis
  then show ?thesis
    using upto_join [of 0 "int (length xs)" "int (length xs) + int (length ys)"]
    by (simp add: consecutive_def)
qed

lemma consecutive_snoc: "consecutive xs \<Longrightarrow> consecutive (xs @ [int (length xs)])"
  by (rule consecutive_append) simp_all

lemma foldl_max_upto: "foldl max m [a..b] = (if a \<le> b then max m b else (m::int))"
proof (induction "nat (b + 1 - a)" arbitrary: a m)
  case (Suc n)
  then show ?case using upto_rec1 [of a b] by auto
qed simp

lemma foldl_max_consecutive:
  assumes "consecutive xs" "m \<le> 0"
  shows "foldl max m xs = (if xs = [] then m else int (length xs) - 1)"
proof -
  have "foldl max m xs = foldl max m [0..int (length xs) - 1]"
    using assms(1) unfolding consecutive_def by metis
  then show ?thesis using assms(2) by (cases xs) (simp_all add: foldl_max_upto)
qed

lemma hd_consecutive: "consecutive xs \<Longrightarrow> xs \<noteq> [] \<Longrightarrow> hd xs = 0"
  using upto_rec1 [of 0 "int (length xs) - 1"] unfolding consecutive_def
  by (metis Suc_leI length_greater_0_conv list.sel(1) of_nat_1 of_nat_Suc of_nat_le_iff diff_ge_0_iff_ge One_nat_def)

lemma foldl_max_map: "foldl (\<lambda>m q. max m (f q)) m xs = foldl max m (map f xs)" for m :: int
  by (induction xs arbitrary: m) simp_all

lemma foldl_max_filter:
  fixes m :: int
  assumes "-1 \<le> m"
  shows "foldl max m (filter (\<lambda>i. i \<ge> 0) xs) = foldl max m xs"
  using assms
proof (induction xs arbitrary: m)
  case (Cons x xs)
  have "max m x = m" if "\<not> 0 \<le> x" using that Cons.prems by simp
  then show ?case using Cons.IH [of "max m x"] Cons.IH [OF Cons.prems] Cons.prems by (cases "0 \<le> x") simp_all
qed simp

text \<open>The rows of a log under generation: counts, IDs and link numbers are consecutive.\<close>

definition numbered :: "log_row list \<Rightarrow> bool" where
  "numbered rows \<longleftrightarrow> consecutive (map L_COUNT rows) \<and> map L_ID rows = map L_COUNT rows
     \<and> consecutive (link_ids rows)"

lemma numbered_Nil [simp]: "numbered []"
  by (simp add: numbered_def link_ids_def)

lemma numbered_next:
  assumes "numbered rows"
  shows "next_count rows = int (length rows)"
proof (cases "rows = []")
  case False
  have c: "consecutive (map L_COUNT rows)" using assms by (simp add: numbered_def)
  have "L_COUNT (hd rows) = 0" using hd_consecutive [OF c] False by (simp add: hd_map)
  then show ?thesis
    using False foldl_max_consecutive [OF c] by (simp add: next_count_def foldl_max_map [of L_COUNT])
qed (simp add: next_count_def)

lemma numbered_link:
  assumes "numbered rows"
  shows "next_link_id rows = int (length (link_ids rows))"
proof -
  have "foldl max (-1) (link_ids rows) = foldl max (-1) (map L_LINK_ID rows)"
    by (simp only: link_ids_def foldl_max_filter order_refl)
  then show ?thesis
    using assms foldl_max_consecutive [of "link_ids rows" "-1"]
    by (auto simp: next_link_id_def foldl_max_map [of L_LINK_ID] numbered_def)
qed

lemma numbered_event:
  assumes "numbered (gs_rows g)"
  shows "\<exists>g'. RDEventLine_generateLog env sep clk v g = Inr g' \<and> numbered (gs_rows g')
     \<and> (\<exists>new. gs_rows g' = gs_rows g @ new)"
proof -
  obtain g' new where g': "RDEventLine_generateLog env sep clk v g = Inr g'" "gs_rows g' = gs_rows g @ new"
      "map L_COUNT new = [next_count (gs_rows g)..next_count (gs_rows g) + int (length new) - 1]"
      "map L_ID new = map L_COUNT new"
    using event_counts [of env sep clk v g] by blast
  have "consecutive (map L_COUNT (gs_rows g'))"
    using assms consecutive_append [of "map L_COUNT (gs_rows g)" "map L_COUNT new"] g'(2,3)
    by (simp add: numbered_next numbered_def)
  moreover have "consecutive (link_ids (gs_rows g'))"
    using assms consecutive_snoc [of "link_ids (gs_rows g)"] numbered_link [OF assms] event_links [OF g'(1)]
    by (auto simp: numbered_def)
  moreover have "map L_ID (gs_rows g') = map L_COUNT (gs_rows g')"
    using assms g'(2,4) unfolding numbered_def by (metis map_append)
  ultimately show ?thesis
    using g'(1,2) by (auto simp: numbered_def)
qed

lemma numbered_events:
  "numbered (gs_rows g) \<Longrightarrow> \<exists>g'. generate_events env db hour sep name qs v g = Inr g' \<and> numbered (gs_rows g')
     \<and> (\<exists>new. gs_rows g' = gs_rows g @ new)"
proof (induction qs arbitrary: v g)
  case (Cons q qs)
  obtain g1 new where g1: "RDEventLine_generateLog env sep name (RDEventLine_placed db hour q v) g = Inr g1"
      "numbered (gs_rows g1)" "gs_rows g1 = gs_rows g @ new"
    using numbered_event [OF Cons.prems] by blast
  show ?case
    using g1 Cons.IH [OF g1(2), of "RDEventLine_clear (RDEventLine_placed db hour q v)"] by (auto simp: Let_def)
qed simp

lemma numbered_hours:
  "numbered (gs_rows g) \<Longrightarrow> \<exists>g'. generate_hours env dow hs k g = Inr g' \<and> numbered (gs_rows g')
     \<and> (\<exists>new. gs_rows g' = gs_rows g @ new)"
proof (induction hs arbitrary: k g)
  case (Cons i hs)
  show ?case
  proof (cases "se_clocks env (24 * (dow - 1) + i)")
    case (Some name)
    let ?k = "fst (RDClock_load (se_cdb env) (RDClock_setName name k))"
    obtain g1 new where g1: "RDClock_generateLog (se_sched env) (se_cdb env) i ?k g = Inr g1"
        "numbered (gs_rows g1)" "gs_rows g1 = gs_rows g @ new"
      using numbered_events [OF Cons.prems] unfolding RDClock_generateLog_def by blast
    show ?thesis
      using Some g1 Cons.IH [OF g1(2), of "RDClock_clear ?k"] Cons.IH [OF Cons.prems, of k]
      by (auto simp: Let_def)
  qed (use Cons in simp)
qed simp

section \<open>The generated day\<close>

text \<open>C21: A valid date and a log name always give a log. Its rows have the counts 0, 1, 2 and so on, which are
  their IDs, the next ID of the log is above them, every link of the day has a number of its own, again from 0; the
  numbers of links in the LOGS row are those of the table, both marked as not linked. They are the rows that the
  clocks of the 24 hours give, followed by one row that leads to the next log when the service chains its logs, and
  by nothing when it does not.\<close>

theorem generated_day:
  assumes "logname \<noteq> ''''"
  shows "\<exists>s' stack' errors' rows. RDSvc_generateLog env (Some dow) logname nextname stack errors s
      = Inr (True, s', stack', errors')
    \<and> db_tables (sv_db s') (RDLog_tableName logname) = rows
    \<and> map L_COUNT rows = [0..int (length rows) - 1] \<and> map L_ID rows = map L_COUNT rows
    \<and> db_next_ids (sv_db s') logname = int (length rows)
    \<and> (\<exists>m. filter (\<lambda>i. i \<ge> 0) (map L_LINK_ID rows) = [0..int m - 1])
    \<and> sv_links s' src = int (length (filter (\<lambda>q. L_TYPE q = link_line_type src) rows)) \<and> \<not> sv_linked s' src
    \<and> (\<exists>g. generate_hours env dow [0..23] new_clock \<lparr>gs_rows = [], gs_stack = stack, gs_errors = errors\<rparr> = Inr g
         \<and> rows = gs_rows g @ (if se_chainto env then [chain_row (int (length (gs_rows g))) nextname] else []))
    \<and> (se_chainto env \<longrightarrow> L_TYPE (last rows) = Chain \<and> L_LABEL (last rows) = char_col 64 nextname)"
proof -
  let ?g0 = "\<lparr>gs_rows = [], gs_stack = stack, gs_errors = errors\<rparr>"
  obtain g where g: "generate_hours env dow [0..23] new_clock ?g0 = Inr g" "numbered (gs_rows g)"
    using numbered_hours [of ?g0 env dow "[0..23]" new_clock] by auto
  define rows where "rows = (if se_chainto env then gs_rows g @ [chain_row (next_count (gs_rows g)) nextname] else gs_rows g)"
  have chain: "link_ids [chain_row n nextname] = []" "L_COUNT (chain_row n nextname) = n"
      "L_ID (chain_row n nextname) = n" for n
    by (simp_all add: chain_row_def default_row_def link_ids_def)
  have "link_ids (gs_rows g @ [q]) = link_ids (gs_rows g) @ link_ids [q]" for q
    by (simp add: link_ids_def)
  then have rows: "numbered rows"
    using g(2) chain numbered_next [OF g(2)] consecutive_snoc [of "map L_COUNT (gs_rows g)"]
    by (auto simp: rows_def numbered_def)
  have n: "(if se_chainto env then next_count (gs_rows g) + 1 else next_count (gs_rows g)) = int (length rows)"
    using numbered_next [OF g(2)] by (simp add: rows_def)
  have day: "rows = gs_rows g @ (if se_chainto env then [chain_row (int (length (gs_rows g))) nextname] else [])"
    using numbered_next [OF g(2)] by (simp add: rows_def)
  have last: "se_chainto env \<longrightarrow> L_TYPE (last rows) = Chain \<and> L_LABEL (last rows) = char_col 64 nextname"
    by (simp add: rows_def chain_row_def)
  have ids: "\<forall>q \<in> set rows. L_ID q = L_COUNT q" using rows by (simp add: numbered_def)
  have count: "map L_COUNT rows = [0..int (length rows) - 1]"
      "\<exists>m. filter (\<lambda>i. i \<ge> 0) (map L_LINK_ID rows) = [0..int m - 1]"
    using rows unfolding numbered_def consecutive_def link_ids_def length_map by blast+
  have chain_hours: "\<exists>g. generate_hours env dow [0..23] new_clock ?g0 = Inr g
      \<and> rows = gs_rows g @ (if se_chainto env then [chain_row (int (length (gs_rows g))) nextname] else [])"
    using g(1) day by blast
  obtain s' stack' errors' where run:
      "RDSvc_generateLog env (Some dow) logname nextname stack errors s = Inr (True, s', stack', errors')"
      "db_tables (sv_db s') (RDLog_tableName logname) = rows" "db_next_ids (sv_db s') logname = int (length rows)"
      "sv_links s' src = int (length (filter (\<lambda>q. L_TYPE q = link_line_type src) rows))" "\<not> sv_linked s' src"
    using assms g(1) n
    by (cases src) (auto simp: RDSvc_generateLog_def Let_def RDLog_setLinkState_def RDLog_updateLinkQuantity_def
        rows_def [symmetric])
  have "map L_ID rows = map L_COUNT rows" using ids by simp
  with run count last chain_hours show ?thesis
    by (intro exI [of _ s'] exI [of _ stack'] exI [of _ errors'] exI [of _ rows] conjI) (assumption | simp)+
qed

section \<open>Lemmas on relinking\<close>

text \<open>What clearing the links keeps of a line, and the two marks by which it recognises the lines of a link.\<close>

definition relink_key :: "log_line \<Rightarrow> line_type \<times> source \<times> trans_type \<times> link_data \<times> qtime \<times> nat \<times> string" where
  "relink_key l = (log_type l, log_source l, log_trans_type l, log_link l, log_start_time l Logged,
     log_cart_number l, log_marker_comment l)"

definition of_link :: "source \<Rightarrow> int \<Rightarrow> line_type \<times> source \<times> trans_type \<times> link_data \<times> qtime \<times> nat \<times> string \<Rightarrow> bool" where
  "of_link s i k \<longleftrightarrow> fst (snd k) = s \<and> log_link_id (fst (snd (snd (snd k)))) = i"

lemma edit_stable_relink_key [simp]: "edit_stable relink_key"
  by (auto intro!: edit_stableI simp: relink_key_def reset_trailing_def reset_leading_def RDLogLine_clearTrackData_def)

text \<open>\<open>keyed P st st'\<close>: lines were appended, all of them with property \<open>P\<close>.\<close>

definition keyed :: "source \<Rightarrow> int \<Rightarrow> log_event \<times> link_cursor \<Rightarrow> log_event \<times> link_cursor \<Rightarrow> bool" where
  "keyed s i st st' \<longleftrightarrow> (\<exists>new. map relink_key (log_lines (fst st')) = map relink_key (log_lines (fst st)) @ new
     \<and> (\<forall>k \<in> set new. of_link s i k))"

lemma keyed_refl [simp]: "keyed s i st st"
  by (simp add: keyed_def)

lemma keyed_trans [trans]: "keyed s i a b \<Longrightarrow> keyed s i b c \<Longrightarrow> keyed s i a c"
  by (fastforce simp: keyed_def)

lemma put_line_keyed:
  assumes "\<And>c l. of_link s i (relink_key (f c l))"
  shows "\<exists>e'. put_line f (e, c) = Inr (e', c\<lparr>lk_next_id := lk_next_id c + 1\<rparr>) \<and> keyed s i (e, c) (e', c')"
  using append_with_ok [of relink_key "f c" e] assms by (auto simp: put_line_def keyed_def)

lemma link_lines_of_link:
  "of_link (event_source v) (log_link_id (log_link k)) (relink_key (break_line v k c l))"
  "of_link (event_source v) (log_link_id (log_link k)) (relink_key (track_line v k q c l))"
  "of_link (event_source v) (log_link_id (log_link k)) (relink_key (import_line v k lc tc q c l))"
  "of_link (event_source v) (log_link_id (log_link k)) (relink_key (fill_line v k n c l))"
  by (simp_all add: of_link_def relink_key_def break_line_def track_line_def import_line_def fill_line_def
      copied_link_def RDLogLine_setStartTime_def Let_def)

lemma link_row_keyed:
  "\<exists>st'. link_row_step env v k lc tc q st = Inr st' \<and> keyed (event_source v) (log_link_id (log_link k)) st st'"
proof -
  let ?s = "event_source v" and ?i = "log_link_id (log_link k)"
  have brk: "\<exists>st'. put_break v k q st = Inr st' \<and> keyed ?s ?i st st'" for st
    using put_line_keyed [where f = "break_line v k", OF link_lines_of_link(1)] by (cases st) (fastforce simp: put_break_def)
  have trk: "\<exists>st'. put_track v k q st = Inr st' \<and> keyed ?s ?i st st'" for st
    using put_line_keyed [where f = "track_line v k q", OF link_lines_of_link(2)] by (cases st) (fastforce simp: put_track_def)
  obtain e c0 where st: "st = (e, c0)" by fastforce
  define c where "c = (if RDLogEvent_nextId e > lk_next_id c0 then c0\<lparr>lk_next_id := RDLogEvent_nextId e\<rparr> else c0)"
  obtain st1 where st1: "(if IR_INSERT_FIRST q = InsertBreak
            then res_bind (put_break v k q (e, c)) (put_track v k q)
            else res_bind (put_track v k q (e, c)) (put_break v k q)) = Inr st1" "keyed ?s ?i (e, c) st1"
    using brk trk keyed_trans by (smt (verit) res_bind_simps(1))
  obtain e1 c1 where st1': "st1 = (e1, c1)" by fastforce
  obtain e2 where e2: "put_line (import_line v k lc tc q) (e1, c1) = Inr (e2, c1\<lparr>lk_next_id := lk_next_id c1 + 1\<rparr>)"
      "keyed ?s ?i (e1, c1) (e2, c1)"
    using put_line_keyed [where f = "import_line v k lc tc q", OF link_lines_of_link(3)] by blast
  have "keyed ?s ?i st (e2, c')" for c'
    using keyed_trans [OF st1(2) [unfolded st1'] e2(2)] by (simp add: st keyed_def)
  moreover have "\<exists>c'. link_row_step env v k lc tc q st = Inr (e2, c')"
    unfolding link_row_step_def st prod.case Let_def c_def [symmetric] st1(1) res_bind_simps st1' e2(1) by blast
  ultimately show ?thesis by blast
qed

lemma link_rows_keyed:
  "\<exists>st'. link_rows env v k lc tc qs st = Inr st' \<and> keyed (event_source v) (log_link_id (log_link k)) st st'"
proof (induction qs arbitrary: st)
  case (Cons q qs)
  obtain st1 where "link_row_step env v k lc tc q st = Inr st1"
      "keyed (event_source v) (log_link_id (log_link k)) st st1"
    using link_row_keyed by blast
  then show ?case using Cons.IH [of st1] keyed_trans by fastforce
qed simp

lemma autofill_keyed:
  "\<exists>st'. autofill_loop v k fills end_time fill_start st = Inr st' \<and> keyed (event_source v) (log_link_id (log_link k)) st st'"
proof (rule autofill_keeps [of "keyed (event_source v) (log_link_id (log_link k)) st"])
  fix e c and r :: "nat \<times> int"
  assume "keyed (event_source v) (log_link_id (log_link k)) st (e, c)"
  then show "\<exists>e1. put_line (fill_line v k (fst r)) (e, c) = Inr (e1, c\<lparr>lk_next_id := lk_next_id c + 1\<rparr>)
      \<and> keyed (event_source v) (log_link_id (log_link k)) st (e1, filled v (snd r) c)"
    using put_line_keyed [where f = "fill_line v k (fst r)" and c' = "filled v (snd r) c", OF link_lines_of_link(4)]
      keyed_trans by blast
qed simp

text \<open>The first line of a link, when its first event has no mark, carries the link.\<close>

lemma first_row_key:
  assumes "IR_INSERT_BREAK q \<noteq> ''Y''" "IR_INSERT_TRACK q \<noteq> ''Y''"
  shows "\<exists>e' c' l. link_row_step env v k lc tc q (e, c0) = Inr (e', c')
    \<and> map relink_key (log_lines e') = map relink_key (log_lines e) @ [relink_key l]
    \<and> log_source l = event_source v \<and> log_trans_type l = lk_trans_type c0
    \<and> log_link l = copied_link k (event_name v) (log_link_embedded (log_link k))"
proof -
  define c where "c = (if RDLogEvent_nextId e > lk_next_id c0 then c0\<lparr>lk_next_id := RDLogEvent_nextId e\<rparr> else c0)"
  let ?x = "import_line v k lc tc q c (new_log_line\<lparr>log_id := log_max_id e + 1\<rparr>)"
  obtain e' where e': "append_with (import_line v k lc tc q c) e = Inr e'"
      "map relink_key (log_lines e') = map relink_key (log_lines e) @ [relink_key ?x]"
    using append_with_ok [of relink_key] by fastforce
  have x: "log_source ?x = event_source v" "log_trans_type ?x = lk_trans_type c0"
      "log_link ?x = copied_link k (event_name v) (log_link_embedded (log_link k))"
    by (simp_all add: import_line_def RDLogLine_setStartTime_def Let_def c_def)
  have "\<exists>c'. link_row_step env v k lc tc q (e, c0) = Inr (e', c')"
    using assms e'(1)
    by (simp add: link_row_step_def c_def [symmetric] put_break_def put_track_def put_line_def)
  then show ?thesis using e'(2) x by blast
qed

text \<open>The first line of a link, when its first event has a break, is the link of the break.\<close>

lemma break_row_key:
  assumes "IR_INSERT_BREAK q = ''Y''" "IR_INSERT_TRACK q \<noteq> ''Y''"
    and "event_nested_event v \<noteq> ''''" "event_nested_event v \<noteq> event_name v"
  shows "\<exists>e' c' l y. link_row_step env v k lc tc q (e, c0) = Inr (e', c')
    \<and> map relink_key (log_lines e') = map relink_key (log_lines e) @ [relink_key l, y]
    \<and> log_source l = event_source v \<and> log_link l = copied_link k (event_nested_event v) True
    \<and> of_link (event_source v) (log_link_id (log_link k)) y"
proof -
  define c where "c = (if RDLogEvent_nextId e > lk_next_id c0 then c0\<lparr>lk_next_id := RDLogEvent_nextId e\<rparr> else c0)"
  let ?x = "break_line v k c (new_log_line\<lparr>log_id := log_max_id e + 1\<rparr>)"
  let ?c = "c\<lparr>lk_next_id := lk_next_id c + 1\<rparr>"
  obtain e1 where e1: "append_with (break_line v k c) e = Inr e1"
      "map relink_key (log_lines e1) = map relink_key (log_lines e) @ [relink_key ?x]"
    using append_with_ok [of relink_key] by fastforce
  let ?z = "import_line v k lc tc q ?c (new_log_line\<lparr>log_id := log_max_id e1 + 1\<rparr>)"
  obtain e2 where e2: "append_with (import_line v k lc tc q ?c) e1 = Inr e2"
      "map relink_key (log_lines e2) = map relink_key (log_lines e1) @ [relink_key ?z]"
    using append_with_ok [of relink_key] by fastforce
  have x: "log_source ?x = event_source v" "log_link ?x = copied_link k (event_nested_event v) True"
    by (simp_all add: break_line_def RDLogLine_setStartTime_def Let_def)
  have "\<exists>c'. link_row_step env v k lc tc q (e, c0) = Inr (e2, c')"
    using assms e1(1) e2(1)
    by (simp add: link_row_step_def c_def [symmetric] put_break_def put_track_def put_line_def)
  then obtain c' where "link_row_step env v k lc tc q (e, c0) = Inr (e2, c')" ..
  then show ?thesis
    by (intro exI [of _ e2] exI [of _ c'] exI [of _ ?x] exI [of _ "relink_key ?z"])
      (simp only: e1(2) e2(2) x link_lines_of_link append_assoc append.simps simp_thms)
qed

definition used :: "log_line \<Rightarrow> import_row list \<Rightarrow> import_row list" where
  "used k imports = map (\<lambda>q. if in_window k q then q\<lparr>IR_EVENT_USED := ''Y''\<rparr> else q) imports"

definition first_cursor :: "log_line \<Rightarrow> int \<Rightarrow> link_cursor" where
  "first_cursor k nid = \<lparr>lk_time = log_start_time k Logged, lk_time_type = log_time_type k,
     lk_trans_type = log_trans_type k, lk_grace_time = log_grace_time k, lk_next_id = nid\<rparr>"

lemma linkLog_first:
  assumes "filter (in_window k) imports = q # qs"
    and "link_row_step env v k lc tc q (e, first_cursor k nid) = Inr (e0, c)"
    and "map relink_key (log_lines e0) = map relink_key (log_lines e) @ relink_key l # blk0"
    and "\<forall>x \<in> set blk0. of_link (event_source v) (log_link_id (log_link k)) x"
  shows "\<exists>e' es blk. RDEventLine_linkLog env v e nid svc k lc tc imports errors = Inr (e', used k imports, es)
    \<and> map relink_key (log_lines e') = map relink_key (log_lines e) @ relink_key l # blk
    \<and> (\<forall>x \<in> set blk. of_link (event_source v) (log_link_id (log_link k)) x)"
proof -
  let ?stop = "qtime_addMSecs (log_start_time k Logged) (log_link_length (log_link k))"
  let ?s = "event_source v" and ?i = "log_link_id (log_link k)"
  obtain st1 where st1: "link_rows env v k lc tc qs (e0, c) = Inr st1" "keyed ?s ?i (e0, c) st1"
    using link_rows_keyed by blast
  obtain e1 c1 where st1': "st1 = (e1, c1)" by fastforce
  have "\<exists>st. (if event_use_autofill v \<and> event_start_time v \<le> lk_time c1
            then autofill_loop v k (autofill_rows env svc (lk_time c1) ?stop) ?stop (lk_time c1) (e1, c1)
            else Inr (e1, c1)) = Inr st \<and> keyed ?s ?i (e1, c1) st"
    using autofill_keyed by (cases "event_use_autofill v \<and> event_start_time v \<le> lk_time c1") simp_all
  then obtain e2 c2 where 2: "(if event_use_autofill v \<and> event_start_time v \<le> lk_time c1
            then autofill_loop v k (autofill_rows env svc (lk_time c1) ?stop) ?stop (lk_time c1) (e1, c1)
            else Inr (e1, c1)) = Inr (e2, c2)" "keyed ?s ?i (e1, c1) (e2, c2)"
    by (metis surj_pair)
  have run: "RDEventLine_linkLog env v e nid svc k lc tc imports errors
      = Inr (e2, used k imports, fill_check v ?stop (lk_time c2) errors)"
    unfolding RDEventLine_linkLog_def Let_def assms(1) link_rows.simps assms(2) [unfolded first_cursor_def]
      res_bind_simps st1(1) st1' prod.case 2(1) used_def ..
  obtain blk where "map relink_key (log_lines e2) = map relink_key (log_lines e0) @ blk"
      "\<forall>x \<in> set blk. of_link ?s ?i x"
    using keyed_trans [OF st1(2) [unfolded st1'] 2(2)] by (auto simp: keyed_def)
  then show ?thesis using run assms(3,4) by auto
qed

lemma linkLog_keys:
  assumes "filter (in_window k) imports = q # qs" "IR_INSERT_BREAK q \<noteq> ''Y''" "IR_INSERT_TRACK q \<noteq> ''Y''"
  shows "\<exists>e' es l blk. RDEventLine_linkLog env v e nid svc k lc tc imports errors = Inr (e', used k imports, es)
    \<and> map relink_key (log_lines e') = map relink_key (log_lines e) @ relink_key l # blk
    \<and> log_source l = event_source v \<and> log_trans_type l = log_trans_type k
    \<and> log_link l = copied_link k (event_name v) (log_link_embedded (log_link k))
    \<and> (\<forall>x \<in> set blk. of_link (event_source v) (log_link_id (log_link k)) x)"
proof -
  obtain e0 c l where 0: "link_row_step env v k lc tc q (e, first_cursor k nid) = Inr (e0, c)"
      "map relink_key (log_lines e0) = map relink_key (log_lines e) @ [relink_key l]"
      "log_source l = event_source v" "log_trans_type l = log_trans_type k"
      "log_link l = copied_link k (event_name v) (log_link_embedded (log_link k))"
    using first_row_key [OF assms(2,3), of env v k lc tc e "first_cursor k nid"] by (auto simp: first_cursor_def)
  from linkLog_first [OF assms(1) 0(1,2)] 0(3-5) show ?thesis by force
qed

lemma put_last_ok:
  assumes "edit_stable g" "\<And>l i. g (l\<lparr>log_id := i\<rparr>) = g l" "\<And>l i. g (f (l\<lparr>log_id := i\<rparr>)) = g (f l)"
  shows "\<exists>e'. put_last keep f e = Inr e' \<and> map g (log_lines e') = map g (log_lines e) @ [g (f new_log_line)]"
proof -
  let ?n = "length (log_lines e)" and ?l = "new_log_line\<lparr>log_id := log_max_id e + 1\<rparr>"
  define us where "us = (if keep then log_lines e else unlink_at ?n (log_lines e))"
  have ins: "RDLogEvent_insert e (RDLogEvent_size e) 1 keep
      = Inr (e\<lparr>log_lines := us @ [?l], log_max_id := log_max_id e + 1\<rparr>)"
    using insert_exact [of ?n e 1]
    by (cases keep) (simp_all add: us_def RDLogEvent_size_def fresh_lines_Suc RDLogEvent_insert_def)
  have len: "length us = ?n" by (simp add: us_def)
  have us: "map g us = map g (log_lines e)"
    using assms(1)
    by (auto simp: us_def unlink_at_def upd_at_def Let_def edit_stable_def map_update list_update_same_conv)
  have "vec_mod f' (int (length us)) (us @ [x]) = Inr (us @ [f' x])" for f' x
    by (simp add: list_update_append)
  then have "\<exists>e' i. put_last keep f e = Inr e' \<and> log_lines e' = us @ [(f ?l)\<lparr>log_id := i\<rparr>]"
    unfolding put_last_def ins res_bind_simps by (simp add: RDLogEvent_size_def Let_def) blast
  then show ?thesis using us assms(2,3) by auto
qed

lemma relink_key_id [simp]: "relink_key (l\<lparr>log_id := i\<rparr>) = relink_key l"
  by (simp add: relink_key_def)

text \<open>Clearing the links, on the keys.\<close>

fun clear_keys :: "svc_source \<Rightarrow> (line_type \<times> source \<times> trans_type \<times> link_data \<times> qtime \<times> nat \<times> string) list
    \<Rightarrow> int list \<Rightarrow> (line_type \<times> source \<times> trans_type \<times> link_data \<times> qtime \<times> nat \<times> string) list" where
  "clear_keys src [] cl = []"
| "clear_keys src ((ty, s, tr, k, t, n, c) # xs) cl =
     (if log_link_id k \<ge> 0 \<and> s = link_line_source src
      then if log_link_id k \<in> set cl then clear_keys src xs cl
           else (link_line_type src, if log_link_embedded k then Music else Template, tr, k,
                 log_link_start_time k, 0, '''') # clear_keys src xs (cl @ [log_link_id k])
      else (ty, s, tr, k, t, n, c) # clear_keys src xs cl)"

lemma relinked_key:
  "relink_key (relinked_line src l x) = (link_line_type src, if log_link_embedded (log_link l) then Music else Template,
     log_trans_type l, log_link l, log_link_start_time (log_link l), log_cart_number x, log_marker_comment x)"
  by (simp add: relink_key_def relinked_line_def RDLogLine_setStartTime_def Let_def)

lemma new_line_blank [simp]: "log_cart_number new_log_line = 0" "log_marker_comment new_log_line = ''''"
  by (simp_all add: new_log_line_def cleared_line_def)

lemma clear_lines_keys:
  "\<exists>d' cl'. clear_lines src ls (d, cl) = Inr (d', cl')
     \<and> map relink_key (log_lines d') = map relink_key (log_lines d) @ clear_keys src (map relink_key ls) cl"
proof (induction ls arbitrary: d cl)
  case (Cons l ls)
  obtain d1 where 1: "put_last False (\<lambda>_. l) d = Inr d1"
      "map relink_key (log_lines d1) = map relink_key (log_lines d) @ [relink_key l]"
    using put_last_ok [of relink_key "\<lambda>_. l" False d] by auto
  obtain d2 where 2: "put_last False (relinked_line src l) d = Inr d2"
      "map relink_key (log_lines d2) = map relink_key (log_lines d) @ [relink_key (relinked_line src l new_log_line)]"
    using put_last_ok [of relink_key "relinked_line src l" False d] by (auto simp: relinked_key)
  show ?case
    using Cons.IH [of d1 cl] Cons.IH [of d2 "cl @ [log_link_id (log_link l)]"] Cons.IH [of d cl] 1 2
    by (auto simp: RDSvc_CheckId_def relinked_key relink_key_def [of l])
qed simp

text \<open>The keys of a log after linking: each link has become its own line and further lines of the link.\<close>

fun linked_keys :: "svc_source \<Rightarrow> log_line list
    \<Rightarrow> (line_type \<times> source \<times> trans_type \<times> link_data \<times> qtime \<times> nat \<times> string) list \<Rightarrow> bool" where
  "linked_keys src [] ks \<longleftrightarrow> ks = []"
| "linked_keys src (l # ls) ks \<longleftrightarrow>
     (if log_type l = link_line_type src
      then \<exists>x blk ks'. ks = relink_key x # blk @ ks' \<and> log_source x = link_line_source src
             \<and> log_trans_type x = log_trans_type l \<and> log_link x = log_link l
             \<and> (\<forall>y \<in> set blk. of_link (link_line_source src) (log_link_id (log_link l)) y) \<and> linked_keys src ls ks'
      else \<exists>ks'. ks = relink_key l # ks' \<and> linked_keys src ls ks')"

lemma clear_keys_block:
  assumes "\<forall>y \<in> set blk. of_link (link_line_source src) i y" "i \<in> set cl" "i \<ge> 0"
  shows "clear_keys src (blk @ ks) cl = clear_keys src ks cl"
  using assms by (induction blk) (auto simp: of_link_def)

text \<open>A link as \<open>generateLog()\<close> writes it, of an event that imports from this source; a line that is not of a link.\<close>

definition fresh_link :: "svc_source \<Rightarrow> clock_db \<Rightarrow> log_line \<Rightarrow> bool" where
  "fresh_link src cdb l \<longleftrightarrow> log_link_id (log_link l) \<ge> 0
     \<and> log_source l = (if log_link_embedded (log_link l) then Music else Template)
     \<and> log_start_time l Logged = log_link_start_time (log_link l)
     \<and> log_cart_number l = 0 \<and> log_marker_comment l = ''''
     \<and> (\<exists>row. cdb_events cdb (log_link_event_name (log_link l)) = Some row
          \<and> E_IMPORT_SOURCE row = (case src of SvcMusic \<Rightarrow> ImportMusic | SvcTraffic \<Rightarrow> ImportTraffic))"

definition unlinked_line :: "svc_source \<Rightarrow> log_line \<Rightarrow> bool" where
  "unlinked_line src l \<longleftrightarrow> \<not> (log_link_id (log_link l) \<ge> 0 \<and> log_source l = link_line_source src)"

definition own_window :: "import_row list \<Rightarrow> log_line \<Rightarrow> bool" where
  "own_window imports l \<longleftrightarrow> (\<exists>q qs. filter (in_window l) imports = q # qs
     \<and> IR_INSERT_BREAK q \<noteq> ''Y'' \<and> IR_INSERT_TRACK q \<noteq> ''Y'')"

definition apart :: "import_row list \<Rightarrow> log_line \<Rightarrow> log_line \<Rightarrow> bool" where
  "apart imports k l \<longleftrightarrow> (\<forall>q \<in> set imports. \<not> (in_window k q \<and> in_window l q))"

lemma filter_used: "apart imports k l \<Longrightarrow> filter (in_window l) (used k imports) = filter (in_window l) imports"
proof (induction "imports")
  case (Cons q qs)
  have "\<not> in_window l (q\<lparr>IR_EVENT_USED := ''Y''\<rparr>)" by (simp add: in_window_def split: prod.split)
  with Cons show ?case by (auto simp: used_def apart_def)
qed (simp add: used_def)

lemma apart_used: "apart imports a b \<Longrightarrow> apart (used k imports) a b"
  by (auto simp: apart_def used_def in_window_def split: prod.splits if_splits)

lemma fresh_link_event:
  assumes "fresh_link src cdb l"
  shows "event_name (svc_event cdb (log_link_event_name (log_link l))) = log_link_event_name (log_link l)"
    and "event_source (svc_event cdb (log_link_event_name (log_link l))) = link_line_source src"
  using assms
  by (auto simp: fresh_link_def svc_event_def RDEventLine_load_def RDEventLine_setName_def event_source_def
      link_line_source_def split: svc_source.split)

lemma copied_link_same [simp]:
  "copied_link l (log_link_event_name (log_link l)) (log_link_embedded (log_link l)) = log_link l"
  by (simp add: copied_link_def)

definition ready_log :: "svc_source \<Rightarrow> clock_db \<Rightarrow> import_row list \<Rightarrow> log_line list \<Rightarrow> bool" where
  "ready_log src cdb imports ls \<longleftrightarrow>
     (\<forall>l \<in> set ls. if log_type l = link_line_type src then fresh_link src cdb l \<and> own_window imports l
                   else unlinked_line src l)
     \<and> distinct (map (log_link_id \<circ> log_link) (filter (\<lambda>l. log_type l = link_line_type src) ls))
     \<and> (\<forall>k \<in> set ls. \<forall>l \<in> set ls. log_type k = link_line_type src \<longrightarrow> log_type l = link_line_type src
          \<longrightarrow> log_link_id (log_link k) \<noteq> log_link_id (log_link l) \<longrightarrow> apart imports k l)"

lemma ready_tail:
  assumes "ready_log src cdb imports (l # ls)"
  shows "ready_log src cdb (if log_type l = link_line_type src then used l imports else imports) ls"
proof (cases "log_type l = link_line_type src")
  case True
  have "apart imports l x" if "x \<in> set ls" "log_type x = link_line_type src" for x
    using assms True that by (force simp: ready_log_def)
  then have "own_window (used l imports) x = own_window imports x"
    if "x \<in> set ls" "log_type x = link_line_type src" for x
    using that filter_used unfolding own_window_def by metis
  with assms True show ?thesis
    by (simp add: ready_log_def apart_used)
qed (use assms in \<open>simp add: ready_log_def\<close>)

lemma link_lines_keys:
  assumes "links \<noteq> 0" "ready_log src cdb imports ls"
  shows "\<exists>d' i' es' ks. link_lines env cdb svc src lc tc links ls (d, imports, es) = Inr (d', i', es')
     \<and> map relink_key (log_lines d') = map relink_key (log_lines d) @ ks \<and> linked_keys src ls ks"
  using assms(2)
proof (induction ls arbitrary: d "imports" es)
  case (Cons l ls)
  show ?case
  proof (cases "log_type l = link_line_type src")
    case True
    let ?v = "svc_event cdb (log_link_event_name (log_link l))"
    have l: "fresh_link src cdb l" "own_window imports l" using Cons.prems True by (simp_all add: ready_log_def)
    obtain q qs where "filter (in_window l) imports = q # qs" "IR_INSERT_BREAK q \<noteq> ''Y''" "IR_INSERT_TRACK q \<noteq> ''Y''"
      using l(2) by (auto simp: own_window_def)
    from linkLog_keys [OF this, of env ?v d "RDLogEvent_nextId d" svc lc tc es]
    obtain d1 es1 x blk where 1:
        "RDEventLine_linkLog env ?v d (RDLogEvent_nextId d) svc l lc tc imports es = Inr (d1, used l imports, es1)"
        "map relink_key (log_lines d1) = map relink_key (log_lines d) @ relink_key x # blk"
        "log_source x = link_line_source src" "log_trans_type x = log_trans_type l" "log_link x = log_link l"
        "\<forall>y \<in> set blk. of_link (link_line_source src) (log_link_id (log_link l)) y"
      unfolding fresh_link_event [OF l(1)] copied_link_same by blast
    obtain d' i' es' ks where 2:
        "link_lines env cdb svc src lc tc links ls (d1, used l imports, es1) = Inr (d', i', es')"
        "map relink_key (log_lines d') = map relink_key (log_lines d1) @ ks" "linked_keys src ls ks"
      using Cons.IH [of "used l imports" d1 es1] ready_tail [OF Cons.prems] True by auto
    have "link_lines env cdb svc src lc tc links (l # ls) (d, imports, es) = Inr (d', i', es')"
      using True assms(1) 1(1) 2(1) by simp
    then show ?thesis
      using True 1 2(2,3) by fastforce
  next
    case False
    obtain d1 where 1: "put_last True (\<lambda>_. l) d = Inr d1"
        "map relink_key (log_lines d1) = map relink_key (log_lines d) @ [relink_key l]"
      using put_last_ok [of relink_key "\<lambda>_. l" True d] by auto
    then show ?thesis
      using Cons.IH [of "imports" d1 es] ready_tail [OF Cons.prems] False by fastforce
  qed
qed simp

lemma clear_linked_keys:
  assumes "ready_log src cdb imports ls" "linked_keys src ls ks"
    and "\<forall>l \<in> set ls. log_type l = link_line_type src \<longrightarrow> log_link_id (log_link l) \<notin> set cl"
  shows "clear_keys src ks cl = map relink_key ls"
  using assms
proof (induction ls arbitrary: ks cl "imports")
  case (Cons l ls)
  note tail = ready_tail [OF Cons.prems(1)]
  show ?case
  proof (cases "log_type l = link_line_type src")
    case True
    obtain x blk ks' where ks: "ks = relink_key x # blk @ ks'" "log_source x = link_line_source src"
        "log_trans_type x = log_trans_type l" "log_link x = log_link l"
        "\<forall>y \<in> set blk. of_link (link_line_source src) (log_link_id (log_link l)) y" "linked_keys src ls ks'"
      using Cons.prems(2) True by auto
    let ?i = "log_link_id (log_link l)"
    have l: "fresh_link src cdb l" using Cons.prems(1) True by (simp add: ready_log_def)
    then have i: "?i \<ge> 0" "?i \<notin> set cl" using Cons.prems(3) True by (simp_all add: fresh_link_def)
    have "?i \<notin> (log_link_id \<circ> log_link) ` {y \<in> set ls. log_type y = link_line_type src}"
      using Cons.prems(1) True by (simp add: ready_log_def)
    then have "\<forall>y \<in> set ls. log_type y = link_line_type src \<longrightarrow> log_link_id (log_link y) \<notin> set (cl @ [?i])"
      using Cons.prems(3) by (fastforce simp: image_iff)
    with Cons.IH tail ks(6) have "clear_keys src ks' (cl @ [?i]) = map relink_key ls" by blast
    moreover have "clear_keys src (blk @ ks') (cl @ [?i]) = clear_keys src ks' (cl @ [?i])"
      by (rule clear_keys_block [OF ks(5)]) (simp_all add: i)
    moreover have "clear_keys src ks cl = (link_line_type src, if log_link_embedded (log_link l) then Music else Template,
        log_trans_type l, log_link l, log_link_start_time (log_link l), 0, '''') # clear_keys src (blk @ ks') (cl @ [?i])"
      using i unfolding ks(1) relink_key_def [of x] ks(2-4) by simp
    moreover have "relink_key l = (link_line_type src, if log_link_embedded (log_link l) then Music else Template,
        log_trans_type l, log_link l, log_link_start_time (log_link l), 0, '''')"
      using l True by (simp add: relink_key_def fresh_link_def)
    ultimately show ?thesis by simp
  next
    case False
    then obtain ks' where ks: "ks = relink_key l # ks'" "linked_keys src ls ks'" using Cons.prems(2) by auto
    have "clear_keys src ks' cl = map relink_key ls"
      using Cons.IH [OF tail ks(2)] Cons.prems(3) by simp
    then show ?thesis
      using False ks(1) Cons.prems(1) by (auto simp: relink_key_def ready_log_def unlinked_line_def)
  qed
qed simp

section \<open>Linking and clearing\<close>

text \<open>C20: Clearing the links undoes linking, on the lines of the log in memory. When every link of the log stands as
  generateLog() writes it, with a number of its own and a window of the import file of its own, not empty, whose first
  event is marked neither with a break nor with a track, no other line has both the source and a link number, and the
  LOGS row does not count 0 links, then linking the log and clearing its links gives every line of the log back: its
  type, source, transition, link, start time, cart and comment. (\<open>clear_takes_break_for_link\<close> shows a log in which
  the first event has a break.)\<close>

theorem clear_undoes_link:
  assumes "links \<noteq> 0" "ready_log src cdb imports ls"
  shows "\<exists>dest imports' errors' dest' ids.
     link_lines env cdb svc src label_cart track_cart links ls (svc_log logname, imports, errors) = Inr (dest, imports', errors')
     \<and> clear_lines src (log_lines dest) (svc_log logname, []) = Inr (dest', ids)
     \<and> map relink_key (log_lines dest') = map relink_key ls"
proof -
  obtain dest i' es' ks where 1:
      "link_lines env cdb svc src label_cart track_cart links ls (svc_log logname, imports, errors) = Inr (dest, i', es')"
      "map relink_key (log_lines dest) = ks" "linked_keys src ls ks"
    using link_lines_keys [OF assms, of env svc label_cart track_cart "svc_log logname" errors] by (auto simp: svc_log_def)
  obtain dest' ids where 2: "clear_lines src (log_lines dest) (svc_log logname, []) = Inr (dest', ids)"
      "map relink_key (log_lines dest') = clear_keys src ks []"
    using clear_lines_keys [of src "log_lines dest" "svc_log logname" "[]"] 1(2) by (auto simp: svc_log_def)
  show ?thesis
    using 1(1) 2 clear_linked_keys [OF assms(2) 1(3)] by auto
qed

text \<open>C30: The undoing fails when the first event of a music link has a break and the event of the link has a nested
  event: the first line of the link is then the embedded link of the break, which carries the same link number and
  source, so clearing takes its event. The link that comes back names the nested event and is marked as embedded,
  and the event of the link is lost.\<close>

theorem clear_takes_break_for_link:
  assumes "links \<noteq> 0" "log_type l = MusicLink" "fresh_link SvcMusic cdb l"
    and "filter (in_window l) imports = q # qs" "IR_INSERT_BREAK q = ''Y''" "IR_INSERT_TRACK q \<noteq> ''Y''"
    and "nested = event_nested_event (svc_event cdb (log_link_event_name (log_link l)))"
    and "nested \<noteq> ''''" "nested \<noteq> log_link_event_name (log_link l)"
  shows "\<exists>dest imports' errors' dest' ids x.
     link_lines env cdb svc SvcMusic label_cart track_cart links [l] (svc_log logname, imports, errors)
       = Inr (dest, imports', errors')
     \<and> clear_lines SvcMusic (log_lines dest) (svc_log logname, []) = Inr (dest', ids)
     \<and> log_lines dest' = [x] \<and> log_type x = MusicLink
     \<and> log_link x = (log_link l)\<lparr>log_link_event_name := nested, log_link_embedded := True\<rparr>"
proof -
  let ?v = "svc_event cdb (log_link_event_name (log_link l))" and ?e = "svc_log logname"
  let ?nid = "RDLogEvent_nextId ?e"
  have v: "event_name ?v = log_link_event_name (log_link l)" "event_source ?v = Music"
    using fresh_link_event [OF assms(3)] by (simp_all add: link_line_source_def)
  obtain e0 c b y where 0: "link_row_step env ?v l label_cart track_cart q (?e, first_cursor l ?nid) = Inr (e0, c)"
      "map relink_key (log_lines e0) = map relink_key (log_lines ?e) @ relink_key b # [y]"
      "log_source b = Music" "log_link b = copied_link l nested True" "of_link Music (log_link_id (log_link l)) y"
    using break_row_key [OF assms(5,6), of ?v env l label_cart track_cart ?e "first_cursor l ?nid"] assms(7-9) v by auto
  have one: "\<forall>x \<in> set [y]. of_link (event_source ?v) (log_link_id (log_link l)) x" using 0(5) v by simp
  obtain dest es blk where 1:
      "RDEventLine_linkLog env ?v ?e ?nid svc l label_cart track_cart imports errors = Inr (dest, used l imports, es)"
      "map relink_key (log_lines dest) = relink_key b # blk"
      "\<forall>x \<in> set blk. of_link Music (log_link_id (log_link l)) x"
    using linkLog_first [OF assms(4) 0(1,2) one, of svc errors] v by (auto simp: svc_log_def)
  have "link_lines env cdb svc SvcMusic label_cart track_cart links [l] (?e, imports, errors) = Inr (dest, used l imports, es)"
    using assms(1,2) 1(1) by (simp add: link_line_type_def)
  moreover obtain dest' ids where "clear_lines SvcMusic (log_lines dest) (?e, []) = Inr (dest', ids)"
      "map relink_key (log_lines dest') = clear_keys SvcMusic (relink_key b # blk) []"
    using clear_lines_keys [of SvcMusic "log_lines dest" ?e "[]"] 1(2) by (auto simp: svc_log_def)
  moreover have "clear_keys SvcMusic (relink_key b # blk) [] = [(MusicLink, Music, log_trans_type b,
      copied_link l nested True, log_link_start_time (log_link l), 0, '''')]"
    using clear_keys_block [of blk SvcMusic "log_link_id (log_link l)" "[log_link_id (log_link l)]" "[]"] 1(3) 0(3,4) assms(3)
    by (simp add: relink_key_def [of b] link_line_source_def link_line_type_def fresh_link_def copied_link_def)
  ultimately show ?thesis
    by (auto simp: map_eq_Cons_conv relink_key_def copied_link_def)
qed

section \<open>Concrete runs\<close>

text \<open>A service with a clock in every hour of the week, and a log of one line and one music link at 09:00.\<close>

definition demo_env :: svc_env where
  "demo_env = \<lparr>se_sched = sample_env, se_cdb = sample_cdb, se_clocks = (\<lambda>_. Some ''C''), se_chainto = True,
     se_server = quoting_server, se_setup = (\<lambda>_. None), se_parser_strings = (\<lambda>_. None), se_break_string = ''BREAK'', se_track_string = (\<lambda>_. ''''),
     se_cuts = [], se_now = 0\<rparr>"

definition demo_store :: svc_store where
  "demo_store = \<lparr>sv_db = empty_db, sv_links = (\<lambda>_. 0), sv_linked = (\<lambda>_. True), sv_link_datetime = 0,
     sv_modified_datetime = 0\<rparr>"

definition demo_event_row :: event_row where
  "demo_event_row = sample_row\<lparr>E_IMPORT_SOURCE := ImportMusic, E_NESTED_EVENT := ''Spots''\<rparr>"

definition demo_cdb :: clock_db where
  "demo_cdb = sample_cdb\<lparr>cdb_events := (\<lambda>_. Some demo_event_row)\<rparr>"

definition demo_link :: log_line where
  "demo_link = new_log_line\<lparr>log_id := 1, log_type := MusicLink, log_source := Template,
     log_start_time := (\<lambda>_. 32400000),
     log_link := \<lparr>log_link_event_name = ''Hits'', log_link_start_time = 32400000, log_link_length = 600000,
       log_link_start_slop = 0, log_link_end_slop = 0, log_link_id = 0, log_link_embedded = False\<rparr>\<rparr>"

definition demo_row :: "string \<Rightarrow> import_row" where
  "demo_row b = \<lparr>IR_CART_NUMBER = 100, IR_START_HOUR = 9, IR_START_SECS = 330, IR_LENGTH = 30000, IR_EXT_DATA = '''',
     IR_EXT_EVENT_ID = '''', IR_EXT_ANNC_TYPE = '''', IR_EXT_CART_NAME = ''000100'', IR_INSERT_BREAK = b,
     IR_INSERT_TRACK = ''N'', IR_INSERT_FIRST = InsertNone, IR_TITLE = ''Spot'', IR_TRACK_STRING = '''',
     IR_EVENT_USED = ''N''\<rparr>"

lemma demo_window: "in_window demo_link (demo_row b)"
  by (simp add: in_window_def link_window_def demo_link_def demo_row_def qtime_hour_def qtime_minute_def
      qtime_second_def trunc_div_def qtime_addMSecs_def msecs_per_day_def)

lemma demo_fresh: "fresh_link SvcMusic demo_cdb demo_link"
  by (simp add: fresh_link_def demo_link_def demo_cdb_def demo_event_row_def)

theorem generated_day_witness:
  "\<exists>s' stack' errors'. RDSvc_generateLog demo_env (Some 1) ''LOG'' ''NEXT'' [] [] demo_store
     = Inr (True, s', stack', errors') \<and> L_LABEL (last (db_tables (sv_db s') (RDLog_tableName ''LOG''))) = ''NEXT''"
proof -
  have "char_col 64 ''NEXT'' = ''NEXT''" by code_simp
  then show ?thesis
    using generated_day [of "''LOG''" demo_env 1 "''NEXT''" "[]" "[]" demo_store SvcMusic]
    by (auto simp: demo_env_def)
qed

theorem clear_undoes_link_witness:
  "\<exists>dest imports' errors' dest' ids.
     link_lines sample_env demo_cdb ''S'' SvcMusic '''' '''' 1 [new_log_line, demo_link] (svc_log ''LOG'', [demo_row ''N''], [])
       = Inr (dest, imports', errors')
     \<and> clear_lines SvcMusic (log_lines dest) (svc_log ''LOG'', []) = Inr (dest', ids)
     \<and> map relink_key (log_lines dest') = map relink_key [new_log_line, demo_link]"
proof (rule clear_undoes_link)
  have t: "log_type new_log_line = Cart" "log_link new_log_line = cleared_link" "log_link_id cleared_link = -1" "log_type demo_link = MusicLink"
    by (simp_all add: new_log_line_def cleared_line_def cleared_link_def demo_link_def)
  have "own_window [demo_row ''N''] demo_link"
    using demo_window by (simp add: own_window_def) (simp add: demo_row_def)
  then show "ready_log SvcMusic demo_cdb [demo_row ''N''] [new_log_line, demo_link]"
    using demo_fresh by (simp add: ready_log_def t link_line_type_def unlinked_line_def)
qed simp

theorem clear_takes_break_for_link_witness:
  "\<exists>dest imports' errors' dest' ids x.
     link_lines sample_env demo_cdb ''S'' SvcMusic '''' '''' 1 [demo_link] (svc_log ''LOG'', [demo_row ''Y''], [])
       = Inr (dest, imports', errors')
     \<and> clear_lines SvcMusic (log_lines dest) (svc_log ''LOG'', []) = Inr (dest', ids)
     \<and> log_lines dest' = [x] \<and> log_type x = MusicLink
     \<and> log_link x = (log_link demo_link)\<lparr>log_link_event_name := ''Spots'', log_link_embedded := True\<rparr>"
  by (rule clear_takes_break_for_link [where q = "demo_row ''Y''" and qs = "[]"])
    (use demo_fresh demo_window in \<open>simp_all add: demo_link_def [THEN arg_cong, of log_type]
       demo_link_def [THEN arg_cong, of log_link] demo_row_def [THEN arg_cong, of IR_INSERT_BREAK]
       demo_row_def [THEN arg_cong, of IR_INSERT_TRACK] svc_event_def RDEventLine_load_def RDEventLine_setName_def
       demo_cdb_def [THEN arg_cong, of cdb_events] demo_event_row_def\<close>)

end
