(* ===== verification/Ring_Buffer.thy ===== *)
theory Ring_Buffer
  imports Rd_Prelude "HOL-Library.Word"
begin

text \<open>
  The lock-free byte queue between the audio callbacks and the file threads, \<open>RDRingBuffer\<close> of
  \<open>lib/rdringbuffer.h\<close> and \<open>lib/rdringbuffer.cpp\<close>. Pointers, sizes and counts are \<open>size_t\<close>, 64-bit
  words whose arithmetic wraps; \<open>memcpy\<close> faults when it leaves the buffer or the source. The
  locale \<open>byte_queue\<close> is the contract of a bounded first-in first-out queue; the ring buffer
  interprets it under the invariant \<open>ring_ok\<close>.
\<close>

unbundle bit_operations_syntax

type_synonym size_t = "64 word"

record ring =
  rb_buf :: "char list"
  rb_write_ptr :: size_t
  rb_read_ptr :: size_t
  rb_size :: size_t
  rb_size_mask :: size_t
  rb_mlocked :: bool

text \<open>The size is the least power of two, at least 2, that is not below the request;
  \<open>1 << power_of_two\<close> is an \<open>int\<close>, so requests above \<open>2 ^ 30\<close> are outside the model.\<close>

function pow_loop :: "int \<Rightarrow> nat \<Rightarrow> nat" where
  "pow_loop sz p = (if p < 30 \<and> 2 ^ p < sz then pow_loop sz (p + 1) else p)"
  by pat_completeness auto
termination by (relation "measure (\<lambda>(sz, p). 30 - p)") auto

declare pow_loop.simps [simp del]

definition RDRingBuffer_new :: "int \<Rightarrow> char list \<Rightarrow> ring" where
  "RDRingBuffer_new sz mem =
     (let n = 2 ^ pow_loop sz 1
      in \<lparr>rb_buf = take n (mem @ replicate n (CHR 0x00)), rb_write_ptr = 0, rb_read_ptr = 0,
          rb_size = of_nat n, rb_size_mask = of_nat n - 1, rb_mlocked = False\<rparr>)"

definition RDRingBuffer_reset :: "ring \<Rightarrow> ring" where
  "RDRingBuffer_reset rb = rb\<lparr>rb_read_ptr := 0, rb_write_ptr := 0\<rparr>"

definition RDRingBuffer_mlock :: "bool \<Rightarrow> ring \<Rightarrow> ring \<times> bool" where
  "RDRingBuffer_mlock fails rb = (if fails then (rb, False) else (rb\<lparr>rb_mlocked := True\<rparr>, True))"

definition RDRingBuffer_writeAdvance :: "size_t \<Rightarrow> ring \<Rightarrow> ring" where
  "RDRingBuffer_writeAdvance cnt rb =
     rb\<lparr>rb_write_ptr := (rb_write_ptr rb + cnt) AND rb_size_mask rb\<rparr>"

definition RDRingBuffer_readAdvance :: "size_t \<Rightarrow> ring \<Rightarrow> ring" where
  "RDRingBuffer_readAdvance cnt rb =
     rb\<lparr>rb_read_ptr := (rb_read_ptr rb + cnt) AND rb_size_mask rb\<rparr>"

definition RDRingBuffer_writeSpace :: "ring \<Rightarrow> size_t" where
  "RDRingBuffer_writeSpace rb =
     (let w = rb_write_ptr rb; r = rb_read_ptr rb
      in if w > r then ((r - w + rb_size rb) AND rb_size_mask rb) - 1
         else if w < r then (r - w) - 1
         else rb_size rb - 1)"

definition RDRingBuffer_readSpace :: "ring \<Rightarrow> size_t" where
  "RDRingBuffer_readSpace rb =
     (let w = rb_write_ptr rb; r = rb_read_ptr rb
      in if w > r then w - r else (w - r + rb_size rb) AND rb_size_mask rb)"

text \<open>\<open>memcpy\<close> out of and into the buffer.\<close>

definition copy_out :: "char list \<Rightarrow> size_t \<Rightarrow> size_t \<Rightarrow> char list res" where
  "copy_out buf i n = (if unat i + unat n \<le> length buf
     then Inr (take (unat n) (drop (unat i) buf)) else Inl OutOfRange)"

definition copy_in :: "char list \<Rightarrow> size_t \<Rightarrow> char list \<Rightarrow> size_t \<Rightarrow> char list res" where
  "copy_in buf i src n = (if unat i + unat n \<le> length buf \<and> unat n \<le> length src
     then Inr (take (unat i) buf @ take (unat n) src @ drop (unat i + unat n) buf)
     else Inl OutOfRange)"

text \<open>The two parts of a transfer of \<open>n\<close> bytes at \<open>ptr\<close>.\<close>

definition split_transfer :: "ring \<Rightarrow> size_t \<Rightarrow> size_t \<Rightarrow> size_t \<times> size_t" where
  "split_transfer rb ptr n =
     (let cnt2 = ptr + n
      in if cnt2 > rb_size rb then (rb_size rb - ptr, cnt2 AND rb_size_mask rb) else (n, 0))"

definition RDRingBuffer_read :: "size_t \<Rightarrow> ring \<Rightarrow> (ring \<times> char list \<times> size_t) res" where
  "RDRingBuffer_read cnt rb =
     (let free_cnt = RDRingBuffer_readSpace rb
      in if free_cnt = 0 then Inr (rb, [], 0)
         else let to_read = (if cnt > free_cnt then free_cnt else cnt);
                  (n1, n2) = split_transfer rb (rb_read_ptr rb) to_read
              in res_bind (copy_out (rb_buf rb) (rb_read_ptr rb) n1)
                (\<lambda>d1. let rb1 = RDRingBuffer_readAdvance n1 rb
                      in if n2 \<noteq> 0
                         then res_bind (copy_out (rb_buf rb1) (rb_read_ptr rb1) n2)
                                (\<lambda>d2. Inr (RDRingBuffer_readAdvance n2 rb1, d1 @ d2, to_read))
                         else Inr (rb1, d1, to_read)))"

definition RDRingBuffer_write :: "char list \<Rightarrow> size_t \<Rightarrow> ring \<Rightarrow> (ring \<times> size_t) res" where
  "RDRingBuffer_write src cnt rb =
     (let free_cnt = RDRingBuffer_writeSpace rb
      in if free_cnt = 0 then Inr (rb, 0)
         else let to_write = (if cnt > free_cnt then free_cnt else cnt);
                  (n1, n2) = split_transfer rb (rb_write_ptr rb) to_write
              in res_bind (copy_in (rb_buf rb) (rb_write_ptr rb) src n1)
                (\<lambda>b1. let rb1 = RDRingBuffer_writeAdvance n1 (rb\<lparr>rb_buf := b1\<rparr>)
                      in if n2 \<noteq> 0
                         then res_bind (copy_in (rb_buf rb1) (rb_write_ptr rb1) (drop (unat n1) src) n2)
                                (\<lambda>b2. Inr (RDRingBuffer_writeAdvance n2 (rb1\<lparr>rb_buf := b2\<rparr>), to_write))
                         else Inr (rb1, to_write)))"

text \<open>The vectors: two (start, length) parts of the buffer.\<close>

definition vector_parts :: "ring \<Rightarrow> size_t \<Rightarrow> size_t \<Rightarrow> (size_t \<times> size_t) \<times> (size_t \<times> size_t)" where
  "vector_parts rb ptr free_cnt =
     (let cnt2 = ptr + free_cnt
      in if cnt2 > rb_size rb then ((ptr, rb_size rb - ptr), (0, cnt2 AND rb_size_mask rb))
         else ((ptr, free_cnt), (0, 0)))"

definition RDRingBuffer_getReadVector :: "ring \<Rightarrow> (size_t \<times> size_t) \<times> (size_t \<times> size_t)" where
  "RDRingBuffer_getReadVector rb =
     (let w = rb_write_ptr rb; r = rb_read_ptr rb;
          free_cnt = (if w > r then w - r else (w - r + rb_size rb) AND rb_size_mask rb)
      in vector_parts rb r free_cnt)"

definition RDRingBuffer_getWriteVector :: "ring \<Rightarrow> (size_t \<times> size_t) \<times> (size_t \<times> size_t)" where
  "RDRingBuffer_getWriteVector rb =
     (let w = rb_write_ptr rb; r = rb_read_ptr rb;
          free_cnt = (if w > r then ((r - w + rb_size rb) AND rb_size_mask rb) - 1
                      else if w < r then (r - w) - 1 else rb_size rb - 1)
      in vector_parts rb w free_cnt)"

section \<open>Invariant and abstraction\<close>

definition cap :: "ring \<Rightarrow> nat" where
  "cap rb = unat (rb_size rb)"

definition ring_ok :: "ring \<Rightarrow> bool" where
  "ring_ok rb \<longleftrightarrow> (\<exists>p. 0 < p \<and> p \<le> 30 \<and> rb_size rb = 2 ^ p \<and> rb_size_mask rb = mask p)
     \<and> unat (rb_write_ptr rb) < cap rb \<and> unat (rb_read_ptr rb) < cap rb
     \<and> length (rb_buf rb) = cap rb"

definition used :: "ring \<Rightarrow> nat" where
  "used rb = (unat (rb_write_ptr rb) + cap rb - unat (rb_read_ptr rb)) mod cap rb"

definition contents :: "ring \<Rightarrow> char list" where
  "contents rb = map (\<lambda>i. rb_buf rb ! ((unat (rb_read_ptr rb) + i) mod cap rb)) [0..<used rb]"

lemma length_contents [simp]: "length (contents rb) = used rb"
  by (simp add: contents_def)

lemma unat_pow: "p \<le> 30 \<Longrightarrow> unat (2 ^ p :: size_t) = 2 ^ p"
proof -
  assume p: "p \<le> 30"
  have "(2::nat) ^ p \<le> 2 ^ 30" using p by (intro power_increasing) auto
  moreover have "unat (of_nat (2 ^ p) :: size_t) = 2 ^ p mod 2 ^ 64"
    by (simp only: unat_of_nat) simp
  ultimately show ?thesis by simp
qed

lemma and_mask_nat: "unat (x AND mask p :: size_t) = unat x mod 2 ^ p"
proof -
  have "unat (x AND mask p) = take_bit p (unat x)"
    by (simp only: take_bit_eq_mask [symmetric] unsigned_take_bit_eq)
  then show ?thesis by (simp add: take_bit_eq_mod)
qed

lemma ring_bounds:
  assumes "ring_ok rb"
  shows "2 \<le> cap rb" "cap rb \<le> 2 ^ 30" "unat (x AND rb_size_mask rb) = unat x mod cap rb"
    "unat (rb_write_ptr rb) < cap rb" "unat (rb_read_ptr rb) < cap rb" "length (rb_buf rb) = cap rb"
proof -
  obtain p where p: "0 < p" "p \<le> 30" "rb_size rb = 2 ^ p" "rb_size_mask rb = mask p"
    using assms by (auto simp: ring_ok_def)
  have cap: "cap rb = 2 ^ p" using p by (simp add: cap_def unat_pow)
  show "2 \<le> cap rb" using p(1) cap by (cases p) auto
  show "cap rb \<le> 2 ^ 30" unfolding cap using p(2) by (rule power_increasing) simp
  show "unat (x AND rb_size_mask rb) = unat x mod cap rb" using p(4) cap by (simp add: and_mask_nat)
qed (use assms in \<open>simp_all add: ring_ok_def\<close>)

lemma unat_shift:
  fixes a b n :: size_t
  assumes "unat b \<le> unat n" "unat a + unat n < 2 ^ 64"
  shows "unat (a - b + n) = unat a + unat n - unat b"
proof -
  have eq: "a - b + n = a + (n - b)" by (simp add: algebra_simps)
  have "unat (n - b) = unat n - unat b" using assms(1) by (simp add: unat_sub word_le_nat_alt)
  moreover have "unat (a + (n - b)) = unat a + unat (n - b)"
    using assms calculation by (subst unat_plus_if') auto
  ultimately show ?thesis unfolding eq using assms(1) by simp
qed

lemma ring_shift:
  assumes "ring_ok rb" "unat a < cap rb" "unat b < cap rb"
  shows "unat (a - b + rb_size rb) = unat a + cap rb - unat b"
    "unat ((a - b + rb_size rb) AND rb_size_mask rb) = (unat a + cap rb - unat b) mod cap rb"
proof -
  show "unat (a - b + rb_size rb) = unat a + cap rb - unat b"
    using assms(2,3) ring_bounds(2) [OF assms(1)] by (subst unat_shift) (simp_all add: cap_def)
  then show "unat ((a - b + rb_size rb) AND rb_size_mask rb) = (unat a + cap rb - unat b) mod cap rb"
    using ring_bounds(3) [OF assms(1)] by simp
qed

lemma mod_once: "(b::nat) \<le> a \<Longrightarrow> a < n \<Longrightarrow> (a + n - b) mod n = a - b"
  by (simp add: mod_if)

lemma used_less: "ring_ok rb \<Longrightarrow> used rb < cap rb"
  using ring_bounds(1) [of rb] by (simp add: used_def)

lemma readSpace_nat:
  assumes "ring_ok rb"
  shows "unat (RDRingBuffer_readSpace rb) = used rb"
proof -
  note b = ring_bounds [OF assms]
  show ?thesis
  proof (cases "rb_write_ptr rb > rb_read_ptr rb")
    case True
    then have lt: "unat (rb_read_ptr rb) < unat (rb_write_ptr rb)" by (simp add: word_less_nat_alt)
    then show ?thesis
      using True b(4) mod_once [of "unat (rb_read_ptr rb)" "unat (rb_write_ptr rb)" "cap rb"]
      by (simp add: RDRingBuffer_readSpace_def Let_def used_def unat_sub word_le_nat_alt)
  next
    case False
    then show ?thesis
      using ring_shift(2) [OF assms b(4,5)] by (simp add: RDRingBuffer_readSpace_def Let_def used_def)
  qed
qed

lemma writeSpace_nat:
  assumes "ring_ok rb"
  shows "unat (RDRingBuffer_writeSpace rb) = cap rb - 1 - used rb"
proof -
  note b = ring_bounds [OF assms]
  let ?w = "unat (rb_write_ptr rb)" and ?r = "unat (rb_read_ptr rb)"
  consider "?r < ?w" | "?w < ?r" | "?w = ?r" by linarith
  then show ?thesis
  proof cases
    case 1
    then have used: "used rb = ?w - ?r"
      using b(4) mod_once [of ?r ?w "cap rb"] by (simp add: used_def)
    let ?x = "(rb_read_ptr rb - rb_write_ptr rb + rb_size rb) AND rb_size_mask rb"
    have x: "unat ?x = ?r + cap rb - ?w"
      using ring_shift(2) [OF assms b(5,4)] 1 b(4,5) by simp
    then have "1 \<le> ?x" using b(4) 1 by (simp add: word_le_nat_alt)
    then have "unat (?x - 1) = ?r + cap rb - ?w - 1" using x by (simp add: unat_sub)
    then show ?thesis
      using 1 used b(4) by (simp add: RDRingBuffer_writeSpace_def Let_def word_less_nat_alt)
  next
    case 2
    have used: "used rb = ?w + cap rb - ?r" using 2 b(5) by (simp add: used_def)
    have d: "unat (rb_read_ptr rb - rb_write_ptr rb) = ?r - ?w"
      using 2 by (simp add: unat_sub word_le_nat_alt)
    then have "1 \<le> rb_read_ptr rb - rb_write_ptr rb" using 2 by (simp add: word_le_nat_alt)
    then have "unat (rb_read_ptr rb - rb_write_ptr rb - 1) = ?r - ?w - 1" using d by (simp add: unat_sub)
    then show ?thesis
      using 2 used b(5) by (simp add: RDRingBuffer_writeSpace_def Let_def word_less_nat_alt)
  next
    case 3
    then have "used rb = 0" using b(1) by (simp add: used_def)
    moreover have "1 \<le> rb_size rb" using b(1) by (simp add: word_le_nat_alt cap_def)
    ultimately show ?thesis
      using 3 by (simp add: RDRingBuffer_writeSpace_def Let_def word_less_nat_alt unat_sub cap_def)
  qed
qed

lemma split_transfer_nat:
  assumes "ring_ok rb" "unat ptr < cap rb" "unat n < cap rb"
  obtains n1 n2 where "split_transfer rb ptr n = (n1, n2)"
    "unat n1 = min (unat n) (cap rb - unat ptr)" "unat n2 = unat n - (cap rb - unat ptr)"
    "unat n1 + unat n2 = unat n"
proof -
  note b = ring_bounds [OF assms(1)]
  have sum: "unat (ptr + n) = unat ptr + unat n"
    using b(2) assms(2,3) by (subst unat_plus_if') auto
  show ?thesis
  proof (cases "cap rb < unat ptr + unat n")
    case True
    then have "split_transfer rb ptr n = (rb_size rb - ptr, (ptr + n) AND rb_size_mask rb)"
      using sum by (simp add: split_transfer_def Let_def word_less_nat_alt cap_def)
    moreover have "unat (rb_size rb - ptr) = cap rb - unat ptr"
      using assms(2) by (simp add: unat_sub cap_def word_le_nat_alt)
    moreover have "unat ((ptr + n) AND rb_size_mask rb) = unat ptr + unat n - cap rb"
      using b(3) sum True assms(2,3) by (simp add: mod_if)
    ultimately show ?thesis using True assms(2) by (intro that) auto
  next
    case False
    then have "split_transfer rb ptr n = (n, 0)"
      using sum by (simp add: split_transfer_def Let_def word_less_nat_alt cap_def)
    then show ?thesis using False by (intro that) auto
  qed
qed

section \<open>Transfers\<close>

lemma wrap_once: "(i::nat) < 2 * n \<Longrightarrow> i mod n = (if i < n then i else i - n)"
  by (simp add: mod_if)

lemma slice_wrap:
  assumes "r < length buf" "k \<le> length buf"
  shows "take (min k (length buf - r)) (drop r buf) @ take (k - (length buf - r)) buf
       = map (\<lambda>i. buf ! ((r + i) mod length buf)) [0..<k]"
proof (rule nth_equalityI)
  show len: "length (take (min k (length buf - r)) (drop r buf) @ take (k - (length buf - r)) buf)
      = length (map (\<lambda>i. buf ! ((r + i) mod length buf)) [0..<k])"
    using assms by auto
  fix i
  assume "i < length (take (min k (length buf - r)) (drop r buf) @ take (k - (length buf - r)) buf)"
  then have i: "i < k" using len by simp
  then have "r + i < 2 * length buf" using assms by simp
  with i assms show "(take (min k (length buf - r)) (drop r buf) @ take (k - (length buf - r)) buf) ! i
      = map (\<lambda>i. buf ! ((r + i) mod length buf)) [0..<k] ! i"
    by (auto simp: nth_append wrap_once add.commute)
qed

text \<open>Writing \<open>k\<close> bytes at \<open>w\<close>, wrapping: position \<open>j\<close> is overwritten when its distance from
  \<open>w\<close> is less than \<open>k\<close>.\<close>

definition overwritten :: "char list \<Rightarrow> nat \<Rightarrow> char list \<Rightarrow> nat \<Rightarrow> char list" where
  "overwritten buf w src k =
     map (\<lambda>j. let d = (j + length buf - w) mod length buf in if d < k then src ! d else buf ! j)
       [0..<length buf]"

lemma nth_patch:
  assumes "w + n \<le> length buf" "n \<le> length src" "j < length buf"
  shows "(take w buf @ take n src @ drop (w + n) buf) ! j
       = (if w \<le> j \<and> j < w + n then src ! (j - w) else buf ! j)"
  using assms by (auto simp: nth_append)

lemma write_wrap:
  assumes w: "w < length buf" and k: "k < length buf" "k \<le> length src"
    and n1: "n1 = min k (length buf - w)" and n2: "n2 = k - (length buf - w)"
    and b1: "b1 = take w buf @ take n1 src @ drop (w + n1) buf"
  shows "take n2 (drop n1 src) @ drop n2 b1 = overwritten buf w src k"
proof (rule nth_equalityI)
  have n12: "w + n1 \<le> length buf" "n1 \<le> length src" "n1 + n2 = k" "n2 \<le> w" "0 < n2 \<Longrightarrow> w + n1 = length buf"
    using w k n1 n2 by linarith+
  have lb1: "length b1 = length buf" using n12 by (simp add: b1)
  have ln2: "length (take n2 (drop n1 src)) = n2" using n12 k by simp
  show len: "length (take n2 (drop n1 src) @ drop n2 b1) = length (overwritten buf w src k)"
    unfolding length_append ln2 using n12 w lb1 by (simp add: overwritten_def)
  fix j
  assume "j < length (take n2 (drop n1 src) @ drop n2 b1)"
  then have j: "j < length buf" using len by (simp add: overwritten_def)
  define d where "d = (j + length buf - w) mod length buf"
  have d: "d = (if w \<le> j then j - w else j + length buf - w)"
    using j w wrap_once [of "j + length buf - w" "length buf"] by (auto simp: d_def)
  have rhs: "overwritten buf w src k ! j = (if d < k then src ! d else buf ! j)"
    using j by (simp add: overwritten_def d_def Let_def)
  have lhs: "(take n2 (drop n1 src) @ drop n2 b1) ! j = (if j < n2 then src ! (n1 + j) else b1 ! j)"
    using ln2 lb1 n12 w j by (simp add: nth_append)
  show "(take n2 (drop n1 src) @ drop n2 b1) ! j = overwritten buf w src k ! j"
  proof (cases "j < n2")
    case True
    then have "d = n1 + j" "d < k" using n12 w d by (simp_all split: if_splits)
    then show ?thesis using True lhs rhs by simp
  next
    case False
    have "b1 ! j = (if w \<le> j \<and> j < w + n1 then src ! (j - w) else buf ! j)"
      unfolding b1 using nth_patch n12 j by blast
    moreover have "w \<le> j \<and> j < w + n1 \<longleftrightarrow> d < k"
    proof (cases "w \<le> j")
      case True
      then have dj: "d = j - w" using d by simp
      show ?thesis
      proof (cases "n2 = 0")
        case True
        then show ?thesis using dj \<open>w \<le> j\<close> n12(3) by linarith
      next
        case False
        then have "w + n1 = length buf" using n12(5) by simp
        then show ?thesis using dj \<open>w \<le> j\<close> j n12(3) by linarith
      qed
    next
      case below: False
      then have "d = j + length buf - w" using d by simp
      then show ?thesis using below False n12(1,3) by linarith
    qed
    moreover have "d < k \<Longrightarrow> w \<le> j \<Longrightarrow> d = j - w" using d by simp
    ultimately show ?thesis using False lhs rhs by auto
  qed
qed

lemma read_ptr_advance [simp]:
  "rb_buf (RDRingBuffer_readAdvance n rb) = rb_buf rb" "rb_size (RDRingBuffer_readAdvance n rb) = rb_size rb"
  "rb_size_mask (RDRingBuffer_readAdvance n rb) = rb_size_mask rb"
  "rb_write_ptr (RDRingBuffer_readAdvance n rb) = rb_write_ptr rb"
  "rb_read_ptr (RDRingBuffer_readAdvance n rb) = (rb_read_ptr rb + n) AND rb_size_mask rb"
  "cap (RDRingBuffer_readAdvance n rb) = cap rb"
  by (simp_all add: RDRingBuffer_readAdvance_def cap_def)

lemma write_ptr_advance [simp]:
  "rb_buf (RDRingBuffer_writeAdvance n rb) = rb_buf rb" "rb_size (RDRingBuffer_writeAdvance n rb) = rb_size rb"
  "rb_size_mask (RDRingBuffer_writeAdvance n rb) = rb_size_mask rb"
  "rb_read_ptr (RDRingBuffer_writeAdvance n rb) = rb_read_ptr rb"
  "rb_write_ptr (RDRingBuffer_writeAdvance n rb) = (rb_write_ptr rb + n) AND rb_size_mask rb"
  "cap (RDRingBuffer_writeAdvance n rb) = cap rb"
  by (simp_all add: RDRingBuffer_writeAdvance_def cap_def)

lemma unat_advance:
  assumes "ring_ok rb" "unat p < cap rb" "unat n \<le> cap rb"
  shows "unat ((p + n) AND rb_size_mask rb) = (unat p + unat n) mod cap rb"
proof -
  note b = ring_bounds [OF assms(1)]
  have "unat (p + n) = unat p + unat n"
    using b(2) assms(2,3) by (subst unat_plus_if') auto
  then show ?thesis using b(3) by simp
qed

lemma read_steps:
  assumes "RDRingBuffer_readSpace rb \<noteq> 0"
    and "n = (if cnt > RDRingBuffer_readSpace rb then RDRingBuffer_readSpace rb else cnt)"
    and "split_transfer rb (rb_read_ptr rb) n = (n1, n2)"
    and "copy_out (rb_buf rb) (rb_read_ptr rb) n1 = Inr d1"
  shows "n2 = 0 \<Longrightarrow> RDRingBuffer_read cnt rb = Inr (RDRingBuffer_readAdvance n1 rb, d1, n)"
    and "n2 \<noteq> 0 \<Longrightarrow>
      copy_out (rb_buf rb) (rb_read_ptr (RDRingBuffer_readAdvance n1 rb)) n2 = Inr d2 \<Longrightarrow>
      RDRingBuffer_read cnt rb
        = Inr (RDRingBuffer_readAdvance n2 (RDRingBuffer_readAdvance n1 rb), d1 @ d2, n)"
  using assms(1,3,4) unfolding RDRingBuffer_read_def Let_def assms(2) [symmetric] by simp_all

text \<open>The last step of a transfer of \<open>k\<close> bytes at \<open>p\<close>: where the pointer stands.\<close>

lemma wrapped_pointer:
  fixes p k c :: nat
  assumes "p < c" "k < c" "0 < k - (c - p)"
  shows "(k - (c - p)) mod c = (p + k) mod c"
proof -
  have "p + k = (k - (c - p)) + c" using assms by linarith
  then show ?thesis by (metis mod_add_self2)
qed

lemma read_result:
  assumes "ring_ok rb" "k = min (unat cnt) (used rb)"
  shows "\<exists>rb' n. RDRingBuffer_read cnt rb = Inr (rb', take k (contents rb), n) \<and> unat n = k
    \<and> rb_buf rb' = rb_buf rb \<and> rb_size rb' = rb_size rb \<and> rb_size_mask rb' = rb_size_mask rb
    \<and> rb_write_ptr rb' = rb_write_ptr rb \<and> unat (rb_read_ptr rb') = (unat (rb_read_ptr rb) + k) mod cap rb"
proof (cases "RDRingBuffer_readSpace rb = 0")
  case True
  then have "used rb = 0" using readSpace_nat [OF assms(1)] by simp
  then show ?thesis
    using True assms ring_bounds [OF assms(1)] by (simp add: RDRingBuffer_read_def Let_def)
next
  case False
  note b = ring_bounds [OF assms(1)]
  let ?r = "unat (rb_read_ptr rb)"
  define n where "n = (if cnt > RDRingBuffer_readSpace rb then RDRingBuffer_readSpace rb else cnt)"
  have n: "unat n = k"
    using assms(2) readSpace_nat [OF assms(1)] by (auto simp: n_def word_less_nat_alt)
  have k: "k < cap rb" using assms(2) used_less [OF assms(1)] by simp
  obtain n1 n2 where s: "split_transfer rb (rb_read_ptr rb) n = (n1, n2)"
      "unat n1 = min k (cap rb - ?r)" "unat n2 = k - (cap rb - ?r)" "unat n1 + unat n2 = k"
    using split_transfer_nat [OF assms(1) b(5), of n] n k by metis
  let ?rb1 = "RDRingBuffer_readAdvance n1 rb"
  have r1: "unat (rb_read_ptr ?rb1) = (?r + unat n1) mod cap rb"
    using unat_advance [OF assms(1) b(5), of n1] s(2) b(5) by simp
  have out1: "copy_out (rb_buf rb) (rb_read_ptr rb) n1 = Inr (take (unat n1) (drop ?r (rb_buf rb)))"
    using s(2) b(5,6) by (auto simp: copy_out_def)
  note steps = read_steps [OF False n_def s(1) out1]
  have data: "take (unat n1) (drop ?r (rb_buf rb)) @ take (unat n2) (rb_buf rb) = take k (contents rb)"
    using slice_wrap [of ?r "rb_buf rb" k] s(2,3) b(5,6) k assms(2)
    by (simp add: contents_def take_map)
  show ?thesis
  proof (cases "n2 = 0")
    case True
    then have "unat n1 = k" using s(4) by simp
    then show ?thesis
      using steps(1) [OF True] True data r1 n
      by (intro exI [of _ "?rb1"] exI [of _ n]) simp
  next
    case n2: False
    then have pos: "0 < unat n2" by (simp add: unat_gt_0)
    then have n1: "unat n1 = cap rb - ?r" using s(2,3) by simp
    then have zero: "rb_read_ptr ?rb1 = 0" using r1 b(5) by (simp add: unat_eq_zero [symmetric])
    have out2: "copy_out (rb_buf rb) (rb_read_ptr ?rb1) n2 = Inr (take (unat n2) (rb_buf rb))"
      unfolding zero using s(3) k b(6) by (simp add: copy_out_def)
    have "unat ((0 + n2) AND rb_size_mask rb) = unat n2 mod cap rb"
      using b(3) by simp
    also have "\<dots> = (?r + k) mod cap rb"
      using wrapped_pointer [OF b(5) k] pos s(3) by simp
    finally have "unat (rb_read_ptr (RDRingBuffer_readAdvance n2 ?rb1)) = (?r + k) mod cap rb"
      unfolding read_ptr_advance(5) [of n2 ?rb1] zero by simp
    then show ?thesis
      using steps(2) [OF n2 out2] data n
      by (intro exI [of _ "RDRingBuffer_readAdvance n2 ?rb1"] exI [of _ n]) simp
  qed
qed

lemma write_steps:
  assumes "RDRingBuffer_writeSpace rb \<noteq> 0"
    and "n = (if cnt > RDRingBuffer_writeSpace rb then RDRingBuffer_writeSpace rb else cnt)"
    and "split_transfer rb (rb_write_ptr rb) n = (n1, n2)"
    and "copy_in (rb_buf rb) (rb_write_ptr rb) src n1 = Inr b1"
    and "rb1 = RDRingBuffer_writeAdvance n1 (rb\<lparr>rb_buf := b1\<rparr>)"
  shows "n2 = 0 \<Longrightarrow> RDRingBuffer_write src cnt rb = Inr (rb1, n)"
    and "n2 \<noteq> 0 \<Longrightarrow>
      copy_in b1 (rb_write_ptr rb1) (drop (unat n1) src) n2 = Inr b2 \<Longrightarrow>
      RDRingBuffer_write src cnt rb = Inr (RDRingBuffer_writeAdvance n2 (rb1\<lparr>rb_buf := b2\<rparr>), n)"
  using assms(1,3,4,5) unfolding RDRingBuffer_write_def Let_def assms(2) [symmetric] by simp_all

lemma write_result:
  assumes "ring_ok rb" "k = min (unat cnt) (cap rb - 1 - used rb)" "k \<le> length src"
  shows "\<exists>rb' n. RDRingBuffer_write src cnt rb = Inr (rb', n) \<and> unat n = k
    \<and> rb_buf rb' = overwritten (rb_buf rb) (unat (rb_write_ptr rb)) src k
    \<and> rb_size rb' = rb_size rb \<and> rb_size_mask rb' = rb_size_mask rb \<and> rb_read_ptr rb' = rb_read_ptr rb
    \<and> unat (rb_write_ptr rb') = (unat (rb_write_ptr rb) + k) mod cap rb"
proof (cases "RDRingBuffer_writeSpace rb = 0")
  case True
  note b = ring_bounds [OF assms(1)]
  have "k = 0" using True writeSpace_nat [OF assms(1)] assms(2) by simp
  moreover have "overwritten buf w src 0 = buf" for buf w
    by (rule nth_equalityI) (simp_all add: overwritten_def)
  ultimately show ?thesis using True b(4) by (simp add: RDRingBuffer_write_def Let_def)
next
  case False
  note b = ring_bounds [OF assms(1)]
  let ?w = "unat (rb_write_ptr rb)"
  define n where "n = (if cnt > RDRingBuffer_writeSpace rb then RDRingBuffer_writeSpace rb else cnt)"
  have n: "unat n = k"
    using assms(2) writeSpace_nat [OF assms(1)] by (auto simp: n_def word_less_nat_alt)
  have k: "k < cap rb" using assms(2) b(1) by simp
  obtain n1 n2 where s: "split_transfer rb (rb_write_ptr rb) n = (n1, n2)"
      "unat n1 = min k (cap rb - ?w)" "unat n2 = k - (cap rb - ?w)" "unat n1 + unat n2 = k"
    using split_transfer_nat [OF assms(1) b(4), of n] n k by metis
  define b1 where "b1 = take ?w (rb_buf rb) @ take (unat n1) src @ drop (?w + unat n1) (rb_buf rb)"
  define rb1 where "rb1 = RDRingBuffer_writeAdvance n1 (rb\<lparr>rb_buf := b1\<rparr>)"
  have n1: "?w + unat n1 \<le> cap rb" "unat n1 \<le> length src" "unat n2 \<le> ?w"
    using s(2,3) b(4) k assms(3) by linarith+
  have w1: "unat (rb_write_ptr rb1) = (?w + unat n1) mod cap rb"
    using unat_advance [OF assms(1) b(4), of n1] n1 by (simp add: rb1_def)
  have in1: "copy_in (rb_buf rb) (rb_write_ptr rb) src n1 = Inr b1"
    using n1 b(6) by (simp add: copy_in_def b1_def)
  note steps = write_steps [OF False n_def s(1) in1 rb1_def]
  have lb1: "length b1 = cap rb" using n1 b(6) by (simp add: b1_def)
  have data: "take (unat n2) (drop (unat n1) src) @ drop (unat n2) b1 = overwritten (rb_buf rb) ?w src k"
    by (rule write_wrap [of _ _ _ _ "unat n1"])
      (use b(4,6) k assms(3) s(2,3) in \<open>simp_all add: b1_def\<close>)
  show ?thesis
  proof (cases "n2 = 0")
    case True
    then have "unat n1 = k" using s(4) by simp
    then show ?thesis
      using steps(1) [OF True] True data w1 n
      by (intro exI [of _ rb1] exI [of _ n]) (simp add: rb1_def)
  next
    case n2: False
    then have pos: "0 < unat n2" by (simp add: unat_gt_0)
    then have "unat n1 = cap rb - ?w" using s(2,3) by simp
    then have zero: "rb_write_ptr rb1 = 0" using w1 b(4) by (simp add: unat_eq_zero [symmetric])
    have in2: "copy_in b1 (rb_write_ptr rb1) (drop (unat n1) src) n2
        = Inr (take (unat n2) (drop (unat n1) src) @ drop (unat n2) b1)"
      unfolding zero using n1 lb1 b(4) s(4) assms(3) by (simp add: copy_in_def)
    have "unat ((0 + n2) AND rb_size_mask rb) = unat n2 mod cap rb"
      using b(3) by simp
    also have "\<dots> = (?w + k) mod cap rb"
      using wrapped_pointer [OF b(4) k] pos s(3) by simp
    finally have "unat ((rb_write_ptr rb1 + n2) AND rb_size_mask rb) = (?w + k) mod cap rb"
      unfolding zero by simp
    then show ?thesis
      using steps(2) [OF n2 in2] data n
      by (intro exI [of _ "RDRingBuffer_writeAdvance n2 (rb1\<lparr>rb_buf := overwritten (rb_buf rb) ?w src k\<rparr>)"]
          exI [of _ n]) (simp add: rb1_def)
  qed
qed

section \<open>The queue\<close>

lemma ring_distance: "p < c \<Longrightarrow> e < c \<Longrightarrow> ((p + e) mod c + c - p) mod c = (e::nat)"
  by (cases "p + e < c") (auto simp: mod_if [of "p + e"] mod_if [of "p + e - c"] mod_if [of "e + c"])

lemma write_ptr_used:
  assumes "ring_ok rb"
  shows "unat (rb_write_ptr rb) = (unat (rb_read_ptr rb) + used rb) mod cap rb"
proof -
  note b = ring_bounds [OF assms]
  have "(unat (rb_read_ptr rb) + used rb) mod cap rb = (unat (rb_write_ptr rb) + cap rb) mod cap rb"
    using b(5) by (simp add: used_def mod_add_right_eq)
  then show ?thesis using b(4) by simp
qed

lemma used_unique:
  assumes "ring_ok rb" "u < cap rb"
    "unat (rb_write_ptr rb) = (unat (rb_read_ptr rb) + u) mod cap rb"
  shows "used rb = u"
  using ring_distance [OF ring_bounds(5) [OF assms(1)] assms(2)] assms(3) by (simp add: used_def)

lemma read_queue:
  assumes "ring_ok rb" "k = min (unat cnt) (used rb)"
  shows "\<exists>rb' n. RDRingBuffer_read cnt rb = Inr (rb', take k (contents rb), n) \<and> unat n = k
    \<and> ring_ok rb' \<and> contents rb' = drop k (contents rb) \<and> cap rb' = cap rb"
proof -
  note b = ring_bounds [OF assms(1)]
  obtain rb' n where r: "RDRingBuffer_read cnt rb = Inr (rb', take k (contents rb), n)" "unat n = k"
      "rb_buf rb' = rb_buf rb" "rb_size rb' = rb_size rb" "rb_size_mask rb' = rb_size_mask rb"
      "rb_write_ptr rb' = rb_write_ptr rb"
      "unat (rb_read_ptr rb') = (unat (rb_read_ptr rb) + k) mod cap rb"
    using read_result [OF assms] by blast
  have c: "cap rb' = cap rb" using r(4) by (simp add: cap_def)
  have ok: "ring_ok rb'" using assms(1) r c b(1) by (auto simp: ring_ok_def)
  have k: "k \<le> used rb" using assms(2) by simp
  have "used rb' = used rb - k"
  proof (rule used_unique [OF ok])
    show "used rb - k < cap rb'" using used_less [OF assms(1)] c by simp
    show "unat (rb_write_ptr rb') = (unat (rb_read_ptr rb') + (used rb - k)) mod cap rb'"
      unfolding r(6,7) c mod_add_left_eq using write_ptr_used [OF assms(1)] k by simp
  qed
  then have "contents rb' = drop k (contents rb)"
    by (intro nth_equalityI)
      (simp_all add: contents_def r c mod_add_left_eq add.assoc drop_map)
  with r ok c show ?thesis by blast
qed

lemma overwritten_at:
  assumes "w < length buf" "e < length buf"
  shows "overwritten buf w src k ! ((w + e) mod length buf)
    = (if e < k then src ! e else buf ! ((w + e) mod length buf))"
proof -
  have "0 < length buf" using assms by linarith
  then have "(w + e) mod length buf < length buf" by (rule mod_less_divisor)
  then show ?thesis using ring_distance [OF assms] by (simp add: overwritten_def Let_def)
qed

lemma write_queue:
  assumes "ring_ok rb" "k = min (unat cnt) (cap rb - 1 - used rb)" "k \<le> length src"
  shows "\<exists>rb' n. RDRingBuffer_write src cnt rb = Inr (rb', n) \<and> unat n = k
    \<and> ring_ok rb' \<and> contents rb' = contents rb @ take k src \<and> cap rb' = cap rb"
proof -
  note b = ring_bounds [OF assms(1)]
  let ?w = "unat (rb_write_ptr rb)" and ?r = "unat (rb_read_ptr rb)" and ?c = "cap rb"
  obtain rb' n where r: "RDRingBuffer_write src cnt rb = Inr (rb', n)" "unat n = k"
      "rb_buf rb' = overwritten (rb_buf rb) ?w src k" "rb_size rb' = rb_size rb"
      "rb_size_mask rb' = rb_size_mask rb" "rb_read_ptr rb' = rb_read_ptr rb"
      "unat (rb_write_ptr rb') = (?w + k) mod ?c"
    using write_result [OF assms] by blast
  have c: "cap rb' = ?c" using r(4) by (simp add: cap_def)
  have lb: "length (rb_buf rb') = ?c" using r(3) b(6) by (simp add: overwritten_def)
  have ok: "ring_ok rb'" using assms(1) r(4-7) lb c b(1) by (auto simp: ring_ok_def)
  have u: "used rb + k < ?c" using assms(2) used_less [OF assms(1)] by simp
  have u': "used rb' = used rb + k"
  proof (rule used_unique [OF ok])
    show "used rb + k < cap rb'" using u c by simp
    show "unat (rb_write_ptr rb') = (unat (rb_read_ptr rb') + (used rb + k)) mod cap rb'"
      unfolding r(6,7) c write_ptr_used [OF assms(1)] mod_add_left_eq by (simp add: add.assoc)
  qed
  have old: "rb_buf rb' ! ((?r + i) mod ?c) = rb_buf rb ! ((?r + i) mod ?c)" if "i < used rb" for i
  proof -
    have e: "?c + i - used rb < ?c" "\<not> ?c + i - used rb < k" using that u by linarith+
    have "(?w + (?c + i - used rb)) mod ?c = (?r + used rb + (?c + i - used rb)) mod ?c"
      unfolding write_ptr_used [OF assms(1)] mod_add_left_eq by simp
    also have "?r + used rb + (?c + i - used rb) = ?r + i + ?c" using that u by linarith
    finally have "(?w + (?c + i - used rb)) mod ?c = (?r + i) mod ?c" by simp
    then show ?thesis
      using overwritten_at [of ?w "rb_buf rb" "?c + i - used rb" src k] e b(4,6) r(3) by simp
  qed
  have new: "rb_buf rb' ! ((?r + (used rb + i)) mod ?c) = src ! i" if "i < k" for i
  proof -
    have "(?w + i) mod ?c = (?r + (used rb + i)) mod ?c"
      unfolding write_ptr_used [OF assms(1)] mod_add_left_eq by (simp add: add.assoc)
    then show ?thesis
      using overwritten_at [of ?w "rb_buf rb" i src k] that u b(4,6) r(3) by simp
  qed
  have "contents rb' = contents rb @ take k src"
  proof (rule nth_equalityI)
    show "length (contents rb') = length (contents rb @ take k src)" using u' assms(3) by simp
    fix i
    assume "i < length (contents rb')"
    then have i: "i < used rb + k" using u' by simp
    have lhs: "contents rb' ! i = rb_buf rb' ! ((?r + i) mod ?c)"
      using i u' by (simp add: contents_def r(6) c)
    show "contents rb' ! i = (contents rb @ take k src) ! i"
    proof (cases "i < used rb")
      case True
      then show ?thesis using lhs old [OF True] by (simp add: nth_append contents_def)
    next
      case False
      then show ?thesis using lhs new [of "i - used rb"] i by (simp add: nth_append)
    qed
  qed
  with r ok c show ?thesis by blast
qed

lemma pow_loop_bounds: "0 < p \<Longrightarrow> p \<le> 30 \<Longrightarrow> p \<le> pow_loop sz p \<and> pow_loop sz p \<le> 30"
proof (induction sz p rule: pow_loop.induct)
  case (1 sz p)
  then show ?case by (subst (1 2) pow_loop.simps) auto
qed

lemma pow_loop_covers: "sz \<le> 2 ^ 30 \<Longrightarrow> p \<le> 30 \<Longrightarrow> sz \<le> 2 ^ pow_loop sz p"
proof (induction sz p rule: pow_loop.induct)
  case (1 sz p)
  show ?case
  proof (cases "p < 30 \<and> 2 ^ p < sz")
    case True
    then show ?thesis using 1 by (subst pow_loop.simps) simp
  next
    case False
    then have "sz \<le> 2 ^ p" using 1(2,3) by (cases "p = 30") auto
    then show ?thesis using False by (subst pow_loop.simps) simp
  qed
qed

lemma pow_loop_least: "(2::int) ^ p < 2 * sz \<Longrightarrow> (2::int) ^ pow_loop sz p < 2 * sz"
proof (induction sz p rule: pow_loop.induct)
  case (1 sz p)
  then show ?case by (subst pow_loop.simps) auto
qed

lemma new_ring_ok:
  "ring_ok (RDRingBuffer_new sz mem)" "contents (RDRingBuffer_new sz mem) = []"
  "cap (RDRingBuffer_new sz mem) = 2 ^ pow_loop sz 1"
proof -
  have p: "1 \<le> pow_loop sz 1" "pow_loop sz 1 \<le> 30" using pow_loop_bounds [of 1 sz] by auto
  have n: "of_nat (2 ^ pow_loop sz 1) = (2 ^ pow_loop sz 1 :: size_t)" by simp
  show c: "cap (RDRingBuffer_new sz mem) = 2 ^ pow_loop sz 1"
    using p by (simp add: RDRingBuffer_new_def Let_def cap_def unat_pow)
  then show "ring_ok (RDRingBuffer_new sz mem)"
    using p unfolding ring_ok_def c
    by (auto simp: RDRingBuffer_new_def Let_def mask_eq_decr_exp intro!: exI [of _ "pow_loop sz 1"])
  show "contents (RDRingBuffer_new sz mem) = []"
    using c by (simp add: contents_def used_def) (simp add: RDRingBuffer_new_def Let_def)
qed

section \<open>The queue contract\<close>

text \<open>A session of transfers; the result holds the bytes the queue accepted and the bytes it
  delivered, in order.\<close>

datatype 'b transfer = Put "'b list" | Get nat

fun run_queue :: "('b list \<Rightarrow> 's \<Rightarrow> ('s \<times> nat) res) \<Rightarrow> (nat \<Rightarrow> 's \<Rightarrow> ('s \<times> 'b list) res)
    \<Rightarrow> 'b transfer list \<Rightarrow> 's \<Rightarrow> ('s \<times> 'b list \<times> 'b list) res" where
  "run_queue put get [] s = Inr (s, [], [])"
| "run_queue put get (Put xs # ops) s =
     res_bind (put xs s) (\<lambda>(s1, n). res_bind (run_queue put get ops s1)
       (\<lambda>(s2, a, d). Inr (s2, take n xs @ a, d)))"
| "run_queue put get (Get n # ops) s =
     res_bind (get n s) (\<lambda>(s1, ys). res_bind (run_queue put get ops s1)
       (\<lambda>(s2, a, d). Inr (s2, a, ys @ d)))"

fun fits_width :: "nat \<Rightarrow> 'b transfer \<Rightarrow> bool" where
  "fits_width b (Put xs) = (length xs < b)"
| "fits_width b (Get n) = (n < b)"

locale byte_queue =
  fixes ok :: "'s \<Rightarrow> bool" and queue :: "'s \<Rightarrow> 'b list" and limit :: "'s \<Rightarrow> nat" and bound :: nat
    and put :: "'b list \<Rightarrow> 's \<Rightarrow> ('s \<times> nat) res" and get :: "nat \<Rightarrow> 's \<Rightarrow> ('s \<times> 'b list) res"
  assumes within: "ok s \<Longrightarrow> length (queue s) \<le> limit s"
    and put_law: "ok s \<Longrightarrow> length xs < bound \<Longrightarrow> k = min (length xs) (limit s - length (queue s)) \<Longrightarrow>
      \<exists>s'. put xs s = Inr (s', k) \<and> ok s' \<and> queue s' = queue s @ take k xs \<and> limit s' = limit s"
    and get_law: "ok s \<Longrightarrow> n < bound \<Longrightarrow>
      \<exists>s'. get n s = Inr (s', take n (queue s)) \<and> ok s' \<and> queue s' = drop n (queue s) \<and> limit s' = limit s"
begin

lemma run_fifo:
  assumes "ok s" "list_all (fits_width bound) ops"
  shows "\<exists>s' a d. run_queue put get ops s = Inr (s', a, d) \<and> ok s' \<and> limit s' = limit s
    \<and> queue s @ a = d @ queue s'"
  using assms
proof (induction ops arbitrary: s)
  case Nil
  then show ?case by simp
next
  case (Cons op ops)
  show ?case
  proof (cases op)
    case (Put xs)
    let ?k = "min (length xs) (limit s - length (queue s))"
    obtain s1 where s1: "put xs s = Inr (s1, ?k)" "ok s1" "queue s1 = queue s @ take ?k xs" "limit s1 = limit s"
      using put_law [OF Cons.prems(1), of xs ?k] Cons.prems(2) Put by auto
    obtain s' a d where r: "run_queue put get ops s1 = Inr (s', a, d)" "ok s'" "limit s' = limit s1"
        "queue s1 @ a = d @ queue s'"
      using Cons.IH [OF s1(2)] Cons.prems(2) by auto
    have "run_queue put get (op # ops) s = Inr (s', take ?k xs @ a, d)"
      by (simp only: Put run_queue.simps s1(1) r(1) res_bind_simps split)
    then show ?thesis using r s1 by auto
  next
    case (Get n)
    obtain s1 where s1: "get n s = Inr (s1, take n (queue s))" "ok s1" "queue s1 = drop n (queue s)"
        "limit s1 = limit s"
      using get_law [OF Cons.prems(1), of n] Cons.prems(2) Get by auto
    obtain s' a d where r: "run_queue put get ops s1 = Inr (s', a, d)" "ok s'" "limit s' = limit s1"
        "queue s1 @ a = d @ queue s'"
      using Cons.IH [OF s1(2)] Cons.prems(2) by auto
    have "run_queue put get (op # ops) s = Inr (s', a, take n (queue s) @ d)"
      by (simp only: Get run_queue.simps s1(1) r(1) res_bind_simps split)
    moreover have "queue s @ a = take n (queue s) @ d @ queue s'"
      using r(4) s1(3) by (metis append.assoc append_take_drop_id)
    ultimately show ?thesis using r s1 by auto
  qed
qed

text \<open>A write that fits is delivered whole by the next read that asks for everything.\<close>

lemma put_then_get:
  assumes "ok s" "length (queue s) + length xs \<le> limit s" "limit s < bound"
  shows "\<exists>s1 s2. put xs s = Inr (s1, length xs) \<and> get (limit s) s1 = Inr (s2, queue s @ xs)
    \<and> ok s2 \<and> queue s2 = []"
proof -
  obtain s1 where s1: "put xs s = Inr (s1, length xs)" "ok s1" "queue s1 = queue s @ xs" "limit s1 = limit s"
    using put_law [OF assms(1), of xs "length xs"] assms(2,3) by (auto simp: min_absorb1)
  then show ?thesis using get_law [OF s1(2) assms(3)] assms(2) by (auto simp: s1)
qed

end

section \<open>The ring buffer is a queue\<close>

definition ring_limit :: "ring \<Rightarrow> nat" where
  "ring_limit rb = cap rb - 1"

definition ring_put :: "char list \<Rightarrow> ring \<Rightarrow> (ring \<times> nat) res" where
  "ring_put xs rb = res_bind (RDRingBuffer_write xs (of_nat (length xs)) rb) (\<lambda>(rb', n). Inr (rb', unat n))"

definition ring_get :: "nat \<Rightarrow> ring \<Rightarrow> (ring \<times> char list) res" where
  "ring_get n rb = res_bind (RDRingBuffer_read (of_nat n) rb) (\<lambda>(rb', d, m). Inr (rb', d))"

lemma unat_count: "n < 2 ^ 64 \<Longrightarrow> unat (of_nat n :: size_t) = n"
  by (simp add: unat_of_nat)

interpretation ring_queue: byte_queue ring_ok contents ring_limit "2 ^ 64" ring_put ring_get
proof (unfold_locales, goal_cases)
  case (1 s)
  then show ?case using used_less [of s] by (simp add: ring_limit_def)
next
  case (2 s xs k)
  then show ?case
    using write_queue [OF 2(1), of k "of_nat (length xs)" xs]
    by (auto simp: ring_put_def ring_limit_def unat_count)
next
  case (3 s n)
  then show ?case
    using read_queue [OF 3(1), of "min n (used s)" "of_nat n"]
    by (auto simp: ring_get_def ring_limit_def unat_count min_def)
qed

section \<open>The vectors\<close>

lemma vector_parts_eq:
  "vector_parts rb ptr n = (case split_transfer rb ptr n of (n1, n2) \<Rightarrow> ((ptr, n1), (0, n2)))"
  by (simp add: vector_parts_def split_transfer_def Let_def)

lemma read_vector_split:
  "RDRingBuffer_getReadVector rb = vector_parts rb (rb_read_ptr rb) (RDRingBuffer_readSpace rb)"
  by (simp add: RDRingBuffer_getReadVector_def RDRingBuffer_readSpace_def Let_def)

lemma write_vector_split:
  "RDRingBuffer_getWriteVector rb = vector_parts rb (rb_write_ptr rb) (RDRingBuffer_writeSpace rb)"
  by (simp add: RDRingBuffer_getWriteVector_def RDRingBuffer_writeSpace_def Let_def)

definition in_slice :: "nat \<Rightarrow> size_t \<times> size_t \<Rightarrow> bool" where
  "in_slice j v \<longleftrightarrow> unat (fst v) \<le> j \<and> j < unat (fst v) + unat (snd v)"

lemma write_slices:
  assumes "ring_ok rb" "RDRingBuffer_getWriteVector rb = (v0, v1)"
  shows "unat (snd v0) + unat (snd v1) = cap rb - 1 - used rb"
    and "i < used rb \<Longrightarrow> \<not> in_slice ((unat (rb_read_ptr rb) + i) mod cap rb) v0
      \<and> \<not> in_slice ((unat (rb_read_ptr rb) + i) mod cap rb) v1"
proof -
  note b = ring_bounds [OF assms(1)]
  let ?w = "unat (rb_write_ptr rb)" and ?r = "unat (rb_read_ptr rb)"
  let ?k = "cap rb - 1 - used rb"
  have k: "unat (RDRingBuffer_writeSpace rb) = ?k" by (rule writeSpace_nat [OF assms(1)])
  obtain n1 n2 where s: "split_transfer rb (rb_write_ptr rb) (RDRingBuffer_writeSpace rb) = (n1, n2)"
      "unat n1 = min ?k (cap rb - ?w)" "unat n2 = ?k - (cap rb - ?w)" "unat n1 + unat n2 = ?k"
    using split_transfer_nat [OF assms(1) b(4), of "RDRingBuffer_writeSpace rb"] k b(1) by auto
  have v: "v0 = (rb_write_ptr rb, n1)" "v1 = (0, n2)"
    using assms(2) s(1) by (simp_all add: write_vector_split vector_parts_eq)
  show "unat (snd v0) + unat (snd v1) = ?k" using s(4) v by simp
  assume i: "i < used rb"
  have u: "used rb < cap rb" by (rule used_less [OF assms(1)])
  have wp: "?w = (if ?r + used rb < cap rb then ?r + used rb else ?r + used rb - cap rb)"
    using write_ptr_used [OF assms(1)] wrap_once [of "?r + used rb" "cap rb"] b(5) u by simp
  have ip: "(?r + i) mod cap rb = (if ?r + i < cap rb then ?r + i else ?r + i - cap rb)"
    using wrap_once [of "?r + i" "cap rb"] b(5) i u by simp
  show "\<not> in_slice ((?r + i) mod cap rb) v0 \<and> \<not> in_slice ((?r + i) mod cap rb) v1"
    unfolding in_slice_def v fst_conv snd_conv unat_0 ip s(2,3)
    using wp i u b(4,5) by (cases "?r + used rb < cap rb"; cases "?r + i < cap rb") auto
qed

section \<open>Properties\<close>

text \<open>C5: Any session of writes and reads on a new ring buffer runs without a fault, and the bytes
  delivered, followed by the bytes still queued, are exactly the bytes accepted: nothing is lost,
  duplicated or reordered across wrap-around. The queue never holds more than the size less one.\<close>

theorem ring_session_fifo:
  assumes "sz \<le> 2 ^ 30" "list_all (fits_width (2 ^ 64)) ops"
  shows "\<exists>rb a d. run_queue ring_put ring_get ops (RDRingBuffer_new sz mem) = Inr (rb, a, d)
    \<and> a = d @ contents rb \<and> length (contents rb) < cap rb \<and> cap rb = cap (RDRingBuffer_new sz mem)"
proof -
  obtain rb a d where r: "run_queue ring_put ring_get ops (RDRingBuffer_new sz mem) = Inr (rb, a, d)"
      "ring_ok rb" "ring_limit rb = ring_limit (RDRingBuffer_new sz mem)" "a = d @ contents rb"
    using ring_queue.run_fifo [OF new_ring_ok(1) assms(2), of sz mem] by (auto simp: new_ring_ok(2))
  moreover have "cap rb = cap (RDRingBuffer_new sz mem)"
    using r(3) ring_bounds(1) [OF r(2)] ring_bounds(1) [OF new_ring_ok(1), of sz mem]
    by (simp add: ring_limit_def)
  ultimately show ?thesis using used_less [OF r(2)] by auto
qed

theorem ring_session_fifo_witness:
  "\<exists>rb a d. run_queue ring_put ring_get [Put ''abcde'', Get 2, Put ''fgh'', Get 3] (RDRingBuffer_new 4 [])
    = Inr (rb, a, d) \<and> a = d @ contents rb \<and> length (contents rb) < cap rb
    \<and> cap rb = cap (RDRingBuffer_new 4 [])"
  by (rule ring_session_fifo) simp_all

text \<open>A block that fits in the free space is accepted whole and comes back unchanged, behind
  what was queued, from one read of everything, wherever the pointers stand.\<close>

theorem ring_write_read:
  assumes "ring_ok rb" "used rb + length xs < cap rb"
  shows "\<exists>rb1 n rb2 m. RDRingBuffer_write xs (of_nat (length xs)) rb = Inr (rb1, n) \<and> unat n = length xs
    \<and> RDRingBuffer_read (of_nat (cap rb - 1)) rb1 = Inr (rb2, contents rb @ xs, m)
    \<and> RDRingBuffer_readSpace rb2 = 0"
proof -
  have c: "cap rb - 1 < 2 ^ 64" using ring_bounds(2) [OF assms(1)] by simp
  have fit: "used rb + length xs \<le> cap rb - 1" using assms(2) by linarith
  obtain s1 s2 where s: "ring_put xs rb = Inr (s1, length xs)"
      "ring_get (cap rb - 1) s1 = Inr (s2, contents rb @ xs)" "ring_ok s2" "contents s2 = []"
    using ring_queue.put_then_get [OF assms(1), of xs] fit c
    unfolding ring_limit_def length_contents by blast
  have "used s2 = 0" using s(4) length_contents [of s2] by simp
  then have "RDRingBuffer_readSpace s2 = 0" using readSpace_nat [OF s(3)] by (simp add: unat_eq_zero)
  then show ?thesis using s(1,2) by (auto simp: ring_put_def ring_get_def)
qed

theorem ring_write_read_witness:
  "\<exists>rb1 n rb2 m. RDRingBuffer_write ''abc'' (of_nat (length ''abc'')) (RDRingBuffer_new 4 []) = Inr (rb1, n)
    \<and> unat n = length ''abc''
    \<and> RDRingBuffer_read (of_nat (cap (RDRingBuffer_new 4 []) - 1)) rb1
        = Inr (rb2, contents (RDRingBuffer_new 4 []) @ ''abc'', m)
    \<and> RDRingBuffer_readSpace rb2 = 0"
proof (rule ring_write_read)
  show "ring_ok (RDRingBuffer_new 4 [])" by (rule new_ring_ok)
  have "used (RDRingBuffer_new 4 []) = 0"
    using new_ring_ok(2) [of 4 "[]"] length_contents [of "RDRingBuffer_new 4 []"] by simp
  then show "used (RDRingBuffer_new 4 []) + length ''abc'' < cap (RDRingBuffer_new 4 [])"
    by (simp add: new_ring_ok(3) pow_loop.simps)
qed

text \<open>The size of a new buffer is the least power of two, at least 2, that covers the request,
  and all of it but one byte is free.\<close>

theorem ring_new_size:
  assumes "sz \<le> 2 ^ 30"
  shows "sz \<le> int (cap (RDRingBuffer_new sz mem)) \<and> (2 < sz \<longrightarrow> int (cap (RDRingBuffer_new sz mem)) < 2 * sz)
    \<and> unat (RDRingBuffer_writeSpace (RDRingBuffer_new sz mem)) = cap (RDRingBuffer_new sz mem) - 1"
proof (intro conjI impI)
  have c: "int (cap (RDRingBuffer_new sz mem)) = 2 ^ pow_loop sz 1" by (simp add: new_ring_ok)
  show "sz \<le> int (cap (RDRingBuffer_new sz mem))"
    unfolding c using pow_loop_covers [OF assms, of 1] by simp
  show "int (cap (RDRingBuffer_new sz mem)) < 2 * sz" if "2 < sz"
    unfolding c using pow_loop_least [of 1 sz] that by simp
  have "used (RDRingBuffer_new sz mem) = 0"
    using new_ring_ok(2) length_contents by (metis list.size(3))
  then show "unat (RDRingBuffer_writeSpace (RDRingBuffer_new sz mem)) = cap (RDRingBuffer_new sz mem) - 1"
    using writeSpace_nat [OF new_ring_ok(1), of sz mem] by simp
qed

theorem ring_new_size_witness:
  "3 \<le> int (cap (RDRingBuffer_new 3 [])) \<and> int (cap (RDRingBuffer_new 3 [])) < 6
    \<and> unat (RDRingBuffer_writeSpace (RDRingBuffer_new 3 [])) = cap (RDRingBuffer_new 3 []) - 1"
  using ring_new_size [of 3 "[]"] by simp

text \<open>The cells of the buffer that a part of a vector names, in order.\<close>

definition cells :: "size_t \<times> size_t \<Rightarrow> nat list" where
  "cells v = map (\<lambda>i. unat (fst v) + i) [0..<unat (snd v)]"

lemma wrap_cells:
  assumes "p < c" "n < c"
  shows "map (\<lambda>i. p + i) [0..<min n (c - p)] @ map (\<lambda>i. 0 + i) [0..<n - (c - p)]
    = map (\<lambda>i. (p + i) mod c) [0..<(n::nat)]"
proof (rule nth_equalityI)
  show "(map (\<lambda>i. p + i) [0..<min n (c - p)] @ map (\<lambda>i. 0 + i) [0..<n - (c - p)]) ! i
      = map (\<lambda>i. (p + i) mod c) [0..<n] ! i"
    if "i < length (map (\<lambda>i. p + i) [0..<min n (c - p)] @ map (\<lambda>i. 0 + i) [0..<n - (c - p)])" for i
    using that assms wrap_once [of "p + i" c] by (auto simp: nth_append min_def)
qed (use assms in simp)

lemma vector_cells:
  assumes "ring_ok rb" "unat ptr < cap rb" "unat n < cap rb" "vector_parts rb ptr n = (v0, v1)"
  shows "cells v0 @ cells v1 = map (\<lambda>i. (unat ptr + i) mod cap rb) [0..<unat n]"
proof -
  obtain n1 n2 where s: "split_transfer rb ptr n = (n1, n2)"
      "unat n1 = min (unat n) (cap rb - unat ptr)" "unat n2 = unat n - (cap rb - unat ptr)"
    using split_transfer_nat [OF assms(1-3)] by metis
  have "v0 = (ptr, n1)" "v1 = (0, n2)" using assms(4) s(1) by (simp_all add: vector_parts_eq)
  then show ?thesis
    using wrap_cells [OF assms(2,3)] s(2,3) by (simp add: cells_def)
qed

lemma read_cells:
  "ring_ok rb \<Longrightarrow> RDRingBuffer_getReadVector rb = (r0, r1) \<Longrightarrow>
   cells r0 @ cells r1 = map (\<lambda>i. (unat (rb_read_ptr rb) + i) mod cap rb) [0..<used rb]"
  using vector_cells [of rb "rb_read_ptr rb" "RDRingBuffer_readSpace rb" r0 r1]
    ring_bounds(5) [of rb] used_less [of rb] by (simp add: readSpace_nat read_vector_split)

lemma write_cells:
  "ring_ok rb \<Longrightarrow> RDRingBuffer_getWriteVector rb = (v0, v1) \<Longrightarrow>
   cells v0 @ cells v1 = map (\<lambda>i. (unat (rb_write_ptr rb) + i) mod cap rb) [0..<cap rb - 1 - used rb]"
  using vector_cells [of rb "rb_write_ptr rb" "RDRingBuffer_writeSpace rb" v0 v1]
    ring_bounds(4) [of rb] used_less [of rb] by (simp add: writeSpace_nat write_vector_split)

lemma in_slice_cells: "in_slice j v \<longleftrightarrow> j \<in> set (cells v)"
  by (auto simp: in_slice_def cells_def image_iff le_iff_add)

lemma contents_cells: "contents rb = map (\<lambda>i. rb_buf rb ! i)
    (map (\<lambda>i. (unat (rb_read_ptr rb) + i) mod cap rb) [0..<used rb])"
  by (simp add: contents_def comp_def)

lemma store_advance:
  assumes "ring_ok rb" "RDRingBuffer_getWriteVector rb = (v0, v1)" "length buf = cap rb"
    and same: "\<And>i. i < used rb \<Longrightarrow> buf ! ((unat (rb_read_ptr rb) + i) mod cap rb)
        = rb_buf rb ! ((unat (rb_read_ptr rb) + i) mod cap rb)"
    and n: "n \<le> cap rb - 1 - used rb"
  shows "contents (RDRingBuffer_writeAdvance (of_nat n) (rb\<lparr>rb_buf := buf\<rparr>))
    = contents rb @ map ((!) buf) (take n (cells v0 @ cells v1))"
proof -
  note b = ring_bounds [OF assms(1)]
  let ?rb = "RDRingBuffer_writeAdvance (of_nat n) (rb\<lparr>rb_buf := buf\<rparr>)"
  let ?r = "unat (rb_read_ptr rb)" and ?w = "unat (rb_write_ptr rb)"
  have ok1: "ring_ok (rb\<lparr>rb_buf := buf\<rparr>)" using assms(1,3) by (simp add: ring_ok_def cap_def)
  have nb: "unat (of_nat n :: size_t) = n"
    using n b(2) by (intro unat_count) simp
  have w: "unat (rb_write_ptr ?rb) = (?w + n) mod cap rb"
    using unat_advance [OF assms(1) b(4), of "of_nat n"] nb n b(4) by simp
  have sel: "rb_read_ptr ?rb = rb_read_ptr rb" "rb_size ?rb = rb_size rb"
      "rb_size_mask ?rb = rb_size_mask rb" "rb_buf ?rb = buf"
    by (simp_all add: RDRingBuffer_writeAdvance_def)
  have c: "cap ?rb = cap rb" using sel(2) by (simp add: cap_def)
  have ok: "ring_ok ?rb" using assms(1,3) w sel c b(1) by (auto simp: ring_ok_def)
  have u: "used rb + n < cap rb" using n used_less [OF assms(1)] by simp
  have used: "used ?rb = used rb + n"
  proof (rule used_unique [OF ok])
    show "unat (rb_write_ptr ?rb) = (unat (rb_read_ptr ?rb) + (used rb + n)) mod cap ?rb"
      unfolding w sel(1) c by (metis write_ptr_used [OF assms(1)] mod_add_left_eq add.assoc)
  qed (use u c in simp)
  have new: "(?r + (used rb + i)) mod cap rb = (?w + i) mod cap rb" for i
    by (metis write_ptr_used [OF assms(1)] mod_add_left_eq add.assoc)
  have "map (\<lambda>i. buf ! ((?r + i) mod cap rb)) [0..<used rb + n]
      = map (\<lambda>i. buf ! ((?r + i) mod cap rb)) [0..<used rb]
        @ map (\<lambda>i. buf ! ((?r + (used rb + i)) mod cap rb)) [0..<n]"
    by (rule nth_equalityI) (auto simp: nth_append)
  also have "\<dots> = contents rb @ map ((!) buf) (take n (cells v0 @ cells v1))"
    using same n unfolding write_cells [OF assms(1,2)] new
    by (simp add: contents_def take_map comp_def)
  finally show ?thesis
    using c by (simp add: contents_def sel used)
qed

text \<open>C28: The two parts of the read vector name exactly the cells of the queued bytes, in order
  and wrapping at the end of the buffer; the two parts of the write vector name exactly the
  free cells behind them, in order, wrapping in the same way, one cell staying empty. Whatever
  is stored in the cells of the write vector leaves the queue as it is, and advancing the write
  pointer by up to their number appends the bytes stored, in the order of the cells.\<close>

theorem ring_vectors:
  assumes "ring_ok rb" "RDRingBuffer_getReadVector rb = (r0, r1)"
    "RDRingBuffer_getWriteVector rb = (v0, v1)" "length buf = cap rb"
    "\<And>j. j < cap rb \<Longrightarrow> j \<notin> set (cells v0 @ cells v1) \<Longrightarrow> buf ! j = rb_buf rb ! j"
    "n \<le> cap rb - 1 - used rb"
  shows "cells r0 @ cells r1 = map (\<lambda>i. (unat (rb_read_ptr rb) + i) mod cap rb) [0..<used rb]
    \<and> map ((!) (rb_buf rb)) (cells r0 @ cells r1) = contents rb
    \<and> cells v0 @ cells v1
        = map (\<lambda>i. (unat (rb_write_ptr rb) + i) mod cap rb) [0..<cap rb - 1 - used rb]
    \<and> contents (rb\<lparr>rb_buf := buf\<rparr>) = contents rb
    \<and> contents (RDRingBuffer_writeAdvance (of_nat n) (rb\<lparr>rb_buf := buf\<rparr>))
        = contents rb @ map ((!) buf) (take n (cells v0 @ cells v1))"
proof -
  have same: "buf ! ((unat (rb_read_ptr rb) + i) mod cap rb)
      = rb_buf rb ! ((unat (rb_read_ptr rb) + i) mod cap rb)" if "i < used rb" for i
    using assms(5) write_slices(2) [OF assms(1,3) that] ring_bounds(1) [OF assms(1)]
    by (simp add: in_slice_cells)
  then have "contents (rb\<lparr>rb_buf := buf\<rparr>) = contents rb"
    by (simp add: contents_def used_def cap_def)
  with store_advance [OF assms(1,3,4) same assms(6)] show ?thesis
    by (simp add: read_cells [OF assms(1,2)] write_cells [OF assms(1,3)] contents_cells)
qed

definition wrapped_ring :: ring where
  "wrapped_ring = \<lparr>rb_buf = ''xyzw'', rb_write_ptr = 1, rb_read_ptr = 3, rb_size = 4,
     rb_size_mask = 3, rb_mlocked = False\<rparr>"

lemma wrapped_ring_ok: "ring_ok wrapped_ring"
  unfolding ring_ok_def by (intro conjI exI [of _ 2]) (simp_all add: wrapped_ring_def cap_def mask_eq_decr_exp)

theorem ring_vectors_witness:
  "cells (3, 1) @ cells (0, 1) = [3, 0] \<and> cells (1, 1) @ cells (0, 0) = [1]
    \<and> contents (RDRingBuffer_writeAdvance (of_nat 1) (wrapped_ring\<lparr>rb_buf := ''x?zw''\<rparr>))
      = contents wrapped_ring @ ''?''"
proof -
  have v: "RDRingBuffer_getReadVector wrapped_ring = ((3, 1), (0, 1))"
      "RDRingBuffer_getWriteVector wrapped_ring = ((1, 1), (0, 0))"
      "length ''x?zw'' = cap wrapped_ring" "1 \<le> cap wrapped_ring - 1 - used wrapped_ring"
    by (code_simp, code_simp, code_simp, code_simp)
  have c: "cells (3, 1) @ cells (0, 1) = [3, 0]" "cells (1, 1) @ cells (0, 0) = [1]"
    by (simp_all add: cells_def upt_rec)
  have "''x?zw'' ! j = rb_buf wrapped_ring ! j" if "j \<notin> set (cells (1, 1) @ cells (0, 0))" for j
    using that unfolding c by (cases j; cases "j - 1") (auto simp: wrapped_ring_def)
  then show ?thesis
    using ring_vectors [OF wrapped_ring_ok v(1,2,3) _ v(4)] c by simp
qed

end
