(* ===== verification/Cart_Cuts.thy ===== *)
theory Cart_Cuts
  imports Log_Store "HOL-Library.Signed_Division"
begin

text \<open>
  The cuts of a cart, \<open>RDCart\<close> of \<open>lib/rdcart.h\<close> and \<open>lib/rdcart.cpp\<close> with \<open>RDCut\<close> of
  \<open>lib/rdcut.cpp\<close>: which cut plays next, whether a cut and a cart are valid, the average lengths, the
  numbering of new cuts and the packed list of scheduler codes. The tables are lists of rows, in the
  order the server keeps them; an \<open>update\<close> is a new list. A comparison of two \<open>double\<close> quotients of
  counters, and of a product with 1.25 or 0.833, is the comparison of the exact rationals, which
  agrees for counters below \<open>2 ^ 26\<close> and lengths up to a day.
\<close>

section \<open>Rows\<close>

datatype cut_validity = CutNeverValid | CutConditionallyValid | CutAlwaysValid | CutFutureValid

record cut_rec =
  U_CUT_NAME :: string
  U_CART_NUMBER :: nat
  U_EVERGREEN :: string
  U_DOW :: "string \<Rightarrow> string"
  U_START_DATETIME :: "qdatetime option"
  U_END_DATETIME :: "qdatetime option"
  U_START_DAYPART :: "qtime option"
  U_END_DAYPART :: "qtime option"
  U_LENGTH :: nat
  U_WEIGHT :: nat
  U_PLAY_COUNTER :: nat
  U_LOCAL_COUNTER :: nat
  U_VALIDITY :: cut_validity
  U_POINTS :: cut_pointers
  U_SEGUE_GAIN :: int
  U_OUTCUE :: string
  U_ISRC :: string
  U_ISCI :: string
  U_DESCRIPTION :: string

definition week_days :: "string list" where
  "week_days = [''SUN'', ''MON'', ''TUE'', ''WED'', ''THU'', ''FRI'', ''SAT'']"

fun RDGetShortDayNameEN :: "int \<Rightarrow> string" where
  "RDGetShortDayNameEN weekday = (if weekday = 2 then ''Tue'' else if weekday = 3 then ''Wed''
     else if weekday = 4 then ''Thu'' else if weekday = 5 then ''Fri'' else if weekday = 6 then ''Sat''
     else if weekday = 7 then ''Sun'' else ''Mon'')"

definition upper_char :: "char \<Rightarrow> char" where
  "upper_char c = (let n = (of_char c :: nat) in if 97 \<le> n \<and> n \<le> 122 then char_of (n - 32) else c)"

section \<open>Cut rotation\<close>

text \<open>\<open>GetNextCut\<close>: a quotient by weight 0 is infinite, or not a number, and never smaller. The
  best ratio so far is a fraction with a positive denominator.\<close>

fun next_cut_loop :: "cut_rec list \<Rightarrow> nat \<times> nat \<Rightarrow> string \<Rightarrow> string" where
  "next_cut_loop [] best cutname = cutname"
| "next_cut_loop (q # qs) (num, den) cutname =
     (if U_WEIGHT q > 0 \<and> U_LOCAL_COUNTER q * den < num * U_WEIGHT q
      then next_cut_loop qs (U_LOCAL_COUNTER q, U_WEIGHT q) (U_CUT_NAME q)
      else next_cut_loop qs (num, den) cutname)"

definition RDCart_GetNextCut :: "cut_rec list \<Rightarrow> string" where
  "RDCart_GetNextCut rows = next_cut_loop rows (100000000, 1) ''''"

text \<open>The conditions of the two queries; a comparison with a NULL column does not hold.\<close>

definition col_le :: "int option \<Rightarrow> int \<Rightarrow> bool" where
  "col_le v x = (case v of None \<Rightarrow> False | Some c \<Rightarrow> c \<le> x)"

definition col_ge :: "int option \<Rightarrow> int \<Rightarrow> bool" where
  "col_ge v x = (case v of None \<Rightarrow> False | Some c \<Rightarrow> c \<ge> x)"

definition cut_current :: "nat \<Rightarrow> qdatetime \<Rightarrow> string \<Rightarrow> qtime \<Rightarrow> cut_rec \<Rightarrow> bool" where
  "cut_current cart date day time q \<longleftrightarrow>
     (col_le (U_START_DATETIME q) (date + whole_secs time) \<and> col_ge (U_END_DATETIME q) (date + whole_secs time)
        \<or> U_START_DATETIME q = None)
     \<and> (col_le (U_START_DAYPART q) (whole_secs time) \<and> col_ge (U_END_DAYPART q) (whole_secs time)
        \<or> U_START_DAYPART q = None)
     \<and> U_DOW q day = ''Y'' \<and> U_CART_NUMBER q = cart \<and> U_EVERGREEN q = ''N'' \<and> U_LENGTH q > 0"

definition cut_evergreen :: "nat \<Rightarrow> cut_rec \<Rightarrow> bool" where
  "cut_evergreen cart q \<longleftrightarrow> U_CART_NUMBER q = cart \<and> U_EVERGREEN q = ''Y'' \<and> U_LENGTH q > 0"

text \<open>\<open>selectCut\<close> returns a result and assigns \<open>*cut\<close>; the type is the cart's row, when it has one.\<close>

definition RDCart_selectCut :: "cart_type option \<Rightarrow> cut_rec list \<Rightarrow> nat \<Rightarrow> qdatetime \<Rightarrow> int \<Rightarrow> qtime
    \<Rightarrow> string \<Rightarrow> bool \<times> string" where
  "RDCart_selectCut row cuts cart date dow time old =
     (case row of
        None \<Rightarrow> (old = '''', '''')
      | Some type \<Rightarrow>
          let day = map upper_char (RDGetShortDayNameEN dow);
              cutname = (case type of
                CartAudio \<Rightarrow> RDCart_GetNextCut
                  (sort_key U_LOCAL_COUNTER (filter (cut_current cart date day time) cuts))
              | _ \<Rightarrow> '''');
              cutname = (if cutname = ''''
                then RDCart_GetNextCut (sort_key U_LOCAL_COUNTER (filter (cut_evergreen cart) cuts))
                else cutname)
          in (True, cutname))"

definition RDCut_logPlayout :: "string \<Rightarrow> cut_rec list \<Rightarrow> cut_rec list" where
  "RDCut_logPlayout name cuts = map (\<lambda>q. if U_CUT_NAME q = name
     then q\<lparr>U_PLAY_COUNTER := U_PLAY_COUNTER q + 1, U_LOCAL_COUNTER := U_LOCAL_COUNTER q + 1\<rparr> else q) cuts"

definition RDCart_resetRotation :: "nat \<Rightarrow> cut_rec list \<Rightarrow> cut_rec list" where
  "RDCart_resetRotation cart cuts =
     map (\<lambda>q. if U_CART_NUMBER q = cart then q\<lparr>U_LOCAL_COUNTER := 0\<rparr> else q) cuts"

text \<open>\<open>isValid\<close> of one cut.\<close>

definition RDCut_isValid :: "qdatetime \<Rightarrow> string \<Rightarrow> qtime \<Rightarrow> cut_rec option \<Rightarrow> bool" where
  "RDCut_isValid date day time row =
     (case row of
        None \<Rightarrow> False
      | Some q \<Rightarrow>
          if U_EVERGREEN q = ''Y'' then True
          else if U_DOW q day \<noteq> ''Y'' then False
          else if (case U_START_DATETIME q of None \<Rightarrow> False | Some s \<Rightarrow> s > date + time) then False
          else if (case U_END_DATETIME q of None \<Rightarrow> False | Some s \<Rightarrow> s < date + time) then False
          else if (case U_START_DAYPART q of None \<Rightarrow> False | Some s \<Rightarrow> s > time) then False
          else if (case U_END_DAYPART q of None \<Rightarrow> False | Some s \<Rightarrow> s < time) then False
          else True)"

section \<open>Validity of a cart\<close>

text \<open>\<open>ValidateCut\<close> returns the validity and whether it cleared \<open>*time_ok\<close>.\<close>

definition length_scalable :: "nat \<Rightarrow> nat \<Rightarrow> bool" where
  "length_scalable cut_len len \<longleftrightarrow> \<not> (cut_len * 125 < len * 100) \<and> \<not> (cut_len * 833 > len * 1000)"

definition scale_check :: "bool \<Rightarrow> nat \<Rightarrow> cut_rec \<Rightarrow> cut_validity \<times> bool \<Rightarrow> cut_validity \<times> bool" where
  "scale_check enforce_length len q r =
     (if enforce_length \<and> \<not> length_scalable (U_LENGTH q) len then (CutNeverValid, False) else r)"

definition RDCart_ValidateCut :: "qdatetime \<Rightarrow> cut_rec \<Rightarrow> bool \<Rightarrow> nat \<Rightarrow> bool \<Rightarrow> cut_validity \<times> bool" where
  "RDCart_ValidateCut now q enforce_length len time_ok =
     (if U_LENGTH q = 0 then (CutNeverValid, time_ok)
      else if U_EVERGREEN q = ''N''
      then let (ret, time_ok) = (if U_START_DAYPART q \<noteq> None \<or> U_END_DAYPART q \<noteq> None
                 then (CutConditionallyValid, False) else (CutAlwaysValid, time_ok))
           in if \<not> list_ex (\<lambda>d. U_DOW q d = ''Y'') week_days then (CutNeverValid, time_ok)
              else let ret = (if list_all (\<lambda>d. U_DOW q d = ''Y'') week_days then ret else CutConditionallyValid)
                   in case U_END_DATETIME q of
                        None \<Rightarrow> scale_check enforce_length len q (ret, time_ok)
                      | Some e \<Rightarrow>
                          if e < now then (CutNeverValid, False)
                          else scale_check enforce_length len q
                            (if (case U_START_DATETIME q of None \<Rightarrow> 0 | Some s \<Rightarrow> s) > now
                             then CutFutureValid else CutConditionallyValid, False)
      else scale_check enforce_length len q (CutAlwaysValid, time_ok))"

text \<open>The integer values of the two enumerations, and the cast from one to the other.\<close>

fun cut_code :: "cut_validity \<Rightarrow> nat" where
  "cut_code CutNeverValid = 0" | "cut_code CutConditionallyValid = 1"
| "cut_code CutAlwaysValid = 2" | "cut_code CutFutureValid = 3"

fun validity_code :: "validity \<Rightarrow> nat" where
  "validity_code NeverValid = 0" | "validity_code ConditionallyValid = 1"
| "validity_code AlwaysValid = 2" | "validity_code EvergreenValid = 3" | "validity_code FutureValid = 4"

definition validity_of_code :: "nat \<Rightarrow> validity" where
  "validity_of_code n = (if n = 0 then NeverValid else if n = 1 then ConditionallyValid
     else if n = 2 then AlwaysValid else if n = 3 then EvergreenValid else FutureValid)"

text \<open>The lengths of \<open>updateLength\<close>: the products are those of \<open>unsigned\<close>, the sums of
  \<open>long long\<close>.\<close>

record length_sums =
  ls_total :: nat
  ls_segue :: nat
  ls_hook :: nat
  ls_weight :: nat
  ls_dow :: "string \<Rightarrow> bool"

definition live_weight :: "qdatetime \<Rightarrow> cut_rec \<Rightarrow> nat" where
  "live_weight now q = (case U_END_DATETIME q of None \<Rightarrow> U_WEIGHT q
     | Some e \<Rightarrow> if e < now then 0 else U_WEIGHT q)"

definition add_length :: "qdatetime \<Rightarrow> length_sums \<Rightarrow> cut_rec \<Rightarrow> length_sums" where
  "add_length now a q =
     (let w = live_weight now q; p = U_POINTS q; whole = (U_LENGTH q * w) mod 2 ^ 32
      in a\<lparr>ls_dow := (\<lambda>d. ls_dow a d \<or> RDBool (U_DOW q d)), ls_total := ls_total a + whole,
           ls_segue := ls_segue a + (if SEGUE_START_POINT p < 0 \<or> SEGUE_END_POINT p < 0 then whole
             else nat ((SEGUE_START_POINT p - START_POINT p) * int w mod 2 ^ 32)),
           ls_hook := ls_hook a + nat ((HOOK_END_POINT p - HOOK_START_POINT p) * int w mod 2 ^ 32),
           ls_weight := (ls_weight a + w) mod 2 ^ 32\<rparr>)"

definition length_sums_of :: "qdatetime \<Rightarrow> cut_rec list \<Rightarrow> length_sums" where
  "length_sums_of now = foldl (add_length now)
     \<lparr>ls_total = 0, ls_segue = 0, ls_hook = 0, ls_weight = 0, ls_dow = (\<lambda>_. False)\<rparr>"

text \<open>The columns of \<open>CART\<close> that \<open>updateLength\<close> writes.\<close>

record cart_lengths =
  V_AVERAGE_LENGTH :: nat
  V_AVERAGE_SEGUE_LENGTH :: nat
  V_AVERAGE_HOOK_LENGTH :: nat
  V_FORCED_LENGTH :: nat
  V_CUT_QUANTITY :: nat
  V_START_DATETIME :: "qdatetime option"
  V_END_DATETIME :: "qdatetime option"
  V_VALIDITY :: validity

definition average_of :: "nat \<Rightarrow> nat \<Rightarrow> nat" where
  "average_of t w = (if w > 0 then (t div w) mod 2 ^ 32 else 0)"

text \<open>The loop over the cuts: the best validity so far, whether all are evergreen, the dates.\<close>

record cart_scan =
  cs_validity :: validity
  cs_evergreen :: bool
  cs_dates_valid :: bool
  cs_start :: "qdatetime option"
  cs_end :: "qdatetime option"
  cs_time_ok :: bool
  cs_cuts :: "cut_rec list"

definition earliest :: "qdatetime option \<Rightarrow> qdatetime option \<Rightarrow> qdatetime option" where
  "earliest best v = (case v of None \<Rightarrow> best
     | Some x \<Rightarrow> (case best of None \<Rightarrow> Some x | Some b \<Rightarrow> Some (if b > x then x else b)))"

definition latest :: "qdatetime option \<Rightarrow> qdatetime option \<Rightarrow> qdatetime option" where
  "latest best v = (case v of None \<Rightarrow> best
     | Some x \<Rightarrow> (case best of None \<Rightarrow> Some x | Some b \<Rightarrow> Some (if b < x then x else b)))"

definition scan_cut :: "qdatetime \<Rightarrow> bool \<Rightarrow> nat \<Rightarrow> cart_scan \<Rightarrow> cut_rec \<Rightarrow> cart_scan" where
  "scan_cut now enforce_length len a q =
     (let (v, ok) = RDCart_ValidateCut now q enforce_length len (cs_time_ok a)
      in \<lparr>cs_validity = (if cut_code v > validity_code (cs_validity a)
            then validity_of_code (cut_code v) else cs_validity a),
          cs_evergreen = (cs_evergreen a \<and> RDBool (U_EVERGREEN q)),
          cs_dates_valid = (if v \<noteq> CutNeverValid \<and> U_END_DATETIME q = None then False else cs_dates_valid a),
          cs_start = earliest (cs_start a) (U_START_DATETIME q),
          cs_end = latest (cs_end a) (U_END_DATETIME q),
          cs_time_ok = ok, cs_cuts = cs_cuts a @ [q\<lparr>U_VALIDITY := v\<rparr>]\<rparr>)"

definition scan_cuts :: "qdatetime \<Rightarrow> bool \<Rightarrow> nat \<Rightarrow> cut_rec list \<Rightarrow> cart_scan" where
  "scan_cuts now enforce_length len = foldl (scan_cut now enforce_length len)
     \<lparr>cs_validity = NeverValid, cs_evergreen = True, cs_dates_valid = True, cs_start = None,
      cs_end = None, cs_time_ok = True, cs_cuts = []\<rparr>"

definition cart_validity_of :: "(string \<Rightarrow> bool) \<Rightarrow> cart_scan \<Rightarrow> validity" where
  "cart_validity_of dow a =
     (if cs_evergreen a then EvergreenValid
      else if cs_validity a = ConditionallyValid \<and> list_all dow week_days \<and> cs_time_ok a then AlwaysValid
      else cs_validity a)"

text \<open>\<open>updateLength(enforce,length)\<close>: the first query takes the cuts named after the cart that have
  audio, the second all cuts of the cart.\<close>

definition RDCart_updateLength :: "qdatetime \<Rightarrow> nat \<Rightarrow> bool \<Rightarrow> nat \<Rightarrow> cut_rec list \<Rightarrow> cart_lengths
    \<Rightarrow> cart_lengths \<times> cut_rec list" where
  "RDCart_updateLength now cart enforce_length len cuts row =
     (let rows = filter (\<lambda>q. qs_left 6 (U_CUT_NAME q) = pad_nat 6 cart \<and> U_LENGTH q > 0) cuts;
          a = length_sums_of now rows;
          avg = (\<lambda>t. average_of t (ls_weight a));
          s = scan_cuts now enforce_length len (filter (\<lambda>q. U_CART_NUMBER q = cart) cuts);
          named = map_of (map (\<lambda>q. (U_CUT_NAME q, U_VALIDITY q)) (cs_cuts s))
      in (\<lparr>V_AVERAGE_LENGTH = avg (ls_total a), V_AVERAGE_SEGUE_LENGTH = avg (ls_segue a),
           V_AVERAGE_HOOK_LENGTH = avg (ls_hook a),
           V_FORCED_LENGTH = (if enforce_length then V_FORCED_LENGTH row else avg (ls_total a)),
           V_CUT_QUANTITY = length rows,
           V_START_DATETIME = (if cs_dates_valid s then cs_start s else None),
           V_END_DATETIME = (if cs_dates_valid s then cs_end s else None),
           V_VALIDITY = cart_validity_of (ls_dow a) s\<rparr>,
          map (\<lambda>q. case named (U_CUT_NAME q) of None \<Rightarrow> q | Some v \<Rightarrow> q\<lparr>U_VALIDITY := v\<rparr>) cuts))"

text \<open>\<open>calculateAverageLength\<close>: the average and the greatest deviation, on \<open>unsigned\<close>.\<close>

definition add_average :: "qdatetime \<Rightarrow> nat \<times> nat \<times> nat \<times> nat \<Rightarrow> cut_rec \<Rightarrow> nat \<times> nat \<times> nat \<times> nat" where
  "add_average now a q =
     (case a of (tot, n, high, low) \<Rightarrow>
        let w = live_weight now q
        in ((tot + U_LENGTH q * w) mod 2 ^ 32, (n + w) mod 2 ^ 32,
            if w > 0 \<and> U_LENGTH q > high then U_LENGTH q else high,
            if w > 0 \<and> U_LENGTH q < low then U_LENGTH q else low))"

definition RDCart_calculateAverageLength :: "qdatetime \<Rightarrow> cart_type \<Rightarrow> nat \<Rightarrow> cut_rec list \<Rightarrow> nat \<times> nat option" where
  "RDCart_calculateAverageLength now type cart cuts =
     (if type \<noteq> CartAudio then (0, None)
      else case foldl (add_average now) (0, 0, 0, 2 ^ 32 - 1)
              (filter (\<lambda>q. U_CART_NUMBER q = cart \<and> U_LENGTH q > 0) cuts) of
        (tot, n, high, low) \<Rightarrow>
          let (avg, high, low) = (if n = 0 then (0, 0, 0) else (tot div n, high, low));
              up = nat ((int high - int avg) mod 2 ^ 32); dn = nat ((int avg - int low) mod 2 ^ 32)
          in (avg, Some (if up > dn then up else dn)))"

definition RDCart_validateLengths :: "nat \<Rightarrow> int \<Rightarrow> cut_rec list \<Rightarrow> bool" where
  "RDCart_validateLengths cart len cuts =
     (let maxlen = (len * 125) sdiv 100; minlen = (len * 833) sdiv 1000
      in list_all (\<lambda>q. U_CART_NUMBER q = cart \<longrightarrow>
           \<not> (int (U_LENGTH q) > maxlen \<or> int (U_LENGTH q) < minlen)) cuts)"

section \<open>New cuts and scheduler codes\<close>

definition RD_MAX_CUT_NUMBER :: nat where "RD_MAX_CUT_NUMBER = 999"
definition RD_MAX_CART_NUMBER :: nat where "RD_MAX_CART_NUMBER = 999999"

definition RDCut_cutName :: "nat \<Rightarrow> nat \<Rightarrow> string" where
  "RDCut_cutName cartnum cutnum =
     (if cartnum < 1 \<or> cartnum > RD_MAX_CART_NUMBER \<or> cutnum < 1 \<or> cutnum > RD_MAX_CUT_NUMBER then ''''
      else pad_nat 6 cartnum @ ''_'' @ pad_nat 3 cutnum)"

definition RDCut_cutNumber :: "string \<Rightarrow> nat" where
  "RDCut_cutNumber cutname = toUInt0 (qs_right 3 cutname)"

definition RDCut_cartNumber :: "string \<Rightarrow> nat" where
  "RDCut_cartNumber cutname = toUInt0 (qs_left 6 cutname)"

text \<open>\<open>GetNextFreeCut\<close>: the names of the cart's cuts in their order against the numbers from 1.\<close>

fun free_cut_loop :: "nat \<Rightarrow> nat \<Rightarrow> nat \<Rightarrow> string list \<Rightarrow> int" where
  "free_cut_loop cart 0 i names = -1"
| "free_cut_loop cart (Suc k) i [] = int i"
| "free_cut_loop cart (Suc k) i (n # names) =
     (if n \<noteq> RDCut_cutName cart i then int i else free_cut_loop cart k (i + 1) names)"

definition RDCart_GetNextFreeCut :: "nat \<Rightarrow> string list \<Rightarrow> int" where
  "RDCart_GetNextFreeCut cart names = free_cut_loop cart RD_MAX_CUT_NUMBER 1 names"

text \<open>The packed codes: fields of eleven characters, read at the offsets below 255.\<close>

definition RDCart_schedCodesList :: "string \<Rightarrow> string list" where
  "RDCart_schedCodesList sched_codes =
     map strip_space (filter (\<lambda>c. c \<noteq> '''' \<and> strip_space c \<noteq> ''.'')
       (map (\<lambda>k. qs_mid (11 * k) 11 sched_codes) [0..<24]))"

definition pad_right :: "nat \<Rightarrow> string \<Rightarrow> string" where
  "pad_right n s = s @ replicate (n - length s) (CHR '' '')"

definition RDCart_setSchedCodesList :: "string list \<Rightarrow> string" where
  "RDCart_setSchedCodesList codes = concat (map (\<lambda>c. pad_right 11 (qs_left 11 c)) codes) @ ''.''"

definition RDCart_addSchedCode :: "string \<Rightarrow> string \<Rightarrow> string" where
  "RDCart_addSchedCode code sched_codes = RDCart_setSchedCodesList (RDCart_schedCodesList sched_codes @ [code])"

section \<open>The cut that plays next\<close>

lemma ratio_trans_less:
  fixes c d n w c' w' :: nat
  assumes "c * d < n * w" "c' * w < c * w'" "0 < w" "0 < d"
  shows "c' * d < n * w'"
proof -
  have "w * (c' * d) < w * (n * w')"
  proof -
    have "(c' * w) * d \<le> (c * w') * d" using assms(2) by simp
    also have "(c * w') * d = (c * d) * w'" by (simp add: ac_simps)
    also have "(c * d) * w' < (n * w) * w'"
    proof -
      have "0 < w'" using assms(2) by (cases w') auto
      then show ?thesis using assms(1) by simp
    qed
    finally show ?thesis by (simp add: ac_simps)
  qed
  then show ?thesis using assms(3) by simp
qed

lemma ratio_trans_le:
  fixes c d n w c0 w0 :: nat
  assumes "c * d < n * w" "n * w0 \<le> c0 * d" "0 < d"
  shows "c * w0 \<le> c0 * w"
proof -
  have "d * (c * w0) \<le> d * (c0 * w)"
  proof -
    have "(c * d) * w0 \<le> (n * w) * w0" using assms(1) by simp
    also have "(n * w) * w0 = (n * w0) * w" by (simp add: ac_simps)
    also have "\<dots> \<le> (c0 * d) * w" using assms(2) by simp
    finally show ?thesis by (simp add: ac_simps)
  qed
  then show ?thesis using assms(3) by simp
qed

text \<open>The loop keeps its start or ends at a row of least ratio, below the start.\<close>

definition best_row :: "cut_rec list \<Rightarrow> nat \<Rightarrow> nat \<Rightarrow> cut_rec \<Rightarrow> bool" where
  "best_row qs n d q \<longleftrightarrow> q \<in> set qs \<and> 0 < U_WEIGHT q \<and> U_LOCAL_COUNTER q * d < n * U_WEIGHT q
     \<and> (\<forall>r \<in> set qs. 0 < U_WEIGHT r \<longrightarrow> U_LOCAL_COUNTER q * U_WEIGHT r \<le> U_LOCAL_COUNTER r * U_WEIGHT q)"

lemma next_cut_loop_best:
  "0 < d \<Longrightarrow> (\<exists>q. best_row qs n d q \<and> next_cut_loop qs (n, d) name = U_CUT_NAME q)
    \<or> (\<forall>q \<in> set qs. \<not> (0 < U_WEIGHT q \<and> U_LOCAL_COUNTER q * d < n * U_WEIGHT q))
      \<and> next_cut_loop qs (n, d) name = name"
proof (induction qs arbitrary: n d name)
  case Nil
  then show ?case by simp
next
  case (Cons q qs)
  let ?c = "U_LOCAL_COUNTER q" and ?w = "U_WEIGHT q"
  show ?case
  proof (cases "0 < ?w \<and> ?c * d < n * ?w")
    case True
    then have step: "next_cut_loop (q # qs) (n, d) name = next_cut_loop qs (?c, ?w) (U_CUT_NAME q)" by simp
    consider (better) r where "best_row qs ?c ?w r" "next_cut_loop qs (?c, ?w) (U_CUT_NAME q) = U_CUT_NAME r"
      | (stays) "\<forall>r \<in> set qs. \<not> (0 < U_WEIGHT r \<and> U_LOCAL_COUNTER r * ?w < ?c * U_WEIGHT r)"
          "next_cut_loop qs (?c, ?w) (U_CUT_NAME q) = U_CUT_NAME q"
      using Cons.IH [of ?w ?c "U_CUT_NAME q"] True by metis
    then show ?thesis
    proof cases
      case better
      then have "best_row (q # qs) n d r"
        using True ratio_trans_less [of ?c d n ?w "U_LOCAL_COUNTER r" "U_WEIGHT r"] Cons.prems
        by (auto simp: best_row_def)
      then show ?thesis using better step by auto
    next
      case stays
      then have "best_row (q # qs) n d q" using True by (auto simp: best_row_def not_less)
      then show ?thesis using stays step by auto
    qed
  next
    case False
    then have step: "next_cut_loop (q # qs) (n, d) name = next_cut_loop qs (n, d) name" by auto
    consider (better) r where "best_row qs n d r" "next_cut_loop qs (n, d) name = U_CUT_NAME r"
      | (stays) "\<forall>r \<in> set qs. \<not> (0 < U_WEIGHT r \<and> U_LOCAL_COUNTER r * d < n * U_WEIGHT r)"
          "next_cut_loop qs (n, d) name = name"
      using Cons.IH [of d n name] Cons.prems by metis
    then show ?thesis
    proof cases
      case better
      then have "best_row (q # qs) n d r"
        using False ratio_trans_le [of "U_LOCAL_COUNTER r" d n "U_WEIGHT r" ?w ?c] Cons.prems
        by (auto simp: best_row_def not_less)
      then show ?thesis using better step by auto
    next
      case stays
      then show ?thesis using False step by auto
    qed
  qed
qed

section \<open>Fair rotation\<close>

text \<open>A moment is a date (its midnight), a day of the week and a time of day; playing a cart at a
  moment selects a cut and logs its playout.\<close>

type_synonym moment = "qdatetime \<times> int \<times> qtime"

definition on_air :: "nat \<Rightarrow> moment \<Rightarrow> cut_rec \<Rightarrow> bool" where
  "on_air cart t q = (case t of (date, dow, time) \<Rightarrow>
     cut_current cart date (map upper_char (RDGetShortDayNameEN dow)) time q)"

definition play_next :: "nat \<Rightarrow> moment \<Rightarrow> cut_rec list \<Rightarrow> cut_rec list" where
  "play_next cart t cuts = (case t of (date, dow, time) \<Rightarrow>
     RDCut_logPlayout (snd (RDCart_selectCut (Some CartAudio) cuts cart date dow time '''')) cuts)"

definition bump :: "cut_rec \<Rightarrow> cut_rec" where
  "bump q = q\<lparr>U_PLAY_COUNTER := U_PLAY_COUNTER q + 1, U_LOCAL_COUNTER := U_LOCAL_COUNTER q + 1\<rparr>"

abbreviation of_cart :: "nat \<Rightarrow> cut_rec \<Rightarrow> bool" where
  "of_cart cart q \<equiv> U_CART_NUMBER q = cart"

definition fair :: "nat \<Rightarrow> cut_rec list \<Rightarrow> bool" where
  "fair cart cuts \<longleftrightarrow> (\<forall>q \<in> set (filter (of_cart cart) cuts). \<forall>r \<in> set (filter (of_cart cart) cuts).
     U_LOCAL_COUNTER q * U_WEIGHT r \<le> U_LOCAL_COUNTER r * U_WEIGHT q + U_WEIGHT r)"

definition rotating :: "nat \<Rightarrow> moment set \<Rightarrow> cut_rec list \<Rightarrow> bool" where
  "rotating cart ts cuts \<longleftrightarrow> distinct (map U_CUT_NAME cuts) \<and> '''' \<notin> set (map U_CUT_NAME cuts)
     \<and> (\<forall>q \<in> set (filter (of_cart cart) cuts). 0 < U_WEIGHT q \<and> (\<forall>t \<in> ts. on_air cart t q))"

definition plays_of :: "nat \<Rightarrow> cut_rec list \<Rightarrow> nat" where
  "plays_of cart cuts = sum_list (map U_LOCAL_COUNTER (filter (of_cart cart) cuts))"

definition weights_of :: "nat \<Rightarrow> cut_rec list \<Rightarrow> nat" where
  "weights_of cart cuts = sum_list (map U_WEIGHT (filter (of_cart cart) cuts))"

lemma bump_sel [simp]: "U_CUT_NAME (bump q) = U_CUT_NAME q" "U_CART_NUMBER (bump q) = U_CART_NUMBER q"
  "U_WEIGHT (bump q) = U_WEIGHT q" "U_LOCAL_COUNTER (bump q) = Suc (U_LOCAL_COUNTER q)"
  "on_air cart t (bump q) = on_air cart t q"
  by (simp_all add: bump_def on_air_def cut_current_def split: prod.split)

lemma on_air_filter: "(\<forall>q \<in> set (filter (of_cart cart) cuts). on_air cart (date, dow, time) q)
  \<Longrightarrow> filter (cut_current cart date (map upper_char (RDGetShortDayNameEN dow)) time) cuts
      = filter (of_cart cart) cuts"
  by (rule filter_cong) (auto simp: on_air_def cut_current_def)

text \<open>One play bumps one row of least ratio.\<close>

lemma play_next_best:
  assumes "rotating cart ts cuts" "t \<in> ts"
    and "\<exists>q \<in> set (filter (of_cart cart) cuts). U_LOCAL_COUNTER q < 100000000 * U_WEIGHT q"
  obtains m where "best_row (filter (of_cart cart) cuts) 100000000 1 m"
    "play_next cart t cuts = map (\<lambda>q. if q = m then bump q else q) cuts"
proof -
  obtain date dow time where t: "t = (date, dow, time)" by (cases t)
  let ?cs = "filter (of_cart cart) cuts" and ?rows = "sort_key U_LOCAL_COUNTER (filter (of_cart cart) cuts)"
  have f: "filter (cut_current cart date (map upper_char (RDGetShortDayNameEN dow)) time) cuts = ?cs"
    using assms(1,2) t by (intro on_air_filter) (simp add: rotating_def)
  obtain m where m: "best_row ?rows 100000000 1 m" "RDCart_GetNextCut ?rows = U_CUT_NAME m"
  proof -
    obtain q where "q \<in> set ?cs" "U_LOCAL_COUNTER q < 100000000 * U_WEIGHT q" "0 < U_WEIGHT q"
      using assms(1,3) by (auto simp: rotating_def)
    then show ?thesis
      using next_cut_loop_best [of 1 ?rows 100000000 "''''"] that by (auto simp: RDCart_GetNextCut_def)
  qed
  have best: "best_row ?cs 100000000 1 m" using m(1) by (simp add: best_row_def)
  then have mem: "m \<in> set cuts" by (auto simp: best_row_def)
  have "U_CUT_NAME m \<noteq> ''''" using assms(1) mem by (metis rotating_def image_eqI set_map)
  then have "play_next cart t cuts = RDCut_logPlayout (U_CUT_NAME m) cuts"
    using m(2) f by (simp add: play_next_def t RDCart_selectCut_def Let_def)
  also have "\<dots> = map (\<lambda>q. if q = m then bump q else q) cuts"
  proof -
    have "U_CUT_NAME q = U_CUT_NAME m \<longleftrightarrow> q = m" if "q \<in> set cuts" for q
      using assms(1) mem that by (auto simp: rotating_def distinct_map dest: inj_onD)
    then show ?thesis by (simp add: RDCut_logPlayout_def bump_def)
  qed
  finally show ?thesis using best that by blast
qed

lemma map_bump_filter:
  "filter (of_cart cart) (map (\<lambda>q. if q = m then bump q else q) cuts)
    = map (\<lambda>q. if q = m then bump q else q) (filter (of_cart cart) cuts)"
  by (induction cuts) auto

lemma sum_bump:
  "distinct cs \<Longrightarrow> m \<in> set cs \<Longrightarrow>
    sum_list (map U_LOCAL_COUNTER (map (\<lambda>q. if q = m then bump q else q) cs))
      = Suc (sum_list (map U_LOCAL_COUNTER cs))"
proof (induction cs)
  case (Cons q qs)
  show ?case
  proof (cases "q = m")
    case True
    then have "map (\<lambda>q. if q = m then bump q else q) qs = qs"
      using Cons.prems by (intro map_idI) auto
    then show ?thesis using True by (simp del: map_map)
  next
    case False
    then show ?thesis using Cons by simp
  qed
qed simp

lemma play_next_step:
  assumes "rotating cart ts cuts" "fair cart cuts" "t \<in> ts" "plays_of cart cuts < weights_of cart cuts"
  shows "rotating cart ts (play_next cart t cuts) \<and> fair cart (play_next cart t cuts)
    \<and> plays_of cart (play_next cart t cuts) = Suc (plays_of cart cuts)
    \<and> map U_WEIGHT (filter (of_cart cart) (play_next cart t cuts)) = map U_WEIGHT (filter (of_cart cart) cuts)
    \<and> map U_CUT_NAME (play_next cart t cuts) = map U_CUT_NAME cuts"
proof -
  let ?cs = "filter (of_cart cart) cuts"
  have "\<exists>q \<in> set ?cs. U_LOCAL_COUNTER q < U_WEIGHT q"
  proof (rule ccontr)
    assume "\<not> ?thesis"
    then have "weights_of cart cuts \<le> plays_of cart cuts"
      unfolding plays_of_def weights_of_def by (intro sum_list_mono) (auto simp: not_less)
    then show False using assms(4) by simp
  qed
  then obtain q where q: "q \<in> set ?cs" "U_LOCAL_COUNTER q < U_WEIGHT q" by blast
  obtain m where m: "best_row ?cs 100000000 1 m"
      and p: "play_next cart t cuts = map (\<lambda>q. if q = m then bump q else q) cuts"
  proof -
    have "U_LOCAL_COUNTER q < 100000000 * U_WEIGHT q" using q(2) by simp
    then have "\<exists>q \<in> set ?cs. U_LOCAL_COUNTER q < 100000000 * U_WEIGHT q" using q(1) by (rule bexI)
    then show ?thesis by (rule play_next_best [OF assms(1,3)]) (rule that)
  qed
  let ?b = "\<lambda>q. if q = m then bump q else q"
  have f: "filter (of_cart cart) (play_next cart t cuts) = map ?b ?cs" by (simp add: p map_bump_filter)
  have dist: "distinct cuts" using assms(1) by (simp add: rotating_def distinct_map)
  have "rotating cart ts (play_next cart t cuts)"
  proof -
    have "map U_CUT_NAME (play_next cart t cuts) = map U_CUT_NAME cuts" by (simp add: p)
    moreover have "\<forall>q \<in> set (filter (of_cart cart) (play_next cart t cuts)).
        0 < U_WEIGHT q \<and> (\<forall>t \<in> ts. on_air cart t q)"
      using assms(1) by (simp only: f) (auto simp: rotating_def)
    ultimately show ?thesis using assms(1) unfolding rotating_def by metis
  qed
  moreover have "fair cart (play_next cart t cuts)"
  proof -
    have least: "U_LOCAL_COUNTER m * U_WEIGHT r \<le> U_LOCAL_COUNTER r * U_WEIGHT m"
      if "r \<in> set ?cs" for r
      using m that assms(1) by (auto simp: best_row_def rotating_def)
    have fair: "U_LOCAL_COUNTER q * U_WEIGHT r \<le> U_LOCAL_COUNTER r * U_WEIGHT q + U_WEIGHT r"
      if "q \<in> set ?cs" "r \<in> set ?cs" for q r
      using assms(2) that unfolding fair_def by blast
    have step: "U_LOCAL_COUNTER (?b q) * U_WEIGHT (?b r) \<le> U_LOCAL_COUNTER (?b r) * U_WEIGHT (?b q) + U_WEIGHT (?b r)"
      if "q \<in> set ?cs" "r \<in> set ?cs" for q r
      using least [OF that(2)] fair [OF that] by (cases "q = m"; cases "r = m") (auto simp: algebra_simps)
    show ?thesis unfolding fair_def f
    proof (intro ballI)
      fix x y
      assume "x \<in> set (map ?b ?cs)" "y \<in> set (map ?b ?cs)"
      then obtain q r where "q \<in> set ?cs" "r \<in> set ?cs" "x = ?b q" "y = ?b r"
        unfolding set_map by blast
      then show "U_LOCAL_COUNTER x * U_WEIGHT y \<le> U_LOCAL_COUNTER y * U_WEIGHT x + U_WEIGHT y"
        using step by blast
    qed
  qed
  moreover have "plays_of cart (play_next cart t cuts) = Suc (plays_of cart cuts)"
  proof -
    have "distinct ?cs" "m \<in> set ?cs" using dist m by (simp_all add: best_row_def)
    then show ?thesis unfolding plays_of_def f by (rule sum_bump)
  qed
  moreover have "map U_WEIGHT (filter (of_cart cart) (play_next cart t cuts)) = map U_WEIGHT ?cs"
    unfolding f by simp
  ultimately show ?thesis by (simp add: p)
qed

lemma play_all_step:
  assumes "set moments \<subseteq> ts" "rotating cart ts cuts" "fair cart cuts"
    and "plays_of cart cuts + length moments \<le> weights_of cart cuts"
  shows "fair cart (foldl (\<lambda>cs t. play_next cart t cs) cuts moments)
    \<and> plays_of cart (foldl (\<lambda>cs t. play_next cart t cs) cuts moments) = plays_of cart cuts + length moments
    \<and> map U_WEIGHT (filter (of_cart cart) (foldl (\<lambda>cs t. play_next cart t cs) cuts moments))
      = map U_WEIGHT (filter (of_cart cart) cuts)"
  using assms
proof (induction moments arbitrary: cuts)
  case (Cons t moments)
  have s: "rotating cart ts (play_next cart t cuts) \<and> fair cart (play_next cart t cuts)
    \<and> plays_of cart (play_next cart t cuts) = Suc (plays_of cart cuts)
    \<and> map U_WEIGHT (filter (of_cart cart) (play_next cart t cuts)) = map U_WEIGHT (filter (of_cart cart) cuts)"
    using play_next_step [of cart ts cuts t] Cons.prems by simp
  then have "plays_of cart (play_next cart t cuts) + length moments \<le> weights_of cart (play_next cart t cuts)"
    using Cons.prems(4) by (simp add: weights_of_def)
  then show ?case using Cons.IH [of "play_next cart t cuts"] Cons.prems(1) s by simp
qed simp

lemma sum_list_strict_less:
  fixes f g :: "'a \<Rightarrow> nat"
  assumes "x \<in> set xs" "Suc (f x) \<le> g x" "\<And>y. y \<in> set xs \<Longrightarrow> f y \<le> g y"
  shows "sum_list (map f xs) < sum_list (map g xs)"
  using assms
proof (induction xs)
  case (Cons y ys)
  have le: "sum_list (map f ys) \<le> sum_list (map g ys)"
    using Cons.prems(3) by (intro sum_list_mono) simp
  show ?case
  proof (cases "x \<in> set ys")
    case True
    then have "sum_list (map f ys) < sum_list (map g ys)" using Cons by simp
    moreover have "f y \<le> g y" using Cons.prems(3) by simp
    ultimately show ?thesis by simp
  next
    case False
    then show ?thesis using Cons.prems le by simp
  qed
qed simp

text \<open>Played as often as the weights add up to, every cut has had exactly its share.\<close>

lemma fair_full:
  assumes "fair cart cuts" "plays_of cart cuts = weights_of cart cuts"
    and "\<forall>q \<in> set (filter (of_cart cart) cuts). 0 < U_WEIGHT q"
  shows "\<forall>q \<in> set (filter (of_cart cart) cuts). U_LOCAL_COUNTER q = U_WEIGHT q"
proof -
  let ?cs = "filter (of_cart cart) cuts"
  have le: "U_LOCAL_COUNTER q \<le> U_WEIGHT q" if q: "q \<in> set ?cs" for q
  proof (rule ccontr)
    assume "\<not> ?thesis"
    then have gt: "Suc (U_WEIGHT q) \<le> U_LOCAL_COUNTER q" by simp
    have all: "U_WEIGHT r \<le> U_LOCAL_COUNTER r" if r: "r \<in> set ?cs" for r
    proof -
      have "Suc (U_WEIGHT q) * U_WEIGHT r \<le> U_LOCAL_COUNTER q * U_WEIGHT r"
        using gt by (rule mult_le_mono1)
      also have "\<dots> \<le> U_LOCAL_COUNTER r * U_WEIGHT q + U_WEIGHT r"
        using assms(1) q r unfolding fair_def by blast
      finally have "U_WEIGHT q * U_WEIGHT r \<le> U_WEIGHT q * U_LOCAL_COUNTER r" by (simp add: ac_simps)
      then show ?thesis using assms(3) q by simp
    qed
    have "sum_list (map U_WEIGHT ?cs) < sum_list (map U_LOCAL_COUNTER ?cs)"
      using q gt all by (intro sum_list_strict_less [where x = q])
    then show False using assms(2) by (simp add: plays_of_def weights_of_def)
  qed
  show ?thesis
  proof
    fix q assume q: "q \<in> set ?cs"
    show "U_LOCAL_COUNTER q = U_WEIGHT q"
    proof (rule ccontr)
      assume "\<not> ?thesis"
      then have "Suc (U_LOCAL_COUNTER q) \<le> U_WEIGHT q" using le [OF q] by simp
      then have "sum_list (map U_LOCAL_COUNTER ?cs) < sum_list (map U_WEIGHT ?cs)"
        using q le by (intro sum_list_strict_less [where x = q])
      then show False using assms(2) by (simp add: plays_of_def weights_of_def)
    qed
  qed
qed

text \<open>C33: Weighted rotation is fair: while the same cuts of a cart may air and their counters start at
  0, the first round of plays, as many as the weights add up to, plays every cut exactly as often as its weight, whatever the
  moments of the plays and the rows of other carts; and no play on the way is missed.\<close>

theorem rotation_is_fair:
  assumes "rotating cart (set moments) cuts"
    and "\<forall>q \<in> set (filter (of_cart cart) cuts). U_LOCAL_COUNTER q = 0"
    and "length moments = weights_of cart cuts"
  shows "\<forall>q \<in> set (filter (of_cart cart) (foldl (\<lambda>cs t. play_next cart t cs) cuts moments)).
    U_LOCAL_COUNTER q = U_WEIGHT q"
proof -
  let ?fin = "foldl (\<lambda>cs t. play_next cart t cs) cuts moments"
  have zero: "plays_of cart cuts = 0" using assms(2) by (simp add: plays_of_def)
  have "fair cart cuts" using assms(2) by (simp add: fair_def)
  then have f: "fair cart ?fin" "plays_of cart ?fin = length moments"
    and w: "map U_WEIGHT (filter (of_cart cart) ?fin) = map U_WEIGHT (filter (of_cart cart) cuts)"
    using play_all_step [OF subset_refl assms(1)] zero assms(3) by simp_all
  then have "plays_of cart ?fin = weights_of cart ?fin" using assms(3) by (simp add: weights_of_def)
  moreover have "\<forall>q \<in> set (filter (of_cart cart) ?fin). 0 < U_WEIGHT q"
  proof -
    have "\<forall>k \<in> set (map U_WEIGHT (filter (of_cart cart) cuts)). 0 < k"
      using assms(1) by (auto simp: rotating_def)
    then show ?thesis unfolding w [symmetric] by simp
  qed
  ultimately show ?thesis using fair_full f(1) by blast
qed

definition demo_row :: "string \<Rightarrow> nat \<Rightarrow> cut_rec" where
  "demo_row name w = \<lparr>U_CUT_NAME = name, U_CART_NUMBER = 100, U_EVERGREEN = ''N'',
     U_DOW = (\<lambda>_. ''Y''), U_START_DATETIME = None, U_END_DATETIME = None, U_START_DAYPART = None,
     U_END_DAYPART = None, U_LENGTH = 30000, U_WEIGHT = w, U_PLAY_COUNTER = 0, U_LOCAL_COUNTER = 0,
     U_VALIDITY = CutAlwaysValid, U_POINTS = \<lparr>START_POINT = 0, END_POINT = 30000, SEGUE_START_POINT = -1,
       SEGUE_END_POINT = -1, TALK_START_POINT = -1, TALK_END_POINT = -1, FADEUP_POINT = -1,
       FADEDOWN_POINT = -1, HOOK_START_POINT = -1, HOOK_END_POINT = -1\<rparr>, U_SEGUE_GAIN = -3000,
     U_OUTCUE = '''', U_ISRC = '''', U_ISCI = '''', U_DESCRIPTION = ''''\<rparr>"

definition demo_moments :: "moment list" where
  "demo_moments = [(86400000, 1, 0), (86400000, 1, 60000), (86400000, 1, 120000)]"

theorem rotation_is_fair_witness:
  "list_all (\<lambda>q. U_LOCAL_COUNTER q = U_WEIGHT q) (filter (of_cart 100)
     (foldl (\<lambda>cs t. play_next 100 t cs) [demo_row ''000100_001'' 2, demo_row ''000100_002'' 1] demo_moments))"
proof -
  have "rotating 100 (set demo_moments) [demo_row ''000100_001'' 2, demo_row ''000100_002'' 1]"
    by (auto simp: rotating_def demo_row_def demo_moments_def on_air_def cut_current_def)
  then show ?thesis
    using rotation_is_fair [of 100 demo_moments "[demo_row ''000100_001'' 2, demo_row ''000100_002'' 1]"]
    by (simp add: list_all_iff weights_of_def demo_row_def demo_moments_def)
qed

section \<open>Validity\<close>

text \<open>A cut whose dates and whose dayparts are set together, as the editor sets them.\<close>

definition paired :: "cut_rec \<Rightarrow> bool" where
  "paired q \<longleftrightarrow> (U_START_DATETIME q = None \<longleftrightarrow> U_END_DATETIME q = None)
     \<and> (U_START_DAYPART q = None \<longleftrightarrow> U_END_DAYPART q = None) \<and> U_EVERGREEN q \<in> {''Y'', ''N''}"

lemma upper_days: "map upper_char ''Mon'' = ''MON''" "map upper_char ''Tue'' = ''TUE''"
  "map upper_char ''Wed'' = ''WED''" "map upper_char ''Thu'' = ''THU''" "map upper_char ''Fri'' = ''FRI''"
  "map upper_char ''Sat'' = ''SAT''" "map upper_char ''Sun'' = ''SUN''"
  by code_simp+

lemma dow_upper: "map upper_char (RDGetShortDayNameEN dow) \<in> set week_days"
  by (simp add: upper_days week_days_def del: list.map(2))

lemma all_days: "list_all P week_days \<Longrightarrow> P (map upper_char (RDGetShortDayNameEN dow))"
  using dow_upper by (simp only: list_all_iff)

lemma no_day: "\<not> list_ex P week_days \<Longrightarrow> \<not> P (map upper_char (RDGetShortDayNameEN dow))"
  using dow_upper by (auto simp only: list_ex_iff)

lemma scale_check_always: "fst (scale_check e len q r) = CutAlwaysValid \<Longrightarrow> fst r = CutAlwaysValid"
  by (auto simp: scale_check_def split: if_splits)

text \<open>What an always valid cut is: not expired and not limited by day, date or daypart.\<close>

lemma ValidateCut_always:
  assumes "fst (RDCart_ValidateCut now q e len ok) = CutAlwaysValid" "U_EVERGREEN q = ''N''"
  shows "list_all (\<lambda>d. U_DOW q d = ''Y'') week_days \<and> U_START_DAYPART q = None \<and> U_END_DAYPART q = None
    \<and> U_END_DATETIME q = None"
  using assms
  by (auto simp: RDCart_ValidateCut_def Let_def dest: scale_check_always split: if_splits option.splits)

lemma ValidateCut_never:
  assumes "fst (RDCart_ValidateCut now q False len ok) = CutNeverValid" "0 < U_LENGTH q"
  shows "U_EVERGREEN q = ''N'' \<and> (\<not> list_ex (\<lambda>d. U_DOW q d = ''Y'') week_days
    \<or> (\<exists>x. U_END_DATETIME q = Some x \<and> x < now))"
  using assms
  by (auto simp: RDCart_ValidateCut_def scale_check_def Let_def split: if_splits option.splits)

text \<open>C34: Of a cut with a length whose start and end come in pairs (both dates or none, both
  dayparts or none): found always valid, it may air at every moment: \<open>isValid\<close> accepts it then, and so
  does the query by which \<open>selectCut\<close> takes the cuts of the cart, or the one for evergreens. Found
  never valid, lengths not being enforced, it is refused by \<open>isValid\<close> at the moment it was checked, and
  at a whole second by both queries of \<open>selectCut\<close> as well, which compare whole seconds only.\<close>

theorem cut_validity_sound:
  assumes "paired q" "0 < U_LENGTH q"
  shows "(fst (RDCart_ValidateCut now q enforce_length len ok) = CutAlwaysValid
      \<longrightarrow> RDCut_isValid date (map upper_char (RDGetShortDayNameEN dow)) time (Some q)
        \<and> (on_air (U_CART_NUMBER q) (date, dow, time) q \<or> cut_evergreen (U_CART_NUMBER q) q))
    \<and> (fst (RDCart_ValidateCut (date + time) q False len ok) = CutNeverValid
      \<longrightarrow> \<not> RDCut_isValid date (map upper_char (RDGetShortDayNameEN dow)) time (Some q)
        \<and> (time mod 1000 = 0 \<longrightarrow> \<not> on_air (U_CART_NUMBER q) (date, dow, time) q
              \<and> \<not> cut_evergreen (U_CART_NUMBER q) q))"
proof (intro conjI impI)
  assume a: "fst (RDCart_ValidateCut now q enforce_length len ok) = CutAlwaysValid"
  show "RDCut_isValid date (map upper_char (RDGetShortDayNameEN dow)) time (Some q)"
  proof (cases "U_EVERGREEN q = ''Y''")
    case False
    then have "U_EVERGREEN q = ''N''" using assms(1) by (simp add: paired_def)
    then show ?thesis
      using ValidateCut_always [OF a] all_days [where P = "\<lambda>d. U_DOW q d = ''Y''" and dow = dow] assms(1)
      by (simp add: RDCut_isValid_def paired_def del: RDGetShortDayNameEN.simps)
  qed (simp add: RDCut_isValid_def)
  show "on_air (U_CART_NUMBER q) (date, dow, time) q \<or> cut_evergreen (U_CART_NUMBER q) q"
  proof (cases "U_EVERGREEN q = ''Y''")
    case True
    then show ?thesis using assms(2) by (simp add: cut_evergreen_def)
  next
    case False
    then have "U_EVERGREEN q = ''N''" using assms(1) by (simp add: paired_def)
    then show ?thesis
      using ValidateCut_always [OF a] all_days [where P = "\<lambda>d. U_DOW q d = ''Y''" and dow = dow] assms
      by (simp add: on_air_def cut_current_def paired_def del: RDGetShortDayNameEN.simps)
  qed
next
  assume "fst (RDCart_ValidateCut (date + time) q False len ok) = CutNeverValid"
  note n = ValidateCut_never [OF this assms(2)]
  then have past: "U_DOW q (map upper_char (RDGetShortDayNameEN dow)) \<noteq> ''Y''
      \<or> (\<exists>x. U_END_DATETIME q = Some x \<and> x < date + time)"
    using no_day [where P = "\<lambda>d. U_DOW q d = ''Y''" and dow = dow] by blast
  from past show "\<not> RDCut_isValid date (map upper_char (RDGetShortDayNameEN dow)) time (Some q)"
    using n by (auto simp: RDCut_isValid_def simp del: RDGetShortDayNameEN.simps)
  show "\<not> cut_evergreen (U_CART_NUMBER q) q" using n by (simp add: cut_evergreen_def)
  assume "time mod 1000 = 0"
  then have "whole_secs time = time" by (simp add: whole_secs_def)
  then show "\<not> on_air (U_CART_NUMBER q) (date, dow, time) q"
    using past assms(1)
    by (auto simp: on_air_def cut_current_def paired_def col_ge_def simp del: RDGetShortDayNameEN.simps)
qed

theorem cut_validity_sound_witness:
  "RDCut_isValid 86400000 ''MON'' 0 (Some (demo_row ''000100_001'' 1))"
proof -
  have a: "fst (RDCart_ValidateCut 0 (demo_row ''000100_001'' 1) True 30000 True) = CutAlwaysValid"
    by (simp add: RDCart_ValidateCut_def demo_row_def scale_check_def length_scalable_def week_days_def)
  have d: "map upper_char (RDGetShortDayNameEN 1) = ''MON''"
    using upper_days(1) by (simp del: list.map(2))
  have "paired (demo_row ''000100_001'' 1)" "0 < U_LENGTH (demo_row ''000100_001'' 1)"
    by (simp_all add: paired_def demo_row_def)
  from cut_validity_sound [OF this, of 0 True 30000 True 86400000 1 0] a show ?thesis by (simp only: d simp_thms)
qed

text \<open>The cast between the two enumerations: a cart none of whose cuts can air yet, because each
  of them starts in the future, is recorded as valid through an evergreen cut, although it has none. The
  same holds for a cart without cuts.\<close>

definition not_yet :: "qdatetime \<Rightarrow> cut_rec \<Rightarrow> bool" where
  "not_yet now q \<longleftrightarrow> 0 < U_LENGTH q \<and> U_EVERGREEN q = ''N'' \<and> list_ex (\<lambda>d. U_DOW q d = ''Y'') week_days
     \<and> (case (U_START_DATETIME q, U_END_DATETIME q) of (Some s, Some e) \<Rightarrow> now < s \<and> now \<le> e | _ \<Rightarrow> False)"

lemma not_yet_future: "not_yet now q \<Longrightarrow> RDCart_ValidateCut now q False len ok = (CutFutureValid, False)"
  by (auto simp: not_yet_def RDCart_ValidateCut_def scale_check_def Let_def split: option.splits)

lemma scan_future:
  "\<forall>q \<in> set cs. not_yet now q \<Longrightarrow> validity_code (cs_validity a) \<le> 3 \<Longrightarrow> cs \<noteq> []
    \<Longrightarrow> cs_validity (foldl (scan_cut now False len) a cs) = EvergreenValid"
proof (induction cs arbitrary: a)
  case (Cons q cs)
  let ?a = "scan_cut now False len a q"
  have v: "cs_validity ?a = EvergreenValid"
  proof -
    have "validity_code (cs_validity a) \<noteq> 3 \<or> cs_validity a = EvergreenValid"
      by (cases "cs_validity a") simp_all
    then show ?thesis
      using Cons.prems(1,2) not_yet_future [of now q len "cs_time_ok a"]
      by (auto simp: scan_cut_def validity_of_code_def)
  qed
  show ?case
  proof (cases "cs = []")
    case True
    then show ?thesis using v by simp
  next
    case False
    then show ?thesis using Cons.IH [of ?a] Cons.prems(1) v by simp
  qed
qed simp

theorem future_cart_is_evergreen:
  assumes "\<forall>q \<in> set (filter (of_cart cart) cuts). not_yet now q"
  shows "V_VALIDITY (fst (RDCart_updateLength now cart False len cuts row)) = EvergreenValid"
proof -
  let ?cs = "filter (of_cart cart) cuts"
  have "cs_validity (scan_cuts now False len ?cs) = EvergreenValid \<or> cs_evergreen (scan_cuts now False len ?cs)"
    using scan_future [of ?cs now _ len] assms by (cases "?cs = []") (auto simp: scan_cuts_def)
  then show ?thesis by (auto simp: RDCart_updateLength_def cart_validity_of_def Let_def)
qed

theorem future_cart_is_evergreen_witness:
  "V_VALIDITY (fst (RDCart_updateLength 1000 100 False 0
     [(demo_row ''000100_001'' 1)\<lparr>U_START_DATETIME := Some 2000, U_END_DATETIME := Some 3000\<rparr>]
     \<lparr>V_AVERAGE_LENGTH = 0, V_AVERAGE_SEGUE_LENGTH = 0, V_AVERAGE_HOOK_LENGTH = 0, V_FORCED_LENGTH = 0,
      V_CUT_QUANTITY = 0, V_START_DATETIME = None, V_END_DATETIME = None, V_VALIDITY = NeverValid\<rparr>))
    = EvergreenValid"
  by (rule future_cart_is_evergreen) (simp add: not_yet_def demo_row_def week_days_def)

section \<open>Scheduler codes and cut numbers\<close>

lemma space_is_space [simp]: "is_space (CHR '' '')"
  by (simp add: is_space_def)

lemma drop_spaces: "dropWhile is_space (replicate n (CHR '' '') @ t) = dropWhile is_space t"
  by (induction n) simp_all

lemma strip_space_pad: "strip_space (s @ replicate n (CHR '' '')) = strip_space s"
proof (cases "\<exists>x \<in> set s. \<not> is_space x")
  case True
  have "dropWhile is_space (s @ replicate n (CHR '' '')) = dropWhile is_space s @ replicate n (CHR '' '')"
    using True by (auto simp: dropWhile_append1)
  then show ?thesis by (simp add: strip_space_def drop_spaces)
next
  case False
  then have "dropWhile is_space s = []" by (simp add: dropWhile_eq_Nil_conv)
  moreover have "dropWhile is_space (s @ replicate n (CHR '' '')) = []"
    using False unfolding dropWhile_eq_Nil_conv by auto
  ultimately show ?thesis unfolding strip_space_def by (simp only:)
qed

lemma chunks_concat:
  assumes "\<And>c. c \<in> set xs \<Longrightarrow> length (f c) = 11"
  shows "map (\<lambda>k. qs_mid (11 * k) 11 (concat (map f xs) @ s)) [0..<length xs + m]
    = map f xs @ map (\<lambda>k. qs_mid (11 * k) 11 s) [0..<m]"
  using assms
proof (induction xs)
  case (Cons x xs)
  have upt: "[0..<length (x # xs) + m] = 0 # map Suc [0..<length xs + m]"
    by (simp add: upt_conv_Cons map_Suc_upt del: upt_Suc)
  have "qs_mid (11 * Suc k) 11 (concat (map f (x # xs)) @ s) = qs_mid (11 * k) 11 (concat (map f xs) @ s)" for k
    using Cons.prems [of x] by (simp add: qs_mid_def)
  moreover have "qs_mid (11 * 0) 11 (concat (map f (x # xs)) @ s) = f x"
    using Cons.prems [of x] by (simp add: qs_mid_def)
  ultimately show ?case
    unfolding upt list.map map_map comp_def using Cons.IH Cons.prems by simp
qed simp

definition code_ok :: "string \<Rightarrow> bool" where
  "code_ok c \<longleftrightarrow> c \<noteq> '''' \<and> c \<noteq> ''.'' \<and> strip_space c = c \<and> length c \<le> 11"

text \<open>The packed column gives back the scheduler codes that were stored, in order, for up to 24
  codes of at most 11 characters without outer blanks; adding a code appends it.\<close>

theorem sched_codes_roundtrip:
  assumes "\<forall>c \<in> set codes. code_ok c" "length codes \<le> 24"
  shows "RDCart_schedCodesList (RDCart_setSchedCodesList codes) = codes"
proof -
  let ?f = "\<lambda>c. pad_right 11 (qs_left 11 c)"
  have len: "length (?f c) = 11" if "c \<in> set codes" for c
    using assms(1) that by (simp add: pad_right_def qs_left_def code_ok_def)
  obtain m where m: "24 = length codes + m" using assms(2) le_Suc_ex by blast
  have "map (\<lambda>k. qs_mid (11 * k) 11 (RDCart_setSchedCodesList codes)) [0..<24]
    = map ?f codes @ map (\<lambda>k. qs_mid (11 * k) 11 ''.'') [0..<m]"
    unfolding RDCart_setSchedCodesList_def m by (rule chunks_concat) (rule len)
  moreover have "filter (\<lambda>c. c \<noteq> '''' \<and> strip_space c \<noteq> ''.'') (map (\<lambda>k. qs_mid (11 * k) 11 ''.'') [0..<m]) = []"
  proof -
    have "qs_mid (11 * k) 11 ''.'' = '''' \<or> strip_space (qs_mid (11 * k) 11 ''.'') = ''.''" for k
      by (cases k) (simp_all add: qs_mid_def strip_space_def is_space_def)
    then show ?thesis by (auto simp: filter_empty_conv)
  qed
  moreover have s: "strip_space (?f c) = c" if "c \<in> set codes" for c
    using assms(1) that by (simp add: pad_right_def qs_left_def code_ok_def strip_space_pad)
  moreover have "filter (\<lambda>c. c \<noteq> '''' \<and> strip_space c \<noteq> ''.'') (map ?f codes) = map ?f codes"
  proof -
    have "?f c \<noteq> ''''" if "c \<in> set codes" for c using len [OF that] by auto
    then show ?thesis using s assms(1) by (auto simp: filter_id_conv code_ok_def)
  qed
  ultimately have "RDCart_schedCodesList (RDCart_setSchedCodesList codes) = map strip_space (map ?f codes)"
    by (simp add: RDCart_schedCodesList_def)
  then show ?thesis using s by (simp add: map_idI)
qed

theorem sched_codes_roundtrip_witness:
  "RDCart_schedCodesList (RDCart_setSchedCodesList [''ROCK'', ''FEMALE VOC'']) = [''ROCK'', ''FEMALE VOC'']"
  by (rule sched_codes_roundtrip) (auto simp: code_ok_def strip_space_def is_space_def)

text \<open>The next free number: the first gap in the names of the cart's cuts.\<close>

lemma free_cut_loop_used:
  "free_cut_loop cart k i names = int j \<Longrightarrow> i \<le> j \<and> j < i + k
    \<and> take (j - i) names = map (RDCut_cutName cart) [i..<j] \<and> (j - i < length names \<longrightarrow> names ! (j - i) \<noteq> RDCut_cutName cart j)"
proof (induction cart k i names rule: free_cut_loop.induct)
  case (3 cart k i n names)
  show ?case
  proof (cases "n = RDCut_cutName cart i")
    case True
    then have ih: "i + 1 \<le> j \<and> j < i + 1 + k
      \<and> take (j - (i + 1)) names = map (RDCut_cutName cart) [i + 1..<j]
      \<and> (j - (i + 1) < length names \<longrightarrow> names ! (j - (i + 1)) \<noteq> RDCut_cutName cart j)"
      using 3 by simp
    then obtain d where d: "j = i + Suc d" by (metis add.assoc le_Suc_ex plus_1_eq_Suc)
    have "[i..<i + Suc d] = i # [i + 1..<i + Suc d]" by (simp add: upt_conv_Cons del: upt_Suc)
    then show ?thesis using ih True d by (simp del: upt_Suc)
  next
    case False
    then show ?thesis using 3 by simp
  qed
qed auto

lemma GetNextFreeCut_free:
  "RDCart_GetNextFreeCut cart names = int j \<Longrightarrow> 1 \<le> j \<and> j \<le> RD_MAX_CUT_NUMBER
    \<and> take (j - 1) names = map (RDCut_cutName cart) [1..<j]
    \<and> (j - 1 < length names \<longrightarrow> names ! (j - 1) \<noteq> RDCut_cutName cart j)"
  using free_cut_loop_used [of cart RD_MAX_CUT_NUMBER 1 names j]
  by (auto simp: RDCart_GetNextFreeCut_def RD_MAX_CUT_NUMBER_def)

end
