(* ===== verification/Macro_Event.thy ===== *)
theory Macro_Event
  imports Rml_Macro
begin

text \<open>
  A macro cart being edited and executed, \<open>RDMacroEvent\<close> of \<open>lib/rdmacro_event.h\<close> and
  \<open>lib/rdmacro_event.cpp\<close>: a vector of commands, loading and saving their text, and the execution
  machine, whose sleep commands end a run of the loop and whose timer resumes it. Signals and the
  messages handed to \<open>ripcd\<close> are the outputs of a step, in order. The timer event is a step of its
  own; \<open>HOSTVARS\<close>, \<open>RDStation\<close> and \<open>QHostAddress::setAddress\<close> are the functions of \<open>exec_env\<close>.
\<close>

record macro_event =
  event_cmds :: "rdmacro list"
  event_ripc :: bool
  event_sleep_timer :: "int option"
  event_whole_list :: bool
  event_sleeping_line :: nat
  event_address :: string
  event_line :: int
  event_start_time :: qtime

definition RDMacroEvent_new :: "string \<Rightarrow> bool \<Rightarrow> nat \<Rightarrow> macro_event" where
  "RDMacroEvent_new addr ripc junk =
     \<lparr>event_cmds = [], event_ripc = ripc, event_sleep_timer = None, event_whole_list = False,
      event_sleeping_line = junk, event_address = addr, event_line = -1, event_start_time = 0\<rparr>"

definition RDMacroEvent_command :: "int \<Rightarrow> macro_event \<Rightarrow> rdmacro res" where
  "RDMacroEvent_command line ev = vec_get (event_cmds ev) line"

definition RDMacroEvent_size :: "macro_event \<Rightarrow> int" where
  "RDMacroEvent_size ev = int (length (event_cmds ev))"

fun length_loop :: "rdmacro list \<Rightarrow> nat \<Rightarrow> nat res" where
  "length_loop [] n = Inr n"
| "length_loop (m # ms) n = res_bind (RDMacro_length m) (\<lambda>k. length_loop ms ((n + k) mod 2 ^ 32))"

definition RDMacroEvent_length :: "macro_event \<Rightarrow> nat res" where
  "RDMacroEvent_length ev = length_loop (event_cmds ev) 0"

definition RDMacroEvent_clear :: "macro_event \<Rightarrow> macro_event" where
  "RDMacroEvent_clear ev = ev\<lparr>event_cmds := [], event_line := -1, event_start_time := 0\<rparr>"

text \<open>\<open>load\<close>: \<open>buffer[ptr++]=c\<close> is unchecked, and every \<open>!\<close> ends a command.\<close>

fun load_loop :: "string \<Rightarrow> string \<Rightarrow> rdmacro \<Rightarrow> macro_event \<Rightarrow> (bool \<times> macro_event) res" where
  "load_loop [] buffer cmd ev = Inr (True, ev)"
| "load_loop (c # cs) buffer cmd ev =
     res_bind (put_byte c buffer) (\<lambda>buffer.
       if c = CHR ''!''
       then res_bind (RDMacro_parseString buffer (int (length buffer)) cmd) (\<lambda>(ok, cmd).
         if \<not> ok then Inr (False, RDMacroEvent_clear ev)
         else let cmd = cmd\<lparr>rml_role := RoleCmd, rml_addr := event_address ev, rml_echo_requested := False\<rparr>
              in load_loop cs [] (RDMacro_clear cmd) (ev\<lparr>event_cmds := event_cmds ev @ [cmd]\<rparr>))
       else load_loop cs buffer cmd ev)"

definition RDMacroEvent_load :: "string \<Rightarrow> macro_event \<Rightarrow> (bool \<times> macro_event) res" where
  "RDMacroEvent_load str ev = load_loop str [] new_rdmacro ev"

text \<open>\<open>load(cartnum)\<close>: the query gives the macros of the cart, when there is one.\<close>

definition RDMacroEvent_load_cart :: "string option \<Rightarrow> macro_event \<Rightarrow> (bool \<times> macro_event) res" where
  "RDMacroEvent_load_cart row ev =
     (case row of None \<Rightarrow> Inr (False, RDMacroEvent_clear ev) | Some str \<Rightarrow> RDMacroEvent_load str ev)"

text \<open>\<open>save\<close>: the buffer is uninitialised at first and keeps the last command printed when the
  next one does not fit.\<close>

fun save_loop :: "rdmacro list \<Rightarrow> string \<Rightarrow> string \<Rightarrow> string res" where
  "save_loop [] buffer str = Inr str"
| "save_loop (m # ms) buffer str =
     res_bind (RDMacro_generateString buffer (int RD_RML_MAX_LENGTH - 1) m)
       (\<lambda>(n, buffer). save_loop ms buffer (str @ cstr buffer))"

definition RDMacroEvent_save :: "string \<Rightarrow> macro_event \<Rightarrow> string res" where
  "RDMacroEvent_save junk ev = save_loop (event_cmds ev) junk []"

definition RDMacroEvent_insert :: "int \<Rightarrow> rdmacro \<Rightarrow> macro_event \<Rightarrow> macro_event res" where
  "RDMacroEvent_insert line cmd ev =
     res_bind (vec_ins line cmd (event_cmds ev)) (\<lambda>cs. Inr (ev\<lparr>event_cmds := cs\<rparr>))"

definition RDMacroEvent_remove :: "int \<Rightarrow> macro_event \<Rightarrow> macro_event res" where
  "RDMacroEvent_remove line ev =
     res_bind (vec_get (event_cmds ev) line) (\<lambda>_.
       res_bind (vec_del line 1 (event_cmds ev)) (\<lambda>cs. Inr (ev\<lparr>event_cmds := cs\<rparr>)))"

definition RDMacroEvent_move :: "int \<Rightarrow> int \<Rightarrow> macro_event \<Rightarrow> macro_event res" where
  "RDMacroEvent_move from_line to_line ev =
     (let src_offset = (if to_line < from_line then 1 else 0)
      in res_bind (RDMacroEvent_command from_line ev) (\<lambda>cmd.
           res_bind (RDMacroEvent_insert to_line cmd ev)
             (RDMacroEvent_remove (from_line + src_offset))))"

definition RDMacroEvent_copy :: "int \<Rightarrow> int \<Rightarrow> macro_event \<Rightarrow> macro_event res" where
  "RDMacroEvent_copy from_line to_line ev =
     res_bind (RDMacroEvent_command from_line ev) (\<lambda>cmd. RDMacroEvent_insert to_line cmd ev)"

section \<open>Execution\<close>

datatype signal = Started | StartedLine nat | Finished | FinishedLine nat | Stopped | SendRml rdmacro

record exec_env =
  env_station :: string
  env_hostvar :: "string \<Rightarrow> string \<Rightarrow> string option"
  env_station_address :: "string \<Rightarrow> string option"
  env_set_address :: "string \<Rightarrow> string option"

text \<open>\<open>QStringList::split\<close> drops empty entries.\<close>

fun split_on :: "char \<Rightarrow> string \<Rightarrow> string \<Rightarrow> string list" where
  "split_on d acc [] = (if acc = [] then [] else [acc])"
| "split_on d acc (c # cs) =
     (if c = d then (if acc = [] then [] else [acc]) @ split_on d [] cs else split_on d (acc @ [c]) cs)"

text \<open>The address a \<open>CC\<close> command is sent to: a host variable, a station, or a literal address.\<close>

definition resolve_host :: "exec_env \<Rightarrow> string \<Rightarrow> string option" where
  "resolve_host env name =
     (let name = (case env_hostvar env (env_station env) name of None \<Rightarrow> name | Some v \<Rightarrow> v)
      in case env_station_address env name of Some a \<Rightarrow> Some a | None \<Rightarrow> env_set_address env name)"

fun copy_args :: "nat \<Rightarrow> int \<Rightarrow> rdmacro \<Rightarrow> rdmacro \<Rightarrow> rdmacro res" where
  "copy_args 0 i src rml = Inr rml"
| "copy_args (Suc k) i src rml =
     res_bind (RDMacro_arg (i + 2) src) (\<lambda>v. res_bind (RDMacro_setArg i v rml) (copy_args k (i + 1) src))"

definition forwarded :: "exec_env \<Rightarrow> rdmacro \<Rightarrow> rdmacro option res" where
  "forwarded env m =
     res_bind (RDMacro_arg 0 m) (\<lambda>a0.
       let args = split_on (CHR '':'') [] (qv_toString a0)
       in res_bind (vec_get args 0) (\<lambda>stationname.
         let port = (if length args = 2 then int (toUInt0 (args ! 1)) mod 65536 else 0)
         in case resolve_host env stationname of None \<Rightarrow> Inr None
            | Some addr \<Rightarrow>
                let rml = new_rdmacro\<lparr>rml_addr := addr, rml_arg_quantity := rml_arg_quantity m - 2\<rparr>
                in res_bind (RDMacro_arg 1 m) (\<lambda>a1.
                   res_bind (vec_get (qv_toString a1) 0) (\<lambda>c0.
                   let c1 = (case qv_toString a1 of [_] \<Rightarrow> CHR 0x00 | _ \<Rightarrow> qv_toString a1 ! 1)
                   in res_bind (copy_args (nat (rml_arg_quantity rml)) 0 m
                        (rml\<lparr>rml_cmd := 256 * schar c0 + schar c1\<rparr>))
                      (\<lambda>rml. Inr (Some (rml\<lparr>rml_role := RoleCmd, rml_port := port,
                                        rml_echo_requested := rml_echo_requested m\<rparr>)))))))"

definition RDMacroEvent_exec_line :: "exec_env \<Rightarrow> nat \<Rightarrow> macro_event \<Rightarrow> (macro_event \<times> signal list) res" where
  "RDMacroEvent_exec_line env line ev =
     (if \<not> event_ripc ev then Inr (ev, [])
      else res_bind (vec_get (event_cmds ev) (int line)) (\<lambda>m.
        if rml_cmd m = SP
        then res_bind (RDMacro_arg 0 m) (\<lambda>a.
               Inr (ev\<lparr>event_sleeping_line := line, event_sleep_timer := Some (qv_toInt a)\<rparr>, [StartedLine line]))
        else if rml_cmd m = CC
        then res_bind (forwarded env m) (\<lambda>r.
               Inr (ev, StartedLine line # (case r of None \<Rightarrow> [] | Some rml \<Rightarrow> [SendRml rml]) @ [FinishedLine line]))
        else Inr (ev, [StartedLine line, SendRml m, FinishedLine line])))"

text \<open>\<open>ExecList\<close>, on the lines left: a sleep returns from the loop.\<close>

fun exec_loop :: "exec_env \<Rightarrow> nat \<Rightarrow> nat \<Rightarrow> macro_event \<Rightarrow> signal list \<Rightarrow> (macro_event \<times> signal list) res" where
  "exec_loop env 0 i ev out = Inr (ev\<lparr>event_whole_list := False\<rparr>, out @ [Finished])"
| "exec_loop env (Suc k) i ev out =
     res_bind (vec_get (event_cmds ev) (int i)) (\<lambda>m.
       res_bind (RDMacroEvent_exec_line env i ev) (\<lambda>(ev, o1).
         if rml_cmd m = SP then Inr (ev, out @ o1) else exec_loop env k (i + 1) ev (out @ o1)))"

definition RDMacroEvent_ExecList :: "exec_env \<Rightarrow> nat \<Rightarrow> macro_event \<Rightarrow> (macro_event \<times> signal list) res" where
  "RDMacroEvent_ExecList env line ev =
     (let (ev1, out) = (if line = 0 then (ev\<lparr>event_whole_list := True\<rparr>, [Started]) else (ev, []))
      in exec_loop env (length (event_cmds ev) - line) line ev1 out)"

definition RDMacroEvent_exec :: "exec_env \<Rightarrow> macro_event \<Rightarrow> (macro_event \<times> signal list) res" where
  "RDMacroEvent_exec env ev = (if \<not> event_ripc ev then Inr (ev, []) else RDMacroEvent_ExecList env 0 ev)"

definition RDMacroEvent_stop :: "macro_event \<Rightarrow> macro_event \<times> signal list" where
  "RDMacroEvent_stop ev =
     (if event_sleep_timer ev \<noteq> None then (ev\<lparr>event_sleep_timer := None\<rparr>, [Stopped]) else (ev, []))"

text \<open>The single-shot timer fires, when it runs: it stops, then \<open>sleepTimerData\<close> runs.\<close>

definition RDMacroEvent_sleepTimerData :: "exec_env \<Rightarrow> macro_event \<Rightarrow> (macro_event \<times> signal list) res" where
  "RDMacroEvent_sleepTimerData env ev =
     res_bind (if event_whole_list ev then RDMacroEvent_ExecList env (event_sleeping_line ev + 1) ev
               else Inr (ev, []))
       (\<lambda>(ev', out). Inr (ev', FinishedLine (event_sleeping_line ev) # out))"

definition timer_fires :: "exec_env \<Rightarrow> macro_event \<Rightarrow> (macro_event \<times> signal list) res" where
  "timer_fires env ev =
     (if event_sleep_timer ev = None then Inr (ev, [])
      else RDMacroEvent_sleepTimerData env (ev\<lparr>event_sleep_timer := None\<rparr>))"

section \<open>Execution lemmas\<close>

text \<open>What one command outputs, from the list and the environment alone.\<close>

definition line_outputs :: "exec_env \<Rightarrow> rdmacro \<Rightarrow> nat \<Rightarrow> signal list res" where
  "line_outputs env m i =
     (if rml_cmd m = CC
      then res_bind (forwarded env m) (\<lambda>r.
             Inr (StartedLine i # (case r of None \<Rightarrow> [] | Some rml \<Rightarrow> [SendRml rml]) @ [FinishedLine i]))
      else Inr [StartedLine i, SendRml m, FinishedLine i])"

text \<open>The trace of a whole list: a sleep outputs its start and, later, its end.\<close>

fun full_trace :: "exec_env \<Rightarrow> rdmacro list \<Rightarrow> nat \<Rightarrow> signal list res" where
  "full_trace env [] i = Inr [Finished]"
| "full_trace env (m # ms) i =
     res_bind (if rml_cmd m = SP then Inr [StartedLine i, FinishedLine i] else line_outputs env m i)
       (\<lambda>o1. res_bind (full_trace env ms (i + 1)) (\<lambda>o2. Inr (o1 @ o2)))"

lemma exec_line_sleep:
  assumes "event_ripc ev" "vec_get (event_cmds ev) (int i) = Inr m" "rml_cmd m = SP" "macro_ok m"
  shows "RDMacroEvent_exec_line env i ev
    = Inr (ev\<lparr>event_sleeping_line := i, event_sleep_timer := Some (qv_toInt (rml_arg m ! 0))\<rparr>, [StartedLine i])"
proof -
  have "vec_get (rml_arg m) 0 = Inr (rml_arg m ! 0)"
    using assms(4) by (simp add: vec_get_def vec_in_def macro_ok_def RD_RML_MAX_ARGS_def)
  then show ?thesis
    using assms by (simp add: RDMacroEvent_exec_line_def RDMacro_arg_def RD_RML_MAX_ARGS_def)
qed

lemma exec_line_other:
  assumes "event_ripc ev" "vec_get (event_cmds ev) (int i) = Inr m" "rml_cmd m \<noteq> SP"
  shows "RDMacroEvent_exec_line env i ev = res_bind (line_outputs env m i) (\<lambda>os. Inr (ev, os))"
  using assms
  by (cases "rml_cmd m = CC"; cases "forwarded env m")
    (simp_all add: RDMacroEvent_exec_line_def line_outputs_def)

text \<open>Fire the timer up to \<open>k\<close> times.\<close>

fun drain :: "exec_env \<Rightarrow> nat \<Rightarrow> macro_event \<Rightarrow> signal list \<Rightarrow> (macro_event \<times> signal list) res" where
  "drain env 0 ev out = Inr (ev, out)"
| "drain env (Suc k) ev out =
     res_bind (timer_fires env ev) (\<lambda>(ev', o1). drain env k ev' (out @ o1))"

lemma drain_idle: "event_sleep_timer ev = None \<Longrightarrow> drain env k ev out = Inr (ev, out)"
  by (induction k) (simp_all add: timer_fires_def)

lemma drain_out: "drain env k ev out = Inr (ev', out') \<Longrightarrow> drain env k ev (pre @ out) = Inr (ev', pre @ out')"
proof (induction k arbitrary: ev out)
  case (Suc k)
  then show ?case by (fastforce split: prod.splits)
qed simp

definition sleeps :: "rdmacro list \<Rightarrow> nat" where
  "sleeps ms = length (filter (\<lambda>m. rml_cmd m = SP) ms)"

lemma exec_rest:
  assumes "event_ripc ev" "drop i (event_cmds ev) = ms" "i \<le> length (event_cmds ev)"
    "list_all macro_ok ms" "full_trace env ms i = Inr tr" "sleeps ms \<le> k"
    "event_whole_list ev" "event_sleep_timer ev = None"
  shows "\<exists>ev1 o1 ev'. exec_loop env (length ms) i ev out = Inr (ev1, o1)
    \<and> drain env k ev1 o1 = Inr (ev', out @ tr)
    \<and> event_sleep_timer ev' = None \<and> \<not> event_whole_list ev' \<and> event_cmds ev' = event_cmds ev"
  using assms
proof (induction ms arbitrary: i ev tr k out)
  case Nil
  then show ?case by (auto simp: drain_idle)
next
  case (Cons m ms)
  have i: "i < length (event_cmds ev)" using Cons.prems(2) by (metis drop_all leI list.distinct(1))
  have m: "event_cmds ev ! i = m" "drop (i + 1) (event_cmds ev) = ms"
    using Cons.prems(2) i by (metis Cons_nth_drop_Suc Suc_eq_plus1 list.inject)+
  then have get: "vec_get (event_cmds ev) (int i) = Inr m" using i by (simp add: vec_get_def)
  show ?case
  proof (cases "rml_cmd m = SP")
    case True
    obtain tr2 where tr: "full_trace env ms (i + 1) = Inr tr2" "tr = [StartedLine i, FinishedLine i] @ tr2"
      using Cons.prems(5) True by auto
    obtain k' where k: "k = Suc k'" "sleeps ms \<le> k'"
      using Cons.prems(6) True by (cases k) (auto simp: sleeps_def)
    let ?t = "Some (qv_toInt (rml_arg m ! 0))"
    let ?ev1 = "ev\<lparr>event_sleeping_line := i, event_sleep_timer := ?t\<rparr>"
    let ?ev2 = "ev\<lparr>event_sleeping_line := i, event_sleep_timer := None\<rparr>"
    have run: "exec_loop env (length (m # ms)) i ev out = Inr (?ev1, out @ [StartedLine i])"
      using exec_line_sleep [OF Cons.prems(1) get True] Cons.prems(4) True get by simp
    have len: "length (event_cmds ev) - (i + 1) = length ms" using m(2) by (metis length_drop)
    obtain ev3 o3 ev' where r: "exec_loop env (length ms) (i + 1) ?ev2 [] = Inr (ev3, o3)"
        "drain env k' ev3 o3 = Inr (ev', tr2)" "event_sleep_timer ev' = None" "\<not> event_whole_list ev'"
        "event_cmds ev' = event_cmds ev"
      using Cons.IH [of ?ev2 "i + 1" tr2 k' "[]"] Cons.prems(1,4,7) m i tr(1) k(2) by auto
    have fire: "timer_fires env ?ev1 = Inr (ev3, FinishedLine i # o3)"
      using r(1) len Cons.prems(7)
      by (simp add: timer_fires_def RDMacroEvent_sleepTimerData_def RDMacroEvent_ExecList_def)
    have "drain env k ?ev1 (out @ [StartedLine i]) = Inr (ev', out @ tr)"
      using fire drain_out [OF r(2), of "out @ [StartedLine i, FinishedLine i]"] tr(2) k(1) by simp
    then show ?thesis using run r(3-5) by blast
  next
    case False
    obtain o1 tr2 where tr: "line_outputs env m i = Inr o1" "full_trace env ms (i + 1) = Inr tr2" "tr = o1 @ tr2"
      using Cons.prems(5) False by auto
    have run: "exec_loop env (length (m # ms)) i ev out = exec_loop env (length ms) (i + 1) ev (out @ o1)"
      using exec_line_other [OF Cons.prems(1) get False] get False tr(1) by simp
    have k: "sleeps ms \<le> k" using Cons.prems(6) False by (simp add: sleeps_def)
    show ?thesis
      unfolding run using Cons.IH [of ev "i + 1" tr2 k "out @ o1"] Cons.prems m i tr k by auto
  qed
qed

section \<open>Loading and saving\<close>

lemma cstr_id: "CHR 0x00 \<notin> set s \<Longrightarrow> cstr s = s"
  unfolding cstr_def by (induction s) auto

lemma load_segment:
  assumes "CHR ''!'' \<notin> set s" "length buffer + length s \<le> RD_RML_MAX_LENGTH"
  shows "load_loop (s @ cs) buffer cmd ev = load_loop cs (buffer @ s) cmd ev"
  using assms
proof (induction s arbitrary: buffer)
  case (Cons c s)
  then have "put_byte c buffer = Inr (buffer @ [c])" by (simp add: put_byte_def)
  then show ?case using Cons by auto
qed simp

lemma load_overflows:
  assumes "CHR ''!'' \<notin> set s" "length buffer \<le> RD_RML_MAX_LENGTH"
    "RD_RML_MAX_LENGTH < length buffer + length s"
  shows "load_loop s buffer cmd ev = Inl OutOfRange"
  using assms
proof (induction s arbitrary: buffer)
  case (Cons c s)
  show ?case
  proof (cases "length buffer < RD_RML_MAX_LENGTH")
    case True
    then show ?thesis using Cons by (auto simp: put_byte_def)
  next
    case False
    then show ?thesis by (simp add: put_byte_def)
  qed
qed simp

lemma macro_ok_fields [simp]:
  "macro_ok (m\<lparr>rml_role := r, rml_addr := ad, rml_echo_requested := e\<rparr>) = macro_ok m"
  by (simp add: macro_ok_def)

lemma parse_safe:
  assumes "macro_ok m"
  shows "\<exists>b m'. RDMacro_parseString str (int (length str)) m = Inr (b, m') \<and> macro_ok m'"
proof (cases "length str < 3")
  case True
  then show ?thesis using assms by (auto simp: RDMacro_parseString_def)
next
  case False
  let ?m1 = "m\<lparr>rml_cmd := command_of (str ! 0) (str ! 1)\<rparr>"
  have get: "vec_get str 0 = Inr (str ! 0)" "vec_get str 1 = Inr (str ! 1)" "vec_get str 2 = Inr (str ! 2)"
    using False by (auto simp: vec_get_def vec_in_def)
  obtain b m' where p: "parse_loop (length str - 3) (drop 3 str) False False 0 [] ?m1 = Inr (b, m')"
      "parse_post (command_of (str ! 0) (str ! 1)) b m'"
    using parse_loop_safe [of 0 "[]" ?m1 "length str - 3" "drop 3 str" False False] assms
    by (auto simp: RD_RML_MAX_ARGS_def RD_RML_MAX_LENGTH_def)
  show ?thesis
    using False p assms by (auto simp: RDMacro_parseString_def get Let_def parse_post_def)
qed

lemma load_short_safe:
  assumes "macro_ok cmd" "length buffer + length s \<le> RD_RML_MAX_LENGTH"
  shows "\<exists>r. load_loop s buffer cmd ev = Inr r"
  using assms
proof (induction s arbitrary: buffer cmd ev)
  case (Cons c s)
  have put: "put_byte c buffer = Inr (buffer @ [c])" using Cons.prems(2) by (simp add: put_byte_def)
  show ?case
  proof (cases "c = CHR ''!''")
    case False
    then show ?thesis using Cons.IH [of cmd "buffer @ [c]" ev] Cons.prems put by simp
  next
    case True
    obtain b m' where p: "RDMacro_parseString (buffer @ [c]) (int (length (buffer @ [c]))) cmd = Inr (b, m')"
      using parse_safe [OF Cons.prems(1), of "buffer @ [c]"] by blast
    show ?thesis
      using Cons.IH [OF macro_ok_simps(2), of "[]"] Cons.prems(2) put p True
      by (cases b) (auto simp: Let_def)
  qed
qed auto

text \<open>What a saved command keeps.\<close>

definition macro_msg :: "rdmacro \<Rightarrow> command \<times> string list" where
  "macro_msg m = (rml_cmd m, macro_texts m)"

definition savable :: "rdmacro \<Rightarrow> bool" where
  "savable m \<longleftrightarrow> plain_macro m \<and> list_all (\<lambda>a. CHR ''!'' \<notin> set a) (macro_texts m)
     \<and> length (macro_text m) + 1 < RD_RML_MAX_LENGTH"

lemma mnemonic_no_mark:
  assumes "c \<in> set parsed_commands"
  shows "CHR ''!'' \<notin> {char_of (c div 256), char_of (c mod 256)}"
    "CHR 0x00 \<notin> {char_of (c div 256), char_of (c mod 256)}"
proof -
  have "list_all (\<lambda>c. CHR ''!'' \<notin> {char_of (c div 256), char_of (c mod 256)}
      \<and> CHR 0x00 \<notin> {char_of (c div 256), char_of (c mod 256)}) parsed_commands"
    by code_simp
  then show "CHR ''!'' \<notin> {char_of (c div 256), char_of (c mod 256)}"
    "CHR 0x00 \<notin> {char_of (c div 256), char_of (c mod 256)}"
    using assms by (simp_all add: list_all_iff)
qed

lemma macro_text_parts:
  assumes "savable m"
  obtains s where "macro_text m = s @ ''!''" "CHR ''!'' \<notin> set s" "CHR 0x00 \<notin> set (macro_text m)"
proof -
  let ?h = "[char_of (rml_cmd m div 256), char_of (rml_cmd m mod 256)] :: string"
  have known: "rml_cmd m \<in> set parsed_commands" using assms by (simp add: savable_def plain_macro_def)
  have h: "CHR ''!'' \<notin> set ?h" "CHR 0x00 \<notin> set ?h"
    using mnemonic_no_mark [OF known] by simp_all
  have "scanned q s \<Longrightarrow> CHR 0x00 \<notin> set s" for q s
    by (induction q s rule: scanned.induct) (auto split: if_splits)
  then have nul: "a \<in> set (macro_texts m) \<Longrightarrow> CHR 0x00 \<notin> set a" for a
    using assms by (auto simp: savable_def plain_macro_def macro_texts_def list_all_iff)
  show ?thesis
    using that [of "?h @ concat (map (\<lambda>a. '' '' @ a) (macro_texts m))"] h nul assms
    by (auto simp: macro_text_def savable_def list_all_iff)
qed

lemma save_savable:
  assumes "list_all savable ms"
  shows "save_loop ms buffer str = Inr (str @ concat (map macro_text ms))"
  using assms
proof (induction ms arbitrary: buffer str)
  case (Cons m ms)
  have m: "savable m" "plain_macro m" using Cons.prems by (simp_all add: savable_def)
  obtain s where "CHR 0x00 \<notin> set (macro_text m)" using macro_text_parts [OF m(1)] by blast
  then have c: "cstr (macro_text m) = macro_text m" by (rule cstr_id)
  have "int (length (macro_text m)) < int RD_RML_MAX_LENGTH - 1" using m(1) by (simp add: savable_def)
  then have g: "RDMacro_generateString buffer (int RD_RML_MAX_LENGTH - 1) m
      = Inr (int (length (macro_text m)), macro_text m)"
    using generate_plain [OF m(2), of buffer "int RD_RML_MAX_LENGTH - 1"] by simp
  show ?case using Cons g c by simp
qed simp

lemma load_saved:
  assumes "list_all savable ms" "macro_ok cmd"
  shows "\<exists>ev'. load_loop (concat (map macro_text ms)) [] cmd ev = Inr (True, ev')
    \<and> map macro_msg (event_cmds ev') = map macro_msg (event_cmds ev) @ map macro_msg ms
    \<and> length (event_cmds ev') = length (event_cmds ev) + length ms"
  using assms
proof (induction ms arbitrary: cmd ev)
  case (Cons m ms)
  have m: "savable m" "plain_macro m" using Cons.prems by (simp_all add: savable_def)
  obtain s where s: "macro_text m = s @ ''!''" "CHR ''!'' \<notin> set s" using macro_text_parts [OF m(1)] by blast
  have len: "length s < RD_RML_MAX_LENGTH" using m(1) s(1) by (simp add: savable_def)
  let ?st = "store_args 0 (macro_texts m) (cmd\<lparr>rml_cmd := rml_cmd m\<rparr>)"
  let ?c1 = "?st\<lparr>rml_arg_quantity := rml_arg_quantity m\<rparr>"
  let ?c2 = "?c1\<lparr>rml_role := RoleCmd, rml_addr := event_address ev, rml_echo_requested := False\<rparr>"
  have parse: "RDMacro_parseString (s @ ''!'') (int (length (s @ ''!''))) cmd = Inr (True, ?c1)"
    using parse_plain [OF m(2) Cons.prems(2)] s(1) by simp
  have "nat (rml_arg_quantity m) = length (macro_texts m)" "length (macro_texts m) \<le> length (rml_arg cmd)"
    using m(2) Cons.prems(2) by (auto simp: plain_macro_def macro_texts_def macro_ok_def)
  then have msg: "macro_msg ?c2 = macro_msg m"
    using store_args_texts(1) [of "macro_texts m" "cmd\<lparr>rml_cmd := rml_cmd m\<rparr>"]
    by (simp add: macro_msg_def macro_texts_def [of "_\<lparr>rml_arg_quantity := _, rml_role := _, rml_addr := _, rml_echo_requested := _\<rparr>"]
        store_args_def)
  have put: "put_byte (CHR ''!'') s = Inr (s @ ''!'')" using len by (simp add: put_byte_def)
  have "load_loop (macro_text m @ concat (map macro_text ms)) [] cmd ev
      = load_loop (''!'' @ concat (map macro_text ms)) s cmd ev"
    using load_segment [OF s(2), of "[]" "''!'' @ concat (map macro_text ms)" cmd ev] len s(1) by simp
  also have "\<dots> = load_loop (concat (map macro_text ms)) [] (RDMacro_clear ?c2)
      (ev\<lparr>event_cmds := event_cmds ev @ [?c2]\<rparr>)"
    using put parse by (simp add: Let_def)
  finally have run: "load_loop (concat (map macro_text (m # ms))) [] cmd ev
      = load_loop (concat (map macro_text ms)) [] (RDMacro_clear ?c2)
          (ev\<lparr>event_cmds := event_cmds ev @ [?c2]\<rparr>)" by simp
  show ?case
    using Cons.IH [OF _ macro_ok_simps(2), of "?c2" "ev\<lparr>event_cmds := event_cmds ev @ [?c2]\<rparr>"]
      Cons.prems(1) msg run by auto
qed simp

section \<open>Properties\<close>

text \<open>C24: Executing a loaded list and letting every sleep time out runs every command once and in
  order, each sleep lasting until its timer fires, then reports \<open>finished\<close> and leaves the machine
  idle. The number of timeouts needed is the number of sleep commands.\<close>

theorem exec_completes:
  assumes "event_ripc ev" "list_all macro_ok (event_cmds ev)" "event_sleep_timer ev = None"
    "full_trace env (event_cmds ev) 0 = Inr tr" "sleeps (event_cmds ev) \<le> k"
  shows "\<exists>ev1 o1 ev'. RDMacroEvent_exec env ev = Inr (ev1, o1)
    \<and> drain env k ev1 o1 = Inr (ev', Started # tr)
    \<and> event_sleep_timer ev' = None \<and> \<not> event_whole_list ev' \<and> event_cmds ev' = event_cmds ev"
  using exec_rest [of "ev\<lparr>event_whole_list := True\<rparr>" 0 "event_cmds ev" env tr k "[Started]"] assms
  by (simp add: RDMacroEvent_exec_def RDMacroEvent_ExecList_def)

definition no_hosts :: exec_env where
  "no_hosts = \<lparr>env_station = [], env_hostvar = (\<lambda>_ _. None), env_station_address = (\<lambda>_. None),
     env_set_address = (\<lambda>_. None)\<rparr>"

definition sleep_macro :: rdmacro where
  "sleep_macro = new_rdmacro\<lparr>rml_cmd := SP, rml_arg := QText ''500'' # replicate 99 QInvalid,
     rml_arg_quantity := 1\<rparr>"

definition demo_event :: macro_event where
  "demo_event = (RDMacroEvent_new [] True 0)\<lparr>event_cmds := [label_macro, sleep_macro, label_macro]\<rparr>"

theorem exec_completes_witness:
  "\<exists>ev1 o1 ev'. RDMacroEvent_exec no_hosts demo_event = Inr (ev1, o1)
    \<and> drain no_hosts 1 ev1 o1 = Inr (ev', Started # [StartedLine 0, SendRml label_macro, FinishedLine 0,
        StartedLine 1, FinishedLine 1, StartedLine 2, SendRml label_macro, FinishedLine 2, Finished])
    \<and> event_sleep_timer ev' = None \<and> \<not> event_whole_list ev' \<and> event_cmds ev' = event_cmds demo_event"
  by (rule exec_completes)
    (simp_all add: demo_event_def RDMacroEvent_new_def line_outputs_def label_macro_def sleep_macro_def
      SP_def CC_def NN_def sleeps_def macro_ok_def RD_RML_MAX_ARGS_def new_rdmacro_def)

text \<open>Stopping a running list during a sleep cancels the timer but not the run: a single sleep
  command executed later goes on, when it times out, with the whole rest of the list.\<close>

theorem stop_keeps_running:
  assumes "event_ripc ev" "event_whole_list ev" "event_sleep_timer ev = Some t"
    "j < length (event_cmds ev)" "macro_ok (event_cmds ev ! j)" "rml_cmd (event_cmds ev ! j) = SP"
    "RDMacroEvent_stop ev = (ev1, o1)"
    "list_all macro_ok (event_cmds ev)" "full_trace env (drop (j + 1) (event_cmds ev)) (j + 1) = Inr tr"
    "sleeps (drop (j + 1) (event_cmds ev)) \<le> k"
  shows "o1 = [Stopped] \<and> event_sleep_timer ev1 = None
    \<and> (\<exists>ev2 ev'. RDMacroEvent_exec_line env j ev1 = Inr (ev2, [StartedLine j])
        \<and> drain env (Suc k) ev2 [] = Inr (ev', FinishedLine j # tr))"
proof -
  have ev1: "ev1 = ev\<lparr>event_sleep_timer := None\<rparr>" "o1 = [Stopped]"
    using assms(3,7) by (auto simp: RDMacroEvent_stop_def)
  let ?m = "event_cmds ev ! j"
  let ?ev2 = "ev1\<lparr>event_sleeping_line := j, event_sleep_timer := Some (qv_toInt (rml_arg ?m ! 0))\<rparr>"
  let ?ev3 = "ev1\<lparr>event_sleeping_line := j, event_sleep_timer := None\<rparr>"
  have get: "vec_get (event_cmds ev1) (int j) = Inr ?m" using assms(4) ev1 by (simp add: vec_get_def)
  have run: "RDMacroEvent_exec_line env j ev1 = Inr (?ev2, [StartedLine j])"
    using exec_line_sleep [OF _ get assms(6,5)] assms(1) ev1 by simp
  have all: "list_all macro_ok (drop (j + 1) (event_cmds ev))"
    using assms(8) by (auto simp: list_all_iff dest: in_set_dropD)
  obtain ev4 o4 ev' where r: "exec_loop env (length (drop (j + 1) (event_cmds ev))) (j + 1) ?ev3 [] = Inr (ev4, o4)"
      "drain env k ev4 o4 = Inr (ev', tr)"
    using exec_rest [of ?ev3 "j + 1" _ env tr k "[]"] all assms(1,2,4,9,10) ev1 by auto
  have "timer_fires env ?ev2 = Inr (ev4, FinishedLine j # o4)"
    using r(1) ev1 assms(2)
    by (simp add: timer_fires_def RDMacroEvent_sleepTimerData_def RDMacroEvent_ExecList_def)
  then have "drain env (Suc k) ?ev2 [] = Inr (ev', FinishedLine j # tr)"
    using drain_out [OF r(2), of "[FinishedLine j]"] by simp
  moreover have "o1 = [Stopped]" "event_sleep_timer ev1 = None" using ev1 by simp_all
  ultimately show ?thesis using run by blast
qed

theorem stop_keeps_running_witness:
  "[Stopped] = [Stopped] \<and> event_sleep_timer (demo_event\<lparr>event_whole_list := True\<rparr>) = None
    \<and> (\<exists>ev2 ev'. RDMacroEvent_exec_line no_hosts 1 (demo_event\<lparr>event_whole_list := True\<rparr>) = Inr (ev2, [StartedLine 1])
        \<and> drain no_hosts (Suc 0) ev2 [] = Inr (ev', FinishedLine 1
            # [StartedLine 2, SendRml label_macro, FinishedLine 2, Finished]))"
  by (rule stop_keeps_running [where ev = "demo_event\<lparr>event_whole_list := True, event_sleep_timer := Some 500\<rparr>" and t = 500])
    (simp_all add: demo_event_def RDMacroEvent_new_def line_outputs_def label_macro_def sleep_macro_def
      SP_def CC_def NN_def sleeps_def macro_ok_def RD_RML_MAX_ARGS_def new_rdmacro_def RDMacroEvent_stop_def)

text \<open>Saving a list of printable commands without \<open>!\<close> in an argument and loading the text into
  an empty event gives back every command with its arguments, in order.\<close>

theorem macro_save_load:
  assumes "list_all savable (event_cmds ev)" "event_cmds ev0 = []"
  shows "\<exists>str ev'. RDMacroEvent_save junk ev = Inr str \<and> RDMacroEvent_load str ev0 = Inr (True, ev')
    \<and> map macro_msg (event_cmds ev') = map macro_msg (event_cmds ev)"
  using save_savable [OF assms(1), of junk "[]"] load_saved [OF assms(1), of new_rdmacro ev0] assms(2)
  by (auto simp: RDMacroEvent_save_def RDMacroEvent_load_def)

lemma sleep_savable: "savable sleep_macro"
  by code_simp

theorem macro_save_load_witness:
  "\<exists>str ev'. RDMacroEvent_save [] (demo_event\<lparr>event_cmds := [sleep_macro, sleep_macro]\<rparr>) = Inr str
    \<and> RDMacroEvent_load str (RDMacroEvent_new [] True 0) = Inr (True, ev')
    \<and> map macro_msg (event_cmds ev') = map macro_msg (event_cmds (demo_event\<lparr>event_cmds := [sleep_macro, sleep_macro]\<rparr>))"
  by (rule macro_save_load) (simp_all add: sleep_savable RDMacroEvent_new_def)

text \<open>Loading a text of at most \<open>RD_RML_MAX_LENGTH\<close> characters never leaves the buffer; a longer
  text without \<open>!\<close> overruns it.\<close>

theorem macro_load_bounds:
  "(length str \<le> RD_RML_MAX_LENGTH \<longrightarrow> (\<exists>r. RDMacroEvent_load str ev = Inr r))
    \<and> (RD_RML_MAX_LENGTH < length str \<and> CHR ''!'' \<notin> set str \<longrightarrow> RDMacroEvent_load str ev = Inl OutOfRange)"
  using load_short_safe [of new_rdmacro "[]" str ev] load_overflows [of str "[]" new_rdmacro ev]
  by (simp add: RDMacroEvent_load_def)

theorem macro_load_bounds_witness:
  "(\<exists>r. RDMacroEvent_load ''SP 5!'' demo_event = Inr r)
    \<and> RDMacroEvent_load (replicate 2049 (CHR ''x'')) demo_event = Inl OutOfRange"
  using macro_load_bounds [of "''SP 5!''" demo_event]
    macro_load_bounds [of "replicate 2049 (CHR ''x'')" demo_event]
  by (simp add: RD_RML_MAX_LENGTH_def)

lemma parse_inside:
  assumes "scanned q (p @ b)" "argnum < RD_RML_MAX_ARGS" "length arg + length p < RD_RML_MAX_LENGTH"
  shows "parse_loop (length p) p q False argnum arg m = Inr (False, fail_parse m)"
  using assms
proof (induction p arbitrary: q arg)
  case (Cons c p)
  have put: "put_byte c arg = Inr (arg @ [c])" using Cons.prems by (intro put_byte_ok) simp
  show ?case
    using Cons.IH [of "(if q then \<not> is_quote c else is_quote c)" "arg @ [c]"] Cons.prems put
    by (cases q) (simp_all add: Let_def)
qed simp

lemma parse_unfinished:
  assumes "list_all (\<lambda>a. scanned False a \<and> length a < RD_RML_MAX_LENGTH) as" "scanned False (p @ b)"
    "length p < RD_RML_MAX_LENGTH" "argnum + length as < RD_RML_MAX_ARGS" "macro_ok m"
  shows "\<exists>m'. parse_loop (length (concat (map (\<lambda>a. a @ '' '') as) @ p)) (concat (map (\<lambda>a. a @ '' '') as) @ p)
    False False argnum [] m = Inr (False, m')"
  using assms
proof (induction as arbitrary: argnum m)
  case Nil
  then show ?case using parse_inside [of False p b argnum "[]" m] by simp
next
  case (Cons a as)
  let ?s = "concat (map (\<lambda>a. a @ '' '') as) @ p"
  let ?m = "m\<lparr>rml_arg := (rml_arg m)[argnum := QText a]\<rparr>"
  have a: "scanned False a" "length a < RD_RML_MAX_LENGTH" and lt: "argnum < RD_RML_MAX_ARGS"
    "Suc argnum < RD_RML_MAX_ARGS" using Cons.prems by auto
  note put = put_arg_ok [OF Cons.prems(5) lt(1) a(2)]
  have "parse_loop (length (a @ '' '' @ ?s)) (a @ '' '' @ ?s) False False argnum [] m
      = parse_loop (Suc (length ?s)) (CHR '' '' # ?s) False False argnum a m"
    using parse_scanned [OF a(1) lt(1), of "[]" "Suc (length ?s)" "CHR '' '' # ?s" m] a(2) by simp
  also have "\<dots> = parse_loop (length ?s) ?s False False (Suc argnum) [] ?m"
    using put(1) scanned_cstr [OF a(1)] lt by (simp add: Let_def RD_RML_MAX_LENGTH_def)
  finally show ?case
    using Cons.IH [of "Suc argnum" ?m] Cons.prems put(2) scanned_cstr [OF a(1)] by auto
qed

lemma shift_blank: "concat (map (\<lambda>a. '' '' @ a) ys) @ '' '' = '' '' @ concat (map (\<lambda>a. a @ '' '') ys)"
  by (induction ys) auto

text \<open>\<open>load\<close> ends a command at the first \<open>!\<close>, even inside quotes: the text of any command one of
  whose arguments holds a \<open>!\<close>, which \<open>parseString\<close> accepts whole, is rejected and every command of
  the list is dropped.\<close>

theorem load_splits_quotes:
  assumes "plain_macro m" "\<exists>a \<in> set (macro_texts m). CHR ''!'' \<in> set a"
    "length (macro_text m) < RD_RML_MAX_LENGTH" "macro_ok m0"
  shows "(\<exists>m'. RDMacro_parseString (macro_text m) (int (length (macro_text m))) m0 = Inr (True, m'))
    \<and> RDMacroEvent_load (macro_text m) ev = Inr (False, RDMacroEvent_clear ev)"
proof
  show "\<exists>m'. RDMacro_parseString (macro_text m) (int (length (macro_text m))) m0 = Inr (True, m')"
    using parse_plain [OF assms(1,4)] by blast
  let ?c1 = "char_of (rml_cmd m div 256) :: char" and ?c2 = "char_of (rml_cmd m mod 256) :: char"
  obtain ys x zs where as: "macro_texts m = ys @ x # zs" "CHR ''!'' \<in> set x" "\<forall>y \<in> set ys. CHR ''!'' \<notin> set y"
    using split_list_first_prop [OF assms(2)] by blast
  obtain p b where x: "x = p @ CHR ''!'' # b" "CHR ''!'' \<notin> set p"
    using split_list_first [OF as(2)] by blast
  define s where "s = concat (map (\<lambda>a. a @ '' '') ys) @ p @ ''!''"
  have known: "rml_cmd m \<in> set parsed_commands" and ok: "macro_ok m" using assms(1) by (auto simp: plain_macro_def)
  have all: "list_all (\<lambda>a. scanned False a \<and> length a < RD_RML_MAX_LENGTH) (ys @ x # zs)"
    using assms(1) as(1) by (auto simp: plain_macro_def macro_texts_def list_all_iff simp flip: as(1))
  have num: "length ys < RD_RML_MAX_ARGS"
    using arg_cong [OF as(1), of length] ok by (simp add: macro_texts_def macro_ok_def)
  define h where "h = [?c1, ?c2, CHR '' ''] @ concat (map (\<lambda>a. a @ '' '') ys) @ p"
  define r where "r = b @ concat (map (\<lambda>a. '' '' @ a) zs) @ ''!''"
  have shape: "macro_text m = h @ CHR ''!'' # r"
    using shift_blank [of ys] as(1) x(1) by (simp add: macro_text_def h_def r_def)
  have code: "command_of ?c1 ?c2 = rml_cmd m" by (rule mnemonic [OF known])
  have head: "CHR ''!'' \<notin> set h"
    using mnemonic_no_mark [OF known] as(3) x(2) by (auto simp: h_def)
  have len: "length h < RD_RML_MAX_LENGTH" using assms(3) by (simp add: shape)
  obtain m' where "parse_loop (length s) s False False 0 [] (new_rdmacro\<lparr>rml_cmd := rml_cmd m\<rparr>) = Inr (False, m')"
    using parse_unfinished [of ys "p @ ''!''" b 0 "new_rdmacro\<lparr>rml_cmd := rml_cmd m\<rparr>"] all num x(1) len
    by (auto simp: s_def h_def)
  moreover have "nat (3 + int k) - 3 = k" for k by simp
  ultimately have rejected: "RDMacro_parseString ([?c1, ?c2, CHR '' ''] @ s) (int (length ([?c1, ?c2, CHR '' ''] @ s)))
      new_rdmacro = Inr (False, m')"
    using code known by (simp add: RDMacro_parseString_def vec_get_def vec_in_def Let_def is_blank_def)
  have hs: "[?c1, ?c2, CHR '' ''] @ s = h @ ''!''" by (simp add: h_def s_def)
  have "RDMacroEvent_load (macro_text m) ev = load_loop (CHR ''!'' # r) h new_rdmacro ev"
    using load_segment [OF head, of "[]" "CHR ''!'' # r" new_rdmacro ev] len
    by (simp only: RDMacroEvent_load_def shape) simp
  also have "\<dots> = Inr (False, RDMacroEvent_clear ev)"
    using rejected put_byte_ok [OF len, of "CHR ''!''"] unfolding hs by simp
  finally show "RDMacroEvent_load (macro_text m) ev = Inr (False, RDMacroEvent_clear ev)" .
qed

theorem load_splits_quotes_witness:
  "(\<exists>m'. RDMacro_parseString (macro_text label_macro) (int (length (macro_text label_macro))) new_rdmacro = Inr (True, m'))
    \<and> RDMacroEvent_load (macro_text label_macro) demo_event = Inr (False, RDMacroEvent_clear demo_event)"
proof (rule load_splits_quotes [OF label_macro_plain])
  show "\<exists>a \<in> set (macro_texts label_macro). CHR ''!'' \<in> set a"
    by (simp add: macro_texts_def label_macro_def)
  show "length (macro_text label_macro) < RD_RML_MAX_LENGTH" by code_simp
qed simp

text \<open>A \<open>CC\<close> command with no text after a host that resolves faults: \<open>exec\<close> reads the characters of
  a null argument, because the number of arguments is never checked.\<close>

theorem cc_needs_command:
  assumes "event_ripc ev" "line < length (event_cmds ev)" "m = event_cmds ev ! line" "rml_cmd m = CC"
    "macro_ok m" "qv_toString (rml_arg m ! 1) = []"
    "split_on (CHR '':'') [] (qv_toString (rml_arg m ! 0)) = host # rest" "resolve_host env host = Some addr"
  shows "RDMacroEvent_exec_line env line ev = Inl OutOfRange"
proof -
  have "vec_get (rml_arg m) 0 = Inr (rml_arg m ! 0)" "vec_get (rml_arg m) 1 = Inr (rml_arg m ! 1)"
    using assms(5) by (simp_all add: vec_get_def vec_in_def macro_ok_def RD_RML_MAX_ARGS_def)
  then have "forwarded env m = Inl OutOfRange"
    using assms(6-8)
    by (simp add: forwarded_def RDMacro_arg_def RD_RML_MAX_ARGS_def Let_def vec_get_def vec_in_def)
  then show ?thesis
    using assms(1-4) by (simp add: RDMacroEvent_exec_line_def vec_get_def CC_def SP_def)
qed

definition host_macro :: rdmacro where
  "host_macro = new_rdmacro\<lparr>rml_cmd := CC, rml_arg := QText ''studio'' # replicate 99 QInvalid,
     rml_arg_quantity := 1\<rparr>"

theorem cc_needs_command_witness:
  "RDMacroEvent_exec_line (no_hosts\<lparr>env_set_address := Some\<rparr>) 0 (demo_event\<lparr>event_cmds := [host_macro]\<rparr>)
    = Inl OutOfRange"
  by (rule cc_needs_command [where m = host_macro and host = "''studio''" and rest = "[]" and addr = "''studio''"])
    (simp_all add: demo_event_def RDMacroEvent_new_def host_macro_def macro_ok_def RD_RML_MAX_ARGS_def
      resolve_host_def no_hosts_def)

text \<open>\<open>move\<close> moves one command before the one at the destination: going back it lands at the
  destination, going forward one short of it, and nothing else changes.\<close>

theorem macro_move:
  assumes "i < length (event_cmds ev)" "j \<le> length (event_cmds ev)"
  shows "RDMacroEvent_move (int i) (int j) ev
    = Inr (ev\<lparr>event_cmds := list_move i (if i < j then j - 1 else j) (event_cmds ev)\<rparr>)"
proof (cases "j < i")
  case True
  let ?xs = "event_cmds ev"
  have "vec_del (int i + 1) 1 (list_ins j (?xs ! i) ?xs) = Inr (list_del (i + 1) 1 (list_ins j (?xs ! i) ?xs))"
    using assms(1) by (simp add: vec_del_def nat_add_distrib)
  then show ?thesis
    using True assms list_move_down [of i ?xs j]
    by (simp add: RDMacroEvent_move_def RDMacroEvent_command_def RDMacroEvent_insert_def
        RDMacroEvent_remove_def vec_get_def vec_ins_def vec_in_def)
next
  case False
  let ?xs = "event_cmds ev"
  have "vec_del (int i) 1 (list_ins j (?xs ! i) ?xs) = Inr (list_del i 1 (list_ins j (?xs ! i) ?xs))"
    using assms(1) by (simp add: vec_del_def)
  moreover have "list_del i 1 (list_ins j (?xs ! i) ?xs) = list_move i (if i < j then j - 1 else j) ?xs"
  proof (cases "i < j")
    case True
    then show ?thesis using list_move_up [of i ?xs "j - 1"] assms by simp
  next
    case eq: False
    then have "j = i" using False by simp
    then show ?thesis
      using assms(1) by (simp add: list_del_ins list_move_def) (simp add: list_ins_def list_del_def id_take_nth_drop)
  qed
  ultimately show ?thesis
    using False assms
    by (simp add: RDMacroEvent_move_def RDMacroEvent_command_def RDMacroEvent_insert_def
        RDMacroEvent_remove_def vec_get_def vec_ins_def vec_in_def)
qed

theorem macro_move_witness:
  "RDMacroEvent_move (int 0) (int 3) demo_event
    = Inr (demo_event\<lparr>event_cmds := list_move 0 (if 0 < (3::nat) then 3 - 1 else 3) (event_cmds demo_event)\<rparr>)"
  by (rule macro_move) (simp_all add: demo_event_def)

end
