(* ===== verification/Line_Load.thy ===== *)
theory Line_Load
  imports Cart_Cuts Macro_Event
begin

text \<open>
  Loading a cart into a log line and preparing it for playout, \<open>RDLogLine::loadCart\<close> and
  \<open>RDLogLine::setEvent\<close> of \<open>lib/rdlog_line.cpp\<close>. The cart row, the rows of the cuts, the macro text,
  the current moment and the scaling of a position by a ratio of \<open>double\<close> are the fields of
  \<open>line_env\<close>. The test of the ratio against the limits of the time scaler is done on the exact rational.
\<close>

record loaded_cart = cart_row +
  C_ISRC :: string
  C_ENABLE_NOW_NEXT :: string
  C_GROUP_COLOR :: string

record line_env =
  le_cart :: "nat \<Rightarrow> loaded_cart option"
  le_cuts :: "cut_rec list"
  le_macros :: "nat \<Rightarrow> string option"
  le_moment :: moment
  le_scale :: "int \<Rightarrow> int \<Rightarrow> int \<Rightarrow> int"

text \<open>Whether \<open>1/(forced/span)\<close> is out of range: an infinite quotient is, 0/0 is not.\<close>

definition ratio_out :: "int \<Rightarrow> int \<Rightarrow> bool" where
  "ratio_out forced span =
     (if span = 0 then forced \<noteq> 0
      else forced = 0 \<or> span * 1000 < 833 * forced \<or> span * 100 > 125 * forced)"

text \<open>The first block: the forced length and the ratio; the result says whether to scale.\<close>

definition event_length :: "loaded_cart \<Rightarrow> cut_rec \<Rightarrow> bool \<Rightarrow> int \<Rightarrow> log_line \<Rightarrow> bool \<times> (int \<times> int) \<times> log_line" where
  "event_length cart q timescale len l =
     (let p = U_POINTS q
      in if \<not> timescale then (False, (1, 1), l)
         else if len > 0 then (True, (1, 1), l\<lparr>log_effective_length := len, log_forced_length := len\<rparr>)
         else if log_hook_mode l \<and> HOOK_START_POINT p \<ge> 0 \<and> HOOK_END_POINT p \<ge> 0
         then (False, (1, 1), l\<lparr>log_effective_length := HOOK_END_POINT p - HOOK_START_POINT p,
                log_forced_length := HOOK_END_POINT p - HOOK_START_POINT p\<rparr>)
         else let l = l\<lparr>log_effective_length := int (C_FORCED_LENGTH cart)\<rparr>;
                  span = END_POINT p - START_POINT p
              in (\<not> ratio_out (log_forced_length l) span, (log_forced_length l, span), l))"

definition scaled_points :: "line_env \<Rightarrow> cut_rec \<Rightarrow> int \<times> int \<Rightarrow> log_line \<Rightarrow> log_line" where
  "scaled_points env q ratio l =
     (let p = U_POINTS q; sc = (\<lambda>x. le_scale env x (fst ratio) (snd ratio));
          l = l\<lparr>log_start_point := (log_start_point l)(CartPointer := sc (START_POINT p)),
                log_end_point := (log_end_point l)(CartPointer := sc (END_POINT p))\<rparr>;
          (s0, s1) = (if SEGUE_START_POINT p \<ge> 0 then (sc (SEGUE_START_POINT p), sc (SEGUE_END_POINT p)) else (-1, -1));
          (t0, t1) = (if log_talk_start l \<ge> 0 then (sc (log_talk_start l), sc (TALK_END_POINT p)) else (-1, -1))
      in l\<lparr>log_segue_start_point := (log_segue_start_point l)(CartPointer := s0),
           log_segue_end_point := (log_segue_end_point l)(CartPointer := s1),
           log_talk_start := t0, log_talk_end := t1, log_talk_length := t1 - t0\<rparr>)"

text \<open>The talk points of an unscaled line, clipped to the log's own start and end.\<close>

definition clip_talk :: "log_line \<Rightarrow> log_line" where
  "clip_talk l =
     (let sp = log_start_point l LogPointer; ep = log_end_point l LogPointer;
          l = (if log_talk_end l > ep \<and> ep \<ge> 0 then l\<lparr>log_talk_end := ep\<rparr> else l);
          l = (if log_talk_end l < sp then l\<lparr>log_talk_end := 0, log_talk_start := 0\<rparr>
               else let l = (if log_talk_start l < sp
                             then l\<lparr>log_talk_start := 0, log_talk_end := log_talk_end l - sp\<rparr> else l)
                    in if log_talk_start l > ep \<and> ep \<ge> 0
                       then l\<lparr>log_talk_start := 0, log_talk_end := 0\<rparr> else l)
      in l\<lparr>log_talk_length := log_talk_end l - log_talk_start l\<rparr>)"

definition plain_points :: "cut_rec \<Rightarrow> log_line \<Rightarrow> log_line" where
  "plain_points q l =
     (let p = U_POINTS q;
          l = (if log_hook_mode l \<and> HOOK_START_POINT p \<ge> 0 \<and> HOOK_END_POINT p \<ge> 0
               then l\<lparr>log_start_point := (log_start_point l)(CartPointer := HOOK_START_POINT p),
                      log_end_point := (log_end_point l)(CartPointer := HOOK_END_POINT p),
                      log_segue_start_point := (log_segue_start_point l)(CartPointer := -1),
                      log_segue_end_point := (log_segue_end_point l)(CartPointer := -1),
                      log_talk_start := -1, log_talk_end := -1\<rparr>
               else l\<lparr>log_start_point := (log_start_point l)(CartPointer := START_POINT p),
                      log_end_point := (log_end_point l)(CartPointer := END_POINT p),
                      log_effective_length :=
                        (if log_start_point l LogPointer \<ge> 0 \<or> log_end_point l LogPointer \<ge> 0
                         then log_end_point l LogPointer - log_start_point l LogPointer
                         else int (U_LENGTH q)),
                      log_segue_start_point := (log_segue_start_point l)(CartPointer := SEGUE_START_POINT p),
                      log_segue_end_point := (log_segue_end_point l)(CartPointer := SEGUE_END_POINT p),
                      log_talk_start := TALK_START_POINT p, log_talk_end := TALK_END_POINT p\<rparr>)
      in clip_talk (l\<lparr>log_hook_start := HOOK_START_POINT p, log_hook_end := HOOK_END_POINT p\<rparr>))"

definition cut_texts :: "loaded_cart \<Rightarrow> cut_rec \<Rightarrow> log_line \<Rightarrow> log_line" where
  "cut_texts cart q l =
     l\<lparr>log_average_segue_length :=
         (if RDLogLine_segueStartPoint l AutoPointer < 0 then C_AVERAGE_SEGUE_LENGTH cart
          else RDLogLine_segueStartPoint l AutoPointer - RDLogLine_startPoint l AutoPointer),
       log_meta := (log_meta l)\<lparr>log_outcue := U_OUTCUE q, log_isrc := U_ISRC q, log_isci := U_ISCI q,
         log_description := U_DESCRIPTION q\<rparr>,
       log_segue_gain_cut := U_SEGUE_GAIN q\<rparr>"

definition event_cart :: "line_env \<Rightarrow> bool \<Rightarrow> int \<Rightarrow> log_line \<Rightarrow> state \<times> log_line" where
  "event_cart env timescale len l =
     (case le_cart env (log_cart_number l) of
        None \<Rightarrow> (NoCart, l\<lparr>log_state := NoCart\<rparr>)
      | Some cart \<Rightarrow>
          let (date, dow, time) = le_moment env;
              name = snd (RDCart_selectCut (Some (C_TYPE cart)) (le_cuts env) (log_cart_number l) date dow time
                (log_cut_name l));
              l = l\<lparr>log_cut_name := name\<rparr>
          in if name = '''' then (NoCut, l\<lparr>log_state := NoCut\<rparr>)
             else let l = l\<lparr>log_cut_number := toInt0 (qs_right 3 name)\<rparr>
                  in case find (\<lambda>q. U_CUT_NAME q = name) (le_cuts env) of
                       None \<Rightarrow> (NoCut, l\<lparr>log_state := NoCut\<rparr>)
                     | Some q \<Rightarrow>
                         if U_LENGTH q = 0 then (NoCut, l\<lparr>log_state := NoCut\<rparr>)
                         else let (scaling, ratio, l) = event_length cart q timescale len l;
                                  l = (if scaling then scaled_points env q ratio l else plain_points q l)
                              in (Ok, cut_texts cart q l))"

definition no_points :: "log_line \<Rightarrow> log_line" where
  "no_points l = l\<lparr>log_start_point := (log_start_point l)(CartPointer := -1),
     log_end_point := (log_end_point l)(CartPointer := -1),
     log_segue_start_point := (log_segue_start_point l)(CartPointer := -1),
     log_segue_end_point := (log_segue_end_point l)(CartPointer := -1),
     log_talk_length := 0, log_talk_start := -1, log_talk_end := -1, log_segue_gain_cut := 0\<rparr>"

definition LL :: command where "LL = 0x4C4C"

text \<open>The macro cart of a line stops the log when it loads a log into the same machine.\<close>

fun forces_stop :: "int \<Rightarrow> rdmacro list \<Rightarrow> bool res" where
  "forces_stop mach [] = Inr False"
| "forces_stop mach (m # ms) =
     (if rml_cmd m = LL
      then res_bind (RDMacro_arg 0 m) (\<lambda>a. res_bind (forces_stop mach ms) (\<lambda>b. Inr (qv_toInt a = mach \<or> b)))
      else forces_stop mach ms)"

definition RDLogLine_setEvent :: "line_env \<Rightarrow> int \<Rightarrow> bool \<Rightarrow> int \<Rightarrow> log_line \<Rightarrow> (state \<times> log_line) res" where
  "RDLogLine_setEvent env mach timescale len l =
     (case log_type l of
        Cart \<Rightarrow> Inr (event_cart env timescale len l)
      | Macro \<Rightarrow>
          let forced = (case le_cart env (log_cart_number l) of None \<Rightarrow> 0 | Some c \<Rightarrow> int (C_FORCED_LENGTH c));
              l = l\<lparr>log_effective_length := forced, log_average_segue_length := forced\<rparr>
          in res_bind (RDMacroEvent_load_cart (le_macros env (log_cart_number l)) (RDMacroEvent_new '''' False 0))
               (\<lambda>(ok, ev). res_bind (forces_stop mach (event_cmds ev))
                  (\<lambda>b. Inr (Ok, no_points (l\<lparr>log_forced_stop := b\<rparr>))))
      | Marker \<Rightarrow> Inr (Ok, no_points (l\<lparr>log_cut_number := 0, log_cut_name := '''', log_effective_length := 0,
          log_average_segue_length := 0, log_forced_stop := False\<rparr>))
      | Track \<Rightarrow> Inr (Ok, no_points (l\<lparr>log_cut_number := 0, log_cut_name := '''', log_effective_length := 0,
          log_average_segue_length := 0, log_forced_stop := False\<rparr>))
      | _ \<Rightarrow> Inr (Ok, l))"

text \<open>\<open>loadCart\<close> without a row assigns only the state: the line keeps its old cart.\<close>

definition cart_texts :: "loaded_cart \<Rightarrow> cart_meta \<Rightarrow> cart_meta" where
  "cart_texts c m = m\<lparr>log_group_name := C_GROUP_NAME c, log_title := C_TITLE c, log_artist := C_ARTIST c,
     log_album := C_ALBUM c, log_year := C_YEAR c, log_isrc := C_ISRC c, log_label := C_LABEL c,
     log_client := C_CLIENT c, log_agency := C_AGENCY c, log_user_defined := C_USER_DEFINED c,
     log_conductor := C_CONDUCTOR c, log_song_id := C_SONG_ID c, log_publisher := C_PUBLISHER c,
     log_composer := C_COMPOSER c, log_group_color := C_GROUP_COLOR c\<rparr>"

definition cart_fields :: "loaded_cart \<Rightarrow> nat \<Rightarrow> int \<Rightarrow> log_line \<Rightarrow> log_line" where
  "cart_fields c cartnum len l =
     l\<lparr>log_cart_number := cartnum, log_cart_type := C_TYPE c,
       log_type := (case C_TYPE c of CartAudio \<Rightarrow> Cart | CartMacro \<Rightarrow> Macro | _ \<Rightarrow> log_type l),
       log_meta := cart_texts c (log_meta l),
       log_cut_quantity := C_CUT_QUANTITY c, log_last_cut_played := C_LAST_CUT_PLAYED c,
       log_play_order := C_PLAY_ORDER c,
       log_start_datetime := opt_or 0 (C_START_DATETIME c), log_end_datetime := opt_or 0 (C_END_DATETIME c),
       log_preserve_pitch := RDBool (C_PRESERVE_PITCH c),
       log_forced_length := (if len < 0 then int (C_FORCED_LENGTH c) else len),
       log_enforce_length := (if len < 0 then RDBool (C_ENFORCE_LENGTH c) else True),
       log_now_next_enabled := RDBool (C_ENABLE_NOW_NEXT c),
       log_asyncronous := RDBool (opt_or '''' (C_ASYNCRONOUS c)),
       log_usage_code := C_USAGE_CODE c, log_average_segue_length := C_AVERAGE_SEGUE_LENGTH c,
       log_cart_notes := C_NOTES c, log_play_source := UnknownSource\<rparr>"

definition RDLogLine_loadCart :: "line_env \<Rightarrow> int \<Rightarrow> int \<Rightarrow> bool \<Rightarrow> trans_type \<Rightarrow> int \<Rightarrow> log_line \<Rightarrow> log_line res" where
  "RDLogLine_loadCart env cartnum mach timescale type len l =
     (case (if cartnum < 0 then None else le_cart env (nat cartnum)) of
        None \<Rightarrow> Inr (l\<lparr>log_state := NoCart\<rparr>)
      | Some c \<Rightarrow>
          let l = cart_fields c (nat cartnum) len l;
              l = (if type \<noteq> NoTrans then l\<lparr>log_trans_type := type\<rparr> else l)
          in res_bind (RDLogLine_setEvent env mach timescale (-1) l) (\<lambda>(st, l).
               Inr (l\<lparr>log_state := st, log_timescaling_active := log_enforce_length l \<and> timescale\<rparr>)))"

section \<open>Lemmas\<close>

text \<open>The talk window of a line whose log gives its own start and end is cut down to that window:
  its length is the length of the overlap, 0 when there is none.\<close>

theorem talk_is_overlap:
  assumes "0 \<le> log_start_point l LogPointer" "log_start_point l LogPointer \<le> log_end_point l LogPointer"
    and "log_talk_start l \<le> log_talk_end l"
  shows "log_talk_length (clip_talk l) = max 0
    (min (log_talk_end l) (log_end_point l LogPointer) - max (log_talk_start l) (log_start_point l LogPointer))"
  using assms by (auto simp: clip_talk_def Let_def min_def max_def)

theorem talk_is_overlap_witness:
  "log_talk_length (clip_talk (new_log_line\<lparr>log_start_point := (\<lambda>_. 5000), log_end_point := (\<lambda>_. 60000),
     log_talk_start := 1000, log_talk_end := 12000\<rparr>)) = 7000"
  by (subst talk_is_overlap) simp_all

text \<open>The cut a line is prepared with, when the cart has one.\<close>

definition ready_cut :: "line_env \<Rightarrow> log_line \<Rightarrow> loaded_cart \<Rightarrow> cut_rec \<Rightarrow> bool" where
  "ready_cut env l cart q \<longleftrightarrow> le_cart env (log_cart_number l) = Some cart
     \<and> snd (RDCart_selectCut (Some (C_TYPE cart)) (le_cuts env) (log_cart_number l) (fst (le_moment env))
         (fst (snd (le_moment env))) (snd (snd (le_moment env))) (log_cut_name l)) = U_CUT_NAME q
     \<and> U_CUT_NAME q \<noteq> '''' \<and> find (\<lambda>k. U_CUT_NAME k = U_CUT_NAME q) (le_cuts env) = Some q \<and> 0 < U_LENGTH q"

lemma event_cart_ready:
  assumes "ready_cut env l cart q"
  shows "event_cart env False len l = (Ok, cut_texts cart q (plain_points q
    (l\<lparr>log_cut_name := U_CUT_NAME q, log_cut_number := toInt0 (qs_right 3 (U_CUT_NAME q))\<rparr>)))"
  using assms
  by (cases "le_moment env") (auto simp: ready_cut_def event_cart_def event_length_def Let_def)

lemma clip_talk_sel [simp]: "log_effective_length (clip_talk l) = log_effective_length l"
  "log_start_point (clip_talk l) = log_start_point l" "log_end_point (clip_talk l) = log_end_point l"
  "log_type (clip_talk l) = log_type l" "log_play_deck (clip_talk l) = log_play_deck l"
  "log_status (clip_talk l) = log_status l" "log_hook_mode (clip_talk l) = log_hook_mode l"
  by (simp_all add: clip_talk_def Let_def)

lemma cut_texts_sel [simp]: "log_effective_length (cut_texts c q l) = log_effective_length l"
  "log_start_point (cut_texts c q l) = log_start_point l" "log_end_point (cut_texts c q l) = log_end_point l"
  "log_type (cut_texts c q l) = log_type l" "log_play_deck (cut_texts c q l) = log_play_deck l"
  "log_status (cut_texts c q l) = log_status l"
  by (simp_all add: cut_texts_def)

text \<open>A line that carries only one of the log's two pointers, as a custom transition on one side
  leaves it, gets a wrong length when its cart is prepared: the missing pointer is -1 and is subtracted
  all the same. With only a start, the length is negative; with only an end, it is one too long and
  counts the audio before the cut's start.\<close>

theorem one_pointer_length:
  assumes "log_type l = Cart" "ready_cut env l cart q" "\<not> log_hook_mode l"
    and "log_start_point l LogPointer = s" "log_end_point l LogPointer = e"
    and "0 \<le> s \<and> e = -1 \<or> s = -1 \<and> 0 \<le> e"
  shows "\<exists>l'. RDLogLine_setEvent env mach False len l = Inr (Ok, l')
    \<and> log_effective_length l' = (if s = -1 then e + 1 else - s - 1)"
proof -
  let ?l = "l\<lparr>log_cut_name := U_CUT_NAME q, log_cut_number := toInt0 (qs_right 3 (U_CUT_NAME q))\<rparr>"
  have "RDLogLine_setEvent env mach False len l = Inr (Ok, cut_texts cart q (plain_points q ?l))"
    using assms(1) event_cart_ready [OF assms(2)] by (simp add: RDLogLine_setEvent_def)
  moreover have "log_effective_length (cut_texts cart q (plain_points q ?l)) = (if s = -1 then e + 1 else - s - 1)"
    using assms(3-6) by (auto simp: plain_points_def Let_def)
  ultimately show ?thesis by blast
qed

definition one_cart_env :: line_env where
  "one_cart_env = \<lparr>le_cart = (\<lambda>n. if n = 100 then Some \<lparr>C_TYPE = CartAudio, C_GROUP_NAME = '''', C_TITLE = '''',
     C_ARTIST = '''', C_ALBUM = '''', C_YEAR = 0, C_LABEL = '''', C_CLIENT = '''', C_AGENCY = '''',
     C_USER_DEFINED = '''', C_CONDUCTOR = '''', C_SONG_ID = '''', C_FORCED_LENGTH = 30000,
     C_CUT_QUANTITY = 1, C_LAST_CUT_PLAYED = 0, C_PLAY_ORDER = PlaySequence,
     C_ENFORCE_LENGTH = ''N'', C_PRESERVE_PITCH = ''N'', C_ASYNCRONOUS = None,
     C_PUBLISHER = '''', C_COMPOSER = '''', C_USAGE_CODE = UsageFeature,
     C_AVERAGE_SEGUE_LENGTH = 30000, C_VALIDITY = AlwaysValid, C_START_DATETIME = None,
     C_END_DATETIME = None, C_USE_EVENT_LENGTH = ''N'', C_NOTES = '''', C_ISRC = '''',
     C_ENABLE_NOW_NEXT = ''N'', C_GROUP_COLOR = ''''\<rparr> else None),
     le_cuts = [demo_row ''000100_001'' 1], le_macros = (\<lambda>_. None), le_moment = (86400000, 1, 0),
     le_scale = (\<lambda>x n d. x)\<rparr>"

theorem one_pointer_length_witness:
  "\<exists>l'. RDLogLine_setEvent one_cart_env 1 False (-1) (new_log_line\<lparr>log_cart_number := 100,
     log_start_point := (\<lambda>p. if p = LogPointer then 5000 else -1)\<rparr>) = Inr (Ok, l')
    \<and> log_effective_length l' = -5001"
proof -
  let ?l = "new_log_line\<lparr>log_cart_number := 100, log_start_point := (\<lambda>p. if p = LogPointer then 5000 else -1)\<rparr>"
  have h: "log_type ?l = Cart" "\<not> log_hook_mode ?l" "log_start_point ?l LogPointer = 5000"
    "log_end_point ?l LogPointer = -1"
    by (simp_all add: new_log_line_def cleared_line_def)
  have "ready_cut one_cart_env ?l (the (le_cart one_cart_env 100)) (demo_row ''000100_001'' 1)"
    by (simp add: ready_cut_def one_cart_env_def RDCart_selectCut_def cut_current_def demo_row_def
        RDCart_GetNextCut_def new_log_line_def cleared_line_def)
  from one_pointer_length [OF h(1) this h(2-4), of 1 "-1"] show ?thesis by simp
qed

end
