(* ===== verification/Play_Deck.thy ===== *)
theory Play_Deck
  imports Log_Line "HOL-Library.Signed_Division"
begin

text \<open>
  The play deck, \<open>RDPlayDeck\<close> of \<open>lib/rdplay_deck.h\<close> and \<open>lib/rdplay_deck.cpp\<close>: one playing cut,
  its segue, hook and talk timers, its fades, and the commands it sends to the audio engine.
  Signals and engine commands are the outputs of an operation, in order; the engine's answers and
  the timeouts are operations of their own. The current time, the rows of the cut and cart tables,
  the answer of \<open>loadPlay\<close> and the floating point scaling of the talk points are arguments.
  A division rounds towards zero (\<open>sdiv\<close>); the quotients of \<open>double\<close> values that are cut to \<open>int\<close>
  are exact for the magnitudes of milliseconds.
\<close>

section \<open>State\<close>

datatype deck_state = DeckStopped | DeckStopping | DeckPlaying | DeckPaused | DeckFinished
datatype point = SeguePoint | HookPoint | TalkPoint

definition POSITION_INTERVAL :: int where "POSITION_INTERVAL = 100"
definition RDPLAYDECK_DUCKDOWN_LENGTH :: int where "RDPLAYDECK_DUCKDOWN_LENGTH = 750"
definition RDPLAYDECK_DUCKUP_LENGTH :: int where "RDPLAYDECK_DUCKUP_LENGTH = 1500"
definition RD_MAX_PORTS :: nat where "RD_MAX_PORTS = 8"
definition RD_MUTE_DEPTH :: int where "RD_MUTE_DEPTH = -10000"
definition RD_TIMESCALE_DIVISOR :: int where "RD_TIMESCALE_DIVISOR = 100000"

text \<open>The cut a deck plays: its name and the columns of its row.\<close>

record deck_cut =
  dc_name :: string
  dc_points :: cut_pointers
  dc_gain :: int

record play_deck =
  play_id :: int
  play_owner :: int
  play_state :: deck_state
  play_start_time :: qtime
  play_position_timer :: bool
  play_cart :: "nat option"
  play_cut :: "deck_cut option"
  play_point_timer :: "point \<Rightarrow> int option"
  play_stop_timer :: "int option"
  play_fade_timer :: "int option"
  play_duck_timer :: "int option"
  play_duck_down_state :: bool
  play_fade_down_state :: bool
  play_segue_interval :: int
  play_point_state :: "point \<Rightarrow> bool"
  play_point_value :: "point \<Rightarrow> int \<times> int"
  play_point_gain :: int
  play_audio_point :: "int \<times> int"
  play_audio_length :: int
  play_fade_point :: "int \<times> int"
  play_fade_gain :: "int \<times> int"
  play_fade_down :: int
  play_cut_gain :: int
  play_duck_level :: int
  play_duck_gain :: "int \<times> int"
  play_duck_up :: int
  play_duck_down :: int
  play_ducked :: int
  play_duck_up_point :: int
  play_card :: int
  play_stream :: int
  play_port :: int
  play_channel :: int
  play_handle :: int
  play_forced_length :: int
  play_hook_mode :: bool
  stop_called :: bool
  pause_called :: bool
  play_start_position :: int
  play_last_start_position :: int
  play_current_position :: int
  play_timescale_active :: bool
  play_timescale_speed :: int

datatype cae_cmd =
    LoadPlay int string
  | UnloadPlay int
  | PositionPlay int int
  | SetPlayPortActive int int int
  | SetOutputVolume int int int int
  | FadeOutputVolume int int int int int
  | CaePlay int int int
  | StopPlay int

datatype deck_out =
    Cae cae_cmd
  | StateChanged int deck_state
  | DeckPosition int int
  | PointStart point int
  | PointEnd point int

text \<open>The rows of the tables and the answer of the audio engine to \<open>loadPlay\<close>: its result, the
  stream and the handle.\<close>

record deck_env =
  de_cart_exists :: "nat \<Rightarrow> bool"
  de_cut :: "string \<Rightarrow> deck_cut option"
  de_load_play :: "int \<Rightarrow> string \<Rightarrow> bool \<times> int \<times> int"
  de_scale :: "int \<Rightarrow> int \<Rightarrow> int"

text \<open>The constructor on raw memory; the members it does not assign keep their content.\<close>

definition RDPlayDeck_new :: "int \<Rightarrow> play_deck \<Rightarrow> play_deck" where
  "RDPlayDeck_new i raw = raw\<lparr>play_id := i, play_state := DeckStopped, play_start_time := 0,
     play_owner := -1, play_last_start_position := 0, play_handle := -1, play_audio_length := 0,
     play_channel := -1, play_hook_mode := False, play_cut_gain := 0, play_duck_level := 0,
     play_duck_gain := (0, 0), play_duck_up := RDPLAYDECK_DUCKUP_LENGTH,
     play_duck_down := RDPLAYDECK_DUCKDOWN_LENGTH, play_duck_up_point := 0,
     play_duck_down_state := False, play_fade_down_state := False, play_cart := None,
     play_cut := None, play_card := -1, play_stream := -1, play_point_timer := (\<lambda>_. None),
     play_position_timer := False, play_fade_timer := None, play_stop_timer := None,
     play_duck_timer := None\<rparr>"

definition RDPlayDeck_setId :: "int \<Rightarrow> play_deck \<Rightarrow> play_deck" where
  "RDPlayDeck_setId i d = d\<lparr>play_id := i\<rparr>"

definition RDPlayDeck_setOwner :: "int \<Rightarrow> play_deck \<Rightarrow> play_deck" where
  "RDPlayDeck_setOwner owner d = d\<lparr>play_owner := owner\<rparr>"

definition RDPlayDeck_setCard :: "int \<Rightarrow> play_deck \<Rightarrow> play_deck" where
  "RDPlayDeck_setCard card_num d = d\<lparr>play_card := card_num\<rparr>"

definition RDPlayDeck_setPort :: "int \<Rightarrow> play_deck \<Rightarrow> play_deck" where
  "RDPlayDeck_setPort port_num d = d\<lparr>play_port := port_num\<rparr>"

definition RDPlayDeck_setChannel :: "int \<Rightarrow> play_deck \<Rightarrow> play_deck" where
  "RDPlayDeck_setChannel chan d = d\<lparr>play_channel := chan\<rparr>"

lemmas setter_defs = RDPlayDeck_setId_def RDPlayDeck_setOwner_def RDPlayDeck_setCard_def
  RDPlayDeck_setPort_def RDPlayDeck_setChannel_def

text \<open>The commands of the destructor.\<close>

definition RDPlayDeck_destroy :: "play_deck \<Rightarrow> deck_out list" where
  "RDPlayDeck_destroy d = (if play_state d \<noteq> DeckStopped
     then [Cae (StopPlay (play_handle d)), Cae (UnloadPlay (play_handle d))] else [])"

definition RDPlayDeck_playable :: "play_deck \<Rightarrow> bool" where
  "RDPlayDeck_playable d \<longleftrightarrow> \<not> play_handle d < 0"

text \<open>Conversions: \<open>unsigned\<close> to \<open>int\<close>, \<open>int\<close> to \<open>unsigned\<close>, and a \<open>double\<close> cut to \<open>int\<close>, which
  the hardware answers with the least \<open>int\<close> when it does not fit.\<close>

definition to_int32 :: "int \<Rightarrow> int" where
  "to_int32 i = (i + 2 ^ 31) mod 2 ^ 32 - 2 ^ 31"

definition to_uint32 :: "int \<Rightarrow> int" where
  "to_uint32 i = i mod 2 ^ 32"

definition cut_to_int :: "int \<Rightarrow> int" where
  "cut_to_int q = (if - (2 ^ 31) \<le> q \<and> q < 2 ^ 31 then q else - (2 ^ 31))"

definition RDPlayDeck_currentPosition :: "qtime \<Rightarrow> play_deck \<Rightarrow> int" where
  "RDPlayDeck_currentPosition now d =
     (case play_state d of
        DeckPlaying \<Rightarrow> to_int32 (play_start_position d + qtime_msecsTo (play_start_time d) now)
      | DeckPaused \<Rightarrow> play_current_position d + POSITION_INTERVAL
      | _ \<Rightarrow> to_int32 (play_start_position d))"

definition StopTimers :: "play_deck \<Rightarrow> play_deck" where
  "StopTimers d = d\<lparr>play_point_timer := (\<lambda>_. None), play_fade_timer := None,
     play_stop_timer := None, play_duck_timer := None\<rparr>"

section \<open>Loading a cart\<close>

text \<open>The audio window: cut columns, or the log's own start and end points.\<close>

definition audio_window :: "deck_cut \<Rightarrow> log_line \<Rightarrow> play_deck \<Rightarrow> play_deck" where
  "audio_window c l d =
     (let p = dc_points c;
          d1 = (if RDLogLine_startPoint l LogPointer < 0
                then d\<lparr>play_forced_length := to_uint32 (log_forced_length l),
                       play_audio_point := (START_POINT p, END_POINT p)\<rparr>
                else d\<lparr>play_forced_length := to_uint32 (RDLogLine_effectiveLength l),
                       play_audio_point := (RDLogLine_startPoint l LogPointer, RDLogLine_endPoint l AutoPointer)\<rparr>)
      in if RDLogLine_endPoint l LogPointer \<ge> 0
         then d1\<lparr>play_forced_length := to_uint32 (RDLogLine_effectiveLength l),
                 play_audio_point := (RDLogLine_startPoint l AutoPointer, RDLogLine_endPoint l LogPointer)\<rparr>
         else d1)"

text \<open>The speed in \<open>1/RD_TIMESCALE_DIVISOR\<close>. A quotient by zero is infinite or not a number and its
  conversion the least \<open>int\<close>, which is out of range too.\<close>

definition timescale :: "play_deck \<Rightarrow> play_deck" where
  "timescale d =
     (if play_timescale_active d
      then let n = RD_TIMESCALE_DIVISOR * (snd (play_audio_point d) - fst (play_audio_point d));
               speed = (if play_forced_length d = 0 then - (2 ^ 31)
                        else cut_to_int (n sdiv play_forced_length d))
           in if speed < 83300 \<or> speed > 125000
              then d\<lparr>play_timescale_speed := RD_TIMESCALE_DIVISOR, play_timescale_active := False\<rparr>
              else d\<lparr>play_timescale_speed := speed\<rparr>
      else d\<lparr>play_timescale_speed := RD_TIMESCALE_DIVISOR\<rparr>)"

definition load_points :: "deck_env \<Rightarrow> deck_cut \<Rightarrow> log_line \<Rightarrow> play_deck \<Rightarrow> play_deck" where
  "load_points env c l d =
     (let p = dc_points c;
          segue = (if RDLogLine_segueStartPoint l AutoPointer < 0
                   then (SEGUE_START_POINT p, SEGUE_END_POINT p)
                   else (RDLogLine_segueStartPoint l AutoPointer, RDLogLine_segueEndPoint l AutoPointer));
          sc = (\<lambda>v. de_scale env v (play_timescale_speed d))
      in d\<lparr>play_audio_length := snd (play_audio_point d) - fst (play_audio_point d),
           play_point_value := (play_point_value d)
             (SeguePoint := segue, HookPoint := (HOOK_START_POINT p, HOOK_END_POINT p),
              TalkPoint := (sc (TALK_START_POINT p), sc (TALK_END_POINT p))),
           play_point_gain := RDLogLine_segueGain l\<rparr>)"

definition load_fades :: "deck_cut \<Rightarrow> log_line \<Rightarrow> play_deck \<Rightarrow> play_deck" where
  "load_fades c l d =
     (let p = dc_points c;
          up = (if RDLogLine_fadeupPoint l LogPointer < 0 then (FADEUP_POINT p, RD_FADE_DEPTH)
                else (RDLogLine_fadeupPoint l LogPointer, log_fadeup_gain l));
          dn = (if RDLogLine_fadedownPoint l LogPointer < 0 then (FADEDOWN_POINT p, RD_FADE_DEPTH)
                else (RDLogLine_fadedownPoint l LogPointer, log_fadedown_gain l))
      in d\<lparr>play_fade_point := (fst up, fst dn), play_fade_gain := (snd up, snd dn),
           play_duck_gain := (log_duck_up_gain l, log_duck_down_gain l)\<rparr>)"

text \<open>The first part of \<open>setCart\<close>: the cart and its cut, or the early return.\<close>

definition pick_cut :: "deck_env \<Rightarrow> log_line \<Rightarrow> bool \<Rightarrow> play_deck \<Rightarrow> bool \<times> play_deck" where
  "pick_cut env l rot d =
     (let d1 = (if play_cart d \<noteq> None \<and> (rot \<or> play_cart d \<noteq> Some (log_cart_number l))
                then d\<lparr>play_cart := None, play_cut := None\<rparr> else d)
      in if play_cart d1 \<noteq> None then (True, d1)
         else let d2 = StopTimers d1
              in if \<not> de_cart_exists env (log_cart_number l) then (False, d2)
                 else let d3 = d2\<lparr>play_cart := Some (log_cart_number l)\<rparr>
                      in if log_cut_name l = '''' then (False, d3)
                         else case de_cut env (log_cut_name l) of
                                None \<Rightarrow> (False, d3\<lparr>play_cut := None\<rparr>)
                              | Some c \<Rightarrow> (True, d3\<lparr>play_cut := Some c\<rparr>))"

definition RDPlayDeck_setCart :: "deck_env \<Rightarrow> log_line \<Rightarrow> bool \<Rightarrow> play_deck
    \<Rightarrow> (bool \<times> log_line \<times> play_deck \<times> deck_out list) res" where
  "RDPlayDeck_setCart env l rot d =
     (case pick_cut env l rot (d\<lparr>play_timescale_active := log_timescaling_active l\<rparr>) of
        (False, d1) \<Rightarrow> Inr (False, l, d1, [])
      | (True, d1) \<Rightarrow>
          res_bind (of_ptr (play_cut d1)) (\<lambda>c.
            let d2 = load_fades c l (load_points env c l (timescale (audio_window c l d1)));
                l' = l\<lparr>log_hook_start := fst (play_point_value d2 HookPoint),
                       log_hook_end := snd (play_point_value d2 HookPoint),
                       log_talk_start := fst (play_point_value d2 TalkPoint),
                       log_talk_end := snd (play_point_value d2 TalkPoint)\<rparr>
            in if play_state d2 \<noteq> DeckPaused
               then case de_load_play env (play_card d2) (dc_name c) of
                      (ok, stream, handle) \<Rightarrow>
                        let d3 = d2\<lparr>play_stream := stream, play_handle := handle\<rparr>;
                            out = [Cae (LoadPlay (play_card d2) (dc_name c))]
                        in if ok then Inr (True, l', d3\<lparr>play_state := DeckStopped\<rparr>, out)
                           else Inr (False, l', d3, out)
               else Inr (True, l', d2\<lparr>play_state := DeckStopped\<rparr>, [])))"

section \<open>Playing\<close>

text \<open>One timer of \<open>StartTimers\<close>, on the point's pair of positions.\<close>

definition start_point_timer :: "int \<Rightarrow> point \<Rightarrow> play_deck \<Rightarrow> play_deck" where
  "start_point_timer offset p d =
     (let d1 = d\<lparr>play_point_state := (play_point_state d)(p := False)\<rparr>;
          (v0, v1) = play_point_value d p;
          audio_point = cut_to_int (RD_TIMESCALE_DIVISOR * fst (play_audio_point d) sdiv play_timescale_speed d)
      in if v0 \<noteq> -1
         then if v0 - audio_point - offset \<ge> 0
              then d1\<lparr>play_point_timer := (play_point_timer d1)(p := Some (v0 - audio_point - offset))\<rparr>
              else if v1 - audio_point - offset \<ge> 0
              then d1\<lparr>play_point_state := (play_point_state d1)(p := True),
                      play_point_timer := (play_point_timer d1)(p := Some (v1 - audio_point - offset))\<rparr>
              else d1
         else d1)"

definition StartTimers :: "int \<Rightarrow> play_deck \<Rightarrow> play_deck" where
  "StartTimers offset d =
     (let d1 = start_point_timer offset TalkPoint
                 (start_point_timer offset HookPoint (start_point_timer offset SeguePoint d));
          f1 = snd (play_fade_point d1); ap = play_audio_point d1;
          d2 = (if f1 \<noteq> -1 \<and> offset < f1 then d1\<lparr>play_fade_down := snd ap - f1\<rparr> else d1);
          d3 = (if f1 \<noteq> -1 \<and> offset < f1 \<and> play_fade_down d2 > 0
                then d2\<lparr>play_fade_timer := Some (f1 - fst ap - offset)\<rparr> else d2)
      in if offset < play_duck_up_point d3
         then d3\<lparr>play_duck_timer := Some (play_duck_up_point d3 - offset)\<rparr> else d3)"

text \<open>A volume set at once and then faded to a target.\<close>

definition set_and_fade :: "play_deck \<Rightarrow> int \<Rightarrow> int \<Rightarrow> int \<Rightarrow> deck_out list" where
  "set_and_fade d level target len =
     [Cae (SetOutputVolume (play_card d) (play_stream d) (play_port d) level),
      Cae (FadeOutputVolume (play_card d) (play_stream d) (play_port d) target len)]"

text \<open>The opening gain of \<open>play\<close>, on 32-bit differences, as the mixed \<open>int\<close> and \<open>unsigned\<close>
  expressions compute them.\<close>

definition opening_gain :: "int \<Rightarrow> play_deck \<Rightarrow> deck_out list res" where
  "opening_gain pos d =
     (let (fp0, fp1) = play_fade_point d; (ap0, ap1) = play_audio_point d;
          base = play_cut_gain d + play_duck_level d;
          full = play_ducked d + base;
          up = to_int32 (fp0 - ap0 - pos); dn = to_int32 (pos - fp1)
      in if fp0 = -1 \<or> fp0 = ap0 \<or> up \<le> 0 \<or> play_state d = DeckPaused
         then if fp1 = -1 \<or> dn \<le> 0 \<or> play_state d = DeckPaused
              then Inr (set_and_fade d full full 10)
              else if ap1 - fp1 = 0 then Inl DivByZero
              else let level = snd (play_fade_gain d) * (to_int32 pos - fp1) sdiv (ap1 - fp1)
                   in Inr (set_and_fade d (level + base) (snd (play_fade_gain d) + base) (ap1 - to_int32 pos))
         else let level = fst (play_fade_gain d) * up sdiv (fp0 - ap0)
              in Inr (set_and_fade d (if level > play_ducked d then full else level + base) full up))"

text \<open>\<open>play\<close> in two parts: the gains it sets even without a handle, and the start of the playout.\<close>

definition play_ducking :: "deck_cut \<Rightarrow> int \<Rightarrow> play_deck \<Rightarrow> play_deck" where
  "play_ducking c duck_up_end d =
     (let d1 = d\<lparr>play_hook_mode := False, play_cut_gain := dc_gain c, play_ducked := 0\<rparr>;
          d2 = (if duck_up_end = -1
                then d1\<lparr>play_ducked := fst (play_duck_gain d1), play_duck_up_point := 0\<rparr>
                else d1\<lparr>play_duck_up_point := duck_up_end - play_duck_up d1\<rparr>)
      in if play_duck_up_point d2 < 0 then d2\<lparr>play_duck_up_point := 0\<rparr>
         else d2\<lparr>play_ducked := fst (play_duck_gain d2)\<rparr>)"

definition play_position :: "int \<Rightarrow> int \<Rightarrow> int \<Rightarrow> play_deck \<Rightarrow> play_deck" where
  "play_position pos segue_start segue_end d =
     (let (s0, s1) = play_point_value d SeguePoint
      in d\<lparr>play_point_value := (play_point_value d)(SeguePoint :=
             (if segue_start \<ge> 0 then segue_start else s0, if segue_end \<ge> 0 then segue_end else s1)),
           play_start_position := pos, play_current_position := to_int32 pos,
           play_last_start_position := to_int32 pos,
           stop_called := False, pause_called := False\<rparr>)"

definition play_commands :: "int \<Rightarrow> deck_out list \<Rightarrow> play_deck \<Rightarrow> deck_out list" where
  "play_commands pos gain d =
     (let (ap0, ap1) = play_audio_point d;
          len = cut_to_int (RD_TIMESCALE_DIVISOR * to_uint32 (ap1 - ap0 - pos) sdiv play_timescale_speed d)
      in [Cae (PositionPlay (play_handle d) (to_int32 (ap0 + pos))),
          Cae (SetPlayPortActive (play_card d) (play_port d) (play_stream d))]
         @ map (\<lambda>i. Cae (SetOutputVolume (play_card d) (play_stream d) (int i) RD_MUTE_DEPTH)) [0..<RD_MAX_PORTS]
         @ gain @ [Cae (CaePlay (play_handle d) len (play_timescale_speed d))])"

definition RDPlayDeck_play :: "qtime \<Rightarrow> int \<Rightarrow> int \<Rightarrow> int \<Rightarrow> int \<Rightarrow> play_deck
    \<Rightarrow> (play_deck \<times> deck_out list) res" where
  "RDPlayDeck_play now pos segue_start segue_end duck_up_end d =
     res_bind (of_ptr (play_cut d)) (\<lambda>c.
       let d1 = play_ducking c duck_up_end d
       in if play_handle d1 < 0 then Inr (d1, [])
          else let d2 = play_position pos segue_start segue_end d1
               in res_bind (opening_gain pos d2) (\<lambda>gain.
                    Inr ((StartTimers (to_int32 pos) (d2\<lparr>play_start_time := now\<rparr>))\<lparr>play_state := DeckPlaying\<rparr>,
                      play_commands pos gain d2)))"

definition RDPlayDeck_playHook :: "qtime \<Rightarrow> play_deck \<Rightarrow> (play_deck \<times> deck_out list) res" where
  "RDPlayDeck_playHook now d =
     res_bind (RDPlayDeck_play now
         (to_uint32 (fst (play_point_value d HookPoint) - fst (play_audio_point d))) (-1) (-1) 0 d)
       (\<lambda>(d1, out). Inr (d1\<lparr>play_hook_mode := True\<rparr>, out))"

definition RDPlayDeck_pause :: "play_deck \<Rightarrow> play_deck \<times> deck_out list" where
  "RDPlayDeck_pause d =
     (d\<lparr>pause_called := True, play_state := DeckPaused\<rparr>, [Cae (StopPlay (play_handle d))])"

definition RDPlayDeck_stop :: "play_deck \<Rightarrow> play_deck \<times> deck_out list" where
  "RDPlayDeck_stop d =
     (if play_state d \<noteq> DeckPlaying \<and> play_state d \<noteq> DeckStopping then (d, [])
      else if pause_called d then (d\<lparr>play_state := DeckStopped\<rparr>, [])
      else (d\<lparr>stop_called := True, play_state := DeckStopping\<rparr>, [Cae (StopPlay (play_handle d))]))"

definition fade_to :: "play_deck \<Rightarrow> int \<Rightarrow> int \<Rightarrow> deck_out list" where
  "fade_to d gain len =
     [Cae (FadeOutputVolume (play_card d) (play_stream d) (play_port d)
        (gain + play_cut_gain d + play_duck_level d) len)]"

text \<open>The level the fade-down has reached at the current position; a missing fade-down point is
  \<open>-1\<close> and is not treated apart.\<close>

definition fade_level :: "qtime \<Rightarrow> play_deck \<Rightarrow> int res" where
  "fade_level now d =
     (let cur = RDPlayDeck_currentPosition now d; (ap0, ap1) = play_audio_point d; fp1 = snd (play_fade_point d)
      in if ap0 + cur > fp1
         then if ap1 - fp1 = 0 then Inl DivByZero
              else Inr (snd (play_fade_gain d) * (cur + ap0 - fp1) sdiv (ap1 - fp1))
         else Inr 0)"

definition arm_stop :: "qtime \<Rightarrow> int \<Rightarrow> play_deck \<Rightarrow> (play_deck \<times> deck_out list) res" where
  "arm_stop now interval d =
     (let duck = snd (play_duck_gain d); (ap0, ap1) = play_audio_point d;
          stopping = (\<lambda>d. d\<lparr>play_stop_timer := Some interval, stop_called := True, play_state := DeckStopping\<rparr>)
      in if duck < 0 \<and> play_duck_down d < interval
            \<and> ap1 - ap0 - RDPlayDeck_currentPosition now d > play_duck_down d
         then res_bind (fade_level now d) (\<lambda>level.
                if level > duck
                then Inr (stopping (d\<lparr>play_duck_timer := Some (play_duck_down d),
                       play_duck_down_state := True, play_segue_interval := interval\<rparr>),
                     fade_to d duck (play_duck_down d))
                else Inr (stopping d, []))
         else Inr (stopping d,
                if play_point_gain d \<noteq> 0 then fade_to d (play_point_gain d) interval else []))"

definition RDPlayDeck_stop_fade :: "qtime \<Rightarrow> int \<Rightarrow> int \<Rightarrow> play_deck \<Rightarrow> (play_deck \<times> deck_out list) res" where
  "RDPlayDeck_stop_fade now interval gain d =
     (let d1 = (if gain > play_point_gain d then d\<lparr>play_point_gain := gain\<rparr> else d)
      in if play_state d1 \<noteq> DeckPlaying \<and> play_state d1 \<noteq> DeckStopping then Inr (d1, [])
         else if interval \<le> 0 \<or> pause_called d1 then Inr (RDPlayDeck_stop d1)
         else arm_stop now interval d1)"

definition RDPlayDeck_duckDown :: "int \<Rightarrow> play_deck \<Rightarrow> play_deck \<times> deck_out list" where
  "RDPlayDeck_duckDown interval d =
     (if snd (play_duck_gain d) < 0
      then (d\<lparr>play_duck_timer := Some (play_duck_down d), play_duck_down_state := True,
              play_segue_interval := interval\<rparr>, fade_to d (snd (play_duck_gain d)) (play_duck_down d))
      else (d, []))"

definition RDPlayDeck_duckVolume :: "int \<Rightarrow> int \<Rightarrow> play_deck \<Rightarrow> play_deck \<times> deck_out list" where
  "RDPlayDeck_duckVolume level fade d =
     (let d1 = d\<lparr>play_duck_level := level\<rparr>
      in (d1, if (play_state d1 = DeckPlaying \<or> play_state d1 = DeckStopping) \<and> fade > 0
              then fade_to d1 0 fade else []))"

definition RDPlayDeck_clear :: "play_deck \<Rightarrow> play_deck \<times> deck_out list" where
  "RDPlayDeck_clear d =
     (let d1 = StopTimers d
      in case play_state d1 of
           DeckPlaying \<Rightarrow> RDPlayDeck_stop d1
         | DeckStopping \<Rightarrow> RDPlayDeck_stop d1
         | DeckPaused \<Rightarrow> (d1, [Cae (UnloadPlay (play_handle d1)), StateChanged (play_id d1) DeckStopped])
         | _ \<Rightarrow> (d1, [StateChanged (play_id d1) DeckStopped]))"

definition RDPlayDeck_reset :: "play_deck \<Rightarrow> play_deck \<times> deck_out list" where
  "RDPlayDeck_reset d =
     (let d1 = StopTimers d; h = play_handle d1
      in (d1\<lparr>play_state := DeckStopped\<rparr>,
          case play_state d1 of
            DeckPlaying \<Rightarrow> [Cae (StopPlay h), Cae (UnloadPlay h)]
          | DeckStopping \<Rightarrow> [Cae (StopPlay h), Cae (UnloadPlay h)]
          | DeckPaused \<Rightarrow> [Cae (UnloadPlay h)]
          | _ \<Rightarrow> []))"

section \<open>Events\<close>

definition RDPlayDeck_playingData :: "int \<Rightarrow> play_deck \<Rightarrow> play_deck \<times> deck_out list" where
  "RDPlayDeck_playingData handle d =
     (if handle \<noteq> play_handle d then (d, [])
      else (d\<lparr>play_position_timer := True\<rparr>, [StateChanged (play_id d) DeckPlaying]))"

definition RDPlayDeck_playStoppedData :: "int \<Rightarrow> play_deck \<Rightarrow> play_deck \<times> deck_out list" where
  "RDPlayDeck_playStoppedData handle d =
     (if handle \<noteq> play_handle d then (d, [])
      else let d1 = StopTimers (d\<lparr>play_position_timer := False, play_start_time := 0\<rparr>)
           in if pause_called d1
              then (d1\<lparr>play_state := DeckPaused\<rparr>, [StateChanged (play_id d1) DeckPaused])
              else (d1\<lparr>play_handle := -1, play_state := DeckStopped, play_current_position := 0,
                       play_duck_down_state := False, play_fade_down_state := False\<rparr>,
                    [Cae (UnloadPlay (play_handle d1)),
                     StateChanged (play_id d1) (if stop_called d1 then DeckStopped else DeckFinished)]))"

definition RDPlayDeck_pointTimerData :: "point \<Rightarrow> play_deck \<Rightarrow> play_deck \<times> deck_out list" where
  "RDPlayDeck_pointTimerData p d =
     (if play_point_state d p
      then (d\<lparr>play_point_state := (play_point_state d)(p := False)\<rparr>, [PointEnd p (play_id d)])
      else (d\<lparr>play_point_state := (play_point_state d)(p := True),
              play_point_timer := (play_point_timer d)
                (p := Some (snd (play_point_value d p) - fst (play_point_value d p)))\<rparr>,
            [PointStart p (play_id d)]))"

definition RDPlayDeck_positionTimerData :: "qtime \<Rightarrow> play_deck \<Rightarrow> play_deck \<times> deck_out list" where
  "RDPlayDeck_positionTimerData now d =
     (let p0 = to_int32 (play_start_position d + qtime_msecsTo (play_start_time d) now);
          d1 = d\<lparr>play_current_position := (if p0 < 0 then p0 + 86400000 else p0)\<rparr>
      in (d1, [DeckPosition (play_id d1) (play_current_position d1
            - (if play_hook_mode d1 then fst (play_point_value d1 HookPoint) - fst (play_audio_point d1) else 0))]))"

definition RDPlayDeck_fadeTimerData :: "play_deck \<Rightarrow> play_deck \<times> deck_out list" where
  "RDPlayDeck_fadeTimerData d =
     (d\<lparr>play_fade_down_state := True\<rparr>,
      if play_duck_down_state d then [] else fade_to d (snd (play_fade_gain d)) (play_fade_down d))"

definition RDPlayDeck_duckTimerData :: "play_deck \<Rightarrow> play_deck \<times> deck_out list" where
  "RDPlayDeck_duckTimerData d =
     (if \<not> play_duck_down_state d then (d\<lparr>play_ducked := 0\<rparr>, fade_to d 0 (play_duck_up d))
      else (d\<lparr>play_duck_down_state := False\<rparr>,
            if play_point_gain d \<noteq> 0
            then fade_to d (play_point_gain d) (play_segue_interval d - play_duck_down d)
            else if play_fade_down_state d \<and> snd (play_fade_gain d) < snd (play_duck_gain d)
            then fade_to d (snd (play_fade_gain d)) (play_segue_interval d - play_duck_down d)
            else []))"

section \<open>The deck as a state machine\<close>

datatype deck_event =
    EvSetCart log_line bool
  | EvPlay qtime int int int int
  | EvPlayHook qtime
  | EvPause
  | EvStop
  | EvStopFade qtime int int
  | EvDuckDown int
  | EvDuckVolume int int
  | EvClear
  | EvReset
  | EvPlaying int
  | EvPlayStopped int
  | EvPoint point
  | EvPosition qtime
  | EvFade
  | EvDuck
    | EvStopTimer
  | EvAssign int

inductive deck_step :: "deck_env \<Rightarrow> play_deck \<Rightarrow> deck_event \<Rightarrow> deck_out list \<Rightarrow> play_deck \<Rightarrow> bool"
  for env where
  set_cart: "RDPlayDeck_setCart env l rot d = Inr (ok, l', d', out) \<Longrightarrow> deck_step env d (EvSetCart l rot) out d'"
| play: "RDPlayDeck_play now pos s e u d = Inr (d', out) \<Longrightarrow> deck_step env d (EvPlay now pos s e u) out d'"
| play_hook: "RDPlayDeck_playHook now d = Inr (d', out) \<Longrightarrow> deck_step env d (EvPlayHook now) out d'"
| pause: "RDPlayDeck_pause d = (d', out) \<Longrightarrow> deck_step env d EvPause out d'"
| stop: "RDPlayDeck_stop d = (d', out) \<Longrightarrow> deck_step env d EvStop out d'"
| stop_fade: "RDPlayDeck_stop_fade now i g d = Inr (d', out) \<Longrightarrow> deck_step env d (EvStopFade now i g) out d'"
| duck_down: "RDPlayDeck_duckDown i d = (d', out) \<Longrightarrow> deck_step env d (EvDuckDown i) out d'"
| duck_volume: "RDPlayDeck_duckVolume lv f d = (d', out) \<Longrightarrow> deck_step env d (EvDuckVolume lv f) out d'"
| clear: "RDPlayDeck_clear d = (d', out) \<Longrightarrow> deck_step env d EvClear out d'"
| reset: "RDPlayDeck_reset d = (d', out) \<Longrightarrow> deck_step env d EvReset out d'"
| playing: "RDPlayDeck_playingData h d = (d', out) \<Longrightarrow> deck_step env d (EvPlaying h) out d'"
| play_stopped: "RDPlayDeck_playStoppedData h d = (d', out) \<Longrightarrow> deck_step env d (EvPlayStopped h) out d'"
| point: "play_point_timer d p \<noteq> None \<Longrightarrow>
    RDPlayDeck_pointTimerData p (d\<lparr>play_point_timer := (play_point_timer d)(p := None)\<rparr>) = (d', out) \<Longrightarrow>
    deck_step env d (EvPoint p) out d'"
| position: "play_position_timer d \<Longrightarrow> RDPlayDeck_positionTimerData now d = (d', out) \<Longrightarrow>
    deck_step env d (EvPosition now) out d'"
| fade: "play_fade_timer d \<noteq> None \<Longrightarrow> RDPlayDeck_fadeTimerData (d\<lparr>play_fade_timer := None\<rparr>) = (d', out) \<Longrightarrow>
    deck_step env d EvFade out d'"
| duck: "play_duck_timer d \<noteq> None \<Longrightarrow> RDPlayDeck_duckTimerData (d\<lparr>play_duck_timer := None\<rparr>) = (d', out) \<Longrightarrow>
    deck_step env d EvDuck out d'"
| stop_timer: "play_stop_timer d \<noteq> None \<Longrightarrow> RDPlayDeck_stop (d\<lparr>play_stop_timer := None\<rparr>) = (d', out) \<Longrightarrow>
    deck_step env d EvStopTimer out d'"
| assign: "d' = RDPlayDeck_setId i d \<or> d' = RDPlayDeck_setOwner i d \<or> d' = RDPlayDeck_setCard i d
      \<or> d' = RDPlayDeck_setPort i d \<or> d' = RDPlayDeck_setChannel i d \<Longrightarrow>
    deck_step env d (EvAssign i) [] d'"

inductive deck_reach :: "deck_env \<Rightarrow> play_deck \<Rightarrow> bool" for env where
  init: "deck_reach env (RDPlayDeck_new i raw)"
| step: "deck_reach env d \<Longrightarrow> deck_step env d ev out d' \<Longrightarrow> deck_reach env d'"

definition running :: "play_deck \<Rightarrow> bool" where
  "running d \<longleftrightarrow> play_state d = DeckPlaying \<or> play_state d = DeckStopping"

text \<open>The flags behind the state: a running deck is not paused, a stopping one was told to stop.\<close>

definition deck_inv :: "play_deck \<Rightarrow> bool" where
  "deck_inv d \<longleftrightarrow> (running d \<longrightarrow> \<not> pause_called d) \<and> (play_state d = DeckStopping \<longrightarrow> stop_called d)"

definition flags :: "play_deck \<Rightarrow> deck_state \<times> bool \<times> bool" where
  "flags d = (play_state d, pause_called d, stop_called d)"

lemma deck_inv_flags: "flags d' = flags d \<Longrightarrow> deck_inv d' = deck_inv d"
  by (simp add: flags_def deck_inv_def running_def)

named_theorems deck_frame

lemma StopTimers_frame [deck_frame, simp]:
  "play_state (StopTimers d) = play_state d" "pause_called (StopTimers d) = pause_called d"
  "stop_called (StopTimers d) = stop_called d" "play_handle (StopTimers d) = play_handle d"
  "play_id (StopTimers d) = play_id d" "play_point_timer (StopTimers d) = (\<lambda>_. None)"
  "play_stop_timer (StopTimers d) = None" "play_cut (StopTimers d) = play_cut d"
  "play_channel (StopTimers d) = play_channel d" "play_timescale_speed (StopTimers d) = play_timescale_speed d"
  by (simp_all add: StopTimers_def)

lemma start_point_timer_frame [deck_frame, simp]:
  "pause_called (start_point_timer n p d) = pause_called d"
  "stop_called (start_point_timer n p d) = stop_called d"
  "play_state (start_point_timer n p d) = play_state d"
  "play_audio_point (start_point_timer n p d) = play_audio_point d"
  "play_timescale_speed (start_point_timer n p d) = play_timescale_speed d"
  "play_point_value (start_point_timer n p d) = play_point_value d"
  "play_ducked (start_point_timer n p d) = play_ducked d"
  "play_cut_gain (start_point_timer n p d) = play_cut_gain d"
  "play_duck_level (start_point_timer n p d) = play_duck_level d"
  "play_card (start_point_timer n p d) = play_card d" "play_stream (start_point_timer n p d) = play_stream d"
  "play_port (start_point_timer n p d) = play_port d"
  "play_fade_point (start_point_timer n p d) = play_fade_point d"
  "play_id (start_point_timer n p d) = play_id d" "play_handle (start_point_timer n p d) = play_handle d"
  "q \<noteq> p \<Longrightarrow> play_point_timer (start_point_timer n p d) q = play_point_timer d q"
  "q \<noteq> p \<Longrightarrow> play_point_state (start_point_timer n p d) q = play_point_state d q"
  by (simp_all add: start_point_timer_def Let_def split: prod.split)

lemma StartTimers_frame [deck_frame, simp]:
  "pause_called (StartTimers n d) = pause_called d" "stop_called (StartTimers n d) = stop_called d"
  by (simp_all add: StartTimers_def Let_def)

lemma play_ducking_frame [deck_frame, simp]:
  "flags (play_ducking c u d) = flags d" "play_handle (play_ducking c u d) = play_handle d"
  "play_point_value (play_ducking c u d) = play_point_value d"
  "play_audio_point (play_ducking c u d) = play_audio_point d"
  "play_fade_point (play_ducking c u d) = play_fade_point d"
  "play_state (play_ducking c u d) = play_state d"
  "play_timescale_speed (play_ducking c u d) = play_timescale_speed d"
  by (simp_all add: play_ducking_def flags_def Let_def)

lemma play_position_frame [deck_frame, simp]:
  "pause_called (play_position pos s e d) = False" "stop_called (play_position pos s e d) = False"
  "play_state (play_position pos s e d) = play_state d"
  "play_audio_point (play_position pos s e d) = play_audio_point d"
  "play_fade_point (play_position pos s e d) = play_fade_point d"
  "play_timescale_speed (play_position pos s e d) = play_timescale_speed d"
  by (simp_all add: play_position_def split: prod.split)

lemma pick_cut_frame: "pick_cut env l rot d = (b, d') \<Longrightarrow> flags d' = flags d"
  by (auto simp: pick_cut_def Let_def flags_def split: if_splits option.splits)

lemma loaded_frame [deck_frame, simp]:
  "flags (load_fades c l (load_points env c l (timescale (audio_window c l d)))) = flags d"
  by (simp add: load_fades_def load_points_def timescale_def audio_window_def Let_def flags_def)

lemma setCart_flags:
  assumes "RDPlayDeck_setCart env l rot d = Inr (ok, l', d', out)"
  shows "flags d' = flags d \<or> play_state d' = DeckStopped"
proof -
  obtain b d1 where p: "pick_cut env l rot (d\<lparr>play_timescale_active := log_timescaling_active l\<rparr>) = (b, d1)"
    by fastforce
  have f: "flags d1 = flags d" using pick_cut_frame [OF p] by (simp add: flags_def)
  show ?thesis
  proof (cases b)
    case False
    then show ?thesis using assms p f by (simp add: RDPlayDeck_setCart_def)
  next
    case True
    obtain c where c: "play_cut d1 = Some c"
      using assms p True by (cases "play_cut d1") (simp_all add: RDPlayDeck_setCart_def)
    define d2 where "d2 = load_fades c l (load_points env c l (timescale (audio_window c l d1)))"
    have f2: "flags d2 = flags d" using f by (simp add: d2_def)
    show ?thesis
      using assms p True c f2
      by (cases "de_load_play env (play_card d2) (dc_name c)")
        (auto simp: RDPlayDeck_setCart_def Let_def flags_def split: if_splits simp flip: d2_def)
  qed
qed

lemma play_flags:
  assumes "RDPlayDeck_play now pos s e u d = Inr (d', out)"
  shows "flags d' = flags d \<or> flags d' = (DeckPlaying, False, False)"
proof -
  obtain c where c: "play_cut d = Some c" using assms by (cases "play_cut d") (simp_all add: RDPlayDeck_play_def)
  show ?thesis
  proof (cases "play_handle d < 0")
    case True
    then show ?thesis using assms c by (simp add: RDPlayDeck_play_def Let_def) (metis play_ducking_frame(1))
  next
    case False
    let ?d2 = "play_position pos s e (play_ducking c u d)"
    show ?thesis
      using assms c False
      by (cases "opening_gain pos ?d2") (auto simp: RDPlayDeck_play_def Let_def flags_def)
  qed
qed

lemma stop_flags: "flags (fst (RDPlayDeck_stop d)) = (if \<not> running d then flags d
    else if pause_called d then (DeckStopped, True, stop_called d) else (DeckStopping, False, True))"
  by (simp add: RDPlayDeck_stop_def flags_def running_def)

lemma stop_inv: "deck_inv d \<Longrightarrow> deck_inv (fst (RDPlayDeck_stop d))"
  using stop_flags [of d] by (auto simp: flags_def deck_inv_def running_def split: if_splits)

lemma stop_fade_armed:
  assumes "d1 = (if g > play_point_gain d then d\<lparr>play_point_gain := g\<rparr> else d)"
  shows "RDPlayDeck_stop_fade now i g d =
     (if play_state d1 \<noteq> DeckPlaying \<and> play_state d1 \<noteq> DeckStopping then Inr (d1, [])
      else if i \<le> 0 \<or> pause_called d1 then Inr (RDPlayDeck_stop d1) else arm_stop now i d1)"
  by (simp only: RDPlayDeck_stop_fade_def Let_def assms)

lemma armed_flags:
  assumes "arm_stop now i d1 = Inr (d', out)"
  shows "play_state d' = DeckStopping \<and> stop_called d' \<and> pause_called d' = pause_called d1"
proof (cases "fade_level now d1")
  case (Inl e)
  then show ?thesis using assms by (auto simp: arm_stop_def Let_def split: if_splits prod.splits)
next
  case (Inr lv)
  then show ?thesis using assms by (auto simp: arm_stop_def Let_def split: if_splits prod.splits)
qed

lemma stop_fade_flags:
  assumes "RDPlayDeck_stop_fade now i g d = Inr (d', out)"
  shows "flags d' = flags d \<or> flags d' = flags (fst (RDPlayDeck_stop d))
    \<or> (running d \<and> \<not> pause_called d \<and> flags d' = (DeckStopping, False, True))"
proof -
  define d1 where "d1 = (if g > play_point_gain d then d\<lparr>play_point_gain := g\<rparr> else d)"
  have f: "flags d1 = flags d" by (simp add: d1_def flags_def)
  then have s: "flags (fst (RDPlayDeck_stop d1)) = flags (fst (RDPlayDeck_stop d))"
    by (simp add: stop_flags) (simp add: flags_def running_def)
  consider "\<not> running d" | "running d" "i \<le> 0 \<or> pause_called d" | "running d" "0 < i" "\<not> pause_called d"
    by linarith
  then show ?thesis
  proof cases
    case 1
    then show ?thesis using assms f
      by (simp add: RDPlayDeck_stop_fade_def Let_def running_def flags_def d1_def split: if_splits)
  next
    case 2
    then have "RDPlayDeck_stop d1 = (d', out)"
      using assms f by (auto simp: RDPlayDeck_stop_fade_def Let_def running_def flags_def simp flip: d1_def)
    then show ?thesis using s by simp
  next
    case 3
    have s1: "play_state d1 = play_state d" "pause_called d1 = pause_called d" using f by (simp_all add: flags_def)
    have "play_state d' = DeckStopping \<and> stop_called d' \<and> pause_called d' = pause_called d1"
      using armed_flags assms [unfolded stop_fade_armed [OF d1_def]] 3 s1 by (auto simp: running_def)
    then show ?thesis using 3 s1 by (simp add: flags_def)
  qed
qed

lemma clear_flags: "flags (fst (RDPlayDeck_clear d)) = flags d
    \<or> flags (fst (RDPlayDeck_clear d)) = flags (fst (RDPlayDeck_stop (StopTimers d)))"
proof (cases "play_state d")
  case DeckPlaying
  then have "RDPlayDeck_clear d = RDPlayDeck_stop (StopTimers d)" by (simp add: RDPlayDeck_clear_def)
  then show ?thesis by simp
next
  case DeckStopping
  then have "RDPlayDeck_clear d = RDPlayDeck_stop (StopTimers d)" by (simp add: RDPlayDeck_clear_def)
  then show ?thesis by simp
qed (simp_all add: RDPlayDeck_clear_def Let_def flags_def)

lemma set_cart_inv:
  assumes "RDPlayDeck_setCart env l rot d = Inr (ok, l', d', out)" "deck_inv d"
  shows "deck_inv d'"
  using setCart_flags [OF assms(1)]
proof
  assume "flags d' = flags d"
  then show ?thesis using assms(2) deck_inv_flags by metis
next
  assume "play_state d' = DeckStopped"
  then show ?thesis by (simp add: deck_inv_def running_def)
qed

lemma play_inv:
  assumes "RDPlayDeck_play now pos s e u d = Inr (d', out)" "deck_inv d"
  shows "deck_inv d'"
  using play_flags [OF assms(1)]
proof
  assume "flags d' = flags d"
  then show ?thesis using assms(2) deck_inv_flags by metis
next
  assume "flags d' = (DeckPlaying, False, False)"
  then show ?thesis by (simp add: deck_inv_def running_def flags_def)
qed

lemma stop_fade_inv:
  assumes "RDPlayDeck_stop_fade now i g d = Inr (d', out)" "deck_inv d"
  shows "deck_inv d'"
  using stop_fade_flags [OF assms(1)]
proof (elim disjE conjE)
  assume "flags d' = flags d"
  then show ?thesis using assms(2) deck_inv_flags by metis
next
  assume "flags d' = flags (fst (RDPlayDeck_stop d))"
  then show ?thesis using stop_inv [OF assms(2)] deck_inv_flags by metis
next
  assume "flags d' = (DeckStopping, False, True)"
  then show ?thesis by (simp add: deck_inv_def running_def flags_def)
qed

lemma clear_inv:
  assumes "deck_inv d"
  shows "deck_inv (fst (RDPlayDeck_clear d))"
  using clear_flags [of d]
proof
  assume "flags (fst (RDPlayDeck_clear d)) = flags d"
  then show ?thesis using assms deck_inv_flags by metis
next
  assume f: "flags (fst (RDPlayDeck_clear d)) = flags (fst (RDPlayDeck_stop (StopTimers d)))"
  have "deck_inv (StopTimers d)" using assms by (simp add: deck_inv_def running_def)
  then show ?thesis using f stop_inv deck_inv_flags by metis
qed

lemma step_inv: "deck_step env d ev out d' \<Longrightarrow> deck_inv d \<Longrightarrow> deck_inv d'"
proof (induction rule: deck_step.induct)
  case (set_cart l rot d ok l' d' out)
  then show ?case by (rule set_cart_inv)
next
  case (play now pos s e u d d' out)
  then show ?case by (rule play_inv)
next
  case (play_hook now d d' out)
  then obtain d1 where d1: "RDPlayDeck_play now (to_uint32 (fst (play_point_value d HookPoint)
      - fst (play_audio_point d))) (-1) (-1) 0 d = Inr (d1, out)" "d' = d1\<lparr>play_hook_mode := True\<rparr>"
    by (auto simp: RDPlayDeck_playHook_def)
  then show ?case using play_inv [OF d1(1) play_hook(2)] by (simp add: deck_inv_def running_def)
next
  case (stop d d' out)
  then show ?case using stop_inv [of d] by simp
next
  case (stop_fade now i g d d' out)
  then show ?case by (rule stop_fade_inv)
next
  case (clear d d' out)
  then show ?case using clear_inv [of d] by simp
next
  case (stop_timer d d' out)
  then show ?case using stop_inv [of "d\<lparr>play_stop_timer := None\<rparr>"] by (simp add: deck_inv_def running_def)
next
  case (play_stopped h d d' out)
  then show ?case
    by (auto simp: RDPlayDeck_playStoppedData_def Let_def deck_inv_def running_def split: if_splits)
next
  case (reset d d' out)
  then show ?case by (auto simp: RDPlayDeck_reset_def Let_def deck_inv_def running_def)
next
  case (point d p d' out)
  then show ?case by (auto simp: RDPlayDeck_pointTimerData_def deck_inv_def running_def split: if_splits)
qed (auto simp: deck_inv_def running_def Let_def setter_defs RDPlayDeck_pause_def RDPlayDeck_duckDown_def
    RDPlayDeck_duckVolume_def RDPlayDeck_playingData_def RDPlayDeck_positionTimerData_def
    RDPlayDeck_fadeTimerData_def RDPlayDeck_duckTimerData_def split: if_splits)

lemma reach_inv: "deck_reach env d \<Longrightarrow> deck_inv d"
  by (induction rule: deck_reach.induct)
    (auto simp: RDPlayDeck_new_def deck_inv_def running_def dest: step_inv)

section \<open>Stopping\<close>

text \<open>C31: In every reachable deck that plays or is stopping, \<open>stop()\<close> asks the engine to stop that
  handle (its branch for a paused deck is never taken), and the engine's answer then unloads the
  handle, cancels every timer of the deck (those of its points, of the fade, of the ducking, of
  the stop and of the position) and reports \<open>Stopped\<close>, never \<open>Finished\<close> or \<open>Paused\<close>.\<close>

theorem stop_reports_stopped:
  assumes "deck_reach env d" "running d"
  shows "\<exists>d1 d2. RDPlayDeck_stop d = (d1, [Cae (StopPlay (play_handle d))])
    \<and> RDPlayDeck_playStoppedData (play_handle d) d1
        = (d2, [Cae (UnloadPlay (play_handle d)), StateChanged (play_id d) DeckStopped])
    \<and> play_state d2 = DeckStopped \<and> play_handle d2 = -1
    \<and> play_point_timer d2 = (\<lambda>_. None) \<and> play_stop_timer d2 = None \<and> play_fade_timer d2 = None
    \<and> play_duck_timer d2 = None \<and> \<not> play_position_timer d2"
  using reach_inv [OF assms(1)] assms(2)
  by (auto simp: deck_inv_def running_def RDPlayDeck_stop_def RDPlayDeck_playStoppedData_def
      StopTimers_def Let_def)

text \<open>A deck that plays one minute of a cut, used by the witnesses.\<close>

definition demo_cut :: deck_cut where
  "demo_cut = \<lparr>dc_name = ''000100_001'', dc_points = \<lparr>START_POINT = 1000, END_POINT = 61000,
     SEGUE_START_POINT = 55000, SEGUE_END_POINT = 60000, TALK_START_POINT = -1, TALK_END_POINT = -1,
     FADEUP_POINT = -1, FADEDOWN_POINT = 51000, HOOK_START_POINT = 20000, HOOK_END_POINT = 30000\<rparr>,
     dc_gain = 0\<rparr>"

definition demo_env :: deck_env where
  "demo_env = \<lparr>de_cart_exists = (\<lambda>c. c = 100), de_cut = (\<lambda>n. Some demo_cut),
     de_load_play = (\<lambda>card name. (True, 0, 7)), de_scale = (\<lambda>v s. v)\<rparr>"

definition demo_line :: log_line where
  "demo_line = new_log_line\<lparr>log_cart_number := 100, log_cut_name := ''000100_001''\<rparr>"

definition raw_deck :: play_deck where
  "raw_deck = \<lparr>play_id = 0, play_owner = 0, play_state = DeckStopped, play_start_time = 0,
     play_position_timer = False, play_cart = None, play_cut = None, play_point_timer = (\<lambda>_. None),
     play_stop_timer = None, play_fade_timer = None, play_duck_timer = None,
     play_duck_down_state = False, play_fade_down_state = False, play_segue_interval = 0,
     play_point_state = (\<lambda>_. False), play_point_value = (\<lambda>_. (0, 0)), play_point_gain = 0,
     play_audio_point = (0, 0), play_audio_length = 0, play_fade_point = (0, 0),
     play_fade_gain = (0, 0), play_fade_down = 0, play_cut_gain = 0, play_duck_level = 0,
     play_duck_gain = (0, 0), play_duck_up = 0, play_duck_down = 0, play_ducked = 0,
     play_duck_up_point = 0, play_card = 0, play_stream = 0, play_port = 0, play_channel = 0,
     play_handle = 0, play_forced_length = 0, play_hook_mode = False, stop_called = False,
     pause_called = False, play_start_position = 0, play_last_start_position = 0,
     play_current_position = 0, play_timescale_active = False, play_timescale_speed = 0\<rparr>"

definition demo_loaded :: play_deck where
  "demo_loaded = (case RDPlayDeck_setCart demo_env demo_line False (RDPlayDeck_new 3 raw_deck) of
     Inr (_, _, d, _) \<Rightarrow> d | Inl _ \<Rightarrow> raw_deck)"

definition demo_playing :: play_deck where
  "demo_playing = (case RDPlayDeck_play 0 0 (-1) (-1) 0 demo_loaded of Inr (d, _) \<Rightarrow> d | Inl _ \<Rightarrow> raw_deck)"

lemmas demo_defs = demo_cut_def demo_env_def demo_line_def raw_deck_def demo_loaded_def demo_playing_def

lemma demo_reach: "deck_reach demo_env demo_playing" "play_state demo_playing = DeckPlaying"
proof -
  have "case RDPlayDeck_setCart demo_env demo_line False (RDPlayDeck_new 3 raw_deck) of
      Inr _ \<Rightarrow> True | Inl _ \<Rightarrow> False"
    by code_simp
  then have l: "\<exists>ok out l'. RDPlayDeck_setCart demo_env demo_line False (RDPlayDeck_new 3 raw_deck)
      = Inr (ok, l', demo_loaded, out)"
    by (auto simp: demo_loaded_def split: sum.splits)
  have "case RDPlayDeck_play 0 0 (-1) (-1) 0 demo_loaded of Inr _ \<Rightarrow> True | Inl _ \<Rightarrow> False"
    by code_simp
  then have p: "\<exists>out. RDPlayDeck_play 0 0 (-1) (-1) 0 demo_loaded = Inr (demo_playing, out)"
    by (auto simp: demo_playing_def split: sum.splits)
  show "deck_reach demo_env demo_playing"
    using l p by (meson deck_reach.intros deck_step.set_cart deck_step.play)
  show "play_state demo_playing = DeckPlaying" by code_simp
qed

theorem stop_reports_stopped_witness:
  "\<exists>d1 d2. RDPlayDeck_stop demo_playing = (d1, [Cae (StopPlay (play_handle demo_playing))])
    \<and> RDPlayDeck_playStoppedData (play_handle demo_playing) d1
        = (d2, [Cae (UnloadPlay (play_handle demo_playing)), StateChanged (play_id demo_playing) DeckStopped])
    \<and> play_state d2 = DeckStopped \<and> play_fade_timer d2 = None \<and> play_duck_timer d2 = None"
  using stop_reports_stopped [OF demo_reach(1)] demo_reach(2) by (auto simp: running_def)

section \<open>The points of a playing cut\<close>

text \<open>The signals one point's timer raises from now on, with their delays; two rounds are enough,
  since the second timeout does not restart the timer.\<close>

fun point_signals :: "nat \<Rightarrow> point \<Rightarrow> int \<Rightarrow> play_deck \<Rightarrow> (int \<times> deck_out) list" where
  "point_signals 0 p t d = []"
| "point_signals (Suc n) p t d =
     (case play_point_timer d p of
        None \<Rightarrow> []
      | Some w \<Rightarrow>
          (case RDPlayDeck_pointTimerData p (d\<lparr>play_point_timer := (play_point_timer d)(p := None)\<rparr>) of
             (d1, out) \<Rightarrow> map (Pair (t + w)) out @ point_signals n p (t + w) d1))"

text \<open>What the listener is due: both signals ahead, only the end ahead, or nothing.\<close>

definition due_signals :: "int \<Rightarrow> point \<Rightarrow> int \<Rightarrow> int \<times> int \<Rightarrow> int \<Rightarrow> (int \<times> deck_out) list" where
  "due_signals deck_id p start v pos =
     (if start + pos \<le> fst v then [(fst v - start - pos, PointStart p deck_id), (snd v - start - pos, PointEnd p deck_id)]
      else if start + pos \<le> snd v then [(snd v - start - pos, PointEnd p deck_id)] else [])"

lemma unscaled_point: "- (2 ^ 31) \<le> a \<Longrightarrow> a < 2 ^ 31
  \<Longrightarrow> cut_to_int (RD_TIMESCALE_DIVISOR * a sdiv RD_TIMESCALE_DIVISOR) = a"
  by (simp add: cut_to_int_def RD_TIMESCALE_DIVISOR_def signed_divide_int_def sgn_mult abs_mult)
    (simp add: sgn_if abs_if)

lemma start_point_timer_signals:
  assumes "play_timescale_speed d = RD_TIMESCALE_DIVISOR"
    and "- (2 ^ 31) \<le> fst (play_audio_point d)" "fst (play_audio_point d) < 2 ^ 31"
    and "fst (play_point_value d p) \<noteq> -1" "play_point_timer d p = None"
    and "play_point_timer d' p = play_point_timer (start_point_timer pos p d) p"
    and "play_point_state d' p = play_point_state (start_point_timer pos p d) p"
    and "play_point_value d' p = play_point_value d p" "play_id d' = i"
  shows "point_signals (Suc (Suc n)) p 0 d' = due_signals i p (fst (play_audio_point d)) (play_point_value d p) pos"
  using assms unscaled_point [OF assms(2,3)]
  by (cases "play_point_value d p")
    (cases n, auto simp: start_point_timer_def due_signals_def RDPlayDeck_pointTimerData_def Let_def)

text \<open>The timer of one point does not see the timers of the others.\<close>

lemma start_point_timer_local:
  assumes "play_point_value d1 = play_point_value d" "play_audio_point d1 = play_audio_point d"
    "play_timescale_speed d1 = play_timescale_speed d"
    "play_point_timer d1 p = play_point_timer d p"
  shows "play_point_timer (start_point_timer pos p d1) p = play_point_timer (start_point_timer pos p d) p"
    "play_point_state (start_point_timer pos p d1) p = play_point_state (start_point_timer pos p d) p"
  using assms by (simp_all add: start_point_timer_def Let_def split: prod.splits)

lemma StartTimers_three:
  "play_point_timer (StartTimers pos d) = play_point_timer
     (start_point_timer pos TalkPoint (start_point_timer pos HookPoint (start_point_timer pos SeguePoint d)))"
  "play_point_state (StartTimers pos d) = play_point_state
     (start_point_timer pos TalkPoint (start_point_timer pos HookPoint (start_point_timer pos SeguePoint d)))"
  "play_point_value (StartTimers pos d) = play_point_value d"
  "play_id (StartTimers pos d) = play_id d"
  by (simp_all add: StartTimers_def Let_def)

lemma StartTimers_point:
  "play_point_timer (StartTimers pos d) p = play_point_timer (start_point_timer pos p d) p"
  "play_point_state (StartTimers pos d) p = play_point_state (start_point_timer pos p d) p"
  by (cases p; simp add: StartTimers_three; intro start_point_timer_local; simp)+

lemma play_parts:
  assumes "RDPlayDeck_play now pos s e u d = Inr (d', out)" "0 \<le> play_handle d"
  obtains c gain where "play_cut d = Some c"
    "opening_gain pos (play_position pos s e (play_ducking c u d)) = Inr gain"
    "d' = (StartTimers (to_int32 pos) ((play_position pos s e (play_ducking c u d))\<lparr>play_start_time := now\<rparr>))
          \<lparr>play_state := DeckPlaying\<rparr>"
    "out = play_commands pos gain (play_position pos s e (play_ducking c u d))"
  using assms
  by (cases "play_cut d"; cases "opening_gain pos (play_position pos s e (play_ducking (the (play_cut d)) u d))")
    (auto simp: RDPlayDeck_play_def Let_def)

text \<open>The pair of positions a point has once \<open>play()\<close> has taken the segue of its caller.\<close>

definition played_value :: "int \<Rightarrow> int \<Rightarrow> play_deck \<Rightarrow> point \<Rightarrow> int \<times> int" where
  "played_value s e d p =
     (let v = play_point_value d p
      in if p = SeguePoint then (if s \<ge> 0 then s else fst v, if e \<ge> 0 then e else snd v) else v)"

lemma play_position_values [simp]:
  "play_point_value (play_position pos s e (play_ducking c u d)) = played_value s e d"
  "play_point_timer (play_position pos s e (play_ducking c u d)) = play_point_timer d"
  "play_id (play_position pos s e (play_ducking c u d)) = play_id d"
  by (auto simp: play_position_def play_ducking_def played_value_def Let_def fun_eq_iff split: prod.splits)

text \<open>C32: Starting a loaded deck that plays at its natural speed (no time scaling) at a position
  schedules every point of the cut it has and whose timer is not running yet: its start and its
  end are signalled when the playout reaches them, a start already passed is skipped, and a
  point passed altogether raises nothing. The segue is the caller's where the caller gives one.\<close>

theorem play_schedules_points:
  assumes play: "RDPlayDeck_play now pos s e u d = Inr (d', out)" "0 \<le> play_handle d"
    and pos: "0 \<le> pos" "pos < 2 ^ 31"
    and ap: "- (2 ^ 31) \<le> fst (play_audio_point d)" "fst (play_audio_point d) < 2 ^ 31"
    and unscaled: "play_timescale_speed d = RD_TIMESCALE_DIVISOR"
    and point: "fst (played_value s e d p) \<noteq> -1" "play_point_timer d p = None"
  shows "point_signals (Suc (Suc n)) p 0 d'
    = due_signals (play_id d) p (fst (play_audio_point d)) (played_value s e d p) pos"
proof -
  obtain c gain where parts: "d' = (StartTimers (to_int32 pos)
      ((play_position pos s e (play_ducking c u d))\<lparr>play_start_time := now\<rparr>))\<lparr>play_state := DeckPlaying\<rparr>"
    using play by (rule play_parts)
  have i: "to_int32 pos = pos" using pos by (simp add: to_int32_def)
  define d1 where "d1 = (play_position pos s e (play_ducking c u d))\<lparr>play_start_time := now\<rparr>"
  have d1: "play_timescale_speed d1 = RD_TIMESCALE_DIVISOR" "play_audio_point d1 = play_audio_point d"
    "play_point_value d1 = played_value s e d" "play_point_timer d1 p = None" "play_id d1 = play_id d"
    using unscaled point by (simp_all add: d1_def)
  have d': "d' = (StartTimers pos d1)\<lparr>play_state := DeckPlaying\<rparr>" using parts i by (simp add: d1_def)
  show ?thesis
    using start_point_timer_signals [of d1 p d' pos "play_id d" n] d1 ap point d' StartTimers_point [of pos d1 p]
    by (simp add: StartTimers_three)
qed

theorem play_schedules_points_witness:
  "point_signals (Suc (Suc 0)) SeguePoint 0 (fst (projr (RDPlayDeck_play 0 57000 (-1) (-1) 0 demo_loaded)))
    = [(2000, PointEnd SeguePoint 3)]"
proof -
  have "case RDPlayDeck_play 0 57000 (-1) (-1) 0 demo_loaded of Inr _ \<Rightarrow> True | Inl _ \<Rightarrow> False" by code_simp
  then obtain d' out where p: "RDPlayDeck_play 0 57000 (-1) (-1) 0 demo_loaded = Inr (d', out)"
    by (cases "RDPlayDeck_play 0 57000 (-1) (-1) 0 demo_loaded") auto
  have h: "play_handle demo_loaded = 7" "play_audio_point demo_loaded = (1000, 61000)"
    "play_timescale_speed demo_loaded = RD_TIMESCALE_DIVISOR" "play_id demo_loaded = 3"
    "played_value (-1) (-1) demo_loaded SeguePoint = (55000, 60000)"
    "play_point_timer demo_loaded SeguePoint = None"
    by code_simp+
  show ?thesis using play_schedules_points [OF p, where p = SeguePoint and n = 0] h
    by (simp add: p due_signals_def)
qed

section \<open>The speed of a playout\<close>

definition speed_ok :: "play_deck \<Rightarrow> bool" where
  "speed_ok d \<longleftrightarrow> 83300 \<le> play_timescale_speed d \<and> play_timescale_speed d \<le> 125000"

definition handle_inv :: "play_deck \<Rightarrow> bool" where
  "handle_inv d \<longleftrightarrow> (0 \<le> play_handle d \<longrightarrow> speed_ok d)"

lemma handle_inv_keep:
  "play_timescale_speed d' = play_timescale_speed d \<Longrightarrow> play_handle d' = play_handle d \<or> play_handle d' = -1
    \<Longrightarrow> handle_inv d \<Longrightarrow> handle_inv d'"
  by (auto simp: handle_inv_def speed_ok_def)

lemma timescale_ok: "speed_ok (timescale d)"
  by (auto simp: timescale_def speed_ok_def RD_TIMESCALE_DIVISOR_def Let_def not_less)

lemma loaded_speed:
  "play_timescale_speed (load_fades c l (load_points env c l d)) = play_timescale_speed d"
  by (simp add: load_fades_def load_points_def Let_def)

lemma pick_cut_hs: "pick_cut env l rot d = (b, d')
    \<Longrightarrow> play_timescale_speed d' = play_timescale_speed d \<and> play_handle d' = play_handle d"
  by (auto simp: pick_cut_def StopTimers_def Let_def split: if_splits option.splits)

lemma setCart_speed:
  assumes "RDPlayDeck_setCart env l rot d = Inr (ok, l', d', out)" "handle_inv d"
  shows "handle_inv d'"
proof -
  obtain b d1 where p: "pick_cut env l rot (d\<lparr>play_timescale_active := log_timescaling_active l\<rparr>) = (b, d1)"
    by fastforce
  show ?thesis
  proof (cases b)
    case False
    then have "d' = d1" using assms p by (simp add: RDPlayDeck_setCart_def)
    then show ?thesis using pick_cut_hs [OF p] assms(2) by (simp add: handle_inv_def speed_ok_def)
  next
    case True
    obtain c where c: "play_cut d1 = Some c"
      using assms p True by (cases "play_cut d1") (simp_all add: RDPlayDeck_setCart_def)
    define d2 where "d2 = load_fades c l (load_points env c l (timescale (audio_window c l d1)))"
    have s: "speed_ok d2" using timescale_ok by (simp add: d2_def speed_ok_def loaded_speed)
    have "play_timescale_speed d' = play_timescale_speed d2"
      using assms(1) p True c
      by (cases "de_load_play env (play_card d2) (dc_name c)")
        (auto simp: RDPlayDeck_setCart_def Let_def split: if_splits simp flip: d2_def)
    then show ?thesis using s by (simp add: handle_inv_def speed_ok_def)
  qed
qed

lemma StartTimers_hs:
  "play_timescale_speed (StartTimers n d) = play_timescale_speed d" "play_handle (StartTimers n d) = play_handle d"
  by (simp_all add: StartTimers_def Let_def)

lemma play_position_handle: "play_handle (play_position pos s e d) = play_handle d"
  by (simp add: play_position_def split: prod.split)

lemma play_hs:
  assumes "RDPlayDeck_play now pos s e u d = Inr (d', out)"
  shows "play_timescale_speed d' = play_timescale_speed d \<and> play_handle d' = play_handle d"
proof (cases "0 \<le> play_handle d")
  case True
  show ?thesis
    using assms True by (rule play_parts) (simp add: StartTimers_hs play_position_handle)
next
  case False
  then obtain c where "d' = play_ducking c u d"
    using assms by (cases "play_cut d") (auto simp: RDPlayDeck_play_def Let_def)
  then show ?thesis by simp
qed

lemma arm_stop_hs: "arm_stop now i d = Inr (d', out)
    \<Longrightarrow> play_timescale_speed d' = play_timescale_speed d \<and> play_handle d' = play_handle d"
  by (cases "fade_level now d") (auto simp: arm_stop_def Let_def split: if_splits prod.splits)

lemma stop_hs [simp]: "play_timescale_speed (fst (RDPlayDeck_stop d)) = play_timescale_speed d"
  "play_handle (fst (RDPlayDeck_stop d)) = play_handle d"
  by (simp_all add: RDPlayDeck_stop_def)

lemma stop_fade_hs:
  assumes "RDPlayDeck_stop_fade now i g d = Inr (d', out)"
  shows "play_timescale_speed d' = play_timescale_speed d \<and> play_handle d' = play_handle d"
proof -
  define d1 where "d1 = (if g > play_point_gain d then d\<lparr>play_point_gain := g\<rparr> else d)"
  have f: "play_timescale_speed d1 = play_timescale_speed d" "play_handle d1 = play_handle d"
    by (simp_all add: d1_def)
  have "d' = d1 \<or> d' = fst (RDPlayDeck_stop d1) \<or> arm_stop now i d1 = Inr (d', out)"
    using assms [unfolded stop_fade_armed [OF d1_def]] by (cases "RDPlayDeck_stop d1") (simp split: if_splits)
  then show ?thesis using f arm_stop_hs by auto
qed

lemma clear_cases: "RDPlayDeck_clear d =
   (if running d then RDPlayDeck_stop (StopTimers d)
    else (StopTimers d, (if play_state d = DeckPaused then [Cae (UnloadPlay (play_handle d))] else [])
            @ [StateChanged (play_id d) DeckStopped]))"
proof (cases "play_state d")
  case DeckPlaying
  then show ?thesis by (simp add: RDPlayDeck_clear_def running_def)
next
  case DeckStopping
  then show ?thesis by (simp add: RDPlayDeck_clear_def running_def)
qed (simp_all add: RDPlayDeck_clear_def running_def Let_def)

lemma clear_hs [simp]: "play_timescale_speed (fst (RDPlayDeck_clear d)) = play_timescale_speed d"
  "play_handle (fst (RDPlayDeck_clear d)) = play_handle d"
  by (simp_all add: clear_cases)

lemma step_handle_inv: "deck_step env d ev out d' \<Longrightarrow> handle_inv d \<Longrightarrow> handle_inv d'"
proof (induction rule: deck_step.induct)
  case (set_cart l rot d ok l' d' out)
  then show ?case by (rule setCart_speed)
next
  case (play now pos s e u d d' out)
  then show ?case using play_hs [OF play(1)] handle_inv_keep by blast
next
  case (play_hook now d d' out)
  then obtain d1 where d1: "RDPlayDeck_play now (to_uint32 (fst (play_point_value d HookPoint)
      - fst (play_audio_point d))) (-1) (-1) 0 d = Inr (d1, out)" "d' = d1\<lparr>play_hook_mode := True\<rparr>"
    by (auto simp: RDPlayDeck_playHook_def)
  then show ?case using play_hs [OF d1(1)] play_hook(2) by (simp add: handle_inv_def speed_ok_def)
next
  case (stop d d' out)
  then show ?case using stop_hs [of d] by (simp add: handle_inv_def speed_ok_def)
next
  case (stop_fade now i g d d' out)
  then show ?case using stop_fade_hs handle_inv_keep by blast
next
  case (clear d d' out)
  then show ?case using clear_hs [of d] by (simp add: handle_inv_def speed_ok_def)
next
  case (stop_timer d d' out)
  then show ?case using stop_hs [of "d\<lparr>play_stop_timer := None\<rparr>"] by (simp add: handle_inv_def speed_ok_def)
next
  case (play_stopped h d d' out)
  then show ?case
    by (auto simp: RDPlayDeck_playStoppedData_def Let_def handle_inv_def speed_ok_def split: if_splits)
next
  case (reset d d' out)
  then show ?case by (auto simp: RDPlayDeck_reset_def Let_def handle_inv_def speed_ok_def)
next
  case (point d p d' out)
  then show ?case by (auto simp: RDPlayDeck_pointTimerData_def handle_inv_def speed_ok_def split: if_splits)
qed (auto simp: handle_inv_def speed_ok_def Let_def setter_defs RDPlayDeck_pause_def RDPlayDeck_duckDown_def
    RDPlayDeck_duckVolume_def RDPlayDeck_playingData_def RDPlayDeck_positionTimerData_def
    RDPlayDeck_fadeTimerData_def RDPlayDeck_duckTimerData_def split: if_splits)

lemma reach_handle_inv: "deck_reach env d \<Longrightarrow> handle_inv d"
  by (induction rule: deck_reach.induct) (auto simp: RDPlayDeck_new_def handle_inv_def dest: step_handle_inv)

lemma opening_gain_volume:
  "opening_gain pos d = Inr gain \<Longrightarrow> Cae (CaePlay h len sp) \<notin> set gain"
  by (auto simp: opening_gain_def set_and_fade_def Let_def split: prod.splits if_splits)

lemma play_speed:
  assumes "RDPlayDeck_play now pos s e u d = Inr (d', out)" "handle_inv d" "Cae (CaePlay h len sp) \<in> set out"
  shows "83300 \<le> sp \<and> sp \<le> 125000 \<and> h = play_handle d \<and> 0 \<le> h"
proof (cases "0 \<le> play_handle d")
  case True
  obtain c gain where "play_cut d = Some c"
      and g: "opening_gain pos (play_position pos s e (play_ducking c u d)) = Inr gain"
      and "d' = (StartTimers (to_int32 pos) ((play_position pos s e (play_ducking c u d))\<lparr>play_start_time := now\<rparr>))
          \<lparr>play_state := DeckPlaying\<rparr>"
      and out: "out = play_commands pos gain (play_position pos s e (play_ducking c u d))"
    using assms(1) True by (rule play_parts)
  have "h = play_handle d \<and> sp = play_timescale_speed d"
    using assms(3) opening_gain_volume [OF g, of h len sp]
    by (auto simp: out play_commands_def Let_def play_position_handle split: prod.splits)
  then show ?thesis using assms(2) True by (simp add: handle_inv_def speed_ok_def)
next
  case False
  then have "out = []" using assms(1) by (cases "play_cut d") (auto simp: RDPlayDeck_play_def Let_def)
  then show ?thesis using assms(3) by simp
qed

lemma no_play_commands:
  "Cae (CaePlay h len sp) \<notin> set (fade_to d a b)"
  "Cae (CaePlay h len sp) \<notin> set (snd (RDPlayDeck_stop d))"
  "Cae (CaePlay h len sp) \<notin> set (snd (RDPlayDeck_clear d))"
  "Cae (CaePlay h len sp) \<notin> set (snd (RDPlayDeck_reset d))"
  subgoal by (simp add: fade_to_def)
  subgoal by (simp add: RDPlayDeck_stop_def)
  subgoal by (simp add: clear_cases RDPlayDeck_stop_def)
  subgoal by (cases "play_state d") (simp_all add: RDPlayDeck_reset_def Let_def)
  done

lemma setCart_no_play:
  assumes "RDPlayDeck_setCart env l rot d = Inr (ok, l', d', out)"
  shows "Cae (CaePlay h len sp) \<notin> set out"
proof -
  obtain b d1 where p: "pick_cut env l rot (d\<lparr>play_timescale_active := log_timescaling_active l\<rparr>) = (b, d1)"
    by fastforce
  show ?thesis
  proof (cases "b \<and> play_cut d1 \<noteq> None")
    case False
    then show ?thesis using assms p by (cases b; cases "play_cut d1") (simp_all add: RDPlayDeck_setCart_def)
  next
    case True
    then obtain c where c: "b" "play_cut d1 = Some c" by auto
    define d2 where "d2 = load_fades c l (load_points env c l (timescale (audio_window c l d1)))"
    show ?thesis
      using assms(1) p c
      by (cases "de_load_play env (play_card d2) (dc_name c)")
        (auto simp: RDPlayDeck_setCart_def Let_def split: if_splits simp flip: d2_def)
  qed
qed

lemma stop_fade_no_play:
  assumes "RDPlayDeck_stop_fade now i g d = Inr (d', out)"
  shows "Cae (CaePlay h len sp) \<notin> set out"
proof -
  define d1 where "d1 = (if g > play_point_gain d then d\<lparr>play_point_gain := g\<rparr> else d)"
  have "out = [] \<or> out = snd (RDPlayDeck_stop d1) \<or> arm_stop now i d1 = Inr (d', out)"
    using assms [unfolded stop_fade_armed [OF d1_def]] by (cases "RDPlayDeck_stop d1") (simp split: if_splits)
  moreover have "arm_stop now i d1 = Inr (d', out) \<Longrightarrow> ?thesis"
    by (cases "fade_level now d1")
      (auto simp: arm_stop_def Let_def no_play_commands split: if_splits prod.splits)
  ultimately show ?thesis using no_play_commands(2) by fastforce
qed

text \<open>Every playout a reachable deck ever asks of the engine names a valid handle and a speed
  within the range of the time scaler (83.3 to 125 percent), whatever lines and cuts it was loaded
  with and whatever order its events come in.\<close>

theorem deck_speed_bounded:
  assumes "deck_reach env d" "deck_step env d ev out d'" "Cae (CaePlay h len sp) \<in> set out"
  shows "83300 \<le> sp \<and> sp \<le> 125000 \<and> h = play_handle d \<and> 0 \<le> h"
  using assms(2,3) reach_handle_inv [OF assms(1)]
proof (induction rule: deck_step.cases)
  case (set_cart l rot d0 ok l' d1 out0)
  then show ?case using setCart_no_play by fastforce
next
  case (play now pos s e u d0 d1 out0)
  then show ?case using play_speed by blast
next
  case (play_hook now d0 d1 out0)
  then obtain d2 where "RDPlayDeck_play now (to_uint32 (fst (play_point_value d HookPoint)
      - fst (play_audio_point d))) (-1) (-1) 0 d = Inr (d2, out)"
    by (auto simp: RDPlayDeck_playHook_def)
  then show ?case using play_speed play_hook by blast
next
  case (stop_fade now i g d0 d1 out0)
  then show ?case using stop_fade_no_play by fastforce
next
  case (stop d0 d1 out0)
  then show ?case using no_play_commands(2) [of h len sp d] by simp
next
  case (clear d0 d1 out0)
  then show ?case using no_play_commands(3) [of h len sp d] by simp
next
  case (reset d0 d1 out0)
  then show ?case using no_play_commands(4) [of h len sp d] by simp
next
  case (stop_timer d0 d1 out0)
  then show ?case using no_play_commands(2) [of h len sp "d\<lparr>play_stop_timer := None\<rparr>"] by simp
qed (auto simp: Let_def RDPlayDeck_pause_def RDPlayDeck_duckDown_def no_play_commands
    RDPlayDeck_duckVolume_def RDPlayDeck_playingData_def RDPlayDeck_positionTimerData_def
    RDPlayDeck_playStoppedData_def RDPlayDeck_pointTimerData_def
    RDPlayDeck_fadeTimerData_def RDPlayDeck_duckTimerData_def split: if_splits)

lemma demo_loaded_reach: "deck_reach demo_env demo_loaded"
proof -
  have "case RDPlayDeck_setCart demo_env demo_line False (RDPlayDeck_new 3 raw_deck) of
      Inr _ \<Rightarrow> True | Inl _ \<Rightarrow> False"
    by code_simp
  then have "\<exists>ok out l'. RDPlayDeck_setCart demo_env demo_line False (RDPlayDeck_new 3 raw_deck)
      = Inr (ok, l', demo_loaded, out)"
    by (auto simp: demo_loaded_def split: sum.splits)
  then show ?thesis by (meson deck_reach.intros deck_step.set_cart)
qed

theorem deck_speed_bounded_witness:
  "83300 \<le> (100000::int) \<and> 100000 \<le> (125000::int) \<and> 7 = play_handle demo_loaded \<and> 0 \<le> (7::int)"
proof -
  have "case RDPlayDeck_play 0 0 (-1) (-1) 0 demo_loaded of
      Inr (_, out) \<Rightarrow> Cae (CaePlay 7 60000 100000) \<in> set out | Inl _ \<Rightarrow> False"
    by code_simp
  then obtain d out where p: "RDPlayDeck_play 0 0 (-1) (-1) 0 demo_loaded = Inr (d, out)"
      and "Cae (CaePlay 7 60000 100000) \<in> set out"
    by (auto split: sum.splits)
  then show ?thesis using deck_speed_bounded [OF demo_loaded_reach deck_step.play [OF p]] by blast
qed

section \<open>Where the deck departs from its intent\<close>

definition full_level :: "play_deck \<Rightarrow> int" where
  "full_level d = play_ducked d + play_cut_gain d + play_duck_level d"

lemma StartTimers_volume:
  "play_ducked (StartTimers n d) = play_ducked d" "play_cut_gain (StartTimers n d) = play_cut_gain d"
  "play_duck_level (StartTimers n d) = play_duck_level d" "play_card (StartTimers n d) = play_card d"
  "play_stream (StartTimers n d) = play_stream d" "play_port (StartTimers n d) = play_port d"
  by (simp_all add: StartTimers_def Let_def)

lemma play_commands_gain: "\<exists>before after. play_commands pos gain d = before @ gain @ after"
proof (cases "play_audio_point d")
  case (Pair ap0 ap1)
  let ?before = "[Cae (PositionPlay (play_handle d) (to_int32 (ap0 + pos))),
          Cae (SetPlayPortActive (play_card d) (play_port d) (play_stream d))]
         @ map (\<lambda>i. Cae (SetOutputVolume (play_card d) (play_stream d) (int i) RD_MUTE_DEPTH)) [0..<RD_MAX_PORTS]"
  have "\<exists>x. play_commands pos gain d = ?before @ gain @ [x]"
    by (simp add: play_commands_def Pair Let_def)
  then show ?thesis by blast
qed

lemma StartTimers_fade:
  "play_fade_point d = (f0, f1) \<Longrightarrow> play_audio_point d = (a0, a1) \<Longrightarrow> f1 \<noteq> -1 \<Longrightarrow> n < f1 \<Longrightarrow> f1 < a1
    \<Longrightarrow> play_fade_timer (StartTimers n d) = Some (f1 - (a0 + n))"
  by (simp add: StartTimers_def Let_def)

text \<open>The start position is relative to the audio start, the fade-down point to the whole file,
  and \<open>play()\<close> compares the two directly: started inside the fade-down of a cut whose audio does not
  start at 0, the deck opens at full volume, and sets the fade timer to a negative interval.\<close>

theorem fadedown_start_missed:
  assumes play: "RDPlayDeck_play now pos s e u d = Inr (d', out)" "0 \<le> play_handle d"
    and state: "play_state d \<noteq> DeckPaused"
    and points: "play_audio_point d = (ap0, ap1)" "play_fade_point d = (-1, fp1)"
    and inside: "fp1 < ap0 + pos" "ap0 + pos < ap1" "pos < fp1" "0 \<le> pos" "fp1 < 2 ^ 31"
  shows "(\<exists>before after. out = before @ set_and_fade d' (full_level d') (full_level d') 10 @ after)
    \<and> play_fade_timer d' = Some (fp1 - (ap0 + pos)) \<and> fp1 - (ap0 + pos) < 0"
proof -
  obtain c gain where g: "opening_gain pos (play_position pos s e (play_ducking c u d)) = Inr gain"
      and d': "d' = (StartTimers (to_int32 pos) ((play_position pos s e (play_ducking c u d))\<lparr>play_start_time := now\<rparr>))
          \<lparr>play_state := DeckPlaying\<rparr>"
      and out: "out = play_commands pos gain (play_position pos s e (play_ducking c u d))"
    using play by (rule play_parts)
  define d1 where "d1 = play_position pos s e (play_ducking c u d)"
  have i: "to_int32 pos = pos" "to_int32 (pos - fp1) = pos - fp1"
    using inside by (simp_all add: to_int32_def)
  have d1: "play_fade_point d1 = (-1, fp1)" "play_audio_point d1 = (ap0, ap1)"
    using points by (simp_all add: d1_def)
  have "gain = set_and_fade d1 (full_level d1) (full_level d1) 10"
    using g i inside d1 by (simp add: opening_gain_def full_level_def Let_def add_ac flip: d1_def)
  moreover have "full_level d' = full_level d1" "set_and_fade d' = set_and_fade d1"
    by (simp_all add: d' StartTimers_volume full_level_def set_and_fade_def fun_eq_iff flip: d1_def)
  ultimately have "\<exists>before after. out = before @ set_and_fade d' (full_level d') (full_level d') 10 @ after"
    using play_commands_gain [of pos gain d1] by (simp add: out flip: d1_def)
  moreover have "play_fade_timer d' = Some (fp1 - (ap0 + pos))"
    using d1 i inside by (simp add: d' StartTimers_fade flip: d1_def)
  ultimately show ?thesis using inside by simp
qed

theorem fadedown_start_missed_witness:
  "play_fade_timer (fst (projr (RDPlayDeck_play 0 50500 (-1) (-1) 0 demo_loaded))) = Some (-500)"
proof -
  have "case RDPlayDeck_play 0 50500 (-1) (-1) 0 demo_loaded of Inr _ \<Rightarrow> True | Inl _ \<Rightarrow> False" by code_simp
  then obtain d' out where p: "RDPlayDeck_play 0 50500 (-1) (-1) 0 demo_loaded = Inr (d', out)"
    by (cases "RDPlayDeck_play 0 50500 (-1) (-1) 0 demo_loaded") auto
  have h: "play_handle demo_loaded = 7" "play_state demo_loaded = DeckStopped"
    "play_audio_point demo_loaded = (1000, 61000)" "play_fade_point demo_loaded = (-1, 51000)"
    by code_simp+
  show ?thesis using fadedown_start_missed [OF p _ _ h(3,4)] h by (simp add: p)
qed

text \<open>\<open>reset()\<close> unloads the handle but keeps it: the engine's answer to the stop unloads it again and
  reports a stop, or a finish, for a deck that was already reset.\<close>

lemma reset_keeps_handle:
  assumes "running d" "\<not> pause_called d"
  shows "snd (RDPlayDeck_reset d) = [Cae (StopPlay (play_handle d)), Cae (UnloadPlay (play_handle d))]
    \<and> snd (RDPlayDeck_playStoppedData (play_handle d) (fst (RDPlayDeck_reset d)))
      = [Cae (UnloadPlay (play_handle d)), StateChanged (play_id d) (if stop_called d then DeckStopped else DeckFinished)]"
proof -
  have "snd (RDPlayDeck_reset d) = [Cae (StopPlay (play_handle d)), Cae (UnloadPlay (play_handle d))]"
    using assms(1) by (elim running_def [THEN iffD1, THEN disjE]) (simp_all add: RDPlayDeck_reset_def Let_def)
  moreover have "fst (RDPlayDeck_reset d) = (StopTimers d)\<lparr>play_state := DeckStopped\<rparr>"
    by (simp add: RDPlayDeck_reset_def Let_def)
  ultimately show ?thesis using assms(2) by (simp add: RDPlayDeck_playStoppedData_def Let_def)
qed

text \<open>\<open>setCart()\<close> with a line that names no cut keeps a handle loaded before, without its cut, and
  \<open>play()\<close> reads the cut before it looks at the handle.\<close>

lemma play_without_cut: "play_cut d = None \<Longrightarrow> RDPlayDeck_play now pos s e u d = Inl NullDeref"
  by (simp add: RDPlayDeck_play_def)

lemma setCart_no_cut:
  assumes "play_cart d = None" "play_cut d = None" "de_cart_exists env (log_cart_number l)" "log_cut_name l = ''''"
  shows "\<exists>d'. RDPlayDeck_setCart env l rot d = Inr (False, l, d', []) \<and> play_cut d' = None \<and> play_handle d' = play_handle d"
  using assms by (simp add: RDPlayDeck_setCart_def pick_cut_def StopTimers_def Let_def)

end
