(* ===== verification/Log_Traffic.thy ===== *)
theory Log_Traffic
  imports Log_Line
begin

text \<open>
  The traffic log, \<open>LogTraffic\<close> of \<open>rdairplay/log_traffic.cpp\<close>: the row of the reconciliation table
  that the end, the stop, the pause or the macro of an event leaves. The moment is a Julian day and a
  time of that day; a time written as \<open>hh:mm:ss\<close> is cut to the second.
\<close>

datatype traffic_action = TrafficStart | TrafficStop | TrafficFinish | TrafficPause | TrafficMacro

record traffic_row =
  T_SERVICE :: string
  T_LENGTH :: int
  T_LOG_NAME :: string
  T_LOG_ID :: int
  T_CART_NUMBER :: nat
  T_STATION_NAME :: string
  T_EVENT_DATE :: int
  T_EVENT_TIME :: qtime
  T_EVENT_TYPE :: traffic_action
  T_EVENT_SOURCE :: source
  T_EXT :: ext_data
  T_PLAY_SOURCE :: int
  T_CUT_NUMBER :: int
  T_TITLE :: string
  T_ARTIST :: string
  T_SCHEDULED_TIME :: qtime
  T_ISRC :: string
  T_PUBLISHER :: string
  T_COMPOSER :: string
  T_USAGE_CODE :: usage_code
  T_START_SOURCE :: start_source
  T_ONAIR_FLAG :: bool
  T_ALBUM :: string
  T_LABEL :: string
  T_USER_DEFINED :: string
  T_CONDUCTOR :: string
  T_SONG_ID :: string
  T_ISCI :: string

definition to_second :: "qtime \<Rightarrow> qtime" where
  "to_second t = t - qtime_msec t"

text \<open>The length from the actual start to now; a negative one crossed midnight.\<close>

definition traffic_span :: "int \<times> qtime \<Rightarrow> qtime \<Rightarrow> int \<times> int" where
  "traffic_span now start =
     (let length = qtime_msecsTo start (snd now)
      in if length < 0 then (length + 86400000, fst now - 1) else (length, fst now))"

text \<open>The line's start time is read before the pointer is tested; without a service there is no row.\<close>

definition LogTraffic :: "string \<Rightarrow> int \<times> qtime \<Rightarrow> string \<Rightarrow> string \<Rightarrow> log_line option \<Rightarrow> int \<Rightarrow> traffic_action \<Rightarrow> bool
    \<Rightarrow> traffic_row option res" where
  "LogTraffic station now svcname logname logline src action onair_flag =
     res_bind (of_ptr logline) (\<lambda>l.
       let (length, date) = traffic_span now (log_start_time l Actual); m = log_meta l
       in Inr (if svcname = '''' then None
          else Some \<lparr>T_SERVICE = svcname, T_LENGTH = length, T_LOG_NAME = logname, T_LOG_ID = log_id l,
            T_CART_NUMBER = log_cart_number l, T_STATION_NAME = station,
            T_EVENT_DATE = date, T_EVENT_TIME = to_second (log_start_time l Actual),
            T_EVENT_TYPE = action, T_EVENT_SOURCE = log_source l,
            T_EXT = (log_ext l)\<lparr>log_ext_start_time := to_second (log_ext_start_time (log_ext l))\<rparr>,
            T_PLAY_SOURCE = src, T_CUT_NUMBER = log_cut_number l,
            T_TITLE = log_title m, T_ARTIST = log_artist m,
            T_SCHEDULED_TIME = to_second (log_start_time l Logged),
            T_ISRC = log_isrc m, T_PUBLISHER = log_publisher m, T_COMPOSER = log_composer m,
            T_USAGE_CODE = log_usage_code l, T_START_SOURCE = log_start_source l,
            T_ONAIR_FLAG = onair_flag, T_ALBUM = log_album m, T_LABEL = log_label m,
            T_USER_DEFINED = log_user_defined m, T_CONDUCTOR = log_conductor m,
            T_SONG_ID = log_song_id m, T_ISCI = log_isci m\<rparr>))"

text \<open>A length is at least 0 and less than a day, and the date is the one on which an event of that
  length, ending now, started.\<close>

lemma traffic_span_day:
  assumes "qtime_ok (snd now)" "qtime_ok start" "traffic_span now start = (len, date)"
  shows "0 \<le> len \<and> len < msecs_per_day
    \<and> date * msecs_per_day + start + len = fst now * msecs_per_day + snd now"
  using assms by (auto simp: traffic_span_def qtime_ok_def qtime_msecsTo_def msecs_per_day_def Let_def split: if_splits)

lemma traffic_needs_line: "LogTraffic station now svc name None src a b = Inl NullDeref"
  by (simp add: LogTraffic_def)

end
