(* ===== verification/Player_State.thy ===== *)
theory Player_State
  imports Line_Load Play_Deck Log_Timing Log_Traffic
begin

text \<open>
  The log player, \<open>LogPlay\<close> of \<open>rdairplay/log_play.h\<close> and \<open>rdairplay/log_play.cpp\<close>: its state and its
  queries. A member \<open>play_x\<close> is the field \<open>lp_x\<close>; the log the class inherits is \<open>lp_log\<close>, a deck pointer
  of a line is an index into \<open>lp_deck\<close>, and \<open>lp_deck_conn\<close> says whether the deck's signals are
  connected. The signals the player emits, the commands of its decks and its messages are appended to
  \<open>lp_out\<close>, so an operation is a function on the state, with a \<open>res\<close> where a pointer may be NULL. The
  current time, the audio ports in use, the tables and the log's own row are the fields of \<open>player_env\<close>.
\<close>

section \<open>State\<close>

definition LOGPLAY_MAX_PLAYS :: int where "LOGPLAY_MAX_PLAYS = 7"
definition TRANSPORT_QUANTITY :: nat where "TRANSPORT_QUANTITY = 7"
definition LOGPLAY_LOOKAHEAD_EVENTS :: int where "LOGPLAY_LOOKAHEAD_EVENTS = 20"
definition LOGPLAY_RESCAN_SIZE :: int where "LOGPLAY_RESCAN_SIZE = 30"
definition RD_MAX_STREAMS :: nat where "RD_MAX_STREAMS = 16"

datatype op_mode = Previous | LiveAssist | Auto | ManualMode

datatype player_out =
    SigRenamed | SigReloaded | SigTransportChanged
  | SigInserted int | SigRemoved int int bool | SigModified int
  | SigPlayed int | SigPaused int | SigStopped int | SigPosition int int
  | SigTopEventChanged int | SigNextEventChanged int | SigActiveEventChanged int trans_type
  | SigNextStopChanged qtime | SigPostPointChanged qtime int bool bool
  | SigRunStatusChanged bool | SigRefreshabilityChanged bool | SigRefreshStatusChanged bool
  | SigChannelStarted int int int int | SigChannelStopped int int int int
  | OutDeck nat deck_out | OutMacro signal | OutNowNext | OutExecRml string
  | OutTraffic traffic_row | OutLogCurrentLine int | OutLogPlayout nat int
  | OutCae cae_cmd | OutRequestTimescale int

record log_play =
  lp_log :: log_event
  lp_op_mode :: op_mode
  lp_segue_length :: int
  lp_trans_length :: int
  lp_next_line :: int
  lp_line_counter :: int
  lp_start_next :: bool
  lp_id :: int
  lp_next_stop :: qtime
  lp_running :: bool
  lp_post_time :: qtime
  lp_post_offset :: int
  lp_active_line :: int
  lp_active_trans :: trans_type
  lp_macro_deck :: macro_event
  lp_macro_running :: bool
  lp_refresh_pending :: bool
  lp_trans_timer :: "int option"
  lp_grace_timer :: "int option"
  lp_trans_line :: int
  lp_grace_line :: int
  lp_card :: "int list"
  lp_port :: "int list"
  lp_start_rml :: "string list"
  lp_stop_rml :: "string list"
  lp_timescaling_supported :: "bool list"
  lp_timescaling_available :: bool
  lp_deck :: "play_deck list"
  lp_deck_active :: "bool list"
  lp_deck_conn :: "bool list"
  lp_next_channel :: int
  lp_svc_name :: string
  lp_defaultsvc_name :: string
  lp_rescan_pos :: int
  lp_play_log :: bool
  lp_link_datetime :: qdatetime
  lp_modified_datetime :: qdatetime
  lp_refreshable :: bool
  lp_onair_flag :: bool
  lp_duck_volume_port1 :: int
  lp_duck_volume_port2 :: int
  lp_out :: "player_out list"

text \<open>The row of the loaded log, \<open>RDLog\<close>: whether it exists, its dates and its refresh option.\<close>

record log_info =
  li_exists :: bool
  li_service :: string
  li_link_datetime :: qdatetime
  li_modified_datetime :: qdatetime
  li_auto_refresh :: bool

record player_env =
  pv_now :: qtime
  pv_time_offset :: int
  pv_line :: line_env
  pv_deck :: deck_env
  pv_port_active :: "int \<Rightarrow> int \<Rightarrow> int \<Rightarrow> bool"
  pv_log_info :: log_info
  pv_default_trans :: trans_type
  pv_today :: int
  pv_exec :: exec_env

definition emit :: "player_out \<Rightarrow> log_play \<Rightarrow> log_play" where
  "emit x p = p\<lparr>lp_out := lp_out p @ [x]\<rparr>"

definition LogPlay_size :: "log_play \<Rightarrow> int" where
  "LogPlay_size p = RDLogEvent_size (lp_log p)"

definition LogPlay_logLine :: "log_play \<Rightarrow> int \<Rightarrow> log_line option" where
  "LogPlay_logLine p line = RDLogEvent_logLine (lp_log p) line"

text \<open>A store through the pointer \<open>logLine(line)\<close> returned.\<close>

definition put_line :: "int \<Rightarrow> (log_line \<Rightarrow> log_line) \<Rightarrow> log_play \<Rightarrow> log_play" where
  "put_line line f p = p\<lparr>lp_log := (lp_log p)\<lparr>log_lines :=
     (log_lines (lp_log p))[nat line := f (log_lines (lp_log p) ! nat line)]\<rparr>\<rparr>"

section \<open>Running events\<close>

definition running_status :: "bool \<Rightarrow> log_line \<Rightarrow> bool" where
  "running_status include_paused l \<longleftrightarrow> log_status l = Playing \<or> log_status l = Finishing
     \<or> include_paused \<and> log_status l = Paused"

text \<open>The scan for running events, left as soon as the table is full.\<close>

fun collect_running :: "bool \<Rightarrow> log_line list \<Rightarrow> int \<Rightarrow> nat \<Rightarrow> int list" where
  "collect_running b [] i k = []"
| "collect_running b (l # ls) i k =
     (if running_status b l then i # (if k = 1 then [] else collect_running b ls (i + 1) (k - 1))
      else collect_running b ls (i + 1) k)"

text \<open>One pass of the exchange sort, with the flag \<open>changed\<close>, and the passes until it stays false.\<close>

fun bubble_pass :: "('a \<Rightarrow> int) \<Rightarrow> 'a list \<Rightarrow> bool \<times> 'a list" where
  "bubble_pass key (x # y # zs) =
     (if key x > key y then let (c, r) = bubble_pass key (x # zs) in (True, y # r)
      else let (c, r) = bubble_pass key (y # zs) in (c, x # r))"
| "bubble_pass key xs = (False, xs)"

fun inversions :: "('a \<Rightarrow> int) \<Rightarrow> 'a list \<Rightarrow> nat" where
  "inversions key [] = 0"
| "inversions key (x # xs) = length (filter (\<lambda>y. key y < key x) xs) + inversions key xs"

lemma bubble_pass_mset: "mset (snd (bubble_pass key xs)) = mset xs"
  by (induction key xs rule: bubble_pass.induct) (auto simp: Let_def split: prod.splits)

lemma filter_length_mset: "mset xs = mset ys \<Longrightarrow> length (filter P xs) = length (filter P ys)"
  by (metis mset_filter size_mset)

lemma bubble_pass_inversions:
  "inversions key (snd (bubble_pass key xs)) + (if fst (bubble_pass key xs) then 1 else 0) \<le> inversions key xs"
proof (induction key xs rule: bubble_pass.induct)
  case (1 key x y zs)
  show ?case
  proof (cases "key x > key y")
    case True
    obtain c r where r: "bubble_pass key (x # zs) = (c, r)" by fastforce
    have "length (filter (\<lambda>z. key z < key y) r) = length (filter (\<lambda>z. key z < key y) (x # zs))"
      using bubble_pass_mset [of key "x # zs"] r by (intro filter_length_mset) simp
    then show ?thesis using 1(1) [OF True] r True by simp
  next
    case False
    obtain c r where r: "bubble_pass key (y # zs) = (c, r)" by fastforce
    have "length (filter (\<lambda>z. key z < key x) r) = length (filter (\<lambda>z. key z < key x) (y # zs))"
      using bubble_pass_mset [of key "y # zs"] r by (intro filter_length_mset) simp
    then show ?thesis using 1(2) [OF False] r False by (simp split: if_splits)
  qed
qed simp_all

function bubble_sort :: "('a \<Rightarrow> int) \<Rightarrow> 'a list \<Rightarrow> 'a list" where
  "bubble_sort key xs =
     (let r = bubble_pass key xs in if fst r then bubble_sort key (snd r) else snd r)"
  by auto
termination
proof (relation "measure (\<lambda>(key, xs). inversions key xs)")
  fix key :: "'a \<Rightarrow> int" and xs r
  assume "r = bubble_pass key xs" "fst r"
  then show "((key, snd r), key, xs) \<in> measure (\<lambda>(key, xs). inversions key xs)"
    using bubble_pass_inversions [of key xs] by simp
qed simp

declare bubble_sort.simps [simp del]

definition initial_start :: "log_play \<Rightarrow> int \<Rightarrow> qtime" where
  "initial_start p i = log_start_time (log_lines (lp_log p) ! nat i) Initial"

definition LogPlay_runningEvents :: "bool \<Rightarrow> log_play \<Rightarrow> int list" where
  "LogPlay_runningEvents include_paused p =
     bubble_sort (initial_start p)
       (collect_running include_paused (log_lines (lp_log p)) 0 TRANSPORT_QUANTITY)"

definition LogPlay_running :: "bool \<Rightarrow> log_play \<Rightarrow> bool" where
  "LogPlay_running include_paused p \<longleftrightarrow>
     collect_running include_paused (log_lines (lp_log p)) 0 TRANSPORT_QUANTITY \<noteq> []"

section \<open>Next and top events\<close>

definition LogPlay_topLine :: "log_play \<Rightarrow> int" where
  "LogPlay_topLine p =
     (let i = first_line (running_status True) (lp_log p) in if i = -1 then lp_next_line p else i)"

definition LogPlay_nextEvent :: "log_play \<Rightarrow> log_line option" where
  "LogPlay_nextEvent p = (if lp_next_line p < 0 then None else LogPlay_logLine p (lp_next_line p))"

definition LogPlay_status :: "log_play \<Rightarrow> int \<Rightarrow> status" where
  "LogPlay_status p line = (case LogPlay_logLine p line of None \<Rightarrow> Scheduled | Some l \<Rightarrow> log_status l)"

text \<open>\<open>transportEvents\<close> fills the table with the running events, then with the scheduled ones from
  the next line on, and leaves -1 in the rest.\<close>

fun add_scheduled :: "log_play \<Rightarrow> int list \<Rightarrow> int list \<Rightarrow> int list" where
  "add_scheduled p table [] = table"
| "add_scheduled p table (i # is) =
     (case LogPlay_logLine p i of
        None \<Rightarrow> table
      | Some l \<Rightarrow>
          let table = (if log_status l = Scheduled \<and> length table < TRANSPORT_QUANTITY then table @ [i] else table)
          in if length table = TRANSPORT_QUANTITY then table else add_scheduled p table is)"

definition LogPlay_transportEvents :: "log_play \<Rightarrow> int list" where
  "LogPlay_transportEvents p =
     (let pad = (\<lambda>t. t @ replicate (TRANSPORT_QUANTITY - length t) (-1))
      in if LogPlay_topLine p < 0 \<or> LogPlay_size p = 0 then pad []
         else let table = LogPlay_runningEvents True p
              in if lp_next_line p < 0 \<or> LogPlay_logLine p (lp_next_line p) = None then pad table
                 else pad (add_scheduled p table [lp_next_line p..LogPlay_size p - 1]))"

fun first_scheduled :: "log_play \<Rightarrow> int list \<Rightarrow> int option" where
  "first_scheduled p [] = None"
| "first_scheduled p (j # js) =
     (case LogPlay_logLine p j of
        None \<Rightarrow> Some (-1)
      | Some l \<Rightarrow> if log_status l = Scheduled then Some j else first_scheduled p js)"

fun next_in_table :: "log_play \<Rightarrow> int \<Rightarrow> int list \<Rightarrow> int option" where
  "next_in_table p line [] = None"
| "next_in_table p line (x # xs) =
     (if line = x then (case first_scheduled p xs of Some r \<Rightarrow> Some r | None \<Rightarrow> next_in_table p line xs)
      else next_in_table p line xs)"

definition LogPlay_nextLine :: "log_play \<Rightarrow> int \<Rightarrow> int" where
  "LogPlay_nextLine p line =
     (case next_in_table p line (LogPlay_transportEvents p) of
        Some r \<Rightarrow> r
      | None \<Rightarrow>
          (case find (\<lambda>i. LogPlay_status p i = Scheduled) [line + 1..LogPlay_size p - 1] of
             None \<Rightarrow> -1 | Some i \<Rightarrow> i))"

definition LogPlay_nextTrans_next :: "log_play \<Rightarrow> trans_type" where
  "LogPlay_nextTrans_next p = (case LogPlay_nextEvent p of None \<Rightarrow> Stop | Some l \<Rightarrow> log_trans_type l)"

definition LogPlay_nextTrans :: "log_play \<Rightarrow> int \<Rightarrow> trans_type" where
  "LogPlay_nextTrans p line =
     (case LogPlay_logLine p (LogPlay_nextLine p line) of None \<Rightarrow> Stop | Some l \<Rightarrow> log_trans_type l)"

definition LogPlay_startTime :: "log_play \<Rightarrow> int \<Rightarrow> qtime" where
  "LogPlay_startTime p line =
     (case LogPlay_logLine p line of
        None \<Rightarrow> 0
      | Some l \<Rightarrow> (case log_cart_type l of
            CartAudio \<Rightarrow> (if log_play_deck l = None then log_start_time l Predicted else log_start_time l Actual)
          | _ \<Rightarrow> log_start_time l Predicted))"

section \<open>Start times\<close>

definition GetStartTime :: "op_mode \<Rightarrow> qtime \<Rightarrow> trans_type \<Rightarrow> time_type \<Rightarrow> qtime \<Rightarrow> int \<Rightarrow> int \<Rightarrow> int
    \<Rightarrow> qtime \<times> bool" where
  "GetStartTime mode sched_time trans_type time_type prev_time prev_total prev_segue running_events =
     (if mode = LiveAssist \<or> mode = ManualMode then (0, True)
      else let time = (case trans_type of
                 Play \<Rightarrow> (if \<not> qtime_isNull prev_time then qtime_addMSecs prev_time prev_total else 0)
               | Segue \<Rightarrow> (if \<not> qtime_isNull prev_time then qtime_addMSecs prev_time prev_segue else 0)
               | _ \<Rightarrow> 0)
           in case time_type of
                Relative \<Rightarrow> if \<not> qtime_isNull prev_time then (time, False) else (0, True)
              | Hard \<Rightarrow>
                  let stop = time < sched_time \<or> qtime_isNull time
                  in if running_events \<noteq> 0 \<and> time < sched_time \<and> trans_type \<noteq> Stop then (time, stop)
                     else (sched_time, stop))"

text \<open>\<open>GetNextStop\<close>: the loop's time and whether something runs; a stop transition returns at once,
  before the run status is updated. A running cart whose deck pointer is NULL is a fault.\<close>

fun next_stop_loop :: "log_play \<Rightarrow> int list \<Rightarrow> qtime \<Rightarrow> bool \<Rightarrow> (qtime \<times> bool option) res" where
  "next_stop_loop p [] time run = Inr (time, Some run)"
| "next_stop_loop p (i # is) time run =
     res_bind (of_ptr (LogPlay_logLine p i)) (\<lambda>l.
       if log_status l = Playing \<or> log_status l = Finishing
       then if log_type l = Cart
            then res_bind (of_ptr (log_play_deck l)) (\<lambda>k. res_bind (vec_get (lp_deck p) (int k)) (\<lambda>d.
                   next_stop_loop p is (qtime_addMSecs (LogPlay_startTime p i)
                     (RDLogLine_segueLength l (LogPlay_nextTrans p i) - play_last_start_position d)) True))
            else next_stop_loop p is (qtime_addMSecs (LogPlay_startTime p i)
                   (RDLogLine_segueLength l (LogPlay_nextTrans p i))) True
       else if run \<and> lp_op_mode p = Auto \<and> log_status l = Scheduled
       then (case log_trans_type l of
               Stop \<Rightarrow> Inr (time, None)
             | NoTrans \<Rightarrow> next_stop_loop p is time run
             | _ \<Rightarrow> next_stop_loop p is (qtime_addMSecs time
                     (RDLogLine_segueLength l (LogPlay_nextTrans p i) - log_play_position l)) run)
       else next_stop_loop p is time run)"

definition GetNextStop :: "int \<Rightarrow> log_play \<Rightarrow> (qtime \<times> log_play) res" where
  "GetNextStop line p =
     (if LogPlay_logLine p line = None then Inr (0, p)
      else res_bind (next_stop_loop p [line..LogPlay_size p - 1] 0 False) (\<lambda>(time, run).
        Inr (time, case run of
          None \<Rightarrow> p
        | Some b \<Rightarrow> if b \<noteq> lp_running p then emit (SigRunStatusChanged b) (p\<lparr>lp_running := b\<rparr>) else p)))"

text \<open>The loop of \<open>UpdateStartTimes\<close>: the time of the line before, with its total and segue
  lengths. Its own \<open>next_stop\<close> is overwritten after the loop.\<close>

definition predict_line :: "int \<Rightarrow> int \<Rightarrow> log_play \<times> qtime \<times> int \<times> int \<Rightarrow> log_play \<times> qtime \<times> int \<times> int" where
  "predict_line running_events i s =
     (case s of (p, time, prev_total, prev_segue) \<Rightarrow>
        (case LogPlay_logLine p i of
           None \<Rightarrow> s
         | Some l \<Rightarrow>
             let next_trans = LogPlay_nextTrans p i;
                 started = (log_status l = Playing \<or> log_status l = Finishing);
                 time = (if started then log_start_time l Actual
                         else fst (GetStartTime (lp_op_mode p) (log_start_time l Logged) (log_trans_type l)
                                (log_time_type l) time prev_total prev_segue running_events));
                 p = (if started then p else put_line i (RDLogLine_setStartTime Predicted time) p);
                 ahead = (log_status l = Scheduled \<or> log_status l = Paused);
                 off = (if ahead then log_play_position l else 0)
             in (p, time, RDLogLine_effectiveLength l - off, RDLogLine_segueLength l next_trans - off)))"

definition UpdateStartTimes :: "log_play \<Rightarrow> log_play res" where
  "UpdateStartTimes p =
     (let lines = LogPlay_runningEvents False p;
          line = (if lines \<noteq> [] then hd lines else lp_next_line p);
          (p, _) = foldl (\<lambda>s i. predict_line (int (length lines)) i s) (p, 0, 0, 0) [line..LogPlay_size p - 1]
      in res_bind (GetNextStop line p) (\<lambda>(next_stop, p).
           let p = (if next_stop \<noteq> lp_next_stop p
                    then emit (SigNextStopChanged next_stop) (p\<lparr>lp_next_stop := next_stop\<rparr>) else p)
           in Inr (emit OutNowNext p)))"

section \<open>Post point, active event and hard times\<close>

definition UpdatePostPoint_line :: "player_env \<Rightarrow> int \<Rightarrow> log_play \<Rightarrow> log_play res" where
  "UpdatePostPoint_line env line p =
     (let t = lp_trans_line p
      in res_bind
           (if line < 0 \<or> t < 0 then Inr (-1, 0, 0)
            else if line < LogPlay_size p \<and> t \<ge> 0 \<and> t < LogPlay_size p
            then res_bind (of_ptr (LogPlay_logLine p t)) (\<lambda>l.
                   let post_time = log_start_time l Logged
                   in res_bind (RDLogEvent_length (lp_log p) line t False) (\<lambda>(len, _).
                        Inr (t, post_time, len - qtime_msecsTo (pv_now env) post_time)))
            else Inr (-1, 0, 0))
           (\<lambda>(post_line, post_time, offset).
              Inr (if post_time \<noteq> lp_post_time p \<or> offset \<noteq> lp_post_offset p
                   then emit (SigPostPointChanged post_time offset (post_line \<ge> line) (LogPlay_running False p))
                          (p\<lparr>lp_post_time := post_time, lp_post_offset := offset\<rparr>)
                   else p)))"

definition UpdatePostPoint :: "player_env \<Rightarrow> log_play \<Rightarrow> log_play res" where
  "UpdatePostPoint env p =
     (let lines = LogPlay_runningEvents False p
      in if lines \<noteq> [] then UpdatePostPoint_line env (last lines) p
         else UpdatePostPoint_line env (hd (LogPlay_transportEvents p)) p)"

text \<open>Every round of the loop looks at the line after the counter; the last one decides.\<close>

definition AdvanceActiveEvent :: "log_play \<Rightarrow> log_play" where
  "AdvanceActiveEvent p =
     (let line = (case LogPlay_logLine p (lp_line_counter p + 1) of
                    None \<Rightarrow> -1
                  | Some l \<Rightarrow> if log_deck l \<noteq> -1 then lp_line_counter p + LOGPLAY_MAX_PLAYS - 1 else -1)
      in if line = -1
         then if line \<noteq> lp_active_line p then emit (SigActiveEventChanged line Stop) (p\<lparr>lp_active_line := line\<rparr>)
              else p
         else let trans = (if line < LogPlay_size p - 1
                    then (case LogPlay_logLine p (line + 1) of None \<Rightarrow> Play | Some l \<Rightarrow> log_trans_type l)
                    else Stop)
              in if line \<noteq> lp_active_line p \<or> trans \<noteq> lp_active_trans p
                 then emit (SigActiveEventChanged line trans) (p\<lparr>lp_active_line := line, lp_active_trans := trans\<rparr>)
                 else p)"

definition hard_ahead :: "qtime \<Rightarrow> log_line \<Rightarrow> bool" where
  "hard_ahead current_time l \<longleftrightarrow> log_time_type l = Hard
     \<and> (log_status l = Scheduled \<or> log_status l = Auditioning) \<and> log_start_time l Logged > current_time"

fun next_hard :: "qtime \<Rightarrow> log_line list \<Rightarrow> int \<Rightarrow> qtime \<times> int \<Rightarrow> qtime \<times> int" where
  "next_hard current_time [] i best = best"
| "next_hard current_time (l # ls) i (next_time, next_line) =
     next_hard current_time ls (i + 1)
       (if hard_ahead current_time l \<and> log_start_time l Logged \<le> next_time
        then (log_start_time l Logged, i) else (next_time, next_line))"

definition SetTransTimer :: "player_env \<Rightarrow> qtime \<Rightarrow> bool \<Rightarrow> log_play \<Rightarrow> log_play" where
  "SetTransTimer env current_time stop p =
     (let current_time = (if qtime_isNull current_time then pv_now env else current_time)
      in if lp_trans_timer p \<noteq> None \<and> \<not> stop then p
         else let (next_time, next_line) = next_hard current_time (log_lines (lp_log p)) 0 (86399000, -1)
              in if next_line \<ge> 0
                 then p\<lparr>lp_trans_line := next_line, lp_trans_timer := Some (qtime_msecsTo current_time next_time)\<rparr>
                 else p\<lparr>lp_trans_line := -1, lp_trans_timer := None\<rparr>)"

definition GetNextChannel :: "int \<Rightarrow> log_play \<Rightarrow> (int \<times> int \<times> int \<times> log_play) res" where
  "GetNextChannel mport p =
     (let chan = (if mport < 0 then lp_next_channel p else mport);
          nxt = (if chan + 1 > 1 then 0 else chan + 1)
      in res_bind (vec_get (lp_card p) chan) (\<lambda>card. res_bind (vec_get (lp_port p) chan) (\<lambda>port.
           Inr (chan, card, port, p\<lparr>lp_next_channel := nxt\<rparr>))))"

definition GetPortName :: "log_play \<Rightarrow> int \<Rightarrow> int \<Rightarrow> string" where
  "GetPortName p cardnum portnum =
     (case find (\<lambda>i. lp_card p ! i = cardnum \<and> lp_port p ! i = portnum) [0..<2] of
        None \<Rightarrow> '''' | Some i \<Rightarrow> string_of_nat (i + 1))"

section \<open>Decks\<close>

definition GetPlayDeck :: "log_play \<Rightarrow> nat option \<times> log_play" where
  "GetPlayDeck p =
     (case find (\<lambda>i. \<not> lp_deck_active p ! i) [0..<RD_MAX_STREAMS] of
        None \<Rightarrow> (None, p)
      | Some i \<Rightarrow> (Some i, p\<lparr>lp_deck_active := (lp_deck_active p)[i := True]\<rparr>))"

definition put_deck :: "nat \<Rightarrow> play_deck \<times> deck_out list \<Rightarrow> log_play \<Rightarrow> log_play" where
  "put_deck k r p = p\<lparr>lp_deck := (lp_deck p)[k := fst r], lp_out := lp_out p @ map (OutDeck k) (snd r)\<rparr>"

definition ClearChannel :: "player_env \<Rightarrow> nat \<Rightarrow> log_play \<Rightarrow> log_play res" where
  "ClearChannel env k p =
     (let d = lp_deck p ! k
      in if play_channel d < 0 \<or> pv_port_active env (play_card d) (play_port d) (play_stream d) then Inr p
         else res_bind (vec_get (lp_stop_rml p) (play_channel d)) (\<lambda>rml.
           Inr (put_deck k (RDPlayDeck_setChannel (-1) d, [])
             (emit (SigChannelStopped (lp_id p) (play_channel d) (play_card d) (play_port d))
               (emit (OutExecRml rml) p)))))"

text \<open>\<open>disconnect()\<close> ends the deck's signals before \<open>reset()\<close>.\<close>

definition FreePlayDeck :: "player_env \<Rightarrow> nat \<Rightarrow> log_play \<Rightarrow> log_play res" where
  "FreePlayDeck env k p =
     (if k < RD_MAX_STREAMS
      then res_bind (ClearChannel env k p) (\<lambda>p.
        let p = p\<lparr>lp_deck_conn := (lp_deck_conn p)[k := False]\<rparr>;
            p = put_deck k (RDPlayDeck_reset (lp_deck p ! k)) p
        in Inr (p\<lparr>lp_deck_active := (lp_deck_active p)[k := False]\<rparr>))
      else Inr p)"

text \<open>\<open>CleanupEvent\<close>: the deck's id is the line. The line before it is looked up first, so the test
  for line 0 is never reached.\<close>

definition CleanupEvent :: "player_env \<Rightarrow> int \<Rightarrow> log_play \<Rightarrow> log_play res" where
  "CleanupEvent env line p =
     (case LogPlay_logLine p line of
        None \<Rightarrow> Inr p
      | Some l \<Rightarrow>
          res_bind (of_ptr (log_play_deck l)) (\<lambda>k.
            let top_changed = (case LogPlay_logLine p (line - 1) of
                  None \<Rightarrow> False | Some prev \<Rightarrow> line = 0 \<or> log_status prev \<noteq> Playing);
                p = (if top_changed then p\<lparr>lp_line_counter := lp_line_counter p + 1\<rparr> else p);
                p = put_line line (\<lambda>l. l\<lparr>log_status := status.Finished\<rparr>) p
            in res_bind (FreePlayDeck env k p) (\<lambda>p.
               res_bind (UpdatePostPoint env (put_line line (\<lambda>l. l\<lparr>log_play_deck := None\<rparr>) p)) (\<lambda>p.
                 Inr (if top_changed then emit (SigTopEventChanged (lp_line_counter p)) p else p)))))"

definition serviceName :: "log_play \<Rightarrow> string" where
  "serviceName p = (if lp_svc_name p = '''' then lp_defaultsvc_name p else lp_svc_name p)"

text \<open>\<open>left(length()-4)\<close>, with an \<open>unsigned\<close> argument.\<close>

definition base_name :: "string \<Rightarrow> string" where
  "base_name s = (if length s < 4 then s else take (length s - 4) s)"

text \<open>The call of \<open>LogTraffic\<close> with the player's service, log and machine.\<close>

definition log_traffic :: "player_env \<Rightarrow> log_line option \<Rightarrow> traffic_action \<Rightarrow> log_play \<Rightarrow> log_play res" where
  "log_traffic env logline action p =
     res_bind (LogTraffic (env_station (pv_exec env)) (pv_today env, pv_now env) (serviceName p)
         (base_name (log_name (lp_log p))) logline (lp_id p + 1) action (lp_onair_flag p))
       (\<lambda>row. Inr (case row of None \<Rightarrow> p | Some t \<Rightarrow> emit (OutTraffic t) p))"

definition LogPlay_Stopped :: "player_env \<Rightarrow> int \<Rightarrow> log_play \<Rightarrow> log_play res" where
  "LogPlay_Stopped env line p =
     res_bind (CleanupEvent env line p) (\<lambda>p.
     res_bind (UpdateStartTimes p) (\<lambda>p.
     res_bind (UpdatePostPoint env (AdvanceActiveEvent (emit (SigStopped line) p))) (\<lambda>p.
       let p = (if LogPlay_running True p then p else p\<lparr>lp_next_channel := 0\<rparr>)
       in res_bind (log_traffic env (LogPlay_logLine p line) TrafficStop p) (\<lambda>p.
            Inr (emit SigTransportChanged p)))))"

text \<open>The signals of a deck operation, as far as the player is connected to them: of the operations
  the player itself calls, only \<open>clear()\<close> emits one, and it is \<open>Stopped\<close>.\<close>

definition deck_stopped :: "player_env \<Rightarrow> nat \<Rightarrow> deck_out list \<Rightarrow> log_play \<Rightarrow> log_play res" where
  "deck_stopped env k outs p =
     (if lp_deck_conn p ! k
      then foldl (\<lambda>r x. res_bind r (\<lambda>p. case x of
             StateChanged i DeckStopped \<Rightarrow> LogPlay_Stopped env i p | _ \<Rightarrow> Inr p)) (Inr p) outs
      else Inr p)"

section \<open>Refreshing lines\<close>

text \<open>\<open>RefreshEvents\<close> without its check of the log itself: scheduled carts are loaded again.\<close>

definition reload_line :: "player_env \<Rightarrow> bool \<Rightarrow> int \<Rightarrow> log_play \<Rightarrow> log_play res" where
  "reload_line env force_update i p =
     (case LogPlay_logLine p i of
        None \<Rightarrow> Inr p
      | Some l \<Rightarrow>
          if log_type l = Cart \<and> log_status l = Scheduled
          then res_bind (RDLogLine_loadCart (pv_line env) (int (log_cart_number l)) (lp_id p)
                 (log_timescaling_active l) NoTrans (-1) l) (\<lambda>l'.
                 let p = put_line i (\<lambda>_. l') p
                 in Inr (if force_update \<or> log_state l \<noteq> log_state l' then emit (SigModified i) p else p))
          else Inr p)"

fun reload_lines :: "player_env \<Rightarrow> bool \<Rightarrow> int list \<Rightarrow> log_play \<Rightarrow> log_play res" where
  "reload_lines env force_update [] p = Inr p"
| "reload_lines env force_update (i # is) p =
     res_bind (reload_line env force_update i p) (reload_lines env force_update is)"

definition set_refreshable :: "bool \<Rightarrow> log_play \<Rightarrow> log_play" where
  "set_refreshable b p = (if lp_refreshable p \<noteq> b
     then emit (SigRefreshabilityChanged b) (p\<lparr>lp_refreshable := b\<rparr>) else p)"

text \<open>Whether a newer version of the log is there.\<close>

definition log_outdated :: "player_env \<Rightarrow> log_play \<Rightarrow> bool" where
  "log_outdated env p \<longleftrightarrow>
     (let i = pv_log_info env
      in li_exists i \<and> li_link_datetime i = lp_link_datetime p \<and> li_modified_datetime i > lp_modified_datetime p)"

section \<open>The running events, sorted\<close>

lemma collect_running_take:
  "0 < k \<Longrightarrow> collect_running b ls i k =
    take k (map (\<lambda>j. i + int j) (filter (\<lambda>j. running_status b (ls ! j)) [0..<length ls]))"
proof (induction ls arbitrary: i k)
  case (Cons l ls)
  have upt: "[0..<length (l # ls)] = 0 # map Suc [0..<length ls]"
    by (simp add: upt_conv_Cons map_Suc_upt del: upt_Suc)
  have shift: "map (\<lambda>j. i + int j) (filter (\<lambda>j. running_status b ((l # ls) ! j)) (map Suc [0..<length ls]))
      = map (\<lambda>j. (i + 1) + int j) (filter (\<lambda>j. running_status b (ls ! j)) [0..<length ls])"
    by (simp add: filter_map comp_def ac_simps)
  show ?case
  proof (cases "running_status b l")
    case True
    obtain k' where k: "k = Suc k'" using Cons.prems by (cases k) simp_all
    have "(if k' = 0 then [] else collect_running b ls (i + 1) k')
      = take k' (map (\<lambda>j. (i + 1) + int j) (filter (\<lambda>j. running_status b (ls ! j)) [0..<length ls]))"
      using Cons.IH [of k' "i + 1"] by (cases "k' = 0") simp_all
    then show ?thesis unfolding upt using True shift by (cases "k' = 0") (simp_all add: k)
  next
    case False
    then show ?thesis unfolding upt using Cons.IH [of k "i + 1"] Cons.prems shift by simp
  qed
qed simp

text \<open>A pass keeps the order of equal keys, and a pass without an exchange means sorted.\<close>

lemma bubble_pass_stable:
  "filter (\<lambda>x. key x = a) (snd (bubble_pass key xs)) = filter (\<lambda>x. key x = a) xs"
  by (induction key xs rule: bubble_pass.induct) (auto simp: Let_def split: prod.splits)

lemma bubble_pass_sorted: "\<not> fst (bubble_pass key xs) \<Longrightarrow> snd (bubble_pass key xs) = xs \<and> sorted (map key xs)"
proof (induction key xs rule: bubble_pass.induct)
  case (1 key x y zs)
  then show ?case by (auto simp: Let_def split: prod.splits if_splits)
qed simp_all

lemma bubble_sort_facts:
  "mset (bubble_sort key xs) = mset xs \<and> sorted (map key (bubble_sort key xs))
    \<and> filter (\<lambda>x. key x = a) (bubble_sort key xs) = filter (\<lambda>x. key x = a) xs"
proof (induction key xs rule: bubble_sort.induct)
  case (1 key xs)
  let ?r = "bubble_pass key xs"
  show ?case
  proof (cases "fst ?r")
    case True
    then have "bubble_sort key xs = bubble_sort key (snd ?r)" by (simp add: bubble_sort.simps [of key xs])
    then show ?thesis
      using 1 [OF refl True] bubble_pass_mset [of key xs] bubble_pass_stable [of key a xs] by simp
  next
    case False
    then have "bubble_sort key xs = xs"
      using bubble_pass_sorted [OF False] by (simp add: bubble_sort.simps [of key xs])
    then show ?thesis using bubble_pass_sorted [OF False] by simp
  qed
qed

lemma bubble_sort_is_sort_key: "bubble_sort key xs = sort_key key xs"
proof (rule sym, rule properties_for_sort_key)
  show "mset (bubble_sort key xs) = mset xs" "sorted (map key (bubble_sort key xs))"
    using bubble_sort_facts by blast+
  show "filter (\<lambda>x. key k = key x) (bubble_sort key xs) = filter (\<lambda>x. key k = key x) xs" for k
    using bubble_sort_facts [of key xs "key k"] by (simp add: eq_commute [of "key k"])
qed

text \<open>The line numbers of the running events, in the order of the log.\<close>

definition running_lines :: "bool \<Rightarrow> log_play \<Rightarrow> int list" where
  "running_lines b p = map int (filter (\<lambda>j. running_status b (log_lines (lp_log p) ! j))
     [0..<length (log_lines (lp_log p))])"

text \<open>C35: \<open>runningEvents\<close> returns the first seven running events of the log, stably sorted by the time
  they were started: the exchange sort ends, and agrees with the library's sort.\<close>

theorem runningEvents_sorted:
  "LogPlay_runningEvents b p = sort_key (initial_start p) (take TRANSPORT_QUANTITY (running_lines b p))"
  by (simp add: LogPlay_runningEvents_def bubble_sort_is_sort_key collect_running_take running_lines_def
      TRANSPORT_QUANTITY_def)

section \<open>The next hard start time\<close>

text \<open>The scan keeps the latest line among those of the earliest start.\<close>

lemma next_hard_best:
  assumes "next_hard now ls k (t0, n0) = (t, n)"
  shows "t \<le> t0 \<and> (\<forall>j < length ls. hard_ahead now (ls ! j) \<longrightarrow> log_start_time (ls ! j) Logged \<le> t0
      \<longrightarrow> t < log_start_time (ls ! j) Logged \<or> t = log_start_time (ls ! j) Logged \<and> k + int j \<le> n)
    \<and> (n = n0 \<and> t = t0 \<or> (\<exists>j < length ls. n = k + int j \<and> hard_ahead now (ls ! j) \<and> log_start_time (ls ! j) Logged = t))"
  using assms
proof (induction ls arbitrary: k t0 n0)
  case (Cons l ls)
  show ?case
  proof (cases "hard_ahead now l \<and> log_start_time l Logged \<le> t0")
    case True
    then have r: "next_hard now ls (k + 1) (log_start_time l Logged, k) = (t, n)" using Cons.prems by simp
    note ih = Cons.IH [OF r]
    have "t < log_start_time l Logged \<or> t = log_start_time l Logged \<and> k \<le> n" using ih by auto
    then show ?thesis using ih True
      by (simp add: All_less_Suc2 Ex_less_Suc2 add.assoc) (smt (verit, best) int_ops(4))
  next
    case False
    then have r: "next_hard now ls (k + 1) (t0, n0) = (t, n)" using Cons.prems by auto
    show ?thesis using Cons.IH [OF r] False
      by (simp add: All_less_Suc2 Ex_less_Suc2 add.assoc) (smt (verit, best) int_ops(4))
  qed
qed simp

definition logged_start :: "log_play \<Rightarrow> nat \<Rightarrow> qtime" where
  "logged_start p i = log_start_time (log_lines (lp_log p) ! i) Logged"

definition hard_candidate :: "qtime \<Rightarrow> log_play \<Rightarrow> nat \<Rightarrow> bool" where
  "hard_candidate now p j \<longleftrightarrow> j < length (log_lines (lp_log p)) \<and> hard_ahead now (log_lines (lp_log p) ! j)
     \<and> logged_start p j \<le> 86399000"

text \<open>The transition timer is armed for the earliest hard start still ahead of the given time (until
  23:59:59), the last line of the log where several share it, and fires exactly then; when no line
  qualifies it is off.\<close>

theorem trans_timer_earliest:
  assumes "\<not> qtime_isNull now" "stop \<or> lp_trans_timer p = None"
  shows "(\<forall>j. \<not> hard_candidate now p j) \<and> lp_trans_line (SetTransTimer env now stop p) = -1
      \<and> lp_trans_timer (SetTransTimer env now stop p) = None
    \<or> (\<exists>i. hard_candidate now p i \<and> lp_trans_line (SetTransTimer env now stop p) = int i
        \<and> lp_trans_timer (SetTransTimer env now stop p) = Some (logged_start p i - now) \<and> 0 < logged_start p i - now
        \<and> (\<forall>j. hard_candidate now p j \<longrightarrow>
              logged_start p i < logged_start p j \<or> logged_start p i = logged_start p j \<and> j \<le> i))"
proof -
  let ?ls = "log_lines (lp_log p)" and ?p' = "SetTransTimer env now stop p"
  obtain t n where r: "next_hard now ?ls 0 (86399000, -1) = (t, n)" by fastforce
  note best = next_hard_best [OF r]
  have p': "?p' = (if n \<ge> 0 then p\<lparr>lp_trans_line := n, lp_trans_timer := Some (qtime_msecsTo now t)\<rparr>
      else p\<lparr>lp_trans_line := -1, lp_trans_timer := None\<rparr>)"
    using assms r by (auto simp: SetTransTimer_def Let_def)
  consider "n = -1" "t = 86399000" | i where "n = int i" "hard_candidate now p i" "logged_start p i = t"
    using best by (auto simp: hard_candidate_def logged_start_def)
  then show ?thesis
  proof cases
    case 1
    then have "\<not> hard_candidate now p j" for j using best by (auto simp: hard_candidate_def logged_start_def)
    then show ?thesis using p' 1 by simp
  next
    case 2
    have "0 < t - now" using 2 by (auto simp: hard_candidate_def hard_ahead_def logged_start_def)
    moreover have "t < logged_start p j \<or> t = logged_start p j \<and> j \<le> i" if "hard_candidate now p j" for j
      using best that 2(1) by (auto simp: hard_candidate_def logged_start_def)
    ultimately show ?thesis using 2 p' by (auto simp: qtime_msecsTo_def)
  qed
qed

definition demo_player :: "log_line list \<Rightarrow> log_play" where
  "demo_player ls = \<lparr>lp_log = \<lparr>log_name = ''TEST_LOG'', log_service_name = '''', log_max_id = int (length ls), log_lines = ls\<rparr>,
     lp_op_mode = Auto, lp_segue_length = 1, lp_trans_length = 1, lp_next_line = 0, lp_line_counter = 0,
     lp_start_next = False, lp_id = 0, lp_next_stop = 0, lp_running = False, lp_post_time = 0,
     lp_post_offset = -1, lp_active_line = -1, lp_active_trans = Play,
     lp_macro_deck = RDMacroEvent_new '''' True 0, lp_macro_running = False, lp_refresh_pending = False,
     lp_trans_timer = None, lp_grace_timer = None, lp_trans_line = -1, lp_grace_line = -1,
     lp_card = [0, 0], lp_port = [0, 1], lp_start_rml = ['''', ''''], lp_stop_rml = ['''', ''''],
     lp_timescaling_supported = replicate 8 False, lp_timescaling_available = False, lp_deck = replicate RD_MAX_STREAMS (RDPlayDeck_new 0 raw_deck),
     lp_deck_active = replicate RD_MAX_STREAMS False, lp_deck_conn = replicate RD_MAX_STREAMS False,
     lp_next_channel = 0, lp_svc_name = '''', lp_defaultsvc_name = '''', lp_rescan_pos = 0,
     lp_play_log = False, lp_link_datetime = 0, lp_modified_datetime = 0, lp_refreshable = False,
     lp_onair_flag = False, lp_duck_volume_port1 = 0, lp_duck_volume_port2 = 0, lp_out = []\<rparr>"

definition hard_line :: "qtime \<Rightarrow> log_line" where
  "hard_line t = new_log_line\<lparr>log_time_type := Hard, log_start_time := (\<lambda>_. t)\<rparr>"

theorem trans_timer_earliest_witness:
  "lp_trans_line (SetTransTimer undefined 1000 True (demo_player [hard_line 9000, hard_line 5000])) = 1"
proof -
  let ?p = "demo_player [hard_line 9000, hard_line 5000]"
  have c: "hard_candidate 1000 ?p j \<longleftrightarrow> j = 0 \<or> j = 1" for j
    by (auto simp: hard_candidate_def logged_start_def hard_ahead_def demo_player_def hard_line_def less_Suc_eq)
  have t: "logged_start ?p 0 = 9000" "logged_start ?p 1 = 5000"
    by (simp_all add: logged_start_def demo_player_def hard_line_def)
  show ?thesis
    using trans_timer_earliest [of 1000 True ?p undefined] t by (auto simp: c qtime_isNull_def)
qed

end
