(* ===== verification/Player_Frame.thy ===== *)
theory Player_Frame
  imports Player_State
begin

text \<open>
  What the bookkeeping of the player leaves alone. The start times, the post point, the transition
  timer and the lookahead (\<open>UpdateStartTimes\<close>, \<open>UpdatePostPoint\<close>, \<open>SetTransTimer\<close>, \<open>RefreshEvents\<close> of
  \<open>rdairplay/log_play.cpp\<close>) change times and texts, never the status of a line, the deck it holds, or
  the state of a deck.
\<close>

definition line_use :: "log_line \<Rightarrow> status \<times> nat option" where
  "line_use l = (log_status l, log_play_deck l)"

definition line_uses :: "log_play \<Rightarrow> (status \<times> nat option) list" where
  "line_uses p = map line_use (log_lines (lp_log p))"

definition player_frame :: "log_play \<Rightarrow> (status \<times> nat option) list \<times> play_deck list \<times> macro_event \<times> bool
    \<times> bool \<times> qdatetime \<times> qdatetime" where
  "player_frame p = (line_uses p, lp_deck p, lp_macro_deck p, lp_play_log p, lp_macro_running p,
     lp_link_datetime p, lp_modified_datetime p)"

text \<open>The rest of the state the bookkeeping leaves alone.\<close>

definition player_core :: "log_play \<Rightarrow> ((status \<times> nat option) list \<times> play_deck list \<times> macro_event \<times> bool
    \<times> bool \<times> qdatetime \<times> qdatetime) \<times> bool list \<times> bool list \<times> bool \<times> op_mode \<times> int list \<times> int list
    \<times> string list \<times> string list" where
  "player_core p = (player_frame p, lp_deck_active p, lp_deck_conn p, lp_refresh_pending p, lp_op_mode p,
     lp_card p, lp_port p, lp_start_rml p, lp_stop_rml p)"

lemma core_frame: "player_core p' = player_core p \<Longrightarrow> player_frame p' = player_frame p"
  by (simp add: player_core_def)

named_theorems frame

lemma line_uses_emit [simp]: "line_uses (emit x p) = line_uses p"
  by (simp add: line_uses_def emit_def)

lemma core_emit [simp]: "player_core (emit x p) = player_core p"
  by (simp add: player_core_def player_frame_def line_uses_def emit_def)

lemma emit_sel [simp]: "lp_log (emit x p) = lp_log p" "lp_next_line (emit x p) = lp_next_line p"
  "lp_deck (emit x p) = lp_deck p" "lp_macro_deck (emit x p) = lp_macro_deck p"
  by (simp_all add: emit_def)

lemma line_uses_put_line:
  "(\<And>l. line_use (f l) = line_use l) \<Longrightarrow> line_uses (put_line i f p) = line_uses p"
  by (simp add: line_uses_def put_line_def map_update)
    (metis list_update_beyond list_update_id length_map not_le nth_map)

lemma core_put_line:
  "(\<And>l. line_use (f l) = line_use l) \<Longrightarrow> player_core (put_line i f p) = player_core p"
  using line_uses_put_line [of f i p] by (simp add: player_core_def player_frame_def put_line_def)

lemma core_simple [simp]:
  "player_core (p\<lparr>lp_next_line := n\<rparr>) = player_core p"
  "player_core (p\<lparr>lp_running := b\<rparr>) = player_core p"
  "player_core (p\<lparr>lp_next_stop := t\<rparr>) = player_core p"
  "player_core (p\<lparr>lp_post_time := t, lp_post_offset := n\<rparr>) = player_core p"
  "player_core (p\<lparr>lp_trans_line := n, lp_trans_timer := m\<rparr>) = player_core p"
  "player_core (p\<lparr>lp_refreshable := b\<rparr>) = player_core p"
  "player_core (p\<lparr>lp_rescan_pos := n\<rparr>) = player_core p"
  by (simp_all add: player_core_def player_frame_def line_uses_def)

lemma core_SetTransTimer [simp]: "player_core (SetTransTimer env t b p) = player_core p"
  by (simp add: SetTransTimer_def Let_def split: prod.split)

lemma line_use_setStartTime: "line_use (RDLogLine_setStartTime t x l) = line_use l"
  by (simp add: line_use_def RDLogLine_setStartTime_def)

lemma fst_predict_line:
  "\<exists>t. fst (predict_line n i (p, r)) = p \<or> fst (predict_line n i (p, r)) = put_line i (RDLogLine_setStartTime Predicted t) p"
proof -
  obtain time a b where r: "r = (time, a, b)" by (cases r)
  show ?thesis
  proof (cases "LogPlay_logLine p i")
    case None
    then show ?thesis by (simp add: predict_line_def r)
  next
    case (Some l)
    show ?thesis
      unfolding predict_line_def r Some prod.case option.case Let_def fst_conv
      by (cases "log_status l = Playing \<or> log_status l = Finishing") (simp_all only: if_True if_False simp_thms, blast)
  qed
qed

lemma core_predict_line: "player_core (fst (predict_line n i s)) = player_core (fst s)"
  using fst_predict_line [of n i "fst s" "snd s"] by (auto simp: core_put_line line_use_setStartTime)

lemma core_predict_lines: "player_core (fst (foldl (\<lambda>s i. predict_line n i s) s is)) = player_core (fst s)"
  by (induction "is" arbitrary: s) (simp_all add: core_predict_line)

lemma core_GetNextStop:
  assumes "GetNextStop line p = Inr (t, p')" shows "player_core p' = player_core p"
proof (cases "LogPlay_logLine p line")
  case (Some l)
  then obtain run where
    "p' = (case run of None \<Rightarrow> p
       | Some b \<Rightarrow> if b \<noteq> lp_running p then emit (SigRunStatusChanged b) (p\<lparr>lp_running := b\<rparr>) else p)"
    using assms unfolding GetNextStop_def by (auto simp only: option.simps if_False res_bind_eq_Inr split: prod.splits)
  then show ?thesis by (simp split: option.split)
qed (use assms in \<open>simp add: GetNextStop_def\<close>)

lemma core_UpdateStartTimes:
  assumes "UpdateStartTimes p = Inr p'" shows "player_core p' = player_core p"
proof -
  obtain n line p1 r t p2 where
    1: "foldl (\<lambda>s i. predict_line n i s) (p, 0, 0, 0) [line..LogPlay_size p - 1] = (p1, r)"
    and 2: "GetNextStop line p1 = Inr (t, p2)"
    and 3: "p' = emit OutNowNext (if t \<noteq> lp_next_stop p2
               then emit (SigNextStopChanged t) (p2\<lparr>lp_next_stop := t\<rparr>) else p2)"
    using assms by (auto simp: UpdateStartTimes_def Let_def split: prod.splits)
  have "player_core p1 = player_core p"
    using core_predict_lines [of n "(p, 0, 0, 0)"] 1 by (metis fst_conv)
  then show ?thesis using core_GetNextStop [OF 2] 3 by simp
qed

lemma core_UpdatePostPoint_line:
  "UpdatePostPoint_line env line p = Inr p' \<Longrightarrow> player_core p' = player_core p"
  by (auto simp: UpdatePostPoint_line_def Let_def split: if_splits)

lemma core_UpdatePostPoint:
  "UpdatePostPoint env p = Inr p' \<Longrightarrow> player_core p' = player_core p"
  by (auto simp: UpdatePostPoint_def Let_def core_UpdatePostPoint_line split: if_splits)

lemma core_set_refreshable [simp]: "player_core (set_refreshable b p) = player_core p"
  by (simp add: set_refreshable_def)

section \<open>Loading a line again\<close>

text \<open>The transition type belongs to what \<open>setEvent\<close> leaves alone.\<close>

definition loaded_key :: "log_line \<Rightarrow> (status \<times> nat option) \<times> trans_type" where
  "loaded_key l = (line_use l, log_trans_type l)"

lemma trans_texts [simp]: "log_trans_type (clip_talk l) = log_trans_type l"
  "log_trans_type (cut_texts c q l) = log_trans_type l"
  by (simp_all add: clip_talk_def cut_texts_def Let_def)

lemma loaded_key_event_length: "event_length c q b len l = (s, r, l') \<Longrightarrow> loaded_key l' = loaded_key l"
  by (auto simp: event_length_def loaded_key_def line_use_def Let_def split: if_splits)

lemma loaded_key_clip_talk: "loaded_key (clip_talk l) = loaded_key l"
  by (simp add: loaded_key_def line_use_def)

lemma loaded_key_scaled_points: "loaded_key (scaled_points env q r l) = loaded_key l"
  by (simp add: scaled_points_def loaded_key_def line_use_def Let_def)

lemma loaded_key_plain_points: "loaded_key (plain_points q l) = loaded_key l"
  by (simp add: plain_points_def loaded_key_def line_use_def Let_def)

lemma loaded_key_cut_texts: "loaded_key (cut_texts c q l) = loaded_key l"
  by (simp add: loaded_key_def line_use_def)

lemma loaded_key_event_cart: "loaded_key (snd (event_cart env b len l)) = loaded_key l"
proof (cases "le_cart env (log_cart_number l)")
  case (Some c)
  show ?thesis
    unfolding event_cart_def Some option.case
    by (auto simp: Let_def loaded_key_cut_texts loaded_key_scaled_points loaded_key_plain_points
        dest!: loaded_key_event_length split: prod.split option.split if_splits) (simp_all add: loaded_key_def line_use_def)
qed (simp add: event_cart_def loaded_key_def line_use_def)

lemma loaded_key_no_points: "loaded_key (no_points l) = loaded_key l"
  by (simp add: loaded_key_def line_use_def no_points_def)

lemma loaded_key_setEvent: "RDLogLine_setEvent env mach b len l = Inr (st, l') \<Longrightarrow> loaded_key l' = loaded_key l"
  using loaded_key_event_cart [of env b len l]
  by (auto simp: RDLogLine_setEvent_def Let_def loaded_key_no_points split: line_type.splits)
    (simp_all add: loaded_key_def line_use_def)

lemma line_use_setEvent: "RDLogLine_setEvent env mach b len l = Inr (st, l') \<Longrightarrow> line_use l' = line_use l"
  by (drule loaded_key_setEvent) (simp add: loaded_key_def)

lemma line_use_loadCart:
  assumes "RDLogLine_loadCart env n mach b type len l = Inr l'" shows "line_use l' = line_use l"
proof (cases "if n < 0 then None else le_cart env (nat n)")
  case None
  then show ?thesis using assms by (auto simp: RDLogLine_loadCart_def line_use_def)
next
  case (Some c)
  define k where "k = (if type \<noteq> NoTrans then (cart_fields c (nat n) len l)\<lparr>log_trans_type := type\<rparr>
    else cart_fields c (nat n) len l)"
  obtain st k' where 1: "RDLogLine_setEvent env mach b (-1) k = Inr (st, k')"
    and 2: "l' = k'\<lparr>log_state := st, log_timescaling_active := log_enforce_length k' \<and> b\<rparr>"
    using assms unfolding RDLogLine_loadCart_def Some option.case Let_def k_def [symmetric]
    by (auto simp only: res_bind_eq_Inr split: prod.splits)
  have "line_use k = line_use l" by (simp add: k_def line_use_def cart_fields_def)
  then show ?thesis using line_use_setEvent [OF 1] 2 by (simp add: line_use_def)
qed

lemma put_line_const:
  assumes "LogPlay_logLine p i = Some l" "line_use l' = line_use l"
  shows "line_uses (put_line i (\<lambda>_. l') p) = line_uses p"
proof -
  have "nat i < length (log_lines (lp_log p))" "l = log_lines (lp_log p) ! nat i"
    using assms(1) by (auto simp: LogPlay_logLine_def RDLogEvent_logLine_def split: if_splits)
  then have "(line_uses p)[nat i := line_use l'] = line_uses p"
    using assms(2) list_update_id [of "line_uses p" "nat i"] by (simp add: line_uses_def)
  then show ?thesis by (simp add: line_uses_def put_line_def map_update)
qed

lemma core_put_const:
  "LogPlay_logLine p i = Some l \<Longrightarrow> line_use l' = line_use l \<Longrightarrow> player_core (put_line i (\<lambda>_. l') p) = player_core p"
  using put_line_const [of p i l l'] by (simp add: player_core_def player_frame_def put_line_def)

lemma core_reload_line:
  assumes "reload_line env b i p = Inr p'" shows "player_core p' = player_core p"
proof (cases "LogPlay_logLine p i")
  case (Some l)
  show ?thesis
  proof (cases "log_type l = Cart \<and> log_status l = Scheduled")
    case True
    then obtain l' where 1: "RDLogLine_loadCart (pv_line env) (int (log_cart_number l)) (lp_id p)
        (log_timescaling_active l) NoTrans (-1) l = Inr l'"
      and 2: "p' = put_line i (\<lambda>_. l') p \<or> p' = emit (SigModified i) (put_line i (\<lambda>_. l') p)"
      using assms unfolding reload_line_def Some option.case Let_def
      by (auto simp only: res_bind_eq_Inr simp_thms if_True sum.inject split: if_splits)
    show ?thesis using core_put_const [OF Some line_use_loadCart [OF 1]] 2 by auto
  next
    case False
    then show ?thesis using assms unfolding reload_line_def Some option.case if_not_P [OF False] by simp
  qed
qed (use assms in \<open>simp add: reload_line_def\<close>)

lemma core_reload_lines: "reload_lines env b is p = Inr p' \<Longrightarrow> player_core p' = player_core p"
  by (induction "is" arbitrary: p) (auto dest: core_reload_line)

lemma frame_emit [frame, simp]: "player_frame (emit x p) = player_frame p"
  by (rule core_frame) simp

lemma frame_simple [frame, simp]:
  "player_frame (p\<lparr>lp_next_line := n\<rparr>) = player_frame p"
  "player_frame (p\<lparr>lp_running := b\<rparr>) = player_frame p"
  "player_frame (p\<lparr>lp_next_stop := t\<rparr>) = player_frame p"
  "player_frame (p\<lparr>lp_post_time := t, lp_post_offset := n\<rparr>) = player_frame p"
  "player_frame (p\<lparr>lp_trans_line := n, lp_trans_timer := m\<rparr>) = player_frame p"
  "player_frame (p\<lparr>lp_refreshable := b\<rparr>) = player_frame p"
  "player_frame (p\<lparr>lp_rescan_pos := n\<rparr>) = player_frame p"
  "player_frame (p\<lparr>lp_refresh_pending := b\<rparr>) = player_frame p"
  by (simp_all add: player_frame_def line_uses_def)

lemma frame_put_line:
  "(\<And>l. line_use (f l) = line_use l) \<Longrightarrow> player_frame (put_line i f p) = player_frame p"
  using core_put_line core_frame by blast

lemma frame_SetTransTimer [frame, simp]: "player_frame (SetTransTimer env t b p) = player_frame p"
  by (rule core_frame) simp

lemma frame_set_refreshable [frame, simp]: "player_frame (set_refreshable b p) = player_frame p"
  by (rule core_frame) simp

lemmas frame_UpdateStartTimes [frame] = core_UpdateStartTimes [THEN core_frame]
lemmas frame_UpdatePostPoint [frame] = core_UpdatePostPoint [THEN core_frame]
lemmas frame_put_const = core_put_const [THEN core_frame]
lemmas frame_reload_line = core_reload_line [THEN core_frame]
lemmas frame_reload_lines [frame] = core_reload_lines [THEN core_frame]

section \<open>The bookkeeping cannot fail\<close>

text \<open>Every cart that plays or pauses holds one of the decks.\<close>

definition holds_deck :: "nat \<Rightarrow> log_line \<Rightarrow> bool" where
  "holds_deck n l \<longleftrightarrow> (running_status True l \<and> log_type l = Cart \<longrightarrow> (\<exists>k<n. log_play_deck l = Some k))"

definition cart_decks :: "log_play \<Rightarrow> bool" where
  "cart_decks p \<longleftrightarrow> (\<forall>l\<in>set (log_lines (lp_log p)). holds_deck (length (lp_deck p)) l)"

lemma logLine_in_log:
  "0 \<le> i \<Longrightarrow> i < LogPlay_size p \<Longrightarrow> \<exists>l\<in>set (log_lines (lp_log p)). LogPlay_logLine p i = Some l"
  by (auto simp: LogPlay_logLine_def RDLogEvent_logLine_def LogPlay_size_def RDLogEvent_size_def)

lemma logLine_None: "LogPlay_logLine p i = None \<longleftrightarrow> i < 0 \<or> LogPlay_size p \<le> i"
  by (simp add: LogPlay_logLine_def RDLogEvent_logLine_def LogPlay_size_def RDLogEvent_size_def)

lemma next_stop_loop_total:
  assumes "cart_decks p" "\<forall>i\<in>set xs. 0 \<le> i \<and> i < LogPlay_size p"
  shows "\<exists>r. next_stop_loop p xs t b = Inr r"
  using assms(2)
proof (induction xs arbitrary: t b)
  case (Cons i xs)
  obtain l where l: "l \<in> set (log_lines (lp_log p))" "LogPlay_logLine p i = Some l"
    using logLine_in_log [of i p] Cons.prems by auto
  have d: "\<exists>k<length (lp_deck p). log_play_deck l = Some k"
    if "log_status l = Playing \<or> log_status l = Finishing" "log_type l = Cart"
    using assms(1) l(1) that by (auto simp: cart_decks_def holds_deck_def running_status_def)
  have ih: "\<exists>r. next_stop_loop p xs t b = Inr r" for t b using Cons by simp
  show ?case
  proof (cases "(log_status l = Playing \<or> log_status l = Finishing) \<and> log_type l = Cart")
    case True
    with d obtain k where "k < length (lp_deck p)" "log_play_deck l = Some k" by blast
    with True l(2) ih show ?thesis by (auto simp: vec_get_def)
  next
    case False
    with l(2) ih show ?thesis by (auto split: trans_type.split)
  qed
qed simp

lemma cart_decks_same:
  "lp_log p' = lp_log p \<Longrightarrow> lp_deck p' = lp_deck p \<Longrightarrow> cart_decks p' = cart_decks p"
  by (simp add: cart_decks_def)

lemma cart_decks_put_line:
  assumes "cart_decks p" "\<And>l. holds_deck (length (lp_deck p)) l \<Longrightarrow> holds_deck (length (lp_deck p)) (f l)"
  shows "cart_decks (put_line i f p)"
proof -
  let ?ls = "log_lines (lp_log p)"
  have "l \<in> insert (f (?ls ! nat i)) (set ?ls)" if "l \<in> set (?ls[nat i := f (?ls ! nat i)])" for l
    using that set_update_subset_insert by fastforce
  moreover have "nat i < length ?ls \<or> ?ls[nat i := f (?ls ! nat i)] = ?ls"
    by (metis linorder_not_less list_update_beyond)
  moreover have "holds_deck (length (lp_deck p)) (f (?ls ! nat i))" if "nat i < length ?ls"
    using assms that by (simp add: cart_decks_def)
  ultimately show ?thesis using assms(1) by (auto simp: cart_decks_def put_line_def)
qed

lemma cart_decks_predict_line: "cart_decks (fst s) \<Longrightarrow> cart_decks (fst (predict_line n i s))"
  using fst_predict_line [of n i "fst s" "snd s"]
  by (auto intro!: cart_decks_put_line simp: holds_deck_def running_status_def RDLogLine_setStartTime_def)

lemma cart_decks_predict_lines:
  "cart_decks (fst s) \<Longrightarrow> cart_decks (fst (foldl (\<lambda>s i. predict_line n i s) s xs))"
  by (induction xs arbitrary: s) (simp_all add: cart_decks_predict_line)

lemma GetNextStop_total:
  assumes "cart_decks p"
  shows "\<exists>t p'. GetNextStop line p = Inr (t, p') \<and> lp_log p' = lp_log p \<and> lp_deck p' = lp_deck p"
proof (cases "LogPlay_logLine p line")
  case (Some l)
  then have "0 \<le> line" using logLine_None [of p line] by auto
  then obtain t r where "next_stop_loop p [line..LogPlay_size p - 1] 0 False = Inr (t, r)"
    using next_stop_loop_total [OF assms, of "[line..LogPlay_size p - 1]"] by fastforce
  with Some show ?thesis by (auto simp: GetNextStop_def emit_def split: option.split)
qed (simp add: GetNextStop_def)

lemma UpdateStartTimes_total:
  assumes "cart_decks p" shows "\<exists>p'. UpdateStartTimes p = Inr p' \<and> cart_decks p'"
proof -
  define n where "n = int (length (LogPlay_runningEvents False p))"
  define line where "line = (if LogPlay_runningEvents False p \<noteq> [] then hd (LogPlay_runningEvents False p) else lp_next_line p)"
  obtain p1 r where 1: "foldl (\<lambda>s i. predict_line n i s) (p, 0, 0, 0) [line..LogPlay_size p - 1] = (p1, r)"
    by (rule prod.exhaust)
  have c: "cart_decks p1" using cart_decks_predict_lines [of "(p, 0, 0, 0)" n] assms 1 by (metis fst_conv)
  obtain t p2 where 2: "GetNextStop line p1 = Inr (t, p2)" "lp_log p2 = lp_log p1" "lp_deck p2 = lp_deck p1"
    using GetNextStop_total [OF c] by blast
  have "UpdateStartTimes p = Inr (emit OutNowNext (if t \<noteq> lp_next_stop p2
      then emit (SigNextStopChanged t) (p2\<lparr>lp_next_stop := t\<rparr>) else p2))"
    using 1 2(1) unfolding UpdateStartTimes_def Let_def n_def [symmetric] line_def [symmetric] by simp
  moreover have "cart_decks p2" using c cart_decks_same [OF 2(2,3)] by simp
  ultimately show ?thesis by (auto simp: cart_decks_def emit_def)
qed

lemma segue_step_total: "0 \<le> i \<Longrightarrow> i < RDLogEvent_size e \<Longrightarrow> \<exists>n. segue_step e i = Inr n"
  by (auto simp: segue_step_def Let_def RDLogEvent_logLine_def RDLogEvent_size_def vec_at_def vec_in_def)

lemma sum_lines_total: "\<forall>i\<in>set xs. \<exists>n. f i = Inr n \<Longrightarrow> \<exists>n. sum_lines f acc xs = Inr n"
  by (induction xs arbitrary: acc) fastforce+

lemma log_length_total:
  assumes "0 \<le> i" "0 \<le> t" "t < RDLogEvent_size e" shows "\<exists>n. RDLogEvent_length e i t False = Inr (n, None)"
  using assms sum_lines_total [of "[i..t - 1]" "segue_step e" 0] segue_step_total [of _ e]
  by (auto simp: RDLogEvent_length_def)

lemma UpdatePostPoint_line_total: "\<exists>p'. UpdatePostPoint_line env line p = Inr p' \<and> lp_log p' = lp_log p \<and> lp_deck p' = lp_deck p"
proof -
  have "\<exists>n t m. (if line < 0 \<or> lp_trans_line p < 0 then Inr (-1, 0, 0)
            else if line < LogPlay_size p \<and> lp_trans_line p \<ge> 0 \<and> lp_trans_line p < LogPlay_size p
            then res_bind (of_ptr (LogPlay_logLine p (lp_trans_line p))) (\<lambda>l.
                   res_bind (RDLogEvent_length (lp_log p) line (lp_trans_line p) False) (\<lambda>(len, _).
                     Inr (lp_trans_line p, log_start_time l Logged,
                       len - qtime_msecsTo (pv_now env) (log_start_time l Logged))))
            else Inr (-1, 0, 0)) = Inr (n, t, m)"
    using logLine_in_log [of "lp_trans_line p" p] log_length_total [of line "lp_trans_line p" "lp_log p"]
    by (auto simp: LogPlay_size_def)
  then obtain n t m where r: "(if line < 0 \<or> lp_trans_line p < 0 then Inr (-1, 0, 0)
            else if line < LogPlay_size p \<and> lp_trans_line p \<ge> 0 \<and> lp_trans_line p < LogPlay_size p
            then res_bind (of_ptr (LogPlay_logLine p (lp_trans_line p))) (\<lambda>l.
                   res_bind (RDLogEvent_length (lp_log p) line (lp_trans_line p) False) (\<lambda>(len, _).
                     Inr (lp_trans_line p, log_start_time l Logged,
                       len - qtime_msecsTo (pv_now env) (log_start_time l Logged))))
            else Inr (-1, 0, 0)) = Inr (n, t, m)" by blast
  show ?thesis unfolding UpdatePostPoint_line_def Let_def r res_bind_simps prod.case by simp
qed

lemma UpdatePostPoint_total: "\<exists>p'. UpdatePostPoint env p = Inr p' \<and> lp_log p' = lp_log p \<and> lp_deck p' = lp_deck p"
  using UpdatePostPoint_line_total by (auto simp: UpdatePostPoint_def Let_def)

text \<open>C11: As long as every playing or paused cart holds a deck, the two computations that follow every event of the
  player, \<open>UpdateStartTimes\<close> and \<open>UpdatePostPoint\<close>, return and keep it so, whatever the next line, the
  transition line and the order of the lines are: no pointer they follow is null and no index is out
  of range.\<close>

theorem bookkeeping_total:
  assumes "cart_decks p"
  shows "\<exists>p1 p2. UpdateStartTimes p = Inr p1 \<and> UpdatePostPoint env p1 = Inr p2 \<and> cart_decks p2"
proof -
  obtain p1 where "UpdateStartTimes p = Inr p1" "cart_decks p1" using UpdateStartTimes_total [OF assms] by blast
  moreover obtain p2 where "UpdatePostPoint env p1 = Inr p2" "lp_log p2 = lp_log p1" "lp_deck p2 = lp_deck p1"
    using UpdatePostPoint_total by blast
  ultimately show ?thesis using cart_decks_same by blast
qed

theorem bookkeeping_total_witness:
  "res_ok (UpdateStartTimes (demo_player [new_log_line\<lparr>log_status := Playing, log_play_deck := Some 3\<rparr>, new_log_line]))"
proof -
  let ?p = "demo_player [new_log_line\<lparr>log_status := Playing, log_play_deck := Some 3\<rparr>, new_log_line]"
  have "cart_decks ?p"
    by (simp add: cart_decks_def demo_player_def holds_deck_def running_status_def RD_MAX_STREAMS_def
        new_log_line_def cleared_line_def)
  from bookkeeping_total [OF this, of undefined] show ?thesis by auto
qed

section \<open>Reloading lines cannot fail\<close>

text \<open>The carts of the database load without a fault, their macros included.\<close>

definition carts_load :: "line_env \<Rightarrow> bool" where
  "carts_load env \<longleftrightarrow> (\<forall>n m b t len l. res_ok (RDLogLine_loadCart env n m b t len l))"

lemma reload_line_total:
  assumes "carts_load (pv_line env)" "cart_decks p"
  shows "\<exists>p'. reload_line env b i p = Inr p' \<and> cart_decks p'"
proof (cases "LogPlay_logLine p i")
  case (Some l)
  show ?thesis
  proof (cases "log_type l = Cart \<and> log_status l = Scheduled")
    case True
    obtain l' where 1: "RDLogLine_loadCart (pv_line env) (int (log_cart_number l)) (lp_id p)
        (log_timescaling_active l) NoTrans (-1) l = Inr l'"
      using assms(1) unfolding carts_load_def by (meson res_okE)
    have "log_status l' = Scheduled" using line_use_loadCart [OF 1] True by (simp add: line_use_def)
    then have "cart_decks (put_line i (\<lambda>_. l') p)"
      by (intro cart_decks_put_line [OF assms(2)]) (simp add: holds_deck_def running_status_def)
    then show ?thesis using 1 True Some by (auto simp: reload_line_def Let_def cart_decks_def)
  next
    case False
    then show ?thesis using assms(2) unfolding reload_line_def Some option.case if_not_P [OF False] by simp
  qed
qed (use assms(2) in \<open>simp add: reload_line_def\<close>)

lemma reload_lines_total:
  "carts_load (pv_line env) \<Longrightarrow> cart_decks p \<Longrightarrow> \<exists>p'. reload_lines env b xs p = Inr p' \<and> cart_decks p'"
proof (induction xs arbitrary: p)
  case (Cons i xs)
  obtain q where "reload_line env b i p = Inr q" "cart_decks q" using reload_line_total Cons.prems by blast
  with Cons.IH [OF Cons.prems(1)] show ?case by simp
qed simp

lemma audio_carts_load:
  assumes "\<forall>n c. le_cart env n = Some c \<longrightarrow> C_TYPE c = CartAudio" shows "carts_load env"
  unfolding carts_load_def
proof (intro allI)
  fix n m b t len l
  show "res_ok (RDLogLine_loadCart env n m b t len l)"
  proof (cases "if n < 0 then None else le_cart env (nat n)")
    case (Some c)
    then have "C_TYPE c = CartAudio" using assms by (auto split: if_splits)
    moreover define k where "k = (if t \<noteq> NoTrans then (cart_fields c (nat n) len l)\<lparr>log_trans_type := t\<rparr>
      else cart_fields c (nat n) len l)"
    ultimately have "log_type k = Cart" by (simp add: cart_fields_def)
    then show ?thesis
      unfolding RDLogLine_loadCart_def Some option.case Let_def k_def [symmetric]
      by (simp add: RDLogLine_setEvent_def split: prod.split)
  qed (simp add: RDLogLine_loadCart_def)
qed

end
