(* ===== verification/Player_Edit.thy ===== *)
theory Player_Edit
  imports Player_Frame
begin

text \<open>
  Editing a log that is on air: \<open>LogPlay::insert\<close>, \<open>remove\<close>, \<open>move\<close>, \<open>copy\<close>, \<open>makeNext\<close>, \<open>load\<close>,
  \<open>append\<close>, \<open>refresh\<close> and \<open>clear\<close> of \<open>rdairplay/log_play.cpp\<close>. An edit shifts the lines, so the numbers of
  the running lines that the decks and the macro deck carry, and the next line, have to follow.
  \<open>refresh\<close> and \<open>RefreshEvents\<close> call each other; the inner call finds the log up to date, because
  \<open>refresh\<close> has just taken over its date, and the model leaves the inner branch out.
\<close>

section \<open>Renumbering the decks\<close>

text \<open>The loop over the running lines; \<open>sel\<close> is the deck pointer it takes from a line.\<close>

fun renumber :: "(int \<Rightarrow> int) \<Rightarrow> (log_line \<Rightarrow> nat option res) \<Rightarrow> int list \<Rightarrow> log_play \<Rightarrow> log_play res" where
  "renumber f sel [] p = Inr p"
| "renumber f sel (i # is) p =
     (case LogPlay_logLine p i of
        None \<Rightarrow> renumber f sel is p
      | Some l \<Rightarrow> res_bind (sel l) (\<lambda>k. case k of
            None \<Rightarrow> renumber f sel is p
          | Some k \<Rightarrow> renumber f sel is
              (put_deck k (RDPlayDeck_setId (f (play_id (lp_deck p ! k))) (lp_deck p ! k), []) p)))"

definition any_deck :: "log_line \<Rightarrow> nat option res" where
  "any_deck l = Inr (log_play_deck l)"

definition cart_deck :: "log_line \<Rightarrow> nat option res" where
  "cart_deck l = (if log_type l = Cart then res_bind (of_ptr (log_play_deck l)) (\<lambda>k. Inr (Some k)) else Inr None)"

definition the_deck :: "log_line \<Rightarrow> nat option res" where
  "the_deck l = res_bind (of_ptr (log_play_deck l)) (\<lambda>k. Inr (Some k))"

definition ins_id :: "int \<Rightarrow> int \<Rightarrow> int" where
  "ins_id line i = (if i \<ge> 0 \<and> i \<ge> line then i + 1 else i)"

definition del_id :: "int \<Rightarrow> int \<Rightarrow> int \<Rightarrow> int" where
  "del_id line num_lines i = (if i \<ge> 0 \<and> i > line then i - num_lines else i)"

definition move_id :: "int \<Rightarrow> int \<Rightarrow> int \<Rightarrow> int" where
  "move_id from_line to_line i =
     (if i < 0 then i else if i > from_line \<and> i \<le> to_line then i - 1
      else if i < from_line \<and> i > to_line then i + 1 else i)"

definition set_macro_line :: "int \<Rightarrow> log_play \<Rightarrow> log_play" where
  "set_macro_line i p = p\<lparr>lp_macro_deck := (lp_macro_deck p)\<lparr>event_line := i\<rparr>\<rparr>"

definition macro_line :: "log_play \<Rightarrow> int" where
  "macro_line p = event_line (lp_macro_deck p)"

text \<open>The line whose custom transition the edit ends, or -1.\<close>

definition custom_at :: "log_play \<Rightarrow> int \<Rightarrow> int \<Rightarrow> int res" where
  "custom_at p i m = res_bind (of_ptr (LogPlay_logLine p i))
     (\<lambda>l. Inr (if log_has_custom_transition l then m else -1))"

section \<open>Inserting and removing\<close>

text \<open>The common part of both \<open>insert\<close> functions: the result is the line to report and whether the
  new line exists.\<close>

definition open_line :: "int \<Rightarrow> bool \<Rightarrow> log_play \<Rightarrow> (int \<times> bool \<times> log_play) res" where
  "open_line line preserve p =
     res_bind (if line < LogPlay_size p - 1 then custom_at p line (line + 1) else Inr (-1)) (\<lambda>mod_line.
     res_bind (renumber (ins_id line) any_deck (LogPlay_runningEvents True p) p) (\<lambda>p.
       let p = (if macro_line p \<ge> 0 then set_macro_line (macro_line p + 1) p else p)
       in res_bind (RDLogEvent_insert (lp_log p) line 1 preserve) (\<lambda>e.
            let p = p\<lparr>lp_log := e\<rparr>
            in if LogPlay_logLine p line = None
               then res_bind (RDLogEvent_remove (lp_log p) line 1 False) (\<lambda>e. Inr (mod_line, False, p\<lparr>lp_log := e\<rparr>))
               else Inr (mod_line, True, p))))"

definition no_next :: "int \<Rightarrow> log_play \<Rightarrow> log_play" where
  "no_next line p = (if lp_next_line p < 0 then p\<lparr>lp_next_line := line\<rparr> else p)"

definition scale_line :: "int \<Rightarrow> log_play \<Rightarrow> log_play" where
  "scale_line line p = put_line line (\<lambda>l. l\<lparr>log_timescaling_active :=
     lp_timescaling_available p \<and> log_enforce_length l\<rparr>) p"

text \<open>\<open>insert(line,l,false,preserve)\<close>, the form \<open>refresh\<close> uses.\<close>

definition insert_quiet :: "int \<Rightarrow> log_line \<Rightarrow> bool \<Rightarrow> log_play \<Rightarrow> log_play res" where
  "insert_quiet line l preserve p =
     res_bind (open_line line preserve p) (\<lambda>(mod_line, ok, p).
       if \<not> ok then Inr p else Inr (scale_line line (no_next line (put_line line (\<lambda>_. l) p))))"

text \<open>The decks of the removed lines are cleared and freed.\<close>

fun free_lines :: "player_env \<Rightarrow> int list \<Rightarrow> log_play \<Rightarrow> log_play res" where
  "free_lines env [] p = Inr p"
| "free_lines env (i # is) p =
     (case LogPlay_logLine p i of
        None \<Rightarrow> free_lines env is p
      | Some l \<Rightarrow> (case log_play_deck l of
          None \<Rightarrow> free_lines env is p
        | Some k \<Rightarrow>
            let r = RDPlayDeck_clear (lp_deck p ! k)
            in res_bind (deck_stopped env k (snd r) (put_deck k r p)) (\<lambda>p.
               res_bind (FreePlayDeck env k p) (free_lines env is))))"

definition remove_core :: "player_env \<Rightarrow> int \<Rightarrow> int \<Rightarrow> bool \<Rightarrow> bool \<Rightarrow> log_play \<Rightarrow> (int \<times> log_play) res" where
  "remove_core env line num_lines update preserve p =
     res_bind (if line + num_lines < LogPlay_size p - 1 then custom_at p (line + num_lines) line else Inr (-1))
       (\<lambda>mod_line.
     res_bind (free_lines env [line..line + num_lines - 1] p) (\<lambda>p.
       let p = (if update then emit (SigRemoved line num_lines False) p else p)
       in res_bind (renumber (del_id line num_lines) cart_deck (LogPlay_runningEvents True p) p) (\<lambda>p.
            let p = (if macro_line p > 0 then set_macro_line (macro_line p - num_lines) p else p)
            in res_bind (RDLogEvent_remove (lp_log p) line num_lines preserve) (\<lambda>e.
                 Inr (mod_line, p\<lparr>lp_log := e\<rparr>)))))"

definition remove_quiet :: "player_env \<Rightarrow> int \<Rightarrow> int \<Rightarrow> bool \<Rightarrow> log_play \<Rightarrow> log_play res" where
  "remove_quiet env line num_lines preserve p =
     (if num_lines = 0 \<or> line < 0 \<or> line \<ge> LogPlay_size p then Inr p
      else res_bind (remove_core env line num_lines False preserve p) (\<lambda>(_, p). Inr p))"

section \<open>Making a line the next one\<close>

definition makeNext_tail :: "player_env \<Rightarrow> int \<Rightarrow> log_play \<Rightarrow> log_play res" where
  "makeNext_tail env line p =
     res_bind (UpdatePostPoint env (SetTransTimer env 0 True (emit OutNowNext p))) (\<lambda>p.
       Inr (emit SigTransportChanged (emit (SigNextEventChanged line) p)))"

definition makeNext_quiet :: "player_env \<Rightarrow> int \<Rightarrow> log_play \<Rightarrow> log_play res" where
  "makeNext_quiet env line p = makeNext_tail env line (p\<lparr>lp_next_line := line\<rparr>)"

section \<open>Refreshing the log\<close>

definition inc_pass :: "log_line \<Rightarrow> log_line" where
  "inc_pass l = l\<lparr>log_pass := log_pass l + 1\<rparr>"

definition inc_by_id :: "int \<Rightarrow> log_event \<Rightarrow> log_event" where
  "inc_by_id i e = (let k = RDLogEvent_lineById e i
     in if k < 0 then e else e\<lparr>log_lines := (log_lines e)[nat k := inc_pass (log_lines e ! nat k)]\<rparr>)"

text \<open>Pass 1 counts the events that have left the schedule, here and in the new log.\<close>

definition refresh_pass1 :: "log_play \<Rightarrow> log_event \<Rightarrow> log_play \<times> log_event" where
  "refresh_pass1 p e = foldl (\<lambda>(p, e) i.
       let d = log_lines (lp_log p) ! i
       in if log_status d \<noteq> Scheduled then (put_line (int i) inc_pass p, inc_by_id (log_id d) e) else (p, e))
     (p, e) [0..<length (log_lines (lp_log p))]"

text \<open>Passes 2 and 4 remove lines from the last to the first.\<close>

fun purge :: "player_env \<Rightarrow> (log_line \<Rightarrow> bool) \<Rightarrow> nat \<Rightarrow> log_play \<Rightarrow> log_play res" where
  "purge env drop_it 0 p = Inr p"
| "purge env drop_it (Suc n) p =
     res_bind (of_ptr (LogPlay_logLine p (int n))) (\<lambda>l.
     res_bind (if drop_it l then remove_quiet env (int n) 1 True p else Inr p) (purge env drop_it n))"

text \<open>Pass 3 inserts the new events behind their predecessors of the new log.\<close>

fun refresh_pass3 :: "log_line option \<Rightarrow> log_line list \<Rightarrow> log_play \<Rightarrow> log_play res" where
  "refresh_pass3 prev [] p = Inr p"
| "refresh_pass3 prev (s # ss) p =
     res_bind
       (if log_pass s = 0
        then insert_quiet (case prev of None \<Rightarrow> 0 | Some q \<Rightarrow> RDLogEvent_lineById (lp_log p) (log_id q) + 1) s True p
        else res_bind (of_ptr (RDLogEvent_loglineById (lp_log p) (log_id s))) (\<lambda>_.
               Inr (p\<lparr>lp_log := inc_by_id (log_id s) (lp_log p)\<rparr>)))
       (refresh_pass3 (Some s) ss)"

text \<open>The ID of the running event before the next one, or of the last running event at the end of
  the log, and the ID of the next event.\<close>

definition refresh_ids :: "log_play \<Rightarrow> int \<times> int" where
  "refresh_ids p =
     (let next_id = (case LogPlay_nextEvent p of None \<Rightarrow> -1 | Some l \<Rightarrow> log_id l);
          lines = LogPlay_runningEvents True p;
          line_id = (\<lambda>i. case LogPlay_logLine p i of None \<Rightarrow> -1 | Some l \<Rightarrow> log_id l);
          current = (if lp_next_line p - 1 \<in> set lines then line_id (lp_next_line p - 1) else -1)
      in (if lines \<noteq> [] \<and> next_id = -1 then line_id (last lines) else current, next_id))"

definition restore_next :: "player_env \<Rightarrow> log_event \<Rightarrow> int \<Rightarrow> int \<Rightarrow> log_play \<Rightarrow> log_play res" where
  "restore_next env e current_id next_id p =
     (if current_id \<noteq> -1 \<and> RDLogEvent_loglineById e current_id \<noteq> None
      then (let k = RDLogEvent_lineById (lp_log p) current_id
            in if k \<ge> 0 then makeNext_quiet env (k + 1) p else Inr p)
      else (let k = RDLogEvent_lineById (lp_log p) next_id
            in if k \<ge> 0 then makeNext_quiet env k p else Inr p))"

definition LogPlay_refresh :: "player_env \<Rightarrow> database \<Rightarrow> log_play \<Rightarrow> log_play res" where
  "LogPlay_refresh env db p =
     (if lp_macro_running p then Inr (p\<lparr>lp_refresh_pending := True\<rparr>)
      else let p = emit (SigRefreshStatusChanged True) p
      in if LogPlay_size p = 0 \<or> \<not> lp_play_log p then Inr (emit (SigRefreshStatusChanged False) p)
      else let e = fst (RDLogEvent_load db False
                 \<lparr>log_name = log_name (lp_log p), log_service_name = '''', log_max_id = 0, log_lines = []\<rparr>);
               p = p\<lparr>lp_modified_datetime := li_modified_datetime (pv_log_info env)\<rparr>;
               (current_id, next_id) = refresh_ids p;
               (p, e) = refresh_pass1 p e
      in res_bind (purge env (\<lambda>l. log_pass l = 0) (length (log_lines (lp_log p))) p) (\<lambda>p.
         res_bind (refresh_pass3 None (log_lines e) p) (\<lambda>p.
         res_bind (purge env (\<lambda>l. log_status l = status.Finished \<and> log_pass l \<noteq> 2) (length (log_lines (lp_log p))) p) (\<lambda>p.
         res_bind (restore_next env e current_id next_id p) (\<lambda>p.
         let p = p\<lparr>lp_log := (lp_log p)\<lparr>log_lines := map (\<lambda>l. l\<lparr>log_pass := 0\<rparr>) (log_lines (lp_log p))\<rparr>\<rparr>
         in res_bind (reload_lines env False [0..LogPlay_size p - 1] p) (\<lambda>p.
            res_bind (UpdateStartTimes (if lp_play_log p then set_refreshable False p else p)) (\<lambda>p.
            res_bind (UpdatePostPoint env p) (\<lambda>p.
              let p = emit SigReloaded (emit SigTransportChanged (SetTransTimer env 0 True p));
                  p = (if \<not> lp_refreshable p then emit (SigRefreshabilityChanged False) p else p)
              in Inr (emit (SigRefreshStatusChanged False) p)))))))))"

definition RefreshEvents :: "player_env \<Rightarrow> database \<Rightarrow> int \<Rightarrow> int \<Rightarrow> bool \<Rightarrow> log_play \<Rightarrow> log_play res" where
  "RefreshEvents env db line line_quan force_update p =
     res_bind (reload_lines env force_update [line..line + line_quan - 1] p) (\<lambda>p.
       if \<not> lp_play_log p then Inr p
       else if \<not> log_outdated env p then Inr (set_refreshable False p)
       else if li_auto_refresh (pv_log_info env) then LogPlay_refresh env db p
       else Inr (set_refreshable True p))"

definition makeNext :: "player_env \<Rightarrow> database \<Rightarrow> int \<Rightarrow> log_play \<Rightarrow> log_play res" where
  "makeNext env db line p =
     res_bind (RefreshEvents env db line LOGPLAY_LOOKAHEAD_EVENTS False (p\<lparr>lp_next_line := line\<rparr>))
       (makeNext_tail env line)"

definition rescanEventsData :: "player_env \<Rightarrow> database \<Rightarrow> log_play \<Rightarrow> log_play res" where
  "rescanEventsData env db p =
     (let start_pos = lp_rescan_pos p
      in if start_pos + LOGPLAY_RESCAN_SIZE \<ge> LogPlay_size p
         then RefreshEvents env db start_pos (LogPlay_size p - start_pos) False (p\<lparr>lp_rescan_pos := 0\<rparr>)
         else RefreshEvents env db start_pos LOGPLAY_RESCAN_SIZE False
                (p\<lparr>lp_rescan_pos := lp_rescan_pos p + LOGPLAY_RESCAN_SIZE\<rparr>))"

section \<open>The edits of the user\<close>

definition announce :: "player_env \<Rightarrow> int \<Rightarrow> int \<Rightarrow> log_play \<Rightarrow> log_play res" where
  "announce env line mod_line p =
     res_bind (UpdateStartTimes p) (\<lambda>p.
     res_bind (UpdatePostPoint env (emit (SigInserted line) p)) (\<lambda>p.
       let p = (if mod_line \<ge> 0 then emit (SigModified mod_line) p else p)
       in UpdatePostPoint env (SetTransTimer env 0 True (emit SigTransportChanged p))))"

text \<open>Whether \<open>RefreshEvents\<close> would refresh the whole log. It deletes every scheduled line then, so a
  pointer to the line just inserted dangles after the \<open>makeNext\<close> of \<open>insert\<close>.\<close>

definition refreshes :: "player_env \<Rightarrow> log_play \<Rightarrow> bool" where
  "refreshes env p \<longleftrightarrow> lp_play_log p \<and> log_outdated env p \<and> li_auto_refresh (pv_log_info env) \<and> \<not> lp_macro_running p"

definition shift_next :: "player_env \<Rightarrow> database \<Rightarrow> int \<Rightarrow> log_play \<Rightarrow> log_play res" where
  "shift_next env db line p =
     (if lp_next_line p > line
      then if refreshes env p then Inl Dangling else makeNext env db (lp_next_line p + 1) p
      else Inr p)"

text \<open>\<open>insert(line,cartnum,next_type,type)\<close>: its \<open>type\<close> is not used.\<close>

definition LogPlay_insert_cart :: "player_env \<Rightarrow> database \<Rightarrow> int \<Rightarrow> int \<Rightarrow> log_play \<Rightarrow> log_play res" where
  "LogPlay_insert_cart env db line cartnum p =
     res_bind (open_line line False p) (\<lambda>(mod_line, ok, p).
       if \<not> ok then Inr p
       else res_bind (shift_next env db line p) (\<lambda>p.
         let p = no_next line p
         in res_bind (of_ptr (LogPlay_logLine p line)) (\<lambda>l.
            res_bind (RDLogLine_loadCart (pv_line env) cartnum (lp_id p) (lp_timescaling_available p)
              (pv_default_trans env) (-1) l) (\<lambda>l'.
              announce env line mod_line (scale_line line (put_line line (\<lambda>_. l') p))))))"

definition LogPlay_insert_line :: "player_env \<Rightarrow> database \<Rightarrow> int \<Rightarrow> log_line \<Rightarrow> bool \<Rightarrow> log_play \<Rightarrow> log_play res" where
  "LogPlay_insert_line env db line l preserve p =
     res_bind (open_line line preserve p) (\<lambda>(mod_line, ok, p).
       if \<not> ok then Inr p
       else let p = put_line line (\<lambda>_. l) p
            in res_bind (shift_next env db line p) (\<lambda>p.
                 announce env line mod_line (scale_line line (no_next line p))))"

definition LogPlay_remove :: "player_env \<Rightarrow> database \<Rightarrow> int \<Rightarrow> int \<Rightarrow> bool \<Rightarrow> log_play \<Rightarrow> log_play res" where
  "LogPlay_remove env db line num_lines preserve p =
     (if num_lines = 0 \<or> line < 0 \<or> line \<ge> LogPlay_size p then Inr p
      else res_bind (remove_core env line num_lines True preserve p) (\<lambda>(mod_line, p).
        res_bind (if lp_next_line p > line then makeNext env db (lp_next_line p - num_lines) p else Inr p) (\<lambda>p.
        res_bind (UpdateStartTimes p) (\<lambda>p.
          let p = (if LogPlay_size p = 0 then emit SigReloaded p else p);
              p = (if mod_line \<ge> 0 then emit (SigModified mod_line) p else p)
          in UpdatePostPoint env (SetTransTimer env 0 True (emit SigTransportChanged p))))))"

text \<open>\<open>move\<close>. The test \<open>to_line>to_line\<close> of the second reported line is never true.\<close>

definition moved_lines :: "int \<Rightarrow> int \<Rightarrow> log_play \<Rightarrow> (int \<times> int) res" where
  "moved_lines from_line to_line p =
     res_bind (if from_line < LogPlay_size p - 1
               then custom_at p (from_line + 1) (if from_line < to_line then from_line else from_line + 1)
               else Inr (-1)) (\<lambda>m0.
     res_bind (if to_line < LogPlay_size p then custom_at p to_line (to_line + 1) else Inr (-1)) (\<lambda>m1.
       Inr (m0, m1)))"

definition moved_next :: "player_env \<Rightarrow> database \<Rightarrow> int \<Rightarrow> int \<Rightarrow> int \<times> int \<Rightarrow> log_play \<Rightarrow> log_play res" where
  "moved_next env db from_line to_line m p =
     (let offset = (if to_line > from_line then 1 else 0);
          p = emit (SigInserted to_line) p;
          p = (if fst m \<ge> 0 then emit (SigModified (fst m)) p else p);
          p = (if snd m \<ge> 0 then emit (SigModified (snd m)) p else p)
      in if lp_next_line p > from_line \<and> lp_next_line p \<le> to_line + offset
         then makeNext env db (lp_next_line p - 1) p
         else if lp_next_line p < from_line \<and> lp_next_line p > to_line
         then makeNext env db (lp_next_line p + 1) p
         else Inr (emit SigTransportChanged p))"

definition LogPlay_move :: "player_env \<Rightarrow> database \<Rightarrow> int \<Rightarrow> int \<Rightarrow> log_play \<Rightarrow> log_play res" where
  "LogPlay_move env db from_line to_line p =
     res_bind (moved_lines from_line to_line p) (\<lambda>m.
     res_bind (renumber (move_id from_line to_line) the_deck
         (LogPlay_runningEvents False (emit (SigRemoved from_line 1 True) p)) (emit (SigRemoved from_line 1 True) p)) (\<lambda>p.
     res_bind (RDLogEvent_move (lp_log p) from_line to_line) (\<lambda>e.
     res_bind (UpdateStartTimes ((if macro_line p \<ge> 0
         then set_macro_line (move_id from_line to_line (macro_line p)) p else p)\<lparr>lp_log := e\<rparr>)) (\<lambda>p.
     res_bind (UpdatePostPoint env (SetTransTimer env 0 True p)) (moved_next env db from_line to_line m)))))"

definition LogPlay_copy :: "player_env \<Rightarrow> database \<Rightarrow> int \<Rightarrow> int \<Rightarrow> log_play \<Rightarrow> log_play res" where
  "LogPlay_copy env db from_line to_line p =
     (case LogPlay_logLine p from_line of
        None \<Rightarrow> Inr p | Some l \<Rightarrow> LogPlay_insert_cart env db to_line (int (log_cart_number l)) p)"

section \<open>Loading and clearing\<close>

text \<open>\<open>load\<close> removes the lines between the running ones first. The gap before the last running
  line is left out by the bound of the loop.\<close>

fun clear_gaps :: "player_env \<Rightarrow> int list \<Rightarrow> nat \<Rightarrow> log_play \<Rightarrow> log_play res" where
  "clear_gaps env lines 0 p = Inr p"
| "clear_gaps env lines (Suc i) p =
     res_bind (vec_get lines (int i)) (\<lambda>a. res_bind (vec_get lines (int i + 1)) (\<lambda>b.
       res_bind (remove_quiet env (a + 1) (b - a - 1) False p) (clear_gaps env lines i)))"

definition drop_idle :: "player_env \<Rightarrow> log_play \<Rightarrow> log_play res" where
  "drop_idle env p =
     (let lines = LogPlay_runningEvents True p; n = int (length lines)
      in if lines = [] then remove_quiet env 0 (LogPlay_size p) False p
         else res_bind (if last lines < LogPlay_size p - 1
                        then remove_quiet env (last lines + 1) (LogPlay_size p - last lines - 1) False p else Inr p) (\<lambda>p.
              res_bind (clear_gaps env lines (length lines - 2) p) (\<lambda>p.
                if hd lines \<noteq> 0 then remove_quiet env 0 (hd lines) False p else Inr p)))"

definition LogPlay_load :: "player_env \<Rightarrow> database \<Rightarrow> log_play \<Rightarrow> log_play res" where
  "LogPlay_load env db p =
     (let n = int (length (LogPlay_runningEvents True p));
          p = p\<lparr>lp_duck_volume_port1 := 0, lp_duck_volume_port2 := 0\<rparr>
      in res_bind (drop_idle env p) (\<lambda>p.
         let p = p\<lparr>lp_log := fst (RDLogEvent_load db False (lp_log p)), lp_rescan_pos := 0\<rparr>;
             p = (if lp_timescaling_available p
                  then p\<lparr>lp_log := (lp_log p)\<lparr>log_lines := map (\<lambda>l. l\<lparr>log_timescaling_active := log_enforce_length l\<rparr>)
                         (log_lines (lp_log p))\<rparr>\<rparr> else p)
         in res_bind (RefreshEvents env db 0 (LogPlay_size p) False p) (\<lambda>p.
            res_bind (UpdateStartTimes (p\<lparr>lp_svc_name := li_service (pv_log_info env), lp_line_counter := 0,
              lp_next_line := 0\<rparr>)) (\<lambda>p.
            res_bind (UpdatePostPoint env (emit SigTransportChanged (SetTransTimer env 0 True (emit SigReloaded p)))) (\<lambda>p.
            res_bind (if n > 0 \<and> LogPlay_size p > n then makeNext env db n p else Inr p) (\<lambda>p.
              Inr (set_refreshable False (p\<lparr>lp_play_log := True,
                lp_link_datetime := li_link_datetime (pv_log_info env),
                lp_modified_datetime := li_modified_datetime (pv_log_info env)\<rparr>))))))))"

text \<open>\<open>append\<close> to an empty log sets its name and loads it.\<close>

definition LogPlay_setLogName :: "string \<Rightarrow> log_play \<Rightarrow> log_play" where
  "LogPlay_setLogName name p = (if log_name (lp_log p) \<noteq> name
     then emit SigRenamed (p\<lparr>lp_log := (lp_log p)\<lparr>log_name := name\<rparr>\<rparr>) else p)"

definition LogPlay_append :: "player_env \<Rightarrow> database \<Rightarrow> string \<Rightarrow> log_play \<Rightarrow> log_play res" where
  "LogPlay_append env db table p =
     (if LogPlay_size p = 0 then LogPlay_load env db (LogPlay_setLogName table p)
      else let old = LogPlay_size p;
               p = p\<lparr>lp_log := fst (RDLogEvent_append db table False (lp_log p))\<rparr>;
               p = (if lp_timescaling_available p
                    then p\<lparr>lp_log := (lp_log p)\<lparr>log_lines := take (nat old) (log_lines (lp_log p))
                           @ map (\<lambda>l. l\<lparr>log_timescaling_active := log_enforce_length l\<rparr>)
                               (drop (nat old) (log_lines (lp_log p)))\<rparr>\<rparr> else p)
      in res_bind (RefreshEvents env db old (LogPlay_size p - old) False p) (\<lambda>p.
         res_bind (UpdateStartTimes p) (\<lambda>p.
           UpdatePostPoint env (emit SigTransportChanged (SetTransTimer env 0 True (emit SigReloaded p))))))"

text \<open>\<open>ClearBlock\<close> removes from a line to the first that is neither scheduled nor finished; \<open>clear\<close>
  calls it with a start one higher each time until it finds none. The rounds are bounded by
  \<open>size() + 1\<close>, enough as long as no refresh brings in lines (\<open>clear_keeps_running\<close>); \<open>None\<close> is the run
  that goes on.\<close>

definition keeps_block :: "log_line \<Rightarrow> bool" where
  "keeps_block l \<longleftrightarrow> log_status l \<noteq> Scheduled \<and> log_status l \<noteq> status.Finished"

definition ClearBlock :: "player_env \<Rightarrow> database \<Rightarrow> int \<Rightarrow> log_play \<Rightarrow> (bool \<times> log_play) res" where
  "ClearBlock env db start_line p =
     (case find (\<lambda>i. case LogPlay_logLine p i of None \<Rightarrow> False | Some l \<Rightarrow> keeps_block l)
              [start_line..LogPlay_size p - 1] of
        Some i \<Rightarrow> res_bind (LogPlay_remove env db start_line (i - start_line) False p) (\<lambda>p. Inr (True, p))
      | None \<Rightarrow> res_bind (LogPlay_remove env db start_line (LogPlay_size p - start_line) False p) (\<lambda>p. Inr (False, p)))"

fun clear_blocks :: "player_env \<Rightarrow> database \<Rightarrow> nat \<Rightarrow> int \<Rightarrow> log_play \<Rightarrow> log_play option res" where
  "clear_blocks env db 0 start_line p = Inr None"
| "clear_blocks env db (Suc n) start_line p =
     res_bind (ClearBlock env db start_line p) (\<lambda>(more, p).
       if more then clear_blocks env db n (start_line + 1) p else Inr (Some p))"

definition LogPlay_clear :: "player_env \<Rightarrow> database \<Rightarrow> log_play \<Rightarrow> log_play option res" where
  "LogPlay_clear env db p =
     (let p = (LogPlay_setLogName '''' p)\<lparr>lp_duck_volume_port1 := 0, lp_duck_volume_port2 := 0\<rparr>
      in res_bind (clear_blocks env db (nat (LogPlay_size p) + 1) 0 p) (\<lambda>r. case r of
           None \<Rightarrow> Inr None
         | Some p \<Rightarrow>
             let p = p\<lparr>lp_svc_name := lp_defaultsvc_name p, lp_rescan_pos := 0, lp_play_log := False\<rparr>
             in res_bind (UpdatePostPoint env (SetTransTimer env 0 True p)) (\<lambda>p.
                  Inr (Some (emit SigReloaded (set_refreshable False p))))))"

definition LogPlay_save :: "player_env \<Rightarrow> database \<Rightarrow> int \<Rightarrow> qdatetime \<Rightarrow> log_play \<Rightarrow> (database \<times> log_play) res" where
  "LogPlay_save env db line now p =
     res_bind (RDLogEvent_save db line (lp_log p)) (\<lambda>db.
       Inr (db, set_refreshable False (p\<lparr>lp_play_log := True, lp_modified_datetime := now\<rparr>)))"

section \<open>Decks and lines\<close>

text \<open>The deck a running line holds; the invariant says that each such deck carries the number of its
  line.\<close>

definition run_deck :: "status \<times> nat option \<Rightarrow> nat option" where
  "run_deck u = (if fst u \<in> {Playing, Finishing, Paused} then snd u else None)"

definition deck_ids_ok :: "log_play \<Rightarrow> bool" where
  "deck_ids_ok p \<longleftrightarrow> (\<forall>i<length (line_uses p). \<forall>k. run_deck (line_uses p ! i) = Some k
     \<longrightarrow> k < length (lp_deck p) \<and> play_id (lp_deck p ! k) = int i)"

definition few_running :: "log_play \<Rightarrow> bool" where
  "few_running p \<longleftrightarrow> length (running_lines True p) \<le> TRANSPORT_QUANTITY"

lemma edit_stable_line_use [simp]: "edit_stable line_use"
  using edit_stable_basic(4,8) by (simp add: edit_stable_def line_use_def)

lemma run_deck_line: "run_deck (line_use l) = (if running_status True l then log_play_deck l else None)"
  by (auto simp: run_deck_def line_use_def running_status_def)

lemma logLine_Some_iff:
  "LogPlay_logLine p i = Some l \<longleftrightarrow>
     (\<exists>j. i = int j \<and> j < length (log_lines (lp_log p)) \<and> l = log_lines (lp_log p) ! j)"
  by (cases i) (auto simp: LogPlay_logLine_def RDLogEvent_logLine_def)

lemma length_line_uses [simp]: "length (line_uses p) = length (log_lines (lp_log p))"
  by (simp add: line_uses_def)

lemma line_uses_nth: "j < length (log_lines (lp_log p)) \<Longrightarrow> line_uses p ! j = line_use (log_lines (lp_log p) ! j)"
  by (simp add: line_uses_def)

lemma set_runningEvents:
  "set (LogPlay_runningEvents b p) = set (take TRANSPORT_QUANTITY (running_lines b p))"
  "distinct (LogPlay_runningEvents b p)"
proof -
  have "distinct (running_lines b p)" by (simp add: running_lines_def distinct_map)
  then show "distinct (LogPlay_runningEvents b p)"
    by (simp add: LogPlay_runningEvents_def bubble_sort_is_sort_key collect_running_take running_lines_def
        TRANSPORT_QUANTITY_def distinct_take)
  show "set (LogPlay_runningEvents b p) = set (take TRANSPORT_QUANTITY (running_lines b p))"
    by (simp add: LogPlay_runningEvents_def bubble_sort_is_sort_key collect_running_take running_lines_def
        TRANSPORT_QUANTITY_def)
qed

lemma few_running_all: "few_running p \<Longrightarrow> set (LogPlay_runningEvents True p) =
    {int j | j. j < length (log_lines (lp_log p)) \<and> running_status True (log_lines (lp_log p) ! j)}"
  by (auto simp: set_runningEvents(1) few_running_def running_lines_def)

lemma few_running_short: "length (log_lines (lp_log p)) \<le> TRANSPORT_QUANTITY \<Longrightarrow> few_running p"
  unfolding few_running_def running_lines_def
  by (metis diff_zero le_trans length_filter_le length_map length_upt)

text \<open>The renumbering loop changes the ids of the decks it finds and nothing else.\<close>

lemma renumber_run:
  assumes "\<forall>i\<in>set xs. \<forall>l. LogPlay_logLine p i = Some l \<longrightarrow> sel l = Inr (h l)" "distinct xs"
    and "\<forall>i\<in>set xs. \<forall>j\<in>set xs. \<forall>l m k. LogPlay_logLine p i = Some l \<and> LogPlay_logLine p j = Some m
      \<and> h l = Some k \<and> h m = Some k \<longrightarrow> i = j"
  shows "\<exists>D. renumber f sel xs p = Inr (p\<lparr>lp_deck := D\<rparr>) \<and> length D = length (lp_deck p)
    \<and> (\<forall>k<length D. play_id (D ! k) =
         (if \<exists>i\<in>set xs. \<exists>l. LogPlay_logLine p i = Some l \<and> h l = Some k then f (play_id (lp_deck p ! k))
          else play_id (lp_deck p ! k)))"
  using assms
proof (induction xs arbitrary: p)
  case (Cons i xs)
  have upd: "LogPlay_logLine (p\<lparr>lp_deck := D\<rparr>) j = LogPlay_logLine p j" for D j
    by (simp add: LogPlay_logLine_def)
  show ?case
  proof (cases "\<exists>l k. LogPlay_logLine p i = Some l \<and> h l = Some k")
    case False
    have "renumber f sel (i # xs) p = renumber f sel xs p"
    proof (cases "LogPlay_logLine p i")
      case (Some l)
      then show ?thesis using False Cons.prems(1) by (cases "h l") auto
    qed simp
    moreover obtain D where "renumber f sel xs p = Inr (p\<lparr>lp_deck := D\<rparr>)" "length D = length (lp_deck p)"
      "\<forall>k<length D. play_id (D ! k) =
         (if \<exists>i\<in>set xs. \<exists>l. LogPlay_logLine p i = Some l \<and> h l = Some k then f (play_id (lp_deck p ! k))
          else play_id (lp_deck p ! k))"
      using Cons.IH [of p] Cons.prems by auto
    ultimately show ?thesis using False by (intro exI [of _ D]) auto
  next
    case True
    then obtain l k where l: "LogPlay_logLine p i = Some l" and k: "h l = Some k" by blast
    define D0 where "D0 = (lp_deck p)[k := RDPlayDeck_setId (f (play_id (lp_deck p ! k))) (lp_deck p ! k)]"
    have step: "renumber f sel (i # xs) p = renumber f sel xs (p\<lparr>lp_deck := D0\<rparr>)"
      using l k Cons.prems(1) by (simp add: put_deck_def D0_def)
    obtain D where D: "renumber f sel xs (p\<lparr>lp_deck := D0\<rparr>) = Inr (p\<lparr>lp_deck := D0\<rparr>\<lparr>lp_deck := D\<rparr>)"
      "length D = length D0" "\<forall>k<length D. play_id (D ! k) =
         (if \<exists>i\<in>set xs. \<exists>l. LogPlay_logLine p i = Some l \<and> h l = Some k then f (play_id (D0 ! k))
          else play_id (D0 ! k))"
      using Cons.IH [of "p\<lparr>lp_deck := D0\<rparr>", unfolded upd] Cons.prems by (auto cong: if_cong)
    have "\<not> (\<exists>j\<in>set xs. \<exists>m. LogPlay_logLine p j = Some m \<and> h m = Some k)"
      using Cons.prems(2,3) l k by (metis distinct.simps(2) list.set_intros)
    moreover have "play_id (D0 ! j) = (if j = k then f (play_id (lp_deck p ! k)) else play_id (lp_deck p ! j))"
      if "j < length D0" for j
      using that by (auto simp: D0_def nth_list_update RDPlayDeck_setId_def)
    moreover have "length D0 = length (lp_deck p)" by (simp add: D0_def)
    ultimately have "play_id (D ! j) = (if \<exists>i'\<in>set (i # xs). \<exists>l. LogPlay_logLine p i' = Some l \<and> h l = Some j
        then f (play_id (lp_deck p ! j)) else play_id (lp_deck p ! j))" if "j < length D" for j
      using D(2,3) l k that by auto
    then show ?thesis
      using D(1,2) step by (intro exI [of _ D]) (simp add: D0_def)
  qed
next
  case Nil
  show ?case by (intro exI [of _ "lp_deck p"]) simp
qed

lemma deck_ids_okD:
  "deck_ids_ok p \<Longrightarrow> i < length (line_uses p) \<Longrightarrow> run_deck (line_uses p ! i) = Some k
   \<Longrightarrow> k < length (lp_deck p) \<and> play_id (lp_deck p ! k) = int i"
  by (simp add: deck_ids_ok_def)

lemma deck_ids_ok_frame: "player_frame p' = player_frame p \<Longrightarrow> deck_ids_ok p' = deck_ids_ok p"
  by (simp add: deck_ids_ok_def player_frame_def)

lemma run_deck_fresh [simp]: "run_deck (line_use new_log_line) = None"
  by (simp add: run_deck_line running_status_def)

text \<open>Renumbering the decks of all the running lines.\<close>

lemma renumber_running:
  assumes "deck_ids_ok p" "few_running p"
  shows "\<exists>D. renumber f any_deck (LogPlay_runningEvents True p) p = Inr (p\<lparr>lp_deck := D\<rparr>)
    \<and> length D = length (lp_deck p)
    \<and> (\<forall>i<length (line_uses p). \<forall>k. run_deck (line_uses p ! i) = Some k \<longrightarrow> play_id (D ! k) = f (int i))"
proof -
  let ?is = "LogPlay_runningEvents True p"
  have ids: "k < length (lp_deck p) \<and> play_id (lp_deck p ! k) = i"
    if r: "i \<in> set ?is" "LogPlay_logLine p i = Some l" "log_play_deck l = Some k" for i l k
  proof -
    obtain j where "i = int j" "j < length (log_lines (lp_log p))" "running_status True (log_lines (lp_log p) ! j)"
      using r(1) unfolding few_running_all [OF assms(2)] by blast
    moreover from this have "l = log_lines (lp_log p) ! j" using r(2) by (simp add: logLine_Some_iff)
    ultimately show ?thesis using deck_ids_okD [OF assms(1), of j k] r(3) by (simp add: line_uses_nth run_deck_line)
  qed
  have unique: "\<forall>i\<in>set ?is. \<forall>j\<in>set ?is. \<forall>l m k. LogPlay_logLine p i = Some l \<and> LogPlay_logLine p j = Some m
      \<and> log_play_deck l = Some k \<and> log_play_deck m = Some k \<longrightarrow> i = j"
    using ids by blast
  obtain D where D: "renumber f any_deck ?is p = Inr (p\<lparr>lp_deck := D\<rparr>)" "length D = length (lp_deck p)"
    "\<forall>k<length D. play_id (D ! k) =
         (if \<exists>i\<in>set ?is. \<exists>l. LogPlay_logLine p i = Some l \<and> log_play_deck l = Some k
          then f (play_id (lp_deck p ! k)) else play_id (lp_deck p ! k))"
    using renumber_run [where sel = any_deck and h = log_play_deck and p = p and f = f and xs = ?is]
      set_runningEvents(2) unique by (auto simp: any_deck_def cong: if_cong)
  have "play_id (D ! k) = f (int i)" if "i < length (line_uses p)" "run_deck (line_uses p ! i) = Some k" for i k
  proof -
    let ?l = "log_lines (lp_log p) ! i"
    have r: "running_status True ?l" "log_play_deck ?l = Some k" "i < length (log_lines (lp_log p))"
      using that by (simp_all add: line_uses_nth run_deck_line split: if_splits)
    then have "int i \<in> set ?is" "LogPlay_logLine p (int i) = Some ?l"
      using few_running_all [OF assms(2)] by (auto simp: logLine_Some_iff)
    then show ?thesis using D(2,3) deck_ids_okD [OF assms(1) that] r(2) by auto
  qed
  with D show ?thesis by blast
qed

lemma list_ins_ids:
  assumes "deck_ids_ok p" "j \<le> length (line_uses p)" "run_deck u = None" "line_uses q = list_ins j u (line_uses p)"
    and "length (lp_deck q) = length (lp_deck p)"
    and "\<forall>i<length (line_uses p). \<forall>k. run_deck (line_uses p ! i) = Some k
          \<longrightarrow> play_id (lp_deck q ! k) = ins_id (int j) (int i)"
  shows "deck_ids_ok q"
  unfolding deck_ids_ok_def
proof (intro allI impI)
  fix i k assume i: "i < length (line_uses q)" "run_deck (line_uses q ! i) = Some k"
  have n: "line_uses q ! i = (if i < j then line_uses p ! i else if i = j then u else line_uses p ! (i - 1))"
    using i(1) assms(2,4) by (simp add: nth_list_ins)
  let ?i = "if i < j then i else i - 1"
  have "i \<noteq> j" using n i(2) assms(3) by auto
  then have "?i < length (line_uses p)" "run_deck (line_uses p ! ?i) = Some k"
    using n i assms(2,4) by (auto split: if_splits)
  moreover have "ins_id (int j) (int ?i) = int i" using \<open>i \<noteq> j\<close> by (auto simp: ins_id_def)
  ultimately show "k < length (lp_deck q) \<and> play_id (lp_deck q ! k) = int i"
    using assms(5,6) deck_ids_okD [OF assms(1)] by metis
qed

lemma cart_decks_map:
  "cart_decks p \<longleftrightarrow> set (map (holds_deck (length (lp_deck p))) (log_lines (lp_log p))) \<subseteq> {True}"
  by (auto simp: cart_decks_def)

lemma edit_stable_holds [simp]: "edit_stable (holds_deck n)"
  using edit_stable_basic(3,4,8) by (simp add: edit_stable_def holds_deck_def running_status_def)

lemma holds_fresh [simp]: "holds_deck n (new_log_line\<lparr>log_id := i\<rparr>)"
  by (simp add: holds_deck_def running_status_def new_log_line_def cleared_line_def)

definition shift_macro :: "log_play \<Rightarrow> int" where
  "shift_macro p = (if macro_line p \<ge> 0 then macro_line p + 1 else macro_line p)"

lemma open_line_ok:
  assumes "deck_ids_ok p" "few_running p" "j \<le> length (log_lines (lp_log p))"
  shows "\<exists>m p'. open_line (int j) preserve p = Inr (m, True, p')
    \<and> line_uses p' = list_ins j (line_use new_log_line) (line_uses p) \<and> deck_ids_ok p'
    \<and> (cart_decks p \<longrightarrow> cart_decks p') \<and> macro_line p' = shift_macro p \<and> lp_next_line p' = lp_next_line p
    \<and> lp_play_log p' = lp_play_log p \<and> lp_macro_running p' = lp_macro_running p
    \<and> lp_link_datetime p' = lp_link_datetime p \<and> lp_modified_datetime p' = lp_modified_datetime p"
proof -
  obtain D where D: "renumber (ins_id (int j)) any_deck (LogPlay_runningEvents True p) p = Inr (p\<lparr>lp_deck := D\<rparr>)"
    "length D = length (lp_deck p)" "\<forall>i<length (line_uses p). \<forall>k. run_deck (line_uses p ! i) = Some k
       \<longrightarrow> play_id (D ! k) = ins_id (int j) (int i)"
    using renumber_running [OF assms(1,2)] by blast
  define p2 where "p2 = (let q = p\<lparr>lp_deck := D\<rparr> in if macro_line q \<ge> 0 then set_macro_line (macro_line q + 1) q else q)"
  have p2: "lp_log p2 = lp_log p" "lp_deck p2 = D" "macro_line p2 = shift_macro p" "lp_next_line p2 = lp_next_line p"
    "lp_play_log p2 = lp_play_log p" "lp_macro_running p2 = lp_macro_running p"
    "lp_link_datetime p2 = lp_link_datetime p" "lp_modified_datetime p2 = lp_modified_datetime p"
    by (simp_all add: p2_def Let_def shift_macro_def macro_line_def set_macro_line_def)
  have "\<exists>m. (if int j < LogPlay_size p - 1 then custom_at p (int j) (int j + 1) else Inr (-1)) = Inr m"
    by (auto simp: custom_at_def LogPlay_size_def RDLogEvent_size_def LogPlay_logLine_def RDLogEvent_logLine_def)
  then obtain m where m: "(if int j < LogPlay_size p - 1 then custom_at p (int j) (int j + 1) else Inr (-1)) = Inr m"
    by blast
  obtain e where e: "RDLogEvent_insert (lp_log p2) (int j) 1 preserve = Inr e"
    "map line_use (log_lines e) = list_ins j (line_use new_log_line) (line_uses p)"
    using insert_ok [of j "lp_log p" line_use 1 preserve] assms(3) p2(1)
    by (auto simp: list_ins_def line_uses_def fresh_lines_def line_use_def)
  let ?p' = "p2\<lparr>lp_log := e\<rparr>"
  have u: "line_uses ?p' = list_ins j (line_use new_log_line) (line_uses p)" using e(2) by (simp add: line_uses_def)
  have "length (log_lines e) = Suc (length (log_lines (lp_log p)))"
    using arg_cong [OF e(2), of length] by simp
  then have "LogPlay_logLine ?p' (int j) \<noteq> None" using assms(3) by (simp add: LogPlay_logLine_def RDLogEvent_logLine_def)
  then have "open_line (int j) preserve p = Inr (m, True, ?p')"
    using e(1) by (simp add: open_line_def D(1) m Let_def flip: p2_def [unfolded Let_def])
  moreover have "deck_ids_ok ?p'"
    by (rule list_ins_ids [OF assms(1) _ _ u]) (use D(2,3) assms(3) p2(2) in auto)
  moreover have "cart_decks ?p'" if c: "cart_decks p"
  proof -
    have "map (holds_deck (length D)) (log_lines e) = list_ins j True (map (holds_deck (length D)) (log_lines (lp_log p)))"
      using insert_ok [of j "lp_log p" "holds_deck (length D)" 1 preserve] assms(3) e(1) p2(1)
      by (auto simp: fresh_lines_def list_ins_def)
    then show ?thesis using c D(2) p2(2) by (simp add: cart_decks_map vec_simps del: set_map)
  qed
  ultimately show ?thesis using u p2 by (intro exI [of _ m] exI [of _ ?p'] conjI) (simp_all add: macro_line_def)
qed

lemma refreshes_frame: "player_frame p' = player_frame p \<Longrightarrow> refreshes env p' = refreshes env p"
  by (simp add: refreshes_def log_outdated_def player_frame_def)

lemma refresh_waits: "lp_macro_running p \<Longrightarrow> LogPlay_refresh env db p = Inr (p\<lparr>lp_refresh_pending := True\<rparr>)"
  by (simp add: LogPlay_refresh_def)

lemma frame_RefreshEvents:
  assumes "RefreshEvents env db line n b p = Inr p'" "\<not> refreshes env p"
  shows "player_frame p' = player_frame p"
proof -
  obtain q where q: "reload_lines env b [line..line + n - 1] p = Inr q"
    and r: "(if \<not> lp_play_log q then Inr q
       else if \<not> log_outdated env q then Inr (set_refreshable False q)
       else if li_auto_refresh (pv_log_info env) then LogPlay_refresh env db q
       else Inr (set_refreshable True q)) = Inr p'"
    using assms(1) by (auto simp: RefreshEvents_def)
  note fq = frame_reload_lines [OF q]
  have "\<not> refreshes env q" using assms(2) refreshes_frame [OF fq] by blast
  then have "player_frame p' = player_frame q"
    using r by (auto simp: refreshes_def refresh_waits split: if_splits)
  with fq show ?thesis by simp
qed

lemma frame_makeNext_tail: "makeNext_tail env line p = Inr p' \<Longrightarrow> player_frame p' = player_frame p"
  by (auto simp: makeNext_tail_def dest: frame_UpdatePostPoint)

lemma frame_makeNext:
  assumes "makeNext env db line p = Inr p'" "\<not> refreshes env p"
  shows "player_frame p' = player_frame p"
proof -
  obtain q where q: "RefreshEvents env db line LOGPLAY_LOOKAHEAD_EVENTS False (p\<lparr>lp_next_line := line\<rparr>) = Inr q"
    "makeNext_tail env line q = Inr p'"
    using assms(1) by (auto simp: makeNext_def)
  have "\<not> refreshes env (p\<lparr>lp_next_line := line\<rparr>)"
    using assms(2) refreshes_frame [OF frame_simple(1)] by blast
  from frame_RefreshEvents [OF q(1) this] frame_makeNext_tail [OF q(2)] show ?thesis by simp
qed

lemma frame_shift_next: "shift_next env db line p = Inr p' \<Longrightarrow> player_frame p' = player_frame p"
  by (auto simp: shift_next_def dest: frame_makeNext split: if_splits)

lemma frame_no_next [simp]: "player_frame (no_next line p) = player_frame p"
  by (simp add: no_next_def)

lemma frame_scale_line [simp]: "player_frame (scale_line line p) = player_frame p"
  unfolding scale_line_def by (rule frame_put_line) (simp add: line_use_def)

lemma frame_announce: "announce env line m p = Inr p' \<Longrightarrow> player_frame p' = player_frame p"
  by (auto simp: announce_def Let_def dest!: frame_UpdatePostPoint frame_UpdateStartTimes split: if_splits)

lemma frame_uses: "player_frame p' = player_frame p \<Longrightarrow> line_uses p' = line_uses p"
  by (simp add: player_frame_def)

lemma list_ins_update: "j \<le> length xs \<Longrightarrow> (list_ins j x xs)[j := y] = list_ins j y xs"
  by (simp add: list_ins_def list_update_append)

lemma put_new_line:
  assumes "line_uses p = list_ins j (line_use new_log_line) us" "j \<le> length us" "deck_ids_ok p"
    and "log_status l = Scheduled"
  shows "line_uses (put_line (int j) (\<lambda>_. l) p) = list_ins j (line_use l) us"
    and "deck_ids_ok (put_line (int j) (\<lambda>_. l) p)"
proof -
  have 1: "line_uses (put_line (int j) (\<lambda>_. l) p) = (line_uses p)[j := line_use l]"
    by (simp add: line_uses_def put_line_def map_update)
  then show "line_uses (put_line (int j) (\<lambda>_. l) p) = list_ins j (line_use l) us"
    using assms(1,2) by (simp add: list_ins_update)
  have "run_deck (line_use l) = None" using assms(4) by (simp add: run_deck_def line_use_def)
  moreover have "lp_deck (put_line (int j) (\<lambda>_. l) p) = lp_deck p" by (simp add: put_line_def)
  ultimately show "deck_ids_ok (put_line (int j) (\<lambda>_. l) p)"
    using deck_ids_okD [OF assms(3)] unfolding deck_ids_ok_def 1
    by (cases "j < length (line_uses p)") (auto simp: nth_list_update split: if_splits)
qed

section \<open>The edits cannot fail\<close>

lemma cart_decks_emit [simp]: "cart_decks (emit x p) = cart_decks p" "cart_decks (SetTransTimer env t b p) = cart_decks p"
  "cart_decks (p\<lparr>lp_next_line := n\<rparr>) = cart_decks p" "cart_decks (set_refreshable b p) = cart_decks p"
  "cart_decks (no_next i p) = cart_decks p" "cart_decks (p\<lparr>lp_refresh_pending := b\<rparr>) = cart_decks p"
  by (simp_all add: cart_decks_def emit_def SetTransTimer_def Let_def set_refreshable_def no_next_def split: prod.split)

lemma UpdatePostPoint_decks: "cart_decks p \<Longrightarrow> \<exists>p'. UpdatePostPoint env p = Inr p' \<and> cart_decks p'"
  using UpdatePostPoint_total [of env p] cart_decks_same by blast

lemma RefreshEvents_total:
  assumes "carts_load (pv_line env)" "cart_decks p" "\<not> refreshes env p"
  shows "\<exists>p'. RefreshEvents env db line n b p = Inr p' \<and> cart_decks p'"
proof -
  obtain q where q: "reload_lines env b [line..line + n - 1] p = Inr q" "cart_decks q"
    using reload_lines_total [OF assms(1,2)] by blast
  have "\<not> refreshes env q" using assms(3) refreshes_frame [OF frame_reload_lines [OF q(1)]] by blast
  then have "LogPlay_refresh env db q = Inr (q\<lparr>lp_refresh_pending := True\<rparr>)"
    if "lp_play_log q" "log_outdated env q" "li_auto_refresh (pv_log_info env)"
    using that refresh_waits by (auto simp: refreshes_def)
  with q show ?thesis by (simp add: RefreshEvents_def)
qed

lemma makeNext_total:
  assumes "carts_load (pv_line env)" "cart_decks p" "\<not> refreshes env p"
  shows "\<exists>p'. makeNext env db line p = Inr p' \<and> cart_decks p'"
proof -
  have "\<not> refreshes env (p\<lparr>lp_next_line := line\<rparr>)"
    using assms(3) refreshes_frame [OF frame_simple(1)] by blast
  moreover have "cart_decks (p\<lparr>lp_next_line := line\<rparr>)" using assms(2) by simp
  ultimately obtain q where q: "RefreshEvents env db line LOGPLAY_LOOKAHEAD_EVENTS False (p\<lparr>lp_next_line := line\<rparr>) = Inr q"
    "cart_decks q" using RefreshEvents_total [OF assms(1)] by blast
  obtain r where "UpdatePostPoint env (SetTransTimer env 0 True (emit OutNowNext q)) = Inr r" "cart_decks r"
    using UpdatePostPoint_decks [of "SetTransTimer env 0 True (emit OutNowNext q)"] q(2) by auto
  with q show ?thesis by (simp add: makeNext_def makeNext_tail_def)
qed

lemma announce_total: "cart_decks p \<Longrightarrow> \<exists>p'. announce env line m p = Inr p' \<and> cart_decks p'"
proof -
  assume "cart_decks p"
  then obtain q where q: "UpdateStartTimes p = Inr q" "cart_decks q" using UpdateStartTimes_total by blast
  then obtain r where r: "UpdatePostPoint env (emit (SigInserted line) q) = Inr r" "cart_decks r"
    using UpdatePostPoint_decks [of "emit (SigInserted line) q"] by auto
  let ?t = "SetTransTimer env 0 True (emit SigTransportChanged (if m \<ge> 0 then emit (SigModified m) r else r))"
  have "cart_decks ?t" using r(2) by simp
  then obtain t where "UpdatePostPoint env ?t = Inr t" "cart_decks t" using UpdatePostPoint_decks by blast
  with q r show ?thesis by (simp add: announce_def Let_def)
qed

section \<open>Inserting keeps the decks with their lines\<close>

lemma macro_line_simps [simp]: "macro_line (put_line i f p) = macro_line p" "macro_line (no_next n p) = macro_line p"
  "macro_line (scale_line i p) = macro_line p"
  by (simp_all add: macro_line_def put_line_def no_next_def scale_line_def)

lemma macro_line_frame: "player_frame p' = player_frame p \<Longrightarrow> macro_line p' = macro_line p"
  by (simp add: player_frame_def macro_line_def)

lemma insert_quiet_ok:
  assumes "deck_ids_ok p" "few_running p" "j \<le> length (log_lines (lp_log p))" "log_status l = Scheduled"
  shows "\<exists>p'. insert_quiet (int j) l preserve p = Inr p'
    \<and> line_uses p' = list_ins j (line_use l) (line_uses p) \<and> deck_ids_ok p' \<and> macro_line p' = shift_macro p"
proof -
  obtain m p1 where 1: "open_line (int j) preserve p = Inr (m, True, p1)"
    "line_uses p1 = list_ins j (line_use new_log_line) (line_uses p)" "deck_ids_ok p1" "macro_line p1 = shift_macro p"
    using open_line_ok [OF assms(1-3)] by blast
  let ?p2 = "put_line (int j) (\<lambda>_. l) p1"
  let ?p3 = "scale_line (int j) (no_next (int j) ?p2)"
  have f: "player_frame ?p3 = player_frame ?p2" by simp
  have "insert_quiet (int j) l preserve p = Inr ?p3" using 1(1) by (simp add: insert_quiet_def)
  moreover have "line_uses ?p3 = list_ins j (line_use l) (line_uses p)" "deck_ids_ok ?p3"
    using put_new_line [OF 1(2) _ 1(3) assms(4)] assms(3) frame_uses [OF f] deck_ids_ok_frame [OF f] by auto
  ultimately show ?thesis using 1(4) by (intro exI [of _ ?p3]) simp
qed

lemma insert_line_ok:
  assumes "deck_ids_ok p" "few_running p" "j \<le> length (log_lines (lp_log p))" "log_status l = Scheduled"
    and "carts_load (pv_line env)" "cart_decks p" "\<not> refreshes env p"
  shows "\<exists>p'. LogPlay_insert_line env db (int j) l preserve p = Inr p'
    \<and> line_uses p' = list_ins j (line_use l) (line_uses p) \<and> deck_ids_ok p' \<and> cart_decks p'"
proof -
  obtain m p1 where 1: "open_line (int j) preserve p = Inr (m, True, p1)"
    "line_uses p1 = list_ins j (line_use new_log_line) (line_uses p)" "deck_ids_ok p1" "cart_decks p1"
    "refreshes env p1 = refreshes env p"
    using open_line_ok [OF assms(1-3), of preserve] assms(6) by (auto simp: refreshes_def log_outdated_def)
  let ?p2 = "put_line (int j) (\<lambda>_. l) p1"
  have 2: "cart_decks ?p2" using assms(4) 1(4)
    by (intro cart_decks_put_line) (auto simp: holds_deck_def running_status_def)
  have n2: "\<not> refreshes env ?p2" using 1(5) assms(7) by (simp add: refreshes_def log_outdated_def put_line_def)
  have "\<exists>p3. shift_next env db (int j) ?p2 = Inr p3 \<and> cart_decks p3"
    using makeNext_total [OF assms(5) 2 n2, of db "lp_next_line ?p2 + 1"] 2 n2 by (auto simp: shift_next_def)
  then obtain p3 where 3: "shift_next env db (int j) ?p2 = Inr p3" "cart_decks p3" by blast
  let ?p4 = "scale_line (int j) (no_next (int j) p3)"
  have "cart_decks ?p4" unfolding scale_line_def
    by (intro cart_decks_put_line) (use 3(2) in \<open>auto simp: holds_deck_def running_status_def\<close>)
  then obtain p' where 4: "announce env (int j) m ?p4 = Inr p'" "cart_decks p'" using announce_total by blast
  have f: "player_frame p' = player_frame ?p2"
    using frame_announce [OF 4(1)] frame_shift_next [OF 3(1)] by simp
  have "LogPlay_insert_line env db (int j) l preserve p = Inr p'"
    using 1(1) 3(1) 4(1) by (simp add: LogPlay_insert_line_def)
  then show ?thesis
    using put_new_line [OF 1(2) _ 1(3) assms(4)] assms(3) frame_uses [OF f] deck_ids_ok_frame [OF f] 4(2) by auto
qed

text \<open>C10: In a log in which each running deck carries the number of its line, at most seven lines run (the code
  renumbers no more), each running cart line holds a deck, no newer version of the log waits for an automatic
  refresh and loading a cart never faults, inserting a scheduled line anywhere succeeds, opens exactly one
  place in the log and leaves every running deck with the number its line has now, whether the insertion is the
  user's, which also moves the next line and refreshes the lookahead, or the silent one of a refresh. The line of
  the macro deck is not among these (\<open>insert_misplaces_macro\<close>).\<close>

theorem insert_keeps_decks:
  assumes "deck_ids_ok p" "few_running p" "j \<le> length (log_lines (lp_log p))" "log_status l = Scheduled"
    and "carts_load (pv_line env)" "cart_decks p" "\<not> refreshes env p"
  shows "(\<exists>p'. LogPlay_insert_line env db (int j) l preserve p = Inr p'
           \<and> line_uses p' = list_ins j (line_use l) (line_uses p) \<and> deck_ids_ok p' \<and> cart_decks p')
    \<and> (\<exists>p'. insert_quiet (int j) l preserve p = Inr p'
           \<and> line_uses p' = list_ins j (line_use l) (line_uses p) \<and> deck_ids_ok p')"
  using insert_quiet_ok [OF assms(1-4)] insert_line_ok [OF assms] by blast

definition on_air_line :: "line_type \<Rightarrow> nat option \<Rightarrow> log_line" where
  "on_air_line t k = new_log_line\<lparr>log_type := t, log_status := Playing, log_play_deck := k\<rparr>"

definition on_air_player :: "log_line list \<Rightarrow> int list \<Rightarrow> log_play" where
  "on_air_player ls ns = (demo_player ls)\<lparr>lp_deck := map (\<lambda>i. RDPlayDeck_setId i (RDPlayDeck_new 0 raw_deck)) ns\<rparr>"

lemma on_air_uses [simp]: "line_uses (on_air_player ls ns) = map line_use ls"
  "lp_deck (on_air_player ls ns) = map (\<lambda>i. RDPlayDeck_setId i (RDPlayDeck_new 0 raw_deck)) ns"
  "log_lines (lp_log (on_air_player ls ns)) = ls"
  by (simp_all add: on_air_player_def line_uses_def demo_player_def)

lemma new_line_status [simp]: "log_status new_log_line = Scheduled" "log_play_deck new_log_line = None"
  "line_use new_log_line = (Scheduled, None)"
  by (simp_all add: line_use_def new_log_line_def cleared_line_def)

lemma play_id_setId [simp]: "play_id (RDPlayDeck_setId i d) = i"
  by (simp add: RDPlayDeck_setId_def)

definition quiet_env :: player_env where
  "quiet_env = \<lparr>pv_now = 1000, pv_time_offset = 0, pv_line = one_cart_env, pv_deck = undefined,
     pv_port_active = (\<lambda>_ _ _. False),
     pv_log_info = \<lparr>li_exists = False, li_service = '''', li_link_datetime = 0, li_modified_datetime = 0,
       li_auto_refresh = False\<rparr>, pv_default_trans = Play,
     pv_today = 0, pv_exec = no_hosts\<rparr>"

lemma quiet_env_ok: "carts_load (pv_line quiet_env)" "\<not> refreshes quiet_env p"
  by (rule audio_carts_load)
    (simp_all add: quiet_env_def one_cart_env_def refreshes_def log_outdated_def)

theorem insert_keeps_decks_witness:
  "\<exists>p'. LogPlay_insert_line quiet_env undefined 1 new_log_line False
         (on_air_player [on_air_line Cart (Some 0), on_air_line Cart (Some 1)] [0, 1]) = Inr p'
     \<and> deck_ids_ok p' \<and> map (Option.is_none \<circ> run_deck) (line_uses p') = [False, True, False]"
proof -
  let ?p = "on_air_player [on_air_line Cart (Some 0), on_air_line Cart (Some 1)] [0, 1]"
  have "deck_ids_ok ?p"
    by (auto simp: deck_ids_ok_def less_Suc_eq on_air_line_def run_deck_def line_use_def)
  moreover have "few_running ?p" by (rule few_running_short) (simp add: TRANSPORT_QUANTITY_def)
  moreover have "cart_decks ?p" by (auto simp: cart_decks_def holds_deck_def on_air_line_def)
  ultimately show ?thesis
    using insert_keeps_decks [of ?p 1 new_log_line quiet_env undefined False] quiet_env_ok
    by (auto simp: list_ins_def on_air_line_def run_deck_def line_use_def)
qed

text \<open>Every insertion moves the running macro cart one line down, even when the new line is behind it:
  the number the macro deck carries no longer names the line that runs.\<close>

theorem insert_misplaces_macro:
  assumes "deck_ids_ok p" "few_running p" "j \<le> length (log_lines (lp_log p))" "log_status l = Scheduled"
    and "0 \<le> macro_line p" "macro_line p < int j"
  shows "\<exists>p'. insert_quiet (int j) l preserve p = Inr p' \<and> macro_line p' = macro_line p + 1
    \<and> line_uses p' ! nat (macro_line p) = line_uses p ! nat (macro_line p)"
proof -
  obtain p' where p': "insert_quiet (int j) l preserve p = Inr p'"
    "line_uses p' = list_ins j (line_use l) (line_uses p)" "macro_line p' = shift_macro p"
    using insert_quiet_ok [OF assms(1-4)] by blast
  have "line_uses p' ! nat (macro_line p) = line_uses p ! nat (macro_line p)"
    using p'(2) assms(3,5,6) by (simp add: nth_list_ins)
  with p' show ?thesis using assms(5) by (auto simp: shift_macro_def)
qed

theorem insert_misplaces_macro_witness:
  "\<exists>p'. insert_quiet 2 new_log_line False
      (set_macro_line 0 (on_air_player [on_air_line Macro None, new_log_line] [])) = Inr p' \<and> macro_line p' = 1"
proof -
  let ?p = "set_macro_line 0 (on_air_player [on_air_line Macro None, new_log_line] [])"
  have u: "line_uses ?p = [(Playing, None), (Scheduled, None)]" "length (log_lines (lp_log ?p)) = 2" "macro_line ?p = 0"
    by (simp_all add: set_macro_line_def line_uses_def on_air_player_def demo_player_def on_air_line_def
        line_use_def macro_line_def)
  have "deck_ids_ok ?p" unfolding deck_ids_ok_def u by (auto simp: less_Suc_eq run_deck_def)
  moreover have "few_running ?p"
    using u(2) by (simp add: few_running_short TRANSPORT_QUANTITY_def)
  ultimately show ?thesis
    using insert_misplaces_macro [of ?p 2 new_log_line False] u by auto
qed

section \<open>Moving lines\<close>

lemma renumber_null:
  "i \<in> set xs \<Longrightarrow> LogPlay_logLine p i = Some l \<Longrightarrow> log_play_deck l = None
   \<Longrightarrow> renumber f the_deck xs p = Inl NullDeref"
proof (induction xs arbitrary: p)
  case (Cons a xs)
  have upd: "LogPlay_logLine (put_deck k r p) j = LogPlay_logLine p j" for k r j
    by (simp add: LogPlay_logLine_def put_deck_def)
  consider "a = i" | "i \<in> set xs" "a \<noteq> i" using Cons.prems(1) by auto
  then show ?case
  proof cases
    case 1
    then show ?thesis using Cons.prems(2,3) by (simp add: the_deck_def)
  next
    case 2
    show ?thesis
    proof (cases "LogPlay_logLine p a")
      case (Some m)
      then show ?thesis
        using Cons.IH [OF 2(1)] Cons.prems(2,3) upd by (cases "log_play_deck m") (simp_all add: the_deck_def)
    qed (use Cons.IH [OF 2(1) Cons.prems(2,3)] in simp)
  qed
qed simp

lemma moved_lines_fault: "moved_lines from to p = Inl e \<Longrightarrow> e = NullDeref"
  by (auto simp: moved_lines_def custom_at_def res_bind_def of_ptr_def split: if_splits sum.splits option.splits)

text \<open>C36: \<open>move()\<close> renumbers the decks of the running lines without asking whether a line has one: while a
  macro cart, or any running line without a deck, is among the first seven running lines, every move
  dereferences a null pointer, whatever lines it is to move.\<close>

theorem move_faults_on_macro:
  assumes "j < length (log_lines (lp_log p))" "log_status (log_lines (lp_log p) ! j) \<in> {Playing, Finishing}"
    and "log_play_deck (log_lines (lp_log p) ! j) = None" "length (running_lines False p) \<le> TRANSPORT_QUANTITY"
  shows "LogPlay_move env db from_line to_line p = Inl NullDeref"
proof -
  let ?p = "emit (SigRemoved from_line 1 True) p"
  have r: "set (LogPlay_runningEvents False ?p) = set (running_lines False p)"
    using assms(4) by (simp add: set_runningEvents(1) running_lines_def)
  have "renumber (move_id from_line to_line) the_deck (LogPlay_runningEvents False ?p) ?p = Inl NullDeref"
  proof (rule renumber_null)
    show "int j \<in> set (LogPlay_runningEvents False ?p)"
      unfolding r using assms(1,2) by (auto simp: running_lines_def running_status_def)
    show "LogPlay_logLine ?p (int j) = Some (log_lines (lp_log p) ! j)"
      using assms(1) by (simp add: logLine_Some_iff)
  qed (fact assms(3))
  then show ?thesis
    using moved_lines_fault [of from_line to_line p]
    by (cases "moved_lines from_line to_line p") (auto simp: LogPlay_move_def Let_def)
qed

theorem move_faults_on_macro_witness:
  "LogPlay_move undefined undefined 1 2 (demo_player [on_air_line Macro None, new_log_line, new_log_line]) = Inl NullDeref"
  by (rule move_faults_on_macro [of 0])
    (simp_all add: demo_player_def on_air_line_def running_lines_def running_status_def upt_rec TRANSPORT_QUANTITY_def)

definition line_kind :: "log_line \<Rightarrow> line_type \<times> status \<times> nat option" where
  "line_kind l = (log_type l, log_status l, log_play_deck l)"

definition event_kinds :: "log_event \<Rightarrow> (line_type \<times> status \<times> nat option) list" where
  "event_kinds e = map line_kind (log_lines e)"

lemma length_event_kinds [simp]: "length (event_kinds e) = length (log_lines e)"
  by (simp add: event_kinds_def)

lemma edit_stable_kind [simp]: "edit_stable line_kind"
  using edit_stable_basic(3,4,8) by (simp add: edit_stable_def line_kind_def)

text \<open>The list of log events is a sequence editor for the type, the status and the deck of its lines.\<close>

interpretation log_uses: seq_editor "\<lambda>_. True" event_kinds
  "\<lambda>e i. RDLogEvent_insert e i 1 False" copy_line "\<lambda>e i. RDLogEvent_remove e i 1 False"
proof (unfold_locales, goal_cases)
  case (1 s i)
  then obtain s' where "RDLogEvent_insert s (int i) (int 1) False = Inr s'"
      "map line_kind (log_lines s') = take i (map line_kind (log_lines s))
         @ map line_kind (fresh_lines (log_max_id s) 1) @ drop i (map line_kind (log_lines s))"
    using insert_ok [OF _ edit_stable_kind, of i s 1 False] by auto
  then have "RDLogEvent_insert s (int i) 1 False = Inr s'
      \<and> event_kinds s' = list_ins i (line_kind (hd (fresh_lines (log_max_id s) 1))) (event_kinds s)"
    by (simp add: event_kinds_def list_ins_def fresh_lines_def)
  then show ?case by blast
next
  case (2 i s j)
  have "line_kind (RDLogLine_clearTrackData AllTrans l) = line_kind l" for l
    using edit_stable_kind unfolding edit_stable_def by blast
  with 2 show ?case by (simp add: copy_line_def event_kinds_def map_update)
next
  case (3 i s)
  then show ?case
    using remove_ok [OF _ edit_stable_kind, of i 1 s False] by (auto simp: event_kinds_def)
qed

lemma move_up_kinds:
  assumes "to < from" "from < length (log_lines e)"
  shows "\<exists>e'. RDLogEvent_move e (int from) (int to) = Inr e' \<and> event_kinds e' = list_move from to (event_kinds e)"
proof -
  obtain s1 s2 where
      "RDLogEvent_insert e (int to) 1 False = Inr s1"
      "RDLogEvent_remove (copy_line s1 to (from + 1)) (int from + 1) 1 False = Inr s2"
      "length (log_lines s1) = Suc (length (log_lines e))"
      "event_kinds s2 = list_move from to (event_kinds e)"
    using log_uses.move_backward [where s = e and j = to and i = "from"] assms by auto
  with assms show ?thesis
    by (simp add: RDLogEvent_move_def Let_def RDLogEvent_size_def RDLogEvent_logLine_def
        copy_line_def nat_add_distrib)
qed

lemma line_uses_kinds: "line_uses p = map snd (event_kinds (lp_log p))"
  by (simp add: line_uses_def event_kinds_def line_kind_def line_use_def)

lemma cart_decks_kinds:
  "cart_decks p \<longleftrightarrow> (\<forall>(t, s, d)\<in>set (event_kinds (lp_log p)).
     t = Cart \<and> s \<in> {Playing, Finishing, Paused} \<longrightarrow> (\<exists>k<length (lp_deck p). d = Some k))"
  by (auto simp: cart_decks_def event_kinds_def line_kind_def holds_deck_def running_status_def)

lemma set_list_move: "i < length xs \<Longrightarrow> set (list_move i j xs) = set xs"
  using mset_list_move [of i xs j] mset_eq_setD by blast

lemma map_list_move: "i < length xs \<Longrightarrow> map f (list_move i j xs) = list_move i j (map f xs)"
  by (simp add: list_move_def map_list_ins map_list_del)

definition after_move :: "int \<Rightarrow> int \<Rightarrow> log_event \<Rightarrow> log_play \<Rightarrow> log_play" where
  "after_move from_line to_line e p =
     (if macro_line p \<ge> 0 then set_macro_line (move_id from_line to_line (macro_line p)) p else p)\<lparr>lp_log := e\<rparr>"

lemma after_move_sel [simp]: "lp_log (after_move i j e p) = e" "lp_deck (after_move i j e p) = lp_deck p"
  "refreshes env (after_move i j e p) = refreshes env p"
  by (simp_all add: after_move_def set_macro_line_def refreshes_def log_outdated_def)

lemma moved_next_total:
  assumes "carts_load (pv_line env)" "cart_decks p" "\<not> refreshes env p"
  shows "\<exists>p'. moved_next env db i j m p = Inr p' \<and> player_frame p' = player_frame p"
proof -
  define q where "q = (if fst m \<ge> 0 then emit (SigModified (fst m)) (emit (SigInserted j) p) else emit (SigInserted j) p)"
  define t where "t = (if snd m \<ge> 0 then emit (SigModified (snd m)) q else q)"
  have t: "player_frame t = player_frame p" "cart_decks t" using assms(2) by (simp_all add: t_def q_def)
  then have n: "\<not> refreshes env t" using assms(3) refreshes_frame by blast
  have "\<exists>p'. makeNext env db n t = Inr p' \<and> player_frame p' = player_frame p" for n
    using makeNext_total [OF assms(1) t(2) n] frame_makeNext [OF _ n] t(1) by metis
  then show ?thesis
    unfolding moved_next_def Let_def q_def [symmetric] t_def [symmetric] using t(1) by simp
qed

lemma moved_lines_total:
  "0 \<le> i \<Longrightarrow> 0 \<le> j \<Longrightarrow> \<exists>m. moved_lines i j p = Inr m"
  using logLine_in_log [of "i + 1" p] logLine_in_log [of j p] by (auto simp: moved_lines_def custom_at_def)

definition playing_decks :: "log_play \<Rightarrow> bool" where
  "playing_decks p \<longleftrightarrow> (\<forall>l\<in>set (log_lines (lp_log p)). running_status False l \<longrightarrow> log_play_deck l \<noteq> None)"

lemma renumber_playing:
  assumes "deck_ids_ok p" "playing_decks p"
  shows "\<exists>D. renumber f the_deck (LogPlay_runningEvents False p) p = Inr (p\<lparr>lp_deck := D\<rparr>)
    \<and> length D = length (lp_deck p)
    \<and> (\<forall>k<length D. play_id (D ! k) \<in> {play_id (lp_deck p ! k), f (play_id (lp_deck p ! k))})"
proof -
  let ?xs = "LogPlay_runningEvents False p"
  have run: "\<exists>k. log_play_deck l = Some k \<and> play_id (lp_deck p ! k) = i"
    if r: "i \<in> set ?xs" "LogPlay_logLine p i = Some l" for i l
  proof -
    have "i \<in> set (running_lines False p)" using r(1) by (auto simp: set_runningEvents(1) dest: in_set_takeD)
    then obtain j where j: "i = int j" "j < length (log_lines (lp_log p))" "running_status False (log_lines (lp_log p) ! j)"
      by (auto simp: running_lines_def)
    then have l: "l = log_lines (lp_log p) ! j" using r(2) by (simp add: logLine_Some_iff)
    then obtain k where "log_play_deck l = Some k" using assms(2) j by (auto simp: playing_decks_def)
    then show ?thesis
      using deck_ids_okD [OF assms(1), of j k] j l by (auto simp: line_uses_nth run_deck_line running_status_def)
  qed
  then have 1: "\<forall>i\<in>set ?xs. \<forall>l. LogPlay_logLine p i = Some l \<longrightarrow> the_deck l = Inr (log_play_deck l)"
    by (fastforce simp: the_deck_def)
  have 2: "\<forall>i\<in>set ?xs. \<forall>j\<in>set ?xs. \<forall>l m k. LogPlay_logLine p i = Some l \<and> LogPlay_logLine p j = Some m
      \<and> log_play_deck l = Some k \<and> log_play_deck m = Some k \<longrightarrow> i = j"
    using run by (metis option.inject)
  show ?thesis using renumber_run [OF 1 set_runningEvents(2) 2, of f] by (metis insertCI)
qed

lemma move_up_total:
  assumes "deck_ids_ok p" "playing_decks p" "cart_decks p" "carts_load (pv_line env)" "\<not> refreshes env p"
    and "j < i" "i < length (log_lines (lp_log p))"
  shows "\<exists>D p'. LogPlay_move env db (int i) (int j) p = Inr p' \<and> length D = length (lp_deck p)
    \<and> (\<forall>k<length D. play_id (D ! k) \<in> {play_id (lp_deck p ! k), move_id (int i) (int j) (play_id (lp_deck p ! k))})
    \<and> lp_deck p' = D \<and> line_uses p' = list_move i j (line_uses p)"
proof -
  let ?p0 = "emit (SigRemoved (int i) 1 True) p"
  have p0: "deck_ids_ok ?p0" "playing_decks ?p0"
    using assms(1,2) by (simp_all add: deck_ids_ok_def playing_decks_def)
  obtain D where D: "renumber (move_id (int i) (int j)) the_deck (LogPlay_runningEvents False ?p0) ?p0
      = Inr (?p0\<lparr>lp_deck := D\<rparr>)" "length D = length (lp_deck p)"
    "\<forall>k<length D. play_id (D ! k) \<in> {play_id (lp_deck p ! k), move_id (int i) (int j) (play_id (lp_deck p ! k))}"
    using renumber_playing [OF p0, of "move_id (int i) (int j)"] by auto
  let ?q = "?p0\<lparr>lp_deck := D\<rparr>"
  obtain e where e: "RDLogEvent_move (lp_log ?q) (int i) (int j) = Inr e"
    "event_kinds e = list_move i j (event_kinds (lp_log p))"
    using move_up_kinds [OF assms(6,7)] by auto
  let ?r = "after_move (int i) (int j) e ?q"
  have r: "cart_decks ?r"
    using assms(3,7) D(2) by (simp add: cart_decks_kinds e(2) set_list_move)
  obtain m where m: "moved_lines (int i) (int j) p = Inr m" using moved_lines_total by (meson of_nat_0_le_iff)
  obtain s where s: "UpdateStartTimes ?r = Inr s" "cart_decks s" using UpdateStartTimes_total [OF r] by blast
  then obtain t where t: "UpdatePostPoint env (SetTransTimer env 0 True s) = Inr t" "cart_decks t"
    using UpdatePostPoint_decks [of "SetTransTimer env 0 True s"] by auto
  have f: "player_frame t = player_frame ?r"
    using frame_UpdatePostPoint [OF t(1)] frame_UpdateStartTimes [OF s(1)] by simp
  have "refreshes env ?q = refreshes env p" by (simp add: refreshes_def log_outdated_def emit_def)
  then have "\<not> refreshes env t" using refreshes_frame [OF f, of env] assms(5) by simp
  then obtain p' where p': "moved_next env db (int i) (int j) m t = Inr p'" "player_frame p' = player_frame t"
    using moved_next_total [OF assms(4) t(2)] by blast
  have "LogPlay_move env db (int i) (int j) p = Inr p'"
    unfolding LogPlay_move_def m D(1) res_bind_simps e(1) after_move_def [symmetric] s(1) t(1) by (rule p'(1))
  moreover have "line_uses p' = list_move i j (line_uses p)"
    using frame_uses [OF p'(2)] frame_uses [OF f] assms(7)
    by (simp add: line_uses_kinds e(2) map_list_move)
  moreover have "lp_deck p' = D" using p'(2) f by (simp add: player_frame_def)
  ultimately show ?thesis using D(2,3) by blast
qed

text \<open>Moving a line up to the place of a running line goes through, with every pointer valid, but leaves
  that running line's deck with its old number although the line itself goes down one place: the test
  for the lines in between leaves out the target.\<close>

theorem move_up_strands_deck:
  assumes "deck_ids_ok p" "playing_decks p" "cart_decks p" "carts_load (pv_line env)" "\<not> refreshes env p"
    and "j < i" "i < length (log_lines (lp_log p))" "run_deck (line_uses p ! j) = Some k"
  shows "\<exists>p'. LogPlay_move env db (int i) (int j) p = Inr p' \<and> line_uses p' ! (j + 1) = line_uses p ! j
    \<and> play_id (lp_deck p' ! k) = int j \<and> length (line_uses p') = length (line_uses p)"
proof -
  have k: "k < length (lp_deck p)" "play_id (lp_deck p ! k) = int j"
    using deck_ids_okD [OF assms(1) _ assms(8)] assms(6,7) by auto
  obtain p' where p': "LogPlay_move env db (int i) (int j) p = Inr p'" "length (lp_deck p') = length (lp_deck p)"
    "\<forall>k<length (lp_deck p'). play_id (lp_deck p' ! k)
       \<in> {play_id (lp_deck p ! k), move_id (int i) (int j) (play_id (lp_deck p ! k))}"
    "line_uses p' = list_move i j (line_uses p)"
    using move_up_total [OF assms(1-7)] by blast
  have "play_id (lp_deck p' ! k) = int j" using p'(2,3) k assms(6) by (auto simp: move_id_def)
  moreover have "line_uses p' ! (j + 1) = line_uses p ! j"
    using p'(4) assms(6,7) by (simp add: list_move_def nth_list_ins nth_list_del length_list_del)
  moreover have "length (line_uses p') = length (line_uses p)"
    unfolding p'(4) using assms(6,7) by (simp add: list_move_def length_list_del line_uses_def)
  ultimately show ?thesis using p'(1) by blast
qed

theorem move_up_strands_deck_witness:
  "\<exists>p'. LogPlay_move quiet_env undefined 1 0 (on_air_player [on_air_line Cart (Some 0), new_log_line] [0]) = Inr p'
     \<and> run_deck (line_uses p' ! 1) = Some 0 \<and> play_id (lp_deck p' ! 0) = 0"
proof -
  let ?p = "on_air_player [on_air_line Cart (Some 0), new_log_line] [0]"
  have "deck_ids_ok ?p"
    by (auto simp: deck_ids_ok_def less_Suc_eq on_air_line_def run_deck_def line_use_def)
  moreover have "playing_decks ?p" "cart_decks ?p"
    by (simp_all add: playing_decks_def cart_decks_def holds_deck_def on_air_line_def running_status_def)
  ultimately show ?thesis
    using move_up_strands_deck [of ?p quiet_env 0 1 0 undefined] quiet_env_ok
    by (auto simp: on_air_line_def run_deck_def line_use_def)
qed

section \<open>Removing idle lines\<close>

definition idle_kind :: "line_type \<times> status \<times> nat option \<Rightarrow> bool" where
  "idle_kind x \<longleftrightarrow> fst (snd x) \<notin> {Playing, Finishing, Paused} \<and> snd (snd x) = None"

lemma renumber_total:
  "\<forall>i\<in>set xs. \<forall>l. LogPlay_logLine p i = Some l \<longrightarrow> res_ok (sel l)
   \<Longrightarrow> \<exists>D. renumber f sel xs p = Inr (p\<lparr>lp_deck := D\<rparr>) \<and> length D = length (lp_deck p)"
proof (induction xs arbitrary: p)
  case (Cons i xs)
  have ih: "\<exists>D. renumber f sel xs (p\<lparr>lp_deck := E\<rparr>) = Inr (p\<lparr>lp_deck := D\<rparr>) \<and> length D = length E" for E
    using Cons.IH [of "p\<lparr>lp_deck := E\<rparr>"] Cons.prems by (auto simp: LogPlay_logLine_def)
  show ?case
  proof (cases "LogPlay_logLine p i")
    case None
    then show ?thesis using ih [of "lp_deck p"] by simp
  next
    case (Some l)
    then obtain d where d: "sel l = Inr d" using Cons.prems by (auto elim: res_okE)
    show ?thesis
    proof (cases d)
      case None
      then show ?thesis using ih [of "lp_deck p"] Some d by simp
    next
      case (Some k)
      then show ?thesis
        using ih [of "(lp_deck p)[k := RDPlayDeck_setId (f (play_id (lp_deck p ! k))) (lp_deck p ! k)]"]
          \<open>LogPlay_logLine p i = Some l\<close> d by (simp add: put_deck_def)
    qed
  qed
next
  case Nil
  show ?case by (intro exI [of _ "lp_deck p"]) simp
qed

lemma free_lines_idle:
  "\<forall>i\<in>set xs. \<forall>l. LogPlay_logLine p i = Some l \<longrightarrow> log_play_deck l = None \<Longrightarrow> free_lines env xs p = Inr p"
  by (induction xs) (auto split: option.split)

lemma event_kinds_nth: "j < length (log_lines e) \<Longrightarrow> event_kinds e ! j = line_kind (log_lines e ! j)"
  by (simp add: event_kinds_def)

definition after_remove :: "int \<Rightarrow> log_event \<Rightarrow> log_play \<Rightarrow> log_play" where
  "after_remove n e p = (if macro_line p > 0 then set_macro_line (macro_line p - n) p else p)\<lparr>lp_log := e\<rparr>"

lemma after_remove_sel [simp]: "lp_log (after_remove n e p) = e" "lp_deck (after_remove n e p) = lp_deck p"
  "refreshes env (after_remove n e p) = refreshes env p"
  by (simp_all add: after_remove_def set_macro_line_def refreshes_def log_outdated_def)

lemma after_remove_decks:
  assumes "event_kinds e = list_del k m (event_kinds (lp_log p))" "cart_decks p" "length D = length (lp_deck p)"
  shows "cart_decks (after_remove n e (q\<lparr>lp_deck := D\<rparr>))"
  using assms(2,3) set_list_del_subset [of k m "event_kinds (lp_log p)"] unfolding cart_decks_kinds by (auto simp: assms(1))

lemma remove_idle:
  assumes "k + n \<le> length (log_lines (lp_log p))" "\<forall>j. k \<le> j \<and> j < k + n \<longrightarrow> idle_kind (event_kinds (lp_log p) ! j)"
    and "cart_decks p"
  shows "\<exists>m D e. remove_core env (int k) (int n) u b p
      = Inr (m, after_remove (int n) e ((if u then emit (SigRemoved (int k) (int n) False) p else p)\<lparr>lp_deck := D\<rparr>))
    \<and> length D = length (lp_deck p) \<and> event_kinds e = list_del k n (event_kinds (lp_log p))"
proof -
  let ?e = "lp_log p"
  have "\<exists>m. (if int k + int n < LogPlay_size p - 1 then custom_at p (int k + int n) (int k) else Inr (-1)) = Inr m"
    using logLine_in_log [of "int k + int n" p] by (auto simp: custom_at_def)
  then obtain m where m: "(if int k + int n < LogPlay_size p - 1 then custom_at p (int k + int n) (int k) else Inr (-1)) = Inr m"
    by blast
  have "log_play_deck l = None" if r: "i \<in> {int k..int k + int n - 1}" "LogPlay_logLine p i = Some l" for i l
  proof -
    obtain j where "i = int j" "j < length (log_lines ?e)" "l = log_lines ?e ! j" using r(2) by (auto simp: logLine_Some_iff)
    then show ?thesis using r(1) assms(2) event_kinds_nth [of j ?e] by (auto simp: idle_kind_def line_kind_def)
  qed
  then have f: "free_lines env [int k..int k + int n - 1] p = Inr p" by (intro free_lines_idle) auto
  let ?q = "if u then emit (SigRemoved (int k) (int n) False) p else p"
  have q: "lp_log ?q = lp_log p" "lp_deck ?q = lp_deck p" by simp_all
  have "res_ok (cart_deck l)" if r: "i \<in> set (LogPlay_runningEvents True ?q)" "LogPlay_logLine ?q i = Some l" for i l
  proof -
    have "i \<in> set (running_lines True p)" using r(1) q(1)
      by (auto simp: set_runningEvents(1) running_lines_def dest!: in_set_takeD split: if_splits)
    then obtain j where "i = int j" "j < length (log_lines ?e)" "running_status True (log_lines ?e ! j)"
      by (auto simp: running_lines_def)
    moreover from this have "l = log_lines ?e ! j" using r(2) q(1) unfolding logLine_Some_iff by auto
    ultimately have "running_status True l" "l \<in> set (log_lines ?e)" by auto
    then show ?thesis using assms(3) by (auto simp: cart_decks_def holds_deck_def cart_deck_def)
  qed
  then obtain D where D: "renumber (del_id (int k) (int n)) cart_deck (LogPlay_runningEvents True ?q) ?q
      = Inr (?q\<lparr>lp_deck := D\<rparr>)" "length D = length (lp_deck p)"
    using renumber_total [of "LogPlay_runningEvents True ?q" ?q] q(2) by metis
  obtain e where e: "RDLogEvent_remove ?e (int k) (int n) b = Inr e" "event_kinds e = list_del k n (event_kinds ?e)"
    using remove_ok [OF assms(1) edit_stable_kind, of b] by (auto simp: event_kinds_def)
  have l: "lp_log (if macro_line r > 0 then set_macro_line (macro_line r - int n) r else r) = lp_log r" for r
    by (simp add: set_macro_line_def)
  have "remove_core env (int k) (int n) u b p = Inr (m, after_remove (int n) e (?q\<lparr>lp_deck := D\<rparr>))"
    unfolding remove_core_def m f res_bind_simps Let_def D(1) l after_remove_def
    using e(1) q(1) by simp
  then show ?thesis using e(2) D(2) by blast
qed

lemma remove_quiet_idle:
  assumes "k + n \<le> length (log_lines (lp_log p))" "\<forall>j. k \<le> j \<and> j < k + n \<longrightarrow> idle_kind (event_kinds (lp_log p) ! j)"
    and "cart_decks p"
  shows "\<exists>p'. remove_quiet env (int k) (int n) b p = Inr p' \<and> cart_decks p'
    \<and> event_kinds (lp_log p') = list_del k n (event_kinds (lp_log p))"
proof (cases "n = 0")
  case True
  then show ?thesis using assms(3) by (simp add: remove_quiet_def list_del_def)
next
  case False
  obtain m D e where r: "remove_core env (int k) (int n) False b p = Inr (m, after_remove (int n) e (p\<lparr>lp_deck := D\<rparr>))"
    "length D = length (lp_deck p)" "event_kinds e = list_del k n (event_kinds (lp_log p))"
    using remove_idle [OF assms, of env False b] by auto
  have "int k < LogPlay_size p" using assms(1) False by (simp add: LogPlay_size_def RDLogEvent_size_def)
  then have "remove_quiet env (int k) (int n) b p = Inr (after_remove (int n) e (p\<lparr>lp_deck := D\<rparr>))"
    using False r(1) by (simp add: remove_quiet_def)
  moreover have "lp_log (after_remove (int n) e (p\<lparr>lp_deck := D\<rparr>)) = e" by simp
  ultimately show ?thesis using r(3) after_remove_decks [OF r(3) assms(3) r(2)] by metis
qed

text \<open>\<open>load\<close> means to drop every line but the running ones before it appends the new log, but with two
  lines running it drops only what is before the first and behind the second: every idle line between
  them stays on the air ahead of the new log.\<close>

theorem load_keeps_gap:
  assumes "LogPlay_runningEvents True p = [int i, int j]" "i < j" "j < length (log_lines (lp_log p))"
    and "\<forall>k<length (log_lines (lp_log p)). k \<noteq> i \<and> k \<noteq> j \<longrightarrow> idle_kind (event_kinds (lp_log p) ! k)"
    and "cart_decks p"
  shows "\<exists>p'. drop_idle env p = Inr p'
    \<and> event_kinds (lp_log p') = map (\<lambda>k. event_kinds (lp_log p) ! k) [i..<Suc j]"
proof -
  let ?n = "length (log_lines (lp_log p))" and ?ks = "event_kinds (lp_log p)"
  have "Suc j + (?n - Suc j) \<le> ?n" "\<forall>k. Suc j \<le> k \<and> k < Suc j + (?n - Suc j) \<longrightarrow> idle_kind (?ks ! k)"
    using assms(2-4) by auto
  from remove_quiet_idle [OF this assms(5), of env False]
  obtain q where q: "remove_quiet env (int (Suc j)) (int (?n - Suc j)) False p = Inr q" "cart_decks q"
    "event_kinds (lp_log q) = list_del (Suc j) (?n - Suc j) ?ks" by blast
  have qk: "event_kinds (lp_log q) = take (Suc j) ?ks" using q(3) assms(3) by (simp add: list_del_def)
  have qn: "length (log_lines (lp_log q)) = Suc j" using arg_cong [OF qk, of length] assms(3) by simp
  have "0 + i \<le> length (log_lines (lp_log q))"
    "\<forall>k. 0 \<le> k \<and> k < 0 + i \<longrightarrow> idle_kind (event_kinds (lp_log q) ! k)"
    using assms(2-4) qk qn by auto
  then obtain r where r: "remove_quiet env (int 0) (int i) False q = Inr r"
    "event_kinds (lp_log r) = list_del 0 i (event_kinds (lp_log q))"
    using remove_quiet_idle [of 0 i q env False] q(2) by blast
  have rk: "event_kinds (lp_log r) = map (\<lambda>k. ?ks ! k) [i..<Suc j]"
    using r(2) qk assms(2,3) by (auto simp: list_del_def simp del: upt_Suc intro!: nth_equalityI)
  have tail: "(if int j < LogPlay_size p - 1 then remove_quiet env (int j + 1) (LogPlay_size p - int j - 1) False p
      else Inr p) = Inr q"
  proof (cases "int j < LogPlay_size p - 1")
    case True
    then have "LogPlay_size p - int j - 1 = int (?n - Suc j)"
      using assms(3) by (simp add: LogPlay_size_def RDLogEvent_size_def of_nat_diff)
    then show ?thesis using True q(1) by (simp add: add.commute)
  next
    case False
    then have "?n - Suc j = 0" by (simp add: LogPlay_size_def RDLogEvent_size_def)
    then show ?thesis using False q(1) by (simp add: remove_quiet_def)
  qed
  have "drop_idle env p = res_bind (if int j < LogPlay_size p - 1
      then remove_quiet env (int j + 1) (LogPlay_size p - int j - 1) False p else Inr p)
      (\<lambda>p. if i \<noteq> 0 then remove_quiet env 0 (int i) False p else Inr p)"
    by (simp add: drop_idle_def Let_def assms(1) cong: if_cong)
  then have "drop_idle env p = Inr (if i = 0 then q else r)" unfolding tail using r(1) by simp
  moreover have "event_kinds (lp_log q) = event_kinds (lp_log r)" if "i = 0" using that r(2) by (simp add: list_del_def)
  ultimately show ?thesis using rk by auto
qed

theorem load_keeps_gap_witness:
  "\<exists>p'. drop_idle quiet_env (on_air_player [new_log_line, on_air_line Cart (Some 0), new_log_line,
        on_air_line Cart (Some 1), new_log_line] [1, 3]) = Inr p'
     \<and> map (Option.is_none \<circ> snd \<circ> snd) (event_kinds (lp_log p')) = [False, True, False]"
proof -
  let ?p = "on_air_player [new_log_line, on_air_line Cart (Some 0), new_log_line, on_air_line Cart (Some 1), new_log_line] [1, 3]"
  have "LogPlay_runningEvents True ?p = [int 1, int 3]"
    by (simp add: LogPlay_runningEvents_def bubble_sort_is_sort_key TRANSPORT_QUANTITY_def on_air_line_def
        running_status_def initial_start_def)
  moreover have "cart_decks ?p" "length (event_kinds (lp_log ?p)) = 5"
    "\<forall>k<5. k \<noteq> 1 \<and> k \<noteq> 3 \<longrightarrow> idle_kind (event_kinds (lp_log ?p) ! k)"
    by (auto simp: event_kinds_def line_kind_def cart_decks_def holds_deck_def running_status_def idle_kind_def on_air_line_def less_Suc_eq numeral_eq_Suc)
  ultimately show ?thesis
    using load_keeps_gap [of ?p 1 3 quiet_env]
    by (auto simp: event_kinds_def line_kind_def on_air_line_def upt_rec)
qed

section \<open>Clearing the log\<close>

lemma remove_user_idle:
  assumes "k + n \<le> length (log_lines (lp_log p))" "\<forall>j. k \<le> j \<and> j < k + n \<longrightarrow> idle_kind (event_kinds (lp_log p) ! j)"
    and "cart_decks p" "carts_load (pv_line env)" "\<not> refreshes env p"
  shows "\<exists>p'. LogPlay_remove env db (int k) (int n) b p = Inr p' \<and> cart_decks p' \<and> \<not> refreshes env p'
    \<and> line_uses p' = list_del k n (line_uses p)"
proof (cases "n = 0")
  case True
  then show ?thesis using assms(3,5) by (simp add: LogPlay_remove_def list_del_def)
next
  case False
  let ?q = "emit (SigRemoved (int k) (int n) False) p"
  obtain m D e where r: "remove_core env (int k) (int n) True b p = Inr (m, after_remove (int n) e (?q\<lparr>lp_deck := D\<rparr>))"
    "length D = length (lp_deck p)" "event_kinds e = list_del k n (event_kinds (lp_log p))"
    using remove_idle [OF assms(1-3), of env True b] by auto
  let ?r = "after_remove (int n) e (?q\<lparr>lp_deck := D\<rparr>)"
  have 1: "cart_decks ?r" by (rule after_remove_decks [OF r(3) assms(3) r(2)])
  have "refreshes env (?q\<lparr>lp_deck := D\<rparr>) = refreshes env p" by (simp add: refreshes_def log_outdated_def emit_def)
  then have 2: "\<not> refreshes env ?r" using assms(5) by simp
  have "\<exists>s. (if lp_next_line ?r > int k then makeNext env db (lp_next_line ?r - int n) ?r else Inr ?r) = Inr s
      \<and> cart_decks s \<and> player_frame s = player_frame ?r"
    using makeNext_total [OF assms(4) 1 2] frame_makeNext [OF _ 2] 1 by (metis (no_types))
  then obtain s where s: "(if lp_next_line ?r > int k then makeNext env db (lp_next_line ?r - int n) ?r else Inr ?r) = Inr s"
    "cart_decks s" "player_frame s = player_frame ?r" by blast
  obtain t where t: "UpdateStartTimes s = Inr t" "cart_decks t" using UpdateStartTimes_total [OF s(2)] by blast
  define t1 where "t1 = (if LogPlay_size t = 0 then emit SigReloaded t else t)"
  define t2 where "t2 = (if m \<ge> 0 then emit (SigModified m) t1 else t1)"
  have t2: "player_frame t2 = player_frame t" "cart_decks t2" using t(2) by (simp_all add: t2_def t1_def)
  then obtain p' where p': "UpdatePostPoint env (SetTransTimer env 0 True (emit SigTransportChanged t2)) = Inr p'" "cart_decks p'"
    using UpdatePostPoint_decks [of "SetTransTimer env 0 True (emit SigTransportChanged t2)"] by auto
  have f: "player_frame p' = player_frame ?r"
    using frame_UpdatePostPoint [OF p'(1)] t2(1) frame_UpdateStartTimes [OF t(1)] s(3) by simp
  have "int k < LogPlay_size p" using assms(1) False by (simp add: LogPlay_size_def RDLogEvent_size_def)
  then have "\<not> (int n = 0 \<or> int k < 0 \<or> int k \<ge> LogPlay_size p)" using False by simp
  then have "LogPlay_remove env db (int k) (int n) b p = Inr p'"
    unfolding LogPlay_remove_def r(1) res_bind_simps prod.case s(1) t(1) Let_def
      t1_def [symmetric] t2_def [symmetric] p'(1) by simp
  moreover have "line_uses p' = list_del k n (line_uses p)"
    using frame_uses [OF f] by (simp add: line_uses_kinds r(3) map_list_del)
  moreover have "\<not> refreshes env p'" using refreshes_frame [OF f] 2 by blast
  ultimately show ?thesis using p'(2) by blast
qed

definition kept_use :: "status \<times> nat option \<Rightarrow> bool" where
  "kept_use u \<longleftrightarrow> fst u \<noteq> Scheduled \<and> fst u \<noteq> status.Finished"

definition idle_free :: "log_play \<Rightarrow> bool" where
  "idle_free p \<longleftrightarrow> (\<forall>u\<in>set (line_uses p). \<not> kept_use u \<longrightarrow> snd u = None)"

lemma keeps_block_use: "keeps_block l = kept_use (line_use l)"
  by (simp add: keeps_block_def kept_use_def line_use_def)

lemma idle_kind_use:
  "idle_free p \<Longrightarrow> j < length (line_uses p) \<Longrightarrow> \<not> kept_use (line_uses p ! j) \<Longrightarrow> idle_kind (event_kinds (lp_log p) ! j)"
  by (auto simp: idle_free_def idle_kind_def line_uses_kinds kept_use_def)

lemma block_find:
  "find (\<lambda>i. case LogPlay_logLine p i of None \<Rightarrow> False | Some l \<Rightarrow> keeps_block l) [int s..LogPlay_size p - 1]
   = map_option int (find (\<lambda>i. kept_use (line_uses p ! i)) [s..<length (line_uses p)])"
proof -
  have "find (\<lambda>i. case LogPlay_logLine p (int i) of None \<Rightarrow> False | Some l \<Rightarrow> keeps_block l) [s..<length (line_uses p)]
      = find (\<lambda>i. kept_use (line_uses p ! i)) [s..<length (line_uses p)]"
    by (rule find_cong) (auto simp: LogPlay_logLine_def RDLogEvent_logLine_def keeps_block_use line_uses_nth)
  then show ?thesis
    by (simp add: LogPlay_size_def RDLogEvent_size_def upto_nat find_map_int)
qed

lemma clear_blocks_total:
  assumes "line_uses p = us @ vs" "length us = s" "cart_decks p" "\<not> refreshes env p" "idle_free p"
    and "carts_load (pv_line env)" "length (filter kept_use vs) < n"
  shows "\<exists>p'. clear_blocks env db n (int s) p = Inr (Some p') \<and> line_uses p' = us @ filter kept_use vs
    \<and> cart_decks p' \<and> \<not> refreshes env p'"
  using assms
proof (induction n arbitrary: us vs s p)
  case (Suc n)
  have len: "length (log_lines (lp_log p)) = s + length vs"
    using arg_cong [OF Suc.prems(1), of length] Suc.prems(2) by simp
  show ?case
  proof (cases "find (\<lambda>i. kept_use (line_uses p ! i)) [s..<length (line_uses p)]")
    case None
    then have none: "\<forall>i. s \<le> i \<and> i < s + length vs \<longrightarrow> \<not> kept_use (line_uses p ! i)"
      using len by (auto simp: find_None_iff)
    then have "\<forall>j. s \<le> j \<and> j < s + length vs \<longrightarrow> idle_kind (event_kinds (lp_log p) ! j)"
      using idle_kind_use [OF Suc.prems(5)] len by auto
    then obtain q where q: "LogPlay_remove env db (int s) (int (length vs)) False p = Inr q" "cart_decks q"
      "\<not> refreshes env q" "line_uses q = list_del s (length vs) (line_uses p)"
      using remove_user_idle [of s "length vs" p env db False] Suc.prems(3,4,6) len by auto
    have "\<forall>i<length vs. \<not> kept_use (vs ! i)"
      using none Suc.prems(1,2) by (metis add_less_cancel_left le_add1 nth_append_length_plus)
    then have "filter kept_use vs = []" by (metis filter_False in_set_conv_nth)
    moreover have "LogPlay_size p - int s = int (length vs)" using len by (simp add: LogPlay_size_def RDLogEvent_size_def)
    ultimately show ?thesis
      using q Suc.prems(1,2) None by (simp add: ClearBlock_def block_find list_del_def)
  next
    case (Some i)
    then obtain t where t: "i = s + t" "t < length vs" "kept_use (line_uses p ! i)"
      "\<forall>j<t. \<not> kept_use (line_uses p ! (s + j))"
      using len by (auto simp: find_Some_iff)
    define u where "u = vs ! t"
    have vs: "vs = take t vs @ u # drop (Suc t) vs" using t(2) by (simp add: u_def id_take_nth_drop)
    have nth: "line_uses p ! (s + j) = vs ! j" for j
      using Suc.prems(1,2) by (metis nth_append_length_plus)
    have no: "filter kept_use (take t vs) = []"
      using t(2,4) unfolding nth by (metis filter_False in_set_conv_nth length_take min.absorb4 nth_take)
    have ku: "kept_use u" using t(1,3) nth by (simp add: u_def)
    have fv: "filter kept_use vs = u # filter kept_use (drop (Suc t) vs)"
      using ku no by (subst vs) simp
    have "\<forall>j. s \<le> j \<and> j < s + t \<longrightarrow> idle_kind (event_kinds (lp_log p) ! j)"
      using idle_kind_use [OF Suc.prems(5)] t len by (metis add_diff_inverse_nat diff_add_inverse length_line_uses
          less_diff_conv2 linorder_not_le add_less_cancel_left order_less_trans)
    then obtain q where q: "LogPlay_remove env db (int s) (int t) False p = Inr q" "cart_decks q"
      "\<not> refreshes env q" "line_uses q = list_del s t (line_uses p)"
      using remove_user_idle [of s t p env db False] Suc.prems(3,4,6) t(2) len by auto
    have uq: "line_uses q = (us @ [u]) @ drop (Suc t) vs"
      using q(4) Suc.prems(1,2) t(2) by (simp add: list_del_def u_def Cons_nth_drop_Suc)
    have "idle_free q" using Suc.prems(5) q(4) set_list_del_subset by (fastforce simp: idle_free_def)
    then obtain p' where "clear_blocks env db n (int (Suc s)) q = Inr (Some p')"
      "line_uses p' = (us @ [u]) @ filter kept_use (drop (Suc t) vs)" "cart_decks p'" "\<not> refreshes env p'"
      using Suc.IH [OF uq _ q(2,3) _ Suc.prems(6)] Suc.prems(2,7) fv by auto
    moreover have "ClearBlock env db (int s) p = Inr (True, q)"
      using q(1) Some t(1) by (simp add: ClearBlock_def block_find)
    ultimately show ?thesis using fv by (simp add: add.commute)
  qed
qed simp

text \<open>C12: \<open>clear\<close> ends and leaves exactly the lines that are neither scheduled nor finished, in their order
  and with their decks, as long as no scheduled or finished line holds a deck and no newer log waits: its
  loop needs one round more than there are such lines.\<close>

theorem clear_keeps_running:
  assumes "cart_decks p" "idle_free p" "carts_load (pv_line env)" "\<not> refreshes env p"
  shows "\<exists>p'. LogPlay_clear env db p = Inr (Some p') \<and> line_uses p' = filter kept_use (line_uses p)"
proof -
  let ?q = "(LogPlay_setLogName '''' p)\<lparr>lp_duck_volume_port1 := 0, lp_duck_volume_port2 := 0\<rparr>"
  have q: "line_uses ?q = line_uses p" "cart_decks ?q" "\<not> refreshes env ?q" "idle_free ?q"
    "LogPlay_size ?q = int (length (line_uses p))"
    using assms by (simp_all add: LogPlay_setLogName_def line_uses_def cart_decks_def idle_free_def
        refreshes_def log_outdated_def emit_def LogPlay_size_def RDLogEvent_size_def)
  have "length (filter kept_use (line_uses p)) < nat (LogPlay_size ?q) + 1"
    using length_filter_le [of kept_use "line_uses p"] q(5) by simp
  then obtain r where r: "clear_blocks env db (nat (LogPlay_size ?q) + 1) (int 0) ?q = Inr (Some r)"
    "line_uses r = filter kept_use (line_uses p)" "cart_decks r"
    using clear_blocks_total [of ?q "[]" "line_uses p" 0 env "nat (LogPlay_size ?q) + 1" db] q assms(3) by auto
  let ?t = "SetTransTimer env 0 True (r\<lparr>lp_svc_name := lp_defaultsvc_name r, lp_rescan_pos := 0, lp_play_log := False\<rparr>)"
  obtain s where s: "UpdatePostPoint env ?t = Inr s" using UpdatePostPoint_total by blast
  have "line_uses s = line_uses r"
    using frame_uses [OF frame_UpdatePostPoint [OF s]] frame_uses [OF frame_SetTransTimer [of env 0 True]]
    by (simp add: line_uses_def)
  moreover have "line_uses (emit SigReloaded (set_refreshable False s)) = line_uses s"
    using frame_uses [OF frame_set_refreshable] by simp
  moreover have "LogPlay_clear env db p = Inr (Some (emit SigReloaded (set_refreshable False s)))"
    unfolding LogPlay_clear_def Let_def r(1) [unfolded of_nat_0] res_bind_simps option.case s by (rule refl)
  ultimately show ?thesis using r(2) by metis
qed

theorem clear_keeps_running_witness:
  "\<exists>p'. LogPlay_clear quiet_env undefined (on_air_player [new_log_line, on_air_line Cart (Some 0), new_log_line] [1]) = Inr (Some p')
     \<and> line_uses p' = [(Playing, Some 0)]"
proof -
  let ?p = "on_air_player [new_log_line, on_air_line Cart (Some 0), new_log_line] [1]"
  have "cart_decks ?p" "idle_free ?p"
    by (simp_all add: cart_decks_def holds_deck_def running_status_def idle_free_def on_air_line_def
        kept_use_def line_use_def)
  from clear_keeps_running [OF this quiet_env_ok, of undefined] show ?thesis
    by (simp add: kept_use_def on_air_line_def line_use_def)
qed

end
