(* ===== verification/Wildcards.thy ===== *)
theory Wildcards
  imports Log_Line Qt_String "HOL-Library.Sublist"
begin

text \<open>
  The wildcards of a log line, \<open>RDLogLine::resolveWildcards\<close> of \<open>lib/rdlog_line.cpp\<close>: a chain of
  \<open>QString::replace\<close> calls, one for each code, each over the result of the one before.
\<close>

fun qs_replace :: "string \<Rightarrow> string \<Rightarrow> string \<Rightarrow> string" where
  "qs_replace before after [] = []"
| "qs_replace before after (c # cs) =
     (if before \<noteq> [] \<and> prefix before (c # cs)
      then after @ qs_replace before after (drop (length before - 1) cs)
      else c # qs_replace before after cs)"

text \<open>The codes in the order of the chain, with their texts. A missing year gives the empty string.\<close>

definition wildcard_texts :: "log_line \<Rightarrow> (char \<times> string) list" where
  "wildcard_texts l = (let m = log_meta l in
     [(CHR ''n'', pad_nat 6 (log_cart_number l)), (CHR ''h'', string_of_int (RDLogLine_effectiveLength l)),
      (CHR ''g'', log_group_name m), (CHR ''t'', log_title m), (CHR ''a'', log_artist m),
      (CHR ''l'', log_album m), (CHR ''y'', if log_year m = 0 then '''' else pad_nat 4 (nat (log_year m))),
      (CHR ''b'', log_label m), (CHR ''r'', log_conductor m), (CHR ''s'', log_song_id m),
      (CHR ''c'', log_client m), (CHR ''e'', log_agency m), (CHR ''m'', log_composer m),
      (CHR ''p'', log_publisher m), (CHR ''u'', log_user_defined m)])"

definition RDLogLine_resolveWildcards :: "string \<Rightarrow> log_line \<Rightarrow> string" where
  "RDLogLine_resolveWildcards pattern l =
     foldl (\<lambda>s (c, t). qs_replace [CHR ''%'', c] t s) pattern (wildcard_texts l)"

section \<open>One pass\<close>

text \<open>The intended reading: one pass over the pattern, every code replaced by its text.\<close>

fun substitute :: "(char \<times> string) list \<Rightarrow> string \<Rightarrow> string" where
  "substitute ts (c # d # cs) =
     (if c = CHR ''%'' then (case map_of ts d of Some t \<Rightarrow> t @ substitute ts cs | None \<Rightarrow> c # substitute ts (d # cs))
      else c # substitute ts (d # cs))"
| "substitute ts cs = cs"

text \<open>A pattern in which every \<open>%\<close> starts a code, cut into plain characters and codes.\<close>

fun coded :: "(char \<times> string) list \<Rightarrow> string \<Rightarrow> bool" where
  "coded ts (c # d # cs) =
     (if c = CHR ''%'' then map_of ts d \<noteq> None \<and> coded ts cs else coded ts (d # cs))"
| "coded ts [c] = (c \<noteq> CHR ''%'')"
| "coded ts [] = True"

fun render :: "(string + char) list \<Rightarrow> string" where
  "render [] = []"
| "render (Inl s # xs) = s @ render xs"
| "render (Inr c # xs) = CHR ''%'' # c # render xs"

definition plain :: "(string + char) list \<Rightarrow> bool" where
  "plain xs \<longleftrightarrow> (\<forall>s. Inl s \<in> set xs \<longrightarrow> CHR ''%'' \<notin> set s) \<and> Inr (CHR ''%'') \<notin> set xs"

fun put_text :: "char \<times> string \<Rightarrow> string + char \<Rightarrow> string + char" where
  "put_text (c, t) (Inl s) = Inl s"
| "put_text (c, t) (Inr d) = (if d = c then Inl t else Inr d)"

lemma qs_replace_text:
  "CHR ''%'' \<notin> set s \<Longrightarrow> qs_replace [CHR ''%'', c] t (s @ r) = s @ qs_replace [CHR ''%'', c] t r"
  by (induction s) auto

lemma qs_replace_render:
  "plain xs \<Longrightarrow> c \<noteq> CHR ''%'' \<Longrightarrow> qs_replace [CHR ''%'', c] t (render xs) = render (map (put_text (c, t)) xs)"
proof (induction xs rule: render.induct)
  case (2 s xs)
  then show ?case by (simp add: qs_replace_text plain_def)
next
  case (3 d xs)
  then have "d \<noteq> CHR ''%''" by (auto simp: plain_def)
  with 3 show ?case by (cases "d = c") (simp_all add: plain_def)
qed simp

lemma plain_put_text:
  "plain xs \<Longrightarrow> CHR ''%'' \<notin> set t \<Longrightarrow> plain (map (put_text (c, t)) xs)"
  by (auto simp: plain_def elim!: put_text.elims [OF sym] put_text.elims split: if_splits)

lemma replace_all_render:
  assumes "\<forall>(c, t)\<in>set ts. c \<noteq> CHR ''%'' \<and> CHR ''%'' \<notin> set t" "plain xs"
  shows "foldl (\<lambda>s (c, t). qs_replace [CHR ''%'', c] t s) (render xs) ts
    = render (map (\<lambda>x. foldl (\<lambda>x ct. put_text ct x) x ts) xs)"
  using assms
proof (induction ts arbitrary: xs)
  case (Cons ct ts)
  obtain c t where ct: "ct = (c, t)" by fastforce
  with Cons show ?case
    by (simp add: qs_replace_render plain_put_text comp_def)
qed simp

lemma put_all: "foldl (\<lambda>x ct. put_text ct x) (Inl s) ts = Inl s"
    "foldl (\<lambda>x ct. put_text ct x) (Inr d) ts = (case map_of ts d of None \<Rightarrow> Inr d | Some t \<Rightarrow> Inl t)"
proof -
  show "foldl (\<lambda>x ct. put_text ct x) (Inl s) ts = Inl s" for s by (induction ts) auto
  then show "foldl (\<lambda>x ct. put_text ct x) (Inr d) ts = (case map_of ts d of None \<Rightarrow> Inr d | Some t \<Rightarrow> Inl t)"
    by (induction ts) auto
qed

lemma coded_tokens:
  assumes "coded ts s" "CHR ''%'' \<notin> fst ` set ts"
  shows "\<exists>xs. s = render xs \<and> plain xs
    \<and> render (map (\<lambda>x. foldl (\<lambda>x ct. put_text ct x) x ts) xs) = substitute ts s"
  using assms
proof (induction ts s rule: coded.induct)
  case (1 ts c d cs)
  show ?case
  proof (cases "c = CHR ''%''")
    case True
    then obtain t xs where x: "map_of ts d = Some t" "cs = render xs" "plain xs"
      "render (map (\<lambda>x. foldl (\<lambda>x ct. put_text ct x) x ts) xs) = substitute ts cs"
      using 1 by auto
    have "d \<in> fst ` set ts" using x(1) by (force dest: map_of_SomeD)
    then have "d \<noteq> CHR ''%''" using "1.prems"(2) by blast
    then show ?thesis using x True by (intro exI [of _ "Inr d # xs"]) (auto simp: put_all plain_def)
  next
    case False
    then obtain xs where x: "d # cs = render xs" "plain xs"
      "render (map (\<lambda>x. foldl (\<lambda>x ct. put_text ct x) x ts) xs) = substitute ts (d # cs)"
      using 1 by auto
    then show ?thesis using False
      by (intro exI [of _ "Inl [c] # xs"]) (auto simp: put_all plain_def simp flip: x(1))
  qed
next
  case (2 ts c)
  then show ?case by (intro exI [of _ "[Inl [c]]"]) (simp add: put_all plain_def)
next
  case (3 ts)
  then show ?case by (intro exI [of _ "[]"]) (simp add: plain_def)
qed

text \<open>C18: As long as no text of the cart holds a percent sign and every percent sign of the pattern
  starts one of the codes, the chain of replacements is the substitution of all codes at once.\<close>

theorem wildcards_at_once:
  assumes "\<forall>(c, t)\<in>set (wildcard_texts l). CHR ''%'' \<notin> set t" "coded (wildcard_texts l) pattern"
  shows "RDLogLine_resolveWildcards pattern l = substitute (wildcard_texts l) pattern"
proof -
  let ?ts = "wildcard_texts l"
  have "\<forall>c\<in>fst ` set ?ts. c \<noteq> CHR ''%''" by (simp add: wildcard_texts_def Let_def)
  with assms(1) have c: "\<forall>(c, t)\<in>set ?ts. c \<noteq> CHR ''%'' \<and> CHR ''%'' \<notin> set t" "CHR ''%'' \<notin> fst ` set ?ts"
    by fastforce+
  obtain xs where "pattern = render xs" "plain xs"
    "render (map (\<lambda>x. foldl (\<lambda>x ct. put_text ct x) x ?ts) xs) = substitute ?ts pattern"
    using coded_tokens [OF assms(2) c(2)] by blast
  with replace_all_render [OF c(1)] show ?thesis by (simp add: RDLogLine_resolveWildcards_def)
qed

definition tagged_line :: "string \<Rightarrow> string \<Rightarrow> log_line" where
  "tagged_line title artist = new_log_line\<lparr>log_cart_number := 4711,
     log_meta := (log_meta new_log_line)\<lparr>log_title := title, log_artist := artist\<rparr>\<rparr>"

lemma tagged_texts:
  "wildcard_texts (tagged_line title artist) =
     [(CHR ''n'', ''004711''), (CHR ''h'', ''0''), (CHR ''g'', ''''), (CHR ''t'', title), (CHR ''a'', artist),
      (CHR ''l'', ''''), (CHR ''y'', ''''), (CHR ''b'', ''''), (CHR ''r'', ''''), (CHR ''s'', ''''), (CHR ''c'', ''''),
      (CHR ''e'', ''''), (CHR ''m'', ''''), (CHR ''p'', ''''), (CHR ''u'', '''')]"
  by (simp add: wildcard_texts_def tagged_line_def new_log_line_def cleared_line_def pad_nat_def string_of_int_def
      string_of_nat.simps cleared_meta_def numeral_2_eq_2 RDLogLine_effectiveLength_def digit_char_def Let_def)

theorem wildcards_at_once_witness:
  "RDLogLine_resolveWildcards ''%n: %t by %a'' (tagged_line ''One'' ''Two'') = ''004711: One by Two''"
proof -
  let ?l = "tagged_line ''One'' ''Two''"
  have "\<forall>(c, t)\<in>set (wildcard_texts ?l). CHR ''%'' \<notin> set t" "coded (wildcard_texts ?l) ''%n: %t by %a''"
    by (simp_all add: tagged_texts)
  from wildcards_at_once [OF this] show ?thesis by (simp add: tagged_texts)
qed

text \<open>A code inside a text is replaced too, when its turn comes later in the chain.\<close>

lemma title_is_expanded:
  "RDLogLine_resolveWildcards ''%t'' (tagged_line ''100%artificial'' ''Two'') = ''100Tworti'' @ ''ficial''"
  by (simp add: RDLogLine_resolveWildcards_def tagged_texts)

end
