(* ===== verification/Player_Run.thy ===== *)
theory Player_Run
  imports Player_Edit Wildcards
begin

text \<open>
  Playing the log: \<open>LogPlay::StartEvent\<close>, \<open>StartAudioEvent\<close>, \<open>FinishEvent\<close>, \<open>GetNextPlayable\<close>, the
  answers of the decks (\<open>Playing\<close>, \<open>Paused\<close>, \<open>Stopped\<close>, \<open>Finished\<close>, \<open>segueStartData\<close>, \<open>segueEndData\<close>,
  \<open>positionData\<close>), of the macro deck and of the timers, and the commands \<open>play\<close>, \<open>stop\<close>, \<open>pause\<close> and
  \<open>duckVolume\<close> of \<open>rdairplay/log_play.cpp\<close>. \<open>StartEvent\<close> and \<open>FinishEvent\<close> call each other, a marker or
  a macro cart being over as soon as it has started; the recursion carries fuel and gives None when it
  runs out. A pointer to a line that is used after such a call stands for the line as it was.
\<close>

section \<open>Results with fuel\<close>

type_synonym 'a run = "'a res option"

definition run_bind :: "'a run \<Rightarrow> ('a \<Rightarrow> 'b run) \<Rightarrow> 'b run" where
  "run_bind r f = (case r of None \<Rightarrow> None | Some (Inl e) \<Rightarrow> Some (Inl e) | Some (Inr x) \<Rightarrow> f x)"

lemma run_bind_simps [simp]:
  "run_bind None f = None" "run_bind (Some (Inl e)) f = Some (Inl e)" "run_bind (Some (Inr x)) f = f x"
  by (simp_all add: run_bind_def)

lemma run_bind_eq_Inr [simp]:
  "run_bind r f = Some (Inr y) \<longleftrightarrow> (\<exists>x. r = Some (Inr x) \<and> f x = Some (Inr y))"
  by (simp add: run_bind_def split: option.split sum.split)

lemma run_bind_eq_None:
  "run_bind r f = None \<longleftrightarrow> r = None \<or> (\<exists>x. r = Some (Inr x) \<and> f x = None)"
  by (simp add: run_bind_def split: option.split sum.split)

section \<open>The macro deck\<close>

definition current_time :: "player_env \<Rightarrow> qtime" where
  "current_time env = qtime_addMSecs (pv_now env) (pv_time_offset env)"

definition macroStartedData :: "player_env \<Rightarrow> log_play \<Rightarrow> log_play res" where
  "macroStartedData env p =
     (let p = p\<lparr>lp_macro_running := True\<rparr>; line = macro_line p
      in if LogPlay_logLine p line = None then Inr p
         else let p = put_line line (\<lambda>l. RDLogLine_setStartTime Initial (current_time env) (l\<lparr>log_status := Playing\<rparr>)) p
              in res_bind (UpdateStartTimes p) (\<lambda>p.
                 res_bind (UpdatePostPoint env (emit (SigPlayed line) p)) (\<lambda>p.
                   Inr (emit SigTransportChanged p))))"

definition clear_macro :: "log_play \<Rightarrow> log_play" where
  "clear_macro p = p\<lparr>lp_macro_deck := RDMacroEvent_clear (lp_macro_deck p)\<rparr>"

text \<open>The line of a macro that has ended.\<close>

definition end_macro_line :: "player_env \<Rightarrow> int \<Rightarrow> log_play \<Rightarrow> log_play res" where
  "end_macro_line env line p =
     (case LogPlay_logLine p line of
        None \<Rightarrow> Inr p
      | Some l \<Rightarrow> log_traffic env (Some l) TrafficMacro (put_line line (\<lambda>l. l\<lparr>log_status := status.Finished\<rparr>) p))"

definition macroStoppedData :: "player_env \<Rightarrow> log_play \<Rightarrow> log_play res" where
  "macroStoppedData env p =
     res_bind (end_macro_line env (macro_line p) (clear_macro p)) (\<lambda>p.
     res_bind (UpdatePostPoint env p) (\<lambda>p. Inr (emit SigTransportChanged p)))"

definition macroFinishedData :: "player_env \<Rightarrow> database \<Rightarrow> (int \<Rightarrow> log_play \<Rightarrow> log_play run) \<Rightarrow> log_play \<Rightarrow> log_play run" where
  "macroFinishedData env db finish_event p =
     (let line = macro_line p
      in run_bind (finish_event line (clear_macro p)) (\<lambda>p. Some (
           res_bind (end_macro_line env line p) (\<lambda>p.
           res_bind (UpdatePostPoint env (p\<lparr>lp_macro_running := False\<rparr>)) (\<lambda>p.
           res_bind (if lp_refresh_pending p
                     then res_bind (LogPlay_refresh env db p) (\<lambda>p. Inr (p\<lparr>lp_refresh_pending := False\<rparr>))
                     else Inr p) (\<lambda>p.
             Inr (emit SigTransportChanged p)))))))"

text \<open>The signals of the macro deck the player is connected to, in order, and the commands it sends.\<close>

fun macro_signals :: "player_env \<Rightarrow> database \<Rightarrow> (int \<Rightarrow> log_play \<Rightarrow> log_play run) \<Rightarrow> signal list \<Rightarrow> log_play
    \<Rightarrow> log_play run" where
  "macro_signals env db finish_event [] p = Some (Inr p)"
| "macro_signals env db finish_event (x # xs) p =
     run_bind
       (case x of
          Started \<Rightarrow> Some (macroStartedData env p)
        | signal.Finished \<Rightarrow> macroFinishedData env db finish_event p
        | Stopped \<Rightarrow> Some (macroStoppedData env p)
        | SendRml m \<Rightarrow> Some (Inr (emit (OutMacro x) p))
        | _ \<Rightarrow> Some (Inr p))
       (macro_signals env db finish_event xs)"

definition macro_exec :: "player_env \<Rightarrow> database \<Rightarrow> (int \<Rightarrow> log_play \<Rightarrow> log_play run) \<Rightarrow> log_play \<Rightarrow> log_play run" where
  "macro_exec env db finish_event p =
     run_bind (Some (RDMacroEvent_exec (pv_exec env) (lp_macro_deck p))) (\<lambda>(ev, xs).
       macro_signals env db finish_event xs (p\<lparr>lp_macro_deck := ev\<rparr>))"

definition macro_stop :: "player_env \<Rightarrow> log_play \<Rightarrow> log_play res" where
  "macro_stop env p =
     (let (ev, xs) = RDMacroEvent_stop (lp_macro_deck p); p = p\<lparr>lp_macro_deck := ev\<rparr>
      in if xs = [] then Inr p else macroStoppedData env p)"

section \<open>Commands to the decks\<close>

text \<open>A command to the deck of a line, through its pointer.\<close>

definition with_deck :: "(play_deck \<Rightarrow> (play_deck \<times> deck_out list) res) \<Rightarrow> log_line \<Rightarrow> log_play \<Rightarrow> log_play res" where
  "with_deck f l p =
     res_bind (of_ptr (log_play_deck l)) (\<lambda>k. res_bind (vec_get (lp_deck p) (int k)) (\<lambda>d.
       res_bind (f d) (\<lambda>r. Inr (put_deck k r p))))"

definition LogPlay_stop_line :: "player_env \<Rightarrow> int \<Rightarrow> int \<Rightarrow> log_play \<Rightarrow> (bool \<times> log_play) res" where
  "LogPlay_stop_line env line fade p =
     (case LogPlay_logLine p line of
        None \<Rightarrow> Inr (False, p)
      | Some l \<Rightarrow> (case log_cart_type l of
          CartAudio \<Rightarrow> if log_play_deck l = None then Inr (False, p)
            else res_bind (with_deck (RDPlayDeck_stop_fade (pv_now env) fade RD_FADE_DEPTH) l p) (\<lambda>p. Inr (True, p))
        | CartMacro \<Rightarrow> res_bind (macro_stop env p) (\<lambda>p. Inr (False, p))
        | CartAll \<Rightarrow> Inr (False, p)))"

fun stop_lines :: "player_env \<Rightarrow> (log_play \<Rightarrow> log_line \<Rightarrow> bool res) \<Rightarrow> int \<Rightarrow> int list \<Rightarrow> log_play \<Rightarrow> (bool \<times> log_play) res" where
  "stop_lines env test fade [] p = Inr (False, p)"
| "stop_lines env test fade (i # is) p =
     res_bind (of_ptr (LogPlay_logLine p i)) (\<lambda>l. res_bind (test p l) (\<lambda>b.
     res_bind (if b then LogPlay_stop_line env i fade p else Inr (False, p)) (\<lambda>(_, p).
     res_bind (stop_lines env test fade is p) (\<lambda>(any, p). Inr (b \<or> any, p)))))"

definition LogPlay_stop :: "player_env \<Rightarrow> bool \<Rightarrow> int \<Rightarrow> int \<Rightarrow> log_play \<Rightarrow> (bool \<times> log_play) res" where
  "LogPlay_stop env everything portnum fade p =
     (let lines = LogPlay_runningEvents True p;
          test = (\<lambda>p l. Inr (everything \<or> portnum < 1 \<or> log_cart_type l = CartAudio \<and> log_play_deck l \<noteq> None
                   \<and> toInt0 (log_port_name l) = portnum))
      in res_bind (stop_lines env test fade lines p) (\<lambda>(_, p). Inr (lines \<noteq> [], p)))"

definition LogPlay_channelStop :: "player_env \<Rightarrow> int \<Rightarrow> log_play \<Rightarrow> (bool \<times> log_play) res" where
  "LogPlay_channelStop env mport p =
     stop_lines env (\<lambda>p l. case log_play_deck l of
         None \<Rightarrow> Inr False
       | Some k \<Rightarrow> if log_cart_type l = CartAudio
                   then res_bind (vec_get (lp_deck p) (int k)) (\<lambda>d. Inr (play_channel d = mport)) else Inr False)
       0 (LogPlay_runningEvents True p) p"

definition LogPlay_pause :: "int \<Rightarrow> log_play \<Rightarrow> (bool \<times> log_play) res" where
  "LogPlay_pause line p =
     (case LogPlay_logLine p line of
        None \<Rightarrow> Inr (False, p)
      | Some l \<Rightarrow> if log_cart_type l = CartAudio \<and> log_play_deck l \<noteq> None
                  then res_bind (with_deck (\<lambda>d. Inr (RDPlayDeck_pause d)) l p) (\<lambda>p. Inr (True, p))
                  else Inr (False, p))"

fun duck_lines :: "int \<Rightarrow> int \<Rightarrow> int \<Rightarrow> int list \<Rightarrow> log_play \<Rightarrow> log_play res" where
  "duck_lines level fade mport [] p = Inr p"
| "duck_lines level fade mport (i # is) p =
     res_bind (of_ptr (LogPlay_logLine p i)) (\<lambda>l.
     res_bind (if log_cart_type l = CartAudio \<and> log_play_deck l \<noteq> None
                  \<and> (toInt0 (log_port_name l) = mport \<or> mport < 1)
               then with_deck (\<lambda>d. Inr (RDPlayDeck_duckVolume level fade d)) l p else Inr p)
       (duck_lines level fade mport is))"

definition LogPlay_duckVolume :: "int \<Rightarrow> int \<Rightarrow> int \<Rightarrow> log_play \<Rightarrow> log_play res" where
  "LogPlay_duckVolume level fade mport p =
     (let p = (if mport = -1 \<or> mport = 1 then p\<lparr>lp_duck_volume_port1 := level\<rparr> else p);
          p = (if mport = -1 \<or> mport = 2 then p\<lparr>lp_duck_volume_port2 := level\<rparr> else p)
      in duck_lines level fade mport (LogPlay_runningEvents True p) p)"

section \<open>The next playable event\<close>

definition is_meta :: "log_line \<Rightarrow> bool" where
  "is_meta l \<longleftrightarrow> log_type l \<in> {Marker, OpenBracket, CloseBracket, Track, MusicLink, TrafficLink}"

text \<open>\<open>setEvent\<close> writes the line and reports the state of its cart.\<close>

definition prepare_line :: "player_env \<Rightarrow> int \<Rightarrow> log_line \<Rightarrow> log_play \<Rightarrow> (state \<times> log_line \<times> log_play) res" where
  "prepare_line env i l p =
     res_bind (RDLogLine_setEvent (pv_line env) (lp_id p) (log_timescaling_active l) (-1) l) (\<lambda>(st, l').
       Inr (st, l', put_line i (\<lambda>_. l') p))"

text \<open>\<open>GetNextPlayable\<close>: the result is the new value of \<open>*line\<close>, or None when it returns false.\<close>

fun next_playable :: "player_env \<Rightarrow> database \<Rightarrow> bool \<Rightarrow> bool \<Rightarrow> int \<Rightarrow> int list \<Rightarrow> int \<Rightarrow> log_play
    \<Rightarrow> (int option \<times> log_play) res" where
  "next_playable env db skip_meta forced_start line [] skipped p = Inr (None, p)"
| "next_playable env db skip_meta forced_start line (i # is) skipped p =
     (case LogPlay_logLine p i of
        None \<Rightarrow> Inr (None, p)
      | Some l \<Rightarrow>
          if skip_meta \<and> is_meta l
          then next_playable env db skip_meta forced_start line is (skipped + 1)
                 (emit (SigModified i) (put_line i (\<lambda>l. l\<lparr>log_status := status.Finished\<rparr>) p))
          else if log_status l \<in> {Scheduled, Paused, Auditioning}
          then if (log_trans_type l = Stop \<or> lp_op_mode p = LiveAssist) \<and> i - skipped \<noteq> line
               then res_bind (makeNext env db i p) (\<lambda>p. Inr (None, p))
               else res_bind (prepare_line env i l p) (\<lambda>(st, l, p).
                 if st = Ok \<and> log_status l \<in> {Scheduled, Paused} \<and> \<not> log_zombified l
                 then Inr (Some i, emit (SigModified i) p)
                 else let p = emit (SigModified i) (put_line i (RDLogLine_setStartTime Initial (pv_now env)) p)
                      in if log_trans_type l = Stop
                            \<and> (log_cut_number l \<ge> 0 \<and> \<not> log_zombified l \<or> \<not> forced_start)
                         then Inr (Some i, p)
                         else next_playable env db skip_meta forced_start line is skipped p)
          else next_playable env db skip_meta forced_start line is skipped p)"

definition GetNextPlayable :: "player_env \<Rightarrow> database \<Rightarrow> int \<Rightarrow> bool \<Rightarrow> bool \<Rightarrow> log_play \<Rightarrow> (int option \<times> log_play) res" where
  "GetNextPlayable env db line skip_meta forced_start p =
     next_playable env db skip_meta forced_start line [line..LogPlay_size p - 1] 0 p"

section \<open>Starting an audio cart\<close>

definition StartAudioEvent :: "int \<Rightarrow> log_play \<Rightarrow> (bool \<times> log_play) res" where
  "StartAudioEvent line p =
     (let connect = (\<lambda>k p. p\<lparr>lp_deck_conn := (lp_deck_conn p)[k := True]\<rparr>)
      in case LogPlay_logLine p line of
        None \<Rightarrow> Inr (False, p)
      | Some l \<Rightarrow>
          if log_status l \<noteq> Paused
          then let (deck, p) = GetPlayDeck p; p = put_line line (\<lambda>l. l\<lparr>log_play_deck := deck\<rparr>) p
               in case deck of
                    None \<Rightarrow> Inr (False, p)
                  | Some k \<Rightarrow> Inr (True, connect k (put_deck k (RDPlayDeck_setId line (lp_deck p ! k), []) p))
          else Inr (True, case log_play_deck l of None \<Rightarrow> p | Some k \<Rightarrow> connect k p))"

text \<open>The part of the start that fits the deck and the line to an output.\<close>

definition assign_output :: "int \<Rightarrow> int \<Rightarrow> log_play \<Rightarrow> (int \<times> nat \<times> log_play) res" where
  "assign_output line mport p =
     res_bind (GetNextChannel mport p) (\<lambda>(aport, card_num, port_num, p).
     res_bind (of_ptr (LogPlay_logLine p line)) (\<lambda>l.
     res_bind (of_ptr (log_play_deck l)) (\<lambda>k.
       let p = put_deck k (RDPlayDeck_setChannel aport
                 (RDPlayDeck_setPort port_num (RDPlayDeck_setCard card_num (lp_deck p ! k))), []) p;
           portname = GetPortName p card_num port_num;
           p = put_line line (\<lambda>l. l\<lparr>log_pause_card := card_num, log_pause_port := port_num,
                 log_port_name := portname\<rparr>) p;
           level = (if toInt0 portname = 2 then lp_duck_volume_port2 p else lp_duck_volume_port1 p)
       in Inr (aport, k, put_deck k (RDPlayDeck_duckVolume level 0 (lp_deck p ! k)) p))))"

definition deck_setCart :: "player_env \<Rightarrow> int \<Rightarrow> nat \<Rightarrow> log_play \<Rightarrow> (bool \<times> log_play) res" where
  "deck_setCart env line k p =
     res_bind (of_ptr (LogPlay_logLine p line)) (\<lambda>l.
     res_bind (vec_get (lp_deck p) (int k)) (\<lambda>d.
     res_bind (RDPlayDeck_setCart (pv_deck env) l (log_status l \<noteq> Paused) d) (\<lambda>(ok, l, d, out).
       Inr (ok, put_deck k (d, out) (put_line line (\<lambda>_. l) p)))))"

definition cut_number :: "deck_cut \<Rightarrow> int" where
  "cut_number c = toInt0 (qs_right 3 (dc_name c))"

definition evergreen_cut :: "player_env \<Rightarrow> deck_cut \<Rightarrow> bool" where
  "evergreen_cut env c = (case find (\<lambda>q. U_CUT_NAME q = dc_name c) (le_cuts (pv_line env)) of
     None \<Rightarrow> False | Some q \<Rightarrow> RDBool (U_EVERGREEN q))"

definition RDSetMixerOutputPort :: "int \<Rightarrow> int \<Rightarrow> int \<Rightarrow> cae_cmd list" where
  "RDSetMixerOutputPort card_num stream port_num =
     map (\<lambda>i. SetOutputVolume card_num stream (int i) (-10000)) (filter (\<lambda>i. int i \<noteq> port_num) [0..<RD_MAX_PORTS])
     @ [SetOutputVolume card_num stream port_num 0]"

text \<open>The line takes over the cut; a position behind the end starts from 0.\<close>

definition cut_to_line :: "player_env \<Rightarrow> bool \<Rightarrow> deck_cut \<Rightarrow> log_line \<Rightarrow> log_line" where
  "cut_to_line env scaling c l =
     (let l = l\<lparr>log_cut_number := cut_number c, log_evergreen := evergreen_cut env c\<rparr>;
          l = (if scaling \<and> log_enforce_length l then l\<lparr>log_timescaling_active := True\<rparr> else l)
      in if log_play_position l > RDLogLine_effectiveLength l then l\<lparr>log_play_position := 0\<rparr> else l)"

definition start_time_kind :: "log_line \<Rightarrow> start_time_type" where
  "start_time_kind l = (if log_status l = Paused then Actual else Initial)"

text \<open>The playout of a deck that has its cart; the result says whether the line was paused.\<close>

definition play_deck_line :: "player_env \<Rightarrow> int \<Rightarrow> nat \<Rightarrow> int \<Rightarrow> int \<Rightarrow> log_play \<Rightarrow> (bool \<times> log_play) res" where
  "play_deck_line env line k aport duck_length p =
     (let p = emit (SigModified line) p
      in res_bind (of_ptr (LogPlay_logLine p line)) (\<lambda>l. res_bind (of_ptr (play_cut (lp_deck p ! k))) (\<lambda>c.
         let p = put_line line (cut_to_line env (lp_timescaling_available p) c) p; d = lp_deck p ! k;
             l = cut_to_line env (lp_timescaling_available p) c l;
             p = p\<lparr>lp_out := lp_out p @ map OutCae (RDSetMixerOutputPort (play_card d) (play_stream d) (play_port d))\<rparr>
         in res_bind (RDPlayDeck_play (pv_now env) (log_play_position l) (-1) (-1) duck_length d) (\<lambda>(d, out).
            let p = put_deck k (d, out) p;
                p = put_line line (\<lambda>l. (RDLogLine_setStartTime (start_time_kind l) (play_start_time d) l)
                      \<lparr>log_status := Playing\<rparr>) p
            in res_bind (vec_get (lp_start_rml p) aport) (\<lambda>rml.
               let p = (if rml = '''' then p else emit (OutExecRml (RDLogLine_resolveWildcards rml l)) p)
               in Inr (log_status l = Paused,
                    emit (SigChannelStarted (lp_id p) (play_channel d) (play_card d) (play_port d)) p))))))"

section \<open>Answers of the decks\<close>

text \<open>A refresh deletes every line still scheduled; its pointer is read again by \<open>LogPlayEvent\<close>.\<close>

definition LogPlay_Playing :: "player_env \<Rightarrow> database \<Rightarrow> int \<Rightarrow> log_play \<Rightarrow> log_play res" where
  "LogPlay_Playing env db line p =
     (case LogPlay_logLine p line of
        None \<Rightarrow> Inr p
      | Some l \<Rightarrow>
          res_bind (UpdateStartTimes p) (\<lambda>p.
          res_bind (UpdatePostPoint env (AdvanceActiveEvent (emit (SigPlayed line) p))) (\<lambda>p.
          res_bind (RefreshEvents env db line LOGPLAY_LOOKAHEAD_EVENTS False p) (\<lambda>q.
            if refreshes env p \<and> log_status l = Scheduled then Inl Dangling
            else Inr (emit SigTransportChanged (emit (OutLogPlayout (log_cart_number l) (log_cut_number l)) q))))))"

definition LogPlay_Paused :: "player_env \<Rightarrow> int \<Rightarrow> log_play \<Rightarrow> log_play res" where
  "LogPlay_Paused env line p =
     res_bind (case LogPlay_logLine p line of
         None \<Rightarrow> Inr p
       | Some l \<Rightarrow> res_bind (of_ptr (log_play_deck l)) (\<lambda>k.
           Inr (put_line line (\<lambda>l. l\<lparr>log_port_name := '''', log_status := Paused\<rparr>)
             (p\<lparr>lp_deck_conn := (lp_deck_conn p)[k := False]\<rparr>)))) (\<lambda>p.
     res_bind (UpdateStartTimes p) (\<lambda>p.
     res_bind (UpdatePostPoint env (emit (SigPaused line) p)) (\<lambda>p.
     res_bind (log_traffic env (LogPlay_logLine p line) TrafficPause p) (\<lambda>p. Inr (emit SigTransportChanged p)))))"

definition LogPlay_Finished :: "player_env \<Rightarrow> (int \<Rightarrow> log_play \<Rightarrow> log_play run) \<Rightarrow> int \<Rightarrow> log_play \<Rightarrow> log_play run" where
  "LogPlay_Finished env finish_event line p =
     (case LogPlay_logLine p line of
        None \<Rightarrow> Some (Inr p)
      | Some l \<Rightarrow>
          run_bind (if log_status l = Playing then run_bind (Some (CleanupEvent env line p)) (finish_event line)
                    else Some (Inr p)) (\<lambda>p. Some (
          res_bind (UpdatePostPoint env p) (\<lambda>p.
            let p = (if LogPlay_running True p then p else p\<lparr>lp_next_channel := 0\<rparr>)
            in res_bind (log_traffic env (Some l) TrafficFinish p) (\<lambda>p. Inr (emit SigTransportChanged p))))))"

text \<open>A cart without audio: the line is marked, and the deck's start and end are played through.\<close>

definition fake_event :: "player_env \<Rightarrow> database \<Rightarrow> (int \<Rightarrow> log_play \<Rightarrow> log_play run) \<Rightarrow> int \<Rightarrow> nat \<Rightarrow> log_play
    \<Rightarrow> log_play run" where
  "fake_event env db finish_event line k p =
     run_bind (Some (LogPlay_Playing env db (play_id (lp_deck p ! k))
         (put_line line (\<lambda>l. l\<lparr>log_zombified := True\<rparr>) p))) (\<lambda>p.
     run_bind (LogPlay_Finished env finish_event (play_id (lp_deck p ! k))
         (put_line line (\<lambda>l. l\<lparr>log_status := Playing\<rparr>) p)) (\<lambda>p.
       Some (Inr (put_line line (\<lambda>l. l\<lparr>log_status := status.Finished\<rparr>) p))))"

section \<open>Starting an event\<close>

text \<open>The transition out of the running events: a play transition stops them, a segue fades out those
  that play.\<close>

fun stop_for_play :: "player_env \<Rightarrow> int list \<Rightarrow> log_play \<Rightarrow> log_play res" where
  "stop_for_play env [] p = Inr p"
| "stop_for_play env (i # is) p =
     res_bind (case LogPlay_logLine p i of
         None \<Rightarrow> Inr p
       | Some l \<Rightarrow>
           if log_type l \<in> {Cart, Macro} \<and> log_status l \<noteq> Paused
           then (case log_cart_type l of
                   CartAudio \<Rightarrow> with_deck (\<lambda>d. Inr (RDPlayDeck_stop d)) l p
                 | CartMacro \<Rightarrow> macro_stop env p
                 | CartAll \<Rightarrow> Inr p)
           else Inr p)
       (stop_for_play env is)"

fun stop_for_segue :: "player_env \<Rightarrow> int \<Rightarrow> int list \<Rightarrow> log_play \<Rightarrow> log_play res" where
  "stop_for_segue env trans_length [] p = Inr p"
| "stop_for_segue env trans_length (i # is) p =
     res_bind (case LogPlay_logLine p i of
         None \<Rightarrow> Inr p
       | Some l \<Rightarrow>
           if log_status l = Playing \<and> log_type l \<in> {Cart, Macro}
           then (case log_cart_type l of
                   CartAudio \<Rightarrow> with_deck (RDPlayDeck_stop_fade (pv_now env) trans_length (-10000)) l
                     (put_line i (\<lambda>l. l\<lparr>log_status := Finishing\<rparr>) p)
                 | CartMacro \<Rightarrow> macro_stop env p
                 | CartAll \<Rightarrow> Inr p)
           else Inr p)
       (stop_for_segue env trans_length is)"

definition transition :: "player_env \<Rightarrow> trans_type \<Rightarrow> int \<Rightarrow> log_play \<Rightarrow> log_play res" where
  "transition env trans_type trans_length p =
     (if lp_op_mode p = ManualMode then Inr p
      else case trans_type of
        Play \<Rightarrow> stop_for_play env (LogPlay_runningEvents True p) p
      | Segue \<Rightarrow> stop_for_segue env trans_length (LogPlay_runningEvents True p) p
      | _ \<Rightarrow> Inr p)"

definition clear_last_transition :: "int \<Rightarrow> log_play \<Rightarrow> log_play" where
  "clear_last_transition line p =
     (case LogPlay_logLine p (line - 1) of
        None \<Rightarrow> p
      | Some l \<Rightarrow> if log_status l = Scheduled
                  then put_line (line - 1) (RDLogLine_clearTrackData TrailingTrans) p else p)"

text \<open>The end of \<open>StartEvent\<close>: lines in an unknown state are skipped, and the next line is reported.\<close>

definition settle_next :: "log_play \<Rightarrow> log_play" where
  "settle_next p =
     (let n = (case LogPlay_logLine p (lp_next_line p) of
           None \<Rightarrow> -1
         | Some _ \<Rightarrow> (case find (\<lambda>i. case LogPlay_logLine p i of None \<Rightarrow> False
                                  | Some l \<Rightarrow> log_state l \<in> {Ok, NoCart, NoCut})
                          [lp_next_line p..LogPlay_size p - 1] of None \<Rightarrow> -1 | Some i \<Rightarrow> i))
      in emit (OutLogCurrentLine n) (p\<lparr>lp_next_line := n\<rparr>))"

text \<open>\<open>play_start_next\<close> ends at the placeholder of the end of the log (ID -2); the branches test the ID
  of different lines.\<close>

definition end_start_next :: "bool \<Rightarrow> log_play \<Rightarrow> log_play" where
  "end_start_next b p = (if b then p\<lparr>lp_start_next := False\<rparr> else p)"

definition placeholder_at :: "int \<Rightarrow> log_play \<Rightarrow> bool" where
  "placeholder_at i p = (case LogPlay_logLine p i of None \<Rightarrow> False | Some l \<Rightarrow> log_id l = -2)"

definition next_after_cart :: "int \<Rightarrow> bool \<Rightarrow> log_play \<Rightarrow> log_play" where
  "next_after_cart line was_paused p =
     (if lp_next_line p \<ge> 0 \<and> \<not> was_paused
      then let p = p\<lparr>lp_next_line := line + 1\<rparr>
           in emit (SigNextEventChanged (line + 1)) (end_start_next (placeholder_at (line + 1) p) p)
      else p)"

definition play_cart_line :: "player_env \<Rightarrow> database \<Rightarrow> (int \<Rightarrow> log_play \<Rightarrow> log_play run) \<Rightarrow> int \<Rightarrow> int \<Rightarrow> nat \<Rightarrow> int
    \<Rightarrow> log_play \<Rightarrow> (bool \<times> log_play) run" where
  "play_cart_line env db finish_event line aport k duck_length p =
     run_bind (Some (deck_setCart env line k p)) (\<lambda>(ok, p).
       if ok
       then run_bind (Some (play_deck_line env line k aport duck_length p)) (\<lambda>(was_paused, p).
              Some (Inr (True, settle_next (next_after_cart line was_paused p))))
       else run_bind (fake_event env db finish_event line k p) (\<lambda>p.
              Some (Inr (False, emit (OutLogCurrentLine (lp_next_line p)) p))))"

definition start_cart :: "player_env \<Rightarrow> database \<Rightarrow> (int \<Rightarrow> log_play \<Rightarrow> log_play run) \<Rightarrow> int \<Rightarrow> int \<Rightarrow> int \<Rightarrow> log_play
    \<Rightarrow> (bool \<times> log_play) run" where
  "start_cart env db finish_event line mport duck_length p =
     run_bind (Some (StartAudioEvent line p)) (\<lambda>(started, p).
       if started
       then run_bind (Some (assign_output line mport p)) (\<lambda>(aport, k, p).
              play_cart_line env db finish_event line aport k duck_length p)
       else Some (Inr (False, emit (OutLogCurrentLine (lp_next_line p)) p)))"

text \<open>The command that runs a macro cart elsewhere.\<close>

definition RML_EX :: command where "RML_EX = 0x4558"

definition exec_cart_rml :: "nat \<Rightarrow> rdmacro res" where
  "exec_cart_rml n = RDMacro_setArg 0 (QNumber (int n))
     (new_rdmacro\<lparr>rml_cmd := RML_EX, rml_addr := ''127.0.0.1'', rml_role := RoleCmd, rml_echo_requested := False,
        rml_arg_quantity := 1\<rparr>)"

definition load_macro_deck :: "(macro_event \<Rightarrow> (bool \<times> macro_event) res) \<Rightarrow> int \<Rightarrow> log_play \<Rightarrow> log_play res" where
  "load_macro_deck f line p =
     res_bind (f (lp_macro_deck p)) (\<lambda>(_, ev). Inr (set_macro_line line (p\<lparr>lp_macro_deck := ev\<rparr>)))"

definition start_macro :: "player_env \<Rightarrow> database \<Rightarrow> (int \<Rightarrow> log_play \<Rightarrow> log_play run) \<Rightarrow> int \<Rightarrow> log_line \<Rightarrow> log_play
    \<Rightarrow> log_play run" where
  "start_macro env db finish_event line l p =
     (let p = (if lp_next_line p \<ge> 0
               then let p = p\<lparr>lp_next_line := line + 1\<rparr>
                    in if LogPlay_logLine p (line + 1) = None then p
                       else (if log_forced_stop l then put_line (line + 1) (\<lambda>l. l\<lparr>log_trans_type := Stop\<rparr>) else id)
                              (end_start_next (log_id l = -2) p)
               else p)
      in if log_asyncronous l
         then run_bind (Some (exec_cart_rml (log_cart_number l))) (\<lambda>m.
              let p = put_line line (\<lambda>l. (RDLogLine_setStartTime Actual (pv_now env) l)\<lparr>log_status := status.Finished\<rparr>)
                        (emit (SigPlayed line) (emit (OutMacro (SendRml m)) p))
              in run_bind (Some (log_traffic env (LogPlay_logLine p line) TrafficMacro p)) (\<lambda>p.
                 run_bind (finish_event line p) (\<lambda>p. Some (Inr (emit SigTransportChanged p)))))
         else run_bind (Some (load_macro_deck
                (RDMacroEvent_load_cart (le_macros (pv_line env) (log_cart_number l))) line p))
              (macro_exec env db finish_event))"

definition start_marker :: "player_env \<Rightarrow> (int \<Rightarrow> log_play \<Rightarrow> log_play run) \<Rightarrow> int \<Rightarrow> log_play \<Rightarrow> log_play run" where
  "start_marker env finish_event line p =
     (let p = (if lp_next_line p \<ge> 0
               then let p = p\<lparr>lp_next_line := line + 1\<rparr>
                    in end_start_next (LogPlay_logLine p (line + 1) = None \<or> placeholder_at (line + 1) p) p
               else p)
      in run_bind (Some (UpdateStartTimes (put_line line (\<lambda>l. l\<lparr>log_status := status.Finished\<rparr>) p))) (\<lambda>p.
         run_bind (finish_event line (emit (SigPlayed line) p)) (\<lambda>p.
           Some (Inr (emit (SigNextEventChanged (lp_next_line p)) p)))))"

text \<open>A chain runs the command that loads the other log. The transition type of that log is read, but
  both branches of the test are the same.\<close>

definition chain_rml :: "int \<Rightarrow> string \<Rightarrow> string" where
  "chain_rml machine label = ''LL '' @ string_of_int machine @ '' '' @ label @ '' -2!''"

definition start_chain :: "player_env \<Rightarrow> database \<Rightarrow> (int \<Rightarrow> log_play \<Rightarrow> log_play run) \<Rightarrow> int \<Rightarrow> log_line \<Rightarrow> log_play
    \<Rightarrow> log_play run" where
  "start_chain env db finish_event line l p =
     (let p = (if lp_next_line p > 0
               then let p = p\<lparr>lp_next_line := line + 1\<rparr>
                    in end_start_next (LogPlay_logLine p (line + 1) = None \<or> placeholder_at (line + 1) p) p
               else p)
      in run_bind (Some (load_macro_deck (RDMacroEvent_load (chain_rml (lp_id p + 1) (log_marker_label l))) line p))
           (macro_exec env db finish_event))"

text \<open>The event of a line, with the \<open>FinishEvent\<close> it calls; audio carts settle the next line themselves.\<close>

definition start_line :: "player_env \<Rightarrow> database \<Rightarrow> (int \<Rightarrow> log_play \<Rightarrow> log_play run) \<Rightarrow> int \<Rightarrow> int \<Rightarrow> int \<Rightarrow> log_line
    \<Rightarrow> log_play \<Rightarrow> (bool \<times> log_play) run" where
  "start_line env db finish_event line mport duck_length l p =
     (let settled = (\<lambda>r. run_bind r (\<lambda>p. Some (Inr (True, settle_next p))))
      in case log_type l of
           Cart \<Rightarrow> start_cart env db finish_event line mport duck_length p
         | Macro \<Rightarrow> settled (start_macro env db finish_event line l p)
         | Chain \<Rightarrow> settled (start_chain env db finish_event line l p)
         | _ \<Rightarrow> if log_type l \<in> {Marker, Track, MusicLink, TrafficLink}
                then settled (start_marker env finish_event line p)
                else Some (Inr (True, settle_next p)))"

definition start_event :: "player_env \<Rightarrow> database \<Rightarrow> (int \<Rightarrow> log_play \<Rightarrow> log_play run) \<Rightarrow> int \<Rightarrow> trans_type \<Rightarrow> int
    \<Rightarrow> start_source \<Rightarrow> int \<Rightarrow> int \<Rightarrow> log_play \<Rightarrow> (bool \<times> log_play) run" where
  "start_event env db finish_event line trans_type trans_length src mport duck_length p =
     (case LogPlay_logLine p line of
        None \<Rightarrow> Some (Inr (False, p))
      | Some l0 \<Rightarrow>
          if log_id l0 < 0 then Some (Inr (False, p))
          else run_bind (Some (transition env trans_type trans_length p)) (\<lambda>p.
            let p = put_line line (\<lambda>l. l\<lparr>log_start_source := src\<rparr>) (clear_last_transition line p)
            in run_bind (Some (of_ptr (LogPlay_logLine p line)))
                 (\<lambda>l. start_line env db finish_event line mport duck_length l p)))"

text \<open>\<open>FinishEvent\<close> starts the next event in automatic mode. The first number bounds the nesting.\<close>

definition stopped_tail :: "int \<Rightarrow> log_play \<Rightarrow> log_play run" where
  "stopped_tail line p = Some (res_bind (UpdateStartTimes p) (\<lambda>p. Inr (emit (SigStopped line) p)))"

fun FinishEvent :: "nat \<Rightarrow> player_env \<Rightarrow> database \<Rightarrow> int \<Rightarrow> log_play \<Rightarrow> log_play run" where
  "FinishEvent 0 env db line p = None"
| "FinishEvent (Suc n) env db line p =
     (let prev_next_line = lp_next_line p
      in run_bind (Some (GetNextPlayable env db (lp_next_line p) False False p)) (\<lambda>(next_line, p).
           case next_line of
             None \<Rightarrow> stopped_tail line p
           | Some i \<Rightarrow>
               let p = p\<lparr>lp_next_line := i\<rparr>
               in if i < 0 then stopped_tail line p
                  else (case LogPlay_logLine p i of
                    None \<Rightarrow> Some (Inr p)
                  | Some l \<Rightarrow>
                      if lp_op_mode p = Auto \<and> log_id l \<noteq> -1 \<and> log_trans_type l \<in> {Play, Segue}
                      then run_bind (start_event env db (FinishEvent n env db) i (log_trans_type l) 0 StartPlay (-1) 0 p)
                             (\<lambda>(_, p). stopped_tail line (SetTransTimer env 0 (prev_next_line = lp_trans_line p) p))
                      else stopped_tail line p)))"

text \<open>Each nested start takes a line out of those that wait, so the lines of the log are enough fuel.\<close>

definition run_fuel :: "log_play \<Rightarrow> nat" where
  "run_fuel p = Suc (length (log_lines (lp_log p)))"

definition LogPlay_FinishEvent :: "player_env \<Rightarrow> database \<Rightarrow> int \<Rightarrow> log_play \<Rightarrow> log_play run" where
  "LogPlay_FinishEvent env db line p = FinishEvent (run_fuel p) env db line p"

definition StartEvent :: "player_env \<Rightarrow> database \<Rightarrow> int \<Rightarrow> trans_type \<Rightarrow> int \<Rightarrow> start_source \<Rightarrow> int \<Rightarrow> int \<Rightarrow> log_play
    \<Rightarrow> (bool \<times> log_play) run" where
  "StartEvent env db line trans_type trans_length src mport duck_length p =
     start_event env db (FinishEvent (run_fuel p) env db) line trans_type trans_length src mport duck_length p"

section \<open>Commands of the user\<close>

text \<open>The loop over the intervening events only counts them.\<close>

definition LogPlay_play :: "player_env \<Rightarrow> database \<Rightarrow> int \<Rightarrow> start_source \<Rightarrow> int \<Rightarrow> bool \<Rightarrow> log_play \<Rightarrow> (bool \<times> log_play) run" where
  "LogPlay_play env db line src mport skip_meta p =
     (case LogPlay_logLine p line of
        None \<Rightarrow> Some (Inr (False, p))
      | Some l \<Rightarrow>
          if int (length (LogPlay_runningEvents True p)) \<ge> LOGPLAY_MAX_PLAYS \<and> log_status l \<noteq> Paused
          then Some (Inr (False, p))
          else run_bind (Some (GetNextPlayable env db line (lp_op_mode p \<noteq> Auto \<and> skip_meta) True p))
            (\<lambda>(next_line, p). case next_line of
               None \<Rightarrow> Some (Inr (False, p))
             | Some i \<Rightarrow>
                 run_bind (StartEvent env db i (if lp_segue_length p = 0 then Play else Segue) (lp_segue_length p)
                     src mport 0 p)
                   (\<lambda>(ret, p). Some (Inr (ret, SetTransTimer env (pv_now env) True p)))))"

definition LogPlay_channelPlay :: "player_env \<Rightarrow> database \<Rightarrow> int \<Rightarrow> log_play \<Rightarrow> (bool \<times> log_play) run" where
  "LogPlay_channelPlay env db mport p =
     (if lp_next_line p < 0 then Some (Inr (False, p))
      else LogPlay_play env db (lp_next_line p) StartChannel mport False p)"

definition LogPlay_setOpMode :: "op_mode \<Rightarrow> log_play \<Rightarrow> log_play res" where
  "LogPlay_setOpMode mode p =
     (if mode = lp_op_mode p then Inr p else UpdateStartTimes (p\<lparr>lp_op_mode := mode\<rparr>))"

definition LogPlay_setServiceName :: "string \<Rightarrow> log_play \<Rightarrow> log_play" where
  "LogPlay_setServiceName svcname p = p\<lparr>lp_svc_name := svcname\<rparr>"

definition LogPlay_setDefaultServiceName :: "string \<Rightarrow> log_play \<Rightarrow> log_play" where
  "LogPlay_setDefaultServiceName svcname p = p\<lparr>lp_defaultsvc_name := svcname\<rparr>"

definition LogPlay_setSegueLength :: "int \<Rightarrow> log_play \<Rightarrow> log_play" where
  "LogPlay_setSegueLength len p = p\<lparr>lp_segue_length := len\<rparr>"

definition LogPlay_setChannels :: "int \<times> int \<Rightarrow> int \<times> int \<Rightarrow> string \<times> string \<Rightarrow> string \<times> string \<Rightarrow> log_play \<Rightarrow> log_play" where
  "LogPlay_setChannels cards ports start_rml stop_rml p =
     p\<lparr>lp_card := [fst cards, snd cards], lp_port := [fst ports, snd ports],
       lp_start_rml := [fst start_rml, snd start_rml], lp_stop_rml := [fst stop_rml, snd stop_rml],
       lp_out := lp_out p @ [OutRequestTimescale (fst cards), OutRequestTimescale (snd cards)]\<rparr>"

definition lineModified :: "player_env \<Rightarrow> int \<Rightarrow> log_play \<Rightarrow> log_play res" where
  "lineModified env line p =
     res_bind (UpdateStartTimes (SetTransTimer env 0 True p)) (\<lambda>p.
     res_bind (case LogPlay_logLine p line of
         None \<Rightarrow> Inr p
       | Some l \<Rightarrow> res_bind (RDLogLine_loadCart (pv_line env) (int (log_cart_number l)) (lp_id p)
             (log_timescaling_active l) NoTrans (-1) l) (\<lambda>l'. Inr (put_line line (\<lambda>_. l') p))) (\<lambda>p.
     res_bind (UpdatePostPoint env (emit (SigModified line) p)) (\<lambda>p. Inr (emit SigTransportChanged p))))"

definition LogPlay_resync :: "player_env \<Rightarrow> log_play \<Rightarrow> log_play" where
  "LogPlay_resync env p = SetTransTimer env 0 True p"

section \<open>Timers and signals\<close>

text \<open>The answer of the engine about a card; the array is indexed by the cards of the two channels.\<close>

definition timescalingSupportedData :: "int \<Rightarrow> bool \<Rightarrow> log_play \<Rightarrow> log_play res" where
  "timescalingSupportedData card_num state p =
     (if card_num \<ge> 0
      then res_bind (vec_mod (\<lambda>_. state) card_num (lp_timescaling_supported p)) (\<lambda>sup.
           res_bind (vec_get (lp_card p) 0) (\<lambda>c0. res_bind (vec_get sup c0) (\<lambda>b0.
           res_bind (if b0 then res_bind (vec_get (lp_card p) 1) (vec_get sup) else Inr False) (\<lambda>b.
             Inr (p\<lparr>lp_timescaling_supported := sup, lp_timescaling_available := b\<rparr>)))))
      else Inr (p\<lparr>lp_timescaling_available := False\<rparr>))"

definition onairFlagChangedData :: "bool \<Rightarrow> log_play \<Rightarrow> log_play" where
  "onairFlagChangedData state p = p\<lparr>lp_onair_flag := state\<rparr>"

text \<open>The transition to a hard start line: \<open>trans_line\<close> is the line the timer was set for,
  \<open>play_trans_line\<close> the playable line found from there.\<close>

definition start_hard :: "player_env \<Rightarrow> database \<Rightarrow> int \<Rightarrow> log_play \<Rightarrow> log_play run" where
  "start_hard env db line p =
     run_bind (if lp_trans_length p = 0 then StartEvent env db line Play 0 StartTime (-1) 0 p
               else StartEvent env db line Segue (lp_trans_length p) StartTime (-1) 0 p)
       (\<lambda>(_, p). Some (Inr p))"

definition arm_grace :: "int \<Rightarrow> log_play \<Rightarrow> log_play" where
  "arm_grace grace p =
     (let line = lp_trans_line p
      in (put_line line (\<lambda>l. RDLogLine_setStartTime Predicted (qtime_addMSecs (log_start_time l Predicted) grace)
             (if log_trans_type l = Stop then l\<lparr>log_trans_type := Play\<rparr> else l)) p)
           \<lparr>lp_grace_line := line, lp_grace_timer := Some grace\<rparr>)"

definition hard_time :: "player_env \<Rightarrow> database \<Rightarrow> int \<Rightarrow> log_line \<Rightarrow> log_play \<Rightarrow> log_play run" where
  "hard_time env db trans_line l p =
     (let next_event = Some (makeNext env db (lp_trans_line p) p)
      in if LogPlay_runningEvents True p = []
         then run_bind next_event (\<lambda>q.
                if refreshes env p then Some (Inl Dangling)
                else if log_trans_type l \<noteq> Stop \<or> log_grace_time l \<ge> 0
                then run_bind (StartEvent env db trans_line Play 0 StartTime (-1) 0 q) (\<lambda>(_, q). Some (Inr q))
                else Some (Inr q))
         else if log_grace_time l = 0 then run_bind next_event (start_hard env db trans_line)
         else if log_grace_time l = -1 then next_event
         else Some (Inr (arm_grace (log_grace_time l) p)))"

definition transTimerData :: "player_env \<Rightarrow> database \<Rightarrow> log_play \<Rightarrow> log_play run" where
  "transTimerData env db p =
     (let trans_line = lp_trans_line p; p = p\<lparr>lp_grace_timer := None\<rparr>;
          resync = (\<lambda>p. Some (Inr (SetTransTimer env 0 True p)))
      in if lp_op_mode p \<noteq> Auto then resync p
         else run_bind (Some (GetNextPlayable env db (lp_trans_line p) False False p)) (\<lambda>(line, p). case line of
           None \<Rightarrow> resync p
         | Some i \<Rightarrow>
             let p = p\<lparr>lp_trans_line := i\<rparr>
             in run_bind (Some (of_ptr (LogPlay_logLine p i))) (\<lambda>l.
                run_bind (hard_time env db trans_line l p) resync)))"

definition graceTimerData :: "player_env \<Rightarrow> database \<Rightarrow> log_play \<Rightarrow> log_play run" where
  "graceTimerData env db p =
     (if lp_op_mode p \<noteq> Auto then Some (Inr p)
      else run_bind (Some (GetNextPlayable env db (lp_grace_line p) False False p)) (\<lambda>(line, p). case line of
        None \<Rightarrow> Some (Inr (SetTransTimer env 0 True p))
      | Some i \<Rightarrow>
          if i \<noteq> lp_grace_line p then Some (Inr p)
          else let idle = (LogPlay_runningEvents True p = [])
               in run_bind (Some (makeNext env db (lp_grace_line p) p)) (\<lambda>p.
                    if idle
                    then run_bind (StartEvent env db (lp_grace_line p) Play 0 StartTime (-1) 0 p)
                           (\<lambda>(_, p). Some (Inr p))
                    else start_hard env db (lp_grace_line p) p)))"

text \<open>\<open>segueTail\<close> of the line; the next event's transition type is read before the next playable line
  is looked up.\<close>

definition segueStartData :: "player_env \<Rightarrow> database \<Rightarrow> int \<Rightarrow> log_play \<Rightarrow> log_play run" where
  "segueStartData env db line p =
     (case (LogPlay_nextEvent p, LogPlay_logLine p line) of
        (Some next_logline, Some l) \<Rightarrow>
          if lp_op_mode p = Auto \<and> log_trans_type next_logline = Segue \<and> log_status l = Playing \<and> log_id l \<noteq> -1
          then run_bind (Some (GetNextPlayable env db (lp_next_line p) False False p)) (\<lambda>(next_line, p).
                 case next_line of
                   None \<Rightarrow> Some (Inr p)
                 | Some i \<Rightarrow>
                     let p = p\<lparr>lp_next_line := i\<rparr>
                     in run_bind (Some (of_ptr (LogPlay_logLine p line))) (\<lambda>l.
                        let tail = RDLogLine_segueTail l Segue
                        in run_bind (StartEvent env db i Segue tail StartSegue (-1) tail p)
                             (\<lambda>(_, p). Some (Inr (SetTransTimer env 0 True p)))))
          else Some (Inr p)
      | _ \<Rightarrow> Some (Inr p))"

definition segueEndData :: "player_env \<Rightarrow> int \<Rightarrow> log_play \<Rightarrow> log_play res" where
  "segueEndData env line p =
     (case LogPlay_logLine p line of
        None \<Rightarrow> Inr p
      | Some l \<Rightarrow>
          if lp_op_mode p = Auto \<and> log_status l = Finishing
          then res_bind (with_deck (\<lambda>d. Inr (RDPlayDeck_stop d)) l p) (\<lambda>p.
               res_bind (CleanupEvent env line p) (\<lambda>p.
               res_bind (UpdateStartTimes p) (\<lambda>p.
               res_bind (log_traffic env (LogPlay_logLine p line) TrafficFinish p) (\<lambda>p.
                 Inr (emit SigTransportChanged (emit (SigStopped line) p))))))
          else Inr p)"

definition positionData :: "int \<Rightarrow> int \<Rightarrow> log_play \<Rightarrow> log_play" where
  "positionData line pos p =
     (case LogPlay_logLine p line of
        None \<Rightarrow> p
      | Some l \<Rightarrow> if pos > RDLogLine_effectiveLength l then p
                  else emit (SigPosition line pos) (put_line line (\<lambda>l. l\<lparr>log_play_position := pos\<rparr>) p))"

definition playStateChangedData :: "player_env \<Rightarrow> database \<Rightarrow> int \<Rightarrow> deck_state \<Rightarrow> log_play \<Rightarrow> log_play run" where
  "playStateChangedData env db line state p =
     (case state of
        DeckPlaying \<Rightarrow> Some (LogPlay_Playing env db line p)
      | DeckPaused \<Rightarrow> Some (LogPlay_Paused env line p)
      | DeckStopping \<Rightarrow> Some (Inr p)
      | DeckStopped \<Rightarrow> Some (LogPlay_Stopped env line p)
      | DeckFinished \<Rightarrow> LogPlay_Finished env (FinishEvent (run_fuel p) env db) line p)"

section \<open>The constructor\<close>

text \<open>The members the constructor leaves alone keep the content of the memory, \<open>raw\<close>; the strings and the
  dates are empty.\<close>

definition LogPlay_new :: "int \<Rightarrow> int \<times> int \<Rightarrow> string \<Rightarrow> string \<Rightarrow> nat \<Rightarrow> play_deck \<Rightarrow> log_play \<Rightarrow> log_play" where
  "LogPlay_new i conf addr logname junk deck_mem raw = raw\<lparr>
     lp_log := \<lparr>log_name = logname, log_service_name = '''', log_max_id = 0, log_lines = []\<rparr>,
     lp_play_log := False, lp_id := i, lp_onair_flag := False,
     lp_segue_length := fst conf + 1, lp_trans_length := snd conf + 1,
     lp_duck_volume_port1 := 0, lp_duck_volume_port2 := 0, lp_start_next := False, lp_running := False,
     lp_next_line := 0, lp_post_time := 0, lp_post_offset := -1, lp_active_line := -1, lp_active_trans := Play,
     lp_trans_line := -1, lp_grace_line := -1, lp_next_channel := 0, lp_timescaling_available := False,
     lp_rescan_pos := 0, lp_refreshable := False, lp_card := [0, 0], lp_port := [0, 0],
     lp_start_rml := ['''', ''''], lp_stop_rml := ['''', ''''], lp_next_stop := 0,
     lp_svc_name := '''', lp_defaultsvc_name := '''', lp_link_datetime := 0, lp_modified_datetime := 0,
     lp_deck := replicate RD_MAX_STREAMS (RDPlayDeck_new 0 deck_mem),
     lp_deck_active := replicate RD_MAX_STREAMS False, lp_deck_conn := replicate RD_MAX_STREAMS False,
     lp_macro_running := False, lp_refresh_pending := False, lp_op_mode := Auto,
     lp_macro_deck := RDMacroEvent_new addr True junk,
     lp_trans_timer := None, lp_grace_timer := None, lp_out := []\<rparr>"

section \<open>The player as a state machine\<close>

text \<open>The signals of a deck, delivered while it is connected. All of them end the deck's operation.\<close>

fun deck_signals :: "player_env \<Rightarrow> database \<Rightarrow> nat \<Rightarrow> deck_out list \<Rightarrow> log_play \<Rightarrow> log_play run" where
  "deck_signals env db k [] p = Some (Inr p)"
| "deck_signals env db k (x # xs) p =
     run_bind
       (if lp_deck_conn p ! k
        then (case x of
            StateChanged i s \<Rightarrow> playStateChangedData env db i s p
          | DeckPosition i pos \<Rightarrow> Some (Inr (positionData i pos p))
          | PointStart SeguePoint i \<Rightarrow> segueStartData env db i p
          | PointEnd SeguePoint i \<Rightarrow> Some (segueEndData env i p)
          | _ \<Rightarrow> Some (Inr p))
        else Some (Inr p))
       (deck_signals env db k xs)"

text \<open>What the engine and the timers of a deck do.\<close>

definition deck_answer :: "deck_event \<Rightarrow> bool" where
  "deck_answer ev = (case ev of EvPlaying _ \<Rightarrow> True | EvPlayStopped _ \<Rightarrow> True | EvPoint _ \<Rightarrow> True
     | EvPosition _ \<Rightarrow> True | EvFade \<Rightarrow> True | EvDuck \<Rightarrow> True | EvStopTimer \<Rightarrow> True | _ \<Rightarrow> False)"

text \<open>One event of playing: a command of the user that plays, stops or pauses, an answer of a deck, a timer, or an
  answer of the host.\<close>

inductive air_step :: "player_env \<Rightarrow> database \<Rightarrow> log_play \<Rightarrow> log_play \<Rightarrow> bool" for env db where
  play: "LogPlay_play env db line src mport skip p = Some (Inr (b, p')) \<Longrightarrow> air_step env db p p'"
| channel_play: "LogPlay_channelPlay env db mport p = Some (Inr (b, p')) \<Longrightarrow> air_step env db p p'"
| stop: "LogPlay_stop env everything portnum fade p = Inr (b, p') \<Longrightarrow> air_step env db p p'"
| stop_line: "LogPlay_stop_line env line fade p = Inr (b, p') \<Longrightarrow> air_step env db p p'"
| channel_stop: "LogPlay_channelStop env mport p = Inr (b, p') \<Longrightarrow> air_step env db p p'"
| pause: "LogPlay_pause line p = Inr (b, p') \<Longrightarrow> air_step env db p p'"
| duck: "LogPlay_duckVolume level fade mport p = Inr p' \<Longrightarrow> air_step env db p p'"
| make_next: "makeNext env db line p = Inr p' \<Longrightarrow> air_step env db p p'"
| rescan: "rescanEventsData env db p = Inr p' \<Longrightarrow> air_step env db p p'"
| mode: "LogPlay_setOpMode m p = Inr p' \<Longrightarrow> air_step env db p p'"
| modified: "lineModified env line p = Inr p' \<Longrightarrow> air_step env db p p'"
| trans_timer: "lp_trans_timer p \<noteq> None \<Longrightarrow>
    transTimerData env db (p\<lparr>lp_trans_timer := None\<rparr>) = Some (Inr p') \<Longrightarrow> air_step env db p p'"
| grace_timer: "lp_grace_timer p \<noteq> None \<Longrightarrow>
    graceTimerData env db (p\<lparr>lp_grace_timer := None\<rparr>) = Some (Inr p') \<Longrightarrow> air_step env db p p'"
| macro_timer: "timer_fires (pv_exec env) (lp_macro_deck p) = Inr (ev, xs) \<Longrightarrow>
    macro_signals env db (LogPlay_FinishEvent env db) xs (p\<lparr>lp_macro_deck := ev\<rparr>) = Some (Inr p') \<Longrightarrow> air_step env db p p'"
| deck: "k < length (lp_deck p) \<Longrightarrow> deck_answer ev \<Longrightarrow> deck_step (pv_deck env) (lp_deck p ! k) ev outs d \<Longrightarrow>
    deck_signals env db k outs (put_deck k (d, outs) p) = Some (Inr p') \<Longrightarrow> air_step env db p p'"

text \<open>The commands that edit the log, which the user may give at any time as well, and every step of the player.\<close>

inductive edit_command :: "player_env \<Rightarrow> database \<Rightarrow> log_play \<Rightarrow> log_play \<Rightarrow> bool" for env db where
  insert_cart: "LogPlay_insert_cart env db line cart p = Inr p' \<Longrightarrow> edit_command env db p p'"
| insert_line: "LogPlay_insert_line env db line l preserve p = Inr p' \<Longrightarrow> edit_command env db p p'"
| remove: "LogPlay_remove env db line n preserve p = Inr p' \<Longrightarrow> edit_command env db p p'"
| move: "LogPlay_move env db i j p = Inr p' \<Longrightarrow> edit_command env db p p'"
| copy: "LogPlay_copy env db i j p = Inr p' \<Longrightarrow> edit_command env db p p'"
| load: "LogPlay_load env db p = Inr p' \<Longrightarrow> edit_command env db p p'"
| append: "LogPlay_append env db table p = Inr p' \<Longrightarrow> edit_command env db p p'"
| refresh: "LogPlay_refresh env db p = Inr p' \<Longrightarrow> edit_command env db p p'"
| clear: "LogPlay_clear env db p = Inr (Some p') \<Longrightarrow> edit_command env db p p'"
| rename: "edit_command env db p (LogPlay_setLogName name p)"

inductive player_step :: "player_env \<Rightarrow> database \<Rightarrow> log_play \<Rightarrow> log_play \<Rightarrow> bool" for env db where
  on_air: "air_step env db p p' \<Longrightarrow> player_step env db p p'"
| edit: "edit_command env db p p' \<Longrightarrow> player_step env db p p'"

text \<open>A run of playing events in environments that change, the clock first; \<open>ok\<close> restricts them.\<close>

inductive air_run :: "(player_env \<Rightarrow> bool) \<Rightarrow> database \<Rightarrow> log_play \<Rightarrow> log_play \<Rightarrow> bool" for ok db where
  none: "air_run ok db p p"
| more: "air_run ok db p q \<Longrightarrow> ok env \<Longrightarrow> air_step env db q r \<Longrightarrow> air_run ok db p r"

end
