(* ===== verification/Player_Own.thy ===== *)
theory Player_Own
  imports Player_Run
begin

text \<open>
  Who owns the decks. What the player does to the lines and the decks while it plays is, seen from
  afar, four moves: a line changes its status, a line takes an unused deck, a line lets go of its deck
  pointer, and a line that ends gives its deck back. Every operation of \<open>Player_Run\<close> is a run of these
  moves, so what the moves keep holds for the player: no two lines ever share a deck, a deck carries the
  number of its line, and a start never makes a line wait again, which is why starting an event ends.
\<close>

section \<open>The abstract machine\<close>

definition waits :: "status \<Rightarrow> bool" where
  "waits s \<longleftrightarrow> s = Scheduled \<or> s = Paused"

record ownership =
  ow_uses :: "(status \<times> nat option) list"
  ow_ids :: "int list"
  ow_active :: "bool list"

text \<open>\<open>b\<close> says whether a line may be set waiting, which only the answer to a pause does.\<close>

inductive own_step :: "bool \<Rightarrow> ownership \<Rightarrow> ownership \<Rightarrow> bool" for b where
  status: "b \<or> \<not> waits s \<Longrightarrow> own_step b a (a\<lparr>ow_uses := (ow_uses a)[j := (s, snd (ow_uses a ! j))]\<rparr>)"
| acquire: "k < RD_MAX_STREAMS \<Longrightarrow> \<not> ow_active a ! k \<Longrightarrow>
    own_step b a (a\<lparr>ow_uses := (ow_uses a)[j := (fst (ow_uses a ! j), Some k)], ow_ids := (ow_ids a)[k := int j],
      ow_active := (ow_active a)[k := True]\<rparr>)"
| drop: "own_step b a (a\<lparr>ow_uses := (ow_uses a)[j := (fst (ow_uses a ! j), None)]\<rparr>)"
| release: "j < length (ow_uses a) \<Longrightarrow> ow_uses a ! j = (s, Some k) \<Longrightarrow>
    own_step b a (a\<lparr>ow_uses := (ow_uses a)[j := (status.Finished, None)],
      ow_active := (if k < RD_MAX_STREAMS then (ow_active a)[k := False] else ow_active a)\<rparr>)"

definition own_run :: "bool \<Rightarrow> ownership \<Rightarrow> ownership \<Rightarrow> bool" where
  "own_run b = (own_step b)\<^sup>*\<^sup>*"

lemma own_run_refl [simp, intro]: "own_run b a a"
  by (simp add: own_run_def)

lemma own_run_trans [trans]: "own_run b x y \<Longrightarrow> own_run b y z \<Longrightarrow> own_run b x z"
  by (simp add: own_run_def)

lemma own_run_step: "own_step b x y \<Longrightarrow> own_run b x y"
  by (simp add: own_run_def)

lemma own_step_mono: "own_step False x y \<Longrightarrow> own_step b x y"
proof (induction rule: own_step.induct)
  case (status s a j)
  then show ?case by (intro own_step.status) simp
qed (blast intro: own_step.acquire own_step.drop own_step.release)+

lemma own_run_mono: "own_run False x y \<Longrightarrow> own_run b x y"
  unfolding own_run_def by (induction rule: rtranclp_induct) (auto intro: own_step_mono rtranclp.rtrancl_into_rtrancl)

text \<open>What the moves keep: every deck a line points to is in use and carries the number of the line.\<close>

definition owned :: "ownership \<Rightarrow> bool" where
  "owned a \<longleftrightarrow> length (ow_ids a) = RD_MAX_STREAMS \<and> length (ow_active a) = RD_MAX_STREAMS \<and> (\<forall>j<length (ow_uses a). \<forall>k. snd (ow_uses a ! j) = Some k
     \<longrightarrow> k < RD_MAX_STREAMS \<and> ow_active a ! k \<and> ow_ids a ! k = int j)"

lemma nth_update: "xs[j := y] ! i = (if i = j \<and> j < length xs then y else xs ! i)"
  by (cases "j < length xs") (auto simp: nth_list_update list_update_beyond)

lemma owned_step: "own_step b x y \<Longrightarrow> owned x \<Longrightarrow> owned y"
proof (induction rule: own_step.induct)
  case (status s a j)
  then show ?case by (auto simp: owned_def nth_update split: if_splits)
next
  case (acquire k a j)
  then show ?case by (auto simp: owned_def nth_update split: if_splits)
next
  case (drop a j)
  then show ?case by (auto simp: owned_def nth_update split: if_splits)
next
  case (release j a s k)
  have "k' \<noteq> k" if "i < length (ow_uses a)" "i \<noteq> j" "snd (ow_uses a ! i) = Some k'" for i k'
    using release that by (metis int_int_eq owned_def snd_conv)
  with release show ?case by (auto simp: owned_def nth_update split: if_splits)
qed

lemma owned_run: "own_run b x y \<Longrightarrow> owned x \<Longrightarrow> owned y"
  unfolding own_run_def by (induction rule: rtranclp_induct) (auto dest: owned_step)

definition waiting_set :: "ownership \<Rightarrow> nat set" where
  "waiting_set a = {j. j < length (ow_uses a) \<and> waits (fst (ow_uses a ! j))}"

lemma waiting_step: "own_step False x y \<Longrightarrow> waiting_set y \<subseteq> waiting_set x"
  by (induction rule: own_step.induct)
    (auto simp: waiting_set_def waits_def nth_update split: if_splits)

lemma waiting_run: "own_run False x y \<Longrightarrow> waiting_set y \<subseteq> waiting_set x"
  unfolding own_run_def by (induction rule: rtranclp_induct) (auto dest: waiting_step)

section \<open>The moves of the player\<close>

definition own :: "log_play \<Rightarrow> ownership" where
  "own p = \<lparr>ow_uses = line_uses p, ow_ids = map play_id (lp_deck p), ow_active = lp_deck_active p\<rparr>"

definition moves :: "bool \<Rightarrow> log_play \<Rightarrow> log_play \<Rightarrow> bool" where
  "moves b p q \<longleftrightarrow> own_run b (own p) (own q) \<and> lp_refresh_pending q = lp_refresh_pending p"

named_theorems moves

lemma moves_refl [moves, simp, intro]: "moves b p p"
  by (simp add: moves_def)

lemma moves_trans [trans]: "moves b p q \<Longrightarrow> moves b q r \<Longrightarrow> moves b p r"
  by (auto simp: moves_def intro: own_run_trans)

lemma moves_mono: "moves False p q \<Longrightarrow> moves b p q"
  by (simp add: moves_def own_run_mono)

lemma moves_step: "own_step b (own p) (own q) \<Longrightarrow> lp_refresh_pending q = lp_refresh_pending p \<Longrightarrow> moves b p q"
  by (simp add: moves_def own_run_step)

lemma moves_same: "own q = own p \<Longrightarrow> lp_refresh_pending q = lp_refresh_pending p \<Longrightarrow> moves b p q"
  by (simp add: moves_def)

lemma moves_core: "player_core q = player_core p \<Longrightarrow> moves b p q"
  by (rule moves_same) (simp_all add: own_def player_core_def player_frame_def)

lemma moves_use:
  "(\<And>l. line_use (f l) = line_use l) \<Longrightarrow> moves b p (put_line i f p)"
  by (rule moves_core, rule core_put_line)

lemma own_put_line:
  "(\<And>l. line_use (f l) = g (line_use l)) \<Longrightarrow>
    own (put_line i f p) = (own p)\<lparr>ow_uses := (line_uses p)[nat i := g (line_uses p ! nat i)]\<rparr>"
  by (cases "nat i < length (log_lines (lp_log p))")
    (simp_all add: own_def put_line_def line_uses_def map_update list_update_beyond)

lemma moves_status:
  assumes "\<And>l. log_play_deck (f l) = log_play_deck l" "\<And>l. log_status (f l) = s" "b \<or> \<not> waits s"
  shows "moves b p (put_line i f p)"
proof (rule moves_step)
  have "own (put_line i f p) = (own p)\<lparr>ow_uses := (line_uses p)[nat i := (s, snd (line_uses p ! nat i))]\<rparr>"
    by (rule own_put_line) (simp add: line_use_def assms)
  then show "own_step b (own p) (own (put_line i f p))"
    using own_step.status [OF assms(3), of "own p" "nat i"] by (simp add: own_def)
qed (simp add: put_line_def)

lemma moves_put_deck:
  assumes "k < length (lp_deck p) \<Longrightarrow> play_id (fst r) = play_id (lp_deck p ! k)" shows "moves b p (put_deck k r p)"
proof -
  have "(map play_id (lp_deck p))[k := play_id (fst r)] = map play_id (lp_deck p)"
    using assms by (cases "k < length (lp_deck p)") (simp_all add: list_update_same_conv list_update_beyond)
  then show ?thesis
    by (intro moves_same) (simp_all add: own_def put_deck_def line_uses_def map_update)
qed

text \<open>Fields that are no part of the ownership.\<close>

lemma moves_fields [moves, simp]:
  "moves b p (p\<lparr>lp_next_line := n\<rparr>)" "moves b p (p\<lparr>lp_trans_line := n\<rparr>)" "moves b p (p\<lparr>lp_trans_timer := t\<rparr>)"
  "moves b p (p\<lparr>lp_grace_timer := t\<rparr>)" "moves b p (p\<lparr>lp_grace_line := n, lp_grace_timer := t\<rparr>)"
  "moves b p (p\<lparr>lp_macro_deck := ev\<rparr>)" "moves b p (p\<lparr>lp_macro_running := c\<rparr>)" "moves b p (p\<lparr>lp_deck_conn := cs\<rparr>)"
  "moves b p (p\<lparr>lp_line_counter := n\<rparr>)" "moves b p (p\<lparr>lp_next_channel := n\<rparr>)" "moves b p (p\<lparr>lp_out := xs\<rparr>)"
  "moves b p (p\<lparr>lp_op_mode := m\<rparr>)" "moves b p (p\<lparr>lp_start_next := c\<rparr>)" "moves b p (p\<lparr>lp_rescan_pos := n\<rparr>)"
  "moves b p (p\<lparr>lp_duck_volume_port1 := n\<rparr>)" "moves b p (p\<lparr>lp_duck_volume_port2 := n\<rparr>)"
  "moves b p (emit x p)" "moves b p (clear_macro p)" "moves b p (set_macro_line n p)" "moves b p (end_start_next c p)"
  "moves b p (SetTransTimer env n c p)"
  by (auto intro!: moves_same simp: own_def line_uses_def emit_def clear_macro_def set_macro_line_def
      end_start_next_def SetTransTimer_def Let_def split: prod.split)

lemma moves_chain: "moves b p q \<Longrightarrow> moves b q r \<Longrightarrow> moves b p r"
  by (rule moves_trans)

section \<open>The decks keep their numbers\<close>

named_theorems deck_ids

lemma play_id_StopTimers [simp]: "play_id (StopTimers d) = play_id d"
  by (simp add: StopTimers_def)

lemma play_id_setters [simp]: "play_id (RDPlayDeck_setCard n d) = play_id d" "play_id (RDPlayDeck_setPort n d) = play_id d"
  "play_id (RDPlayDeck_setChannel n d) = play_id d"
  by (simp_all add: setter_defs)

lemma play_id_stop [simp, deck_ids]: "play_id (fst (RDPlayDeck_stop d)) = play_id d"
  by (simp add: RDPlayDeck_stop_def)

lemma play_id_pause [simp, deck_ids]: "play_id (fst (RDPlayDeck_pause d)) = play_id d"
  by (simp add: RDPlayDeck_pause_def)

lemma play_id_duckVolume [simp, deck_ids]: "play_id (fst (RDPlayDeck_duckVolume a b d)) = play_id d"
  by (simp add: RDPlayDeck_duckVolume_def Let_def)

lemma play_id_reset [simp, deck_ids]: "play_id (fst (RDPlayDeck_reset d)) = play_id d"
  by (simp add: RDPlayDeck_reset_def Let_def)

lemma play_id_arm_stop: "arm_stop now i d = Inr r \<Longrightarrow> play_id (fst r) = play_id d"
  by (auto simp: arm_stop_def Let_def split: prod.splits if_splits)

lemma play_id_stop_fade: "RDPlayDeck_stop_fade now i g d = Inr r \<Longrightarrow> play_id (fst r) = play_id d"
  by (auto simp: RDPlayDeck_stop_fade_def Let_def split: if_splits dest!: play_id_arm_stop)

lemma play_id_start_point_timer: "play_id (start_point_timer n x d) = play_id d"
  by (simp add: start_point_timer_def Let_def split: prod.split)

lemma play_id_StartTimers: "play_id (StartTimers n d) = play_id d"
  by (simp add: StartTimers_def Let_def play_id_start_point_timer)

lemma play_id_play: "RDPlayDeck_play now pos s e u d = Inr r \<Longrightarrow> play_id (fst r) = play_id d"
  by (auto simp: RDPlayDeck_play_def play_position_def play_ducking_def Let_def play_id_StartTimers
      split: prod.splits if_splits)

lemma play_id_pick_cut: "play_id (snd (pick_cut env l rot d)) = play_id d"
  by (auto simp: pick_cut_def Let_def split: option.split)

lemma play_id_timescale: "play_id (timescale d) = play_id d"
  by (simp add: timescale_def Let_def)

lemma play_id_window: "play_id (load_fades c l (load_points env c l (timescale (audio_window c l d)))) = play_id d"
  by (simp add: load_fades_def load_points_def audio_window_def play_id_timescale Let_def)

lemma play_id_setCart:
  assumes "RDPlayDeck_setCart env l rot d = Inr (ok, l', d', out)"
  shows "play_id d' = play_id d \<and> line_use l' = line_use l"
proof -
  obtain b d1 where p: "pick_cut env l rot (d\<lparr>play_timescale_active := log_timescaling_active l\<rparr>) = (b, d1)"
    by fastforce
  have d1: "play_id d1 = play_id d"
    using play_id_pick_cut [of env l rot "d\<lparr>play_timescale_active := log_timescaling_active l\<rparr>"] p by simp
  show ?thesis
  proof (cases b)
    case False
    then show ?thesis using assms p d1 by (simp add: RDPlayDeck_setCart_def)
  next
    case True
    then obtain c where c: "play_cut d1 = Some c"
      using assms p by (cases "play_cut d1") (simp_all add: RDPlayDeck_setCart_def)
    define d2 where "d2 = load_fades c l (load_points env c l (timescale (audio_window c l d1)))"
    have d2: "play_id d2 = play_id d" using d1 by (simp add: d2_def play_id_window)
    show ?thesis
      using assms p c True d2 unfolding RDPlayDeck_setCart_def
      by (cases "de_load_play env (play_card d2) (dc_name c)")
        (auto simp: Let_def line_use_def split: if_splits simp flip: d2_def)
  qed
qed

lemma deck_answer_id: "deck_step env d ev out d' \<Longrightarrow> deck_answer ev \<Longrightarrow> play_id d' = play_id d"
  by (erule deck_step.cases)
    (auto simp: deck_answer_def RDPlayDeck_playingData_def RDPlayDeck_playStoppedData_def RDPlayDeck_pointTimerData_def
      RDPlayDeck_positionTimerData_def RDPlayDeck_fadeTimerData_def RDPlayDeck_duckTimerData_def RDPlayDeck_stop_def
      Let_def split: if_splits)

section \<open>The bookkeeping\<close>

text \<open>Steps of a start: no line is set waiting.\<close>

abbreviation steps :: "log_play \<Rightarrow> log_play \<Rightarrow> bool" where
  "steps \<equiv> moves False"

definition no_auto :: "player_env \<Rightarrow> bool" where
  "no_auto env \<longleftrightarrow> \<not> li_auto_refresh (pv_log_info env)"

lemma no_auto_refreshes: "no_auto env \<Longrightarrow> \<not> refreshes env p"
  by (simp add: no_auto_def refreshes_def)

lemma steps_UpdateStartTimes: "UpdateStartTimes p = Inr q \<Longrightarrow> steps p q"
  by (rule moves_core, erule core_UpdateStartTimes)

lemma steps_UpdatePostPoint: "UpdatePostPoint env p = Inr q \<Longrightarrow> steps p q"
  by (rule moves_core, erule core_UpdatePostPoint)

lemma core_active [simp]: "player_core (p\<lparr>lp_active_line := n\<rparr>) = player_core p"
  "player_core (p\<lparr>lp_active_line := n, lp_active_trans := t\<rparr>) = player_core p"
  by (simp_all add: player_core_def player_frame_def line_uses_def)

lemma steps_AdvanceActiveEvent [simp]: "steps p (AdvanceActiveEvent p)"
  by (rule moves_core) (simp add: AdvanceActiveEvent_def Let_def)

lemma steps_log_traffic: "log_traffic env l a p = Inr q \<Longrightarrow> steps p q"
  by (auto simp: log_traffic_def split: option.splits)

lemma steps_RefreshEvents:
  assumes "RefreshEvents env db line n c p = Inr q" "no_auto env"
  shows "steps p q"
proof -
  obtain r where r: "reload_lines env c [line..line + n - 1] p = Inr r"
    "(if \<not> lp_play_log r then Inr r else if \<not> log_outdated env r then Inr (set_refreshable False r)
      else if li_auto_refresh (pv_log_info env) then LogPlay_refresh env db r else Inr (set_refreshable True r)) = Inr q"
    using assms(1) unfolding RefreshEvents_def res_bind_eq_Inr by blast
  have "player_core q = player_core r" using r(2) assms(2) by (auto simp: no_auto_def split: if_splits)
  with core_reload_lines [OF r(1)] show ?thesis by (simp add: moves_core)
qed

lemma steps_makeNext:
  assumes "makeNext env db line p = Inr q" "no_auto env" shows "steps p q"
proof -
  obtain r s where r: "RefreshEvents env db line LOGPLAY_LOOKAHEAD_EVENTS False (p\<lparr>lp_next_line := line\<rparr>) = Inr r"
    "UpdatePostPoint env (SetTransTimer env 0 True (emit OutNowNext r)) = Inr s"
    "q = emit SigTransportChanged (emit (SigNextEventChanged line) s)"
    using assms(1) by (auto simp: makeNext_def makeNext_tail_def)
  have "player_core s = player_core r" using core_UpdatePostPoint [OF r(2)] by simp
  then have "steps r q" using r(3) by (simp add: moves_core)
  with steps_RefreshEvents [OF r(1) assms(2)] show ?thesis by (blast intro: moves_trans moves_fields)
qed

lemma steps_rescan: "rescanEventsData env db p = Inr q \<Longrightarrow> no_auto env \<Longrightarrow> steps p q"
  by (auto simp: rescanEventsData_def Let_def split: if_splits dest!: steps_RefreshEvents
      intro: moves_trans [OF moves_fields(14)])

section \<open>Updates, forwards and backwards\<close>

lemma line_use_clearTrackData [simp]: "line_use (RDLogLine_clearTrackData e l) = line_use l"
  by (simp add: line_use_def RDLogLine_clearTrackData_def Let_def)

lemma setStartTime_use [simp]: "log_play_deck (RDLogLine_setStartTime t x l) = log_play_deck l"
  "log_status (RDLogLine_setStartTime t x l) = log_status l"
  by (simp_all add: RDLogLine_setStartTime_def)

lemma moves_lines:
  "moves b p (put_line i (\<lambda>l. l\<lparr>log_status := status.Finished\<rparr>) p)"
  "moves b p (put_line i (\<lambda>l. l\<lparr>log_status := Playing\<rparr>) p)"
  "moves b p (put_line i (\<lambda>l. l\<lparr>log_status := Finishing\<rparr>) p)"
  "moves b p (put_line i (\<lambda>l. RDLogLine_setStartTime Initial t (l\<lparr>log_status := Playing\<rparr>)) p)"
  "moves b p (put_line i (\<lambda>l. (RDLogLine_setStartTime Actual t l)\<lparr>log_status := status.Finished\<rparr>) p)"
  "moves b p (put_line i (\<lambda>l. (RDLogLine_setStartTime (start_time_kind l) t l)\<lparr>log_status := Playing\<rparr>) p)"
  by (rule moves_status [where s = status.Finished] moves_status [where s = Playing] moves_status [where s = Finishing],
      simp, simp, simp add: waits_def)+

lemma moves_line_texts:
  "moves b p (put_line i (RDLogLine_setStartTime tt t) p)"
  "moves b p (put_line i (RDLogLine_clearTrackData e) p)"
  "moves b p (put_line i (\<lambda>l. l\<lparr>log_start_source := src\<rparr>) p)"
  "moves b p (put_line i (\<lambda>l. l\<lparr>log_zombified := c\<rparr>) p)"
  "moves b p (put_line i (\<lambda>l. l\<lparr>log_trans_type := tr\<rparr>) p)"
  "moves b p (put_line i (\<lambda>l. l\<lparr>log_play_position := n\<rparr>) p)"
  "moves b p (put_line i (\<lambda>l. l\<lparr>log_pause_card := n, log_pause_port := m, log_port_name := nm\<rparr>) p)"
  "moves b p (put_line i (cut_to_line env c ct) p)"
  by (rule moves_use, simp add: line_use_def cut_to_line_def Let_def)+

lemmas updates = moves_fields moves_lines moves_line_texts
lemmas unpeel = updates [THEN moves_trans]
lemmas peel = updates [THEN moves_trans [rotated]]

section \<open>Commands to the decks\<close>

lemma steps_with_deck:
  assumes "with_deck f l p = Inr q" "\<And>d r. f d = Inr r \<Longrightarrow> play_id (fst r) = play_id d"
  shows "steps p q"
  using assms by (auto simp: with_deck_def vec_get_def vec_at_def vec_in_def split: if_splits option.splits
      intro!: moves_put_deck)

lemma steps_deck_commands:
  "with_deck (\<lambda>d. Inr (RDPlayDeck_stop d)) l p = Inr q \<Longrightarrow> steps p q"
  "with_deck (\<lambda>d. Inr (RDPlayDeck_pause d)) l p = Inr q \<Longrightarrow> steps p q"
  "with_deck (\<lambda>d. Inr (RDPlayDeck_duckVolume level fade d)) l p = Inr q \<Longrightarrow> steps p q"
  "with_deck (RDPlayDeck_stop_fade now fade g) l p = Inr q \<Longrightarrow> steps p q"
  by (erule steps_with_deck, auto intro: play_id_stop_fade)+

lemma steps_end_macro_line: "end_macro_line env line p = Inr q \<Longrightarrow> steps p q"
  by (auto simp: end_macro_line_def split: option.splits dest!: steps_log_traffic unpeel)

lemma steps_macroStarted: "macroStartedData env p = Inr q \<Longrightarrow> steps p q"
  by (auto simp: macroStartedData_def Let_def split: if_splits
      dest!: steps_UpdateStartTimes steps_UpdatePostPoint unpeel intro!: peel) (blast intro: moves_trans)

lemma steps_macroStopped: "macroStoppedData env p = Inr q \<Longrightarrow> steps p q"
  by (auto simp: macroStoppedData_def dest!: steps_end_macro_line steps_UpdatePostPoint unpeel intro!: peel)
    (blast intro: moves_trans)

lemma steps_macro_stop: "macro_stop env p = Inr q \<Longrightarrow> steps p q"
  by (auto simp: macro_stop_def Let_def split: prod.splits if_splits dest!: steps_macroStopped unpeel)

lemma steps_stop_line: "LogPlay_stop_line env line fade p = Inr (c, q) \<Longrightarrow> steps p q"
  by (auto simp: LogPlay_stop_line_def split: option.splits cart_type.splits if_splits
      dest!: steps_macro_stop steps_deck_commands)

lemma steps_stop_lines: "stop_lines env test fade is p = Inr (c, q) \<Longrightarrow> steps p q"
proof (induction "is" arbitrary: p c)
  case (Cons i "is")
  then show ?case by (auto split: if_splits dest!: steps_stop_line) (blast intro: moves_trans)
qed simp

lemma steps_stop: "LogPlay_stop env everything portnum fade p = Inr (c, q) \<Longrightarrow> steps p q"
  by (auto simp: LogPlay_stop_def Let_def dest: steps_stop_lines)

lemma steps_channelStop: "LogPlay_channelStop env mport p = Inr (c, q) \<Longrightarrow> steps p q"
  by (auto simp: LogPlay_channelStop_def dest: steps_stop_lines)

lemma steps_pause: "LogPlay_pause line p = Inr (c, q) \<Longrightarrow> steps p q"
  by (auto simp: LogPlay_pause_def split: option.splits if_splits dest!: steps_deck_commands)

lemma steps_duck_lines: "duck_lines level fade mport is p = Inr q \<Longrightarrow> steps p q"
proof (induction "is" arbitrary: p)
  case (Cons i "is")
  then obtain r where r: "steps p r" "duck_lines level fade mport is r = Inr q"
    by (auto split: if_splits dest!: steps_deck_commands)
  from r(1) Cons.IH [OF r(2)] show ?case by (rule moves_trans)
qed simp

lemma steps_duckVolume: "LogPlay_duckVolume level fade mport p = Inr q \<Longrightarrow> steps p q"
  by (auto simp: LogPlay_duckVolume_def Let_def split: if_splits dest!: steps_duck_lines unpeel)

section \<open>The next playable line\<close>

lemma steps_prepare_line:
  assumes "prepare_line env i l p = Inr (st, l', q)" "LogPlay_logLine p i = Some l"
  shows "steps p q \<and> LogPlay_logLine q i = Some l' \<and> line_use l' = line_use l"
proof -
  have u: "line_use l' = line_use l" and q: "q = put_line i (\<lambda>_. l') p"
    using assms(1) by (auto simp: prepare_line_def dest: line_use_setEvent)
  have "LogPlay_logLine q i = Some l'"
    using assms(2) by (auto simp: q LogPlay_logLine_def RDLogEvent_logLine_def put_line_def split: if_splits)
  with u core_put_const [OF assms(2) u] show ?thesis by (simp add: q moves_core)
qed

lemma logLine_put_line: "LogPlay_logLine p i = Some l \<Longrightarrow> LogPlay_logLine (put_line i f p) i = Some (f l)"
  by (auto simp: LogPlay_logLine_def RDLogEvent_logLine_def put_line_def split: if_splits)

lemma logLine_emit [simp]: "LogPlay_logLine (emit x p) i = LogPlay_logLine p i"
  by (simp add: LogPlay_logLine_def)

text \<open>The line found waits, or its transition is a stop.\<close>

definition startable :: "log_line \<Rightarrow> bool" where
  "startable l \<longleftrightarrow> waits (log_status l) \<or> log_trans_type l = Stop"

lemma next_playable_ok:
  assumes "next_playable env db sk forced line is n p = Inr (r, q)" "no_auto env"
  shows "steps p q \<and> (case r of None \<Rightarrow> True | Some i \<Rightarrow> i \<in> set is \<and> (\<exists>l. LogPlay_logLine q i = Some l \<and> startable l))"
  using assms(1)
proof (induction "is" arbitrary: n p)
  case (Cons i "is")
  show ?case
  proof (cases "LogPlay_logLine p i")
    case None
    then show ?thesis using Cons.prems by simp
  next
    case (Some l)
    consider (skip) "sk \<and> is_meta l" | (halt) "\<not> (sk \<and> is_meta l)" "log_status l \<in> {Scheduled, Paused, Auditioning}"
      "(log_trans_type l = Stop \<or> lp_op_mode p = LiveAssist) \<and> i - n \<noteq> line"
    | (prepare) "\<not> (sk \<and> is_meta l)" "log_status l \<in> {Scheduled, Paused, Auditioning}"
      "\<not> ((log_trans_type l = Stop \<or> lp_op_mode p = LiveAssist) \<and> i - n \<noteq> line)"
    | (past) "\<not> (sk \<and> is_meta l)" "log_status l \<notin> {Scheduled, Paused, Auditioning}" by blast
    then show ?thesis
    proof cases
      case skip
      then have "next_playable env db sk forced line is (n + 1)
          (emit (SigModified i) (put_line i (\<lambda>l. l\<lparr>log_status := status.Finished\<rparr>) p)) = Inr (r, q)"
        using Cons.prems Some by simp
      from Cons.IH [OF this] show ?thesis by (auto dest!: unpeel split: option.splits)
    next
      case halt
      then have "r = None" "makeNext env db i p = Inr q" using Cons.prems Some by auto
      then show ?thesis using steps_makeNext assms(2) by simp
    next
      case prepare
      then obtain st l' p1 where p1: "prepare_line env i l p = Inr (st, l', p1)" using Cons.prems Some
        by (auto split: prod.splits)
      note s = steps_prepare_line [OF p1 Some]
      define p2 where "p2 = emit (SigModified i) (put_line i (RDLogLine_setStartTime Initial (pv_now env)) p1)"
      have p2: "steps p1 p2" "LogPlay_logLine p2 i = Some (RDLogLine_setStartTime Initial (pv_now env) l')"
        using s by (auto simp: p2_def logLine_put_line intro!: peel)
      have e: "(if st = Ok \<and> log_status l' \<in> {Scheduled, Paused} \<and> \<not> log_zombified l' then Inr (Some i, emit (SigModified i) p1)
            else if log_trans_type l' = Stop \<and> (log_cut_number l' \<ge> 0 \<and> \<not> log_zombified l' \<or> \<not> forced) then Inr (Some i, p2)
            else next_playable env db sk forced line is n p2) = Inr (r, q)"
        using Cons.prems unfolding next_playable.simps Some option.case if_not_P [OF prepare(1)] if_P [OF prepare(2)]
          if_not_P [OF prepare(3)] p1 res_bind_simps prod.case Let_def p2_def by assumption
      show ?thesis
      proof (cases "st = Ok \<and> log_status l' \<in> {Scheduled, Paused} \<and> \<not> log_zombified l'")
        case True
        with e have "r = Some i" "q = emit (SigModified i) p1" by simp_all
        then show ?thesis using s True by (auto simp: startable_def waits_def intro!: peel)
      next
        case no: False
        show ?thesis
        proof (cases "log_trans_type l' = Stop \<and> (log_cut_number l' \<ge> 0 \<and> \<not> log_zombified l' \<or> \<not> forced)")
          case True
          then have "r = Some i" "q = p2" using e unfolding if_not_P [OF no] if_P [OF True] by simp_all
          moreover have "log_trans_type (RDLogLine_setStartTime Initial (pv_now env) l') = log_trans_type l'"
            by (simp add: RDLogLine_setStartTime_def)
          ultimately show ?thesis using s p2 True by (auto simp: startable_def intro: moves_trans)
        next
          case False
          have "next_playable env db sk forced line is n p2 = Inr (r, q)"
            using e unfolding if_not_P [OF no] if_not_P [OF False] .
          from Cons.IH [OF this] s p2 show ?thesis by (auto split: option.splits intro: moves_trans)
        qed
      qed
    next
      case past
      then have "next_playable env db sk forced line is n p = Inr (r, q)"
        using Cons.prems unfolding next_playable.simps Some option.case if_not_P [OF past(1)] if_not_P [OF past(2)]
        by blast
      from Cons.IH [OF this] show ?thesis by (auto split: option.splits)
    qed
  qed
qed simp

lemma steps_GetNextPlayable: "GetNextPlayable env db line sk forced p = Inr (r, q) \<Longrightarrow> no_auto env \<Longrightarrow> steps p q"
  using next_playable_ok [of env db sk forced line _ 0 p r q] by (auto simp: GetNextPlayable_def)

section \<open>Taking and giving back a deck\<close>

lemma lp_active_put_deck [simp]: "lp_deck_active (put_deck k r p) = lp_deck_active p" "line_uses (put_deck k r p) = line_uses p"
  by (simp_all add: put_deck_def line_uses_def)

lemma steps_StartAudioEvent:
  assumes "StartAudioEvent line p = Inr (c, q)" shows "steps p q"
proof (cases "LogPlay_logLine p line")
  case None
  then show ?thesis using assms by (simp add: StartAudioEvent_def)
next
  case (Some l)
  then have j: "nat line < length (log_lines (lp_log p))" "0 \<le> line" using logLine_Some_iff [of p line l] by auto
  show ?thesis
  proof (cases "log_status l = Paused")
    case True
    then show ?thesis using assms Some by (auto simp: StartAudioEvent_def split: option.splits)
  next
    case False
    show ?thesis
    proof (cases "find (\<lambda>i. \<not> lp_deck_active p ! i) [0..<RD_MAX_STREAMS]")
      case None
      then have q: "q = put_line line (\<lambda>l. l\<lparr>log_play_deck := None\<rparr>) p"
        using assms Some False by (simp add: StartAudioEvent_def GetPlayDeck_def)
      have "own q = (own p)\<lparr>ow_uses := (line_uses p)[nat line := (fst (line_uses p ! nat line), None)]\<rparr>"
        unfolding q by (rule own_put_line) (simp add: line_use_def)
      then show ?thesis
        using own_step.drop [of False "own p" "nat line"] by (intro moves_step) (simp_all add: own_def q put_line_def)
    next
      case k: (Some k)
      then have free: "\<not> lp_deck_active p ! k" "k < RD_MAX_STREAMS" by (auto simp: find_Some_iff)
      let ?q = "put_line line (\<lambda>l. l\<lparr>log_play_deck := Some k\<rparr>) (p\<lparr>lp_deck_active := (lp_deck_active p)[k := True]\<rparr>)"
      have q: "own q = (own ?q)\<lparr>ow_ids := (ow_ids (own p))[k := line]\<rparr>" "lp_refresh_pending q = lp_refresh_pending p"
        using assms k Some False
        by (auto simp: StartAudioEvent_def GetPlayDeck_def Let_def own_def line_uses_def put_deck_def map_update put_line_def)
      have "own ?q = (own (p\<lparr>lp_deck_active := (lp_deck_active p)[k := True]\<rparr>))
          \<lparr>ow_uses := (line_uses p)[nat line := (fst (line_uses p ! nat line), Some k)]\<rparr>"
        by (subst own_put_line [where g = "\<lambda>u. (fst u, Some k)"]) (simp_all add: line_use_def line_uses_def)
      with q j own_step.acquire [of k "own p" False "nat line"] free show ?thesis
        by (intro moves_step) (simp_all add: own_def line_uses_def)
    qed
  qed
qed

lemma own_FreePlayDeck:
  assumes "FreePlayDeck env k p = Inr q"
  shows "own q = (own p)\<lparr>ow_active := (if k < RD_MAX_STREAMS then (lp_deck_active p)[k := False] else lp_deck_active p)\<rparr>
    \<and> lp_refresh_pending q = lp_refresh_pending p"
proof (cases "k < RD_MAX_STREAMS")
  case True
  obtain r where r: "ClearChannel env k p = Inr r"
    and q: "q = (put_deck k (RDPlayDeck_reset (lp_deck r ! k)) (r\<lparr>lp_deck_conn := (lp_deck_conn r)[k := False]\<rparr>))
      \<lparr>lp_deck_active := (lp_deck_active r)[k := False]\<rparr>"
    using assms True by (auto simp: FreePlayDeck_def Let_def put_deck_def)
  have ids: "map play_id ds = xs \<Longrightarrow> xs[k := play_id (ds ! k)] = xs" for ds xs
    by (cases "k < length ds") (auto simp: list_update_same_conv list_update_beyond)
  have "own r = own p \<and> lp_refresh_pending r = lp_refresh_pending p"
    using r by (auto simp: ClearChannel_def Let_def own_def put_deck_def emit_def line_uses_def map_update ids
        split: if_splits)
  with q True show ?thesis by (simp add: own_def put_deck_def line_uses_def map_update ids)
qed (use assms in \<open>simp add: FreePlayDeck_def own_def\<close>)

lemma steps_CleanupEvent:
  assumes "CleanupEvent env line p = Inr q" shows "steps p q"
proof (cases "LogPlay_logLine p line")
  case None
  then show ?thesis using assms by (simp add: CleanupEvent_def)
next
  case (Some l)
  then obtain k where k: "log_play_deck l = Some k" using assms by (cases "log_play_deck l") (simp_all add: CleanupEvent_def)
  obtain j where j: "line = int j" "j < length (log_lines (lp_log p))" "l = log_lines (lp_log p) ! j"
    using Some logLine_Some_iff by blast
  define top where "top = (case LogPlay_logLine p (line - 1) of
    None \<Rightarrow> False | Some prev \<Rightarrow> line = 0 \<or> log_status prev \<noteq> Playing)"
  obtain p1 r s where p1: "p1 = put_line line (\<lambda>l. l\<lparr>log_status := status.Finished\<rparr>)
        (if top then p\<lparr>lp_line_counter := lp_line_counter p + 1\<rparr> else p)"
    and r: "FreePlayDeck env k p1 = Inr r"
    and s: "UpdatePostPoint env (put_line line (\<lambda>l. l\<lparr>log_play_deck := None\<rparr>) r) = Inr s"
    and q: "q = s \<or> (\<exists>n. q = emit (SigTopEventChanged n) s)"
    using assms unfolding CleanupEvent_def Some option.case k of_ptr_simps res_bind_simps Let_def
      top_def [symmetric] res_bind_eq_Inr by (cases top) auto
  note r = own_FreePlayDeck [OF r]
  have f: "own p1 = (own p)\<lparr>ow_uses := (line_uses p)[j := (status.Finished, snd (line_uses p ! j))]\<rparr>
      \<and> lp_refresh_pending p1 = lp_refresh_pending p"
  proof -
    define p0 where "p0 = (if top then p\<lparr>lp_line_counter := lp_line_counter p + 1\<rparr> else p)"
    have "own p0 = own p" "line_uses p0 = line_uses p" "lp_refresh_pending p0 = lp_refresh_pending p"
      by (simp_all add: p0_def own_def line_uses_def)
    then show ?thesis
      unfolding p1 p0_def [symmetric] j(1)
      by (subst own_put_line [where g = "\<lambda>u. (status.Finished, snd u)"]) (simp_all add: line_use_def put_line_def)
  qed
  have u: "line_uses p ! j = (log_status l, Some k)" "j < length (line_uses p)"
    using j k by (simp_all add: line_uses_nth line_use_def)
  let ?r = "put_line line (\<lambda>l. l\<lparr>log_play_deck := None\<rparr>) r"
  have act: "lp_deck_active p1 = lp_deck_active p" using f by (simp add: own_def)
  have lr: "line_uses r = (line_uses p)[j := (status.Finished, snd (line_uses p ! j))]"
    using f r by (simp add: own_def)
  have "own ?r = (own r)\<lparr>ow_uses := (line_uses r)[j := (fst (line_uses r ! j), None)]\<rparr>"
    unfolding j(1) by (subst own_put_line [where g = "\<lambda>u. (fst u, None)"]) (simp_all add: line_use_def)
  also have "\<dots> = (own p)\<lparr>ow_uses := (line_uses p)[j := (status.Finished, None)],
      ow_active := (if k < RD_MAX_STREAMS then (lp_deck_active p)[k := False] else lp_deck_active p)\<rparr>"
    using f r act lr u by simp
  finally have o: "own ?r = (own p)\<lparr>ow_uses := (line_uses p)[j := (status.Finished, None)],
      ow_active := (if k < RD_MAX_STREAMS then (lp_deck_active p)[k := False] else lp_deck_active p)\<rparr>" .
  have sel: "ow_uses (own p) = line_uses p" "ow_active (own p) = lp_deck_active p" by (simp_all add: own_def)
  have "own_step False (own p) (own ?r)"
    unfolding o using own_step.release [of j "own p" "log_status l" k False] u unfolding sel by blast
  moreover have "lp_refresh_pending ?r = lp_refresh_pending p" using f r by (simp add: put_line_def)
  ultimately have "steps p ?r" by (rule moves_step)
  moreover have "steps ?r s" using s by (rule steps_UpdatePostPoint)
  ultimately show ?thesis using q by (auto intro: moves_trans peel)
qed

section \<open>Starting an audio cart\<close>

lemma steps_pending: "moves b p q \<Longrightarrow> lp_refresh_pending q = lp_refresh_pending p"
  by (simp add: moves_def)

lemma steps_assign_output: "assign_output line mport p = Inr (a, k, q) \<Longrightarrow> steps p q"
  by (auto simp: assign_output_def GetNextChannel_def Let_def intro!: peel moves_trans [OF _ moves_put_deck]
      split: prod.splits)

lemma steps_deck_setCart:
  assumes "deck_setCart env line k p = Inr (ok, q)" shows "steps p q"
proof -
  obtain l d l' d' out where l: "LogPlay_logLine p line = Some l" and d: "vec_get (lp_deck p) (int k) = Inr d"
    and c: "RDPlayDeck_setCart (pv_deck env) l (log_status l \<noteq> Paused) d = Inr (ok, l', d', out)"
    and q: "q = put_deck k (d', out) (put_line line (\<lambda>_. l') p)"
    using assms by (auto simp: deck_setCart_def of_ptr_def split: option.splits)
  note u = play_id_setCart [OF c]
  have "steps p (put_line line (\<lambda>_. l') p)" using core_put_const [OF l] u by (simp add: moves_core)
  moreover have "steps (put_line line (\<lambda>_. l') p) q"
    unfolding q using u d by (intro moves_put_deck) (auto simp: put_line_def vec_get_def vec_at_def vec_in_def split: if_splits)
  ultimately show ?thesis by (rule moves_trans)
qed

lemma lp_deck_put_line [simp]: "lp_deck (put_line i f p) = lp_deck p"
  by (simp add: put_line_def)

lemma peel_deck: "moves b p q \<Longrightarrow> play_id (fst r) = play_id (lp_deck q ! k) \<Longrightarrow> moves b p (put_deck k r q)"
  by (erule moves_trans) (rule moves_put_deck)

lemma steps_play_deck_line: "play_deck_line env line k aport n p = Inr (c, q) \<Longrightarrow> steps p q"
  by (auto simp: play_deck_line_def Let_def dest!: play_id_play split: if_splits intro!: peel peel_deck)

section \<open>Answers\<close>

definition keeps :: "(int \<Rightarrow> log_play \<Rightarrow> log_play run) \<Rightarrow> bool" where
  "keeps fin \<longleftrightarrow> (\<forall>line p q. fin line p = Some (Inr q) \<longrightarrow> \<not> lp_refresh_pending p \<longrightarrow> steps p q)"

lemma keepsD: "keeps fin \<Longrightarrow> fin line p = Some (Inr q) \<Longrightarrow> \<not> lp_refresh_pending p \<Longrightarrow> steps p q"
  by (auto simp: keeps_def)

lemma steps_Playing: "LogPlay_Playing env db line p = Inr q \<Longrightarrow> no_auto env \<Longrightarrow> steps p q"
  by (auto simp: LogPlay_Playing_def split: option.splits if_splits
      dest!: steps_UpdateStartTimes steps_UpdatePostPoint steps_RefreshEvents unpeel
        moves_trans [OF steps_AdvanceActiveEvent] intro!: peel) (meson moves_trans)+

lemma moves_Paused:
  assumes "LogPlay_Paused env line p = Inr q" shows "moves True p q"
proof -
  obtain r s t u where r: "(case LogPlay_logLine p line of
         None \<Rightarrow> Inr p
       | Some l \<Rightarrow> res_bind (of_ptr (log_play_deck l)) (\<lambda>k.
           Inr (put_line line (\<lambda>l. l\<lparr>log_port_name := '''', log_status := Paused\<rparr>)
             (p\<lparr>lp_deck_conn := (lp_deck_conn p)[k := False]\<rparr>)))) = Inr r" and s: "UpdateStartTimes r = Inr s"
    and t: "UpdatePostPoint env (emit (SigPaused line) s) = Inr t"
    and u: "log_traffic env (LogPlay_logLine t line) TrafficPause t = Inr u" and q: "q = emit SigTransportChanged u"
    using assms unfolding LogPlay_Paused_def res_bind_eq_Inr by blast
  have "moves True p r"
    using r by (auto split: option.splits intro!: moves_trans [OF moves_fields(8) moves_status [where s = Paused]])
  have "steps r q"
    using steps_UpdateStartTimes [OF s] steps_UpdatePostPoint [OF t] steps_log_traffic [OF u]
    by (auto simp: q dest!: unpeel intro!: peel intro: moves_trans)
  with \<open>moves True p r\<close> show ?thesis by (blast intro: moves_trans moves_mono)
qed

lemma steps_Stopped: "LogPlay_Stopped env line p = Inr q \<Longrightarrow> steps p q"
  by (auto simp: LogPlay_Stopped_def Let_def split: if_splits
      dest!: steps_CleanupEvent steps_UpdateStartTimes steps_UpdatePostPoint steps_log_traffic unpeel
        moves_trans [OF steps_AdvanceActiveEvent] intro!: peel) (blast intro: moves_trans)+

lemma steps_segueEnd: "segueEndData env line p = Inr q \<Longrightarrow> steps p q"
  by (auto simp: segueEndData_def split: option.splits if_splits
      dest!: steps_deck_commands steps_CleanupEvent steps_UpdateStartTimes steps_log_traffic unpeel intro!: peel)
    (meson moves_trans)

lemma steps_positionData: "steps p (positionData line pos p)"
  by (auto simp: positionData_def split: option.split intro!: peel)

lemma steps_Finished:
  assumes "keeps fin" "LogPlay_Finished env fin line p = Some (Inr q)" "\<not> lp_refresh_pending p"
  shows "steps p q"
proof (cases "LogPlay_logLine p line")
  case None
  then show ?thesis using assms by (simp add: LogPlay_Finished_def)
next
  case (Some l)
  obtain r where r: "(if log_status l = Playing then run_bind (Some (CleanupEvent env line p)) (fin line)
      else Some (Inr p)) = Some (Inr r)"
    and q: "res_bind (UpdatePostPoint env r) (\<lambda>p.
            let p = (if LogPlay_running True p then p else p\<lparr>lp_next_channel := 0\<rparr>)
            in res_bind (log_traffic env (Some l) TrafficFinish p) (\<lambda>p. Inr (emit SigTransportChanged p))) = Inr q"
    using assms(2) unfolding LogPlay_Finished_def Some option.case run_bind_eq_Inr by blast
  have "steps p r"
    using r assms(1,3)
    by (auto split: if_splits dest!: steps_CleanupEvent dest: keepsD steps_pending intro: moves_trans)
  moreover have "steps r q"
    using q by (auto simp: Let_def split: if_splits dest!: steps_UpdatePostPoint steps_log_traffic unpeel intro!: peel)
      (meson moves_trans)+
  ultimately show ?thesis by (rule moves_trans)
qed

lemma steps_fake_event:
  assumes "keeps fin" "fake_event env db fin line k p = Some (Inr q)" "no_auto env" "\<not> lp_refresh_pending p"
  shows "steps p q"
proof -
  obtain r s where r: "LogPlay_Playing env db (play_id (lp_deck p ! k)) (put_line line (\<lambda>l. l\<lparr>log_zombified := True\<rparr>) p) = Inr r"
    and s: "LogPlay_Finished env fin (play_id (lp_deck r ! k)) (put_line line (\<lambda>l. l\<lparr>log_status := Playing\<rparr>) r) = Some (Inr s)"
    and q: "q = put_line line (\<lambda>l. l\<lparr>log_status := status.Finished\<rparr>) s"
    using assms(2) by (auto simp: fake_event_def)
  have pr: "steps p r" using steps_Playing [OF r assms(3)] by (auto dest!: unpeel)
  have "\<not> lp_refresh_pending (put_line line (\<lambda>l. l\<lparr>log_status := Playing\<rparr>) r)"
    using steps_pending [OF pr] assms(4) by (simp add: put_line_def)
  from steps_Finished [OF assms(1) s this] pr show ?thesis
    by (auto simp: q dest!: unpeel intro!: peel intro: moves_trans)
qed

end
