(* ===== verification/Player_Start.thy ===== *)
theory Player_Start
  imports Player_Own
begin

text \<open>
  The mutual recursion of \<open>StartEvent\<close> and \<open>FinishEvent\<close> in the light of \<open>Player_Own\<close>: both are runs of
  the ownership moves, and both end, because a nested start takes its line out of the lines that wait.
  At the end, the whole player: any run keeps every deck with one line.
\<close>

section \<open>The macro deck\<close>

lemma steps_macroFinished:
  assumes "keeps fin" "macroFinishedData env db fin p = Some (Inr q)" "\<not> lp_refresh_pending p"
  shows "steps p q"
proof -
  obtain r where r: "fin (macro_line p) (clear_macro p) = Some (Inr r)"
    and q: "res_bind (end_macro_line env (macro_line p) r) (\<lambda>p.
           res_bind (UpdatePostPoint env (p\<lparr>lp_macro_running := False\<rparr>)) (\<lambda>p.
           res_bind (if lp_refresh_pending p
                     then res_bind (LogPlay_refresh env db p) (\<lambda>p. Inr (p\<lparr>lp_refresh_pending := False\<rparr>))
                     else Inr p) (\<lambda>p. Inr (emit SigTransportChanged p)))) = Inr q"
    using assms(2) unfolding macroFinishedData_def Let_def run_bind_eq_Inr by blast
  obtain s t where s: "end_macro_line env (macro_line p) r = Inr s"
    and t: "UpdatePostPoint env (s\<lparr>lp_macro_running := False\<rparr>) = Inr t"
    and u: "res_bind (if lp_refresh_pending t
        then res_bind (LogPlay_refresh env db t) (\<lambda>p. Inr (p\<lparr>lp_refresh_pending := False\<rparr>)) else Inr t)
      (\<lambda>p. Inr (emit SigTransportChanged p)) = Inr q"
    using q unfolding res_bind_eq_Inr by blast
  have "steps (clear_macro p) r"
    using keepsD [OF assms(1) r] assms(3) by (simp add: clear_macro_def)
  then have pt: "steps p t"
    using steps_end_macro_line [OF s] steps_UpdatePostPoint [OF t] by (auto dest!: unpeel intro: moves_trans)
  have "\<not> lp_refresh_pending t" using steps_pending [OF pt] assms(3) by simp
  with u have "q = emit SigTransportChanged t" by simp
  with pt show ?thesis by (auto intro!: peel)
qed

lemma steps_macro_signals:
  assumes "keeps fin" "macro_signals env db fin xs p = Some (Inr q)" "\<not> lp_refresh_pending p"
  shows "steps p q"
  using assms(2,3)
proof (induction xs arbitrary: p)
  case (Cons x xs)
  obtain r where r: "(case x of
          Started \<Rightarrow> Some (macroStartedData env p)
        | signal.Finished \<Rightarrow> macroFinishedData env db fin p
        | Stopped \<Rightarrow> Some (macroStoppedData env p)
        | SendRml m \<Rightarrow> Some (Inr (emit (OutMacro x) p))
        | _ \<Rightarrow> Some (Inr p)) = Some (Inr r)" "macro_signals env db fin xs r = Some (Inr q)"
    using Cons.prems(1) unfolding macro_signals.simps run_bind_eq_Inr by blast
  have "steps p r"
    using r(1) steps_macroFinished [OF assms(1) _ Cons.prems(2)]
    by (auto split: signal.splits dest: steps_macroStarted steps_macroStopped)
  moreover from this have "\<not> lp_refresh_pending r" using Cons.prems(2) steps_pending by metis
  ultimately show ?case using Cons.IH [OF r(2)] by (blast intro: moves_trans)
qed simp

lemma steps_macro_exec:
  assumes "keeps fin" "macro_exec env db fin p = Some (Inr q)" "\<not> lp_refresh_pending p"
  shows "steps p q"
proof -
  obtain ev xs where "macro_signals env db fin xs (p\<lparr>lp_macro_deck := ev\<rparr>) = Some (Inr q)"
    using assms(2) by (auto simp: macro_exec_def)
  from steps_macro_signals [OF assms(1) this] assms(3) show ?thesis by (auto dest!: unpeel)
qed

section \<open>Starts are runs of the moves\<close>

lemma steps_stop_for_play: "stop_for_play env is p = Inr q \<Longrightarrow> steps p q"
proof (induction "is" arbitrary: p)
  case (Cons i "is")
  obtain r where r: "(case LogPlay_logLine p i of
         None \<Rightarrow> Inr p
       | Some l \<Rightarrow>
           if log_type l \<in> {Cart, Macro} \<and> log_status l \<noteq> Paused
           then (case log_cart_type l of
                   CartAudio \<Rightarrow> with_deck (\<lambda>d. Inr (RDPlayDeck_stop d)) l p
                 | CartMacro \<Rightarrow> macro_stop env p
                 | CartAll \<Rightarrow> Inr p)
           else Inr p) = Inr r" "stop_for_play env is r = Inr q"
    using Cons.prems unfolding stop_for_play.simps res_bind_eq_Inr by blast
  have "steps p r"
    using r(1) by (auto split: option.splits if_splits cart_type.splits dest: steps_deck_commands steps_macro_stop)
  with Cons.IH [OF r(2)] show ?case by (blast intro: moves_trans)
qed simp

lemma steps_stop_for_segue: "stop_for_segue env n is p = Inr q \<Longrightarrow> steps p q"
proof (induction "is" arbitrary: p)
  case (Cons i "is")
  obtain r where r: "(case LogPlay_logLine p i of
         None \<Rightarrow> Inr p
       | Some l \<Rightarrow>
           if log_status l = Playing \<and> log_type l \<in> {Cart, Macro}
           then (case log_cart_type l of
                   CartAudio \<Rightarrow> with_deck (RDPlayDeck_stop_fade (pv_now env) n (-10000)) l
                     (put_line i (\<lambda>l. l\<lparr>log_status := Finishing\<rparr>) p)
                 | CartMacro \<Rightarrow> macro_stop env p
                 | CartAll \<Rightarrow> Inr p)
           else Inr p) = Inr r" "stop_for_segue env n is r = Inr q"
    using Cons.prems unfolding stop_for_segue.simps res_bind_eq_Inr by blast
  have "steps p r"
    using r(1) by (auto split: option.splits if_splits cart_type.splits
        dest!: steps_deck_commands steps_macro_stop unpeel)
  with Cons.IH [OF r(2)] show ?case by (blast intro: moves_trans)
qed simp

lemma steps_transition: "transition env t n p = Inr q \<Longrightarrow> steps p q"
  by (auto simp: transition_def split: if_splits trans_type.splits dest: steps_stop_for_play steps_stop_for_segue)

lemma steps_clear_last [simp]: "steps p (clear_last_transition line p)"
  by (auto simp: clear_last_transition_def split: option.split intro!: peel)

lemma steps_settle_next [simp]: "steps p (settle_next p)"
  by (auto simp: settle_next_def Let_def intro!: peel)

lemma steps_load_macro_deck: "load_macro_deck f line p = Inr q \<Longrightarrow> steps p q"
  by (auto simp: load_macro_deck_def intro!: peel)

lemma steps_next_after_cart [simp]: "steps p (next_after_cart line w p)"
  by (auto simp: next_after_cart_def Let_def intro!: peel)

lemma steps_play_cart_line:
  assumes "keeps fin" "play_cart_line env db fin line a k n p = Some (Inr (c, q))" "no_auto env" "\<not> lp_refresh_pending p"
  shows "steps p q"
proof -
  obtain ok r where r: "deck_setCart env line k p = Inr (ok, r)"
    using assms(2) by (auto simp: play_cart_line_def)
  have pr: "steps p r" using steps_deck_setCart [OF r] .
  then have np: "\<not> lp_refresh_pending r" using assms(4) steps_pending by metis
  show ?thesis
  proof (cases ok)
    case True
    then obtain w s where s: "play_deck_line env line k a n r = Inr (w, s)" and q: "q = settle_next (next_after_cart line w s)"
      using assms(2) r by (auto simp: play_cart_line_def)
    from steps_play_deck_line [OF s] pr show ?thesis
      unfolding q by (meson moves_trans steps_settle_next steps_next_after_cart)
  next
    case False
    then obtain s where s: "fake_event env db fin line k r = Some (Inr s)"
      and q: "q = emit (OutLogCurrentLine (lp_next_line s)) s"
      using assms(2) r by (auto simp: play_cart_line_def)
    from steps_fake_event [OF assms(1) s assms(3) np] pr show ?thesis
      by (auto simp: q intro!: peel intro: moves_trans)
  qed
qed

lemma steps_start_cart:
  assumes "keeps fin" "start_cart env db fin line mport n p = Some (Inr (c, q))" "no_auto env" "\<not> lp_refresh_pending p"
  shows "steps p q"
proof -
  obtain started r where r: "StartAudioEvent line p = Inr (started, r)" using assms(2)
    by (auto simp: start_cart_def)
  note pr = steps_StartAudioEvent [OF r]
  show ?thesis
  proof (cases started)
    case False
    then show ?thesis using assms(2) r pr by (auto simp: start_cart_def intro!: peel)
  next
    case True
    obtain a k s where s: "assign_output line mport r = Inr (a, k, s)"
      and q: "play_cart_line env db fin line a k n s = Some (Inr (c, q))"
      using assms(2) r True by (auto simp: start_cart_def split: prod.splits)
    have ps: "steps p s" using pr steps_assign_output [OF s] by (rule moves_trans)
    then have "\<not> lp_refresh_pending s" using assms(4) steps_pending by metis
    from steps_play_cart_line [OF assms(1) q assms(3) this] ps show ?thesis by (meson moves_trans)
  qed
qed

text \<open>The next line of a macro, a marker or a chain.\<close>

lemma steps_next_marker:
  "steps p (if c then let p = p\<lparr>lp_next_line := n\<rparr> in end_start_next (f p) p else p)"
  by (auto simp: Let_def intro!: peel)

lemma steps_next_macro:
  "steps p (if c then let p = p\<lparr>lp_next_line := n\<rparr>
                    in if LogPlay_logLine p n = None then p
                       else (if d then put_line n (\<lambda>l. l\<lparr>log_trans_type := Stop\<rparr>) else id) (end_start_next e p)
            else p)"
  by (auto simp: Let_def intro!: peel)

lemma steps_start_macro:
  assumes "keeps fin" "start_macro env db fin line l p = Some (Inr q)" "\<not> lp_refresh_pending p"
  shows "steps p q"
proof -
  define r where "r = (if lp_next_line p \<ge> 0
               then let p = p\<lparr>lp_next_line := line + 1\<rparr>
                    in if LogPlay_logLine p (line + 1) = None then p
                       else (if log_forced_stop l then put_line (line + 1) (\<lambda>l. l\<lparr>log_trans_type := Stop\<rparr>) else id)
                              (end_start_next (log_id l = -2) p)
               else p)"
  have pr: "steps p r" unfolding r_def by (rule steps_next_macro)
  then have nr: "\<not> lp_refresh_pending r" using assms(3) steps_pending by metis
  show ?thesis
  proof (cases "log_asyncronous l")
    case True
    then obtain m s t where s: "log_traffic env (LogPlay_logLine (put_line line
          (\<lambda>l. (RDLogLine_setStartTime Actual (pv_now env) l)\<lparr>log_status := status.Finished\<rparr>)
          (emit (SigPlayed line) (emit (OutMacro (SendRml m)) r))) line) TrafficMacro
        (put_line line (\<lambda>l. (RDLogLine_setStartTime Actual (pv_now env) l)\<lparr>log_status := status.Finished\<rparr>)
          (emit (SigPlayed line) (emit (OutMacro (SendRml m)) r))) = Inr s"
      and t: "fin line s = Some (Inr t)" and q: "q = emit SigTransportChanged t"
      using assms(2) unfolding start_macro_def r_def [symmetric] by (auto simp: Let_def)
    have rs: "steps r s" using steps_log_traffic [OF s] by (auto dest!: unpeel)
    then have "\<not> lp_refresh_pending s" using nr steps_pending by metis
    from keepsD [OF assms(1) t this] pr rs show ?thesis unfolding q by (meson moves_trans peel)
  next
    case False
    then obtain s where s: "load_macro_deck (RDMacroEvent_load_cart (le_macros (pv_line env) (log_cart_number l))) line r = Inr s"
      and q: "macro_exec env db fin s = Some (Inr q)"
      using assms(2) unfolding start_macro_def r_def [symmetric] by (auto simp: Let_def)
    have ps: "steps p s" using pr steps_load_macro_deck [OF s] by (rule moves_trans)
    then have "\<not> lp_refresh_pending s" using assms(3) steps_pending by metis
    from steps_macro_exec [OF assms(1) q this] ps show ?thesis by (meson moves_trans)
  qed
qed

lemma steps_start_marker:
  assumes "keeps fin" "start_marker env fin line p = Some (Inr q)" "\<not> lp_refresh_pending p"
  shows "steps p q"
proof -
  define r where "r = (if lp_next_line p \<ge> 0
               then let p = p\<lparr>lp_next_line := line + 1\<rparr>
                    in end_start_next (LogPlay_logLine p (line + 1) = None \<or> placeholder_at (line + 1) p) p
               else p)"
  have pr: "steps p r" unfolding r_def by (rule steps_next_marker)
  obtain s t where s: "UpdateStartTimes (put_line line (\<lambda>l. l\<lparr>log_status := status.Finished\<rparr>) r) = Inr s"
    and t: "fin line (emit (SigPlayed line) s) = Some (Inr t)" and q: "q = emit (SigNextEventChanged (lp_next_line t)) t"
    using assms(2) unfolding start_marker_def r_def [symmetric] by (auto simp: Let_def)
  have ps: "steps p (emit (SigPlayed line) s)"
    using pr steps_UpdateStartTimes [OF s] by (auto dest!: unpeel intro!: peel intro: moves_trans)
  then have "\<not> lp_refresh_pending (emit (SigPlayed line) s)" using assms(3) steps_pending by metis
  from keepsD [OF assms(1) t this] ps show ?thesis unfolding q by (meson moves_trans peel)
qed

lemma steps_start_chain:
  assumes "keeps fin" "start_chain env db fin line l p = Some (Inr q)" "\<not> lp_refresh_pending p"
  shows "steps p q"
proof -
  define r where "r = (if lp_next_line p > 0
               then let p = p\<lparr>lp_next_line := line + 1\<rparr>
                    in end_start_next (LogPlay_logLine p (line + 1) = None \<or> placeholder_at (line + 1) p) p
               else p)"
  have pr: "steps p r" unfolding r_def by (rule steps_next_marker)
  obtain s where s: "load_macro_deck (RDMacroEvent_load (chain_rml (lp_id r + 1) (log_marker_label l))) line r = Inr s"
    and q: "macro_exec env db fin s = Some (Inr q)"
    using assms(2) unfolding start_chain_def r_def [symmetric] by (auto simp: Let_def)
  have ps: "steps p s" using pr steps_load_macro_deck [OF s] by (rule moves_trans)
  then have "\<not> lp_refresh_pending s" using assms(3) steps_pending by metis
  from steps_macro_exec [OF assms(1) q this] ps show ?thesis by (meson moves_trans)
qed

lemma steps_start_event:
  assumes "keeps fin" "start_event env db fin line t len src mport n p = Some (Inr (c, q))" "no_auto env"
    "\<not> lp_refresh_pending p"
  shows "steps p q"
proof (cases "\<exists>l0. LogPlay_logLine p line = Some l0 \<and> 0 \<le> log_id l0")
  case False
  then show ?thesis using assms(2) by (auto simp: start_event_def split: option.splits if_splits)
next
  case True
  then obtain r l where r: "transition env t len p = Inr r"
    and l: "start_line env db fin line mport n l
        (put_line line (\<lambda>l. l\<lparr>log_start_source := src\<rparr>) (clear_last_transition line r)) = Some (Inr (c, q))"
    using assms(2) by (auto simp: start_event_def Let_def)
  let ?r = "put_line line (\<lambda>l. l\<lparr>log_start_source := src\<rparr>) (clear_last_transition line r)"
  have pr: "steps p ?r"
    using steps_transition [OF r] by (auto intro!: peel intro: moves_trans [OF _ steps_clear_last])
  then have np: "\<not> lp_refresh_pending ?r" using assms(4) steps_pending by metis
  have "steps ?r q"
    using l steps_start_cart [OF assms(1) _ assms(3) np] steps_start_macro [OF assms(1) _ np]
      steps_start_marker [OF assms(1) _ np] steps_start_chain [OF assms(1) _ np]
    by (auto simp: start_line_def Let_def split: line_type.splits if_splits intro: moves_trans [OF _ steps_settle_next])
  with pr show ?thesis by (rule moves_trans)
qed

lemma keeps_FinishEvent: "no_auto env \<Longrightarrow> keeps (FinishEvent n env db)"
proof (induction n)
  case 0
  then show ?case by (simp add: keeps_def)
next
  case (Suc n)
  show ?case
    unfolding keeps_def
  proof (intro allI impI)
    fix line p q
    assume f: "FinishEvent (Suc n) env db line p = Some (Inr q)" and np: "\<not> lp_refresh_pending p"
    obtain i r where r: "GetNextPlayable env db (lp_next_line p) False False p = Inr (i, r)"
      using f by (auto simp: Let_def)
    have pr: "steps p r" using steps_GetNextPlayable [OF r Suc.prems] .
    have tail: "steps s t" if "stopped_tail line s = Some (Inr t)" for s t
      using that by (auto simp: stopped_tail_def dest!: steps_UpdateStartTimes intro!: peel)
    show "steps p q"
    proof (cases i)
      case None
      then show ?thesis using f r pr tail [of r q] by (auto simp: Let_def intro: moves_trans)
    next
      case (Some j)
      let ?r = "r\<lparr>lp_next_line := j\<rparr>"
      have p1: "steps p ?r" and n1: "\<not> lp_refresh_pending ?r" using pr np steps_pending by (auto intro!: peel)
      let ?start = "\<lambda>l. run_bind (start_event env db (FinishEvent n env db) j (log_trans_type l) 0 StartPlay (-1) 0 ?r)
        (\<lambda>(_, s). stopped_tail line (SetTransTimer env 0 (lp_next_line p = lp_trans_line s) s))"
      have e: "(if j < 0 then stopped_tail line ?r
            else (case LogPlay_logLine ?r j of None \<Rightarrow> Some (Inr ?r)
              | Some l \<Rightarrow> if lp_op_mode ?r = Auto \<and> log_id l \<noteq> -1 \<and> log_trans_type l \<in> {Play, Segue} then ?start l
                  else stopped_tail line ?r)) = Some (Inr q)"
        using f unfolding FinishEvent.simps Let_def r Some run_bind_simps prod.case option.case by assumption
      have start: "steps p q" if st: "?start l = Some (Inr q)" for l
      proof -
        obtain c s where s: "start_event env db (FinishEvent n env db) j (log_trans_type l) 0 StartPlay (-1) 0 ?r = Some (Inr (c, s))"
          "stopped_tail line (SetTransTimer env 0 (lp_next_line p = lp_trans_line s) s) = Some (Inr q)"
          using st unfolding run_bind_eq_Inr by auto
        have rs: "steps ?r s" using steps_start_event [OF Suc.IH [OF Suc.prems] s(1) Suc.prems n1] .
        have "steps s q" using tail [OF s(2)] by (auto dest!: unpeel)
        with p1 rs show ?thesis by (meson moves_trans)
      qed
      have stop: "steps p q" if "stopped_tail line ?r = Some (Inr q)"
        using moves_trans [OF p1 tail [OF that]] .
      show ?thesis
        using e start stop p1 by (cases "j < 0"; cases "LogPlay_logLine ?r j") (simp_all split: if_split_asm)
    qed
  qed
qed

lemma steps_StartEvent:
  "StartEvent env db line t len src mport n p = Some (Inr (c, q)) \<Longrightarrow> no_auto env \<Longrightarrow> \<not> lp_refresh_pending p \<Longrightarrow> steps p q"
  unfolding StartEvent_def by (rule steps_start_event [OF keeps_FinishEvent])

section \<open>Starts end\<close>

lemma waiting_set_own:
  "waiting_set (own p) = {j. j < length (log_lines (lp_log p)) \<and> waits (log_status (log_lines (lp_log p) ! j))}"
  by (auto simp: waiting_set_def own_def line_uses_def line_use_def)

definition waiting :: "log_play \<Rightarrow> nat set" where
  "waiting p = waiting_set (own p)"

lemma waiting_finite [simp]: "finite (waiting p)"
  by (simp add: waiting_def waiting_set_own)

lemma waiting_steps: "steps p q \<Longrightarrow> waiting q \<subseteq> waiting p"
  by (simp add: waiting_def moves_def waiting_run)

lemma waiting_put_line:
  "(\<And>l. \<not> waits (log_status (f l))) \<Longrightarrow> waiting (put_line i f p) \<subseteq> waiting p - {nat i}"
  by (auto simp: waiting_def waiting_set_own put_line_def nth_update split: if_splits)

lemma waiting_done:
  "waiting p \<subseteq> insert (nat i) W \<Longrightarrow> (\<And>l. \<not> waits (log_status (f l))) \<Longrightarrow> waiting (put_line i f p) \<subseteq> W"
  using waiting_put_line [of f i p] by blast

text \<open>\<open>fin\<close> answers in every state in which only lines of \<open>W\<close> wait.\<close>

definition ends_on :: "nat set \<Rightarrow> (int \<Rightarrow> log_play \<Rightarrow> log_play run) \<Rightarrow> bool" where
  "ends_on W fin \<longleftrightarrow> (\<forall>line p. waiting p \<subseteq> W \<longrightarrow> fin line p \<noteq> None)"

lemma ends_onD: "ends_on W fin \<Longrightarrow> waiting p \<subseteq> W \<Longrightarrow> fin line p \<noteq> None"
  by (simp add: ends_on_def)

lemma run_bindI: "r \<noteq> None \<Longrightarrow> (\<And>x. r = Some (Inr x) \<Longrightarrow> f x \<noteq> None) \<Longrightarrow> run_bind r f \<noteq> None"
  unfolding run_bind_eq_None by blast

lemma Finished_ends:
  assumes "ends_on W fin" "waiting p \<subseteq> W" shows "LogPlay_Finished env fin line p \<noteq> None"
proof (cases "LogPlay_logLine p line")
  case (Some l)
  have "run_bind (Some (CleanupEvent env line p)) (fin line) \<noteq> None"
  proof (rule run_bindI)
    fix r assume "Some (CleanupEvent env line p) = Some (Inr r)"
    then have "waiting r \<subseteq> W" using assms(2) waiting_steps [OF steps_CleanupEvent] by blast
    then show "fin line r \<noteq> None" by (rule ends_onD [OF assms(1)])
  qed simp
  then have "(if log_status l = Playing then run_bind (Some (CleanupEvent env line p)) (fin line) else Some (Inr p)) \<noteq> None"
    by simp
  then show ?thesis unfolding LogPlay_Finished_def Some option.case by (rule run_bindI) simp
qed (simp add: LogPlay_Finished_def)

lemma macroFinished_ends:
  assumes "ends_on W fin" "waiting p \<subseteq> W" shows "macroFinishedData env db fin p \<noteq> None"
proof -
  have "waiting (clear_macro p) \<subseteq> W" using assms(2) waiting_steps [OF moves_fields(18)] by blast
  from ends_onD [OF assms(1) this] show ?thesis unfolding macroFinishedData_def Let_def by (rule run_bindI) simp
qed

text \<open>What the macro deck sends: first that it has started, last, if at all, that it has finished.\<close>

definition quiet_signal :: "signal \<Rightarrow> bool" where
  "quiet_signal x \<longleftrightarrow> (case x of StartedLine _ \<Rightarrow> True | FinishedLine _ \<Rightarrow> True | SendRml _ \<Rightarrow> True | _ \<Rightarrow> False)"

lemma exec_line_quiet:
  "RDMacroEvent_exec_line env i ev = Inr (ev', xs) \<Longrightarrow> list_all quiet_signal xs \<and> event_line ev' = event_line ev"
  by (auto simp: RDMacroEvent_exec_line_def quiet_signal_def split: if_splits option.splits)

lemma exec_loop_signals:
  "exec_loop env k i ev out = Inr (ev', xs) \<Longrightarrow>
    \<exists>mid fin. xs = out @ mid @ fin \<and> list_all quiet_signal mid \<and> fin \<in> {[], [signal.Finished]} \<and> event_line ev' = event_line ev"
proof (induction k arbitrary: i ev out)
  case 0
  then show ?case by (intro exI [of _ "[]"] exI [of _ "[signal.Finished]"]) auto
next
  case (Suc k)
  obtain m ev1 o1 where m: "vec_get (event_cmds ev) (int i) = Inr m" "RDMacroEvent_exec_line env i ev = Inr (ev1, o1)"
    and r: "(if rml_cmd m = SP then Inr (ev1, out @ o1) else exec_loop env k (i + 1) ev1 (out @ o1)) = Inr (ev', xs)"
    using Suc.prems by (auto split: prod.splits)
  note quiet = exec_line_quiet [OF m(2)]
  show ?case
  proof (cases "rml_cmd m = SP")
    case True
    with r quiet show ?thesis by (intro exI [of _ o1] exI [of _ "[]"]) auto
  next
    case False
    with r have "exec_loop env k (i + 1) ev1 (out @ o1) = Inr (ev', xs)" by simp
    from Suc.IH [OF this] obtain mid f where "xs = (out @ o1) @ mid @ f" "list_all quiet_signal mid"
      "f \<in> {[], [signal.Finished]}" "event_line ev' = event_line ev1" by blast
    with quiet show ?thesis by (intro exI [of _ "o1 @ mid"] exI [of _ f]) auto
  qed
qed

lemma exec_signals:
  assumes "RDMacroEvent_exec env ev = Inr (ev', xs)"
  shows "event_line ev' = event_line ev \<and> (xs = [] \<or> (\<exists>mid fin. xs = Started # mid @ fin \<and> list_all quiet_signal mid
    \<and> fin \<in> {[], [signal.Finished]}))"
proof (cases "event_ripc ev")
  case True
  then obtain mid f where "xs = [Started] @ mid @ f" "list_all quiet_signal mid" "f \<in> {[], [signal.Finished]}"
    "event_line ev' = event_line ev"
    using assms exec_loop_signals [of env "length (event_cmds ev)" 0 "ev\<lparr>event_whole_list := True\<rparr>" "[Started]" ev' xs]
    by (auto simp: RDMacroEvent_exec_def RDMacroEvent_ExecList_def Let_def)
  then show ?thesis by auto
qed (use assms in \<open>simp add: RDMacroEvent_exec_def\<close>)

lemma macro_signals_quiet:
  assumes "ends_on W fin" "list_all quiet_signal mid" "f \<in> {[], [signal.Finished]}" "waiting p \<subseteq> W"
  shows "macro_signals env db fin (mid @ f) p \<noteq> None"
  using assms(2,4)
proof (induction mid arbitrary: p)
  case Nil
  show ?case
  proof (cases "f = []")
    case False
    with assms(3) have f: "f = [signal.Finished]" by simp
    show ?thesis using macroFinished_ends [OF assms(1) Nil(2), of env db]
      unfolding append_Nil f macro_signals.simps signal.case by (intro run_bindI) simp_all
  qed simp
next
  case (Cons x xs)
  have "waiting (emit y p) \<subseteq> W" for y using Cons.prems(2) waiting_steps [OF moves_fields(17)] by blast
  with Cons show ?case by (cases x) (auto simp: quiet_signal_def)
qed

text \<open>A macro deck that is set to a line ends: the line plays before the deck can finish.\<close>

lemma macro_exec_ends:
  assumes "ends_on W fin" "waiting p \<subseteq> insert (nat line) W" "macro_line p = line" "0 \<le> line"
  shows "macro_exec env db fin p \<noteq> None"
proof (cases "RDMacroEvent_exec (pv_exec env) (lp_macro_deck p)")
  case (Inr r)
  obtain ev xs where r: "r = (ev, xs)" by (cases r)
  let ?p = "p\<lparr>lp_macro_deck := ev\<rparr>"
  have ev: "event_line ev = line" and xs: "xs = [] \<or> (\<exists>mid fin. xs = Started # mid @ fin \<and> list_all quiet_signal mid
      \<and> fin \<in> {[], [signal.Finished]})"
    using exec_signals [OF Inr [unfolded r]] assms(3) by (auto simp: macro_line_def)
  have "macro_signals env db fin xs ?p \<noteq> None"
  proof (cases "xs = []")
    case False
    with xs obtain mid f where xs: "xs = Started # mid @ f" "list_all quiet_signal mid" "f \<in> {[], [signal.Finished]}" by blast
    have "waiting q \<subseteq> W" if q: "macroStartedData env ?p = Inr q" for q
    proof (cases "LogPlay_logLine ?p line")
      case None
      then have "q = ?p\<lparr>lp_macro_running := True\<rparr>"
        using q ev by (simp add: macroStartedData_def Let_def macro_line_def LogPlay_logLine_def)
      moreover have "nat line \<notin> waiting p" using None assms(4)
        by (auto simp: waiting_def waiting_set_own logLine_None LogPlay_size_def RDLogEvent_size_def)
      ultimately show ?thesis using assms(2) by (auto simp: waiting_def waiting_set_own)
    next
      case (Some l)
      obtain s where s: "q = s" "steps (put_line line (\<lambda>l. RDLogLine_setStartTime Initial (current_time env) (l\<lparr>log_status := Playing\<rparr>))
          (?p\<lparr>lp_macro_running := True\<rparr>)) s"
        using q ev Some by (auto simp: macroStartedData_def Let_def macro_line_def LogPlay_logLine_def
            dest!: steps_UpdateStartTimes steps_UpdatePostPoint moves_trans [OF moves_fields(17)]
            intro!: peel(17) intro: moves_trans)
      have "waiting q \<subseteq> waiting (?p\<lparr>lp_macro_running := True\<rparr>) - {nat line}"
        using waiting_steps [OF s(2)] waiting_put_line [of "\<lambda>l. RDLogLine_setStartTime Initial (current_time env)
          (l\<lparr>log_status := Playing\<rparr>)" line "?p\<lparr>lp_macro_running := True\<rparr>"] by (auto simp: s(1) waits_def)
      then show ?thesis using assms(2) by (auto simp: waiting_def waiting_set_own)
    qed
    then show ?thesis
      unfolding xs(1) macro_signals.simps signal.case using macro_signals_quiet [OF assms(1) xs(2,3)] by (intro run_bindI) simp_all
  qed simp
  then show ?thesis by (simp add: macro_exec_def Inr r)
qed (simp add: macro_exec_def)

lemma load_macro_deck_line:
  "load_macro_deck f line p = Inr q \<Longrightarrow> macro_line q = line \<and> waiting q = waiting p"
  by (auto simp: load_macro_deck_def set_macro_line_def macro_line_def waiting_def waiting_set_own)

lemma waiting_next:
  "waiting p \<subseteq> V \<Longrightarrow> steps p q \<Longrightarrow> waiting q \<subseteq> V"
  using waiting_steps by blast

lemma fake_event_ends:
  assumes "ends_on W fin" "waiting p \<subseteq> insert (nat line) W" "no_auto env"
  shows "fake_event env db fin line k p \<noteq> None"
  unfolding fake_event_def
proof (intro run_bindI)
  fix s assume "Some (LogPlay_Playing env db (play_id (lp_deck p ! k))
      (put_line line (\<lambda>l. l\<lparr>log_zombified := True\<rparr>) p)) = Some (Inr s)"
  then have "steps (put_line line (\<lambda>l. l\<lparr>log_zombified := True\<rparr>) p) s" using steps_Playing [OF _ assms(3)] by blast
  then have "steps p s" by (auto dest!: unpeel)
  then have "waiting (put_line line (\<lambda>l. l\<lparr>log_status := Playing\<rparr>) s) \<subseteq> W"
    by (intro waiting_done waiting_next [OF assms(2)]) (simp_all add: waits_def)
  then show "LogPlay_Finished env fin (play_id (lp_deck s ! k)) (put_line line (\<lambda>l. l\<lparr>log_status := Playing\<rparr>) s) \<noteq> None"
    by (rule Finished_ends [OF assms(1)])
qed simp_all

lemma play_cart_line_ends:
  assumes "ends_on W fin" "waiting p \<subseteq> insert (nat line) W" "no_auto env"
  shows "play_cart_line env db fin line a k n p \<noteq> None"
  unfolding play_cart_line_def
proof (rule run_bindI, simp)
  fix x assume x: "Some (deck_setCart env line k p) = Some (Inr x)"
  obtain ok r where r: "x = (ok, r)" by (cases x)
  have "waiting r \<subseteq> insert (nat line) W" using waiting_next [OF assms(2) steps_deck_setCart] x r by simp
  note fake = fake_event_ends [OF assms(1) this assms(3)]
  show "(case x of (ok, p) \<Rightarrow>
       if ok
       then run_bind (Some (play_deck_line env line k a n p)) (\<lambda>(was_paused, p).
              Some (Inr (True, settle_next (next_after_cart line was_paused p))))
       else run_bind (fake_event env db fin line k p) (\<lambda>p.
              Some (Inr (False, emit (OutLogCurrentLine (lp_next_line p)) p)))) \<noteq> None"
  proof (cases ok)
    case True
    then show ?thesis unfolding r prod.case if_P [OF True] by (intro run_bindI) auto
  next
    case False
    then show ?thesis unfolding r prod.case if_not_P [OF False] by (intro run_bindI fake) simp
  qed
qed

lemma start_cart_ends:
  assumes "ends_on W fin" "waiting p \<subseteq> insert (nat line) W" "no_auto env"
  shows "start_cart env db fin line mport n p \<noteq> None"
proof (cases "StartAudioEvent line p")
  case (Inr x)
  obtain c q where x: "x = (c, q)" by (cases x)
  have wq: "waiting q \<subseteq> insert (nat line) W" using waiting_next [OF assms(2) steps_StartAudioEvent] Inr x by simp
  have "play_cart_line env db fin line a k n r \<noteq> None" if "assign_output line mport q = Inr (a, k, r)" for a k r
    by (rule play_cart_line_ends [OF assms(1) waiting_next [OF wq steps_assign_output [OF that]] assms(3)])
  then have "run_bind (Some (assign_output line mport q)) (\<lambda>(aport, k, p). play_cart_line env db fin line aport k n p) \<noteq> None"
    by (intro run_bindI) auto
  then show ?thesis unfolding start_cart_def Inr x run_bind_simps prod.case by (cases c) simp_all
qed (simp add: start_cart_def)

lemma start_macro_ends:
  assumes "ends_on W fin" "waiting p \<subseteq> insert (nat line) W" "0 \<le> line"
  shows "start_macro env db fin line l p \<noteq> None"
proof -
  define r where "r = (if lp_next_line p \<ge> 0
               then let p = p\<lparr>lp_next_line := line + 1\<rparr>
                    in if LogPlay_logLine p (line + 1) = None then p
                       else (if log_forced_stop l then put_line (line + 1) (\<lambda>l. l\<lparr>log_trans_type := Stop\<rparr>) else id)
                              (end_start_next (log_id l = -2) p)
               else p)"
  have wr: "waiting r \<subseteq> insert (nat line) W" using waiting_next [OF assms(2)] steps_next_macro unfolding r_def by blast
  show ?thesis
  proof (cases "log_asyncronous l")
    case True
    have "fin line s \<noteq> None" if s: "log_traffic env (LogPlay_logLine q line) TrafficMacro q = Inr s"
      "q = put_line line (\<lambda>l. (RDLogLine_setStartTime Actual (pv_now env) l)\<lparr>log_status := status.Finished\<rparr>)
          (emit (SigPlayed line) (emit (OutMacro (SendRml m)) r))" for m q s
    proof -
      have "waiting (emit (SigPlayed line) (emit (OutMacro (SendRml m)) r)) \<subseteq> insert (nat line) W"
        by (intro waiting_next [OF wr] peel moves_refl)
      then have "waiting q \<subseteq> W"
        unfolding s(2) by (rule waiting_done) (simp add: waits_def)
      from ends_onD [OF assms(1) waiting_next [OF this steps_log_traffic [OF s(1)]]] show ?thesis .
    qed
    then show ?thesis unfolding start_macro_def r_def [symmetric]
      unfolding Let_def if_P [OF True] by (intro run_bindI) (auto simp del: not_None_eq)
  next
    case False
    have "macro_exec env db fin s \<noteq> None"
      if "load_macro_deck (RDMacroEvent_load_cart (le_macros (pv_line env) (log_cart_number l))) line r = Inr s" for s
      using load_macro_deck_line [OF that] wr by (intro macro_exec_ends [OF assms(1) _ _ assms(3)]) simp_all
    then show ?thesis unfolding start_macro_def r_def [symmetric]
      unfolding Let_def if_not_P [OF False] by (intro run_bindI) (auto simp del: not_None_eq)
  qed
qed

lemma start_marker_ends:
  assumes "ends_on W fin" "waiting p \<subseteq> insert (nat line) W"
  shows "start_marker env fin line p \<noteq> None"
proof -
  define r where "r = (if lp_next_line p \<ge> 0
               then let p = p\<lparr>lp_next_line := line + 1\<rparr>
                    in end_start_next (LogPlay_logLine p (line + 1) = None \<or> placeholder_at (line + 1) p) p
               else p)"
  have wr: "waiting r \<subseteq> insert (nat line) W" unfolding r_def by (rule waiting_next [OF assms(2) steps_next_marker])
  have "fin line (emit (SigPlayed line) s) \<noteq> None"
    if s: "UpdateStartTimes (put_line line (\<lambda>l. l\<lparr>log_status := status.Finished\<rparr>) r) = Inr s" for s
  proof -
    have "waiting (put_line line (\<lambda>l. l\<lparr>log_status := status.Finished\<rparr>) r) \<subseteq> W"
      by (intro waiting_done wr) (simp add: waits_def)
    then show ?thesis
      by (intro ends_onD [OF assms(1)] waiting_next [OF _ moves_trans [OF steps_UpdateStartTimes [OF s] moves_fields(17)]])
  qed
  then show ?thesis unfolding start_marker_def r_def [symmetric]
    unfolding Let_def by (intro run_bindI) (auto simp del: not_None_eq)
qed

lemma start_chain_ends:
  assumes "ends_on W fin" "waiting p \<subseteq> insert (nat line) W" "0 \<le> line"
  shows "start_chain env db fin line l p \<noteq> None"
proof -
  define r where "r = (if lp_next_line p > 0
               then let p = p\<lparr>lp_next_line := line + 1\<rparr>
                    in end_start_next (LogPlay_logLine p (line + 1) = None \<or> placeholder_at (line + 1) p) p
               else p)"
  have wr: "waiting r \<subseteq> insert (nat line) W" unfolding r_def by (rule waiting_next [OF assms(2) steps_next_marker])
  have "macro_exec env db fin s \<noteq> None" if "load_macro_deck f line r = Inr s" for f s
    using load_macro_deck_line [OF that] wr by (intro macro_exec_ends [OF assms(1) _ _ assms(3)]) simp_all
  then show ?thesis unfolding start_chain_def r_def [symmetric]
    unfolding Let_def by (intro run_bindI) (auto simp del: not_None_eq)
qed

lemma start_event_ends:
  assumes "ends_on W fin" "waiting p \<subseteq> insert (nat line) W" "no_auto env"
  shows "start_event env db fin line t len src mport n p \<noteq> None"
proof (cases "LogPlay_logLine p line")
  case (Some l0)
  then have line: "0 \<le> line" using logLine_None [of p line] by auto
  have "start_line env db fin line mport n l
      (put_line line (\<lambda>l. l\<lparr>log_start_source := src\<rparr>) (clear_last_transition line r)) \<noteq> None" (is "start_line _ _ _ _ _ _ _ ?r \<noteq> _")
    if "transition env t len p = Inr r" for r l
  proof -
    have "steps p ?r" using steps_transition [OF that]
      by (auto intro!: peel intro: moves_trans [OF _ steps_clear_last])
    then have w: "waiting ?r \<subseteq> insert (nat line) W" by (rule waiting_next [OF assms(2)])
    note ends = start_cart_ends [OF assms(1) w assms(3)] start_macro_ends [OF assms(1) w line]
      start_marker_ends [OF assms(1) w] start_chain_ends [OF assms(1) w line]
    show ?thesis
      unfolding start_line_def Let_def
      by (cases "log_type l"; simp only: line_type.case; (split if_split)?; intro conjI impI run_bindI ends; simp)
  qed
  note start = this
  show ?thesis
  proof (cases "log_id l0 < 0")
    case False
    show ?thesis
      unfolding start_event_def Some option.case Let_def if_not_P [OF False]
      by (rule run_bindI, simp, rule run_bindI, simp, rule start, simp)
  qed (simp add: start_event_def Some)
qed (simp add: start_event_def)

lemma logLine_waiting:
  assumes "LogPlay_logLine p i = Some l" "waits (log_status l)" shows "nat i \<in> waiting p"
  using assms by (auto simp: waiting_def waiting_set_own logLine_Some_iff)

text \<open>C7: The recursion of \<open>StartEvent\<close> and \<open>FinishEvent\<close> is never deeper than the number of lines that wait
  to be played, however the markers, macro carts, chains and missing carts of the log follow one
  another, as long as the log is not refreshed automatically: with one more unit of fuel \<open>FinishEvent\<close> returns, or runs into a null pointer.\<close>

theorem finish_event_ends:
  assumes "card (waiting p) < n" "\<not> li_auto_refresh (pv_log_info env)"
  shows "\<exists>r. FinishEvent n env db line p = Some r"
  using assms(1)
proof (induction n arbitrary: line p)
  case (Suc n)
  have auto: "no_auto env" using assms(2) by (simp add: no_auto_def)
  have "FinishEvent (Suc n) env db line p \<noteq> None"
  proof (cases "GetNextPlayable env db (lp_next_line p) False False p")
    case (Inr x)
    obtain i r where x: "x = (i, r)" by (cases x)
    have g: "GetNextPlayable env db (lp_next_line p) False False p = Inr (i, r)" using Inr x by simp
    show ?thesis
    proof (cases i)
      case None
      then show ?thesis using g by (simp add: Let_def stopped_tail_def)
    next
      case (Some j)
      let ?r = "r\<lparr>lp_next_line := j\<rparr>"
      have wr: "waiting ?r \<subseteq> waiting p"
        using steps_GetNextPlayable [OF g auto] by (intro waiting_steps) (auto intro!: peel)
      have start: "start_event env db (FinishEvent n env db) j t len src mport m ?r \<noteq> None"
        if l: "LogPlay_logLine ?r j = Some l" "log_trans_type l \<in> {Play, Segue}" for l t len src mport m
      proof -
        have "startable l"
          using next_playable_ok [OF g [unfolded GetNextPlayable_def] auto] Some l(1) by (simp add: LogPlay_logLine_def)
        then have "nat j \<in> waiting ?r" using l logLine_waiting by (auto simp: startable_def)
        then have "card (waiting ?r - {nat j}) < card (waiting p)"
          using wr by (intro psubset_card_mono) auto
        then have "card (waiting ?r - {nat j}) < n" using Suc.prems by simp
        have "FinishEvent n env db k q \<noteq> None" if "waiting q \<subseteq> waiting ?r - {nat j}" for k q
          using Suc.IH [of q k] card_mono [OF _ that] \<open>_ < n\<close> by simp
        then have "ends_on (waiting ?r - {nat j}) (FinishEvent n env db)" by (simp add: ends_on_def del: not_None_eq)
        then show ?thesis using auto by (intro start_event_ends) auto
      qed
      show ?thesis
      proof (cases "j < 0 \<or> LogPlay_logLine ?r j = None")
        case True
        then show ?thesis
          unfolding FinishEvent.simps Let_def g Some run_bind_simps prod.case option.case
          by (cases "j < 0") (simp_all add: stopped_tail_def)
      next
        case False
        then obtain l where l: "\<not> j < 0" "LogPlay_logLine ?r j = Some l" by auto
        show ?thesis
        proof (cases "lp_op_mode ?r = Auto \<and> log_id l \<noteq> -1 \<and> log_trans_type l \<in> {Play, Segue}")
          case True
          show ?thesis
            unfolding FinishEvent.simps Let_def g Some run_bind_simps prod.case option.case if_not_P [OF l(1)] l(2) if_P [OF True]
          proof (rule run_bindI)
            show "start_event env db (FinishEvent n env db) j (log_trans_type l) 0 StartPlay (-1) 0 ?r \<noteq> None"
              using True by (intro start [OF l(2)]) blast
          qed (simp add: stopped_tail_def split: prod.split)
        next
          case False
          show ?thesis
            unfolding FinishEvent.simps Let_def g Some run_bind_simps prod.case option.case if_not_P [OF l(1)] l(2) if_not_P [OF False]
            by (simp add: stopped_tail_def)
        qed
      qed
    qed
  qed (simp add: Let_def)
  then show ?case by simp
qed simp

definition marker_at :: "int \<Rightarrow> log_line" where
  "marker_at i = new_log_line\<lparr>log_id := i, log_type := Marker\<rparr>"

theorem finish_event_ends_witness:
  "\<exists>r. FinishEvent 3 quiet_env undefined 0 (demo_player [marker_at 1, marker_at 2]) = Some r"
proof (rule finish_event_ends)
  have "waiting (demo_player [marker_at 1, marker_at 2]) \<subseteq> {..<2}"
    by (auto simp: waiting_def waiting_set_own demo_player_def)
  from card_mono [OF _ this] show "card (waiting (demo_player [marker_at 1, marker_at 2])) < 3" by simp
qed (simp add: quiet_env_def)

lemma fuel_ends: "no_auto env \<Longrightarrow> waiting q \<subseteq> waiting p \<Longrightarrow> FinishEvent (run_fuel p) env db line q \<noteq> None"
proof -
  assume "no_auto env" "waiting q \<subseteq> waiting p"
  moreover have "waiting p \<subseteq> {..<length (log_lines (lp_log p))}" by (auto simp: waiting_def waiting_set_own)
  ultimately have "card (waiting q) \<le> length (log_lines (lp_log p))"
    using card_mono [of "{..<length (log_lines (lp_log p))}" "waiting q"] by force
  with \<open>no_auto env\<close> finish_event_ends [of q "run_fuel p" env db line] show ?thesis
    by (simp add: run_fuel_def no_auto_def)
qed

lemma StartEvent_ends: "no_auto env \<Longrightarrow> StartEvent env db line t len src mport n p \<noteq> None"
  unfolding StartEvent_def
  by (rule start_event_ends [where W = "waiting p"]) (auto simp: ends_on_def fuel_ends simp del: not_None_eq)

lemma run_bind_Some: "\<exists>y. r = Some y \<Longrightarrow> (\<And>x. \<exists>y. f x = Some y) \<Longrightarrow> \<exists>y. run_bind r f = Some y"
  using run_bindI [of r f] by auto

lemma play_ends:
  assumes "no_auto env" shows "LogPlay_play env db line src mport skip p \<noteq> None"
proof (cases "LogPlay_logLine p line")
  case (Some l)
  have "run_bind (Some (GetNextPlayable env db line (lp_op_mode p \<noteq> Auto \<and> skip) True p))
      (\<lambda>(next_line, p). case next_line of
         None \<Rightarrow> Some (Inr (False, p))
       | Some i \<Rightarrow> run_bind (StartEvent env db i (if lp_segue_length p = 0 then Play else Segue) (lp_segue_length p) src mport 0 p)
           (\<lambda>(ret, p). Some (Inr (ret, SetTransTimer env (pv_now env) True p)))) \<noteq> None"
    using StartEvent_ends [OF assms]
    by (intro run_bindI) (simp, auto split: prod.splits option.splits intro!: run_bind_Some)
  then show ?thesis unfolding LogPlay_play_def Some option.case by simp
qed (simp add: LogPlay_play_def)

section \<open>Every event on air\<close>

lemma moves_StartEvent:
  "StartEvent env db line t len src mport n q = Some (Inr (c, r)) \<Longrightarrow> no_auto env \<Longrightarrow> \<not> lp_refresh_pending p
    \<Longrightarrow> steps p q \<Longrightarrow> steps p r"
  using steps_StartEvent steps_pending moves_trans by metis

lemma steps_play:
  assumes "LogPlay_play env db line src mport skip p = Some (Inr (c, q))" "no_auto env" "\<not> lp_refresh_pending p"
  shows "steps p q"
proof (cases "\<exists>l. LogPlay_logLine p line = Some l
    \<and> \<not> (int (length (LogPlay_runningEvents True p)) \<ge> LOGPLAY_MAX_PLAYS \<and> log_status l \<noteq> Paused)")
  case False
  then show ?thesis using assms(1) by (auto simp: LogPlay_play_def split: option.splits if_splits)
next
  case True
  then obtain i r where r: "GetNextPlayable env db line (lp_op_mode p \<noteq> Auto \<and> skip) True p = Inr (i, r)"
    and q: "(case i of None \<Rightarrow> Some (Inr (False, r))
       | Some i \<Rightarrow> run_bind (StartEvent env db i (if lp_segue_length r = 0 then Play else Segue) (lp_segue_length r) src mport 0 r)
           (\<lambda>(ret, p). Some (Inr (ret, SetTransTimer env (pv_now env) True p)))) = Some (Inr (c, q))"
    using assms(1) unfolding LogPlay_play_def by auto
  have pr: "steps p r" using steps_GetNextPlayable [OF r assms(2)] .
  show ?thesis
  proof (cases i)
    case (Some j)
    obtain d s where s: "StartEvent env db j (if lp_segue_length r = 0 then Play else Segue) (lp_segue_length r) src mport 0 r
        = Some (Inr (d, s))" "q = SetTransTimer env (pv_now env) True s"
      using q Some by auto
    from moves_StartEvent [OF s(1) assms(2,3) pr] show ?thesis by (auto simp: s(2) intro!: peel)
  qed (use q pr in simp)
qed

lemma steps_lineModified:
  assumes "lineModified env line p = Inr q" shows "steps p q"
proof -
  obtain r s t where r: "UpdateStartTimes (SetTransTimer env 0 True p) = Inr r"
    and s: "(case LogPlay_logLine r line of
         None \<Rightarrow> Inr r
       | Some l \<Rightarrow> res_bind (RDLogLine_loadCart (pv_line env) (int (log_cart_number l)) (lp_id r)
             (log_timescaling_active l) NoTrans (-1) l) (\<lambda>l'. Inr (put_line line (\<lambda>_. l') r))) = Inr s"
    and t: "UpdatePostPoint env (emit (SigModified line) s) = Inr t" and q: "q = emit SigTransportChanged t"
    using assms unfolding lineModified_def res_bind_eq_Inr by blast
  have "player_core s = player_core r"
    using s by (auto split: option.splits dest!: line_use_loadCart intro: core_put_const)
  then have "player_core q = player_core p" using core_UpdateStartTimes [OF r] core_UpdatePostPoint [OF t] by (simp add: q)
  then show ?thesis by (rule moves_core)
qed

lemma steps_start_hard:
  "start_hard env db line q = Some (Inr r) \<Longrightarrow> no_auto env \<Longrightarrow> \<not> lp_refresh_pending p \<Longrightarrow> steps p q \<Longrightarrow> steps p r"
  by (auto simp: start_hard_def split: if_splits dest: moves_StartEvent)

lemma steps_arm_grace: "steps p (arm_grace g p)"
  unfolding arm_grace_def Let_def
  by (rule moves_trans [OF moves_use moves_fields(5)]) (simp add: line_use_def RDLogLine_setStartTime_def)

lemma steps_hard_time:
  assumes "hard_time env db line l q = Some (Inr r)" "no_auto env" "\<not> lp_refresh_pending p" "steps p q"
  shows "steps p r"
proof -
  have next_event: "steps p s" if "makeNext env db (lp_trans_line q) q = Inr s" for s
    using assms(4) steps_makeNext [OF that assms(2)] by (rule moves_trans)
  show ?thesis
    using assms(1,4) steps_arm_grace [of q "log_grace_time l"]
    by (auto simp: hard_time_def Let_def split: if_split_asm dest!: next_event
        intro: moves_StartEvent [OF _ assms(2,3)] steps_start_hard [OF _ assms(2,3)] moves_trans)
qed

lemma steps_transTimer:
  assumes "transTimerData env db p = Some (Inr q)" "no_auto env" "\<not> lp_refresh_pending p"
  shows "steps p q"
proof (cases "lp_op_mode p = Auto")
  case False
  then show ?thesis using assms(1) by (auto simp: transTimerData_def Let_def intro!: peel)
next
  case True
  then obtain i r where r: "GetNextPlayable env db (lp_trans_line p) False False (p\<lparr>lp_grace_timer := None\<rparr>) = Inr (i, r)"
    using assms(1) by (auto simp: transTimerData_def Let_def)
  have pr: "steps p r" using steps_GetNextPlayable [OF r assms(2)] by (auto dest!: unpeel)
  show ?thesis
  proof (cases i)
    case None
    then show ?thesis using assms(1) True r pr by (auto simp: transTimerData_def Let_def intro!: peel)
  next
    case (Some j)
    then obtain l s where s: "hard_time env db (lp_trans_line p) l (r\<lparr>lp_trans_line := j\<rparr>) = Some (Inr s)"
      and q: "q = SetTransTimer env 0 True s"
      using assms(1) True r by (auto simp: transTimerData_def Let_def)
    have "steps p (r\<lparr>lp_trans_line := j\<rparr>)" using pr by (auto intro!: peel)
    from steps_hard_time [OF s assms(2,3) this] show ?thesis by (auto simp: q intro!: peel)
  qed
qed

lemma steps_graceTimer:
  assumes "graceTimerData env db p = Some (Inr q)" "no_auto env" "\<not> lp_refresh_pending p"
  shows "steps p q"
proof (cases "lp_op_mode p = Auto")
  case True
  then obtain i r where r: "GetNextPlayable env db (lp_grace_line p) False False p = Inr (i, r)"
    using assms(1) by (auto simp: graceTimerData_def)
  have pr: "steps p r" using steps_GetNextPlayable [OF r assms(2)] .
  have next_event: "steps p s" if "makeNext env db (lp_grace_line r) r = Inr s" for s
    using pr steps_makeNext [OF that assms(2)] by (rule moves_trans)
  show ?thesis
    using assms(1) True r pr
    by (auto simp: graceTimerData_def Let_def split: option.splits if_split_asm dest!: next_event intro!: peel
        intro: moves_StartEvent [OF _ assms(2,3)] steps_start_hard [OF _ assms(2,3)])
qed (use assms(1) in \<open>simp add: graceTimerData_def\<close>)

lemma steps_segueStart:
  assumes "segueStartData env db line p = Some (Inr q)" "no_auto env" "\<not> lp_refresh_pending p"
  shows "steps p q"
proof (cases "LogPlay_nextEvent p \<noteq> None \<and> LogPlay_logLine p line \<noteq> None")
  case True
  then obtain nl l where l: "LogPlay_nextEvent p = Some nl" "LogPlay_logLine p line = Some l" by auto
  show ?thesis
  proof (cases "lp_op_mode p = Auto \<and> log_trans_type nl = Segue \<and> log_status l = Playing \<and> log_id l \<noteq> -1")
    case True
    then obtain i r where r: "GetNextPlayable env db (lp_next_line p) False False p = Inr (i, r)"
      using assms(1) l by (auto simp: segueStartData_def)
    have pr: "steps p r" using steps_GetNextPlayable [OF r assms(2)] .
    then have "steps p (r\<lparr>lp_next_line := j\<rparr>)" for j by (auto intro!: peel)
    with assms(1) l True r pr show ?thesis
      by (auto simp: segueStartData_def Let_def split: option.splits intro!: peel
          intro: moves_StartEvent [OF _ assms(2,3)])
  qed (use assms(1) l in \<open>auto simp: segueStartData_def\<close>)
qed (use assms(1) in \<open>auto simp: segueStartData_def split: option.splits\<close>)

lemma moves_playStateChanged:
  "playStateChangedData env db line s p = Some (Inr q) \<Longrightarrow> no_auto env \<Longrightarrow> \<not> lp_refresh_pending p \<Longrightarrow> moves True p q"
  using steps_Finished [OF keeps_FinishEvent]
  by (auto simp: playStateChangedData_def split: deck_state.splits
      dest!: steps_Playing moves_Paused steps_Stopped intro: moves_mono)

lemma moves_deck_signals:
  assumes "deck_signals env db k xs p = Some (Inr q)" "no_auto env" "\<not> lp_refresh_pending p"
  shows "moves True p q"
  using assms(1,3)
proof (induction xs arbitrary: p)
  case (Cons x xs)
  obtain r where r: "(if lp_deck_conn p ! k
        then (case x of
            StateChanged i s \<Rightarrow> playStateChangedData env db i s p
          | DeckPosition i pos \<Rightarrow> Some (Inr (positionData i pos p))
          | PointStart SeguePoint i \<Rightarrow> segueStartData env db i p
          | PointEnd SeguePoint i \<Rightarrow> Some (segueEndData env i p)
          | _ \<Rightarrow> Some (Inr p))
        else Some (Inr p)) = Some (Inr r)" "deck_signals env db k xs r = Some (Inr q)"
    using Cons.prems(1) unfolding deck_signals.simps run_bind_eq_Inr by blast
  have pr: "moves True p r"
    using r(1) Cons.prems(2) steps_segueStart [OF _ assms(2)] moves_playStateChanged [OF _ assms(2)]
    by (auto split: if_splits deck_out.splits point.splits dest!: steps_segueEnd
        intro: moves_mono moves_mono [OF steps_positionData])
  then have "\<not> lp_refresh_pending r" using Cons.prems(2) steps_pending by metis
  from Cons.IH [OF r(2) this] pr show ?case by (blast intro: moves_trans)
qed simp

lemma moves_air_step:
  assumes "air_step env db p q" "no_auto env" "\<not> lp_refresh_pending p" shows "moves True p q"
  using assms(1)
proof cases
  case (channel_play mport b)
  then show ?thesis using steps_play [OF _ assms(2,3)] by (auto simp: LogPlay_channelPlay_def split: if_splits intro: moves_mono)
next
  case (mode m)
  then show ?thesis by (auto simp: LogPlay_setOpMode_def split: if_splits dest!: steps_UpdateStartTimes unpeel intro: moves_mono)
next
  case trans_timer
  then have "steps (p\<lparr>lp_trans_timer := None\<rparr>) q" using assms(2,3) by (intro steps_transTimer) auto
  then show ?thesis by (auto dest!: unpeel intro: moves_mono)
next
  case grace_timer
  then have "steps (p\<lparr>lp_grace_timer := None\<rparr>) q" using assms(2,3) by (intro steps_graceTimer) auto
  then show ?thesis by (auto dest!: unpeel intro: moves_mono)
next
  case (macro_timer ev xs)
  have "keeps (LogPlay_FinishEvent env db)"
    using keepsD [OF keeps_FinishEvent [OF assms(2)]] by (auto simp: keeps_def LogPlay_FinishEvent_def)
  from steps_macro_signals [OF this macro_timer(2)] assms(3) show ?thesis by (auto dest!: unpeel intro: moves_mono)
next
  case (deck k ev outs d)
  have "moves True p (put_deck k (d, outs) p)" using deck_answer_id [OF deck(3,2)] by (intro moves_put_deck) simp
  moreover have "moves True (put_deck k (d, outs) p) q"
    using assms(2,3) deck(4) by (intro moves_deck_signals) (auto simp: put_deck_def)
  ultimately show ?thesis by (rule moves_trans)
next
  case (play line src mport skip b)
  then show ?thesis by (intro moves_mono [OF steps_play [OF _ assms(2,3)]])
next
  case (stop everything portnum fade b)
  then show ?thesis by (rule moves_mono [OF steps_stop])
next
  case (stop_line line fade b)
  then show ?thesis by (rule moves_mono [OF steps_stop_line])
next
  case (channel_stop mport b)
  then show ?thesis by (rule moves_mono [OF steps_channelStop])
next
  case (pause line b)
  then show ?thesis by (rule moves_mono [OF steps_pause])
next
  case (duck level fade mport)
  then show ?thesis by (rule moves_mono [OF steps_duckVolume])
next
  case (make_next line)
  then show ?thesis using assms(2) by (rule moves_mono [OF steps_makeNext])
next
  case rescan
  then show ?thesis using assms(2) by (rule moves_mono [OF steps_rescan])
next
  case (modified line)
  then show ?thesis by (rule moves_mono [OF steps_lineModified])
qed

lemma moves_air_run:
  "air_run no_auto db p q \<Longrightarrow> \<not> lp_refresh_pending p \<Longrightarrow> moves True p q"
proof (induction rule: air_run.induct)
  case (more p q env r)
  then have "moves True p q" by blast
  moreover from this have "\<not> lp_refresh_pending q" using more.prems steps_pending by metis
  ultimately show ?case using moves_air_step [OF more.hyps(3,2)] by (blast intro: moves_trans)
qed simp

text \<open>C8: From a log none of whose lines holds a deck, whatever is played, stopped, paused and segued, and
  whatever the engine and the timers answer, as long as the log is not edited meanwhile (\<open>air_run\<close> has no
  insertion, removal, move, copy, load, append, refresh or clear) and it is not refreshed automatically: no two
  lines ever share a deck, and the deck of a line is in use and carries the number of that line, so its signals
  reach the line that plays on it. A move breaks this (\<open>move_disowns\<close>).\<close>

theorem decks_never_shared:
  assumes "air_run no_auto db p q" "\<forall>l\<in>set (log_lines (lp_log p)). log_play_deck l = None"
    and "length (lp_deck p) = RD_MAX_STREAMS" "length (lp_deck_active p) = RD_MAX_STREAMS" "\<not> lp_refresh_pending p"
  shows "(\<forall>j k. j < length (log_lines (lp_log q)) \<and> log_play_deck (log_lines (lp_log q) ! j) = Some k \<longrightarrow>
      k < RD_MAX_STREAMS \<and> lp_deck_active q ! k \<and> play_id (lp_deck q ! k) = int j)
    \<and> (\<forall>i j k. i < length (log_lines (lp_log q)) \<and> j < length (log_lines (lp_log q))
        \<and> log_play_deck (log_lines (lp_log q) ! i) = Some k \<and> log_play_deck (log_lines (lp_log q) ! j) = Some k \<longrightarrow> i = j)"
proof -
  have "owned (own p)"
    using assms(2-4) by (auto simp: owned_def own_def line_uses_def line_use_def)
  then have q: "owned (own q)"
    using moves_air_run [OF assms(1,5)] owned_run by (auto simp: moves_def)
  then have len: "length (lp_deck q) = RD_MAX_STREAMS" by (simp add: owned_def own_def)
  have own: "k < RD_MAX_STREAMS \<and> lp_deck_active q ! k \<and> play_id (lp_deck q ! k) = int j"
    if "j < length (log_lines (lp_log q))" "log_play_deck (log_lines (lp_log q) ! j) = Some k" for j k
  proof -
    have "snd (ow_uses (own q) ! j) = Some k" "j < length (ow_uses (own q))"
      using that by (simp_all add: own_def line_uses_nth line_use_def)
    with q have "k < RD_MAX_STREAMS \<and> ow_active (own q) ! k \<and> ow_ids (own q) ! k = int j"
      unfolding owned_def by blast
    with len show ?thesis by (auto simp: own_def)
  qed
  then show ?thesis by (metis int_int_eq)
qed

theorem decks_never_shared_witness:
  "\<exists>q. air_run no_auto undefined (demo_player [marker_at 1, new_log_line, marker_at 2]) q \<and>
    (\<forall>i j k. i < length (log_lines (lp_log q)) \<and> j < length (log_lines (lp_log q))
        \<and> log_play_deck (log_lines (lp_log q) ! i) = Some k \<and> log_play_deck (log_lines (lp_log q) ! j) = Some k \<longrightarrow> i = j)"
proof -
  let ?p = "demo_player [marker_at 1, new_log_line, marker_at 2]"
  have "cart_decks ?p" by (auto simp: cart_decks_def holds_deck_def demo_player_def marker_at_def running_status_def)
  then obtain q where "makeNext quiet_env undefined 1 ?p = Inr q"
    using makeNext_total quiet_env_ok by blast
  then have r: "air_run no_auto undefined ?p q"
    by (intro air_run.more [OF air_run.none] air_step.make_next) (auto simp: no_auto_def quiet_env_def)
  moreover have d: "\<forall>l\<in>set (log_lines (lp_log ?p)). log_play_deck l = None" "length (lp_deck ?p) = RD_MAX_STREAMS"
    "length (lp_deck_active ?p) = RD_MAX_STREAMS" "\<not> lp_refresh_pending ?p"
    by (simp_all add: demo_player_def marker_at_def)
  ultimately show ?thesis using decks_never_shared [OF r d] by blast
qed

text \<open>Moving a line up to the place of a running line leaves a deck with the number of another line.\<close>

theorem move_disowns:
  assumes "deck_ids_ok p" "playing_decks p" "cart_decks p" "carts_load (pv_line env)" "\<not> refreshes env p"
    and "j < i" "i < length (log_lines (lp_log p))" "run_deck (line_uses p ! j) = Some k"
  shows "\<exists>q. player_step env db p q \<and> \<not> owned (own q)"
proof -
  obtain q where q: "LogPlay_move env db (int i) (int j) p = Inr q" "line_uses q ! (j + 1) = line_uses p ! j"
    "play_id (lp_deck q ! k) = int j" "length (line_uses q) = length (line_uses p)"
    using move_up_strands_deck [OF assms] by blast
  have "j + 1 < length (line_uses q)" "snd (line_uses q ! (j + 1)) = Some k"
    using q(2,4) assms(6-8) by (auto simp: line_uses_def run_deck_def split: if_splits)
  then have "\<not> owned (own q)"
    using q(3) by (fastforce simp: owned_def own_def)
  then show ?thesis using q(1) by (blast intro: player_step.edit edit_command.move)
qed

theorem move_disowns_witness:
  "\<exists>q. player_step quiet_env undefined (on_air_player [on_air_line Cart (Some 0), new_log_line] [0]) q
     \<and> \<not> owned (own q)"
proof (rule move_disowns [where i = 1 and j = 0 and k = 0])
  show "deck_ids_ok (on_air_player [on_air_line Cart (Some 0), new_log_line] [0])"
    by (auto simp: deck_ids_ok_def less_Suc_eq on_air_line_def run_deck_def line_use_def)
qed (simp_all add: playing_decks_def cart_decks_def holds_deck_def on_air_line_def running_status_def run_deck_def
    line_use_def quiet_env_ok)

end
