(* ===== verification/Player_Next.thy ===== *)
theory Player_Next
  imports Player_Start
begin

text \<open>
  Which line \<open>GetNextPlayable\<close> of \<open>rdairplay/log_play.cpp\<close> finds. The loop writes every line it looks at;
  the choice is read off the lines as they were: the first waiting line that is a stop, that the mode
  does not let the player pass, or whose cart can air.
\<close>

section \<open>The choice of the next line\<close>

definition airs :: "player_env \<Rightarrow> int \<Rightarrow> log_line \<Rightarrow> bool" where
  "airs env mach l =
     (case RDLogLine_setEvent (pv_line env) mach (log_timescaling_active l) (-1) l of
        Inl _ \<Rightarrow> False
      | Inr (st, l') \<Rightarrow> st = Ok \<and> log_status l' \<in> {Scheduled, Paused} \<and> \<not> log_zombified l')"

definition halts :: "player_env \<Rightarrow> int \<Rightarrow> log_play \<Rightarrow> int \<Rightarrow> bool" where
  "halts env line p j =
     (case LogPlay_logLine p j of
        None \<Rightarrow> False
      | Some l \<Rightarrow> log_status l \<in> {Scheduled, Paused, Auditioning}
          \<and> (log_trans_type l = Stop \<or> lp_op_mode p = LiveAssist \<and> j \<noteq> line \<or> airs env (lp_id p) l))"

definition barred :: "log_play \<Rightarrow> int \<Rightarrow> bool" where
  "barred p j = (case LogPlay_logLine p j of
     None \<Rightarrow> False | Some l \<Rightarrow> log_trans_type l = Stop \<or> lp_op_mode p = LiveAssist)"

definition choice :: "player_env \<Rightarrow> int \<Rightarrow> log_play \<Rightarrow> int list \<Rightarrow> int option" where
  "choice env line p is =
     (case find (halts env line p) is of None \<Rightarrow> None | Some j \<Rightarrow> if j \<noteq> line \<and> barred p j then None else Some j)"

lemma choice_Nil [simp]: "choice env line p [] = None"
  by (simp add: choice_def)

lemma choice_Cons [simp]:
  "choice env line p (i # is) =
     (if halts env line p i then (if i \<noteq> line \<and> barred p i then None else Some i) else choice env line p is)"
  by (simp add: choice_def)

lemma choice_cong:
  assumes "\<And>j. j \<in> set is \<Longrightarrow> LogPlay_logLine q j = LogPlay_logLine p j" "lp_op_mode q = lp_op_mode p" "lp_id q = lp_id p"
  shows "choice env line q is = choice env line p is"
proof -
  have "halts env line q j = halts env line p j" "barred q j = barred p j" if "j \<in> set is" for j
    using assms(1) [OF that] assms(2,3) by (simp_all add: halts_def barred_def split: option.split)
  then show ?thesis by (induction "is") simp_all
qed

lemma logLine_put_other:
  "0 \<le> i \<Longrightarrow> 0 \<le> j \<Longrightarrow> i \<noteq> j \<Longrightarrow> LogPlay_logLine (put_line i f p) j = LogPlay_logLine p j"
  by (simp add: LogPlay_logLine_def RDLogEvent_logLine_def put_line_def nth_list_update)

lemma choice_put_line:
  "0 \<le> i \<Longrightarrow> i \<notin> set is \<Longrightarrow> \<forall>j\<in>set is. 0 \<le> j \<Longrightarrow> choice env line (put_line i f p) is = choice env line p is"
  by (intro choice_cong logLine_put_other) (auto simp: put_line_def)

lemma choice_emit [simp]: "choice env line (emit x p) is = choice env line p is"
  by (rule choice_cong) (simp_all add: emit_def LogPlay_logLine_def)

lemma next_playable_choice:
  assumes "next_playable env db False False line is 0 p = Inr (r, q)" "distinct is"
    and "\<forall>j\<in>set is. 0 \<le> j \<and> LogPlay_logLine p j \<noteq> None"
  shows "r = choice env line p is"
  using assms
proof (induction "is" arbitrary: p)
  case (Cons i "is")
  obtain l where l: "LogPlay_logLine p i = Some l" using Cons.prems(3) by auto
  have i: "0 \<le> i" "i \<notin> set is" "\<forall>j\<in>set is. 0 \<le> j" using Cons.prems(2,3) by auto
  have put_ahead: "LogPlay_logLine (put_line i f s) j = LogPlay_logLine s j" if "j \<in> set is" for f s j
    using i that by (intro logLine_put_other) auto
  have go_on: "r = choice env line p is" if "next_playable env db False False line is 0 p' = Inr (r, q)"
    and "choice env line p' is = choice env line p is" "\<forall>j\<in>set is. LogPlay_logLine p' j = LogPlay_logLine p j" for p'
    using Cons.IH [OF that(1)] that(2,3) Cons.prems(2,3) by simp
  consider (bar) "log_status l \<in> {Scheduled, Paused, Auditioning}"
      "(log_trans_type l = Stop \<or> lp_op_mode p = LiveAssist) \<and> i - 0 \<noteq> line"
    | (prepare) "log_status l \<in> {Scheduled, Paused, Auditioning}"
      "\<not> ((log_trans_type l = Stop \<or> lp_op_mode p = LiveAssist) \<and> i - 0 \<noteq> line)"
    | (past) "log_status l \<notin> {Scheduled, Paused, Auditioning}" by blast
  then show ?case
  proof cases
    case bar
    then have "r = None" using Cons.prems(1) l by auto
    then show ?thesis using bar l by (auto simp: halts_def barred_def)
  next
    case prepare
    then obtain st l' where s: "RDLogLine_setEvent (pv_line env) (lp_id p) (log_timescaling_active l) (-1) l = Inr (st, l')"
      using Cons.prems(1) l by (auto simp: prepare_line_def split: prod.splits)
    have t: "log_trans_type l' = log_trans_type l" using loaded_key_setEvent [OF s] by (simp add: loaded_key_def)
    define p1 where "p1 = put_line i (\<lambda>_. l') p"
    define p2 where "p2 = emit (SigModified i) (put_line i (RDLogLine_setStartTime Initial (pv_now env)) p1)"
    have p1: "prepare_line env i l p = Inr (st, l', p1)" by (simp add: prepare_line_def s p1_def)
    have e: "(if st = Ok \<and> log_status l' \<in> {Scheduled, Paused} \<and> \<not> log_zombified l' then Inr (Some i, emit (SigModified i) p1)
          else if log_trans_type l' = Stop \<and> (log_cut_number l' \<ge> 0 \<and> \<not> log_zombified l' \<or> \<not> False) then Inr (Some i, p2)
          else next_playable env db False False line is 0 p2) = Inr (r, q)"
      using Cons.prems(1) unfolding next_playable.simps l option.case simp_thms if_False if_P [OF prepare(1)]
        if_not_P [OF prepare(2)] p1 res_bind_simps prod.case Let_def p2_def by assumption
    have a: "airs env (lp_id p) l \<longleftrightarrow> st = Ok \<and> log_status l' \<in> {Scheduled, Paused} \<and> \<not> log_zombified l'"
      by (simp add: airs_def s)
    have h: "halts env line p i \<longleftrightarrow> airs env (lp_id p) l \<or> log_trans_type l' = Stop"
      using prepare l t by (auto simp: halts_def)
    have b: "\<not> (i \<noteq> line \<and> barred p i)" using prepare(2) l by (auto simp: barred_def)
    show ?thesis
    proof (cases "halts env line p i")
      case True
      then have "r = Some i" using e h a by (auto split: if_splits)
      then show ?thesis using True b by simp
    next
      case False
      then have "next_playable env db False False line is 0 p2 = Inr (r, q)" using e h a by (auto split: if_splits)
      moreover have "choice env line p2 is = choice env line p is"
        unfolding p2_def p1_def using i by (simp add: choice_put_line)
      moreover have "\<forall>j\<in>set is. LogPlay_logLine p2 j = LogPlay_logLine p j"
        unfolding p2_def p1_def using i by (auto simp: put_ahead)
      ultimately show ?thesis using go_on False by simp
    qed
  next
    case past
    then have "next_playable env db False False line is 0 p = Inr (r, q)" using Cons.prems(1) l by auto
    then show ?thesis using go_on past l by (simp add: halts_def)
  qed
qed simp

text \<open>C9: In a search that skips no meta event and is not forced (the one after the end of a line and of the transition
  timer; \<open>play()\<close> calls it forced), \<open>GetNextPlayable\<close> finds the first waiting line from the given one that has a stop
  transition, whose cart can air, or, in LiveAssist mode, that is another line than the given one; it gives up when that
  line is another one and a stop or the mode is LiveAssist. So this search never passes a waiting stop nor a line that can
  air.\<close>

theorem next_playable_first:
  assumes "GetNextPlayable env db line False False p = Inr (r, q)" "0 \<le> line"
  shows "r = choice env line p [line..LogPlay_size p - 1]
    \<and> (\<forall>i j l. r = Some i \<and> line \<le> j \<and> j < i \<and> LogPlay_logLine p j = Some l
        \<and> log_status l \<in> {Scheduled, Paused, Auditioning} \<longrightarrow> log_trans_type l \<noteq> Stop \<and> \<not> airs env (lp_id p) l)"
proof -
  have r: "r = choice env line p [line..LogPlay_size p - 1]"
    using assms by (intro next_playable_choice) (auto simp: GetNextPlayable_def logLine_None)
  have "log_trans_type l \<noteq> Stop \<and> \<not> airs env (lp_id p) l" if "r = Some i" "line \<le> j" "j < i"
    "LogPlay_logLine p j = Some l" "log_status l \<in> {Scheduled, Paused, Auditioning}" for i j l
  proof -
    have "find (halts env line p) [line..LogPlay_size p - 1] = Some i"
      using r that(1) by (auto simp: choice_def split: option.splits if_splits)
    then obtain n where n: "n < length [line..LogPlay_size p - 1]" "i = [line..LogPlay_size p - 1] ! n"
      "\<forall>m<n. \<not> halts env line p ([line..LogPlay_size p - 1] ! m)"
      by (auto simp: find_Some_iff)
    have "\<not> halts env line p j"
      using n(3) [rule_format, of "nat (j - line)"] n(1,2) that(2,3) by simp
    then show ?thesis using that(4,5) by (auto simp: halts_def)
  qed
  with r show ?thesis by blast
qed

theorem next_playable_first_witness:
  "(\<exists>q. GetNextPlayable quiet_env undefined 0 False False
        (demo_player [(marker_at 1)\<lparr>log_status := status.Finished\<rparr>, marker_at 2]) = Inr (Some 1, q))
    \<and> choice quiet_env 0 (demo_player [(marker_at 1)\<lparr>log_status := status.Finished\<rparr>, marker_at 2]) [0, 1] = Some 1"
proof -
  let ?p = "demo_player [(marker_at 1)\<lparr>log_status := status.Finished\<rparr>, marker_at 2]"
  have size: "LogPlay_size ?p = 2" by (simp add: demo_player_def LogPlay_size_def RDLogEvent_size_def)
  have l: "LogPlay_logLine ?p 0 = Some ((marker_at 1)\<lparr>log_status := status.Finished\<rparr>)" "LogPlay_logLine ?p 1 = Some (marker_at 2)"
    by (simp_all add: LogPlay_logLine_def RDLogEvent_logLine_def demo_player_def)
  have m: "log_status (marker_at 2) = Scheduled" "log_trans_type (marker_at 2) = Play" "log_type (marker_at 2) = Marker"
    "\<not> log_zombified (marker_at 2)" "lp_op_mode ?p = Auto"
    by (simp_all add: marker_at_def new_log_line_def cleared_line_def demo_player_def)
  obtain m' where s: "\<And>e n b len. RDLogLine_setEvent e n b len (marker_at 2) = Inr (Ok, m')"
    "log_status m' = Scheduled" "\<not> log_zombified m'"
    by (simp add: RDLogLine_setEvent_def m no_points_def)
  obtain q where q: "GetNextPlayable quiet_env undefined 0 False False ?p = Inr (Some 1, q)"
    using l m by (simp add: GetNextPlayable_def size upto.simps prepare_line_def s)
  show ?thesis using next_playable_first [OF q] q by (simp add: size upto.simps)
qed

end
