(* ===== verification/Event_Player.thy ===== *)
theory Event_Player
  imports Macro_Event
begin

text \<open>
  \<open>RDEventPlayer\<close> of \<open>lib/rdevent_player.h\<close> and \<open>.cpp\<close>: ten slots in which the user interfaces run texts of
  macro commands in the background. Each slot holds a \<open>Macro_Event\<close>; its \<open>finished\<close> marks the slot, and a
  timer deletes the marked ones. Without a connection (\<open>ripc\<close>) nothing runs.
\<close>

section \<open>The slots\<close>

definition RDEVENT_PLAYER_MAX_EVENTS :: nat where "RDEVENT_PLAYER_MAX_EVENTS = 10"

record event_player =
  ply_events :: "macro_event option list"
  ply_state :: "bool list"
  ply_ripc :: bool
  ply_timer :: bool
  ply_out :: "rdmacro list"

definition RDEventPlayer_new :: "bool \<Rightarrow> event_player" where
  "RDEventPlayer_new ripc =
     \<lparr>ply_events = replicate RDEVENT_PLAYER_MAX_EVENTS None, ply_state = replicate RDEVENT_PLAYER_MAX_EVENTS False,
      ply_ripc = ripc, ply_timer = False, ply_out = []\<rparr>"

definition RDEventPlayer_macroFinishedData :: "nat \<Rightarrow> event_player \<Rightarrow> event_player" where
  "RDEventPlayer_macroFinishedData i p = p\<lparr>ply_state := (ply_state p)[i := False], ply_timer := True\<rparr>"

text \<open>The signals of slot \<open>i\<close>: the mapper connects \<open>finished\<close>, the connection sends the commands.\<close>

fun slot_signals :: "nat \<Rightarrow> signal list \<Rightarrow> event_player \<Rightarrow> event_player" where
  "slot_signals i [] p = p"
| "slot_signals i (x # xs) p = slot_signals i xs
     (case x of Finished \<Rightarrow> RDEventPlayer_macroFinishedData i p | SendRml m \<Rightarrow> p\<lparr>ply_out := ply_out p @ [m]\<rparr> | _ \<Rightarrow> p)"

definition put_slot :: "nat \<Rightarrow> macro_event \<times> signal list \<Rightarrow> event_player \<Rightarrow> event_player" where
  "put_slot i r p = slot_signals i (snd r) (p\<lparr>ply_events := (ply_events p)[i := Some (fst r)]\<rparr>)"

definition fresh_event :: "event_player \<Rightarrow> nat \<Rightarrow> macro_event" where
  "fresh_event p junk = RDMacroEvent_new ''127.0.0.1'' (ply_ripc p) junk"

text \<open>Running a text in slot \<open>i\<close>; a text that is refused keeps the slot.\<close>

definition start_slot :: "nat \<Rightarrow> macro_event \<Rightarrow> event_player \<Rightarrow> event_player" where
  "start_slot i ev p = p\<lparr>ply_events := (ply_events p)[i := Some ev], ply_state := (ply_state p)[i := True]\<rparr>"

definition run_slot :: "exec_env \<Rightarrow> nat \<Rightarrow> string \<Rightarrow> nat \<Rightarrow> event_player \<Rightarrow> (bool \<times> event_player) res" where
  "run_slot env junk rml i p =
     res_bind (RDMacroEvent_load rml (fresh_event p junk)) (\<lambda>(ok, ev).
       if ok then res_bind (RDMacroEvent_exec env ev) (\<lambda>r. Inr (True, put_slot i r (start_slot i ev p)))
       else Inr (False, start_slot i ev p))"

fun exec_slots :: "exec_env \<Rightarrow> nat \<Rightarrow> string \<Rightarrow> nat list \<Rightarrow> event_player \<Rightarrow> (bool \<times> event_player) res" where
  "exec_slots env junk rml [] p = Inr (False, p)"
| "exec_slots env junk rml (i # is) p =
     (if ply_events p ! i = None then run_slot env junk rml i p else exec_slots env junk rml is p)"

definition RDEventPlayer_exec :: "exec_env \<Rightarrow> nat \<Rightarrow> string \<Rightarrow> event_player \<Rightarrow> (bool \<times> event_player) res" where
  "RDEventPlayer_exec env junk rml p = exec_slots env junk rml [0..<RDEVENT_PLAYER_MAX_EVENTS] p"

definition RDEventPlayer_exec_cart :: "exec_env \<Rightarrow> nat \<Rightarrow> nat \<Rightarrow> event_player \<Rightarrow> (bool \<times> event_player) res" where
  "RDEventPlayer_exec_cart env junk cartnum p =
     (if cartnum = 0 then Inr (False, p)
      else RDEventPlayer_exec env junk (''EX '' @ string_of_int (int cartnum) @ ''!'') p)"

definition RDEventPlayer_macroTimerData :: "event_player \<Rightarrow> event_player" where
  "RDEventPlayer_macroTimerData p = p\<lparr>ply_events := map2 (\<lambda>ev b. if b then ev else None) (ply_events p) (ply_state p)\<rparr>"

text \<open>The sleep timer of a slot's event.\<close>

definition slot_fires :: "exec_env \<Rightarrow> nat \<Rightarrow> event_player \<Rightarrow> event_player res" where
  "slot_fires env i p = (case ply_events p ! i of
     None \<Rightarrow> Inr p | Some ev \<Rightarrow> res_bind (timer_fires env ev) (\<lambda>r. Inr (put_slot i r p)))"

inductive player_moves :: "event_player \<Rightarrow> event_player \<Rightarrow> bool" where
  exec: "RDEventPlayer_exec env junk rml p = Inr (b, q) \<Longrightarrow> player_moves p q"
| exec_cart: "RDEventPlayer_exec_cart env junk n p = Inr (b, q) \<Longrightarrow> player_moves p q"
| sleep: "i < length (ply_events p) \<Longrightarrow> slot_fires env i p = Inr q \<Longrightarrow> player_moves p q"
| timer: "ply_timer p \<Longrightarrow> player_moves p (RDEventPlayer_macroTimerData (p\<lparr>ply_timer := False\<rparr>))"

section \<open>Slots that stay taken\<close>

definition slots_ok :: "event_player \<Rightarrow> bool" where
  "slots_ok p \<longleftrightarrow> length (ply_events p) = RDEVENT_PLAYER_MAX_EVENTS \<and> length (ply_state p) = RDEVENT_PLAYER_MAX_EVENTS"

text \<open>A slot whose event waits for nothing, but is marked as running.\<close>

definition stuck :: "nat \<Rightarrow> event_player \<Rightarrow> bool" where
  "stuck i p \<longleftrightarrow> i < RDEVENT_PLAYER_MAX_EVENTS \<and> ply_state p ! i \<and> (\<exists>ev. ply_events p ! i = Some ev \<and> event_sleep_timer ev = None)"

lemma slots_ok_new [simp]: "slots_ok (RDEventPlayer_new b)"
  by (simp add: slots_ok_def RDEventPlayer_new_def)

lemma slot_signals_frame [simp]:
  "ply_events (slot_signals i xs p) = ply_events p" "length (ply_state (slot_signals i xs p)) = length (ply_state p)"
  "j \<noteq> i \<Longrightarrow> ply_state (slot_signals i xs p) ! j = ply_state p ! j" "ply_ripc (slot_signals i xs p) = ply_ripc p"
  by (induction i xs p rule: slot_signals.induct) (auto simp: RDEventPlayer_macroFinishedData_def split: signal.split)

lemma put_slot_frame [simp]:
  "ply_events (put_slot i r p) = (ply_events p)[i := Some (fst r)]" "length (ply_state (put_slot i r p)) = length (ply_state p)"
  "j \<noteq> i \<Longrightarrow> ply_state (put_slot i r p) ! j = ply_state p ! j"
  by (simp_all add: put_slot_def)

lemma exec_slots_find:
  "exec_slots env junk rml is p = (case find (\<lambda>i. ply_events p ! i = None) is of
     None \<Rightarrow> Inr (False, p) | Some i \<Rightarrow> run_slot env junk rml i p)"
  by (induction "is") simp_all

lemma exec_slots_cases:
  assumes "exec_slots env junk rml is p = Inr (b, q)"
  obtains (full) "\<forall>i\<in>set is. ply_events p ! i \<noteq> None" "\<not> b" "q = p"
  | (refused) i ev where "i \<in> set is" "ply_events p ! i = None" "\<not> b" "q = start_slot i ev p"
  | (run) i ev r where "i \<in> set is" "ply_events p ! i = None" "b" "q = put_slot i r (start_slot i ev p)"
proof (cases "find (\<lambda>i. ply_events p ! i = None) is")
  case None
  then have "\<not> b" "q = p" using assms by (simp_all add: exec_slots_find)
  with None full show thesis by (simp add: find_None_iff)
next
  case (Some i)
  then have i: "i \<in> set is" "ply_events p ! i = None" by (auto simp: find_Some_iff)
  obtain ok ev where l: "RDMacroEvent_load rml (fresh_event p junk) = Inr (ok, ev)"
    using assms Some by (auto simp: exec_slots_find run_slot_def)
  show thesis
  proof (cases ok)
    case True
    then obtain r where "b" "q = put_slot i r (start_slot i ev p)"
      using assms Some l by (auto simp: exec_slots_find run_slot_def)
    with i run show thesis by blast
  next
    case False
    then have "\<not> b" "q = start_slot i ev p" using assms Some l by (simp_all add: exec_slots_find run_slot_def)
    with i refused show thesis by blast
  qed
qed

lemma slots_ok_keep [simp]:
  "slots_ok (start_slot i ev p) = slots_ok p" "slots_ok (put_slot i r p) = slots_ok p"
  by (simp_all add: slots_ok_def start_slot_def)

lemma stuck_keep: "j \<noteq> i \<Longrightarrow> stuck j (start_slot i ev p) = stuck j p" "j \<noteq> i \<Longrightarrow> stuck j (put_slot i r p) = stuck j p"
  by (simp_all add: stuck_def start_slot_def)

lemma exec_slots_keep:
  assumes "exec_slots env junk rml is p = Inr (b, q)" "slots_ok p"
  shows "slots_ok q" "stuck j p \<Longrightarrow> stuck j q"
proof -
  have "slots_ok q \<and> (stuck j p \<longrightarrow> stuck j q)" using assms(1)
  proof (cases rule: exec_slots_cases)
    case (refused i ev)
    then have "stuck j p \<Longrightarrow> j \<noteq> i" by (auto simp: stuck_def)
    then show ?thesis using refused assms(2) by (auto simp: stuck_keep)
  next
    case (run i ev r)
    then have "stuck j p \<Longrightarrow> j \<noteq> i" by (auto simp: stuck_def)
    then show ?thesis using run assms(2) by (auto simp: stuck_keep)
  qed (use assms(2) in simp)
  then show "slots_ok q" "stuck j p \<Longrightarrow> stuck j q" by simp_all
qed

lemma exec_keep:
  assumes "RDEventPlayer_exec env junk rml p = Inr (b, q)" "slots_ok p"
  shows "slots_ok q" "stuck j p \<Longrightarrow> stuck j q"
  using exec_slots_keep [OF assms(1) [unfolded RDEventPlayer_exec_def] assms(2)] by blast+

lemma moves_keep:
  assumes "player_moves p q" "slots_ok p"
  shows "slots_ok q \<and> (stuck j p \<longrightarrow> stuck j q)"
  using assms(1)
proof cases
  case (exec_cart env junk n b)
  then show ?thesis using exec_keep assms(2) by (auto simp: RDEventPlayer_exec_cart_def split: if_splits)
next
  case (sleep i env)
  show ?thesis
  proof (cases "ply_events p ! i")
    case (Some ev)
    then obtain r where r: "timer_fires env ev = Inr r" "q = put_slot i r p" using sleep(2) by (auto simp: slot_fires_def)
    have "stuck j q" if "stuck j p"
    proof (cases "j = i")
      case True
      then have "r = (ev, [])" using that Some r(1) by (auto simp: stuck_def timer_fires_def)
      then show ?thesis using that Some r(2) True list_update_id [of "ply_events p" i] by (simp add: put_slot_def)
    qed (use that r(2) in \<open>simp add: stuck_def\<close>)
    then show ?thesis using r(2) assms(2) by (simp add: slots_ok_def)
  qed (use sleep(2) assms(2) in \<open>simp add: slot_fires_def\<close>)
next
  case timer
  then show ?thesis using assms(2) by (auto simp: slots_ok_def RDEventPlayer_macroTimerData_def stuck_def)
qed (use exec_keep assms(2) in blast)

lemma moves_keep_all:
  assumes "player_moves\<^sup>*\<^sup>* p q" "slots_ok p"
  shows "slots_ok q \<and> (stuck j p \<longrightarrow> stuck j q)"
  using assms by (induction rule: rtranclp_induct) (auto dest: moves_keep)

lemma load_refused_clear:
  assumes "RDMacroEvent_load rml ev0 = Inr (False, ev)" "event_sleep_timer ev0 = None"
  shows "event_sleep_timer ev = None"
proof -
  have "event_sleep_timer ev = event_sleep_timer e" if "load_loop s b c e = Inr (ok, ev)" for s b c e ok
    using that
    by (induction s b c e rule: load_loop.induct)
      (auto simp: RDMacroEvent_clear_def Let_def split: if_splits prod.splits)
  then show ?thesis using assms by (auto simp: RDMacroEvent_load_def)
qed

lemma refused_is_stuck:
  assumes "RDMacroEvent_load rml (fresh_event p junk) = Inr (False, ev)" "ply_events p ! i = None"
    and "i < RDEVENT_PLAYER_MAX_EVENTS" "\<forall>j<i. ply_events p ! j \<noteq> None" "slots_ok p"
  shows "RDEventPlayer_exec env junk rml p = Inr (False, start_slot i ev p)" "stuck i (start_slot i ev p)"
proof -
  have "find (\<lambda>i. ply_events p ! i = None) [0..<RDEVENT_PLAYER_MAX_EVENTS] = Some i"
    using assms(2-4) by (auto simp: find_Some_iff intro!: exI [of _ i])
  then show "RDEventPlayer_exec env junk rml p = Inr (False, start_slot i ev p)"
    using assms(1) by (simp add: RDEventPlayer_exec_def exec_slots_find run_slot_def)
  have "event_sleep_timer ev = None"
    using load_refused_clear [OF assms(1)] by (simp add: fresh_event_def RDMacroEvent_new_def)
  then show "stuck i (start_slot i ev p)"
    using assms(3,5) by (simp add: stuck_def start_slot_def slots_ok_def)
qed

section \<open>Texts that are refused\<close>

fun exec_times :: "nat \<Rightarrow> exec_env \<Rightarrow> nat \<Rightarrow> string \<Rightarrow> event_player \<Rightarrow> event_player res" where
  "exec_times 0 env junk rml p = Inr p"
| "exec_times (Suc n) env junk rml p =
     res_bind (exec_times n env junk rml p) (\<lambda>p. res_bind (RDEventPlayer_exec env junk rml p) (\<lambda>r. Inr (snd r)))"

lemma exec_refused:
  assumes "RDMacroEvent_load rml (fresh_event (RDEventPlayer_new b) junk) = Inr (False, ev)" "n \<le> RDEVENT_PLAYER_MAX_EVENTS"
  shows "\<exists>p. exec_times n env junk rml (RDEventPlayer_new b) = Inr p \<and> slots_ok p \<and> ply_ripc p = b
    \<and> (\<forall>j<n. stuck j p) \<and> (\<forall>j<RDEVENT_PLAYER_MAX_EVENTS. n \<le> j \<longrightarrow> ply_events p ! j = None)"
  using assms(2)
proof (induction n)
  case (Suc n)
  then obtain p where p: "exec_times n env junk rml (RDEventPlayer_new b) = Inr p" "slots_ok p" "ply_ripc p = b"
    "\<forall>j<n. stuck j p" "\<forall>j<RDEVENT_PLAYER_MAX_EVENTS. n \<le> j \<longrightarrow> ply_events p ! j = None" by auto
  have l: "RDMacroEvent_load rml (fresh_event p junk) = Inr (False, ev)"
    using assms(1) p(3) by (simp add: fresh_event_def RDEventPlayer_new_def)
  have n: "ply_events p ! n = None" "n < RDEVENT_PLAYER_MAX_EVENTS" "\<forall>j<n. ply_events p ! j \<noteq> None"
    using p(4,5) Suc.prems by (auto simp: stuck_def)
  note r = refused_is_stuck [OF l n p(2)]
  have "\<forall>j<Suc n. stuck j (start_slot n ev p)"
    using r(2) p(4) by (auto simp: less_Suc_eq stuck_keep)
  then show ?case using p r(1) by (auto simp: start_slot_def slots_ok_def)
qed (auto simp: RDEventPlayer_new_def slots_ok_def)

text \<open>A macro text that does not parse keeps its slot for ever: after ten of them, whatever runs, sleeps or
  times out later, every further text is refused without a look at it, and its state does not change.\<close>

theorem refused_macros_fill_player:
  assumes "RDMacroEvent_load rml (fresh_event (RDEventPlayer_new b) junk) = Inr (False, ev)"
  shows "\<exists>p. exec_times RDEVENT_PLAYER_MAX_EVENTS env junk rml (RDEventPlayer_new b) = Inr p
    \<and> (\<forall>q env' junk' rml'. player_moves\<^sup>*\<^sup>* p q \<longrightarrow> RDEventPlayer_exec env' junk' rml' q = Inr (False, q))"
proof -
  obtain p where p: "exec_times RDEVENT_PLAYER_MAX_EVENTS env junk rml (RDEventPlayer_new b) = Inr p" "slots_ok p"
    "\<forall>j<RDEVENT_PLAYER_MAX_EVENTS. stuck j p"
    using exec_refused [OF assms order_refl] by blast
  have "RDEventPlayer_exec env' junk' rml' q = Inr (False, q)" if "player_moves\<^sup>*\<^sup>* p q" for q env' junk' rml'
  proof -
    have "\<forall>j<RDEVENT_PLAYER_MAX_EVENTS. stuck j q" using moves_keep_all [OF that p(2)] p(3) by blast
    then have "find (\<lambda>i. ply_events q ! i = None) [0..<RDEVENT_PLAYER_MAX_EVENTS] = None"
      by (auto simp: find_None_iff stuck_def)
    then show ?thesis by (simp add: RDEventPlayer_exec_def exec_slots_find)
  qed
  with p(1) show ?thesis by blast
qed

theorem refused_macros_fill_player_witness:
  "\<exists>p. exec_times RDEVENT_PLAYER_MAX_EVENTS no_hosts 0 ''ZZ 1!'' (RDEventPlayer_new True) = Inr p
    \<and> RDEventPlayer_exec no_hosts 0 ''SP 5!'' p = Inr (False, p)"
proof -
  have "fst (projr (RDMacroEvent_load ''ZZ 1!'' (fresh_event (RDEventPlayer_new True) 0))) = False
    \<and> isl (RDMacroEvent_load ''ZZ 1!'' (fresh_event (RDEventPlayer_new True) 0)) = False" by code_simp
  then obtain ev where "RDMacroEvent_load ''ZZ 1!'' (fresh_event (RDEventPlayer_new True) 0) = Inr (False, ev)"
    by (cases "RDMacroEvent_load ''ZZ 1!'' (fresh_event (RDEventPlayer_new True) 0)") auto
  from refused_macros_fill_player [OF this, of no_hosts] show ?thesis by blast
qed

section \<open>Texts that run\<close>

definition sent :: "signal list \<Rightarrow> rdmacro list" where
  "sent xs = concat (map (\<lambda>x. case x of SendRml m \<Rightarrow> [m] | _ \<Rightarrow> []) xs)"

lemma slot_signals_eq:
  "slot_signals i xs p = p\<lparr>ply_state := (if Finished \<in> set xs then (ply_state p)[i := False] else ply_state p),
     ply_timer := (ply_timer p \<or> Finished \<in> set xs), ply_out := ply_out p @ sent xs\<rparr>"
  by (induction i xs p rule: slot_signals.induct)
    (auto simp: sent_def RDEventPlayer_macroFinishedData_def split: signal.split)

fun slot_fires_times :: "nat \<Rightarrow> exec_env \<Rightarrow> nat \<Rightarrow> event_player \<Rightarrow> event_player res" where
  "slot_fires_times 0 env i p = Inr p"
| "slot_fires_times (Suc k) env i p = res_bind (slot_fires env i p) (slot_fires_times k env i)"

lemma put_slot_join:
  "put_slot i (e2, ys) (put_slot i (e1, xs) p) = put_slot i (e2, xs @ ys) p"
  by (auto simp: put_slot_def slot_signals_eq sent_def)

lemma slot_fires_drain:
  assumes "drain env k ev xs = Inr (ev', ys)" "i < length (ply_events p)"
  shows "slot_fires_times k env i (put_slot i (ev, xs) p) = Inr (put_slot i (ev', ys) p)"
  using assms
proof (induction k arbitrary: ev xs)
  case (Suc k)
  then obtain e1 o1 where f: "timer_fires env ev = Inr (e1, o1)" "drain env k e1 (xs @ o1) = Inr (ev', ys)" by auto
  have "slot_fires env i (put_slot i (ev, xs) p) = Inr (put_slot i (e1, xs @ o1) p)"
    using f(1) Suc.prems(2) by (simp add: slot_fires_def put_slot_join)
  with Suc.IH [OF f(2) Suc.prems(2)] show ?case by simp
qed simp

lemma trace_finishes: "full_trace env ms i = Inr tr \<Longrightarrow> Finished \<in> set tr"
  by (induction ms arbitrary: i tr) auto

lemma load_loop_keeps:
  assumes "load_loop s b c e = Inr (True, ev)" "macro_ok c" "list_all macro_ok (event_cmds e)"
  shows "list_all macro_ok (event_cmds ev) \<and> event_sleep_timer ev = event_sleep_timer e \<and> event_ripc ev = event_ripc e"
  using assms
proof (induction s arbitrary: b c e)
  case (Cons x s)
  then obtain b' where b: "put_byte x b = Inr b'" by auto
  show ?case
  proof (cases "x = CHR ''!''")
    case True
    obtain ok m where m: "RDMacro_parseString b' (int (length b')) c = Inr (ok, m)" "macro_ok m"
      using parse_safe [OF Cons.prems(2)] by blast
    with Cons.prems b True obtain m' where "load_loop s [] (RDMacro_clear m') (e\<lparr>event_cmds := event_cmds e @ [m']\<rparr>) = Inr (True, ev)"
      "macro_ok m'" by (auto simp: Let_def split: if_splits)
    with Cons.IH [OF this(1)] Cons.prems(3) show ?thesis by simp
  qed (use Cons b in auto)
qed simp

text \<open>C19: A macro text that parses, in a player with a connection and a free slot, sends exactly its commands, in
  order, and once its sleeps have run out the slot is free again.\<close>

theorem accepted_macro_returns_slot:
  assumes "RDMacroEvent_load rml (fresh_event p junk) = Inr (True, ev)" "slots_ok p" "ply_ripc p"
    and "i < RDEVENT_PLAYER_MAX_EVENTS" "ply_events p ! i = None" "\<forall>j<i. ply_events p ! j \<noteq> None"
    and "full_trace env (event_cmds ev) 0 = Inr tr" "sleeps (event_cmds ev) \<le> k"
  shows "\<exists>q r. RDEventPlayer_exec env junk rml p = Inr (True, q) \<and> slot_fires_times k env i q = Inr r
    \<and> ply_out r = ply_out p @ sent tr \<and> ply_timer r
    \<and> ply_events (RDEventPlayer_macroTimerData (r\<lparr>ply_timer := False\<rparr>)) ! i = None"
proof -
  have ev: "list_all macro_ok (event_cmds ev)" "event_sleep_timer ev = None" "event_ripc ev"
    using load_loop_keeps [OF assms(1) [unfolded RDMacroEvent_load_def]] assms(3)
    by (simp_all add: fresh_event_def RDMacroEvent_new_def)
  obtain ev1 o1 ev' where x: "RDMacroEvent_exec env ev = Inr (ev1, o1)" "drain env k ev1 o1 = Inr (ev', Started # tr)"
    using exec_rest [of "ev\<lparr>event_whole_list := True\<rparr>" 0 "event_cmds ev" env tr k "[Started]"] ev assms(7,8)
    by (auto simp: RDMacroEvent_exec_def RDMacroEvent_ExecList_def)
  let ?q = "put_slot i (ev1, o1) (start_slot i ev p)" and ?r = "put_slot i (ev', Started # tr) (start_slot i ev p)"
  have "find (\<lambda>i. ply_events p ! i = None) [0..<RDEVENT_PLAYER_MAX_EVENTS] = Some i"
    using assms(4-6) by (auto simp: find_Some_iff intro!: exI [of _ i])
  then have e: "RDEventPlayer_exec env junk rml p = Inr (True, ?q)"
    using assms(1) x(1) by (simp add: RDEventPlayer_exec_def exec_slots_find run_slot_def)
  have "i < length (ply_events (start_slot i ev p))" using assms(2,4) by (simp add: start_slot_def slots_ok_def)
  from slot_fires_drain [OF x(2) this] have f: "slot_fires_times k env i ?q = Inr ?r" .
  have "Finished \<in> set tr" using trace_finishes [OF assms(7)] .
  then have "ply_out ?r = ply_out p @ sent tr \<and> ply_timer ?r
    \<and> ply_events (RDEventPlayer_macroTimerData (?r\<lparr>ply_timer := False\<rparr>)) ! i = None"
    using assms(2,4) by (simp add: put_slot_def slot_signals_eq start_slot_def sent_def RDEventPlayer_macroTimerData_def slots_ok_def)
  with e f show ?thesis by blast
qed

theorem accepted_macro_returns_slot_witness:
  "\<exists>q r. RDEventPlayer_exec no_hosts 0 ''SP 5!'' (RDEventPlayer_new True) = Inr (True, q)
    \<and> slot_fires_times 1 no_hosts 0 q = Inr r \<and> ply_out r = [] \<and> ply_timer r
    \<and> ply_events (RDEventPlayer_macroTimerData (r\<lparr>ply_timer := False\<rparr>)) ! 0 = None"
proof -
  let ?l = "RDMacroEvent_load ''SP 5!'' (fresh_event (RDEventPlayer_new True) 0)"
  have "(case ?l of Inr (ok, ev) \<Rightarrow> ok \<and> length (event_cmds ev) = 1 \<and> rml_cmd (event_cmds ev ! 0) = SP | _ \<Rightarrow> False)"
    by code_simp
  then obtain ev m where l: "?l = Inr (True, ev)" and m: "event_cmds ev = [m]" "rml_cmd m = SP"
    by (auto simp: length_Suc_conv split: sum.splits prod.splits)
  have "\<exists>q r. RDEventPlayer_exec no_hosts 0 ''SP 5!'' (RDEventPlayer_new True) = Inr (True, q)
    \<and> slot_fires_times 1 no_hosts 0 q = Inr r \<and> ply_out r = ply_out (RDEventPlayer_new True) @ sent [StartedLine 0, FinishedLine 0, Finished]
    \<and> ply_timer r \<and> ply_events (RDEventPlayer_macroTimerData (r\<lparr>ply_timer := False\<rparr>)) ! 0 = None"
    by (rule accepted_macro_returns_slot [OF l])
      (simp_all add: m sleeps_def RDEVENT_PLAYER_MAX_EVENTS_def RDEventPlayer_new_def slots_ok_def)
  then show ?thesis by (simp add: sent_def RDEventPlayer_new_def)
qed

end
