(* ===== verification/Time_Engine.thy ===== *)
theory Time_Engine
  imports Rd_Prelude
begin

text \<open>
  The daily timer of the catch daemon: \<open>RDTimeEngine\<close> of \<open>lib/rdtimeengine.cpp\<close> with its slots, \<open>RDTimeEvent\<close> of
  \<open>lib/rdtimeevent.cpp\<close>. A slot holds a time of day and the events due then. One single-shot timer is armed
  for the nearest slot; its callback announces the events of the slot and arms it again. \<open>now\<close> is the time of
  day at which \<open>SetTimer()\<close> reads the clock, \<open>en_timer\<close> the interval the timer was started with. The receiver of
  the signal is an argument, since it may change the engine while the slot is announced.
\<close>

section \<open>Slots\<close>

record time_event =
  event_time :: qtime
  event_id :: "int list"

definition RDTimeEvent_clear :: time_event where
  "RDTimeEvent_clear = \<lparr>event_time = 0, event_id = []\<rparr>"

definition RDTimeEvent_addId :: "int \<Rightarrow> time_event \<Rightarrow> time_event" where
  "RDTimeEvent_addId eid ev = ev\<lparr>event_id := event_id ev @ [eid]\<rparr>"

definition RDTimeEvent_removeId :: "nat \<Rightarrow> time_event \<Rightarrow> time_event" where
  "RDTimeEvent_removeId n ev = ev\<lparr>event_id := take n (event_id ev) @ drop (Suc n) (event_id ev)\<rparr>"

section \<open>The engine\<close>

record time_engine =
  engine_events :: "time_event list"
  engine_pending_id :: int
  engine_time_offset :: int
  engine_timer :: "int option"

definition new_engine :: time_engine where
  "new_engine = \<lparr>engine_events = [], engine_pending_id = -1, engine_time_offset = 0, engine_timer = None\<rparr>"

definition no_diff :: int where "no_diff = 86400001"

text \<open>A slot without events would be read out of range.\<close>

fun next_diff_loop :: "qtime \<Rightarrow> time_event list \<Rightarrow> int \<times> int \<Rightarrow> (int \<times> int) res" where
  "next_diff_loop time [] st = Inr st"
| "next_diff_loop time (ev # evs) (diff, pending) =
     (if qtime_msecsTo time (event_time ev) \<ge> 0 \<and> qtime_msecsTo time (event_time ev) < diff
      then (case event_id ev of
              [] \<Rightarrow> Inl OutOfRange
            | eid # _ \<Rightarrow> next_diff_loop time evs (qtime_msecsTo time (event_time ev), eid))
      else next_diff_loop time evs (diff, pending))"

definition RDTimeEngine_GetNextDiff :: "qtime \<Rightarrow> time_event list \<Rightarrow> (int \<times> int) res" where
  "RDTimeEngine_GetNextDiff time evs = next_diff_loop time evs (no_diff, -1)"

definition RDTimeEngine_SetTimer :: "qtime \<Rightarrow> time_engine \<Rightarrow> time_engine res" where
  "RDTimeEngine_SetTimer now en =
     (let en = en\<lparr>engine_timer := None\<rparr>
      in if engine_events en = [] then Inr en
         else (let current_time = qtime_addMSecs now (engine_time_offset en)
               in res_bind (RDTimeEngine_GetNextDiff current_time (engine_events en)) (\<lambda>(diff, eid).
                    if diff \<noteq> no_diff then Inr (en\<lparr>engine_pending_id := eid, engine_timer := Some diff\<rparr>)
                    else res_bind (RDTimeEngine_GetNextDiff 0 (engine_events en)) (\<lambda>(diff, eid).
                      if diff \<noteq> no_diff
                      then Inr (en\<lparr>engine_pending_id := eid,
                             engine_timer := Some (diff + (qtime_msecsTo current_time 86399000 + 1000))\<rparr>)
                      else Inr (en\<lparr>engine_pending_id := eid\<rparr>)))))"

definition RDTimeEngine_clear :: "qtime \<Rightarrow> time_engine \<Rightarrow> time_engine res" where
  "RDTimeEngine_clear now en = RDTimeEngine_SetTimer now (en\<lparr>engine_time_offset := 0, engine_events := []\<rparr>)"

text \<open>A null time, which is midnight, when there is no such event.\<close>

definition RDTimeEngine_event :: "int \<Rightarrow> time_engine \<Rightarrow> qtime" where
  "RDTimeEngine_event eid en =
     (case find (\<lambda>ev. eid \<in> set (event_id ev)) (engine_events en) of None \<Rightarrow> 0 | Some ev \<Rightarrow> event_time ev)"

definition RDTimeEngine_setTimeOffset :: "qtime \<Rightarrow> int \<Rightarrow> time_engine \<Rightarrow> time_engine res" where
  "RDTimeEngine_setTimeOffset now msecs en = RDTimeEngine_SetTimer now (en\<lparr>engine_time_offset := msecs\<rparr>)"

fun add_to_slots :: "int \<Rightarrow> qtime \<Rightarrow> time_event list \<Rightarrow> time_event list" where
  "add_to_slots eid time [] = [RDTimeEvent_addId eid (RDTimeEvent_clear\<lparr>event_time := time\<rparr>)]"
| "add_to_slots eid time (ev # evs) =
     (if time = event_time ev then RDTimeEvent_addId eid ev # evs else ev # add_to_slots eid time evs)"

definition RDTimeEngine_addEvent :: "qtime \<Rightarrow> int \<Rightarrow> qtime \<Rightarrow> time_engine \<Rightarrow> time_engine res" where
  "RDTimeEngine_addEvent now eid time en =
     RDTimeEngine_SetTimer now (en\<lparr>engine_events := add_to_slots eid time (engine_events en)\<rparr>)"

fun index_of :: "int \<Rightarrow> int list \<Rightarrow> nat" where
  "index_of eid [] = 0"
| "index_of eid (x # xs) = (if x = eid then 0 else Suc (index_of eid xs))"

fun remove_from_slots :: "int \<Rightarrow> time_event list \<Rightarrow> time_event list" where
  "remove_from_slots eid [] = []"
| "remove_from_slots eid (ev # evs) =
     (if eid \<in> set (event_id ev)
      then (if length (event_id ev) = 1 then evs else RDTimeEvent_removeId (index_of eid (event_id ev)) ev # evs)
      else ev # remove_from_slots eid evs)"

text \<open>The timer is armed again only when the event was found.\<close>

definition RDTimeEngine_removeEvent :: "qtime \<Rightarrow> int \<Rightarrow> time_engine \<Rightarrow> time_engine res" where
  "RDTimeEngine_removeEvent now eid en =
     (if \<exists>ev \<in> set (engine_events en). eid \<in> set (event_id ev)
      then RDTimeEngine_SetTimer now (en\<lparr>engine_events := remove_from_slots eid (engine_events en)\<rparr>)
      else Inr en)"

text \<open>The events of a slot, the last one first; \<open>handle\<close> is what the receiver of the signal does to the engine.\<close>

fun emit_loop :: "(int \<Rightarrow> time_engine \<Rightarrow> time_engine res) \<Rightarrow> nat \<Rightarrow> nat \<Rightarrow> time_engine \<times> int list
    \<Rightarrow> (time_engine \<times> int list) res" where
  "emit_loop handle offset 0 st = Inr st"
| "emit_loop handle offset (Suc i) (en, out) =
     (if offset < length (engine_events en) \<and> i < length (event_id (engine_events en ! offset))
      then let eid = event_id (engine_events en ! offset) ! i
           in res_bind (handle eid en) (\<lambda>en. emit_loop handle offset i (en, out @ [eid]))
      else Inl OutOfRange)"

definition RDTimeEngine_EmitEvents :: "(int \<Rightarrow> time_engine \<Rightarrow> time_engine res) \<Rightarrow> nat \<Rightarrow> time_engine
    \<Rightarrow> (time_engine \<times> int list) res" where
  "RDTimeEngine_EmitEvents handle offset en =
     emit_loop handle offset (length (event_id (engine_events en ! offset))) (en, [])"

fun pending_slot :: "int \<Rightarrow> time_event list \<Rightarrow> nat option" where
  "pending_slot eid [] = None"
| "pending_slot eid (ev # evs) = (if eid \<in> set (event_id ev) then Some 0 else map_option Suc (pending_slot eid evs))"

text \<open>The callback: \<open>now\<close> is the time when the timer is armed again.\<close>

definition RDTimeEngine_timerData :: "(int \<Rightarrow> time_engine \<Rightarrow> time_engine res) \<Rightarrow> qtime \<Rightarrow> time_engine
    \<Rightarrow> (time_engine \<times> int list) res" where
  "RDTimeEngine_timerData handle now en =
     (case pending_slot (engine_pending_id en) (engine_events en) of
        None \<Rightarrow> Inr (en, [])
      | Some i \<Rightarrow> res_bind (RDTimeEngine_EmitEvents handle i en) (\<lambda>(en, out).
          res_bind (RDTimeEngine_SetTimer now en) (\<lambda>en. Inr (en, out))))"

section \<open>The nearest slot\<close>

text \<open>The time to wait for a slot, around midnight.\<close>

definition wait :: "qtime \<Rightarrow> time_event \<Rightarrow> int" where
  "wait t ev = (event_time ev - t) mod msecs_per_day"

definition slots_ok :: "time_event list \<Rightarrow> bool" where
  "slots_ok evs \<longleftrightarrow> (\<forall>ev \<in> set evs. qtime_ok (event_time ev) \<and> event_id ev \<noteq> [])
     \<and> distinct (map event_time evs) \<and> distinct (concat (map event_id evs))"

lemma next_diff_loop_min:
  assumes "\<forall>ev \<in> set evs. event_id ev \<noteq> []"
  shows "\<exists>d i. next_diff_loop t evs (d0, i0) = Inr (d, i) \<and> d \<le> d0
     \<and> (\<forall>ev \<in> set evs. event_time ev \<ge> t \<longrightarrow> d \<le> event_time ev - t)
     \<and> (d = d0 \<and> i = i0 \<or> (\<exists>ev \<in> set evs. event_time ev \<ge> t \<and> d = event_time ev - t \<and> i = hd (event_id ev)))"
  using assms
proof (induction evs arbitrary: d0 i0)
  case (Cons ev evs)
  then obtain x xs where x: "event_id ev = x # xs" by (auto simp: neq_Nil_conv)
  define near where "near \<longleftrightarrow> event_time ev \<ge> t \<and> event_time ev - t < d0"
  show ?case
  proof (cases near)
    case True
    then show ?thesis
      using Cons.IH [of "event_time ev - t" x] Cons.prems x
      by (auto simp: near_def qtime_msecsTo_def)
  next
    case False
    then show ?thesis
      using Cons.IH [of d0 i0] Cons.prems by (auto simp: near_def qtime_msecsTo_def)
  qed
qed simp

lemma mod_day:
  assumes "- msecs_per_day \<le> x" "x < msecs_per_day"
  shows "x mod msecs_per_day = (if 0 \<le> x then x else x + msecs_per_day)"
proof (cases "0 \<le> x")
  case False
  have "x mod msecs_per_day = (x + msecs_per_day) mod msecs_per_day" by simp
  also have "\<dots> = x + msecs_per_day" using False assms(1) by (intro mod_pos_pos_trivial) simp_all
  finally show ?thesis using False by simp
qed (use assms(2) in \<open>simp add: mod_pos_pos_trivial\<close>)

lemma wait_cases:
  assumes "qtime_ok t" "qtime_ok (event_time ev)"
  shows "wait t ev = (if event_time ev \<ge> t then event_time ev - t else event_time ev - t + msecs_per_day)"
  using assms mod_day [of "event_time ev - t"] by (auto simp: wait_def qtime_ok_def)

lemma wait_bounds: "0 \<le> wait t ev" "wait t ev < msecs_per_day"
  by (simp_all add: wait_def msecs_per_day_def)

lemma next_diff_far:
  assumes "\<forall>ev \<in> set evs. event_id ev \<noteq> [] \<and> event_time ev < t"
  shows "RDTimeEngine_GetNextDiff t evs = Inr (no_diff, -1)"
  using assms unfolding RDTimeEngine_GetNextDiff_def
  by (induction evs) (auto simp: qtime_msecsTo_def)

lemma next_diff_near:
  assumes "\<forall>ev \<in> set evs. qtime_ok (event_time ev) \<and> event_id ev \<noteq> []" "qtime_ok t"
    and "\<exists>ev \<in> set evs. event_time ev \<ge> t"
  shows "\<exists>ev \<in> set evs. RDTimeEngine_GetNextDiff t evs = Inr (event_time ev - t, hd (event_id ev)) \<and> event_time ev \<ge> t
     \<and> event_time ev - t \<noteq> no_diff \<and> (\<forall>ev' \<in> set evs. event_time ev' \<ge> t \<longrightarrow> event_time ev \<le> event_time ev')"
proof -
  have far: "event_time ev - t < no_diff" if "ev \<in> set evs" for ev
    using assms(1,2) that by (auto simp: qtime_ok_def msecs_per_day_def no_diff_def)
  obtain d i where "next_diff_loop t evs (no_diff, -1) = Inr (d, i)" "d \<le> no_diff"
      "\<forall>ev \<in> set evs. event_time ev \<ge> t \<longrightarrow> d \<le> event_time ev - t"
      "d = no_diff \<and> i = -1 \<or> (\<exists>ev \<in> set evs. event_time ev \<ge> t \<and> d = event_time ev - t \<and> i = hd (event_id ev))"
    using next_diff_loop_min [of evs t no_diff "-1"] assms(1) by blast
  with assms(3) far show ?thesis
    unfolding RDTimeEngine_GetNextDiff_def by (smt (verit))
qed

text \<open>The slots apart from the distinctness.\<close>

definition slots_valid :: "time_event list \<Rightarrow> bool" where
  "slots_valid evs \<longleftrightarrow> (\<forall>ev \<in> set evs. qtime_ok (event_time ev) \<and> event_id ev \<noteq> [])"

definition nearest :: "qtime \<Rightarrow> time_event list \<Rightarrow> time_event \<Rightarrow> bool" where
  "nearest t evs ev \<longleftrightarrow> ev \<in> set evs \<and> (\<forall>ev' \<in> set evs. wait t ev \<le> wait t ev')"

lemma set_timer_nearest:
  assumes "slots_valid (engine_events en)" "engine_events en \<noteq> []"
  shows "\<exists>ev. nearest (qtime_addMSecs now (engine_time_offset en)) (engine_events en) ev
    \<and> RDTimeEngine_SetTimer now en = Inr (en\<lparr>engine_pending_id := hd (event_id ev),
        engine_timer := Some (wait (qtime_addMSecs now (engine_time_offset en)) ev)\<rparr>)"
proof -
  let ?t = "qtime_addMSecs now (engine_time_offset en)" and ?evs = "engine_events en"
  have ok: "\<forall>ev \<in> set ?evs. qtime_ok (event_time ev) \<and> event_id ev \<noteq> []"
    using assms(1) by (simp add: slots_valid_def)
  have w: "ev \<in> set ?evs \<Longrightarrow> wait ?t ev
      = (if event_time ev \<ge> ?t then event_time ev - ?t else event_time ev - ?t + msecs_per_day)" for ev
    using ok wait_cases by blast
  show ?thesis
  proof (cases "\<exists>ev \<in> set ?evs. event_time ev \<ge> ?t")
    case True
    then obtain ev where ev: "ev \<in> set ?evs"
        "RDTimeEngine_GetNextDiff ?t ?evs = Inr (event_time ev - ?t, hd (event_id ev))" "event_time ev \<ge> ?t"
        "event_time ev - ?t \<noteq> no_diff" "\<forall>ev' \<in> set ?evs. event_time ev' \<ge> ?t \<longrightarrow> event_time ev \<le> event_time ev'"
      using next_diff_near [OF ok, of ?t] by auto
    have "wait ?t ev \<le> wait ?t ev'" if "ev' \<in> set ?evs" for ev'
      using ev(3,5) that bspec [OF ok ev(1)] bspec [OF ok that] w [OF ev(1)] w [OF that] by (simp add: qtime_ok_def)
    then show ?thesis
      using ev assms(2) w [OF ev(1)]
      by (intro exI [of _ ev]) (simp add: nearest_def RDTimeEngine_SetTimer_def Let_def)
  next
    case False
    then have far: "RDTimeEngine_GetNextDiff ?t ?evs = Inr (no_diff, -1)"
      using next_diff_far [of ?evs ?t] ok by (auto simp: not_le)
    have "\<exists>ev \<in> set ?evs. event_time ev \<ge> 0" using assms(2) ok by (cases ?evs) (auto simp: qtime_ok_def)
    then obtain ev where ev: "ev \<in> set ?evs" "RDTimeEngine_GetNextDiff 0 ?evs = Inr (event_time ev, hd (event_id ev))"
        "event_time ev \<noteq> no_diff" "\<forall>ev' \<in> set ?evs. event_time ev' \<ge> 0 \<longrightarrow> event_time ev \<le> event_time ev'"
      using next_diff_near [OF ok, of 0] by auto
    have "wait ?t ev \<le> wait ?t ev'" if "ev' \<in> set ?evs" for ev'
      using False ev(1,4) that bspec [OF ok ev(1)] bspec [OF ok that] w [OF ev(1)] w [OF that] by (simp add: qtime_ok_def)
    moreover have "wait ?t ev = event_time ev + (qtime_msecsTo ?t 86399000 + 1000)"
      using False ev(1) w [OF ev(1)] by (auto simp: qtime_msecsTo_def msecs_per_day_def)
    ultimately show ?thesis
      using ev assms(2) far
      by (intro exI [of _ ev]) (simp add: nearest_def RDTimeEngine_SetTimer_def Let_def)
  qed
qed

section \<open>The schedule\<close>

text \<open>The engine as a map from events to times.\<close>

definition slot_map :: "time_event list \<Rightarrow> int \<Rightarrow> qtime option" where
  "slot_map evs i = map_option event_time (find (\<lambda>ev. i \<in> set (event_id ev)) evs)"

lemma slot_map_simps [simp]:
  "slot_map [] i = None"
  "slot_map (ev # evs) i = (if i \<in> set (event_id ev) then Some (event_time ev) else slot_map evs i)"
  by (simp_all add: slot_map_def)

lemma slot_map_None: "slot_map evs i = None \<longleftrightarrow> i \<notin> set (concat (map event_id evs))"
  by (induction evs) auto

lemma slot_map_Some:
  assumes "slots_ok evs"
  shows "slot_map evs i = Some t \<longleftrightarrow> (\<exists>ev \<in> set evs. i \<in> set (event_id ev) \<and> event_time ev = t)"
  using assms by (induction evs) (auto simp: slots_ok_def)

lemma event_slot_map:
  "RDTimeEngine_event i en = (case slot_map (engine_events en) i of None \<Rightarrow> 0 | Some t \<Rightarrow> t)"
  by (simp add: RDTimeEngine_event_def slot_map_def split: option.split)

lemma same_time:
  assumes "slots_ok evs" "a \<in> set evs" "b \<in> set evs" "event_time a = event_time b"
  shows "a = b"
proof -
  have "inj_on event_time (set evs)" using assms(1) by (simp add: slots_ok_def distinct_map)
  then show ?thesis using assms(2-4) by (simp add: inj_on_eq_iff)
qed

lemma slots_ok_valid: "slots_ok evs \<Longrightarrow> slots_valid evs"
  by (simp add: slots_ok_def slots_valid_def)

lemma addId_simps [simp]:
  "event_time (RDTimeEvent_addId i ev) = event_time ev" "event_id (RDTimeEvent_addId i ev) = event_id ev @ [i]"
  by (simp_all add: RDTimeEvent_addId_def)

lemma add_to_slots_times: "event_time ` set (add_to_slots i t evs) = insert t (event_time ` set evs)"
  by (induction evs) (auto simp: RDTimeEvent_clear_def)

lemma add_to_slots_ids: "set (concat (map event_id (add_to_slots i t evs))) = insert i (set (concat (map event_id evs)))"
  by (induction evs) (auto simp: RDTimeEvent_clear_def)

lemma add_to_slots_ok:
  assumes "slots_ok evs" "qtime_ok t" "slot_map evs i = None"
  shows "slots_ok (add_to_slots i t evs)" "slot_map (add_to_slots i t evs) = (slot_map evs)(i \<mapsto> t)"
proof -
  have "slots_ok (add_to_slots i t evs) \<and> slot_map (add_to_slots i t evs) = (slot_map evs)(i \<mapsto> t)"
    using assms
  proof (induction evs)
    case (Cons ev evs)
    have tail: "slots_ok evs" using Cons.prems(1) by (auto simp: slots_ok_def)
    show ?case
    proof (cases "t = event_time ev")
      case True
      then show ?thesis using Cons.prems by (auto simp: slots_ok_def slot_map_None fun_eq_iff split: if_splits)
    next
      case False
      have IH: "slots_ok (add_to_slots i t evs)" "slot_map (add_to_slots i t evs) = (slot_map evs)(i \<mapsto> t)"
        using Cons.IH [OF tail] Cons.prems by (auto simp: fun_eq_iff split: if_splits)
      have "event_time ev \<notin> event_time ` set (add_to_slots i t evs)"
        using Cons.prems(1) False by (auto simp: add_to_slots_times slots_ok_def)
      moreover have "set (event_id ev) \<inter> set (concat (map event_id (add_to_slots i t evs))) = {}"
        using Cons.prems(1,3) unfolding add_to_slots_ids by (auto simp: slots_ok_def split: if_splits)
      ultimately show ?thesis
        using IH False Cons.prems by (auto simp: slots_ok_def fun_eq_iff split: if_splits)
    qed
  qed (simp add: slots_ok_def RDTimeEvent_clear_def fun_eq_iff)
  then show "slots_ok (add_to_slots i t evs)" "slot_map (add_to_slots i t evs) = (slot_map evs)(i \<mapsto> t)" by simp_all
qed

lemma index_of_split: "i \<in> set xs \<Longrightarrow> take (index_of i xs) xs @ drop (Suc (index_of i xs)) xs = remove1 i xs"
  by (induction xs) auto

lemma removeId_simps:
  "i \<in> set (event_id ev) \<Longrightarrow> event_id (RDTimeEvent_removeId (index_of i (event_id ev)) ev) = remove1 i (event_id ev)"
  "event_time (RDTimeEvent_removeId n ev) = event_time ev"
  by (simp_all add: RDTimeEvent_removeId_def index_of_split)

lemma remove_from_slots_sub:
  "event_time ` set (remove_from_slots i evs) \<subseteq> event_time ` set evs"
  "set (concat (map event_id (remove_from_slots i evs))) \<subseteq> set (concat (map event_id evs))"
  by (induction evs) (auto simp: removeId_simps dest: notin_set_remove1 set_remove1_subset [THEN subsetD])

lemma slots_ok_Cons:
  "slots_ok (ev # evs) \<longleftrightarrow> qtime_ok (event_time ev) \<and> event_id ev \<noteq> [] \<and> distinct (event_id ev)
     \<and> event_time ev \<notin> event_time ` set evs \<and> set (event_id ev) \<inter> set (concat (map event_id evs)) = {} \<and> slots_ok evs"
  by (auto simp: slots_ok_def)

lemma remove_from_slots_ok:
  assumes "slots_ok evs"
  shows "slots_ok (remove_from_slots i evs)" "slot_map (remove_from_slots i evs) = (slot_map evs)(i := None)"
proof -
  have "slots_ok (remove_from_slots i evs) \<and> slot_map (remove_from_slots i evs) = (slot_map evs)(i := None)"
    using assms
  proof (induction evs)
    case (Cons ev evs)
    have tail: "slots_ok evs" and ev: "qtime_ok (event_time ev)" "event_id ev \<noteq> []" "distinct (event_id ev)"
        "event_time ev \<notin> event_time ` set evs" "set (event_id ev) \<inter> set (concat (map event_id evs)) = {}"
      using Cons.prems by (auto simp: slots_ok_def)
    show ?case
    proof (cases "i \<in> set (event_id ev)")
      case True
      then have i: "slot_map evs i = None" using ev(5) by (auto simp: slot_map_None)
      show ?thesis
      proof (cases "length (event_id ev) = 1")
        case True
        then have "event_id ev = [i]" using \<open>i \<in> set (event_id ev)\<close> by (auto simp: length_Suc_conv)
        then show ?thesis using tail i by (auto simp: fun_eq_iff)
      next
        case False
        let ?ev = "RDTimeEvent_removeId (index_of i (event_id ev)) ev"
        have ids: "event_id ?ev = remove1 i (event_id ev)" "event_time ?ev = event_time ev"
          using True by (simp_all add: removeId_simps)
        have "remove1 i (event_id ev) \<noteq> []"
          using False True ev(2) by (metis One_nat_def Suc_pred length_greater_0_conv length_pos_if_in_set length_remove1 list.size(3))
        then have "slots_ok (?ev # evs)"
          using tail ev unfolding slots_ok_def by (auto simp: ids dest: set_remove1_subset [THEN subsetD])
        moreover have "slot_map (?ev # evs) = (slot_map (ev # evs))(i := None)"
          using ev(3) i by (auto simp: fun_eq_iff ids)
        ultimately show ?thesis using True False by (simp add: fun_eq_iff)
      qed
    next
      case False
      have IH: "slots_ok (remove_from_slots i evs)" "slot_map (remove_from_slots i evs) = (slot_map evs)(i := None)"
        using Cons.IH [OF tail] by (auto simp: fun_eq_iff)
      have "slots_ok (ev # remove_from_slots i evs)"
        using IH(1) ev remove_from_slots_sub [of i evs] unfolding slots_ok_Cons by blast
      then show ?thesis using IH(2) False by (auto simp: fun_eq_iff)
    qed
  qed (simp add: fun_eq_iff)
  then show "slots_ok (remove_from_slots i evs)" "slot_map (remove_from_slots i evs) = (slot_map evs)(i := None)" by simp_all
qed

section \<open>Operations\<close>

datatype engine_op = AddEvent qtime int qtime | RemoveEvent qtime int | ClearEngine qtime | SetOffset qtime int

fun engine_step :: "engine_op \<Rightarrow> time_engine \<Rightarrow> time_engine res" where
  "engine_step (AddEvent now i t) en = RDTimeEngine_addEvent now i t en"
| "engine_step (RemoveEvent now i) en = RDTimeEngine_removeEvent now i en"
| "engine_step (ClearEngine now) en = RDTimeEngine_clear now en"
| "engine_step (SetOffset now ms) en = RDTimeEngine_setTimeOffset now ms en"

fun engine_run :: "engine_op list \<Rightarrow> time_engine \<Rightarrow> time_engine res" where
  "engine_run [] en = Inr en"
| "engine_run (x # xs) en = res_bind (engine_step x en) (engine_run xs)"

fun schedule_step :: "engine_op \<Rightarrow> (int \<Rightarrow> qtime option) \<Rightarrow> (int \<Rightarrow> qtime option)" where
  "schedule_step (AddEvent now i t) m = m(i \<mapsto> t)"
| "schedule_step (RemoveEvent now i) m = m(i := None)"
| "schedule_step (ClearEngine now) m = Map.empty"
| "schedule_step (SetOffset now ms) m = m"

text \<open>An event is added with a valid time and only when it is not there.\<close>

fun ops_ok :: "engine_op list \<Rightarrow> (int \<Rightarrow> qtime option) \<Rightarrow> bool" where
  "ops_ok [] m = True"
| "ops_ok (x # xs) m = ((case x of AddEvent now i t \<Rightarrow> qtime_ok t \<and> m i = None | _ \<Rightarrow> True) \<and> ops_ok xs (schedule_step x m))"

definition engine_ok :: "time_engine \<Rightarrow> bool" where
  "engine_ok en \<longleftrightarrow> slots_ok (engine_events en) \<and> (engine_timer en = None \<longleftrightarrow> engine_events en = [])
     \<and> (\<forall>ms. engine_timer en = Some ms \<longrightarrow> 0 \<le> ms \<and> ms < msecs_per_day
          \<and> slot_map (engine_events en) (engine_pending_id en) \<noteq> None)"

lemma set_timer_ok:
  assumes "slots_ok (engine_events en)"
  shows "\<exists>en'. RDTimeEngine_SetTimer now en = Inr en' \<and> engine_ok en' \<and> engine_events en' = engine_events en
    \<and> engine_time_offset en' = engine_time_offset en"
proof (cases "engine_events en = []")
  case True
  then show ?thesis using assms by (simp add: RDTimeEngine_SetTimer_def Let_def engine_ok_def)
next
  case False
  obtain ev where ev: "nearest (qtime_addMSecs now (engine_time_offset en)) (engine_events en) ev"
      "RDTimeEngine_SetTimer now en = Inr (en\<lparr>engine_pending_id := hd (event_id ev),
        engine_timer := Some (wait (qtime_addMSecs now (engine_time_offset en)) ev)\<rparr>)"
    using set_timer_nearest [OF slots_ok_valid [OF assms] False] by blast
  have "ev \<in> set (engine_events en)" "event_id ev \<noteq> []"
    using ev(1) assms by (auto simp: nearest_def slots_ok_def)
  then have "slot_map (engine_events en) (hd (event_id ev)) \<noteq> None"
    unfolding slot_map_None using list.set_sel(1) by (auto simp del: hd_in_set)
  then show ?thesis using assms ev(2) False by (auto simp: engine_ok_def wait_bounds)
qed

lemma engine_step_ok:
  assumes "engine_ok en" "ops_ok [x] (slot_map (engine_events en))"
  shows "\<exists>en'. engine_step x en = Inr en' \<and> engine_ok en'
    \<and> slot_map (engine_events en') = schedule_step x (slot_map (engine_events en))"
proof -
  have ok: "slots_ok (engine_events en)" using assms(1) by (simp add: engine_ok_def)
  show ?thesis
  proof (cases x)
    case (AddEvent now i t)
    then show ?thesis
      using set_timer_ok [of "en\<lparr>engine_events := add_to_slots i t (engine_events en)\<rparr>" now]
        add_to_slots_ok [OF ok, of t i] assms(2)
      by (auto simp: RDTimeEngine_addEvent_def)
  next
    case (RemoveEvent now i)
    show ?thesis
    proof (cases "\<exists>ev \<in> set (engine_events en). i \<in> set (event_id ev)")
      case True
      then show ?thesis
        using set_timer_ok [of "en\<lparr>engine_events := remove_from_slots i (engine_events en)\<rparr>" now]
          remove_from_slots_ok [OF ok, of i] RemoveEvent
        by (auto simp: RDTimeEngine_removeEvent_def)
    next
      case False
      then have "slot_map (engine_events en) i = None" by (auto simp: slot_map_None)
      then show ?thesis
        using RemoveEvent False assms(1) by (auto simp: RDTimeEngine_removeEvent_def fun_upd_idem)
    qed
  next
    case (ClearEngine now)
    have "slots_ok []" by (simp add: slots_ok_def)
    then show ?thesis
      using set_timer_ok [of "en\<lparr>engine_time_offset := 0, engine_events := []\<rparr>" now] ClearEngine
      by (auto simp: RDTimeEngine_clear_def fun_eq_iff)
  next
    case (SetOffset now ms)
    then show ?thesis
      using set_timer_ok [of "en\<lparr>engine_time_offset := ms\<rparr>" now] ok
      by (auto simp: RDTimeEngine_setTimeOffset_def)
  qed
qed

text \<open>C16: The engine implements a map from events to times of day. After any sequence of calls that adds no event
  twice, nothing was read out of range, \<open>event()\<close> gives the time of every event of the map and a null time for the
  others, and the timer is armed exactly when there are events, for less than a day and with one of them pending.\<close>

theorem engine_implements_schedule:
  assumes "ops_ok ops Map.empty"
  shows "\<exists>en. engine_run ops new_engine = Inr en
    \<and> (\<forall>i. RDTimeEngine_event i en = (case fold schedule_step ops Map.empty i of None \<Rightarrow> 0 | Some t \<Rightarrow> t))
    \<and> (case engine_timer en of None \<Rightarrow> fold schedule_step ops Map.empty = Map.empty
       | Some ms \<Rightarrow> 0 \<le> ms \<and> ms < msecs_per_day \<and> fold schedule_step ops Map.empty (engine_pending_id en) \<noteq> None)"
proof -
  have run: "ops_ok ops (slot_map (engine_events en)) \<Longrightarrow> engine_ok en \<Longrightarrow> \<exists>en'. engine_run ops en = Inr en' \<and> engine_ok en'
      \<and> slot_map (engine_events en') = fold schedule_step ops (slot_map (engine_events en))" for en
  proof (induction ops arbitrary: en)
    case (Cons x ops)
    then obtain en1 where "engine_step x en = Inr en1" "engine_ok en1"
        "slot_map (engine_events en1) = schedule_step x (slot_map (engine_events en))"
      using engine_step_ok [of en x] by auto
    with Cons.IH [of en1] Cons.prems(1) show ?case by auto
  qed simp
  have "slot_map (engine_events new_engine) = Map.empty" "engine_ok new_engine"
    by (auto simp: new_engine_def engine_ok_def slots_ok_def)
  with run [of new_engine] assms obtain en where en: "engine_run ops new_engine = Inr en" "engine_ok en"
      "slot_map (engine_events en) = fold schedule_step ops Map.empty" by auto
  have "slot_map [] = Map.empty" by (simp add: fun_eq_iff)
  with en show ?thesis
    by (auto simp: event_slot_map engine_ok_def split: option.split)
qed

section \<open>The callback\<close>

text \<open>A receiver that removes the events of a set, those that happen once.\<close>

definition once :: "int set \<Rightarrow> qtime \<Rightarrow> int \<Rightarrow> time_engine \<Rightarrow> time_engine res" where
  "once S now i en = (if i \<in> S then RDTimeEngine_removeEvent now i en else Inr en)"

lemma pending_slot_Some:
  "slot_map evs i = Some t \<Longrightarrow> \<exists>k < length evs. pending_slot i evs = Some k \<and> i \<in> set (event_id (evs ! k)) \<and> event_time (evs ! k) = t"
  by (induction evs) (auto split: if_splits)

lemma remove_at:
  assumes "slots_ok evs" "k < length evs" "i \<in> set (event_id (evs ! k))"
  shows "event_id (evs ! k) = [i] \<or> (k < length (remove_from_slots i evs)
     \<and> event_id (remove_from_slots i evs ! k) = remove1 i (event_id (evs ! k)))"
  using assms
proof (induction evs arbitrary: k)
  case (Cons ev evs)
  show ?case
  proof (cases k)
    case 0
    then show ?thesis
      using Cons.prems by (auto simp: removeId_simps length_Suc_conv)
  next
    case (Suc n)
    then have "i \<in> set (concat (map event_id evs))" using Cons.prems(2,3) by auto
    then have "i \<notin> set (event_id ev)" using Cons.prems(1) by (auto simp: slots_ok_Cons)
    then show ?thesis
      using Cons.IH [of n] Cons.prems Suc by (auto simp: slots_ok_Cons)
  qed
qed simp

lemma emit_once:
  assumes "slots_ok (engine_events en)" "k < length (engine_events en)" "event_id (engine_events en ! k) = ps @ ys"
  shows "\<exists>en'. emit_loop (once S t) k (length ps) (en, out) = Inr (en', out @ rev ps) \<and> slots_ok (engine_events en')
     \<and> slot_map (engine_events en') = (\<lambda>i. if i \<in> S \<inter> set ps then None else slot_map (engine_events en) i)"
  using assms
proof (induction ps arbitrary: en ys out rule: rev_induct)
  case (snoc x ps)
  have at: "event_id (engine_events en ! k) ! length ps = x" using snoc.prems(3) by simp
  show ?case
  proof (cases "x \<in> S")
    case False
    then show ?thesis
      using snoc.IH [of en "x # ys" "out @ [x]"] snoc.prems at
      by (auto simp: once_def fun_eq_iff)
  next
    case True
    have mem: "x \<in> set (event_id (engine_events en ! k))" using snoc.prems(3) by simp
    have dist: "distinct (event_id (engine_events en ! k))"
      using snoc.prems(1,2) by (simp add: slots_ok_def distinct_concat_iff)
    have found: "\<exists>ev \<in> set (engine_events en). x \<in> set (event_id ev)"
      using mem nth_mem [OF snoc.prems(2)] by blast
    have "slots_ok (engine_events (en\<lparr>engine_events := remove_from_slots x (engine_events en)\<rparr>))"
      using remove_from_slots_ok(1) [OF snoc.prems(1)] by simp
    from set_timer_ok [OF this, of t] found
    obtain en1 where en1: "RDTimeEngine_removeEvent t x en = Inr en1" "slots_ok (engine_events en1)"
        "engine_events en1 = remove_from_slots x (engine_events en)"
      by (auto simp: RDTimeEngine_removeEvent_def engine_ok_def)
    have map1: "slot_map (engine_events en1) = (slot_map (engine_events en))(x := None)"
      using en1(3) remove_from_slots_ok(2) [OF snoc.prems(1)] by simp
    have step: "emit_loop (once S t) k (length (ps @ [x])) (en, out) = emit_loop (once S t) k (length ps) (en1, out @ [x])"
      using True at en1(1) snoc.prems(2,3) by (simp add: once_def Let_def)
    have "ps = [] \<or> (k < length (engine_events en1) \<and> event_id (engine_events en1 ! k) = ps @ ys)"
      using remove_at [OF snoc.prems(1,2) mem] snoc.prems(3) dist en1(3)
      by (auto simp: remove1_append append_eq_Cons_conv)
    then show ?thesis
    proof
      assume "ps = []"
      then show ?thesis using step en1(2) map1 True by (auto simp: fun_eq_iff)
    next
      assume "k < length (engine_events en1) \<and> event_id (engine_events en1 ! k) = ps @ ys"
      then show ?thesis
        using snoc.IH [OF en1(2), of ys "out @ [x]"] step map1 True by (auto simp: fun_eq_iff)
    qed
  qed
qed (simp add: fun_eq_iff)

text \<open>C17: When the timer fires, the events of the pending slot are announced, each once, and no others, also when the
  receiver removes some of them meanwhile; the events it removed are gone, the rest of the schedule is as
  before, and the timer is armed again.\<close>

theorem callback_announces_slot:
  assumes "slots_ok (engine_events en)" "slot_map (engine_events en) (engine_pending_id en) = Some t"
  shows "\<exists>en' out. RDTimeEngine_timerData (once S now1) now2 en = Inr (en', out)
    \<and> distinct out \<and> set out = {i. slot_map (engine_events en) i = Some t}
    \<and> slot_map (engine_events en') = (\<lambda>i. if i \<in> S \<and> slot_map (engine_events en) i = Some t then None
        else slot_map (engine_events en) i)
    \<and> engine_ok en'"
proof -
  obtain k where k: "k < length (engine_events en)" "pending_slot (engine_pending_id en) (engine_events en) = Some k"
      "event_time (engine_events en ! k) = t"
    using pending_slot_Some [OF assms(2)] by auto
  let ?ev = "engine_events en ! k"
  have due: "set (event_id ?ev) = {i. slot_map (engine_events en) i = Some t}"
  proof -
    have "ev = ?ev" if "ev \<in> set (engine_events en)" "event_time ev = t" for ev
      using assms(1) that k(1,3) by (auto simp: slots_ok_def distinct_map inj_on_def)
    then show ?thesis using k(1,3) nth_mem by (auto simp: slot_map_Some [OF assms(1)])
  qed
  have dist: "distinct (event_id ?ev)"
    using assms(1) k(1) by (simp add: slots_ok_def distinct_concat_iff)
  obtain en1 where en1: "emit_loop (once S now1) k (length (event_id ?ev)) (en, []) = Inr (en1, rev (event_id ?ev))"
      "slots_ok (engine_events en1)"
      "slot_map (engine_events en1) = (\<lambda>i. if i \<in> S \<inter> set (event_id ?ev) then None else slot_map (engine_events en) i)"
    using emit_once [OF assms(1) k(1), of "event_id ?ev" "[]" S now1 "[]"] by auto
  obtain en2 where en2: "RDTimeEngine_SetTimer now2 en1 = Inr en2" "engine_ok en2" "engine_events en2 = engine_events en1"
    using set_timer_ok [OF en1(2)] by blast
  have "RDTimeEngine_timerData (once S now1) now2 en = Inr (en2, rev (event_id ?ev))"
    using k(2) en1(1) en2(1) by (simp add: RDTimeEngine_timerData_def RDTimeEngine_EmitEvents_def)
  then show ?thesis
    using dist due en1(3) en2(2,3) by (auto simp: fun_eq_iff)
qed

section \<open>A day\<close>

text \<open>The times around the day, counted from a slot.\<close>

definition after :: "time_event \<Rightarrow> time_event \<Rightarrow> int" where
  "after a b = (event_time b - event_time a) mod msecs_per_day"

lemma after_bounds: "0 \<le> after a b" "after a b < msecs_per_day"
  by (simp_all add: after_def msecs_per_day_def)

lemma after_self [simp]: "after a a = 0"
  by (simp add: after_def)

lemma after_diff: "after a x = (if after o' a \<le> after o' x then after o' x - after o' a
    else after o' x - after o' a + msecs_per_day)"
proof -
  have "after a x = (after o' x - after o' a) mod msecs_per_day"
    by (simp add: after_def mod_diff_eq)
  then show ?thesis
    using after_bounds [of o' x] after_bounds [of o' a] mod_day [of "after o' x - after o' a"] by simp
qed

lemma after_inj:
  assumes "slots_ok evs" "a \<in> set evs" "b \<in> set evs" "after o' a = after o' b"
  shows "a = b"
proof -
  have ok: "qtime_ok (event_time a)" "qtime_ok (event_time b)" using assms(1-3) by (auto simp: slots_ok_def)
  have "after a b = 0" using after_diff [of a b o'] assms(4) by simp
  then have "event_time a = event_time b"
    using mod_day [of "event_time b - event_time a"] ok by (simp add: after_def qtime_ok_def split: if_splits)
  then show ?thesis by (rule same_time [OF assms(1-3)])
qed

definition prompt :: "time_event list \<Rightarrow> int \<Rightarrow> bool" where
  "prompt evs l \<longleftrightarrow> 0 < l \<and> l < msecs_per_day \<and> (\<forall>a \<in> set evs. \<forall>b \<in> set evs. a \<noteq> b \<longrightarrow> l < after a b)"

text \<open>The wait seen from a clock that stands \<open>l\<close> behind the slot \<open>a\<close>.\<close>

lemma wait_after:
  assumes "c = (event_time a + l) mod msecs_per_day" "0 < l" "l < msecs_per_day"
  shows "wait c b = (if l \<le> after a b then after a b - l else after a b - l + msecs_per_day)"
proof -
  have w: "wait c b = (after a b - l) mod msecs_per_day"
    by (simp add: wait_def after_def assms(1) mod_diff_eq mod_diff_left_eq mod_diff_right_eq algebra_simps)
  show ?thesis
    using w assms(2,3) after_bounds [of a b] mod_day [of "after a b - l"] by simp
qed

lemma next_slot:
  assumes "slots_ok evs" "a \<in> set evs" "prompt evs l" "nearest ((event_time a + l) mod msecs_per_day) evs b"
    and "x \<in> set evs" "after o' a < after o' x"
  shows "after o' a < after o' b" "\<And>y. y \<in> set evs \<Longrightarrow> after o' a < after o' y \<Longrightarrow> after o' b \<le> after o' y"
proof -
  let ?c = "(event_time a + l) mod msecs_per_day"
  have l: "0 < l" "l < msecs_per_day" using assms(3) by (simp_all add: prompt_def)
  have b: "b \<in> set evs" "\<And>y. y \<in> set evs \<Longrightarrow> wait ?c b \<le> wait ?c y" using assms(4) by (simp_all add: nearest_def)
  have later: "wait ?c y = after o' y - after o' a - l" if "y \<in> set evs" "after o' a < after o' y" for y
  proof -
    have "y \<noteq> a" using that by auto
    then have "l < after a y" using assms(2,3) that(1) by (auto simp: prompt_def)
    then show ?thesis using wait_after [OF refl l, of a y] after_diff [of a y o'] that(2) by simp
  qed
  show *: "after o' a < after o' b"
  proof (rule ccontr)
    assume n: "\<not> after o' a < after o' b"
    have "wait ?c b \<le> after o' x - after o' a - l" using b(2) [OF assms(5)] later [OF assms(5,6)] by simp
    moreover have "wait ?c b \<ge> after o' b - after o' a - l + msecs_per_day"
    proof (cases "b = a")
      case True
      then show ?thesis using wait_after [OF refl l, of a a] l by simp
    next
      case False
      then have "l < after a b" using assms(2,3) b(1) by (auto simp: prompt_def)
      moreover have "after o' b \<noteq> after o' a" using after_inj [OF assms(1) b(1) assms(2)] False by blast
      ultimately show ?thesis using wait_after [OF refl l, of a b] after_diff [of a b o'] n by simp
    qed
    ultimately show False using after_bounds [of o' x] after_bounds [of o' b] by simp
  qed
  show "after o' b \<le> after o' y" if "y \<in> set evs" "after o' a < after o' y" for y
    using b(2) [OF that(1)] later [OF that] later [OF b(1) *] by simp
qed

text \<open>Callbacks one after the other, each \<open>l\<close> milliseconds behind its time; the receiver leaves the engine alone.\<close>

fun day_run :: "int list \<Rightarrow> qtime \<Rightarrow> time_engine \<Rightarrow> int list res" where
  "day_run [] now en = Inr []"
| "day_run (l # ls) now en =
     (case engine_timer en of
        None \<Rightarrow> Inr []
      | Some ms \<Rightarrow> let now = qtime_addMSecs now (ms + l)
                  in res_bind (RDTimeEngine_timerData (once {} now) now en) (\<lambda>(en, out).
                       res_bind (day_run ls now en) (\<lambda>more. Inr (out @ more))))"

definition armed_for :: "qtime \<Rightarrow> time_engine \<Rightarrow> time_event \<Rightarrow> bool" where
  "armed_for now en a \<longleftrightarrow> slots_ok (engine_events en) \<and> nearest (qtime_addMSecs now (engine_time_offset en)) (engine_events en) a
     \<and> engine_pending_id en = hd (event_id a) \<and> engine_timer en = Some (wait (qtime_addMSecs now (engine_time_offset en)) a)"

lemma set_timer_armed:
  assumes "slots_ok (engine_events en)" "engine_events en \<noteq> []"
  shows "\<exists>en' a. RDTimeEngine_SetTimer now en = Inr en' \<and> armed_for now en' a \<and> engine_events en' = engine_events en
    \<and> engine_time_offset en' = engine_time_offset en"
  using set_timer_nearest [OF slots_ok_valid [OF assms(1)] assms(2), of now] assms(1)
  by (auto simp: armed_for_def)

text \<open>The clock of the engine when the callback comes.\<close>

lemma callback_time:
  assumes "armed_for now en a"
  shows "qtime_addMSecs (qtime_addMSecs now (wait (qtime_addMSecs now (engine_time_offset en)) a + l)) (engine_time_offset en)
    = (event_time a + l) mod msecs_per_day"
proof -
  let ?t = "now + engine_time_offset en"
  have "?t - ?t mod msecs_per_day = msecs_per_day * (?t div msecs_per_day)" by (simp add: minus_mod_eq_mult_div)
  then have "event_time a - ?t mod msecs_per_day + (l + ?t) = event_time a + l + msecs_per_day * (?t div msecs_per_day)"
    by simp
  then have "(event_time a - ?t mod msecs_per_day + (l + ?t)) mod msecs_per_day = (event_time a + l) mod msecs_per_day"
    by (simp only: mod_mult_self2)
  moreover have "qtime_addMSecs (qtime_addMSecs now (wait (qtime_addMSecs now (engine_time_offset en)) a + l)) (engine_time_offset en)
      = (event_time a - ?t mod msecs_per_day + (l + ?t)) mod msecs_per_day"
    unfolding qtime_addMSecs_add unfolding qtime_addMSecs_def wait_def
    using mod_add_left_eq [of "event_time a - ?t mod msecs_per_day" msecs_per_day "l + ?t"] by (simp add: algebra_simps)
  ultimately show ?thesis by simp
qed

lemma callback_armed:
  assumes "armed_for now en a" "now' = qtime_addMSecs now (wait (qtime_addMSecs now (engine_time_offset en)) a + l)"
  shows "\<exists>en' b. RDTimeEngine_timerData (once {} t) now' en = Inr (en', rev (event_id a))
    \<and> armed_for now' en' b \<and> engine_events en' = engine_events en \<and> engine_time_offset en' = engine_time_offset en
    \<and> nearest ((event_time a + l) mod msecs_per_day) (engine_events en) b"
proof -
  have ok: "slots_ok (engine_events en)" and a: "a \<in> set (engine_events en)"
    using assms(1) by (auto simp: armed_for_def nearest_def)
  have ne: "event_id a \<noteq> []" using ok a by (auto simp: slots_ok_def)
  have p: "slot_map (engine_events en) (engine_pending_id en) = Some (event_time a)"
    using a hd_in_set [OF ne] assms(1) by (auto simp: slot_map_Some [OF ok] armed_for_def)
  obtain k where k: "k < length (engine_events en)" "pending_slot (engine_pending_id en) (engine_events en) = Some k"
      "event_time (engine_events en ! k) = event_time a"
    using pending_slot_Some [OF p] by auto
  have "engine_events en ! k = a"
    using ok a k(1,3) by (auto simp: slots_ok_def distinct_map inj_on_def)
  then have emit: "emit_loop (once {} t) k (length (event_id a)) (en, []) = Inr (en, rev (event_id a))"
  proof -
    have "i \<le> length (event_id a) \<Longrightarrow> emit_loop (once {} t) k i (en, out) = Inr (en, out @ rev (take i (event_id a)))" for i out
      using \<open>engine_events en ! k = a\<close> k(1)
      by (induction i arbitrary: out) (auto simp: once_def take_Suc_conv_app_nth)
    then show ?thesis by simp
  qed
  obtain en' b where b: "RDTimeEngine_SetTimer now' en = Inr en'" "armed_for now' en' b" "engine_events en' = engine_events en"
      "engine_time_offset en' = engine_time_offset en"
    using set_timer_armed [OF ok, of now'] a by (cases "engine_events en") auto
  then have "nearest ((event_time a + l) mod msecs_per_day) (engine_events en) b"
    using callback_time [OF assms(1), of l] by (simp add: armed_for_def assms(2))
  moreover have "RDTimeEngine_timerData (once {} t) now' en = Inr (en', rev (event_id a))"
    using k(2) \<open>engine_events en ! k = a\<close> emit b(1) by (simp add: RDTimeEngine_timerData_def RDTimeEngine_EmitEvents_def)
  ultimately show ?thesis using b by blast
qed

lemma day_run_slots:
  assumes "armed_for now en a" "\<forall>l \<in> set ls. prompt (engine_events en) l" "ls \<noteq> []"
    and "length ls \<le> card {x \<in> set (engine_events en). after o' a \<le> after o' x}"
  shows "\<exists>out G. day_run ls now en = Inr out \<and> distinct out \<and> set out = (\<Union>x \<in> G. set (event_id x))
    \<and> G \<subseteq> {x \<in> set (engine_events en). after o' a \<le> after o' x} \<and> card G = length ls"
  using assms
proof (induction ls arbitrary: now en a)
  case (Cons l ls)
  let ?evs = "engine_events en"
  let ?now = "qtime_addMSecs now (wait (qtime_addMSecs now (engine_time_offset en)) a + l)"
  have ok: "slots_ok ?evs" and a: "a \<in> set ?evs" and tm: "engine_timer en = Some (wait (qtime_addMSecs now (engine_time_offset en)) a)"
    using Cons.prems(1) by (auto simp: armed_for_def nearest_def)
  have dist: "distinct (event_id a)" using ok a by (auto simp: slots_ok_def distinct_concat_iff)
  obtain en1 b where 1: "RDTimeEngine_timerData (once {} ?now) ?now en = Inr (en1, rev (event_id a))"
      "armed_for ?now en1 b" "engine_events en1 = ?evs" "nearest ((event_time a + l) mod msecs_per_day) ?evs b"
    using callback_armed [OF Cons.prems(1) refl, of ?now l] by blast
  have run: "day_run (l # ls) now en = res_bind (day_run ls ?now en1) (\<lambda>more. Inr (rev (event_id a) @ more))"
    using tm 1(1) by (simp add: Let_def)
  show ?case
  proof (cases "ls = []")
    case True
    then show ?thesis
      using run dist a by (intro exI [of _ "rev (event_id a)"] exI [of _ "{a}"]) simp
  next
    case False
    have sub: "{x \<in> set ?evs. after o' a < after o' x} = {x \<in> set ?evs. after o' a \<le> after o' x} - {a}"
      using after_inj [OF ok a] by (auto simp: order_le_less)
    have card: "card {x \<in> set ?evs. after o' a < after o' x} = card {x \<in> set ?evs. after o' a \<le> after o' x} - 1"
      unfolding sub using a by (simp add: card_Diff_singleton)
    have "length ls \<ge> 1" using False by (cases ls) auto
    then have "card {x \<in> set ?evs. after o' a < after o' x} \<noteq> 0" using card Cons.prems(4) by simp
    then obtain x where x: "x \<in> set ?evs" "after o' a < after o' x" by (auto simp: card_eq_0_iff)
    have l: "prompt ?evs l" using Cons.prems(2) by simp
    have b: "after o' a < after o' b" "\<And>y. y \<in> set ?evs \<Longrightarrow> after o' a < after o' y \<Longrightarrow> after o' b \<le> after o' y"
      using next_slot [OF ok a l 1(4) x] by blast+
    have rest: "{x \<in> set ?evs. after o' b \<le> after o' x} = {x \<in> set ?evs. after o' a < after o' x}"
      using b by force
    have len: "length ls \<le> card {x \<in> set ?evs. after o' b \<le> after o' x}"
      unfolding rest card using Cons.prems(4) by simp
    obtain out G where G: "day_run ls ?now en1 = Inr out" "distinct out" "set out = (\<Union>x \<in> G. set (event_id x))"
        "G \<subseteq> {x \<in> set ?evs. after o' b \<le> after o' x}" "card G = length ls"
      using Cons.IH [OF 1(2) _ False] Cons.prems(2) len unfolding 1(3) by auto
    have aG: "a \<notin> G" "G \<subseteq> set ?evs" "G \<subseteq> {x \<in> set ?evs. after o' a \<le> after o' x}"
      using G(4) b(1) by auto
    have "set (event_id a) \<inter> set (event_id x) = {}" if "x \<in> G" for x
    proof -
      have "x \<in> set ?evs" "x \<noteq> a" using that aG by auto
      then show ?thesis using ok a unfolding slots_ok_def by (metis disjoint_iff slot_map_Some [OF ok] option.inject distinct_map inj_on_eq_iff)
    qed
    then have "distinct (rev (event_id a) @ out)" using dist G(2,3) by auto
    moreover have "card (insert a G) = Suc (length ls)"
      using aG G(5) by (metis List.finite_set card_insert_disjoint finite_subset)
    ultimately show ?thesis
      using run G(1,3) aG(3) a
      by (intro exI [of _ "rev (event_id a) @ out"] exI [of _ "insert a G"]) auto
  qed
qed simp

text \<open>C15: Every event happens exactly once a day. Let the timer be armed, and let as many callbacks come as there are
  different times, each at least a millisecond after its time but before the
  next time of the schedule, the receiver leaving the engine alone. Then they announce every
  event of the engine, each once, wherever in the day they start and whatever the time offset is.\<close>

theorem day_announces_all:
  assumes "slots_ok (engine_events en)" "RDTimeEngine_SetTimer now en = Inr en'"
    and "length ls = length (engine_events en)" "\<forall>l \<in> set ls. prompt (engine_events en) l"
  shows "\<exists>out. day_run ls now en' = Inr out \<and> distinct out \<and> set out = {i. slot_map (engine_events en) i \<noteq> None}"
proof (cases "engine_events en = []")
  case True
  then show ?thesis using assms(3) by simp
next
  case False
  let ?evs = "engine_events en"
  obtain a where a: "armed_for now en' a" "engine_events en' = ?evs"
    using set_timer_armed [OF assms(1) False, of now] assms(2) by auto
  have dist: "distinct ?evs" using assms(1) by (auto simp: slots_ok_def distinct_map)
  have all: "{x \<in> set ?evs. after a a \<le> after a x} = set ?evs" using after_bounds(1) by auto
  have "length ls \<le> card {x \<in> set (engine_events en'). after a a \<le> after a x}"
    unfolding a(2) all using assms(3) distinct_card [OF dist] by simp
  moreover have "ls \<noteq> []" using assms(3) False by auto
  ultimately obtain out G where G: "day_run ls now en' = Inr out" "distinct out" "set out = (\<Union>x \<in> G. set (event_id x))"
      "G \<subseteq> set ?evs" "card G = length ls"
    using day_run_slots [OF a(1), of ls a] assms(4) a(2) all by auto
  have "G = set ?evs"
    using G(4,5) assms(3) distinct_card [OF dist] by (metis List.finite_set card_subset_eq)
  moreover have "{i. slot_map ?evs i \<noteq> None} = (\<Union>x \<in> set ?evs. set (event_id x))"
    by (auto simp: slot_map_None)
  ultimately show ?thesis using G(1-3) by auto
qed

lemma armed_pending:
  assumes "slots_ok (engine_events en)" "RDTimeEngine_SetTimer now en = Inr en'"
    and "slot_map (engine_events en) (engine_pending_id en') = Some t" "engine_events en \<noteq> []"
  shows "\<exists>a. armed_for now en' a \<and> event_time a = t \<and> engine_events en' = engine_events en
    \<and> engine_time_offset en' = engine_time_offset en \<and> set (event_id a) = {i. slot_map (engine_events en) i = Some t}"
proof -
  obtain a where a: "armed_for now en' a" "engine_events en' = engine_events en" "engine_time_offset en' = engine_time_offset en"
    using set_timer_armed [OF assms(1,4), of now] assms(2) by auto
  have mem: "a \<in> set (engine_events en)" "event_id a \<noteq> []" "engine_pending_id en' = hd (event_id a)"
    using a(1,2) assms(1) by (auto simp: armed_for_def nearest_def slots_ok_def)
  have "slot_map (engine_events en) (hd (event_id a)) = Some (event_time a)"
    using mem(1) hd_in_set [OF mem(2)] by (auto simp: slot_map_Some [OF assms(1)])
  then have t: "event_time a = t" using assms(3) mem(3) by simp
  have "slot_map (engine_events en) i = Some t \<longleftrightarrow> i \<in> set (event_id a)" for i
    unfolding slot_map_Some [OF assms(1)] using mem(1) t same_time [OF assms(1) _ mem(1)] by metis
  then have "set (event_id a) = {i. slot_map (engine_events en) i = Some t}" by simp
  then show ?thesis using a t by blast
qed

text \<open>C40: A late callback loses events. When the callback for a slot comes after the time of another slot, that slot is
  not announced, and the timer is not armed for it either: it is armed for the slot (pending ID and interval) that comes
  next after the clock as it now stands, at the latest the announced slot on the next day, so the slot that was passed,
  which the engine still holds, has to wait almost a whole day, less the time by which the callback passed it.\<close>

theorem late_callback_loses_events:
  assumes "slots_ok (engine_events en)" "RDTimeEngine_SetTimer now en = Inr en'" "engine_timer en' = Some ms"
    and "slot_map (engine_events en) (engine_pending_id en') = Some due" "slot_map (engine_events en) j = Some other"
    and "gap = (other - due) mod msecs_per_day" "0 < gap" "gap < late" "late < msecs_per_day"
    and "clock = qtime_addMSecs (qtime_addMSecs now (ms + late)) (engine_time_offset en)"
  shows "\<exists>en2 out t. RDTimeEngine_timerData (once {} now) (qtime_addMSecs now (ms + late)) en' = Inr (en2, out)
    \<and> set out = {i. slot_map (engine_events en) i = Some due} \<and> j \<notin> set out
    \<and> engine_events en2 = engine_events en \<and> slot_map (engine_events en) (engine_pending_id en2) = Some t \<and> t \<noteq> other
    \<and> engine_timer en2 = Some ((t - clock) mod msecs_per_day) \<and> (t - clock) mod msecs_per_day \<le> msecs_per_day - late
    \<and> (other - clock) mod msecs_per_day = msecs_per_day - (late - gap)"
proof -
  have ne: "engine_events en \<noteq> []" using assms(5) by auto
  obtain a where a: "armed_for now en' a" "event_time a = due" "engine_events en' = engine_events en"
      "engine_time_offset en' = engine_time_offset en" "set (event_id a) = {i. slot_map (engine_events en) i = Some due}"
    using armed_pending [OF assms(1,2,4) ne] by blast
  have ms: "ms = wait (qtime_addMSecs now (engine_time_offset en')) a" using a(1) assms(3) by (simp add: armed_for_def)
  obtain en2 b where en2: "RDTimeEngine_timerData (once {} now) (qtime_addMSecs now (ms + late)) en' = Inr (en2, rev (event_id a))"
      "armed_for (qtime_addMSecs now (ms + late)) en2 b" "engine_events en2 = engine_events en'"
      "engine_time_offset en2 = engine_time_offset en'"
    using callback_armed [OF a(1) refl, of now late] unfolding ms by blast
  have "(other - due) mod msecs_per_day \<noteq> 0" using assms(6,7) by simp
  then have j: "j \<notin> set (event_id a)" using a(5) assms(5) by auto
  have clock: "clock = (due + late) mod msecs_per_day"
    using callback_time [OF a(1), of late] unfolding assms(10) ms a(2,4) .
  have "(other - clock) mod msecs_per_day = (gap - late) mod msecs_per_day"
    unfolding clock assms(6) by (simp add: mod_diff_eq mod_diff_left_eq mod_diff_right_eq algebra_simps)
  also have "\<dots> = msecs_per_day - (late - gap)" using mod_day [of "gap - late"] assms(7-9) by simp
  finally have passed: "(other - clock) mod msecs_per_day = msecs_per_day - (late - gap)" .
  have "(due - clock) mod msecs_per_day = (- late) mod msecs_per_day"
    unfolding clock by (simp add: mod_diff_right_eq)
  also have "\<dots> = msecs_per_day - late" using mod_day [of "- late"] assms(7-9) by simp
  finally have again: "wait clock a = msecs_per_day - late" by (simp add: wait_def a(2))
  have b: "b \<in> set (engine_events en)" "event_id b \<noteq> []" "wait clock b \<le> wait clock a"
      "engine_pending_id en2 = hd (event_id b)" "engine_timer en2 = Some (wait clock b)"
    using en2(2-4) a(1,3,4) assms(1,10) by (auto simp: armed_for_def nearest_def slots_ok_def)
  have "slot_map (engine_events en) (engine_pending_id en2) = Some (event_time b)"
    using b(1,4) hd_in_set [OF b(2)] by (auto simp: slot_map_Some [OF assms(1)])
  moreover have "event_time b \<noteq> other" using b(3) again passed assms(7) by (auto simp: wait_def)
  ultimately show ?thesis
    using en2(1,3) a(3,5) j b(3,5) again passed
    by (intro exI [of _ en2] exI [of _ "rev (event_id a)"] exI [of _ "event_time b"]) (simp add: wait_def)
qed

text \<open>A callback that is not a millisecond late announces its events twice. When the clock still shows the time
  of the slot at the end of the callback, the timer is armed for the same slot with no delay, and the next callback
  announces the same events again.\<close>

theorem punctual_callback_repeats:
  assumes "slots_ok (engine_events en)" "RDTimeEngine_SetTimer now en = Inr en'" "engine_timer en' = Some ms"
    and "now' = qtime_addMSecs now ms"
  shows "\<exists>en2 en3 out. RDTimeEngine_timerData (once {} now) now' en' = Inr (en2, out) \<and> out \<noteq> []
    \<and> engine_timer en2 = Some 0 \<and> RDTimeEngine_timerData (once {} now) now' en2 = Inr (en3, out)"
proof -
  have ne: "engine_events en \<noteq> []" using assms(2,3) by (auto simp: RDTimeEngine_SetTimer_def Let_def)
  obtain a where a: "armed_for now en' a" "engine_events en' = engine_events en" "engine_time_offset en' = engine_time_offset en"
    using set_timer_armed [OF assms(1) ne, of now] assms(2) by auto
  have mem: "a \<in> set (engine_events en)" "event_id a \<noteq> []" "qtime_ok (event_time a)"
    using a(1,2) assms(1) by (auto simp: armed_for_def nearest_def slots_ok_def)
  let ?t = "event_time a mod msecs_per_day"
  have now': "now' = qtime_addMSecs now (wait (qtime_addMSecs now (engine_time_offset en')) a + 0)"
    using a(1) assms(3,4) by (simp add: armed_for_def)
  have t: "qtime_addMSecs now' (engine_time_offset en') = event_time a" "?t = event_time a"
    using callback_time [OF a(1), of 0] mem(3) unfolding now' by (simp_all add: qtime_ok_def)
  obtain en2 b where b: "RDTimeEngine_timerData (once {} now) now' en' = Inr (en2, rev (event_id a))" "armed_for now' en2 b"
      "engine_events en2 = engine_events en" "engine_time_offset en2 = engine_time_offset en'"
    using callback_armed [OF a(1) now', of now] a(2) by auto
  have near: "nearest (event_time a) (engine_events en) b" "engine_timer en2 = Some (wait (event_time a) b)"
    using b(2-4) t by (simp_all add: armed_for_def)
  have "wait (event_time a) b \<le> wait (event_time a) a" using near(1) mem(1) by (simp add: nearest_def)
  then have w: "wait (event_time a) b = 0" using wait_bounds(1) [of "event_time a" b] by (simp add: wait_def)
  then have "a = b"
    using after_inj [OF assms(1) mem(1), of b a] near(1) by (simp add: nearest_def after_def wait_def)
  then obtain en3 where "RDTimeEngine_timerData (once {} now) now' en2 = Inr (en3, rev (event_id a))"
  proof -
    have "now' = qtime_addMSecs now' (wait (qtime_addMSecs now' (engine_time_offset en2)) b + 0)"
      using w b(4) t(1) now' by (simp add: qtime_addMSecs_def)
    from callback_armed [OF b(2) this, of now] show ?thesis using that \<open>a = b\<close> by blast
  qed
  then show ?thesis using b(1) near(2) w mem(2) by (intro exI [of _ en2] exI [of _ en3] exI [of _ "rev (event_id a)"]) simp
qed

section \<open>Concrete runs\<close>

text \<open>Two events at 10:00:00.000 and one five milliseconds later.\<close>

definition demo_engine :: time_engine where
  "demo_engine = new_engine\<lparr>engine_events := [\<lparr>event_time = 36000000, event_id = [1, 2]\<rparr>,
     \<lparr>event_time = 36000005, event_id = [3]\<rparr>]\<rparr>"

definition demo_armed :: time_engine where
  "demo_armed = demo_engine\<lparr>engine_pending_id := 1, engine_timer := Some 36000000\<rparr>"

lemma demo_engine_ok: "slots_ok (engine_events demo_engine)"
  by (simp add: demo_engine_def slots_ok_def qtime_ok_def msecs_per_day_def)

lemma demo_engine_armed: "RDTimeEngine_SetTimer 0 demo_engine = Inr demo_armed"
  by (simp add: RDTimeEngine_SetTimer_def Let_def RDTimeEngine_GetNextDiff_def demo_engine_def demo_armed_def new_engine_def
      qtime_addMSecs_def qtime_msecsTo_def msecs_per_day_def no_diff_def)

theorem engine_implements_schedule_witness:
  "\<exists>en. engine_run [AddEvent 0 1 36000000, AddEvent 0 2 36000000, RemoveEvent 0 1] new_engine = Inr en
    \<and> RDTimeEngine_event 2 en = 36000000 \<and> RDTimeEngine_event 1 en = 0"
  using engine_implements_schedule [of "[AddEvent 0 1 36000000, AddEvent 0 2 36000000, RemoveEvent 0 1]"]
  by (fastforce simp: qtime_ok_def msecs_per_day_def)

theorem callback_announces_slot_witness:
  "\<exists>en' out. RDTimeEngine_timerData (once {2} 36000001) 36000002 demo_armed = Inr (en', out)
    \<and> distinct out \<and> set out = {i. slot_map (engine_events demo_armed) i = Some 36000000}"
  using callback_announces_slot [of demo_armed 36000000 "{2}" 36000001 36000002] demo_engine_ok
  by (auto simp: demo_armed_def demo_engine_def)

theorem day_announces_all_witness:
  "\<exists>out. day_run [1, 2] 0 demo_armed = Inr out \<and> distinct out
    \<and> set out = {i. slot_map (engine_events demo_engine) i \<noteq> None}"
proof (rule day_announces_all [OF demo_engine_ok demo_engine_armed])
  show "\<forall>l \<in> set [1, 2]. prompt (engine_events demo_engine) l"
    by (auto simp: prompt_def after_def demo_engine_def msecs_per_day_def)
qed (simp add: demo_engine_def)

theorem late_callback_loses_events_witness:
  "\<exists>en2 out t. RDTimeEngine_timerData (once {} 0) (qtime_addMSecs 0 (36000000 + 10)) demo_armed = Inr (en2, out)
    \<and> 3 \<notin> set out \<and> slot_map (engine_events demo_engine) (engine_pending_id en2) = Some t \<and> t \<noteq> 36000005"
proof -
  have t: "engine_timer demo_armed = Some 36000000"
      "slot_map (engine_events demo_engine) (engine_pending_id demo_armed) = Some 36000000"
      "slot_map (engine_events demo_engine) 3 = Some 36000005"
    by (simp_all add: demo_armed_def demo_engine_def)
  have "5 = (36000005 - 36000000 :: int) mod msecs_per_day" "10 < msecs_per_day"
      "36000010 = qtime_addMSecs (qtime_addMSecs 0 (36000000 + 10)) (engine_time_offset demo_engine)"
    by (simp_all add: demo_engine_def new_engine_def msecs_per_day_def qtime_addMSecs_def)
  from late_callback_loses_events [OF demo_engine_ok demo_engine_armed t this(1) _ _ this(2,3)]
  show ?thesis by fastforce
qed

theorem punctual_callback_repeats_witness:
  "\<exists>en2 en3 out. RDTimeEngine_timerData (once {} 0) (qtime_addMSecs 0 36000000) demo_armed = Inr (en2, out) \<and> out \<noteq> []
    \<and> engine_timer en2 = Some 0
    \<and> RDTimeEngine_timerData (once {} 0) (qtime_addMSecs 0 36000000) en2 = Inr (en3, out)"
  by (rule punctual_callback_repeats [OF demo_engine_ok demo_engine_armed]) (simp_all add: demo_armed_def)

end
