(* ===== verification/Date_Decode.thy ===== *)
theory Date_Decode
  imports Qt_String
begin

text \<open>
  Templates with date and time codes, \<open>RDDateDecode\<close> and \<open>RDDateTimeDecode\<close> of \<open>lib/rddatedecode.cpp\<close>. The
  calendar is Qt's: \<open>date_parts\<close> holds what its accessors return for a date, names in the locale's language.
  A code may carry \<open>^\<close> (upper case) and \<open>$\<close> (initial capital); an unknown code stays as it is.
\<close>

record date_parts =
  dp_year :: int
  dp_month :: int
  dp_day :: int
  dp_dow :: int
  dp_day_of_year :: int
  dp_week :: int
  dp_week_year :: int
  dp_short_day :: string
  dp_long_day :: string
  dp_short_month :: string
  dp_long_month :: string

definition lower_char :: "char \<Rightarrow> char" where
  "lower_char c = (if of_char c \<in> {65..90 :: nat} then char_of (of_char c + 32 :: nat) else c)"

definition upper_char :: "char \<Rightarrow> char" where
  "upper_char c = (if of_char c \<in> {97..122 :: nat} then char_of (of_char c - 32 :: nat) else c)"

text \<open>\<open>%0wd\<close> and \<open>%wd\<close> of \<open>sprintf\<close>.\<close>

definition zero_pad :: "nat \<Rightarrow> int \<Rightarrow> string" where
  "zero_pad w i = (if i < 0 then CHR ''-'' # pad_nat (w - 1) (nat (- i)) else pad_nat w (nat i))"

definition space_pad :: "nat \<Rightarrow> int \<Rightarrow> string" where
  "space_pad w i = replicate (w - length (string_of_int i)) (CHR '' '') @ string_of_int i"

text \<open>The codes of both functions, but \<open>D\<close>.\<close>

definition date_field :: "date_parts \<Rightarrow> char \<Rightarrow> string option" where
  "date_field d c =
     (if c = CHR ''a'' then Some (map lower_char (dp_short_day d))
      else if c = CHR ''A'' then Some (map lower_char (dp_long_day d))
      else if c = CHR ''b'' \<or> c = CHR ''h'' then Some (map lower_char (dp_short_month d))
      else if c = CHR ''B'' then Some (map lower_char (dp_long_month d))
      else if c = CHR ''C'' then Some (zero_pad 2 (dp_year d div 100))
      else if c = CHR ''d'' then Some (zero_pad 2 (dp_day d))
      else if c = CHR ''e'' then Some (space_pad 2 (dp_day d))
      else if c = CHR ''E'' then Some (string_of_int (dp_day d))
      else if c = CHR ''F'' then Some (zero_pad 4 (dp_year d) @ ''-'' @ zero_pad 2 (dp_month d) @ ''-'' @ zero_pad 2 (dp_day d))
      else if c = CHR ''g'' then Some (zero_pad 2 (dp_week_year d - 2000))
      else if c = CHR ''G'' then Some (zero_pad 4 (dp_week_year d))
      else if c = CHR ''j'' then Some (zero_pad 3 (dp_day_of_year d))
      else if c = CHR ''m'' then Some (zero_pad 2 (dp_month d))
      else if c = CHR ''u'' then Some (string_of_int (dp_dow d))
      else if c = CHR ''V'' \<or> c = CHR ''W'' then Some (string_of_int (dp_week d))
      else if c = CHR ''w'' then Some (string_of_int (if dp_dow d = 7 then 0 else dp_dow d))
      else if c = CHR ''y'' then Some (zero_pad 2 (dp_year d - 2000))
      else if c = CHR ''Y'' then Some (zero_pad 4 (dp_year d))
      else if c = CHR ''%'' then Some ''%''
      else None)"

definition date_code :: "date_parts \<Rightarrow> char \<Rightarrow> string option" where
  "date_code d c =
     (if c = CHR ''D''
      then Some (zero_pad 2 (dp_day d) @ ''-'' @ zero_pad 2 (dp_month d) @ ''-'' @ zero_pad 2 (dp_year d mod 100))
      else date_field d c)"

definition time_code :: "date_parts \<Rightarrow> qtime \<Rightarrow> char \<Rightarrow> string option" where
  "time_code d t c =
     (if c = CHR ''D''
      then Some (zero_pad 2 (dp_month d) @ ''-'' @ zero_pad 2 (dp_day d) @ ''-'' @ zero_pad 2 (dp_year d mod 100))
      else if c = CHR ''H'' then Some (zero_pad 2 (qtime_hour t))
      else if c = CHR ''I'' then Some (zero_pad 2 (qtime_hour t mod 12))
      else if c = CHR ''i'' then Some (space_pad 2 (qtime_hour t mod 12))
      else if c = CHR ''J'' then Some (string_of_int (qtime_hour t mod 12))
      else if c = CHR ''k'' then Some (space_pad 2 (qtime_hour t))
      else if c = CHR ''M'' then Some (zero_pad 2 (qtime_minute t))
      else if c = CHR ''p'' then Some (if qtime_hour t < 12 then ''am'' else ''pm'')
      else if c = CHR ''S'' then Some (zero_pad 2 (qtime_second t))
      else date_field d c)"

definition take_mark :: "char \<Rightarrow> string \<Rightarrow> bool \<times> string" where
  "take_mark m cs = (case cs of [] \<Rightarrow> (False, cs) | c # cs' \<Rightarrow> if c = m then (True, cs') else (False, cs))"

definition cased :: "bool \<Rightarrow> bool \<Rightarrow> string \<Rightarrow> string" where
  "cased upper initial s =
     (let s = (if upper then map upper_char s else s)
      in if initial then map upper_char (take 1 s) @ drop 1 s else s)"

lemma take_mark_length: "length (snd (take_mark m cs)) \<le> length cs"
  by (auto simp: take_mark_def split: list.split)

text \<open>The text behind a percent sign: the field, if there is one, and the rest.\<close>

definition take_code :: "(char \<Rightarrow> string option) \<Rightarrow> string \<Rightarrow> (string \<times> string) option" where
  "take_code f cs =
     (let (upper, cs1) = take_mark (CHR ''^'') cs; (initial, cs2) = take_mark (CHR ''$'') cs1
      in case cs2 of [] \<Rightarrow> None | c # rest \<Rightarrow> map_option (\<lambda>s. (cased upper initial s, rest)) (f c))"

lemma take_code_shorter: "take_code f cs = Some (s, rest) \<Longrightarrow> length rest < length cs"
  using take_mark_length [of "CHR ''^''" cs] take_mark_length [of "CHR ''$''" "snd (take_mark (CHR ''^'') cs)"]
  by (auto simp: take_code_def Let_def split: prod.splits list.splits)

function decode :: "(char \<Rightarrow> string option) \<Rightarrow> string \<Rightarrow> string" where
  "decode f [] = []"
| "decode f (c # cs) =
     (if c \<noteq> CHR ''%'' then c # decode f cs
      else (case take_code f cs of None \<Rightarrow> c # decode f cs | Some (s, rest) \<Rightarrow> s @ decode f rest))"
  by pat_completeness auto
termination
  by (relation "measure (\<lambda>(f, cs). length cs)") (auto dest: take_code_shorter)

definition RDDateDecode :: "string \<Rightarrow> date_parts \<Rightarrow> string" where
  "RDDateDecode str date = decode (date_code date) str"

definition RDDateTimeDecode :: "string \<Rightarrow> date_parts \<Rightarrow> qtime \<Rightarrow> string" where
  "RDDateTimeDecode str date time = decode (time_code date time) str"

end
