(* ===== verification/Catch_State.thy ===== *)
theory Catch_State
  imports Time_Engine Date_Decode Macro_Event Wildcards Cart_Cuts
begin

text \<open>
  The state of the catch daemon, \<open>MainObject\<close> of \<open>rdcatchd/rdcatchd.h\<close>: the scheduled events (\<open>CatchEvent\<close>), the
  record and playout decks, the pool of running macros and the timer engine. What the daemon sends, to its
  clients, to the audio engine, to other hosts and to the database, is the list \<open>cd_out\<close>. The database rows, the
  clock and the calendar are the record \<open>catch_env\<close>; it may differ at every call.
\<close>

section \<open>Events\<close>

datatype rec_type = TypeRecording | TypeMacroEvent | TypeSwitchEvent | TypePlayout | TypeDownload | TypeUpload
datatype rec_start = HardStart | GpiStart
datatype rec_end = HardEnd | GpiEnd | LengthEnd
datatype exit_code = ExitOk | ExitShort | ExitLowLevel | ExitHighLevel | ExitDownloading | ExitUploading | ExitServerError
  | ExitInternalError | ExitInterrupted | ExitRecordActive | ExitPlayActive | ExitWaiting | ExitDeviceBusy | ExitNoCut
  | ExitUnknownFormat
datatype deck_status = DeckOffline | DeckIdle | DeckReady | DeckRecording | DeckWaiting

text \<open>A timer is None where the pointer is NULL, and holds its interval while it runs.\<close>

record catch_event =
  ce_id :: int
  ce_is_active :: bool
  ce_type :: rec_type
  ce_channel :: int
  ce_cut_name :: string
  ce_temp_name :: string
  ce_delete_temp :: bool
  ce_day_of_week :: "int \<Rightarrow> bool"
  ce_start_type :: rec_start
  ce_start_time :: qtime
  ce_start_length :: int
  ce_start_matrix :: int
  ce_start_line :: int
  ce_start_offset :: int
  ce_end_type :: rec_end
  ce_end_time :: qtime
  ce_end_length :: int
  ce_end_matrix :: int
  ce_end_line :: int
  ce_length :: int
  ce_trim_threshold :: int
  ce_startdate_offset :: int
  ce_enddate_offset :: int
  ce_format :: int
  ce_channels :: int
  ce_samplerate :: int
  ce_bitrate :: int
  ce_normalize_level :: int
  ce_macro_cart :: int
  ce_switch_input :: int
  ce_switch_output :: int
  ce_status :: deck_status
  ce_one_shot :: bool
  ce_url :: string
  ce_resolved_url :: string
  ce_allow_multiple :: bool
  ce_max_gpi_length :: int
  ce_description :: string
  ce_eventdate_offset :: int
  ce_start_timer :: "int option option"
  ce_offset_timer :: "int option option"

text \<open>\<open>CatchEvent::clear()\<close>; what it leaves uninitialised is 0 here.\<close>

definition new_catch_event :: catch_event where
  "new_catch_event = \<lparr>ce_id = 0, ce_is_active = False, ce_type = TypeRecording, ce_channel = 0, ce_cut_name = '''',
     ce_temp_name = '''', ce_delete_temp = False, ce_day_of_week = (\<lambda>_. False), ce_start_type = HardStart,
     ce_start_time = 0, ce_start_length = 0, ce_start_matrix = -1, ce_start_line = -1, ce_start_offset = 0,
     ce_end_type = HardEnd, ce_end_time = 0, ce_end_length = 0, ce_end_matrix = -1, ce_end_line = -1, ce_length = 0,
     ce_trim_threshold = 0, ce_startdate_offset = 0, ce_enddate_offset = 0, ce_format = 0, ce_channels = 0,
     ce_samplerate = 0, ce_bitrate = 0, ce_normalize_level = -1, ce_macro_cart = -1, ce_switch_input = -1,
     ce_switch_output = -1, ce_status = DeckIdle, ce_one_shot = False, ce_url = '''', ce_resolved_url = '''',
     ce_allow_multiple = False, ce_max_gpi_length = 0, ce_description = '''', ce_eventdate_offset = 0,
     ce_start_timer = None, ce_offset_timer = None\<rparr>"

definition RDRecording_typeString :: "rec_type \<Rightarrow> string" where
  "RDRecording_typeString ty = (case ty of TypeRecording \<Rightarrow> ''Recording'' | TypeMacroEvent \<Rightarrow> ''Macro Event''
     | TypeSwitchEvent \<Rightarrow> ''Switch Event'' | TypePlayout \<Rightarrow> ''Playout'' | TypeDownload \<Rightarrow> ''Download''
     | TypeUpload \<Rightarrow> ''Upload'')"

definition RDRecording_exitString :: "exit_code \<Rightarrow> string" where
  "RDRecording_exitString code = (case code of ExitOk \<Rightarrow> ''Ok'' | ExitShort \<Rightarrow> ''Short Length'' | ExitLowLevel \<Rightarrow> ''Low Level''
     | ExitHighLevel \<Rightarrow> ''High Level'' | ExitDownloading \<Rightarrow> ''Downloading'' | ExitUploading \<Rightarrow> ''Uploading''
     | ExitServerError \<Rightarrow> ''Server Error'' | ExitInternalError \<Rightarrow> ''Internal Error'' | ExitInterrupted \<Rightarrow> ''Interrupted''
     | ExitRecordActive \<Rightarrow> ''Recording'' | ExitPlayActive \<Rightarrow> ''Playing'' | ExitWaiting \<Rightarrow> ''Waiting''
     | ExitDeviceBusy \<Rightarrow> ''Device Busy'' | ExitNoCut \<Rightarrow> ''No Such Cart/Cut'' | ExitUnknownFormat \<Rightarrow> ''Unknown Audio Format'')"

section \<open>The daemon\<close>

record record_deck =
  rd_status :: bool
  rd_card :: int
  rd_stream :: int
  rd_deck_status :: deck_status
  rd_id :: int
  rd_name :: string
  rd_aborting :: bool
  rd_pending_cartnum :: int
  rd_pending_cutnum :: int
  rd_pending_maxlen :: int
  rd_threshold :: int
  rd_swaddress :: string
  rd_swmatrix :: int
  rd_swoutput :: int
  rd_swdelay :: int
  rd_monitor_port :: int

record playout_deck =
  pd_status :: bool
  pd_card :: int
  pd_stream :: int
  pd_port :: int
  pd_handle :: int
  pd_deck_status :: deck_status
  pd_event_id :: int
  pd_id :: int
  pd_name :: string

text \<open>\<open>BroadcastRE\<close> is the status message of a deck, with a cut name where the code appends one.\<close>

datatype catch_out =
    BroadcastRE int deck_status int "string option"
  | BroadcastPE int
  | ExitCode int exit_code string
  | DeleteRow int
  | LoadRecord int int string int int int int
  | StartRecord int int int
  | StopRecord int int
  | UnloadRecord int int
  | ResetCut string int int int int int int
  | CheckIn string int int int
  | LoadPlay int string
  | SetMixerPort int int int
  | PositionPlay int int
  | StartPlay int int
  | PortActive int int int
  | StopPlay int
  | UnloadPlay int
  | MetersDown int
  | Batch int
  | Rml rdmacro

record catch_daemon =
  cd_events :: "catch_event list"
  cd_rec :: "record_deck list"
  cd_play :: "playout_deck list"
  cd_pool :: "macro_event option list"
  cd_pool_free :: "bool list"
  cd_macro_event_id :: "int list"
  cd_engine :: time_engine
  cd_active_xloads :: "int list"
  cd_xload_timer :: bool
  cd_import_params :: "int list"
  cd_out :: "catch_out list"

definition MAX_DECKS :: nat where "MAX_DECKS = 8"
definition RDCATCHD_MAX_MACROS :: nat where "RDCATCHD_MAX_MACROS = 64"
definition RDCATCHD_ERROR_ID_OFFSET :: int where "RDCATCHD_ERROR_ID_OFFSET = 1000000"
definition RML_ST :: command where "RML_ST = 0x5354"
definition RML_EX :: command where "RML_EX = 0x4558"
definition RML_RS :: command where "RML_RS = 0x5253"
definition RML_RR :: command where "RML_RR = 0x5252"
definition RDCATCHD_DYNAMIC_BASE_ID :: int where "RDCATCHD_DYNAMIC_BASE_ID = 1000000000"

text \<open>The columns of \<open>DECKS\<close> that an event reads, the row of an event in \<open>RECORDINGS\<close> as the event it loads, with
  its timers not made yet, and the address of a macro's host.\<close>

record deck_row =
  dr_card :: int
  dr_port :: int
  dr_address :: string
  dr_matrix :: int
  dr_output :: int
  dr_delay :: int
  dr_monitor :: int

record catch_env =
  cv_now :: qtime
  cv_date :: "int \<Rightarrow> date_parts"
  cv_station_address :: string
  cv_error_rml :: string
  cv_cut_exists :: "string \<Rightarrow> bool"
  cv_deck_active :: "int \<Rightarrow> bool"
  cv_cut_points :: "string \<Rightarrow> (int \<times> int) option"
  cv_cart_macro :: "int \<Rightarrow> bool option"
  cv_cart_macros :: "int \<Rightarrow> string"
  cv_deck_row :: "int \<Rightarrow> deck_row option"
  cv_event_row :: "int \<Rightarrow> catch_event option"
  cv_event_rows :: "catch_event list"
  cv_import_params :: "int list option"
  cv_exit_code :: "int \<Rightarrow> exit_code option"
  cv_load_play :: "int \<Rightarrow> string \<Rightarrow> int \<times> int"
  cv_rml_format :: "int \<Rightarrow> int \<times> int \<times> int"
  cv_samplerate :: int
  cv_temp_name :: "int \<Rightarrow> string"
  cv_exec :: exec_env
  cv_junk :: nat
  cv_junk_text :: string

definition emit :: "catch_out \<Rightarrow> catch_daemon \<Rightarrow> catch_daemon" where
  "emit x c = c\<lparr>cd_out := cd_out c @ [x]\<rparr>"

definition mod_event :: "(catch_event \<Rightarrow> catch_event) \<Rightarrow> int \<Rightarrow> catch_daemon \<Rightarrow> catch_daemon res" where
  "mod_event f i c = res_bind (vec_mod f i (cd_events c)) (\<lambda>es. Inr (c\<lparr>cd_events := es\<rparr>))"

definition mod_rec :: "(record_deck \<Rightarrow> record_deck) \<Rightarrow> int \<Rightarrow> catch_daemon \<Rightarrow> catch_daemon res" where
  "mod_rec f i c = res_bind (vec_mod f i (cd_rec c)) (\<lambda>ds. Inr (c\<lparr>cd_rec := ds\<rparr>))"

definition mod_play :: "(playout_deck \<Rightarrow> playout_deck) \<Rightarrow> int \<Rightarrow> catch_daemon \<Rightarrow> catch_daemon res" where
  "mod_play f i c = res_bind (vec_mod f i (cd_play c)) (\<lambda>ds. Inr (c\<lparr>cd_play := ds\<rparr>))"

fun event_index :: "int \<Rightarrow> catch_event list \<Rightarrow> nat option" where
  "event_index eid [] = None"
| "event_index eid (e # es) = (if ce_id e = eid then Some 0 else map_option Suc (event_index eid es))"

definition GetEvent :: "int \<Rightarrow> catch_daemon \<Rightarrow> int" where
  "GetEvent eid c = (case event_index eid (cd_events c) of None \<Rightarrow> -1 | Some i \<Rightarrow> int i)"

fun record_deck_loop :: "int \<Rightarrow> int \<Rightarrow> int \<Rightarrow> record_deck list \<Rightarrow> int" where
  "record_deck_loop crd strm i [] = -1"
| "record_deck_loop crd strm i (d # ds) =
     (if rd_card d = crd \<and> rd_stream d = strm then i + 1 else record_deck_loop crd strm (i + 1) ds)"

definition GetRecordDeck :: "int \<Rightarrow> int \<Rightarrow> catch_daemon \<Rightarrow> int" where
  "GetRecordDeck crd strm c = record_deck_loop crd strm 0 (cd_rec c)"

fun playout_deck_loop :: "int \<Rightarrow> int \<Rightarrow> playout_deck list \<Rightarrow> int" where
  "playout_deck_loop handle i [] = -1"
| "playout_deck_loop handle i (d # ds) = (if pd_handle d = handle then i + 129 else playout_deck_loop handle (i + 1) ds)"

definition GetPlayoutDeck :: "int \<Rightarrow> catch_daemon \<Rightarrow> int" where
  "GetPlayoutDeck handle c = playout_deck_loop handle 0 (cd_play c)"

end
