(* ===== verification/Catch_Daemon.thy ===== *)
theory Catch_Daemon
  imports Catch_State
begin

text \<open>
  The handlers of the catch daemon, \<open>MainObject\<close> of \<open>rdcatchd/rdcatchd.cpp\<close> and \<open>rdcatchd/local_macros.cpp\<close>: an
  event that comes due, GPI windows, the answers of the audio engine, running macros, and the loading and
  removing of events. An index outside of an array or vector is a fault.
\<close>

section \<open>Removing an event\<close>

text \<open>The vector forgets the event after the engine does.\<close>

definition PurgeEvent :: "catch_env \<Rightarrow> int \<Rightarrow> catch_daemon \<Rightarrow> catch_daemon res" where
  "PurgeEvent env event c =
     res_bind (vec_get (cd_events c) event) (\<lambda>e.
       let c = emit (BroadcastPE (ce_id e)) (emit (DeleteRow (ce_id e)) c)
       in res_bind (RDTimeEngine_removeEvent (cv_now env) (ce_id e) (cd_engine c)) (\<lambda>en.
          res_bind (vec_del event 1 (cd_events c)) (\<lambda>es. Inr (c\<lparr>cd_engine := en, cd_events := es\<rparr>))))"

definition RemoveEvent :: "catch_env \<Rightarrow> int \<Rightarrow> catch_daemon \<Rightarrow> catch_daemon res" where
  "RemoveEvent env eid c =
     (let event = GetEvent eid c
      in if event < 0 then Inr c
         else res_bind (vec_del event 1 (cd_events c)) (\<lambda>es.
              res_bind (RDTimeEngine_removeEvent (cv_now env) eid (cd_engine c)) (\<lambda>en.
                Inr (c\<lparr>cd_events := es, cd_engine := en\<rparr>))))"

section \<open>Macros\<close>

definition GetFreeEvent :: "catch_daemon \<Rightarrow> (nat \<times> catch_daemon) option" where
  "GetFreeEvent c = (case find (\<lambda>i. cd_pool c ! i = None) [0..<length (cd_pool c)] of
     None \<Rightarrow> None | Some i \<Rightarrow> Some (i, c\<lparr>cd_pool_free := (cd_pool_free c)[i := False]\<rparr>))"

text \<open>A macro that ends for an event that is gone returns early and keeps its context.\<close>

definition eventFinishedData :: "catch_env \<Rightarrow> nat \<Rightarrow> catch_daemon \<Rightarrow> catch_daemon res" where
  "eventFinishedData env i c =
     (let eid = cd_macro_event_id c ! i;
          free = (\<lambda>c. Inr (c\<lparr>cd_macro_event_id := (cd_macro_event_id c)[i := -1], cd_pool_free := (cd_pool_free c)[i := True]\<rparr>))
      in if eid \<ge> 0 then
           if eid < RDCATCHD_ERROR_ID_OFFSET then
             (let event = GetEvent eid c
              in if event < 0 then Inr c
                 else res_bind (vec_get (cd_events c) event) (\<lambda>e.
                      res_bind (mod_event (\<lambda>e. e\<lparr>ce_status := DeckIdle\<rparr>) event c) (\<lambda>c.
                        let c = emit (BroadcastRE 0 DeckIdle eid None) c
                        in res_bind (if ce_one_shot e then PurgeEvent env event c else Inr c) free)))
           else free c
         else Inr (c\<lparr>cd_pool_free := (cd_pool_free c)[i := True]\<rparr>))"

fun pool_signals :: "catch_env \<Rightarrow> nat \<Rightarrow> signal list \<Rightarrow> catch_daemon \<Rightarrow> catch_daemon res" where
  "pool_signals env i [] c = Inr c"
| "pool_signals env i (x # xs) c =
     res_bind (case x of signal.Finished \<Rightarrow> eventFinishedData env i c | SendRml m \<Rightarrow> Inr (emit (Rml m) c) | _ \<Rightarrow> Inr c)
       (pool_signals env i xs)"

definition run_pool :: "catch_env \<Rightarrow> nat \<Rightarrow> string \<Rightarrow> catch_daemon \<Rightarrow> catch_daemon res" where
  "run_pool env i text c =
     res_bind (RDMacroEvent_load text (RDMacroEvent_new (cv_station_address env) True (cv_junk env))) (\<lambda>(ok, ev).
     res_bind (RDMacroEvent_exec (cv_exec env) ev) (\<lambda>(ev, out).
       pool_signals env i out (c\<lparr>cd_pool := (cd_pool c)[i := Some ev]\<rparr>)))"

text \<open>The timer of a sleeping macro, and the deletion of the finished ones.\<close>

definition pool_timer :: "catch_env \<Rightarrow> nat \<Rightarrow> catch_daemon \<Rightarrow> catch_daemon res" where
  "pool_timer env i c = (case cd_pool c ! i of
     None \<Rightarrow> Inr c
   | Some ev \<Rightarrow> res_bind (timer_fires (cv_exec env) ev) (\<lambda>(ev, out).
       pool_signals env i out (c\<lparr>cd_pool := (cd_pool c)[i := Some ev]\<rparr>)))"

definition freeEventsData :: "catch_daemon \<Rightarrow> catch_daemon" where
  "freeEventsData c = c\<lparr>cd_pool := map2 (\<lambda>ev b. if b then None else ev) (cd_pool c) (cd_pool_free c)\<rparr>"

text \<open>Event and ID are -1 for a macro that belongs to no event.\<close>

definition ExecuteMacroCart :: "catch_env \<Rightarrow> string \<Rightarrow> int \<Rightarrow> int \<Rightarrow> catch_daemon \<Rightarrow> (bool \<times> catch_daemon) res" where
  "ExecuteMacroCart env macros eid event c =
     (case GetFreeEvent c of
        None \<Rightarrow> Inr (False, c)
      | Some (i, c) \<Rightarrow>
          res_bind (if event \<noteq> -1 then mod_event (\<lambda>e. e\<lparr>ce_status := DeckRecording\<rparr>) event c else Inr c) (\<lambda>c.
            let c = (if eid \<noteq> -1 then emit (BroadcastRE 0 DeckRecording eid None) c else c);
                c = c\<lparr>cd_macro_event_id := (cd_macro_event_id c)[i := eid]\<rparr>
            in res_bind (run_pool env i macros c) (\<lambda>c. Inr (True, c))))"

definition clock_text :: "qtime \<Rightarrow> string" where
  "clock_text t = pad_nat 2 (nat (qtime_hour t)) @ '':'' @ pad_nat 2 (nat (qtime_minute t)) @ '':''
     @ pad_nat 2 (nat (qtime_second t))"

definition ResolveErrorWildcards :: "catch_event \<Rightarrow> string \<Rightarrow> string \<Rightarrow> string" where
  "ResolveErrorWildcards e err_desc rml =
     (let cut = qs_left 6 (ce_cut_name e);
          (k, n, u) = (case ce_type e of
             TypeRecording \<Rightarrow> (string_of_int (ce_channel e), cut, ''n/a'')
           | TypePlayout \<Rightarrow> (string_of_int (ce_channel e - 128), cut, ''n/a'')
           | TypeUpload \<Rightarrow> (''n/a'', cut, ce_resolved_url e)
           | TypeDownload \<Rightarrow> (''n/a'', cut, ce_resolved_url e)
           | TypeMacroEvent \<Rightarrow> (''n/a'', pad_nat 6 (nat (ce_macro_cart e mod 2 ^ 32)), ''n/a'')
           | TypeSwitchEvent \<Rightarrow> (''n/a'', ''n/a'', ''n/a''))
      in foldl (\<lambda>s (code, t). qs_replace code t s) rml
           [(''%d'', ce_description e), (''%e'', err_desc), (''%i'', string_of_int (ce_id e)),
            (''%t'', clock_text (ce_start_time e)), (''%y'', RDRecording_typeString (ce_type e)),
            (''%k'', k), (''%n'', n), (''%u'', u)])"

text \<open>Without a free context the code goes on with the index -1.\<close>

definition SendErrorMessage :: "catch_env \<Rightarrow> catch_event \<Rightarrow> string \<Rightarrow> string \<Rightarrow> catch_daemon \<Rightarrow> catch_daemon res" where
  "SendErrorMessage env e err_desc rml c =
     (if rml = '''' then Inr c
      else (case GetFreeEvent c of
              None \<Rightarrow> Inl OutOfRange
            | Some (i, c) \<Rightarrow> run_pool env i (ResolveErrorWildcards e err_desc rml)
                (c\<lparr>cd_macro_event_id := (cd_macro_event_id c)[i := ce_id e + RDCATCHD_ERROR_ID_OFFSET]\<rparr>)))"

definition WriteExitCode :: "catch_env \<Rightarrow> int \<Rightarrow> exit_code \<Rightarrow> string \<Rightarrow> catch_daemon \<Rightarrow> catch_daemon res" where
  "WriteExitCode env event code err_text c =
     res_bind (vec_get (cd_events c) event) (\<lambda>e.
       let c = emit (ExitCode (ce_id e) code err_text) c
       in if code \<in> {ExitOk, ExitDownloading, ExitUploading, ExitRecordActive, ExitPlayActive, ExitWaiting} then Inr c
          else if code \<in> {ExitServerError, ExitInternalError}
          then SendErrorMessage env e (RDRecording_exitString code @ '': '' @ err_text) (cv_error_rml env) c
          else SendErrorMessage env e (RDRecording_exitString code) (cv_error_rml env) c)"

definition WriteExitCodeById :: "int \<Rightarrow> exit_code \<Rightarrow> string \<Rightarrow> catch_daemon \<Rightarrow> catch_daemon" where
  "WriteExitCodeById eid code err_text c = emit (ExitCode eid code err_text) c"

section \<open>Starting events\<close>

text \<open>The switcher command of a recording or a switch event.\<close>

definition switch_macro :: "string \<Rightarrow> int \<Rightarrow> int \<Rightarrow> int \<Rightarrow> rdmacro res" where
  "switch_macro addr matrix input output =
     (let m = new_rdmacro\<lparr>rml_role := RoleCmd, rml_addr := addr, rml_echo_requested := False, rml_cmd := RML_ST,
                rml_arg_quantity := 3\<rparr>
      in res_bind (RDMacro_setArg 0 (QNumber matrix) m) (\<lambda>m.
         res_bind (RDMacro_setArg 1 (QNumber input) m) (RDMacro_setArg 2 (QNumber output))))"

definition record_length :: "qtime \<Rightarrow> catch_event \<Rightarrow> int" where
  "record_length now e = (case ce_end_type e of
     LengthEnd \<Rightarrow> ce_length e
   | HardEnd \<Rightarrow> qtime_msecsTo now (ce_end_time e)
   | GpiEnd \<Rightarrow> (let n = qtime_msecsTo now (qtime_addMSecs (ce_end_time e) (ce_end_length e))
               in if ce_max_gpi_length e < n then ce_max_gpi_length e else n))"

definition send_switch :: "catch_env \<Rightarrow> record_deck \<Rightarrow> catch_event \<Rightarrow> catch_daemon \<Rightarrow> catch_daemon res" where
  "send_switch env d e c =
     (if rd_swaddress d = '''' then Inr c
      else res_bind (switch_macro (rd_swaddress d) (rd_swmatrix d) (ce_switch_input e) (rd_swoutput d)) (\<lambda>m.
           res_bind (RDMacro_generateString (cv_junk_text env) (int RD_RML_MAX_LENGTH) m) (\<lambda>(n, _).
             Inr (if n \<noteq> 0 then emit (Rml m) c else c))))"

definition start_deck :: "catch_env \<Rightarrow> int \<Rightarrow> catch_event \<Rightarrow> record_deck \<Rightarrow> catch_daemon \<Rightarrow> catch_daemon res" where
  "start_deck env event e d c =
     res_bind (send_switch env d e c) (\<lambda>c.
       let normal = (ce_normalize_level e = 0);
           cut_name = (if normal then ce_cut_name e else ''rdcatchd-record-'' @ string_of_int (ce_id e));
           format = (if normal then ce_format e else 0)
       in res_bind (mod_event (\<lambda>e. (if normal then e else e\<lparr>ce_temp_name := cv_temp_name env (ce_id e), ce_delete_temp := True\<rparr>)
                        \<lparr>ce_status := DeckRecording\<rparr>) event c) (\<lambda>c.
          let c = emit (LoadRecord (rd_card d) (rd_stream d) cut_name format (ce_channels e) (ce_samplerate e) (ce_bitrate e)) c;
              c = emit (StartRecord (rd_card d) (rd_stream d) (record_length (cv_now env) e)) c
          in res_bind (mod_rec (\<lambda>d. d\<lparr>rd_name := ce_cut_name e, rd_threshold := ce_trim_threshold e, rd_id := ce_id e\<rparr>)
                         (ce_channel e - 1) c) (\<lambda>c.
               Inr (emit (ResetCut (ce_cut_name e) (if ce_format e = 2 then 1 else 0) (ce_channels e) (ce_samplerate e)
                       (ce_bitrate e) (ce_startdate_offset e) (ce_enddate_offset e)) c))))"

definition StartRecording :: "catch_env \<Rightarrow> int \<Rightarrow> catch_daemon \<Rightarrow> (bool \<times> catch_daemon) res" where
  "StartRecording env event c =
     (if event < 0 \<or> event \<ge> int (length (cd_events c)) then Inr (False, c)
      else res_bind (vec_get (cd_events c) event) (\<lambda>e.
           res_bind (vec_get (cd_rec c) (ce_channel e - 1)) (\<lambda>d.
             let refuse = (\<lambda>code. emit (BroadcastRE (ce_channel e) (rd_deck_status d) (ce_id e) None)
                            (WriteExitCodeById (ce_id e) code '''' c))
             in if rd_card d < 0 \<or> rd_stream d < 0 then Inr (False, refuse ExitInternalError)
                else if rd_deck_status d \<notin> {DeckIdle, DeckWaiting} then Inr (False, refuse ExitDeviceBusy)
                else res_bind (start_deck env event e d c) (\<lambda>c. Inr (True, c)))))"

definition StartPlayout :: "catch_env \<Rightarrow> int \<Rightarrow> catch_daemon \<Rightarrow> catch_daemon res" where
  "StartPlayout env event c =
     res_bind (vec_get (cd_events c) event) (\<lambda>e.
     res_bind (vec_get (cd_play c) (ce_channel e - 129)) (\<lambda>d.
       if pd_card d < 0 then Inr c
       else (case cv_cut_points env (ce_cut_name e) of
          None \<Rightarrow> Inr c
        | Some (start, end_pos) \<Rightarrow>
            let (strm, handle) = cv_load_play env (pd_card d) (ce_cut_name e);
                c = foldl (\<lambda>c x. emit x c) c [LoadPlay (pd_card d) (ce_cut_name e), SetMixerPort (pd_card d) strm (pd_port d),
                      PositionPlay handle start, StartPlay handle (end_pos - start), PortActive (pd_card d) (pd_port d) strm]
            in res_bind (mod_event (\<lambda>e. e\<lparr>ce_status := DeckRecording\<rparr>) event c)
                 (mod_play (\<lambda>d. d\<lparr>pd_stream := strm, pd_handle := handle, pd_name := ce_cut_name e, pd_event_id := event\<rparr>)
                    (ce_channel e - 129)))))"

definition StartMacroEvent :: "catch_env \<Rightarrow> int \<Rightarrow> catch_daemon \<Rightarrow> catch_daemon res" where
  "StartMacroEvent env event c =
     res_bind (vec_get (cd_events c) event) (\<lambda>e.
       if cv_cart_macro env (ce_macro_cart e) = Some True
       then res_bind (ExecuteMacroCart env (cv_cart_macros env (ce_macro_cart e)) (ce_id e) event c) (\<lambda>(_, c). Inr c)
       else Inr c)"

definition StartSwitchEvent :: "catch_env \<Rightarrow> int \<Rightarrow> catch_daemon \<Rightarrow> catch_daemon res" where
  "StartSwitchEvent env event c =
     res_bind (vec_get (cd_events c) event) (\<lambda>e.
     res_bind (switch_macro (cv_station_address env) (ce_channel e) (ce_switch_input e) (ce_switch_output e)) (\<lambda>m.
     res_bind (RDMacro_generateString (cv_junk_text env) (int RD_RML_MAX_LENGTH) m) (\<lambda>_.
       let c = emit (Rml m) c
       in if ce_one_shot e then PurgeEvent env event c else Inr c)))"

definition start_xload :: "catch_env \<Rightarrow> exit_code \<Rightarrow> int \<Rightarrow> catch_daemon \<Rightarrow> catch_daemon res" where
  "start_xload env code event c =
     res_bind (WriteExitCode env event code '''' c) (\<lambda>c.
       let c = c\<lparr>cd_active_xloads := cd_active_xloads c @ [event], cd_xload_timer := True\<rparr>
       in res_bind (vec_get (cd_events c) event) (\<lambda>e.
            Inr (emit (Batch (ce_id e)) (emit (BroadcastRE 0 DeckRecording (ce_id e) None) c))))"

definition StartDownloadEvent :: "catch_env \<Rightarrow> int \<Rightarrow> catch_daemon \<Rightarrow> catch_daemon res" where
  "StartDownloadEvent env event c = start_xload env ExitDownloading event c"

definition StartUploadEvent :: "catch_env \<Rightarrow> int \<Rightarrow> catch_daemon \<Rightarrow> catch_daemon res" where
  "StartUploadEvent env event c = start_xload env ExitUploading event c"

end
