(* ===== verification/Catch_Handlers.thy ===== *)
theory Catch_Handlers
  imports Catch_Daemon
begin

text \<open>
  What drives the catch daemon, \<open>rdcatchd/rdcatchd.cpp\<close> and \<open>rdcatchd/local_macros.cpp\<close>: an event that comes due,
  GPI lines and their windows, the answers of the audio engine, the transfers, the loading and changing of the
  schedule, and the macro commands the daemon obeys.
\<close>

section \<open>An event comes due\<close>

text \<open>The day counts from today; with an offset the timer may run on into tomorrow.\<close>

definition effective_day :: "catch_env \<Rightarrow> catch_daemon \<Rightarrow> int" where
  "effective_day env c = (if qtime_msecsTo (cv_now env) 86399000 + 1000 < engine_time_offset (cd_engine c) then 1 else 0)"

definition no_cut :: "catch_env \<Rightarrow> int \<Rightarrow> catch_event \<Rightarrow> int \<Rightarrow> (catch_daemon \<Rightarrow> deck_status res) \<Rightarrow> catch_daemon
    \<Rightarrow> catch_daemon res" where
  "no_cut env event e chan st c =
     res_bind (WriteExitCode env event ExitNoCut '''' c) (\<lambda>c.
     res_bind (st c) (\<lambda>s. Inr (emit (BroadcastRE chan s (ce_id e) None) c)))"

definition record_status_of :: "int \<Rightarrow> catch_daemon \<Rightarrow> deck_status res" where
  "record_status_of i c = res_bind (vec_get (cd_rec c) i) (\<lambda>d. Inr (rd_deck_status d))"

definition playout_status_of :: "int \<Rightarrow> catch_daemon \<Rightarrow> deck_status res" where
  "playout_status_of i c = res_bind (vec_get (cd_play c) i) (\<lambda>d. Inr (pd_deck_status d))"

definition open_window :: "catch_env \<Rightarrow> int \<Rightarrow> catch_event \<Rightarrow> catch_daemon \<Rightarrow> catch_daemon res" where
  "open_window env event e c =
     res_bind (of_ptr (ce_start_timer e)) (\<lambda>_.
     res_bind (mod_event (\<lambda>e. e\<lparr>ce_start_timer := Some (Some (ce_start_length e - (cv_now env - ce_start_time e))),
                 ce_status := DeckWaiting\<rparr>) event c) (\<lambda>c.
     res_bind (mod_rec (\<lambda>d. d\<lparr>rd_deck_status := DeckWaiting, rd_id := ce_id e\<rparr>) (ce_channel e - 1) c) (\<lambda>c.
     res_bind (WriteExitCode env event ExitWaiting '''' c) (\<lambda>c.
       Inr (emit (BroadcastRE (ce_channel e) DeckWaiting (ce_id e) None) c)))))"

definition due_recording :: "catch_env \<Rightarrow> int \<Rightarrow> catch_event \<Rightarrow> catch_daemon \<Rightarrow> catch_daemon res" where
  "due_recording env event e c =
     (if \<not> cv_cut_exists env (ce_cut_name e)
      then no_cut env event e (ce_channel e) (record_status_of (ce_channel e - 1)) c
      else res_bind (mod_rec (\<lambda>d. d\<lparr>rd_card := -1, rd_stream := -1\<rparr>) (ce_channel e - 1) c) (\<lambda>c.
        case cv_deck_row env (ce_channel e) of
          None \<Rightarrow> Inr c
        | Some r \<Rightarrow>
            res_bind (mod_rec (\<lambda>d. d\<lparr>rd_card := dr_card r, rd_stream := dr_port r, rd_swaddress := dr_address r,
                        rd_swmatrix := dr_matrix r, rd_swoutput := dr_output r, rd_swdelay := dr_delay r\<rparr>)
                        (ce_channel e - 1) c) (\<lambda>c.
              case ce_start_type e of
                HardStart \<Rightarrow> res_bind (StartRecording env event c) (\<lambda>(_, c). Inr c)
              | GpiStart \<Rightarrow> open_window env event e c)))"

definition due_playout :: "catch_env \<Rightarrow> int \<Rightarrow> catch_event \<Rightarrow> catch_daemon \<Rightarrow> catch_daemon res" where
  "due_playout env event e c =
     (if \<not> cv_cut_exists env (ce_cut_name e)
      then no_cut env event e (ce_channel e) (playout_status_of (ce_channel e - 129)) c
      else res_bind (mod_play (\<lambda>d. d\<lparr>pd_card := -1, pd_stream := -1\<rparr>) (ce_channel e - 129) c) (\<lambda>c.
        case cv_deck_row env (ce_channel e) of
          None \<Rightarrow> Inr c
        | Some r \<Rightarrow>
            res_bind (mod_play (\<lambda>d. d\<lparr>pd_id := ce_id e, pd_card := dr_card r, pd_stream := dr_port r,
                        pd_port := dr_port r\<rparr>) (ce_channel e - 129) c) (StartPlayout env event)))"

definition due_download :: "catch_env \<Rightarrow> int \<Rightarrow> catch_event \<Rightarrow> catch_daemon \<Rightarrow> catch_daemon res" where
  "due_download env event e c =
     (if \<not> cv_cut_exists env (ce_cut_name e) then no_cut env event e 0 (\<lambda>_. Inr DeckOffline) c
      else (case cv_import_params env of
          None \<Rightarrow> Inr c
        | Some ps \<Rightarrow>
            res_bind (mod_event (\<lambda>e. e\<lparr>ce_resolved_url := RDDateTimeDecode (ce_url e)
                        (cv_date env (effective_day env c + ce_eventdate_offset e)) (cv_now env)\<rparr>) event
                        (c\<lparr>cd_import_params := ps\<rparr>)) (StartDownloadEvent env event)))"

definition engineData :: "catch_env \<Rightarrow> int \<Rightarrow> catch_daemon \<Rightarrow> catch_daemon res" where
  "engineData env eid c =
     (let event = GetEvent eid c
      in if event < 0 then Inr c
         else res_bind (vec_get (cd_events c) event) (\<lambda>e.
           if \<not> ce_is_active e \<or> \<not> ce_day_of_week e (dp_dow (cv_date env (effective_day env c))) then Inr c
           else (case ce_type e of
             TypeRecording \<Rightarrow> due_recording env event e c
           | TypePlayout \<Rightarrow>
               res_bind (playout_status_of (ce_channel e - 129) c) (\<lambda>s.
                 if s \<noteq> DeckIdle
                 then res_bind (WriteExitCode env event ExitDeviceBusy '''' c) (\<lambda>c.
                        Inr (emit (BroadcastRE 0 DeckRecording (ce_id e) (Some (ce_cut_name e))) c))
                 else due_playout env event e c)
           | TypeMacroEvent \<Rightarrow>
               if cv_cart_macro env (ce_macro_cart e) = None then no_cut env event e 0 (\<lambda>_. Inr DeckOffline) c
               else StartMacroEvent env event c
           | TypeSwitchEvent \<Rightarrow> StartSwitchEvent env event c
           | TypeDownload \<Rightarrow> due_download env event e c
           | TypeUpload \<Rightarrow>
               if \<not> cv_cut_exists env (ce_cut_name e) then no_cut env event e 0 (\<lambda>_. Inr DeckOffline) c
               else StartUploadEvent env event c)))"

text \<open>The timer: \<open>EmitEvents\<close> with the daemon as the receiver, then the timer is armed again.\<close>

fun fire_loop :: "catch_env \<Rightarrow> nat \<Rightarrow> nat \<Rightarrow> catch_daemon \<Rightarrow> catch_daemon res" where
  "fire_loop env offset 0 c = Inr c"
| "fire_loop env offset (Suc i) c =
     (let evs = engine_events (cd_engine c)
      in if offset < length evs \<and> i < length (event_id (evs ! offset))
         then res_bind (engineData env (event_id (evs ! offset) ! i) c) (fire_loop env offset i)
         else Inl OutOfRange)"

definition engine_timeout :: "catch_env \<Rightarrow> catch_daemon \<Rightarrow> catch_daemon res" where
  "engine_timeout env c =
     (case pending_slot (engine_pending_id (cd_engine c)) (engine_events (cd_engine c)) of
        None \<Rightarrow> Inr c
      | Some i \<Rightarrow> res_bind (fire_loop env i (length (event_id (engine_events (cd_engine c) ! i))) c) (\<lambda>c.
          res_bind (RDTimeEngine_SetTimer (cv_now env) (cd_engine c)) (\<lambda>en. Inr (c\<lparr>cd_engine := en\<rparr>))))"

section \<open>GPI lines\<close>

definition gpi_start :: "catch_env \<Rightarrow> int \<Rightarrow> int \<Rightarrow> nat \<Rightarrow> catch_daemon \<Rightarrow> (bool \<times> catch_daemon) res" where
  "gpi_start env matrix line i c =
     res_bind (vec_get (cd_events c) (int i)) (\<lambda>e.
       if ce_start_type e = GpiStart \<and> ce_start_matrix e = matrix \<and> ce_start_line e = line + 1
       then res_bind (of_ptr (ce_start_timer e)) (\<lambda>running.
         if running = None then Inr (False, c)
         else if ce_start_offset e > 0
         then res_bind (of_ptr (ce_offset_timer e)) (\<lambda>_.
              res_bind (mod_event (\<lambda>e. e\<lparr>ce_offset_timer := Some (Some (ce_start_offset e)), ce_start_timer := Some None\<rparr>)
                          (int i) c) (\<lambda>c.
                Inr (True, emit (BroadcastRE (ce_channel e) DeckReady (ce_id e) None) c)))
         else res_bind (StartRecording env (int i) c) (\<lambda>(ok, c).
              res_bind (if ok then mod_event (\<lambda>e. e\<lparr>ce_start_timer := Some None\<rparr>) (int i) c else Inr c) (\<lambda>c. Inr (True, c))))
       else Inr (False, c))"

fun gpi_start_loop :: "catch_env \<Rightarrow> int \<Rightarrow> int \<Rightarrow> nat list \<Rightarrow> catch_daemon \<times> nat list \<Rightarrow> (catch_daemon \<times> nat list) res" where
  "gpi_start_loop env matrix line [] st = Inr st"
| "gpi_start_loop env matrix line (i # is) (c, handled) =
     res_bind (gpi_start env matrix line i c) (\<lambda>(h, c).
       gpi_start_loop env matrix line is (c, if h then handled @ [i] else handled))"

text \<open>The end of a recording by GPI is not asked which event the deck records.\<close>

fun gpi_end_loop :: "catch_env \<Rightarrow> int \<Rightarrow> int \<Rightarrow> nat list \<Rightarrow> nat list \<Rightarrow> catch_daemon \<Rightarrow> catch_daemon res" where
  "gpi_end_loop env matrix line handled [] c = Inr c"
| "gpi_end_loop env matrix line handled (i # is) c =
     res_bind (vec_get (cd_events c) (int i)) (\<lambda>e.
       res_bind (if ce_end_type e = GpiEnd \<and> ce_end_matrix e = matrix \<and> ce_end_line e = line + 1
                    \<and> ce_end_time e \<le> cv_now env \<and> qtime_addMSecs (ce_end_time e) (ce_end_length e) > cv_now env
                    \<and> i \<notin> set handled
                 then res_bind (vec_get (cd_rec c) (ce_channel e - 1)) (\<lambda>d. Inr (emit (StopRecord (rd_card d) (rd_stream d)) c))
                 else Inr c)
         (gpi_end_loop env matrix line handled is))"

definition gpiStateChangedData :: "catch_env \<Rightarrow> int \<Rightarrow> int \<Rightarrow> bool \<Rightarrow> catch_daemon \<Rightarrow> catch_daemon res" where
  "gpiStateChangedData env matrix line state c =
     (if \<not> state then Inr c
      else res_bind (gpi_start_loop env matrix line [0..<length (cd_events c)] (c, [])) (\<lambda>(c, handled).
           gpi_end_loop env matrix line handled [0..<length (cd_events c)] c))"

text \<open>The window closes. The event is looked up, but not found is not tested.\<close>

definition startTimerData :: "int \<Rightarrow> catch_daemon \<Rightarrow> catch_daemon res" where
  "startTimerData eid c =
     (let event = GetEvent eid c
      in res_bind (vec_get (cd_events c) event) (\<lambda>e.
         res_bind (mod_event (\<lambda>e. e\<lparr>ce_status := DeckIdle\<rparr>) event c) (\<lambda>c.
         res_bind (mod_rec (\<lambda>d. d\<lparr>rd_deck_status := DeckIdle, rd_id := 0\<rparr>) (ce_channel e - 1)
                     (WriteExitCodeById eid ExitOk '''' c)) (\<lambda>c.
           Inr (emit (BroadcastRE (ce_channel e) DeckIdle eid None) c)))))"

definition offsetTimerData :: "catch_env \<Rightarrow> int \<Rightarrow> catch_daemon \<Rightarrow> catch_daemon res" where
  "offsetTimerData env eid c =
     (let event = GetEvent eid c
      in res_bind (StartRecording env event c) (\<lambda>(ok, c).
           if ok
           then res_bind (vec_get (cd_events c) event) (\<lambda>e. res_bind (of_ptr (ce_start_timer e)) (\<lambda>_.
                  mod_event (\<lambda>e. e\<lparr>ce_start_timer := Some None\<rparr>) event c))
           else Inr c))"

section \<open>Recordings by macro\<close>

fun next_id_loop :: "catch_event list \<Rightarrow> catch_event list \<Rightarrow> int \<Rightarrow> int res" where
  "next_id_loop all [] i = Inr i"
| "next_id_loop all (e # es) i =
     (if ce_id e \<ge> i then res_bind (vec_get all i) (\<lambda>e'. next_id_loop all es (ce_id e' + 1)) else next_id_loop all es i)"

text \<open>The vector is indexed with the ID it looks for.\<close>

definition GetNextDynamicId :: "catch_daemon \<Rightarrow> int res" where
  "GetNextDynamicId c = next_id_loop (cd_events c) (cd_events c) RDCATCHD_DYNAMIC_BASE_ID"

definition StartRmlRecording :: "catch_env \<Rightarrow> int \<Rightarrow> int \<Rightarrow> int \<Rightarrow> int \<Rightarrow> catch_daemon \<Rightarrow> catch_daemon res" where
  "StartRmlRecording env chan cartnum cutnum maxlen c =
     (let c = c\<lparr>cd_events := cd_events c @ [new_catch_event]\<rparr>;
          (format, chans, bitrate) = cv_rml_format env chan;
          dow = dp_dow (cv_date env 0)
      in res_bind (GetNextDynamicId c) (\<lambda>eid.
         res_bind (mod_event (\<lambda>e. e\<lparr>ce_id := eid, ce_is_active := True, ce_one_shot := True, ce_type := TypeRecording,
                     ce_channel := chan, ce_cut_name := RDCut_cutName (nat cartnum) (nat cutnum),
                     ce_day_of_week := (ce_day_of_week e)(dow := True), ce_start_time := cv_now env,
                     ce_end_type := LengthEnd, ce_length := maxlen, ce_format := format, ce_channels := chans,
                     ce_samplerate := cv_samplerate env, ce_bitrate := bitrate, ce_normalize_level := 0\<rparr>)
                     (int (length (cd_events c)) - 1) c) (\<lambda>c.
         res_bind (StartRecording env (int (length (cd_events c)) - 1) c) (\<lambda>(_, c). Inr c))))"

definition RunRmlRecordingCache :: "catch_env \<Rightarrow> int \<Rightarrow> catch_daemon \<Rightarrow> catch_daemon res" where
  "RunRmlRecordingCache env chan c =
     res_bind (vec_get (cd_rec c) (chan - 1)) (\<lambda>d.
       if rd_pending_cartnum d = 0 then Inr c
       else res_bind (StartRmlRecording env chan (rd_pending_cartnum d) (rd_pending_cutnum d) (rd_pending_maxlen d) c)
              (mod_rec (\<lambda>d. d\<lparr>rd_pending_cartnum := 0\<rparr>) (chan - 1)))"

section \<open>The answers of the audio engine\<close>

definition recordLoadedData :: "int \<Rightarrow> int \<Rightarrow> catch_daemon \<Rightarrow> catch_daemon res" where
  "recordLoadedData crd strm c =
     (let deck = GetRecordDeck crd strm c
      in res_bind (mod_rec (\<lambda>d. d\<lparr>rd_deck_status := DeckReady\<rparr>) (deck - 1) c) (\<lambda>c.
         res_bind (vec_get (cd_rec c) (deck - 1)) (\<lambda>d. Inr (emit (BroadcastRE deck DeckReady (rd_id d) None) c))))"

definition recordingData :: "int \<Rightarrow> int \<Rightarrow> catch_daemon \<Rightarrow> catch_daemon res" where
  "recordingData crd strm c =
     (let deck = GetRecordDeck crd strm c
      in res_bind (vec_get (cd_rec c) (deck - 1)) (\<lambda>d.
           let c = WriteExitCodeById (rd_id d) ExitRecordActive '''' c;
               event = GetEvent (rd_id d) c;
               cut_name = (if event \<ge> 0 then ce_cut_name (cd_events c ! nat event) else '''')
           in mod_rec (\<lambda>d. d\<lparr>rd_deck_status := DeckRecording, rd_status := True\<rparr>) (deck - 1)
                (emit (BroadcastRE deck DeckRecording (rd_id d) (Some cut_name)) c)))"

definition recordStoppedData :: "int \<Rightarrow> int \<Rightarrow> catch_daemon \<Rightarrow> catch_daemon res" where
  "recordStoppedData crd strm c =
     (let deck = GetRecordDeck crd strm c
      in res_bind (mod_rec (\<lambda>d. d\<lparr>rd_status := False\<rparr>) (deck - 1) c) (\<lambda>c.
           Inr (emit (UnloadRecord crd strm) (emit (MetersDown (deck - 1)) c))))"

definition restarts :: "catch_event \<Rightarrow> bool" where
  "restarts e \<longleftrightarrow> ce_type e = TypeRecording \<and> ce_start_type e = GpiStart \<and> ce_end_type e \<in> {GpiEnd, LengthEnd}
     \<and> ce_allow_multiple e"

text \<open>\<open>catch_events[event]\<close> is used again behind \<open>PurgeEvent\<close>.\<close>

definition recordUnloadedData :: "catch_env \<Rightarrow> int \<Rightarrow> int \<Rightarrow> int \<Rightarrow> catch_daemon \<Rightarrow> catch_daemon res" where
  "recordUnloadedData env crd strm msecs c =
     (let deck = GetRecordDeck crd strm c
      in if deck < 1 then Inr c
         else res_bind (vec_get (cd_rec c) (deck - 1)) (\<lambda>d.
           let event = GetEvent (rd_id d) c
           in if event < 0
              then res_bind (mod_rec (\<lambda>d. d\<lparr>rd_deck_status := DeckIdle, rd_aborting := False\<rparr>) (deck - 1) c)
                     (RunRmlRecordingCache env deck)
              else res_bind (vec_get (cd_events c) event) (\<lambda>e.
                let c = emit (if ce_normalize_level e = 0 then CheckIn (rd_name d) (ce_format e) msecs (rd_threshold d)
                              else Batch (ce_id e)) c;
                    c = WriteExitCodeById (rd_id d) (if rd_aborting d then ExitInterrupted else ExitOk) '''' c;
                    c = emit (BroadcastRE deck DeckIdle (rd_id d) None) c
                in res_bind (mod_rec (\<lambda>d. d\<lparr>rd_id := 0\<rparr>) (deck - 1) c) (\<lambda>c.
                   res_bind (if ce_one_shot e then PurgeEvent env event c else Inr c) (\<lambda>c.
                   res_bind (mod_rec (\<lambda>d. d\<lparr>rd_deck_status := DeckIdle\<rparr>) (deck - 1) c) (\<lambda>c.
                   res_bind (mod_event (\<lambda>e. e\<lparr>ce_status := DeckIdle\<rparr>) event c) (\<lambda>c.
                   res_bind (mod_rec (\<lambda>d. d\<lparr>rd_aborting := False\<rparr>) (deck - 1) c) (\<lambda>c.
                   res_bind (vec_get (cd_events c) event) (\<lambda>e.
                     if restarts e then engineData env (ce_id e) c else RunRmlRecordingCache env deck c))))))))) "

definition playLoadedData :: "int \<Rightarrow> catch_daemon \<Rightarrow> catch_daemon res" where
  "playLoadedData handle c =
     (let deck = GetPlayoutDeck handle c
      in res_bind (mod_play (\<lambda>d. d\<lparr>pd_deck_status := DeckReady\<rparr>) (deck - 129) c) (\<lambda>c.
         res_bind (vec_get (cd_play c) (deck - 129)) (\<lambda>d. Inr (emit (BroadcastRE deck DeckReady (pd_id d) None) c))))"

text \<open>The last store takes the number of the deck for its index.\<close>

definition playingData :: "int \<Rightarrow> catch_daemon \<Rightarrow> catch_daemon res" where
  "playingData handle c =
     (let deck = GetPlayoutDeck handle c
      in res_bind (mod_play (\<lambda>d. d\<lparr>pd_deck_status := DeckRecording\<rparr>) (deck - 129) c) (\<lambda>c.
         res_bind (vec_get (cd_play c) (deck - 129)) (\<lambda>d.
           mod_play (\<lambda>d. d\<lparr>pd_status := True\<rparr>) (GetPlayoutDeck handle c)
             (emit (BroadcastRE deck DeckRecording (pd_id d) None) (WriteExitCodeById (pd_id d) ExitPlayActive '''' c)))))"

definition playStoppedData :: "int \<Rightarrow> catch_daemon \<Rightarrow> catch_daemon res" where
  "playStoppedData handle c =
     (let deck = GetPlayoutDeck handle c
      in res_bind (mod_play (\<lambda>d. d\<lparr>pd_status := False\<rparr>) (deck - 129) c) (\<lambda>c.
           Inr (emit (UnloadPlay handle) (emit (MetersDown deck) c))))"

definition playUnloadedData :: "catch_env \<Rightarrow> int \<Rightarrow> catch_daemon \<Rightarrow> catch_daemon res" where
  "playUnloadedData env handle c =
     (let deck = GetPlayoutDeck handle c
      in res_bind (mod_play (\<lambda>d. d\<lparr>pd_deck_status := DeckIdle\<rparr>) (deck - 129) c) (\<lambda>c.
         res_bind (vec_get (cd_play c) (deck - 129)) (\<lambda>d.
           let c = emit (BroadcastRE deck DeckIdle (pd_id d) None) (WriteExitCodeById (pd_id d) ExitOk '''' c)
           in res_bind (vec_get (cd_events c) (pd_event_id d)) (\<lambda>e.
              res_bind (if ce_one_shot e then PurgeEvent env (pd_event_id d) c else Inr c) (\<lambda>c.
              res_bind (mod_event (\<lambda>e. e\<lparr>ce_status := DeckIdle\<rparr>) (pd_event_id d) c)
                (mod_play (\<lambda>d. d\<lparr>pd_event_id := -1, pd_id := 0\<rparr>) (deck - 129)))))))"

section \<open>Transfers and carts\<close>

definition ReadExitCode :: "catch_env \<Rightarrow> catch_event \<Rightarrow> exit_code" where
  "ReadExitCode env e = (case cv_exit_code env (ce_id e) of None \<Rightarrow> ExitInternalError | Some x \<Rightarrow> x)"

text \<open>A finished transfer is removed from the list while the loop counts on, so the next one is not looked at.\<close>

fun xload_loop :: "catch_env \<Rightarrow> int list \<Rightarrow> catch_daemon \<Rightarrow> (int list \<times> catch_daemon) res" where
  "xload_loop env [] c = Inr ([], c)"
| "xload_loop env (x # xs) c =
     res_bind (vec_get (cd_events c) x) (\<lambda>e.
       if ReadExitCode env e \<in> {ExitOk, ExitServerError, ExitInternalError}
       then let c = emit (BroadcastRE 0 DeckIdle (ce_id e) None) c
            in (case xs of [] \<Rightarrow> Inr ([], c)
                | y # ys \<Rightarrow> res_bind (xload_loop env ys c) (\<lambda>(ys, c). Inr (y # ys, c)))
       else res_bind (xload_loop env xs c) (\<lambda>(xs, c). Inr (x # xs, c)))"

definition updateXloadsData :: "catch_env \<Rightarrow> catch_daemon \<Rightarrow> catch_daemon res" where
  "updateXloadsData env c =
     res_bind (xload_loop env (cd_active_xloads c) c) (\<lambda>(xs, c).
       Inr (c\<lparr>cd_active_xloads := xs, cd_xload_timer := (xs \<noteq> [] \<and> cd_xload_timer c)\<rparr>))"

definition sysHeartbeatData :: "catch_env \<Rightarrow> int \<Rightarrow> catch_daemon \<Rightarrow> catch_daemon res" where
  "sysHeartbeatData env cartnum c =
     (if cv_cart_macro env cartnum \<noteq> None
      then res_bind (ExecuteMacroCart env (cv_cart_macros env cartnum) (-1) (-1) c) (\<lambda>(_, c). Inr c) else Inr c)"

definition startupCartData :: "catch_env \<Rightarrow> int \<Rightarrow> catch_daemon \<Rightarrow> catch_daemon res" where
  "startupCartData env cartnum c =
     (if cartnum > 0 \<and> cv_cart_macro env cartnum \<noteq> None
      then res_bind (ExecuteMacroCart env (cv_cart_macros env cartnum) (-1) (-1) c) (\<lambda>(_, c). Inr c) else Inr c)"

section \<open>The schedule\<close>

definition LoadEvent :: "catch_env \<Rightarrow> catch_event \<Rightarrow> catch_daemon \<Rightarrow> catch_daemon res" where
  "LoadEvent env row c =
     (let timer = (if ce_start_type row = GpiStart then Some None else None);
          e = row\<lparr>ce_samplerate := cv_samplerate env, ce_status := DeckIdle, ce_start_timer := timer, ce_offset_timer := timer\<rparr>
      in res_bind (RDTimeEngine_addEvent (cv_now env) (ce_id e) (ce_start_time e) (cd_engine c)) (\<lambda>en.
           Inr (c\<lparr>cd_events := cd_events c @ [e], cd_engine := en\<rparr>)))"

fun load_events :: "catch_env \<Rightarrow> catch_event list \<Rightarrow> catch_daemon \<Rightarrow> catch_daemon res" where
  "load_events env [] c = Inr c"
| "load_events env (row # rows) c = res_bind (LoadEvent env row c) (load_events env rows)"

text \<open>The vector is emptied, the engine is not.\<close>

definition LoadEngine :: "catch_env \<Rightarrow> catch_daemon \<Rightarrow> catch_daemon res" where
  "LoadEngine env c = load_events env (cv_event_rows env) (c\<lparr>cd_events := []\<rparr>)"

definition AddEvent :: "catch_env \<Rightarrow> int \<Rightarrow> catch_daemon \<Rightarrow> (bool \<times> catch_daemon) res" where
  "AddEvent env eid c =
     (case cv_event_row env eid of
        None \<Rightarrow> Inr (False, c)
      | Some row \<Rightarrow> res_bind (LoadEvent env row c) (\<lambda>c. Inr (True, c)))"

definition UpdateEvent :: "catch_env \<Rightarrow> int \<Rightarrow> catch_daemon \<Rightarrow> (bool \<times> catch_daemon) res" where
  "UpdateEvent env eid c = res_bind (RemoveEvent env eid c) (AddEvent env eid)"

definition load_record_deck :: "catch_env \<Rightarrow> nat \<Rightarrow> record_deck \<Rightarrow> record_deck \<times> catch_out list" where
  "load_record_deck env i d =
     (let row = (case cv_deck_row env (int i + 1) of Some r \<Rightarrow> if dr_card r \<noteq> -1 then Some r else None | None \<Rightarrow> None);
          d = (case row of None \<Rightarrow> d
               | Some r \<Rightarrow> d\<lparr>rd_card := dr_card r, rd_stream := dr_port r, rd_monitor_port := dr_monitor r\<rparr>)
      in if rd_deck_status d = DeckRecording
         then if row \<noteq> None then (d, []) else (d\<lparr>rd_deck_status := DeckOffline\<rparr>, [StopRecord (rd_card d) (rd_stream d)])
         else (d\<lparr>rd_deck_status := (if row \<noteq> None then DeckIdle else DeckOffline)\<rparr>, []))"

definition load_playout_deck :: "catch_env \<Rightarrow> nat \<Rightarrow> playout_deck \<Rightarrow> playout_deck \<times> catch_out list" where
  "load_playout_deck env i d =
     (let present = (case cv_deck_row env (int i + 129) of Some r \<Rightarrow> dr_card r \<noteq> -1 | None \<Rightarrow> False)
      in if pd_deck_status d = DeckRecording
         then if present then (d, []) else (d\<lparr>pd_deck_status := DeckOffline\<rparr>, [StopPlay (pd_handle d)])
         else (d\<lparr>pd_deck_status := (if present then DeckIdle else DeckOffline)\<rparr>, []))"

definition LoadDeckList :: "catch_env \<Rightarrow> catch_daemon \<Rightarrow> catch_daemon" where
  "LoadDeckList env c =
     (let rs = map (\<lambda>(i, d). load_record_deck env i d) (zip [0..<length (cd_rec c)] (cd_rec c));
          ps = map (\<lambda>(i, d). load_playout_deck env i d) (zip [0..<length (cd_play c)] (cd_play c))
      in c\<lparr>cd_rec := map fst rs, cd_play := map fst ps, cd_out := cd_out c @ concat (map snd rs) @ concat (map snd ps)\<rparr>)"

section \<open>Commands\<close>

text \<open>The commands of clients that change the schedule, and the macro commands. Both stop a deck the same way.\<close>

definition stop_record_deck :: "int \<Rightarrow> catch_daemon \<Rightarrow> catch_daemon res" where
  "stop_record_deck chan c =
     (if chan > 0 \<and> chan < int MAX_DECKS + 1
      then res_bind (vec_get (cd_rec c) (chan - 1)) (\<lambda>d. case rd_deck_status d of
          DeckRecording \<Rightarrow> res_bind (mod_rec (\<lambda>d. d\<lparr>rd_aborting := True\<rparr>) (chan - 1) c) (\<lambda>c.
            Inr (emit (StopRecord (rd_card d) (rd_stream d)) c))
        | DeckWaiting \<Rightarrow> startTimerData (rd_id d) c
        | _ \<Rightarrow> Inr c)
      else Inr c)"

definition StopRecording :: "int \<Rightarrow> catch_daemon \<Rightarrow> catch_daemon res" where
  "StopRecording chan c =
     res_bind (stop_record_deck chan c) (\<lambda>c.
       if chan > 128 \<and> chan < int MAX_DECKS + 129
       then res_bind (vec_get (cd_play c) (chan - 129)) (\<lambda>d.
              Inr (if pd_deck_status d = DeckRecording then emit (StopPlay (pd_handle d)) c else c))
       else Inr c)"

definition SetExitCode :: "catch_env \<Rightarrow> int \<Rightarrow> exit_code \<Rightarrow> string \<Rightarrow> catch_daemon \<Rightarrow> catch_daemon res" where
  "SetExitCode env eid code err_text c =
     (let event = GetEvent eid c
      in if event < 0 then Inr c
         else res_bind (WriteExitCode env event code err_text c) (\<lambda>c.
           Inr (emit (BroadcastRE 0 (if code = ExitOk then DeckIdle else DeckOffline) eid None)
                  (emit (BroadcastRE 0 DeckIdle eid None) c))))"

definition answer :: "bool \<Rightarrow> rdmacro \<Rightarrow> catch_daemon \<Rightarrow> catch_daemon res" where
  "answer ok m c =
     (if rml_echo_requested m then res_bind (RDMacro_acknowledge ok m) (\<lambda>m. Inr (emit (Rml m) c)) else Inr c)"

definition rml_record :: "catch_env \<Rightarrow> rdmacro \<Rightarrow> catch_daemon \<Rightarrow> catch_daemon res" where
  "rml_record env m c =
     (if rml_arg_quantity m \<noteq> 4 then answer False m c
      else res_bind (RDMacro_arg 0 m) (\<lambda>a0. res_bind (RDMacro_arg 1 m) (\<lambda>a1.
           res_bind (RDMacro_arg 2 m) (\<lambda>a2. res_bind (RDMacro_arg 3 m) (\<lambda>a3.
             let chan = qv_toInt a0; cartnum = qv_toUInt a1; cutnum = qv_toUInt a2; len = qv_toUInt a3
             in if chan \<le> 0 \<or> chan > int MAX_DECKS \<or> cartnum > 999999 \<or> cutnum > 999 \<or> len = 0 then answer False m c
                else if \<not> cv_cut_exists env (RDCut_cutName cartnum cutnum) \<or> \<not> cv_deck_active env chan then answer False m c
                else res_bind (vec_get (cd_rec c) (chan - 1)) (\<lambda>d.
                  if rd_deck_status d \<noteq> DeckIdle
                  then if rd_aborting d \<and> rd_pending_cartnum d = 0
                       then res_bind (mod_rec (\<lambda>d. d\<lparr>rd_pending_cartnum := int cartnum, rd_pending_cutnum := int cutnum,
                                        rd_pending_maxlen := int len\<rparr>) (chan - 1) c) (answer True m)
                       else answer False m c
                  else res_bind (StartRmlRecording env chan (int cartnum) (int cutnum) (int len) c) (answer True m)))))))"

text \<open>A macro cart that finds no free context gets no answer.\<close>

definition RunLocalMacros :: "catch_env \<Rightarrow> rdmacro \<Rightarrow> catch_daemon \<Rightarrow> catch_daemon res" where
  "RunLocalMacros env m c =
     (if rml_cmd m = RML_EX
      then res_bind (RDMacro_arg 0 m) (\<lambda>a.
        let cartnum = int (qv_toUInt a)
        in if cv_cart_macro env cartnum = None then answer False m c
           else res_bind (ExecuteMacroCart env (cv_cart_macros env cartnum) (-1) (-1) c) (\<lambda>(ok, c).
                if ok then answer True m c else Inr c))
      else if rml_cmd m = RML_RS then rml_record env m c
      else if rml_cmd m = RML_RR
      then if rml_arg_quantity m \<noteq> 1 then answer False m c
           else res_bind (RDMacro_arg 0 m) (\<lambda>a. res_bind (stop_record_deck (qv_toInt a) c) (answer True m))
      else Inr c)"

definition rmlReceivedData :: "catch_env \<Rightarrow> rdmacro \<Rightarrow> catch_daemon \<Rightarrow> catch_daemon res" where
  "rmlReceivedData env m c =
     (if rml_role m \<noteq> RoleCmd then Inr c else RunLocalMacros env m c)"

section \<open>Runs\<close>

text \<open>What happens to the daemon: timers, GPI lines, the engine's answers, the clients' commands, macros.\<close>

datatype catch_input = EngineTimer | GpiLine int int bool | WindowTimer int | OffsetTimer int | RecordLoaded int int
  | RecordRuns int int | RecordStopped int int | RecordUnloaded int int int | PlayLoaded int | PlayRuns int
  | PlayStopped int | PlayUnloaded int | XloadTimer | MacroTimer nat | FreeTimer | HeartbeatTimer int
  | StartupTimer int | CmdReset | CmdAdd int | CmdRemove int | CmdUpdate int | CmdDecks | CmdStop int
  | CmdExit int exit_code string | CmdOffset int | MacroCmd rdmacro

definition ReloadOffset :: "catch_env \<Rightarrow> int \<Rightarrow> catch_daemon \<Rightarrow> catch_daemon res" where
  "ReloadOffset env ms c =
     res_bind (RDTimeEngine_setTimeOffset (cv_now env) ms (cd_engine c)) (\<lambda>en. Inr (c\<lparr>cd_engine := en\<rparr>))"

fun catch_step :: "catch_env \<Rightarrow> catch_input \<Rightarrow> catch_daemon \<Rightarrow> catch_daemon res" where
  "catch_step env EngineTimer c = engine_timeout env c"
| "catch_step env (GpiLine matrix line st) c = gpiStateChangedData env matrix line st c"
| "catch_step env (WindowTimer i) c = startTimerData i c"
| "catch_step env (OffsetTimer i) c = offsetTimerData env i c"
| "catch_step env (RecordLoaded crd strm) c = recordLoadedData crd strm c"
| "catch_step env (RecordRuns crd strm) c = recordingData crd strm c"
| "catch_step env (RecordStopped crd strm) c = recordStoppedData crd strm c"
| "catch_step env (RecordUnloaded crd strm msecs) c = recordUnloadedData env crd strm msecs c"
| "catch_step env (PlayLoaded h) c = playLoadedData h c"
| "catch_step env (PlayRuns h) c = playingData h c"
| "catch_step env (PlayStopped h) c = playStoppedData h c"
| "catch_step env (PlayUnloaded h) c = playUnloadedData env h c"
| "catch_step env XloadTimer c = updateXloadsData env c"
| "catch_step env (MacroTimer i) c = pool_timer env i c"
| "catch_step env FreeTimer c = Inr (freeEventsData c)"
| "catch_step env (HeartbeatTimer cartnum) c = sysHeartbeatData env cartnum c"
| "catch_step env (StartupTimer cartnum) c = startupCartData env cartnum c"
| "catch_step env CmdReset c = LoadEngine env c"
| "catch_step env (CmdAdd i) c = res_bind (AddEvent env i c) (\<lambda>(_, c). Inr c)"
| "catch_step env (CmdRemove i) c = RemoveEvent env i c"
| "catch_step env (CmdUpdate i) c = res_bind (UpdateEvent env i c) (\<lambda>(_, c). Inr c)"
| "catch_step env CmdDecks c = Inr (LoadDeckList env c)"
| "catch_step env (CmdStop chan) c = StopRecording chan c"
| "catch_step env (CmdExit i code txt) c = SetExitCode env i code txt c"
| "catch_step env (CmdOffset ms) c = ReloadOffset env ms c"
| "catch_step env (MacroCmd m) c = rmlReceivedData env m c"

fun catch_run :: "(catch_env \<times> catch_input) list \<Rightarrow> catch_daemon \<Rightarrow> catch_daemon res" where
  "catch_run [] c = Inr c"
| "catch_run ((env, x) # xs) c = res_bind (catch_step env x c) (catch_run xs)"

end
