(* ===== verification/Catch_Sync.thy ===== *)
theory Catch_Sync
  imports Catch_Handlers
begin

text \<open>
  The schedule of the catch daemon is kept twice: the vector of events and the slots of the timer engine. The two
  agree through every handler, as long as no event is added twice and the schedule is not loaded a second time.
\<close>

section \<open>Results that keep a property\<close>

definition holds :: "('a \<Rightarrow> bool) \<Rightarrow> 'a res \<Rightarrow> bool" where
  "holds P r \<longleftrightarrow> (\<forall>x. r = Inr x \<longrightarrow> P x)"

lemma holds_simps [simp]: "holds P (Inr x) = P x" "holds P (Inl e)"
  by (simp_all add: holds_def)

lemma holds_bind: "holds Q r \<Longrightarrow> (\<And>x. Q x \<Longrightarrow> holds P (f x)) \<Longrightarrow> holds P (res_bind r f)"
  by (auto simp: holds_def)

lemma holds_any: "(\<And>x. r = Inr x \<Longrightarrow> holds P (f x)) \<Longrightarrow> holds P (res_bind r f)"
  by (auto simp: holds_def)

lemma holds_mono: "holds Q r \<Longrightarrow> (\<And>x. Q x \<Longrightarrow> P x) \<Longrightarrow> holds P r"
  by (auto simp: holds_def)

section \<open>Agreement\<close>

definition event_key :: "catch_event \<Rightarrow> int \<times> qtime" where
  "event_key e = (ce_id e, ce_start_time e)"

text \<open>The engine has the events below the dynamic IDs, each at its time; recordings by macro are not timed.\<close>

definition keys_synced :: "(int \<times> qtime) list \<Rightarrow> time_engine \<Rightarrow> bool" where
  "keys_synced ks en \<longleftrightarrow> engine_ok en \<and> distinct (map fst ks)
     \<and> slot_map (engine_events en) = (\<lambda>i. if i < RDCATCHD_DYNAMIC_BASE_ID then map_of ks i else None)"

definition in_sync :: "catch_daemon \<Rightarrow> bool" where
  "in_sync c \<longleftrightarrow> keys_synced (map event_key (cd_events c)) (cd_engine c)"

lemma in_sync_quiet:
  "in_sync c \<Longrightarrow> map event_key (cd_events c') = map event_key (cd_events c) \<Longrightarrow> cd_engine c' = cd_engine c \<Longrightarrow> in_sync c'"
  by (simp add: in_sync_def)

lemma in_sync_emit [simp]: "in_sync (emit x c) = in_sync c"
  by (simp add: in_sync_def emit_def)

lemma in_sync_fields [simp]:
  "in_sync (cd_rec_update f c) = in_sync c" "in_sync (cd_play_update g c) = in_sync c"
  "in_sync (cd_pool_update h c) = in_sync c" "in_sync (cd_pool_free_update b c) = in_sync c"
  "in_sync (cd_macro_event_id_update k c) = in_sync c" "in_sync (cd_active_xloads_update k c) = in_sync c"
  "in_sync (cd_xload_timer_update t c) = in_sync c" "in_sync (cd_import_params_update k c) = in_sync c"
  "in_sync (cd_out_update u c) = in_sync c"
  by (simp_all add: in_sync_def)

lemma map_key_update:
  assumes "\<And>e. event_key (f e) = event_key e"
  shows "map event_key (es[i := f (es ! i)]) = map event_key es"
proof (cases "i < length es")
  case True
  then show ?thesis using assms by (simp add: map_update list_update_same_conv)
qed (simp add: list_update_beyond)

lemma mod_event_sync: "in_sync c \<Longrightarrow> (\<And>e. event_key (f e) = event_key e) \<Longrightarrow> holds in_sync (mod_event f i c)"
  by (auto simp: mod_event_def vec_mod_def holds_def map_key_update intro: in_sync_quiet split: if_splits)

lemma mod_rec_sync: "in_sync c \<Longrightarrow> holds in_sync (mod_rec f i c)"
  by (auto simp: mod_rec_def holds_def)

lemma mod_play_sync: "in_sync c \<Longrightarrow> holds in_sync (mod_play f i c)"
  by (auto simp: mod_play_def holds_def)

lemma map_of_list_del:
  assumes "distinct (map fst ks)" "k < length ks"
  shows "map_of (list_del k 1 ks) = (map_of ks)(fst (ks ! k) := None)"
  using assms
proof (induction ks arbitrary: k)
  case (Cons a ks)
  show ?case
  proof (cases k)
    case 0
    have "map_of ks (fst a) = None" using Cons.prems(1) by (simp add: map_of_eq_None_iff)
    then show ?thesis using 0 by (cases a) (auto simp: list_del_def fun_eq_iff)
  next
    case (Suc j)
    have "ks ! j \<in> set ks" using Cons.prems(2) Suc by simp
    then have "fst (ks ! j) \<in> fst ` set ks" by (rule imageI)
    moreover have "fst a \<notin> fst ` set ks" using Cons.prems(1) by simp
    ultimately have "fst a \<noteq> fst (ks ! j)" by metis
    moreover have "list_del (Suc j) 1 (a # ks) = a # list_del j 1 ks" by (simp add: list_del_def)
    ultimately show ?thesis using Cons Suc by (cases a) (auto simp: fun_eq_iff)
  qed
qed simp

lemma event_index_Some: "event_index i es = Some k \<Longrightarrow> k < length es \<and> ce_id (es ! k) = i"
  by (induction es arbitrary: k) (auto split: if_splits)

lemma event_index_None: "event_index i es = None \<longleftrightarrow> i \<notin> ce_id ` set es"
  by (induction es) auto

lemma GetEvent_cases:
  obtains "GetEvent i c = -1" "i \<notin> ce_id ` set (cd_events c)"
    | k where "GetEvent i c = int k" "k < length (cd_events c)" "ce_id (cd_events c ! k) = i"
proof (cases "event_index i (cd_events c)")
  case None
  then have "GetEvent i c = -1" "i \<notin> ce_id ` set (cd_events c)"
    by (simp add: GetEvent_def) (use None event_index_None in metis)
  then show ?thesis by (rule that(1))
next
  case (Some k)
  then show ?thesis using that(2) [of k] event_index_Some [OF Some] by (simp add: GetEvent_def)
qed

text \<open>Removing an event from both, in either order.\<close>

lemma remove_synced:
  assumes "in_sync c" "k < length (cd_events c)" "RDTimeEngine_removeEvent now (ce_id (cd_events c ! k)) (cd_engine c) = Inr en"
  shows "keys_synced (map event_key (list_del k 1 (cd_events c))) en"
proof -
  let ?ks = "map event_key (cd_events c)" and ?i = "ce_id (cd_events c ! k)"
  have s: "engine_ok (cd_engine c)" "distinct (map fst ?ks)"
      "slot_map (engine_events (cd_engine c)) = (\<lambda>i. if i < RDCATCHD_DYNAMIC_BASE_ID then map_of ?ks i else None)"
    using assms(1) by (simp_all add: in_sync_def keys_synced_def)
  have en: "engine_ok en" "slot_map (engine_events en) = (slot_map (engine_events (cd_engine c)))(?i := None)"
    using engine_step_ok [OF s(1), of "engine_op.RemoveEvent now ?i"] assms(3) by auto
  have "map_of (list_del k 1 ?ks) = (map_of ?ks)(?i := None)"
    using map_of_list_del [OF s(2), of k] assms(2) by (simp add: event_key_def)
  moreover have "distinct (map fst (list_del k 1 ?ks))"
    using s(2) distinct_list_del unfolding map_list_del by blast
  ultimately show ?thesis
    using en s(3) unfolding keys_synced_def map_list_del by (auto simp: fun_eq_iff)
qed

lemma PurgeEvent_cases:
  assumes "PurgeEvent env event c = Inr c'"
  obtains k en where "event = int k" "k < length (cd_events c)"
    "RDTimeEngine_removeEvent (cv_now env) (ce_id (cd_events c ! k)) (cd_engine c) = Inr en"
    "c' = c\<lparr>cd_out := cd_out c @ [DeleteRow (ce_id (cd_events c ! k)), BroadcastPE (ce_id (cd_events c ! k))],
       cd_engine := en, cd_events := list_del k 1 (cd_events c)\<rparr>"
proof -
  obtain e where e: "vec_get (cd_events c) event = Inr e" using assms by (auto simp: PurgeEvent_def)
  define k where "k = nat event"
  have k: "k < length (cd_events c)" "event = int k" "e = cd_events c ! k"
    using e by (auto simp: k_def vec_get_def vec_in_def split: if_splits)
  then show thesis
    using assms e that [of k] by (auto simp: PurgeEvent_def Let_def emit_def vec_del_def split: if_splits)
qed

lemma PurgeEvent_sync: "in_sync c \<Longrightarrow> holds in_sync (PurgeEvent env event c)"
  unfolding holds_def
proof (intro allI impI)
  fix c' assume sync: "in_sync c" and run: "PurgeEvent env event c = Inr c'"
  from run show "in_sync c'"
    by (rule PurgeEvent_cases) (use remove_synced [OF sync] in \<open>simp add: in_sync_def\<close>)
qed

lemma RemoveEvent_sync: "in_sync c \<Longrightarrow> holds in_sync (RemoveEvent env i c)"
  unfolding holds_def
proof (intro allI impI)
  fix c' assume sync: "in_sync c" and run: "RemoveEvent env i c = Inr c'"
  show "in_sync c'"
  proof (cases rule: GetEvent_cases [of i c])
    case 1
    then show ?thesis using sync run by (simp add: RemoveEvent_def Let_def)
  next
    case (2 k)
    then obtain en where "RDTimeEngine_removeEvent (cv_now env) i (cd_engine c) = Inr en"
        "c' = c\<lparr>cd_events := list_del k 1 (cd_events c), cd_engine := en\<rparr>"
      using run by (auto simp: RemoveEvent_def Let_def vec_del_def split: if_splits)
    then show ?thesis using remove_synced [OF sync 2(2)] 2(3) by (simp add: in_sync_def)
  qed
qed

lemma LoadEvent_sync:
  assumes "in_sync c" "ce_id row \<notin> ce_id ` set (cd_events c)" "qtime_ok (ce_start_time row)"
    "ce_id row < RDCATCHD_DYNAMIC_BASE_ID"
  shows "\<exists>c'. LoadEvent env row c = Inr c' \<and> in_sync c'
    \<and> map event_key (cd_events c') = map event_key (cd_events c) @ [event_key row]"
proof -
  let ?ks = "map event_key (cd_events c)"
  have s: "engine_ok (cd_engine c)" "distinct (map fst ?ks)"
      "slot_map (engine_events (cd_engine c)) = (\<lambda>i. if i < RDCATCHD_DYNAMIC_BASE_ID then map_of ?ks i else None)"
    using assms(1) by (simp_all add: in_sync_def keys_synced_def)
  have new: "ce_id row \<notin> set (map fst ?ks)" using assms(2) by (auto simp: event_key_def)
  then have fresh: "map_of ?ks (ce_id row) = None" unfolding map_of_eq_None_iff set_map .
  then have none: "slot_map (engine_events (cd_engine c)) (ce_id row) = None" using s(3) by simp
  obtain en where en: "RDTimeEngine_addEvent (cv_now env) (ce_id row) (ce_start_time row) (cd_engine c) = Inr en"
      "engine_ok en" "slot_map (engine_events en) = (slot_map (engine_events (cd_engine c)))(ce_id row \<mapsto> ce_start_time row)"
    using engine_step_ok [OF s(1), of "engine_op.AddEvent (cv_now env) (ce_id row) (ce_start_time row)"] none assms(3) by auto
  have "map_of (?ks @ [event_key row]) = (map_of ?ks)(ce_id row \<mapsto> ce_start_time row)"
    using fresh by (auto simp: event_key_def fun_eq_iff map_add_def split: option.split)
  then have "keys_synced (?ks @ [event_key row]) en"
    using en(2,3) s(2,3) new assms(4) by (auto simp: keys_synced_def fun_eq_iff event_key_def)
  then show ?thesis using en(1) by (auto simp: LoadEvent_def Let_def in_sync_def event_key_def)
qed

section \<open>A small station\<close>

definition demo_recording :: "int \<Rightarrow> catch_event" where
  "demo_recording i = new_catch_event\<lparr>ce_id := i, ce_is_active := True, ce_channel := 1, ce_cut_name := ''000123_001'',
     ce_day_of_week := (\<lambda>_. True), ce_start_time := 3600000, ce_end_type := LengthEnd, ce_length := 60000,
     ce_channels := 2, ce_samplerate := 44100, ce_normalize_level := 0\<rparr>"

definition demo_row :: deck_row where
  "demo_row = \<lparr>dr_card = 0, dr_port = 1, dr_address = '''', dr_matrix = 0, dr_output = 0, dr_delay = 0, dr_monitor = -1\<rparr>"

definition demo_record_deck :: record_deck where
  "demo_record_deck = \<lparr>rd_status = False, rd_card = -1, rd_stream = -1, rd_deck_status = DeckIdle, rd_id = 0, rd_name = '''',
     rd_aborting = False, rd_pending_cartnum = 0, rd_pending_cutnum = 0, rd_pending_maxlen = 0, rd_threshold = 0,
     rd_swaddress = '''', rd_swmatrix = 0, rd_swoutput = 0, rd_swdelay = 0, rd_monitor_port = -1\<rparr>"

definition demo_date :: date_parts where
  "demo_date = \<lparr>dp_year = 2012, dp_month = 6, dp_day = 5, dp_dow = 2, dp_day_of_year = 157, dp_week = 23, dp_week_year = 2012,
     dp_short_day = ''Tue'', dp_long_day = ''Tuesday'', dp_short_month = ''Jun'', dp_long_month = ''June''\<rparr>"

definition demo_catch_env :: catch_env where
  "demo_catch_env = \<lparr>cv_now = 3600000, cv_date = (\<lambda>_. demo_date), cv_station_address = '''', cv_error_rml = '''',
     cv_cut_exists = (\<lambda>_. True), cv_deck_active = (\<lambda>_. True), cv_cut_points = (\<lambda>_. None), cv_cart_macro = (\<lambda>_. None),
     cv_cart_macros = (\<lambda>_. ''''), cv_deck_row = (\<lambda>ch. if ch = 1 then Some demo_row else None),
     cv_event_row = (\<lambda>i. if i \<in> {5, 6} then Some (demo_recording i) else None),
     cv_event_rows = [demo_recording 5, demo_recording 6], cv_import_params = None, cv_exit_code = (\<lambda>_. None),
     cv_load_play = (\<lambda>_ _. (0, 0)), cv_rml_format = (\<lambda>_. (0, 2, 0)), cv_samplerate = 44100, cv_temp_name = (\<lambda>_. ''''),
     cv_exec = no_hosts, cv_junk = 0, cv_junk_text = ''''\<rparr>"

definition demo_catch :: catch_daemon where
  "demo_catch = \<lparr>cd_events = [demo_recording 5, demo_recording 6], cd_rec = replicate 8 demo_record_deck, cd_play = [],
     cd_pool = replicate 64 None, cd_pool_free = replicate 64 True, cd_macro_event_id = replicate 64 (-1),
     cd_engine = new_engine, cd_active_xloads = [], cd_xload_timer = False, cd_import_params = [], cd_out = []\<rparr>"

end
