(* ===== verification/Catch_Rules.thy ===== *)
theory Catch_Rules
  imports Catch_Sync
begin

text \<open>
  Every handler of the catch daemon keeps the agreement of its events and its timer engine: a small calculus of
  the results that keep it, and its rules for the handlers, in the order of the code.
\<close>

section \<open>The calculus\<close>

abbreviation syncs :: "catch_daemon res \<Rightarrow> bool" where
  "syncs \<equiv> holds in_sync"

abbreviation syncs2 :: "('a \<times> catch_daemon) res \<Rightarrow> bool" where
  "syncs2 \<equiv> holds (\<lambda>x. in_sync (snd x))"

lemma sync_then: "syncs r \<Longrightarrow> (\<And>c. in_sync c \<Longrightarrow> holds P (f c)) \<Longrightarrow> holds P (res_bind r f)"
  by (rule holds_bind)

lemma sync_then2: "syncs2 r \<Longrightarrow> (\<And>x c. in_sync c \<Longrightarrow> holds P (f (x, c))) \<Longrightarrow> holds P (res_bind r f)"
  by (auto simp: holds_def)

lemma sync_if: "(b \<Longrightarrow> holds P x) \<Longrightarrow> (\<not> b \<Longrightarrow> holds P y) \<Longrightarrow> holds P (if b then x else y)"
  by simp

lemma sync_option: "(x = None \<Longrightarrow> holds P a) \<Longrightarrow> (\<And>y. x = Some y \<Longrightarrow> holds P (f y))
    \<Longrightarrow> holds P (case x of None \<Rightarrow> a | Some y \<Rightarrow> f y)"
  by (cases x) auto

lemma sync_pair: "(\<And>a b. x = (a, b) \<Longrightarrow> holds P (f a b)) \<Longrightarrow> holds P (case x of (a, b) \<Rightarrow> f a b)"
  by (cases x) auto

lemma sync_done: "in_sync c \<Longrightarrow> syncs (Inr c)" "in_sync c \<Longrightarrow> syncs2 (Inr (x, c))" "syncs (Inl e)" "syncs2 (Inl e)"
  by simp_all

lemmas sync_rules = sync_then sync_then2 holds_any sync_if sync_option sync_pair sync_done

section \<open>Macros\<close>

lemma GetFreeEvent_sync: "GetFreeEvent c = Some (i, c') \<Longrightarrow> in_sync c \<Longrightarrow> in_sync c'"
  by (auto simp: GetFreeEvent_def split: option.splits)

lemma eventFinishedData_sync: "in_sync c \<Longrightarrow> syncs (eventFinishedData env i c)"
  unfolding eventFinishedData_def Let_def
  by (rule sync_rules mod_event_sync PurgeEvent_sync | simp add: event_key_def)+

lemma pool_signals_sync: "in_sync c \<Longrightarrow> syncs (pool_signals env i xs c)"
proof (induction xs arbitrary: c)
  case (Cons x xs)
  then show ?case by (cases x) (auto intro!: sync_then eventFinishedData_sync)
qed simp

lemma run_pool_sync: "in_sync c \<Longrightarrow> syncs (run_pool env i txt c)"
  unfolding run_pool_def by (rule sync_rules pool_signals_sync | simp)+

lemma pool_timer_sync: "in_sync c \<Longrightarrow> syncs (pool_timer env i c)"
  unfolding pool_timer_def by (rule sync_rules pool_signals_sync | simp)+

lemma ExecuteMacroCart_sync: "in_sync c \<Longrightarrow> syncs2 (ExecuteMacroCart env txt eid event c)"
  unfolding ExecuteMacroCart_def Let_def
  by (rule sync_rules mod_event_sync run_pool_sync | simp add: event_key_def | erule (1) GetFreeEvent_sync)+

lemma SendErrorMessage_sync: "in_sync c \<Longrightarrow> syncs (SendErrorMessage env e err rml c)"
  unfolding SendErrorMessage_def Let_def
  by (rule sync_rules run_pool_sync | simp | erule (1) GetFreeEvent_sync)+

lemma WriteExitCode_sync: "in_sync c \<Longrightarrow> syncs (WriteExitCode env event code txt c)"
  unfolding WriteExitCode_def Let_def
  by (rule sync_rules SendErrorMessage_sync | simp)+

lemma WriteExitCodeById_sync [simp]: "in_sync (WriteExitCodeById eid code txt c) = in_sync c"
  by (simp add: WriteExitCodeById_def)

section \<open>Starting events\<close>

lemma send_switch_sync: "in_sync c \<Longrightarrow> syncs (send_switch env d e c)"
  unfolding send_switch_def by (rule sync_rules | simp)+

lemma start_deck_sync: "in_sync c \<Longrightarrow> syncs (start_deck env event e d c)"
  unfolding start_deck_def Let_def
  by (rule sync_rules send_switch_sync mod_event_sync mod_rec_sync | simp add: event_key_def)+

lemma StartRecording_sync: "in_sync c \<Longrightarrow> syncs2 (StartRecording env event c)"
  unfolding StartRecording_def Let_def
  by (rule sync_rules start_deck_sync | simp)+

lemma StartPlayout_sync: "in_sync c \<Longrightarrow> syncs (StartPlayout env event c)"
  unfolding StartPlayout_def Let_def
  by (rule sync_rules mod_event_sync mod_play_sync | simp add: event_key_def)+

lemma StartMacroEvent_sync: "in_sync c \<Longrightarrow> syncs (StartMacroEvent env event c)"
  unfolding StartMacroEvent_def by (rule sync_rules ExecuteMacroCart_sync | simp)+

lemma StartSwitchEvent_sync: "in_sync c \<Longrightarrow> syncs (StartSwitchEvent env event c)"
  unfolding StartSwitchEvent_def Let_def by (rule sync_rules PurgeEvent_sync | simp)+

lemma start_xload_sync: "in_sync c \<Longrightarrow> syncs (start_xload env code event c)"
  unfolding start_xload_def Let_def by (rule sync_rules WriteExitCode_sync | simp)+

section \<open>An event comes due\<close>

lemma no_cut_sync: "in_sync c \<Longrightarrow> syncs (no_cut env event e chan st c)"
  unfolding no_cut_def by (rule sync_rules WriteExitCode_sync | simp)+

lemma open_window_sync: "in_sync c \<Longrightarrow> syncs (open_window env event e c)"
  unfolding open_window_def
  by (rule sync_rules mod_event_sync mod_rec_sync WriteExitCode_sync | simp add: event_key_def)+

lemma due_recording_sync: "in_sync c \<Longrightarrow> syncs (due_recording env event e c)"
  unfolding due_recording_def
  by (rule sync_rules no_cut_sync mod_rec_sync | (simp only: rec_start.split, intro conjI impI)
      | rule StartRecording_sync open_window_sync | simp)+

lemma due_playout_sync: "in_sync c \<Longrightarrow> syncs (due_playout env event e c)"
  unfolding due_playout_def
  by (rule sync_rules no_cut_sync mod_play_sync StartPlayout_sync | simp)+

lemma due_download_sync: "in_sync c \<Longrightarrow> syncs (due_download env event e c)"
  unfolding due_download_def StartDownloadEvent_def
  by (rule sync_rules no_cut_sync start_xload_sync mod_event_sync | simp add: event_key_def)+

lemma engineData_sync:
  assumes "in_sync c"
  shows "syncs (engineData env i c)"
proof -
  have "syncs (case ce_type e of
      TypeRecording \<Rightarrow> due_recording env event e c
    | TypePlayout \<Rightarrow> res_bind (playout_status_of (ce_channel e - 129) c) (\<lambda>s.
        if s \<noteq> DeckIdle
        then res_bind (WriteExitCode env event ExitDeviceBusy '''' c) (\<lambda>c.
               Inr (emit (BroadcastRE 0 DeckRecording (ce_id e) (Some (ce_cut_name e))) c))
        else due_playout env event e c)
    | TypeMacroEvent \<Rightarrow> if cv_cart_macro env (ce_macro_cart e) = None then no_cut env event e 0 (\<lambda>_. Inr DeckOffline) c
        else StartMacroEvent env event c
    | TypeSwitchEvent \<Rightarrow> StartSwitchEvent env event c
    | TypeDownload \<Rightarrow> due_download env event e c
    | TypeUpload \<Rightarrow> if \<not> cv_cut_exists env (ce_cut_name e) then no_cut env event e 0 (\<lambda>_. Inr DeckOffline) c
        else StartUploadEvent env event c)" for event e
    using assms
    by (cases "ce_type e")
      (simp_all add: due_recording_sync due_download_sync no_cut_sync StartMacroEvent_sync StartSwitchEvent_sync
        StartUploadEvent_def start_xload_sync,
       (rule sync_rules WriteExitCode_sync due_playout_sync | simp)+)
  then show ?thesis
    using assms unfolding engineData_def Let_def by (intro sync_if sync_done holds_any) simp_all
qed

lemma fire_loop_sync: "in_sync c \<Longrightarrow> syncs (fire_loop env k n c)"
  by (induction n arbitrary: c) (auto simp: Let_def intro!: sync_then engineData_sync)

lemma set_timer_sync:
  assumes "in_sync c" "RDTimeEngine_SetTimer now (cd_engine c\<lparr>engine_time_offset := off\<rparr>) = Inr en"
  shows "in_sync (c\<lparr>cd_engine := en\<rparr>)"
proof -
  have "slots_ok (engine_events (cd_engine c\<lparr>engine_time_offset := off\<rparr>))"
    using assms(1) by (simp add: in_sync_def keys_synced_def engine_ok_def)
  then show ?thesis
    using set_timer_ok [of "cd_engine c\<lparr>engine_time_offset := off\<rparr>" now] assms
    by (auto simp: in_sync_def keys_synced_def)
qed

lemma engine_timeout_sync: "in_sync c \<Longrightarrow> syncs (engine_timeout env c)"
  unfolding engine_timeout_def
  using set_timer_sync [where off = "engine_time_offset (cd_engine c')" and c = c' for c']
  by (intro sync_option sync_then fire_loop_sync holds_any) auto

end
