(* ===== verification/Catch_Run.thy ===== *)
theory Catch_Run
  imports Catch_Rules
begin

text \<open>
  Runs of the catch daemon: what may happen to it, one at a time, and the agreement of events and engine over every
  run.
\<close>

section \<open>The other handlers\<close>

lemma gpi_start_sync: "in_sync c \<Longrightarrow> syncs2 (gpi_start env matrix line i c)"
  unfolding gpi_start_def
  by (rule sync_rules StartRecording_sync mod_event_sync | simp add: event_key_def)+

lemma gpi_start_loop_sync: "in_sync c \<Longrightarrow> holds (\<lambda>x. in_sync (fst x)) (gpi_start_loop env matrix line ks (c, hs))"
proof (induction ks arbitrary: c hs)
  case (Cons k ks)
  then show ?case by (auto intro!: sync_then2 gpi_start_sync)
qed simp

lemma gpi_end_loop_sync: "in_sync c \<Longrightarrow> syncs (gpi_end_loop env matrix line hs ks c)"
proof (induction ks arbitrary: c)
  case (Cons k ks)
  have "syncs (res_bind (if b then res_bind r (\<lambda>d. Inr (emit (StopRecord (rd_card d) (rd_stream d)) c)) else Inr c)
      (gpi_end_loop env matrix line hs ks))" for b r
    using Cons by (intro sync_then sync_if holds_any) simp_all
  then show ?case unfolding gpi_end_loop.simps by (rule holds_any)
qed simp

lemma gpiStateChangedData_sync: "in_sync c \<Longrightarrow> syncs (gpiStateChangedData env matrix line st c)"
  unfolding gpiStateChangedData_def
  using holds_bind [OF gpi_start_loop_sync, of c syncs] gpi_end_loop_sync
  by (intro sync_if sync_done holds_bind [OF gpi_start_loop_sync]) (auto split: prod.split)

lemma startTimerData_sync: "in_sync c \<Longrightarrow> syncs (startTimerData i c)"
  unfolding startTimerData_def Let_def
  by (rule sync_rules mod_event_sync mod_rec_sync | simp add: event_key_def)+

lemma offsetTimerData_sync: "in_sync c \<Longrightarrow> syncs (offsetTimerData env i c)"
  unfolding offsetTimerData_def Let_def
  by (rule sync_rules StartRecording_sync mod_event_sync | simp add: event_key_def)+

text \<open>A recording by macro gets the first dynamic ID, or the daemon reads outside of its events.\<close>

lemma next_id_loop_base:
  assumes "int (length es0) \<le> RDCATCHD_DYNAMIC_BASE_ID"
  shows "next_id_loop es0 es RDCATCHD_DYNAMIC_BASE_ID = (if \<forall>e \<in> set es. ce_id e < RDCATCHD_DYNAMIC_BASE_ID
     then Inr RDCATCHD_DYNAMIC_BASE_ID else Inl OutOfRange)"
  using assms by (induction es) (auto simp: vec_get_def vec_in_def)

lemma GetNextDynamicId_base:
  assumes "int (length (cd_events c)) \<le> RDCATCHD_DYNAMIC_BASE_ID"
  shows "GetNextDynamicId c = (if \<forall>e \<in> set (cd_events c). ce_id e < RDCATCHD_DYNAMIC_BASE_ID
     then Inr RDCATCHD_DYNAMIC_BASE_ID else Inl OutOfRange)"
  unfolding GetNextDynamicId_def by (rule next_id_loop_base [OF assms])

lemma append_dynamic_sync:
  assumes "in_sync c" "\<forall>e \<in> set (cd_events c). ce_id e < RDCATCHD_DYNAMIC_BASE_ID" "ce_id e = RDCATCHD_DYNAMIC_BASE_ID"
  shows "in_sync (c\<lparr>cd_events := cd_events c @ [e]\<rparr>)"
proof -
  have "map_of (map event_key (cd_events c) @ [event_key e]) i = map_of (map event_key (cd_events c)) i"
    if "i < RDCATCHD_DYNAMIC_BASE_ID" for i
    using that assms(3) by (auto simp: event_key_def map_add_def split: option.split)
  moreover have "RDCATCHD_DYNAMIC_BASE_ID \<notin> ce_id ` set (cd_events c)" using assms(2) by auto
  ultimately show ?thesis
    using assms(1,3) by (auto simp: in_sync_def keys_synced_def event_key_def fun_eq_iff)
qed

lemma StartRmlRecording_sync:
  assumes "in_sync c" "int (length (cd_events c)) < RDCATCHD_DYNAMIC_BASE_ID"
  shows "syncs (StartRmlRecording env chan cartnum cutnum maxlen c)"
proof -
  let ?c = "c\<lparr>cd_events := cd_events c @ [new_catch_event]\<rparr>"
  have len: "int (length (cd_events ?c)) \<le> RDCATCHD_DYNAMIC_BASE_ID" using assms(2) by simp
  have mod: "syncs (mod_event f (int (length (cd_events ?c)) - 1) ?c)"
    if "GetNextDynamicId ?c = Inr i" "\<And>e. ce_id (f e) = i" for f i
  proof -
    have i: "\<forall>e \<in> set (cd_events c). ce_id e < RDCATCHD_DYNAMIC_BASE_ID" "i = RDCATCHD_DYNAMIC_BASE_ID"
      using that(1) unfolding GetNextDynamicId_base [OF len] by (auto split: if_splits)
    have "mod_event f (int (length (cd_events ?c)) - 1) ?c = Inr (c\<lparr>cd_events := cd_events c @ [f new_catch_event]\<rparr>)"
      by (simp add: mod_event_def)
    then show ?thesis using append_dynamic_sync [OF assms(1) i(1), of "f new_catch_event"] that(2) i(2) by simp
  qed
  show ?thesis
    unfolding StartRmlRecording_def Let_def
    by (rule sync_pair holds_any sync_then [OF mod] sync_then2 [OF StartRecording_sync] sync_done | assumption | simp)+
qed

lemma RunRmlRecordingCache_sync:
  "in_sync c \<Longrightarrow> int (length (cd_events c)) < RDCATCHD_DYNAMIC_BASE_ID \<Longrightarrow> syncs (RunRmlRecordingCache env chan c)"
  unfolding RunRmlRecordingCache_def
  by (rule sync_rules StartRmlRecording_sync mod_rec_sync | simp)+

section \<open>The answers of the audio engine\<close>

text \<open>\<open>few\<close>: there are fewer events than dynamic IDs start at, which is a thousand millions.\<close>

definition few :: "catch_daemon \<Rightarrow> bool" where
  "few c \<longleftrightarrow> in_sync c \<and> int (length (cd_events c)) < RDCATCHD_DYNAMIC_BASE_ID"

lemma few_emit [simp]: "few (emit x c) = few c"
  by (simp add: few_def) (simp add: emit_def)

lemma few_mod_rec: "few c \<Longrightarrow> holds few (mod_rec f i c)"
  by (auto simp: few_def mod_rec_def holds_def)

lemma few_mod_event:
  assumes "few c" "\<And>e. event_key (f e) = event_key e"
  shows "holds few (mod_event f i c)"
proof -
  have "syncs (mod_event f i c)" using assms by (intro mod_event_sync) (simp_all add: few_def)
  then show ?thesis
    using assms(1) by (auto simp: few_def holds_def mod_event_def vec_mod_def split: if_splits)
qed

lemma few_PurgeEvent:
  assumes "few c"
  shows "holds few (PurgeEvent env event c)"
proof -
  have "syncs (PurgeEvent env event c)" using assms by (intro PurgeEvent_sync) (simp add: few_def)
  moreover have "length (cd_events c') \<le> length (cd_events c)" if "PurgeEvent env event c = Inr c'" for c'
    using that by (rule PurgeEvent_cases) (simp add: length_list_del)
  ultimately show ?thesis using assms unfolding few_def holds_def by fastforce
qed

lemma recordUnloaded_few:
  assumes "few c"
  shows "syncs (recordUnloadedData env crd strm msecs c)"
proof -
  have cache: "syncs (RunRmlRecordingCache env chan c)" if "few c" for chan c
    using that by (intro RunRmlRecordingCache_sync) (simp_all add: few_def)
  have due: "syncs (engineData env i c)" if "few c" for i c
    using that by (intro engineData_sync) (simp add: few_def)
  have step: "holds P (res_bind r f)" if "holds few r" "\<And>c. few c \<Longrightarrow> holds P (f c)" for P :: "catch_daemon \<Rightarrow> bool" and r f
    using that by (rule holds_bind)
  have inr: "holds few (Inr c)" if "few c" for c using that by simp
  have key: "event_key (e\<lparr>ce_status := st\<rparr>) = event_key e" for e st by (simp add: event_key_def)
  have sync: "syncs (Inr c)" using assms by (simp add: few_def)
  show ?thesis
    unfolding recordUnloadedData_def Let_def WriteExitCodeById_def
    by (insert assms, (rule sync_if sync step few_mod_rec few_mod_event few_PurgeEvent holds_any cache due inr key
        | assumption | simp only: few_emit)+)
qed

lemma recordLoadedData_sync: "in_sync c \<Longrightarrow> syncs (recordLoadedData crd strm c)"
  unfolding recordLoadedData_def Let_def by (rule sync_rules mod_rec_sync | simp)+

lemma recordingData_sync: "in_sync c \<Longrightarrow> syncs (recordingData crd strm c)"
  unfolding recordingData_def Let_def by (rule sync_rules mod_rec_sync | simp)+

lemma recordStoppedData_sync: "in_sync c \<Longrightarrow> syncs (recordStoppedData crd strm c)"
  unfolding recordStoppedData_def Let_def by (rule sync_rules mod_rec_sync | simp)+

lemma playLoadedData_sync: "in_sync c \<Longrightarrow> syncs (playLoadedData h c)"
  unfolding playLoadedData_def Let_def by (rule sync_rules mod_play_sync | simp)+

lemma playingData_sync: "in_sync c \<Longrightarrow> syncs (playingData h c)"
  unfolding playingData_def Let_def by (rule sync_rules mod_play_sync | simp)+

lemma playStoppedData_sync: "in_sync c \<Longrightarrow> syncs (playStoppedData h c)"
  unfolding playStoppedData_def Let_def by (rule sync_rules mod_play_sync | simp)+

lemma playUnloadedData_sync: "in_sync c \<Longrightarrow> syncs (playUnloadedData env h c)"
  unfolding playUnloadedData_def Let_def
  by (rule sync_rules mod_play_sync mod_event_sync PurgeEvent_sync | simp add: event_key_def)+

section \<open>Transfers, schedule and commands\<close>

lemma xload_loop_sync: "in_sync c \<Longrightarrow> syncs2 (xload_loop env xs c)"
proof (induction xs arbitrary: c rule: length_induct)
  case (1 xs)
  then have shorter: "syncs2 (xload_loop env ys d)" if "length ys < length xs" "in_sync d" for ys d
    using that by simp
  show ?case
  proof (cases xs)
    case (Cons x ys)
    have "syncs2 (res_bind (xload_loop env zs d) (\<lambda>(zs, c). Inr (y # zs, c)))" if "length zs < length xs" "in_sync d" for y zs d
      by (rule sync_then2 shorter that | simp)+
    then show ?thesis
      using 1(2) Cons by (auto simp: Let_def split: list.split intro!: holds_any)
  qed (use 1(2) in simp)
qed

lemma updateXloadsData_sync: "in_sync c \<Longrightarrow> syncs (updateXloadsData env c)"
  unfolding updateXloadsData_def by (rule sync_then2 xload_loop_sync | simp)+

lemma AddEvent_sync:
  assumes "in_sync c" "i \<notin> ce_id ` set (cd_events c)"
    "\<And>row. cv_event_row env i = Some row \<Longrightarrow> ce_id row = i \<and> qtime_ok (ce_start_time row) \<and> i < RDCATCHD_DYNAMIC_BASE_ID"
  shows "syncs2 (AddEvent env i c)"
proof (cases "cv_event_row env i")
  case (Some row)
  then obtain c' where "LoadEvent env row c = Inr c'" "in_sync c'"
    using LoadEvent_sync [OF assms(1), of row env] assms(2,3) by auto
  then show ?thesis using Some by (simp add: AddEvent_def)
qed (use assms(1) in \<open>simp add: AddEvent_def\<close>)

lemma RemoveEvent_gone:
  assumes "in_sync c" "RemoveEvent env i c = Inr c'"
  shows "i \<notin> ce_id ` set (cd_events c')"
proof (cases rule: GetEvent_cases [of i c])
  case 1
  then show ?thesis using assms(2) by (simp add: RemoveEvent_def)
next
  case (2 k)
  let ?ks = "map event_key (cd_events c)"
  have d: "distinct (map fst ?ks)" using assms(1) by (simp add: in_sync_def keys_synced_def)
  have "cd_events c' = list_del k 1 (cd_events c)"
    using assms(2) 2 by (auto simp: RemoveEvent_def vec_del_def split: if_splits)
  then have "map event_key (cd_events c') = list_del k 1 ?ks" by (simp add: map_list_del)
  moreover have "fst (?ks ! k) = i" using 2 by (simp add: event_key_def)
  ultimately have "map_of (map event_key (cd_events c')) i = None"
    using map_of_list_del [OF d, of k] 2(2) by simp
  then show ?thesis by (simp add: map_of_eq_None_iff image_image event_key_def)
qed

lemma stop_record_deck_sync: "in_sync c \<Longrightarrow> syncs (stop_record_deck chan c)"
  unfolding stop_record_deck_def
  by (rule sync_if holds_any sync_done | simp add: startTimerData_sync sync_then [OF mod_rec_sync] split: deck_status.split)+

lemma StopRecording_sync: "in_sync c \<Longrightarrow> syncs (StopRecording chan c)"
  unfolding StopRecording_def by (rule sync_rules stop_record_deck_sync | simp)+

lemma SetExitCode_sync: "in_sync c \<Longrightarrow> syncs (SetExitCode env i code txt c)"
  unfolding SetExitCode_def Let_def by (rule sync_rules WriteExitCode_sync | simp)+

lemma answer_sync: "in_sync c \<Longrightarrow> syncs (answer ok m c)"
  unfolding answer_def by (rule sync_rules | simp)+

lemma rml_record_sync: "few c \<Longrightarrow> syncs (rml_record env m c)"
  unfolding rml_record_def Let_def
  by (rule sync_rules answer_sync mod_rec_sync StartRmlRecording_sync | simp add: few_def)+

lemma rmlReceivedData_sync: "few c \<Longrightarrow> syncs (rmlReceivedData env m c)"
  unfolding rmlReceivedData_def RunLocalMacros_def Let_def
  by (rule sync_rules answer_sync ExecuteMacroCart_sync rml_record_sync stop_record_deck_sync | simp add: few_def)+

section \<open>Runs\<close>

text \<open>A row of \<open>RECORDINGS\<close> as the daemon may load it. A client adds an event that is not there yet and does not send
  the reset command, which loads the schedule into the engine a second time (\<open>reset_doubles_schedule\<close>).\<close>

definition row_ok :: "catch_event \<Rightarrow> bool" where
  "row_ok row \<longleftrightarrow> qtime_ok (ce_start_time row) \<and> ce_id row < RDCATCHD_DYNAMIC_BASE_ID"

definition step_ok :: "catch_env \<Rightarrow> catch_input \<Rightarrow> catch_daemon \<Rightarrow> bool" where
  "step_ok env x c \<longleftrightarrow> int (length (cd_events c)) < RDCATCHD_DYNAMIC_BASE_ID
     \<and> (case x of CmdAdd i \<Rightarrow> GetEvent i c = -1 | CmdReset \<Rightarrow> False | _ \<Rightarrow> True)
     \<and> (case x of CmdAdd i \<Rightarrow> \<forall>row. cv_event_row env i = Some row \<longrightarrow> row_ok row \<and> ce_id row = i
          | CmdUpdate i \<Rightarrow> \<forall>row. cv_event_row env i = Some row \<longrightarrow> row_ok row \<and> ce_id row = i | _ \<Rightarrow> True)"

text \<open>The states after the schedule was loaded into an empty engine, and after any steps from there.\<close>

inductive catch_reachable :: "catch_daemon \<Rightarrow> bool" where
  load: "cd_engine c0 = new_engine\<lparr>engine_time_offset := off\<rparr> \<Longrightarrow> \<forall>row \<in> set (cv_event_rows env). row_ok row
    \<Longrightarrow> distinct (map ce_id (cv_event_rows env)) \<Longrightarrow> LoadEngine env c0 = Inr c \<Longrightarrow> catch_reachable c"
| step: "catch_reachable c \<Longrightarrow> step_ok env x c \<Longrightarrow> catch_step env x c = Inr c' \<Longrightarrow> catch_reachable c'"

inductive_simps catch_reachable_iff: "catch_reachable c"

lemma load_events_sync:
  assumes "in_sync c" "\<forall>row \<in> set rows. row_ok row \<and> ce_id row \<notin> ce_id ` set (cd_events c)" "distinct (map ce_id rows)"
  shows "\<exists>c'. load_events env rows c = Inr c' \<and> in_sync c'
    \<and> map event_key (cd_events c') = map event_key (cd_events c) @ map event_key rows"
  using assms
proof (induction rows arbitrary: c)
  case (Cons row rows)
  obtain c1 where c1: "LoadEvent env row c = Inr c1" "in_sync c1"
      "map event_key (cd_events c1) = map event_key (cd_events c) @ [event_key row]"
    using LoadEvent_sync [of c row env] Cons.prems by (auto simp: row_ok_def)
  have "map fst (map event_key (cd_events c1)) = map fst (map event_key (cd_events c)) @ [ce_id row]"
    unfolding c1(3) by (simp add: event_key_def)
  then have ids: "map ce_id (cd_events c1) = map ce_id (cd_events c) @ [ce_id row]"
    by (simp add: event_key_def o_def)
  then have "ce_id ` set (cd_events c1) = insert (ce_id row) (ce_id ` set (cd_events c))"
    by (metis set_map set_append list.simps(15) empty_set Un_insert_right Un_empty_right)
  then have "\<forall>r \<in> set rows. row_ok r \<and> ce_id r \<notin> ce_id ` set (cd_events c1)"
    using Cons.prems(2,3) by (metis distinct.simps(2) image_eqI insertE list.simps(9) list.set_intros(2) set_map)
  then show ?case
    using Cons.IH [OF c1(2)] Cons.prems(3) c1(1,3) by auto
qed simp

lemma LoadEngine_sync:
  assumes "cd_engine c0 = new_engine\<lparr>engine_time_offset := off\<rparr>" "\<forall>row \<in> set (cv_event_rows env). row_ok row"
    "distinct (map ce_id (cv_event_rows env))"
  shows "\<exists>c. LoadEngine env c0 = Inr c \<and> in_sync c \<and> map event_key (cd_events c) = map event_key (cv_event_rows env)"
proof -
  have "in_sync (c0\<lparr>cd_events := []\<rparr>)"
    using assms(1) by (simp add: in_sync_def keys_synced_def engine_ok_def slots_ok_def new_engine_def fun_eq_iff)
  then show ?thesis
    using load_events_sync [of "c0\<lparr>cd_events := []\<rparr>" "cv_event_rows env" env] assms(2,3) by (simp add: LoadEngine_def)
qed

lemma ReloadOffset_sync:
  assumes "in_sync c"
  shows "syncs (ReloadOffset env ms c)"
  unfolding ReloadOffset_def RDTimeEngine_setTimeOffset_def
  using set_timer_sync [OF assms] by (intro holds_any) auto

lemma UpdateEvent_sync:
  assumes "in_sync c" "\<And>row. cv_event_row env i = Some row \<Longrightarrow> row_ok row \<and> ce_id row = i"
  shows "syncs2 (UpdateEvent env i c)"
  unfolding UpdateEvent_def
proof (rule holds_any)
  fix c1 assume c1: "RemoveEvent env i c = Inr c1"
  have "in_sync c1" using RemoveEvent_sync [OF assms(1), of env i] c1 by (simp add: holds_def)
  then show "syncs2 (AddEvent env i c1)"
    using AddEvent_sync [of c1 i env] RemoveEvent_gone [OF assms(1) c1] assms(2) by (auto simp: row_ok_def)
qed

lemma catch_step_sync:
  assumes "in_sync c" "step_ok env x c"
  shows "syncs (catch_step env x c)"
proof -
  have "few c" using assms by (simp add: few_def step_ok_def)
  have absent: "i \<notin> ce_id ` set (cd_events c)" if "GetEvent i c = -1" for i
    by (rule GetEvent_cases [of i c]) (use that in auto)
  have drop: "syncs (res_bind r (\<lambda>(_, c). Inr c))" if "syncs2 r" for r :: "(bool \<times> catch_daemon) res"
    using that by (auto simp: holds_def)
  note due = engine_timeout_sync gpiStateChangedData_sync startTimerData_sync offsetTimerData_sync
  note audio = recordLoadedData_sync recordingData_sync recordStoppedData_sync recordUnloaded_few playLoadedData_sync
    playingData_sync playStoppedData_sync playUnloadedData_sync
  note rest = updateXloadsData_sync pool_timer_sync RemoveEvent_sync StopRecording_sync SetExitCode_sync
    ReloadOffset_sync rmlReceivedData_sync
  show ?thesis
  proof (cases x)
    case (CmdAdd i)
    then have "syncs2 (AddEvent env i c)"
      using assms(2) by (intro AddEvent_sync [OF assms(1)] absent) (auto simp: step_ok_def row_ok_def)
    then show ?thesis using CmdAdd drop by simp
  next
    case (CmdUpdate i)
    then have "syncs2 (UpdateEvent env i c)"
      using assms(2) by (intro UpdateEvent_sync [OF assms(1)]) (auto simp: step_ok_def)
    then show ?thesis using CmdUpdate drop by simp
  next
    case CmdReset
    then show ?thesis using assms(2) by (simp add: step_ok_def)
  next
    case CmdDecks
    then show ?thesis using assms(1) by (simp add: LoadDeckList_def Let_def)
  next
    case FreeTimer
    then show ?thesis using assms(1) by (simp add: freeEventsData_def)
  next
    case (HeartbeatTimer n)
    have "syncs (sysHeartbeatData env n c)"
      unfolding sysHeartbeatData_def using assms(1) by (intro sync_if drop ExecuteMacroCart_sync sync_done)
    then show ?thesis using HeartbeatTimer by simp
  next
    case (StartupTimer n)
    have "syncs (startupCartData env n c)"
      unfolding startupCartData_def using assms(1) by (intro sync_if drop ExecuteMacroCart_sync sync_done)
    then show ?thesis using StartupTimer by simp
  qed (simp_all add: assms(1) \<open>few c\<close> due audio rest)
qed

lemma reachable_sync: "catch_reachable c \<Longrightarrow> in_sync c"
proof (induction rule: catch_reachable.induct)
  case (load c0 off env c)
  then show ?case using LoadEngine_sync [of c0 off env] by auto
next
  case (step c env x c')
  then show ?case using catch_step_sync [of c env x] by (simp add: holds_def)
qed

text \<open>C13: The daemon keeps its schedule twice, in the vector of events and in the timer engine. In every state reached from
  loading the schedule by timers, GPI lines, answers of the audio engine, macros and the commands that add, remove, update
  or stop events, without the reset command, without adding an event that is there already and as long as no step runs
  into a fault, no ID occurs twice in the vector; each of its events that is not a recording by macro is in the engine, at
  its own time of day, and the engine is armed when there is one; and the engine has no other events. (Recordings by
  macro are in the vector only.)\<close>

theorem schedule_and_engine_agree:
  assumes "catch_reachable c"
  shows "distinct (map ce_id (cd_events c))
    \<and> (\<forall>e \<in> set (cd_events c). ce_id e < RDCATCHD_DYNAMIC_BASE_ID \<longrightarrow>
         RDTimeEngine_event (ce_id e) (cd_engine c) = ce_start_time e \<and> engine_timer (cd_engine c) \<noteq> None)
    \<and> (\<forall>ev \<in> set (engine_events (cd_engine c)). \<forall>i \<in> set (event_id ev).
         \<exists>e \<in> set (cd_events c). ce_id e = i \<and> ce_start_time e = event_time ev)"
proof -
  let ?ks = "map event_key (cd_events c)" and ?en = "cd_engine c"
  have s: "engine_ok ?en" "distinct (map fst ?ks)"
      "slot_map (engine_events ?en) = (\<lambda>i. if i < RDCATCHD_DYNAMIC_BASE_ID then map_of ?ks i else None)"
    using reachable_sync [OF assms] by (simp_all add: in_sync_def keys_synced_def)
  have d: "distinct (map ce_id (cd_events c))"
  proof -
    have "map fst ?ks = map ce_id (cd_events c)" by (simp add: event_key_def)
    then show ?thesis using s(2) by metis
  qed
  have one: "RDTimeEngine_event (ce_id e) ?en = ce_start_time e \<and> engine_timer ?en \<noteq> None"
    if "e \<in> set (cd_events c)" "ce_id e < RDCATCHD_DYNAMIC_BASE_ID" for e
  proof -
    have "event_key e \<in> set ?ks" using that(1) by (simp only: set_map imageI)
    then have "map_of ?ks (ce_id e) = Some (ce_start_time e)"
      using s(2) map_of_eq_Some_iff [OF s(2)] unfolding event_key_def by simp
    then have "slot_map (engine_events ?en) (ce_id e) = Some (ce_start_time e)" using s(3) that(2) by simp
    then show ?thesis using s(1) by (auto simp: event_slot_map engine_ok_def)
  qed
  have slots: "\<exists>e \<in> set (cd_events c). ce_id e = i \<and> ce_start_time e = event_time ev"
    if "ev \<in> set (engine_events ?en)" "i \<in> set (event_id ev)" for ev i
  proof -
    have "slot_map (engine_events ?en) i = Some (event_time ev)"
      using slot_map_Some [of "engine_events ?en"] s(1) that by (auto simp: engine_ok_def)
    then have "map_of ?ks i = Some (event_time ev)" using s(3) by (simp split: if_splits)
    then have "(i, event_time ev) \<in> set ?ks" by (rule map_of_SomeD)
    then show ?thesis by (auto simp: event_key_def)
  qed
  show ?thesis using d one slots by blast
qed

section \<open>Loading the schedule again\<close>

definition slot_ids :: "time_engine \<Rightarrow> int list" where
  "slot_ids en = concat (map event_id (engine_events en))"

lemma add_to_slots_ids_mset:
  "mset (concat (map event_id (add_to_slots i t evs))) = add_mset i (mset (concat (map event_id evs)))"
  by (induction evs) (simp_all add: RDTimeEvent_clear_def)

lemma add_to_slots_valid:
  assumes "slots_valid evs" "qtime_ok t"
  shows "slots_valid (add_to_slots i t evs)"
  using assms(1)
proof (induction evs)
  case (Cons ev evs)
  show ?case
  proof (cases "t = event_time ev")
    case True
    then have split: "add_to_slots i t (ev # evs) = RDTimeEvent_addId i ev # evs" unfolding add_to_slots.simps by (rule if_P)
    show ?thesis using Cons.prems unfolding split slots_valid_def by simp
  next
    case False
    then have split: "add_to_slots i t (ev # evs) = ev # add_to_slots i t evs" by simp
    show ?thesis using Cons unfolding split slots_valid_def by simp
  qed
qed (simp add: slots_valid_def RDTimeEvent_clear_def assms(2))

lemma set_timer_events: "RDTimeEngine_SetTimer now e = Inr en \<Longrightarrow> engine_events en = engine_events e"
  by (auto simp: RDTimeEngine_SetTimer_def Let_def split: if_splits prod.splits)

lemma remove_from_slots_mset:
  "mset (concat (map event_id (remove_from_slots i evs))) = mset (concat (map event_id evs)) - {#i#}"
proof (induction evs)
  case (Cons ev evs)
  show ?case
  proof (cases "i \<in> set (event_id ev)")
    case True
    show ?thesis
    proof (cases "length (event_id ev) = 1")
      case single: True
      then have "event_id ev = [i]" using True by (auto simp: length_Suc_conv)
      then show ?thesis by simp
    next
      case False
      then show ?thesis using True by (simp add: removeId_simps)
    qed
  next
    case False
    have apart: "M + (N - {#i#}) = (M + N) - {#i#}" if "count M i = 0" for M N
    proof (rule multiset_eqI)
      fix x show "count (M + (N - {#i#})) x = count (M + N - {#i#}) x"
        using that by (cases "x = i") simp_all
    qed
    have "count (mset (event_id ev)) i = 0" using False by (simp add: count_eq_zero_iff)
    then show ?thesis using False Cons.IH apart by simp
  qed
qed simp

lemma addEvent_ids:
  assumes "slots_valid (engine_events en)" "qtime_ok t"
  obtains en' where "RDTimeEngine_addEvent now i t en = Inr en'" "slots_valid (engine_events en')"
    "mset (slot_ids en') = add_mset i (mset (slot_ids en))"
proof -
  let ?evs = "add_to_slots i t (engine_events en)"
  have ne: "?evs \<noteq> []" by (cases "engine_events en") auto
  have valid: "slots_valid ?evs" by (rule add_to_slots_valid [OF assms])
  obtain en' where en': "RDTimeEngine_SetTimer now (en\<lparr>engine_events := ?evs\<rparr>) = Inr en'"
    using set_timer_nearest [of "en\<lparr>engine_events := ?evs\<rparr>" now] valid ne by auto
  then show thesis
    using valid set_timer_events [OF en'] add_to_slots_ids_mset [of i t "engine_events en"]
    by (intro that [of en']) (simp_all add: RDTimeEngine_addEvent_def slot_ids_def)
qed

lemma load_events_ids:
  assumes "slots_valid (engine_events (cd_engine c))" "\<forall>row \<in> set rows. row_ok row"
  shows "\<exists>c'. load_events env rows c = Inr c' \<and> slots_valid (engine_events (cd_engine c'))
    \<and> map ce_id (cd_events c') = map ce_id (cd_events c) @ map ce_id rows
    \<and> mset (slot_ids (cd_engine c')) = mset (slot_ids (cd_engine c)) + mset (map ce_id rows)"
  using assms
proof (induction rows arbitrary: c)
  case (Cons row rows)
  have "qtime_ok (ce_start_time row)" using Cons.prems(2) by (simp add: row_ok_def)
  then obtain en where en: "RDTimeEngine_addEvent (cv_now env) (ce_id row) (ce_start_time row) (cd_engine c) = Inr en"
      "slots_valid (engine_events en)" "mset (slot_ids en) = add_mset (ce_id row) (mset (slot_ids (cd_engine c)))"
    using addEvent_ids [OF Cons.prems(1)] by metis
  obtain c1 where c1: "LoadEvent env row c = Inr c1" "cd_engine c1 = en"
      "map ce_id (cd_events c1) = map ce_id (cd_events c) @ [ce_id row]"
    using en(1) by (simp add: LoadEvent_def Let_def)
  obtain c' where "load_events env rows c1 = Inr c'" "slots_valid (engine_events (cd_engine c'))"
      "map ce_id (cd_events c') = map ce_id (cd_events c1) @ map ce_id rows"
      "mset (slot_ids (cd_engine c')) = mset (slot_ids en) + mset (map ce_id rows)"
    using Cons.IH [of c1] Cons.prems(2) en(2) c1(2) by auto
  then show ?case using c1(1,3) en(3) by (intro exI [of _ c']) simp
qed simp

text \<open>C39: The reset command doubles the schedule. \<open>LoadEngine()\<close> empties the vector of events but not the timer engine, so
  after a second load of the schedule the vector holds each event once and the engine twice, to come due twice;
  removing an event from the engine takes one of the two away.\<close>

theorem reset_doubles_schedule:
  assumes "cd_engine c0 = new_engine" "\<forall>row \<in> set (cv_event_rows env). row_ok row"
  shows "\<exists>c1 c2. LoadEngine env c0 = Inr c1 \<and> LoadEngine env c1 = Inr c2
    \<and> map ce_id (cd_events c2) = map ce_id (cv_event_rows env)
    \<and> mset (slot_ids (cd_engine c2)) = mset (map ce_id (cv_event_rows env)) + mset (map ce_id (cv_event_rows env))
    \<and> (\<forall>i en. RDTimeEngine_removeEvent (cv_now env) i (cd_engine c2) = Inr en \<longrightarrow>
         mset (slot_ids en) = mset (slot_ids (cd_engine c2)) - {#i#})"
proof -
  let ?ids = "map ce_id (cv_event_rows env)"
  have empty: "slots_valid (engine_events (cd_engine c0))" "slot_ids (cd_engine c0) = []"
    by (simp_all add: assms(1) new_engine_def slots_valid_def slot_ids_def)
  obtain c1 where c1: "LoadEngine env c0 = Inr c1" "slots_valid (engine_events (cd_engine c1))"
      "mset (slot_ids (cd_engine c1)) = mset ?ids"
    using load_events_ids [of "c0\<lparr>cd_events := []\<rparr>" "cv_event_rows env" env] empty assms(2) by (auto simp: LoadEngine_def)
  obtain c2 where c2: "LoadEngine env c1 = Inr c2" "slots_valid (engine_events (cd_engine c2))" "map ce_id (cd_events c2) = ?ids"
      "mset (slot_ids (cd_engine c2)) = mset ?ids + mset ?ids"
    using load_events_ids [of "c1\<lparr>cd_events := []\<rparr>" "cv_event_rows env" env] c1(2,3) assms(2) by (auto simp: LoadEngine_def)
  have "mset (slot_ids en) = mset (slot_ids (cd_engine c2)) - {#i#}"
    if "RDTimeEngine_removeEvent (cv_now env) i (cd_engine c2) = Inr en" for i en
  proof (cases "\<exists>ev \<in> set (engine_events (cd_engine c2)). i \<in> set (event_id ev)")
    case True
    then have "engine_events en = remove_from_slots i (engine_events (cd_engine c2))"
      using that set_timer_events by (auto simp: RDTimeEngine_removeEvent_def)
    then show ?thesis by (simp add: slot_ids_def remove_from_slots_mset)
  next
    case False
    then have "i \<notin># mset (slot_ids (cd_engine c2))" by (auto simp: slot_ids_def)
    then show ?thesis using that False by (simp add: RDTimeEngine_removeEvent_def diff_single_trivial)
  qed
  then show ?thesis using c1(1) c2 by blast
qed

definition demo_loaded :: catch_daemon where
  "demo_loaded = (case LoadEngine demo_catch_env demo_catch of Inr c \<Rightarrow> c | Inl _ \<Rightarrow> demo_catch)"

definition demo_removed :: catch_daemon where
  "demo_removed = (case catch_step demo_catch_env (CmdRemove 5) demo_loaded of Inr c \<Rightarrow> c | Inl _ \<Rightarrow> demo_catch)"

lemma demo_catch_rows: "\<forall>row \<in> set (cv_event_rows demo_catch_env). row_ok row" "distinct (map ce_id (cv_event_rows demo_catch_env))"
  by (simp_all add: demo_catch_env_def demo_recording_def new_catch_event_def row_ok_def qtime_ok_def msecs_per_day_def
      RDCATCHD_DYNAMIC_BASE_ID_def)

lemma demo_loaded_reachable: "catch_reachable demo_loaded" "map event_key (cd_events demo_loaded) = [(5, 3600000), (6, 3600000)]"
proof -
  obtain c where c: "LoadEngine demo_catch_env demo_catch = Inr c"
      "map event_key (cd_events c) = map event_key (cv_event_rows demo_catch_env)"
    using LoadEngine_sync [of demo_catch 0 demo_catch_env] demo_catch_rows by (auto simp: demo_catch_def new_engine_def)
  then show "catch_reachable demo_loaded"
    using catch_reachable.load [of demo_catch 0 demo_catch_env c] demo_catch_rows
    by (simp add: demo_loaded_def) (simp add: demo_catch_def new_engine_def)
  show "map event_key (cd_events demo_loaded) = [(5, 3600000), (6, 3600000)]"
    using c by (simp add: demo_loaded_def demo_catch_env_def demo_recording_def new_catch_event_def event_key_def)
qed

lemma demo_removed_reachable: "catch_reachable demo_removed" "map event_key (cd_events demo_removed) = [(6, 3600000)]"
proof -
  obtain a b where es: "cd_events demo_loaded = [a, b]" "event_key a = (5, 3600000)" "event_key b = (6, 3600000)"
    using demo_loaded_reachable(2) by (auto simp: map_eq_Cons_conv)
  then have first: "GetEvent 5 demo_loaded = 0" by (simp add: GetEvent_def event_key_def)
  have "engine_ok (cd_engine demo_loaded)"
    using reachable_sync [OF demo_loaded_reachable(1)] by (simp add: in_sync_def keys_synced_def)
  then obtain en where "RDTimeEngine_removeEvent (cv_now demo_catch_env) 5 (cd_engine demo_loaded) = Inr en"
    using engine_step_ok [of "cd_engine demo_loaded" "engine_op.RemoveEvent (cv_now demo_catch_env) 5"] by auto
  then have run: "catch_step demo_catch_env (CmdRemove 5) demo_loaded = Inr (demo_loaded\<lparr>cd_events := [b], cd_engine := en\<rparr>)"
    using es(1) first by (simp add: RemoveEvent_def vec_del_def list_del_def)
  then have after: "demo_removed = demo_loaded\<lparr>cd_events := [b], cd_engine := en\<rparr>" by (simp add: demo_removed_def)
  have "step_ok demo_catch_env (CmdRemove 5) demo_loaded"
    using es(1) by (simp add: step_ok_def RDCATCHD_DYNAMIC_BASE_ID_def)
  then show "catch_reachable demo_removed"
    using catch_reachable.step [OF demo_loaded_reachable(1) _ run] unfolding after by simp
  show "map event_key (cd_events demo_removed) = [(6, 3600000)]"
    unfolding after using es(3) by simp
qed

theorem schedule_and_engine_agree_witness:
  "map event_key (cd_events demo_removed) = [(6, 3600000)] \<and> RDTimeEngine_event 6 (cd_engine demo_removed) = 3600000
    \<and> engine_timer (cd_engine demo_removed) \<noteq> None \<and> set (slot_ids (cd_engine demo_removed)) \<subseteq> {6}"
proof -
  obtain b where es: "cd_events demo_removed = [b]" "ce_id b = 6" "ce_start_time b = 3600000"
    using demo_removed_reachable(2) by (auto simp: map_eq_Cons_conv event_key_def)
  then show ?thesis
    using schedule_and_engine_agree [OF demo_removed_reachable(1)]
    by (auto simp: slot_ids_def event_key_def RDCATCHD_DYNAMIC_BASE_ID_def)
qed

theorem reset_doubles_schedule_witness:
  "\<exists>c1 c2. LoadEngine demo_catch_env demo_catch = Inr c1 \<and> LoadEngine demo_catch_env c1 = Inr c2
    \<and> map ce_id (cd_events c2) = [5, 6] \<and> mset (slot_ids (cd_engine c2)) = {#5, 5, 6, 6#}"
proof -
  have "cd_engine demo_catch = new_engine" by (simp add: demo_catch_def)
  moreover have "map ce_id (cv_event_rows demo_catch_env) = [5, 6]"
    by (simp add: demo_catch_env_def demo_recording_def new_catch_event_def)
  ultimately show ?thesis
    using reset_doubles_schedule [OF _ demo_catch_rows(1), of demo_catch] by auto
qed

end
