(* ===== verification/Catch_Life.thy ===== *)
theory Catch_Life
  imports Catch_Sync
begin

text \<open>
  The life of a recording on one deck, from the timer to the check-in of its cut, and the ways in which the daemon's
  bookkeeping of decks and events fails. The state is followed through the view \<open>at_deck\<close> of one event and its deck.
\<close>

section \<open>One event and its deck\<close>

definition at_deck :: "nat \<Rightarrow> catch_event \<Rightarrow> nat \<Rightarrow> record_deck \<Rightarrow> catch_out list \<Rightarrow> catch_daemon \<Rightarrow> catch_daemon" where
  "at_deck k e i d out c = c\<lparr>cd_events := (cd_events c)[k := e], cd_rec := (cd_rec c)[i := d], cd_out := cd_out c @ out\<rparr>"

text \<open>No other deck has the card and stream.\<close>

definition own_stream :: "nat \<Rightarrow> int \<Rightarrow> int \<Rightarrow> catch_daemon \<Rightarrow> bool" where
  "own_stream i crd strm c \<longleftrightarrow> i < length (cd_rec c)
     \<and> (\<forall>j < length (cd_rec c). j \<noteq> i \<longrightarrow> rd_card (cd_rec c ! j) \<noteq> crd \<or> rd_stream (cd_rec c ! j) \<noteq> strm)"

named_theorems deck_simps

lemma at_deck_self: "k < length (cd_events c) \<Longrightarrow> i < length (cd_rec c)
    \<Longrightarrow> at_deck k (cd_events c ! k) i (cd_rec c ! i) [] c = c"
  by (simp add: at_deck_def)

lemma at_deck_fields [deck_simps]:
  "cd_events (at_deck k e i d out c) = (cd_events c)[k := e]" "cd_rec (at_deck k e i d out c) = (cd_rec c)[i := d]"
  "cd_out (at_deck k e i d out c) = cd_out c @ out" "cd_engine (at_deck k e i d out c) = cd_engine c"
  "cd_play (at_deck k e i d out c) = cd_play c"
  by (simp_all add: at_deck_def)

lemma at_deck_emit [deck_simps]: "emit x (at_deck k e i d out c) = at_deck k e i d (out @ [x]) c"
  by (simp add: at_deck_def emit_def)

lemma at_deck_exit [deck_simps]:
  "WriteExitCodeById j code txt (at_deck k e i d out c) = at_deck k e i d (out @ [ExitCode j code txt]) c"
  by (simp add: WriteExitCodeById_def at_deck_emit)

lemma at_deck_mod [deck_simps]:
  "k < length (cd_events c) \<Longrightarrow> mod_event f (int k) (at_deck k e i d out c) = Inr (at_deck k (f e) i d out c)"
  "i < length (cd_rec c) \<Longrightarrow> mod_rec g (int i) (at_deck k e i d out c) = Inr (at_deck k e i (g d) out c)"
  by (simp_all add: at_deck_def mod_event_def mod_rec_def)

lemma at_deck_get [deck_simps]:
  "k < length (cd_events c) \<Longrightarrow> vec_get ((cd_events c)[k := e]) (int k) = Inr e"
  "i < length (cd_rec c) \<Longrightarrow> vec_get ((cd_rec c)[i := d]) (int i) = Inr d"
  by (simp_all add: vec_get_def)

lemma event_index_update:
  "event_index j es = Some k \<Longrightarrow> ce_id e = j \<Longrightarrow> event_index j (es[k := e]) = Some k"
  by (induction es arbitrary: k) (auto split: if_splits)

lemma GetEvent_at_deck [deck_simps]:
  assumes "GetEvent j c = int k" "ce_id e = j"
  shows "GetEvent j (at_deck k e i d out c) = int k"
proof -
  have "event_index j (cd_events c) = Some k" using assms(1) by (auto simp: GetEvent_def split: option.splits)
  then show ?thesis using event_index_update [of j "cd_events c" k e] assms(2) by (simp add: GetEvent_def at_deck_fields)
qed

lemma record_deck_loop_at:
  assumes "i < length ds" "rd_card (ds ! i) = crd" "rd_stream (ds ! i) = strm"
    "\<forall>j < length ds. j \<noteq> i \<longrightarrow> rd_card (ds ! j) \<noteq> crd \<or> rd_stream (ds ! j) \<noteq> strm"
  shows "record_deck_loop crd strm n ds = n + int i + 1"
  using assms
proof (induction ds arbitrary: i n)
  case (Cons d ds)
  show ?case
  proof (cases i)
    case 0
    then show ?thesis using Cons.prems by simp
  next
    case (Suc m)
    have "rd_card d \<noteq> crd \<or> rd_stream d \<noteq> strm" using Cons.prems(4) Suc by force
    moreover have "\<forall>j < length ds. j \<noteq> m \<longrightarrow> rd_card (ds ! j) \<noteq> crd \<or> rd_stream (ds ! j) \<noteq> strm"
      using Cons.prems(4) Suc by (metis Suc_less_eq length_Cons nat.inject nth_Cons_Suc)
    ultimately show ?thesis using Cons.IH [of m "n + 1"] Cons.prems(1-3) Suc by auto
  qed
qed simp

lemma GetRecordDeck_at_deck [deck_simps]:
  assumes "own_stream i crd strm c" "rd_card d = crd" "rd_stream d = strm"
  shows "GetRecordDeck crd strm (at_deck k e i d out c) = int i + 1"
  using record_deck_loop_at [of i "(cd_rec c)[i := d]" crd strm 0] assms
  by (auto simp: GetRecordDeck_def own_stream_def at_deck_fields)

section \<open>A timed recording\<close>

text \<open>An event that is due now on a deck of the station, with its row.\<close>

definition due_now :: "catch_env \<Rightarrow> nat \<Rightarrow> nat \<Rightarrow> deck_row \<Rightarrow> catch_daemon \<Rightarrow> bool" where
  "due_now env k i r c \<longleftrightarrow> k < length (cd_events c) \<and> i < length (cd_rec c)
     \<and> (let e = cd_events c ! k
        in GetEvent (ce_id e) c = int k \<and> ce_is_active e
           \<and> ce_day_of_week e (dp_dow (cv_date env (effective_day env c))) \<and> ce_type e = TypeRecording
           \<and> ce_start_type e = HardStart \<and> cv_cut_exists env (ce_cut_name e) \<and> ce_channel e = int i + 1)
     \<and> cv_deck_row env (int i + 1) = Some r \<and> dr_card r \<ge> 0 \<and> dr_port r \<ge> 0 \<and> dr_address r = ''''"

definition tuned :: "deck_row \<Rightarrow> record_deck \<Rightarrow> record_deck" where
  "tuned r d = d\<lparr>rd_card := dr_card r, rd_stream := dr_port r, rd_swaddress := dr_address r,
     rd_swmatrix := dr_matrix r, rd_swoutput := dr_output r, rd_swdelay := dr_delay r\<rparr>"

definition holding :: "catch_event \<Rightarrow> record_deck \<Rightarrow> record_deck" where
  "holding e d = d\<lparr>rd_name := ce_cut_name e, rd_threshold := ce_trim_threshold e, rd_id := ce_id e\<rparr>"

definition start_outs :: "catch_env \<Rightarrow> catch_event \<Rightarrow> deck_row \<Rightarrow> catch_out list" where
  "start_outs env e r =
     [LoadRecord (dr_card r) (dr_port r)
        (if ce_normalize_level e = 0 then ce_cut_name e else ''rdcatchd-record-'' @ string_of_int (ce_id e))
        (if ce_normalize_level e = 0 then ce_format e else 0) (ce_channels e) (ce_samplerate e) (ce_bitrate e),
      StartRecord (dr_card r) (dr_port r) (record_length (cv_now env) e),
      ResetCut (ce_cut_name e) (if ce_format e = 2 then 1 else 0) (ce_channels e) (ce_samplerate e) (ce_bitrate e)
        (ce_startdate_offset e) (ce_enddate_offset e)]"

definition running :: "catch_env \<Rightarrow> catch_event \<Rightarrow> catch_event" where
  "running env e = (if ce_normalize_level e = 0 then e
     else e\<lparr>ce_temp_name := cv_temp_name env (ce_id e), ce_delete_temp := True\<rparr>)\<lparr>ce_status := DeckRecording\<rparr>"

lemma engineData_starts:
  assumes "due_now env k i r c" "rd_deck_status (cd_rec c ! i) \<in> {DeckIdle, DeckWaiting}"
  shows "engineData env (ce_id (cd_events c ! k)) c
    = Inr (at_deck k (running env (cd_events c ! k)) i (holding (cd_events c ! k) (tuned r (cd_rec c ! i)))
        (start_outs env (cd_events c ! k) r) c)"
proof -
  define e d where "e = cd_events c ! k" and "d = cd_rec c ! i"
  have due: "k < length (cd_events c)" "i < length (cd_rec c)" "GetEvent (ce_id e) c = int k" "ce_is_active e"
      "ce_day_of_week e (dp_dow (cv_date env (effective_day env c)))" "ce_type e = TypeRecording"
      "ce_start_type e = HardStart" "cv_cut_exists env (ce_cut_name e)" "ce_channel e = int i + 1"
      "cv_deck_row env (int i + 1) = Some r" "dr_card r \<ge> 0" "dr_port r \<ge> 0" "dr_address r = ''''"
    using assms(1) by (simp_all add: due_now_def Let_def e_def)
  have c: "c = at_deck k e i d [] c" using at_deck_self [OF due(1,2)] by (simp add: e_def d_def)
  have get: "vec_get (cd_events c) (int k) = Inr e" using due(1) by (simp add: vec_get_def e_def)
  have "due_recording env (int k) e (at_deck k e i d [] c)
      = Inr (at_deck k (running env e) i (holding e (tuned r d)) (start_outs env e r) c)"
    using due assms(2) unfolding d_def [symmetric]
    by (simp add: due_recording_def StartRecording_def start_deck_def send_switch_def deck_simps Let_def
        running_def holding_def tuned_def start_outs_def)
  then show ?thesis
    using due(3-6) get c unfolding engineData_def e_def [symmetric] d_def [symmetric] by (simp add: Let_def)
qed

text \<open>The answers of the audio engine to a recording that runs to its end.\<close>

definition take_steps :: "(nat \<Rightarrow> catch_env) \<Rightarrow> deck_row \<Rightarrow> int \<Rightarrow> (catch_env \<times> catch_input) list" where
  "take_steps envs r msecs = [(envs 0, RecordLoaded (dr_card r) (dr_port r)), (envs 1, RecordRuns (dr_card r) (dr_port r)),
     (envs 2, RecordStopped (dr_card r) (dr_port r)), (envs 3, RecordUnloaded (dr_card r) (dr_port r) msecs)]"

definition finish_outs :: "catch_event \<Rightarrow> nat \<Rightarrow> deck_row \<Rightarrow> int \<Rightarrow> catch_out list" where
  "finish_outs e i r msecs =
     [BroadcastRE (int i + 1) DeckReady (ce_id e) None, ExitCode (ce_id e) ExitRecordActive '''',
      BroadcastRE (int i + 1) DeckRecording (ce_id e) (Some (ce_cut_name e)), MetersDown (int i),
      UnloadRecord (dr_card r) (dr_port r),
      if ce_normalize_level e = 0 then CheckIn (ce_cut_name e) (ce_format e) msecs (ce_trim_threshold e) else Batch (ce_id e),
      ExitCode (ce_id e) ExitOk '''', BroadcastRE (int i + 1) DeckIdle (ce_id e) None]"

lemma running_simps [simp]:
  "ce_id (running env e) = ce_id e" "ce_cut_name (running env e) = ce_cut_name e"
  "ce_one_shot (running env e) = ce_one_shot e" "ce_format (running env e) = ce_format e"
  "ce_normalize_level (running env e) = ce_normalize_level e" "ce_status (running env e) = DeckRecording"
  "ce_start_type (running env e) = ce_start_type e"
  by (simp_all add: running_def)

lemma holding_simps [simp]:
  "rd_card (holding e (tuned r d)) = dr_card r" "rd_stream (holding e (tuned r d)) = dr_port r"
  "rd_id (holding e d) = ce_id e" "rd_name (holding e d) = ce_cut_name e" "rd_threshold (holding e d) = ce_trim_threshold e"
  "rd_aborting (holding e (tuned r d)) = rd_aborting d" "rd_pending_cartnum (holding e (tuned r d)) = rd_pending_cartnum d"
  by (simp_all add: holding_def tuned_def)

lemma take_runs:
  assumes "k < length (cd_events c)" "own_stream i (dr_card r) (dr_port r) c" "GetEvent (ce_id e) c = int k"
    "ce_start_type e = HardStart" "\<not> ce_one_shot e" "\<not> rd_aborting d" "rd_pending_cartnum d = 0"
  shows "catch_run (take_steps envs r msecs) (at_deck k (running env e) i (holding e (tuned r d)) out c)
    = Inr (at_deck k (running env e\<lparr>ce_status := DeckIdle\<rparr>) i
        ((tuned r d)\<lparr>rd_deck_status := DeckIdle, rd_status := False, rd_id := 0, rd_name := ce_cut_name e,
           rd_threshold := ce_trim_threshold e, rd_aborting := False\<rparr>) (out @ finish_outs e i r msecs) c)"
proof -
  have i: "i < length (cd_rec c)" using assms(2) by (simp add: own_stream_def)
  let ?at = "\<lambda>e' d' out. at_deck k e' i d' out c" and ?e = "running env e" and ?d = "holding e (tuned r d)"
  have deck: "GetRecordDeck (dr_card r) (dr_port r) (?at e' d' out') = int i + 1"
    if "rd_card d' = dr_card r" "rd_stream d' = dr_port r" for e' d' out'
    using GetRecordDeck_at_deck [OF assms(2)] that by simp
  have event: "GetEvent (ce_id e) (?at e' d' out') = int k" if "ce_id e' = ce_id e" for e' d' out'
    using GetEvent_at_deck [OF assms(3)] that by simp
  have 1: "catch_step env1 (RecordLoaded (dr_card r) (dr_port r)) (?at ?e ?d out)
      = Inr (?at ?e (?d\<lparr>rd_deck_status := DeckReady\<rparr>) (out @ [BroadcastRE (int i + 1) DeckReady (ce_id e) None]))"
    for env1 out
    using i assms(1) by (simp add: recordLoadedData_def deck deck_simps Let_def)
  have 2: "catch_step env1 (RecordRuns (dr_card r) (dr_port r)) (?at ?e (?d\<lparr>rd_deck_status := DeckReady\<rparr>) out)
      = Inr (?at ?e (?d\<lparr>rd_deck_status := DeckRecording, rd_status := True\<rparr>) (out @ [ExitCode (ce_id e) ExitRecordActive '''',
          BroadcastRE (int i + 1) DeckRecording (ce_id e) (Some (ce_cut_name e))]))" for env1 out
    using i assms(1) by (simp add: recordingData_def deck event deck_simps Let_def)
  have 3: "catch_step env1 (RecordStopped (dr_card r) (dr_port r)) (?at ?e (?d\<lparr>rd_deck_status := DeckRecording, rd_status := True\<rparr>) out)
      = Inr (?at ?e (?d\<lparr>rd_deck_status := DeckRecording, rd_status := False\<rparr>)
          (out @ [MetersDown (int i), UnloadRecord (dr_card r) (dr_port r)]))" for env1 out
    using i assms(1) by (simp add: recordStoppedData_def deck deck_simps Let_def)
  have "\<not> restarts (?e\<lparr>ce_status := DeckIdle\<rparr>)" using assms(4) by (simp add: restarts_def)
  then have 4: "catch_step env1 (RecordUnloaded (dr_card r) (dr_port r) msecs) (?at ?e (?d\<lparr>rd_deck_status := DeckRecording, rd_status := False\<rparr>) out)
      = Inr (?at (?e\<lparr>ce_status := DeckIdle\<rparr>) (?d\<lparr>rd_status := False, rd_id := 0, rd_deck_status := DeckIdle, rd_aborting := False\<rparr>)
          (out @ drop 5 (finish_outs e i r msecs)))" for env1 out
    using i assms(1,5-7)
    by (simp add: recordUnloadedData_def RunRmlRecordingCache_def finish_outs_def deck event deck_simps Let_def)
  have "?d\<lparr>rd_status := False, rd_id := 0, rd_deck_status := DeckIdle, rd_aborting := False\<rparr>
      = (tuned r d)\<lparr>rd_deck_status := DeckIdle, rd_status := False, rd_id := 0, rd_name := ce_cut_name e,
           rd_threshold := ce_trim_threshold e, rd_aborting := False\<rparr>"
    by (simp add: holding_def)
  then show ?thesis
    unfolding take_steps_def by (simp add: 1 2 3 4 del: catch_step.simps) (simp add: finish_outs_def)
qed

lemma own_stream_at_deck: "own_stream i crd strm (at_deck k e i d out c) = own_stream i crd strm c"
  by (auto simp: own_stream_def at_deck_fields)

lemma at_deck_twice: "at_deck k e' i d' out' (at_deck k e i d out c) = at_deck k e' i d' (out @ out') c"
  by (simp add: at_deck_def)

text \<open>C14: A timed recording runs its course. When an event active on that day, whose cut exists, with a
  hard start and not one-shot, comes due
  on an idle deck (a deck of this station without a switcher host, the only one on its card and stream, that is not
  aborting and has no recording by macro pending), and the audio engine loads, records, stops and unloads, then the
  daemon sends exactly the load, the record command with the length of the event and the reset of the cut, reports each
  state of the deck, checks the cut in with the length the engine reports (or hands it to the converter), writes the exit
  code, and ends with the deck free, the event idle, and the engine, the times of the events, the other events and the
  other decks as they were. (What a one-shot event does is \<open>one_shot_touches_next\<close>.)\<close>

theorem timed_recording_runs:
  assumes "due_now env k i r c" "rd_deck_status (cd_rec c ! i) = DeckIdle" "own_stream i (dr_card r) (dr_port r) c"
    and "\<not> rd_aborting (cd_rec c ! i)" "rd_pending_cartnum (cd_rec c ! i) = 0" "\<not> ce_one_shot (cd_events c ! k)"
  shows "\<exists>c1 c2. engineData env (ce_id (cd_events c ! k)) c = Inr c1 \<and> ce_status (cd_events c1 ! k) = DeckRecording
    \<and> catch_run (take_steps envs r msecs) c1 = Inr c2
    \<and> cd_out c2 = cd_out c @ start_outs env (cd_events c ! k) r @ finish_outs (cd_events c ! k) i r msecs
    \<and> rd_deck_status (cd_rec c2 ! i) = DeckIdle \<and> rd_id (cd_rec c2 ! i) = 0 \<and> ce_status (cd_events c2 ! k) = DeckIdle
    \<and> map event_key (cd_events c2) = map event_key (cd_events c) \<and> cd_engine c2 = cd_engine c
    \<and> (\<forall>j. j \<noteq> k \<longrightarrow> cd_events c2 ! j = cd_events c ! j) \<and> (\<forall>j. j \<noteq> i \<longrightarrow> cd_rec c2 ! j = cd_rec c ! j)"
proof -
  let ?e = "cd_events c ! k" and ?d = "cd_rec c ! i"
  have due: "k < length (cd_events c)" "i < length (cd_rec c)" "GetEvent (ce_id ?e) c = int k" "ce_start_type ?e = HardStart"
    using assms(1) by (simp_all add: due_now_def Let_def)
  have start: "engineData env (ce_id ?e) c = Inr (at_deck k (running env ?e) i (holding ?e (tuned r ?d)) (start_outs env ?e r) c)"
    using engineData_starts [OF assms(1)] assms(2) by simp
  have key: "event_key (running env ?e\<lparr>ce_status := DeckIdle\<rparr>) = event_key ?e"
    by (simp add: event_key_def running_def)
  have "map event_key ((cd_events c)[k := running env ?e\<lparr>ce_status := DeckIdle\<rparr>]) = map event_key (cd_events c)"
    unfolding map_update key using due(1) by (simp add: list_update_same_conv)
  then show ?thesis
    using start take_runs [OF due(1) assms(3) due(3,4) assms(6,4,5), of envs msecs env "start_outs env ?e r"] due(1,2)
    by (simp add: at_deck_fields)
qed

lemma due_now_other:
  assumes "due_now env j i r c" "k < length (cd_events c)" "j \<noteq> k" "ce_id e = ce_id (cd_events c ! k)"
    "due_now env1 k i r1 c"
  shows "due_now env j i r (at_deck k e i d out c)"
proof -
  have same: "event_index n (es[m := e]) = event_index n es" if "m < length es" "ce_id e = ce_id (es ! m)" for n m es
    using that by (induction es arbitrary: m) (auto split: nat.splits)
  have "GetEvent n (at_deck k e i d out c) = GetEvent n c" for n
    using same [OF assms(2,4)] by (simp add: GetEvent_def at_deck_fields)
  then show ?thesis
    using assms(1,3) by (simp add: due_now_def Let_def at_deck_fields effective_day_def)
qed

text \<open>C37: A deck is taken only when the engine has answered. Two timed recordings on one idle deck that come due before
  the answer both start: two loads and two record commands go to the same card and stream, and the deck keeps the
  second event. When the engine then reports one recording to its end, the second event is checked in; the first
  stays marked as recording, with no exit code.\<close>

theorem busy_deck_starts_twice:
  assumes "due_now env k i r c" "due_now env2 j i r2 c" "j \<noteq> k" "rd_deck_status (cd_rec c ! i) = DeckIdle"
    and "own_stream i (dr_card r2) (dr_port r2) c" "\<not> rd_aborting (cd_rec c ! i)" "rd_pending_cartnum (cd_rec c ! i) = 0"
    and "\<not> ce_one_shot (cd_events c ! j)"
  shows "\<exists>c1 c2 c3. engineData env (ce_id (cd_events c ! k)) c = Inr c1 \<and> engineData env2 (ce_id (cd_events c ! j)) c1 = Inr c2
    \<and> cd_out c2 = cd_out c @ start_outs env (cd_events c ! k) r @ start_outs env2 (cd_events c ! j) r2
    \<and> rd_id (cd_rec c2 ! i) = ce_id (cd_events c ! j) \<and> ce_status (cd_events c2 ! j) = DeckRecording
    \<and> catch_run (take_steps envs r2 msecs) c2 = Inr c3
    \<and> cd_out c3 = cd_out c2 @ finish_outs (cd_events c ! j) i r2 msecs
    \<and> ce_status (cd_events c3 ! j) = DeckIdle \<and> ce_status (cd_events c3 ! k) = DeckRecording"
proof -
  let ?e = "cd_events c ! k" and ?f = "cd_events c ! j" and ?d = "cd_rec c ! i"
  have due: "k < length (cd_events c)" "i < length (cd_rec c)" and j: "j < length (cd_events c)" "ce_start_type ?f = HardStart"
    using assms(1,2) by (simp_all add: due_now_def Let_def)
  define c1 where "c1 = at_deck k (running env ?e) i (holding ?e (tuned r ?d)) (start_outs env ?e r) c"
  have start: "engineData env (ce_id ?e) c = Inr c1"
    using engineData_starts [OF assms(1)] assms(4) by (simp add: c1_def)
  have fields: "cd_events c1 ! j = ?f" "cd_rec c1 ! i = holding ?e (tuned r ?d)" "length (cd_events c1) = length (cd_events c)"
      "cd_events c1 ! k = running env ?e" "length (cd_rec c1) = length (cd_rec c)" "cd_out c1 = cd_out c @ start_outs env ?e r"
    using assms(3) due by (simp_all add: c1_def at_deck_fields)
  have due2: "due_now env2 j i r2 c1"
    unfolding c1_def by (rule due_now_other [OF assms(2) due(1) assms(3) _ assms(1)]) simp
  have idle: "rd_deck_status (cd_rec c1 ! i) = DeckIdle"
    unfolding fields(2) using assms(4) by (simp add: holding_def tuned_def)
  define c2 where "c2 = at_deck j (running env2 ?f) i (holding ?f (tuned r2 (cd_rec c1 ! i))) (start_outs env2 ?f r2) c1"
  have start2: "engineData env2 (ce_id ?f) c1 = Inr c2"
    using engineData_starts [OF due2] idle fields(1) by (simp add: c2_def)
  have own: "own_stream i (dr_card r2) (dr_port r2) c1"
    using assms(5) own_stream_at_deck unfolding c1_def by blast
  have ev: "GetEvent (ce_id ?f) c1 = int j"
    using due2 fields(1) by (simp add: due_now_def Let_def)
  have d1: "\<not> rd_aborting (cd_rec c1 ! i)" "rd_pending_cartnum (cd_rec c1 ! i) = 0"
    using assms(6,7) fields(2) by simp_all
  note run = take_runs [OF j(1) [folded fields(3)] own ev j(2) assms(8) d1, of envs msecs env2 "start_outs env2 ?f r2"]
  show ?thesis
    using start start2 run fields due j assms(3) unfolding c2_def by (simp add: at_deck_fields)
qed

section \<open>Events that are used once\<close>

lemma PurgeEvent_works:
  assumes "engine_ok (cd_engine c)" "k < length (cd_events c)"
  shows "\<exists>en out. PurgeEvent env (int k) c = Inr (c\<lparr>cd_engine := en, cd_events := list_del k 1 (cd_events c), cd_out := out\<rparr>)"
proof -
  let ?i = "ce_id (cd_events c ! k)"
  obtain en where "RDTimeEngine_removeEvent (cv_now env) ?i (cd_engine c) = Inr en"
    using engine_step_ok [OF assms(1), of "engine_op.RemoveEvent (cv_now env) ?i"] by auto
  then have "PurgeEvent env (int k) c = Inr (c\<lparr>cd_engine := en, cd_events := list_del k 1 (cd_events c),
      cd_out := cd_out c @ [DeleteRow ?i, BroadcastPE ?i]\<rparr>)"
    using assms(2) by (simp add: PurgeEvent_def vec_get_def vec_del_def emit_def Let_def)
  then show ?thesis by blast
qed

lemma unload_one_shot:
  assumes "engine_ok (cd_engine c)" "own_stream i crd strm c" "rd_card (cd_rec c ! i) = crd" "rd_stream (cd_rec c ! i) = strm"
    and "GetEvent (rd_id (cd_rec c ! i)) c = int k" "k < length (cd_events c)" "ce_one_shot (cd_events c ! k)"
  obtains ds en out where "ds = (cd_rec c)[i := (cd_rec c ! i)\<lparr>rd_id := 0\<rparr>]"
    "recordUnloadedData env crd strm msecs c
      = res_bind (mod_rec (\<lambda>d. d\<lparr>rd_deck_status := DeckIdle\<rparr>) (int i)
          (c\<lparr>cd_rec := ds, cd_engine := en, cd_events := list_del k 1 (cd_events c), cd_out := out\<rparr>)) (\<lambda>c.
        res_bind (mod_event (\<lambda>e. e\<lparr>ce_status := DeckIdle\<rparr>) (int k) c) (\<lambda>c.
        res_bind (mod_rec (\<lambda>d. d\<lparr>rd_aborting := False\<rparr>) (int i) c) (\<lambda>c.
        res_bind (vec_get (cd_events c) (int k)) (\<lambda>e.
          if restarts e then engineData env (ce_id e) c else RunRmlRecordingCache env (int i + 1) c))))"
proof -
  let ?es = "cd_events c" and ?d = "cd_rec c ! i"
  have i: "i < length (cd_rec c)" using assms(2) by (simp add: own_stream_def)
  have deck: "GetRecordDeck crd strm c = int i + 1"
    using record_deck_loop_at [of i "cd_rec c" crd strm 0] assms(2-4) by (simp add: GetRecordDeck_def own_stream_def)
  define out where "out = cd_out c @ [if ce_normalize_level (?es ! k) = 0
      then CheckIn (rd_name ?d) (ce_format (?es ! k)) msecs (rd_threshold ?d) else Batch (ce_id (?es ! k)),
    ExitCode (rd_id ?d) (if rd_aborting ?d then ExitInterrupted else ExitOk) '''', BroadcastRE (int i + 1) DeckIdle (rd_id ?d) None]"
  define c0 where "c0 = c\<lparr>cd_out := out, cd_rec := (cd_rec c)[i := ?d\<lparr>rd_id := 0\<rparr>]\<rparr>"
  obtain en out' where purge: "PurgeEvent env (int k) c0
      = Inr (c0\<lparr>cd_engine := en, cd_events := list_del k 1 ?es, cd_out := out'\<rparr>)"
    using PurgeEvent_works [of c0 k env] assms(1,6) by (auto simp: c0_def)
  have head: "recordUnloadedData env crd strm msecs c
      = res_bind (PurgeEvent env (int k) c0) (\<lambda>c.
          res_bind (mod_rec (\<lambda>d. d\<lparr>rd_deck_status := DeckIdle\<rparr>) (int i) c) (\<lambda>c.
          res_bind (mod_event (\<lambda>e. e\<lparr>ce_status := DeckIdle\<rparr>) (int k) c) (\<lambda>c.
          res_bind (mod_rec (\<lambda>d. d\<lparr>rd_aborting := False\<rparr>) (int i) c) (\<lambda>c.
          res_bind (vec_get (cd_events c) (int k)) (\<lambda>e.
            if restarts e then engineData env (ce_id e) c else RunRmlRecordingCache env (int i + 1) c)))))"
    using assms(5-7) i
    by (simp add: recordUnloadedData_def deck Let_def vec_get_def mod_rec_def WriteExitCodeById_def emit_def c0_def out_def)
  show thesis
    by (rule that [OF refl, where en = en and out = out']) (simp add: head purge, simp add: c0_def)
qed

text \<open>C38: A one-shot recording spoils the event behind it. When its deck is unloaded the event is purged first and the vector
  then used at its old place: the event that has moved there is marked idle, whatever it is doing, and when the
  one-shot event was the last one, as every recording by macro is at first, the access is out of range.\<close>

theorem one_shot_touches_next:
  assumes "engine_ok (cd_engine c)" "own_stream i crd strm c" "rd_card (cd_rec c ! i) = crd" "rd_stream (cd_rec c ! i) = strm"
    and "GetEvent (rd_id (cd_rec c ! i)) c = int k" "k < length (cd_events c)" "ce_one_shot (cd_events c ! k)"
  shows "(Suc k = length (cd_events c) \<longrightarrow> recordUnloadedData env crd strm msecs c = Inl OutOfRange)
    \<and> (Suc k < length (cd_events c) \<and> \<not> restarts (cd_events c ! Suc k) \<and> rd_pending_cartnum (cd_rec c ! i) = 0 \<longrightarrow>
        (\<exists>c'. recordUnloadedData env crd strm msecs c = Inr c'
           \<and> cd_events c' = take k (cd_events c) @ (cd_events c ! Suc k)\<lparr>ce_status := DeckIdle\<rparr> # drop (k + 2) (cd_events c)))"
proof -
  let ?es = "cd_events c" and ?d = "cd_rec c ! i"
  have i: "i < length (cd_rec c)" using assms(2) by (simp add: own_stream_def)
  obtain ds en out where run: "ds = (cd_rec c)[i := ?d\<lparr>rd_id := 0\<rparr>]" and
    head: "recordUnloadedData env crd strm msecs c
      = res_bind (mod_rec (\<lambda>d. d\<lparr>rd_deck_status := DeckIdle\<rparr>) (int i)
          (c\<lparr>cd_rec := ds, cd_engine := en, cd_events := list_del k 1 ?es, cd_out := out\<rparr>)) (\<lambda>c.
        res_bind (mod_event (\<lambda>e. e\<lparr>ce_status := DeckIdle\<rparr>) (int k) c) (\<lambda>c.
        res_bind (mod_rec (\<lambda>d. d\<lparr>rd_aborting := False\<rparr>) (int i) c) (\<lambda>c.
        res_bind (vec_get (cd_events c) (int k)) (\<lambda>e.
          if restarts e then engineData env (ce_id e) c else RunRmlRecordingCache env (int i + 1) c))))"
    by (rule unload_one_shot [OF assms, where env = env and msecs = msecs])
  define es where "es = list_del k 1 ?es"
  note head = head [folded es_def]
  show ?thesis
  proof (cases "Suc k < length ?es")
    case True
    have es: "k < length es" "es ! k = ?es ! Suc k"
        "es[k := x] = take k ?es @ x # drop (k + 2) ?es" for x
      using True by (simp_all add: es_def list_del_def list_update_append nth_append Cons_nth_drop_Suc [symmetric] numeral_2_eq_2)
    have "\<exists>c'. recordUnloadedData env crd strm msecs c = Inr c' \<and> cd_events c' = es[k := (?es ! Suc k)\<lparr>ce_status := DeckIdle\<rparr>]"
      if next_ok: "\<not> restarts (?es ! Suc k)" "rd_pending_cartnum ?d = 0"
    proof -
      have "\<not> restarts ((?es ! Suc k)\<lparr>ce_status := DeckIdle\<rparr>)" using next_ok(1) by (simp add: restarts_def)
      then show ?thesis
        unfolding head using es(1,2) next_ok(2) i
        by (simp add: mod_rec_def mod_event_def vec_get_def run RunRmlRecordingCache_def)
    qed
    then show ?thesis using True es(3) by simp
  next
    case False
    then have "Suc k = length ?es" "length es = k" using assms(6) by (simp_all add: es_def length_list_del)
    then show ?thesis
      using i unfolding head by (simp add: mod_rec_def mod_event_def run)
  qed
qed

text \<open>Two more that never go well: the second recording by macro while one is there, and every playout.\<close>

lemma second_macro_recording_faults:
  assumes "int (length (cd_events c)) < RDCATCHD_DYNAMIC_BASE_ID" "e \<in> set (cd_events c)" "ce_id e \<ge> RDCATCHD_DYNAMIC_BASE_ID"
  shows "StartRmlRecording env chan cartnum cutnum maxlen c = Inl OutOfRange"
proof -
  let ?c = "c\<lparr>cd_events := cd_events c @ [new_catch_event]\<rparr>"
  have base: "next_id_loop es0 es RDCATCHD_DYNAMIC_BASE_ID = Inl OutOfRange"
    if "int (length es0) \<le> RDCATCHD_DYNAMIC_BASE_ID" "\<exists>e \<in> set es. ce_id e \<ge> RDCATCHD_DYNAMIC_BASE_ID" for es0 es
    using that by (induction es) (auto simp: vec_get_def vec_in_def)
  have "GetNextDynamicId ?c = Inl OutOfRange"
    unfolding GetNextDynamicId_def using assms by (intro base) auto
  then show ?thesis by (simp add: StartRmlRecording_def Let_def split: prod.split)
qed

lemma playing_faults: "length (cd_play c) \<le> 128 \<Longrightarrow> playingData h c = Inl OutOfRange"
proof -
  assume len: "length (cd_play c) \<le> 128"
  have loop: "playout_deck_loop h n ds = -1 \<or> playout_deck_loop h n ds \<ge> n + 129" for n ds
    by (induction h n ds rule: playout_deck_loop.induct) auto
  have outside: "vec_mod f (playout_deck_loop h 0 (cd_play c)) ds = Inl OutOfRange" if "length ds \<le> 128" for f and ds :: "playout_deck list"
    using loop [of 0 "cd_play c"] that by (auto simp: vec_mod_def vec_in_def)
  show ?thesis
  proof (cases "vec_mod (\<lambda>d. d\<lparr>pd_deck_status := DeckRecording\<rparr>) (playout_deck_loop h 0 (cd_play c) - 129) (cd_play c)")
    case (Inl x)
    then show ?thesis by (simp add: playingData_def GetPlayoutDeck_def mod_play_def Let_def vec_mod_def split: if_splits)
  next
    case (Inr ds)
    then have ds: "length ds \<le> 128" "vec_in (cd_play c) (playout_deck_loop h 0 (cd_play c) - 129)" "length ds = length (cd_play c)"
      using len by (auto simp: vec_mod_def split: if_splits)
    have h: "pd_handle (ds ! j) = pd_handle (cd_play c ! j)" if "j < length ds" for j
      using Inr that ds(2) by (cases "j = nat (playout_deck_loop h 0 (cd_play c) - 129)") (auto simp: vec_mod_def split: if_splits)
    have same: "playout_deck_loop h n xs = playout_deck_loop h n ys"
      if "length xs = length ys" "\<forall>j < length xs. pd_handle (xs ! j) = pd_handle (ys ! j)" for n xs ys
      using that
    proof (induction xs arbitrary: ys n)
      case (Cons x xs)
      then obtain y ys' where ys: "ys = y # ys'" by (cases ys) auto
      have "pd_handle x = pd_handle y" "\<forall>j < length xs. pd_handle (xs ! j) = pd_handle (ys' ! j)"
        using Cons.prems(2) ys by force+
      then show ?case using Cons.IH [of ys'] Cons.prems(1) ys by simp
    qed simp
    have "playout_deck_loop h 0 ds = playout_deck_loop h 0 (cd_play c)"
      using h ds(3) by (intro same) auto
    then show ?thesis
      using Inr ds outside [OF ds(1)]
      by (simp add: playingData_def GetPlayoutDeck_def mod_play_def Let_def vec_get_def vec_in_def WriteExitCodeById_def emit_def)
  qed
qed

lemma demo_due: "due_now demo_catch_env 0 0 demo_row demo_catch" "due_now demo_catch_env 1 0 demo_row demo_catch"
  by (simp_all add: due_now_def demo_catch_def demo_catch_env_def demo_recording_def demo_row_def demo_date_def
      new_catch_event_def GetEvent_def Let_def)

lemma demo_own: "own_stream 0 (dr_card demo_row) (dr_port demo_row) demo_catch"
  by (simp add: own_stream_def demo_catch_def demo_row_def demo_record_deck_def nth_replicate del: replicate.simps)

lemma demo_deck: "cd_rec demo_catch ! 0 = demo_record_deck" "\<not> ce_one_shot (cd_events demo_catch ! 0)"
    "\<not> ce_one_shot (cd_events demo_catch ! 1)"
  by (simp_all add: demo_catch_def demo_recording_def new_catch_event_def)

theorem timed_recording_runs_witness:
  "\<exists>c1 c2. engineData demo_catch_env (ce_id (cd_events demo_catch ! 0)) demo_catch = Inr c1
    \<and> ce_status (cd_events c1 ! 0) = DeckRecording
    \<and> catch_run (take_steps (\<lambda>_. demo_catch_env) demo_row 60000) c1 = Inr c2
    \<and> cd_out c2 = cd_out demo_catch @ start_outs demo_catch_env (cd_events demo_catch ! 0) demo_row
        @ finish_outs (cd_events demo_catch ! 0) 0 demo_row 60000
    \<and> rd_deck_status (cd_rec c2 ! 0) = DeckIdle \<and> rd_id (cd_rec c2 ! 0) = 0 \<and> ce_status (cd_events c2 ! 0) = DeckIdle
    \<and> map event_key (cd_events c2) = map event_key (cd_events demo_catch) \<and> cd_engine c2 = cd_engine demo_catch
    \<and> (\<forall>j. j \<noteq> 0 \<longrightarrow> cd_events c2 ! j = cd_events demo_catch ! j) \<and> (\<forall>j. j \<noteq> 0 \<longrightarrow> cd_rec c2 ! j = cd_rec demo_catch ! j)"
  by (rule timed_recording_runs [OF demo_due(1) _ demo_own _ _ demo_deck(2)])
    (simp_all add: demo_deck(1), simp_all add: demo_record_deck_def)

theorem busy_deck_starts_twice_witness:
  "\<exists>c1 c2 c3. engineData demo_catch_env (ce_id (cd_events demo_catch ! 0)) demo_catch = Inr c1
    \<and> engineData demo_catch_env (ce_id (cd_events demo_catch ! 1)) c1 = Inr c2
    \<and> cd_out c2 = cd_out demo_catch @ start_outs demo_catch_env (cd_events demo_catch ! 0) demo_row
        @ start_outs demo_catch_env (cd_events demo_catch ! 1) demo_row
    \<and> rd_id (cd_rec c2 ! 0) = ce_id (cd_events demo_catch ! 1) \<and> ce_status (cd_events c2 ! 1) = DeckRecording
    \<and> catch_run (take_steps (\<lambda>_. demo_catch_env) demo_row 60000) c2 = Inr c3
    \<and> cd_out c3 = cd_out c2 @ finish_outs (cd_events demo_catch ! 1) 0 demo_row 60000
    \<and> ce_status (cd_events c3 ! 1) = DeckIdle \<and> ce_status (cd_events c3 ! 0) = DeckRecording"
  by (rule busy_deck_starts_twice [OF demo_due _ _ demo_own _ _ demo_deck(3)])
    (simp_all add: demo_deck(1), simp_all add: demo_record_deck_def)

definition demo_taken :: catch_daemon where
  "demo_taken = demo_catch\<lparr>cd_events := [demo_recording 5, (demo_recording 6)\<lparr>ce_one_shot := True\<rparr>],
     cd_rec := demo_record_deck\<lparr>rd_card := 0, rd_stream := 1, rd_id := 6\<rparr> # replicate 7 demo_record_deck\<rparr>"

theorem one_shot_touches_next_witness:
  "recordUnloadedData demo_catch_env 0 1 60000 demo_taken = Inl OutOfRange"
proof -
  have "own_stream 0 0 1 demo_taken"
    by (auto simp: own_stream_def demo_taken_def demo_record_deck_def nth_Cons' nth_replicate simp del: replicate.simps)
  moreover have "engine_ok (cd_engine demo_taken)"
    by (simp add: demo_taken_def demo_catch_def new_engine_def engine_ok_def slots_ok_def)
  ultimately show ?thesis
    using one_shot_touches_next [of demo_taken 0 0 1 1 demo_catch_env 60000]
    by (simp add: demo_taken_def demo_record_deck_def demo_recording_def new_catch_event_def GetEvent_def)
qed

end
