(* ===== verification/Spec2Isabelle.thy ===== *)
theory Spec2Isabelle
  imports Svc_Log Ring_Buffer Player_Next Event_Player Catch_Run Catch_Life
begin

text \<open>
  \<^bold>\<open>A verification library for Rivendell\<close>

  Rivendell is a radio automation system written in C++ on Qt 3: a set of user interfaces and
  daemons around a library, \<open>src/lib\<close>, and a SQL database. This development models the core logic
  of the library: the log (the list of events a station plays), the clocks and the music scheduler
  that generate logs, the player that puts a log on air, the macro language by which the processes
  talk to each other, the daemon that records, plays and transfers by a schedule, and the byte queue between
  the audio callbacks and the file threads.

  \<^bold>\<open>Parts and theories.\<close> Each theory imports the parts its code calls.

  \<^item> \<open>Rd_Prelude\<close>: faults as values. A dereference of NULL, a vector index out of range and a
    division by zero yield \<open>Inl\<close> in the type \<open>'a res\<close>. Vectors indexed by \<open>int\<close>, the abstract
    move of a list element, and Qt's \<open>QTime\<close> with its wrap at midnight.
  \<^item> \<open>Qt_String\<close>: the operations of \<open>QString\<close> the code uses, on lists of characters.
  \<^item> \<open>Log_Line\<close>: \<open>RDLogLine\<close> of \<open>lib/rdlog_line.h\<close> and \<open>.cpp\<close>. The record \<open>log_line\<close> has the class's
    members; the getters choose between log and cart pointers as the code does.
  \<^item> \<open>Seq_Editor\<close>: the locale of an event list that is edited by insert, assign and remove.
    \<open>Log_Event\<close> and \<open>Clock\<close> interpret it.
  \<^item> \<open>Log_Event\<close>: \<open>RDLogEvent\<close> of \<open>lib/rdlog_event.cpp\<close>, editing and lookup. Line IDs stay distinct
    and below the counter in every session of edits without \<open>copy\<close>, which repeats an ID, and \<open>move\<close> is the
    abstract move.
  \<^item> \<open>Log_Timing\<close>: the lengths, block lengths and block start times of the same class, against a
    recursive schedule of the block.
  \<^item> \<open>Log_Store\<close>: loading, saving, refreshing and validating a log. The rows that the queries return
    are a parameter, the record \<open>database\<close>. A saved log loads back when its IDs are distinct, since the ID is
    the primary key of the table, and its texts fit their columns.
  \<^item> \<open>Sched_List\<close>: \<open>SchedCartList\<close> of \<open>lib/schedcartlist.cpp\<close>, the candidates of one scheduler slot,
    with the locale \<open>candidate_pool\<close> (remove, save, restore) it implements.
  \<^item> \<open>Sched_Event\<close>: \<open>RDEventLine\<close> of \<open>lib/rdevent_line.cpp\<close>: the rows one event generates, and the
    music scheduler with its title, artist and scheduler code rules. Random picks are a parameter.
  \<^item> \<open>Sched_Link\<close>: \<open>RDEventLine::linkLog\<close>: merging imported traffic or music rows into a log, and the
    autofill of the time left. The autofill recursion has a measure, the time left. The lines added are read
    off the import table by \<open>row_views\<close> and \<open>fill_views\<close>.
  \<^item> \<open>Clock\<close>: \<open>RDClock\<close> of \<open>lib/rdclock.cpp\<close>: the events of an hour, their overlap check, and the
    generation of an hour of log through \<open>Sched_Event\<close>.
  \<^item> \<open>Svc_Import\<close>: \<open>RDSvc::import\<close> of \<open>lib/rdsvc.cpp\<close>: an import file, cut by \<open>fgets\<close>, becomes the rows that
    \<open>linkLog\<close> reads, with the break and track marks found between the events. The statements carry texts of
    the file unescaped, so what the server makes of one is a parameter, the record \<open>import_server\<close>.
  \<^item> \<open>Svc_Log\<close>: the log of a service for a day, \<open>generateLog\<close>, \<open>linkLog\<close> and \<open>clearLogLinks\<close> of \<open>RDSvc\<close> over
    \<open>Clock\<close>, \<open>Sched_Link\<close> and \<open>Log_Store\<close>: the numbering of a generated day, and clearing as the inverse of linking.
  \<^item> \<open>Ring_Buffer\<close>: \<open>RDRingBuffer\<close> of \<open>lib/rdringbuffer.cpp\<close> on 64-bit words, an implementation of the
    locale \<open>byte_queue\<close>. The size loop stops at \<open>2 ^ 30\<close>, the largest power of two of a C \<open>int\<close>; the
    properties assume requests of at most that size.
  \<^item> \<open>Rml_Macro\<close>: \<open>RDMacro\<close> of \<open>lib/rdmacro.cpp\<close>: parsing and printing of macro commands, with the
    bounds of the argument array and of the collecting buffer.
  \<^item> \<open>Macro_Event\<close>: \<open>RDMacroEvent\<close> of \<open>lib/rdmacro_event.cpp\<close>: a macro cart, its text form, and the
    execution machine with its sleep timer. A timeout is a step; signals are outputs.

  \<^item> \<open>Cart_Cuts\<close>: the cuts of a cart, \<open>lib/rdcart.cpp\<close> and \<open>lib/rdcut.cpp\<close>: the rotation that chooses the
    cut to play, the validity of cuts and carts, the lengths, the scheduler codes of a cart.
  \<^item> \<open>Line_Load\<close>: \<open>setEvent\<close> and \<open>loadCart\<close> of \<open>RDLogLine\<close>: what a line takes over from its cart and cut.
  \<^item> \<open>Play_Deck\<close>: \<open>RDPlayDeck\<close> of \<open>lib/rdplay_deck.cpp\<close>: one deck, its point timers and fades, as a step
    relation over the calls of the player, the timers and the answers of the audio engine.
  \<^item> \<open>Player_State\<close>: the members of \<open>LogPlay\<close> of \<open>rdairplay/log_play.cpp\<close>, its queries and its bookkeeping:
    running and next events, predicted times, next stop, post point, transition timer, decks.
  \<^item> \<open>Player_Frame\<close>: what that bookkeeping leaves alone, and that it cannot fail.
  \<^item> \<open>Player_Edit\<close>: inserting, removing, moving, loading, refreshing and clearing a log on air.
  \<^item> \<open>Log_Traffic\<close> and \<open>Wildcards\<close>: the rows the player adds to the reconciliation table, \<open>LogTraffic\<close> of
    \<open>rdairplay/log_traffic.cpp\<close>, and \<open>resolveWildcards\<close> of \<open>RDLogLine\<close>, by which it fills in macro texts.
  \<^item> \<open>Player_Run\<close>: the player on air, the rest of \<open>log_play.cpp\<close>: the user's commands, the search for the next
    playable line, starting and finishing events, the answers of the decks and of the macro deck, the
    transition and grace timers. \<open>air_step\<close> makes one event of any of them and \<open>air_run\<close> a run in
    environments that change with the clock, without edits of the log; \<open>edit_command\<close> is an edit by the user,
    \<open>player_step\<close> either of them.
  \<^item> \<open>Player_Own\<close>: an abstract machine of the lines' statuses and decks, \<open>own_step\<close>, and the proof that each
    operation of the player is a sequence of its steps. \<open>Player_Start\<close>: the same for the mutual recursion of
    starting and finishing, its termination, and the invariant of the decks over all runs without edits; a
    move breaks it.
  \<^item> \<open>Player_Next\<close>: which line is played next, read off the log before the search changes it.
  \<^item> \<open>Event_Player\<close>: \<open>RDEventPlayer\<close> of \<open>lib/rdevent_player.cpp\<close>, the background macros.

  \<^item> \<open>Time_Engine\<close>: \<open>RDTimeEngine\<close> of \<open>lib/rdtimeengine.cpp\<close>, the daily timer: a map from events to times of
    day, and the callbacks by which every event comes due once a day. \<open>Date_Decode\<close>: the date and time codes of
    \<open>lib/rddatedecode.cpp\<close>.
  \<^item> \<open>Catch_State\<close>, \<open>Catch_Daemon\<close>, \<open>Catch_Handlers\<close>: the catch daemon, \<open>rdcatchd/rdcatchd.cpp\<close>: its events, decks and
    macro contexts; starting and removing events; what drives it, with \<open>catch_step\<close> for one input of any kind. The
    commands it sends are the list \<open>cd_out\<close>, what it reads is the record \<open>catch_env\<close> of each step.
  \<^item> \<open>Catch_Sync\<close>, \<open>Catch_Rules\<close>, \<open>Catch_Run\<close>: the events and the timer engine agree after every handler, by a small
    calculus of results that keep it, and over all states reachable without the reset command, which doubles
    the events of the engine. \<open>Catch_Life\<close>: the life of a recording.

  \<^bold>\<open>What the lemmas show.\<close> For every component an invariant kept by its operations, the function of
  each operation on its branches, faults included, and an abstract counterpart: list moves for the
  editors, a recursive schedule for block times, a pool for the candidates, a queue for the ring
  buffer, a trace for the macro machine, round trips for the stored and printed forms, a stable sort
  for the running events. The player's edits are proved against two invariants: every running deck
  carries the number of its line (\<open>deck_ids_ok\<close>), and every playing cart holds a deck (\<open>cart_decks\<close>); its runs
  against a machine in which a deck belongs to one line (\<open>owned\<close>).
  Where the code departs from its intent the theorem states what it does: the duplicated ID of \<open>copy\<close>, the NULL of
  \<open>length\<close>, the notes a marker inherits, the overlap \<open>validate\<close> misses, the counters a scheduled cart
  does not advance, the run \<open>stop\<close> does not end, the overrun of \<open>RDMacroEvent::load\<close>, the deck a move up
  strands, the null deck a move reads while a macro cart runs, the gap \<open>load\<close> keeps, the break that clearing
  takes for its link, the slots a late callback passes over, the deck two recordings share, the event behind a
  one-shot recording, the schedule a reset doubles, the line with a repeated ID that is not saved, the event
  whose statement a quote of the file breaks.

  \<^bold>\<open>Parameters.\<close> Query results (\<open>database\<close>, \<open>clock_db\<close>, \<open>sched_env\<close>, \<open>svc_env\<close>), the text of an import file,
  the server an import writes to (\<open>import_server\<close>), random numbers, the current time, host and address lookups (\<open>exec_env\<close>), the rows a line loads (\<open>line_env\<close>),
  the engine and the ports (\<open>deck_env\<close>, \<open>player_env\<close>), the rows, clock and calendar of the catch daemon (\<open>catch_env\<close>) and uninitialised memory are arguments of the
  definitions. Integers are \<open>int\<close> where the code counts lines and milliseconds far
  from the limits of its types, and words or explicit remainders where wrap-around matters.

  \<^bold>\<open>Fuel.\<close> \<open>clear_blocks\<close> stops after \<open>size() + 1\<close> rounds; \<open>clear_keeps_running\<close> shows that this is enough
  when no refresh brings lines in. \<open>FinishEvent\<close> and \<open>StartEvent\<close> call each other, with the number of lines as fuel;
  \<open>finish_event_ends\<close> shows that more than the number of waiting lines is always enough.

  \<^bold>\<open>Not modelled.\<close> The setters and getters of one line (they are the record fields and their updates),
  XML output, reports, user interfaces, sockets, audio drivers, codecs and files. The
  product of a point and the time scaling ratio is a parameter (floating point). Operations are atomic:
  the concurrent reader and writer of the ring buffer are not interleaved inside an operation, and
  slots connected to a signal do not run inside the step that emits it, except where the player itself
  is the receiver: the \<open>Stopped\<close> a deck reports when the player clears it, and the signals of the macro deck.
  The refresh that a refresh asks for is left out, since the log is up to date by then. Auditioning a
  line uses a player of its own. The commands the player gives a deck emit no other signal; the
  signals of a deck's answer are handled in order after the deck's own step.

  Of the catch daemon the sockets, meters, monitor ports and child processes are left out, and the deletion of
  timers: a timer of a removed event is gone with it.

  \<^bold>\<open>Plan.\<close> The client protocol of \<open>rdcatchd\<close>; the switcher drivers of \<open>ripcd\<close>; the time and escaping conversions of
  \<open>lib\<close>; auditioning; the interleaved ring buffer.
\<close>

end
